(* ===== verification/Router_Prelude.thy ===== *)
theory Router_Prelude
  imports Complex_Main
begin

text \<open>
  Shared ground of the development: the JavaScript values the router's code distinguishes
  (\<^verbatim>\<open>undefined\<close> against \<^verbatim>\<open>null\<close>, finite against non-finite numbers), \<^verbatim>\<open>indexOf\<close> on lists, and
  the collections of rewrite rules the component proofs use.

  Numbers. A \<^verbatim>\<open>number\<close> that the code tests with \<^verbatim>\<open>Number.isFinite\<close> is a \<open>jsnum\<close>; a
  number that is finite by construction is a \<open>real\<close>, an integer counter an \<open>int\<close> or
  \<open>nat\<close>. Rounding of IEEE doubles is not modelled: arithmetic is exact.
  Strings are HOL strings; a character stands for one UTF-16 code unit.
\<close>

named_theorems guard_simps \<open>rewrite rules of the tool-call guard\<close>
named_theorems ladder_simps \<open>rewrite rules of the escalation ladder\<close>
named_theorems beta_simps \<open>rewrite rules of the Beta evidence algebra\<close>

section \<open>JavaScript numbers and optional values\<close>

datatype jsnum = Fin real | PosInf | NegInf | NaN

text \<open>\<^verbatim>\<open>Number.isFinite\<close> on a number.\<close>

fun is_finite :: "jsnum \<Rightarrow> bool" where
  "is_finite (Fin _) = True"
| "is_finite _ = False"

text \<open>A finite number's value, as an option; \<open>None\<close> for NaN and the infinities.\<close>

fun finite_value :: "jsnum \<Rightarrow> real option" where
  "finite_value (Fin x) = Some x"
| "finite_value _ = None"

lemma is_finite_value: "is_finite x \<longleftrightarrow> (\<exists>r. finite_value x = Some r)"
  by (cases x) auto

lemma finite_value_Some [simp]: "finite_value x = Some r \<longleftrightarrow> x = Fin r"
  by (cases x) auto

text \<open>
  A value of type \<^verbatim>\<open>unknown\<close>, as far as the router's checks look into it: a number, a string,
  or anything else.
\<close>

datatype jsval = JUndef | JNull | JNum jsnum | JStr string | JOther

text \<open>\<^verbatim>\<open>undefined\<close>, \<^verbatim>\<open>null\<close> or a value, for the fields whose absence the code tests.\<close>

datatype 'a jsopt = Undefined | Null | Def 'a

text \<open>\<^verbatim>\<open>x ?? d\<close>: the value, if there is one.\<close>

fun nullish :: "'a jsopt \<Rightarrow> 'a option" where
  "nullish (Def x) = Some x"
| "nullish _ = None"

fun of_option :: "'a option \<Rightarrow> 'a jsopt" where
  "of_option None = Null"
| "of_option (Some x) = Def x"

lemma nullish_of_option [simp]: "nullish (of_option x) = x"
  by (cases x) auto

lemma of_option_defined [simp]: "of_option x \<noteq> Undefined"
  by (cases x) auto

lemma nullish_Some [simp]: "nullish x = Some y \<longleftrightarrow> x = Def y"
  by (cases x) auto

text \<open>\<^verbatim>\<open>a ?? b\<close> on options.\<close>

definition or_else :: "'a option \<Rightarrow> 'a \<Rightarrow> 'a" where
  "or_else x d = (case x of None \<Rightarrow> d | Some y \<Rightarrow> y)"

lemma or_else_simps [simp]: "or_else None d = d" "or_else (Some y) d = y"
  by (simp_all add: or_else_def)

text \<open>The first of two results, as \<^verbatim>\<open>f() ?? g()\<close> on nullable results.\<close>

definition first_some :: "'a option \<Rightarrow> 'a option \<Rightarrow> 'a option" where
  "first_some x y = (case x of None \<Rightarrow> y | Some v \<Rightarrow> Some v)"

lemma first_some_simps [simp]:
  "first_some None y = y" "first_some (Some v) y = Some v" "first_some x None = x"
  by (auto simp: first_some_def split: option.splits)

text \<open>Numbers of the router's own records seen as \<^verbatim>\<open>unknown\<close> values.\<close>

fun num_of :: "jsnum jsopt \<Rightarrow> jsval" where
  "num_of Undefined = JUndef"
| "num_of Null = JNull"
| "num_of (Def x) = JNum x"

fun num_of_real :: "real option \<Rightarrow> jsval" where
  "num_of_real None = JNull"
| "num_of_real (Some x) = JNum (Fin x)"

section \<open>indexOf\<close>

text \<open>\<^verbatim>\<open>xs.indexOf(x)\<close>: the first position, or -1.\<close>

fun index_of :: "'a list \<Rightarrow> 'a \<Rightarrow> int" where
  "index_of [] x = -1"
| "index_of (y # ys) x =
     (if y = x then 0 else (let i = index_of ys x in if i < 0 then -1 else i + 1))"

lemma index_of_ge: "-1 \<le> index_of xs x"
  by (induction xs) (auto simp: Let_def)

lemma index_of_less: "index_of xs x < int (length xs)"
  by (induction xs) (auto simp: Let_def)

lemma index_of_nonneg_iff: "0 \<le> index_of xs x \<longleftrightarrow> x \<in> set xs"
  by (induction xs) (auto simp: Let_def)

lemma index_of_nth: "0 \<le> index_of xs x \<Longrightarrow> xs ! nat (index_of xs x) = x"
  by (induction xs) (auto simp: Let_def nat_add_distrib split: if_splits)

lemma index_of_notin: "x \<notin> set xs \<Longrightarrow> index_of xs x = -1"
  using index_of_nonneg_iff [of xs x] index_of_ge [of xs x] by simp

lemma index_of_inj:
  assumes "0 \<le> index_of xs x" and "index_of xs x = index_of xs y"
  shows "x = y"
  by (metis assms index_of_nth)

lemma index_of_nth_le: "i < length xs \<Longrightarrow> index_of xs (xs ! i) \<le> int i"
proof (induction xs arbitrary: i)
  case Nil
  then show ?case by simp
next
  case (Cons y ys)
  show ?case
  proof (cases i)
    case 0
    then show ?thesis by simp
  next
    case (Suc j)
    with Cons.prems Cons.IH [of j] show ?thesis by (auto simp: Let_def)
  qed
qed

lemma index_of_distinct_nth:
  "distinct xs \<Longrightarrow> i < length xs \<Longrightarrow> index_of xs (xs ! i) = int i"
proof (induction xs arbitrary: i)
  case Nil
  then show ?case by simp
next
  case (Cons y ys)
  show ?case
  proof (cases i)
    case 0
    then show ?thesis by simp
  next
    case (Suc j)
    with Cons.prems Cons.IH [of j] show ?thesis by (auto simp: Let_def)
  qed
qed

text \<open>Deduplication that keeps the first occurrence: \<^verbatim>\<open>[...new Set(xs)]\<close>.\<close>

fun uniq :: "'a list \<Rightarrow> 'a list" where
  "uniq [] = []"
| "uniq (x # xs) = x # filter (\<lambda>y. y \<noteq> x) (uniq xs)"

lemma set_uniq [simp]: "set (uniq xs) = set xs"
  by (induction xs) auto

lemma distinct_uniq [simp]: "distinct (uniq xs)"
  by (induction xs) auto

end
