(* ===== verification/Js_Map.thy ===== *)
theory Js_Map
  imports Router_Prelude
begin

text \<open>
  The JavaScript \<^verbatim>\<open>Map\<close> the router's stores are built on. Its iteration order is insertion
  order, which the bounded stores use to find the oldest entry, so the model is an association
  list without duplicate keys: \<^verbatim>\<open>set\<close> of a present key keeps its place, \<^verbatim>\<open>set\<close> of a new key
  appends, \<^verbatim>\<open>delete\<close> removes. The locale \<open>keyed_map\<close> states what the stores rely on; its
  client lemmas (the delete-then-set refresh of a least-recently-used map, frame facts) are proved
  from the laws and reach the stores through the interpretation \<open>jm\<close>.
\<close>

section \<open>The interface\<close>

locale keyed_map =
  fixes get :: "'m \<Rightarrow> 'k \<Rightarrow> 'v option"
    and put :: "'k \<Rightarrow> 'v \<Rightarrow> 'm \<Rightarrow> 'm"
    and del :: "'k \<Rightarrow> 'm \<Rightarrow> 'm"
    and keys :: "'m \<Rightarrow> 'k list"
    and wf :: "'m \<Rightarrow> bool"
  assumes get_put: "get (put k v m) j = (if j = k then Some v else get m j)"
    and get_del: "get (del k m) j = (if j = k then None else get m j)"
    and mem_keys: "j \<in> set (keys m) \<longleftrightarrow> get m j \<noteq> None"
    and keys_put: "keys (put k v m) = (if get m k = None then keys m @ [k] else keys m)"
    and keys_del: "keys (del k m) = filter (\<lambda>j. j \<noteq> k) (keys m)"
    and wf_distinct: "wf m \<longleftrightarrow> distinct (keys m)"
begin

lemma wf_put: "wf m \<Longrightarrow> wf (put k v m)"
  by (auto simp: wf_distinct keys_put mem_keys)

lemma wf_del: "wf m \<Longrightarrow> wf (del k m)"
  by (simp add: wf_distinct keys_del)

text \<open>The refresh of a least-recently-used map: delete, then set.\<close>

lemma get_refresh: "get (put k v (del k m)) j = (if j = k then Some v else get m j)"
  by (simp add: get_put get_del)

lemma keys_refresh: "keys (put k v (del k m)) = filter (\<lambda>j. j \<noteq> k) (keys m) @ [k]"
  by (simp add: keys_put keys_del get_del)

lemma wf_refresh: "wf m \<Longrightarrow> wf (put k v (del k m))"
  by (intro wf_put wf_del)

lemma length_refresh: "length (keys (put k v (del k m))) \<le> Suc (length (keys m))"
  by (simp add: keys_refresh)

lemma length_refresh_present:
  assumes "wf m" and "get m k \<noteq> None"
  shows "length (keys (put k v (del k m))) = length (keys m)"
proof -
  have d: "distinct (keys m)" and k: "k \<in> set (keys m)"
    using assms by (simp_all add: wf_distinct mem_keys)
  have "length (filter (\<lambda>j. j \<noteq> k) (keys m)) = card (set (keys m) - {k})"
    using d by (simp add: distinct_card [symmetric] set_diff_eq)
  also have "\<dots> = length (keys m) - 1"
    using d k by (simp add: distinct_card)
  finally show ?thesis
    using k by (cases "keys m") (auto simp: keys_refresh)
qed

lemma get_del_other: "j \<noteq> k \<Longrightarrow> get (del k m) j = get m j"
  by (simp add: get_del)

lemma get_put_other: "j \<noteq> k \<Longrightarrow> get (put k v m) j = get m j"
  by (simp add: get_put)

end

section \<open>The model of Map\<close>

type_synonym ('k, 'v) jsmap = "('k \<times> 'v) list"

abbreviation map_get :: "('k, 'v) jsmap \<Rightarrow> 'k \<Rightarrow> 'v option" where
  "map_get \<equiv> map_of"

fun map_set :: "'k \<Rightarrow> 'v \<Rightarrow> ('k, 'v) jsmap \<Rightarrow> ('k, 'v) jsmap" where
  "map_set k v [] = [(k, v)]"
| "map_set k v ((j, w) # m) = (if j = k then (k, v) # m else (j, w) # map_set k v m)"

definition map_delete :: "'k \<Rightarrow> ('k, 'v) jsmap \<Rightarrow> ('k, 'v) jsmap" where
  "map_delete k m = filter (\<lambda>p. fst p \<noteq> k) m"

definition map_keys :: "('k, 'v) jsmap \<Rightarrow> 'k list" where
  "map_keys m = map fst m"

definition wf_map :: "('k, 'v) jsmap \<Rightarrow> bool" where
  "wf_map m \<longleftrightarrow> distinct (map fst m)"

lemma map_get_set: "map_get (map_set k v m) j = (if j = k then Some v else map_get m j)"
  by (induction m rule: map_set.induct) auto

lemma map_get_delete: "map_get (map_delete k m) j = (if j = k then None else map_get m j)"
  by (induction m) (auto simp: map_delete_def)

lemma map_keys_set:
  "map_keys (map_set k v m) = (if map_get m k = None then map_keys m @ [k] else map_keys m)"
  by (induction m rule: map_set.induct) (auto simp: map_keys_def)

lemma map_keys_delete: "map_keys (map_delete k m) = filter (\<lambda>j. j \<noteq> k) (map_keys m)"
  by (induction m) (auto simp: map_keys_def map_delete_def)

lemma map_keys_mem: "j \<in> set (map_keys m) \<longleftrightarrow> map_get m j \<noteq> None"
  by (simp add: map_keys_def map_of_eq_None_iff)

lemma wf_map_keys: "wf_map m \<longleftrightarrow> distinct (map_keys m)"
  by (simp add: wf_map_def map_keys_def)

interpretation jm: keyed_map map_get map_set map_delete map_keys wf_map
  by unfold_locales
    (simp_all add: map_get_set map_get_delete map_keys_mem map_keys_set map_keys_delete wf_map_keys)

lemmas map_simps = map_get_set map_get_delete jm.get_refresh

lemma length_map_keys [simp]: "length (map_keys m) = length m"
  by (simp add: map_keys_def)

lemma wf_map_Nil [simp]: "wf_map []"
  by (simp add: wf_map_def)

lemma length_map_set_le: "length (map_set k v m) \<le> Suc (length m)"
  by (induction m rule: map_set.induct) auto

lemma length_map_set_present: "map_get m k \<noteq> None \<Longrightarrow> length (map_set k v m) = length m"
  by (induction m rule: map_set.induct) (auto split: if_splits)

section \<open>Bounded maps\<close>

text \<open>
  The eviction loop of the bounded stores (\<^verbatim>\<open>while (map.size > max) map.delete(first key)\<close>),
  as in \<^verbatim>\<open>remember\<close> of \<^verbatim>\<open>outcomes/store.ts\<close>.
\<close>

function evict_oldest :: "nat \<Rightarrow> ('k, 'v) jsmap \<Rightarrow> ('k, 'v) jsmap" where
  "evict_oldest mx m =
     (case m of [] \<Rightarrow> m
      | p # _ \<Rightarrow> if mx < length m then evict_oldest mx (map_delete (fst p) m) else m)"
  by pat_completeness auto
termination
proof (relation "measure (\<lambda>(mx, m). length m)", goal_cases)
  case 1
  then show ?case by simp
next
  case (2 mx m p ps)
  then show ?case
    by (simp add: map_delete_def less_Suc_eq_le)
qed

declare evict_oldest.simps [simp del]

lemma map_delete_hd: "wf_map (p # m) \<Longrightarrow> map_delete (fst p) (p # m) = m"
  by (auto simp: map_delete_def wf_map_def filter_id_conv image_iff)

text \<open>On a well-formed map the loop drops exactly the oldest surplus entries.\<close>

lemma evict_oldest_drop: "wf_map m \<Longrightarrow> evict_oldest mx m = drop (length m - mx) m"
proof (induction m)
  case Nil
  then show ?case by (simp add: evict_oldest.simps)
next
  case (Cons p m)
  then have "wf_map m" by (simp add: wf_map_def)
  with Cons.IH have IH: "evict_oldest mx m = drop (length m - mx) m" by simp
  show ?case
  proof (cases "mx < length (p # m)")
    case True
    then have "evict_oldest mx (p # m) = evict_oldest mx m"
      using map_delete_hd [OF Cons.prems] by (subst evict_oldest.simps) simp
    with True IH show ?thesis by (simp add: Suc_diff_le)
  next
    case False
    then show ?thesis by (subst evict_oldest.simps) simp
  qed
qed

lemma wf_map_drop: "wf_map m \<Longrightarrow> wf_map (drop n m)"
  by (simp add: wf_map_def drop_map [symmetric])

lemma set_map_set: "set (map_set k v m) \<subseteq> insert (k, v) (set m)"
  by (induction m rule: map_set.induct) (auto split: if_splits)

lemma set_map_delete: "set (map_delete k m) \<subseteq> set m"
  by (auto simp: map_delete_def)

lemma set_evict: "set (evict_oldest mx m) \<subseteq> set m"
proof (induction mx m rule: evict_oldest.induct)
  case (1 mx m)
  show ?case
  proof (cases m)
    case Nil
    then show ?thesis by (simp add: evict_oldest.simps)
  next
    case (Cons p ps)
    with 1 show ?thesis
      using set_map_delete [of "fst p" m] by (subst evict_oldest.simps) auto
  qed
qed

lemma length_evict: "wf_map m \<Longrightarrow> length (evict_oldest mx m) = min mx (length m)"
  by (simp add: evict_oldest_drop)

lemma length_delete: "wf_map m \<Longrightarrow> map_get m k \<noteq> None \<Longrightarrow> length m = Suc (length (map_delete k m))"
proof (induction m)
  case (Cons p m)
  show ?case
  proof (cases "fst p = k")
    case True
    then show ?thesis using map_delete_hd [OF Cons.prems(1)] by simp
  next
    case False
    with Cons show ?thesis by (cases p) (simp add: map_delete_def wf_map_def)
  qed
qed simp

lemma map_get_drop: "wf_map m \<Longrightarrow> map_get (drop n m) k = Some v \<Longrightarrow> map_get m k = Some v"
  unfolding wf_map_def by (rule map_of_is_SomeI [OF _ in_set_dropD [OF map_of_SomeD]])

lemma filter_get: "wf_map m \<Longrightarrow> map_get (filter P m) k = Some v \<Longrightarrow> map_get m k = Some v"
  unfolding wf_map_def by (rule map_of_is_SomeI) (auto dest: map_of_SomeD)

text \<open>LRU \<^verbatim>\<open>remember\<close>: refresh (delete, set), then evict from the front.\<close>

definition remember :: "'k \<Rightarrow> 'v \<Rightarrow> nat \<Rightarrow> ('k, 'v) jsmap \<Rightarrow> ('k, 'v) jsmap" where
  "remember k v mx m = evict_oldest mx (map_set k v (map_delete k m))"

lemma wf_remember: "wf_map m \<Longrightarrow> wf_map (remember k v mx m)"
  by (simp add: remember_def evict_oldest_drop jm.wf_refresh wf_map_drop)

lemma length_remember: "wf_map m \<Longrightarrow> length (remember k v mx m) \<le> mx"
  by (simp add: remember_def evict_oldest_drop jm.wf_refresh)

lemma set_remember: "set (remember k v mx m) \<subseteq> insert (k, v) (set m)"
  using set_evict [of mx "map_set k v (map_delete k m)"] set_map_set [of k v "map_delete k m"] set_map_delete [of k m]
  by (auto simp: remember_def)

lemma map_set_fresh: "map_get m k = None \<Longrightarrow> map_set k v m = m @ [(k, v)]"
  by (induction m rule: map_set.induct) (auto split: if_splits)

lemma refresh_append: "map_set k v (map_delete k m) = map_delete k m @ [(k, v)]"
  by (simp add: map_set_fresh map_get_delete)

text \<open>With room for one entry the entry just remembered is there.\<close>

lemma remember_get:
  assumes "wf_map m" and "0 < mx"
  shows "map_get (remember k v mx m) k = Some v"
proof -
  let ?m = "map_delete k m @ [(k, v)]"
  have wf: "wf_map ?m"
    using jm.wf_refresh [OF assms(1), of k v] by (simp add: refresh_append)
  have "remember k v mx m = drop (length ?m - mx) ?m"
    using evict_oldest_drop [OF wf] by (simp add: remember_def refresh_append)
  moreover have "(k, v) \<in> set (drop (length ?m - mx) ?m)"
    using assms(2) by (cases mx) (auto simp: Suc_diff_le)
  ultimately have "(k, v) \<in> set (remember k v mx m)" by simp
  moreover have "distinct (map fst (remember k v mx m))"
    using wf_remember [OF assms(1), of k v mx] by (simp add: wf_map_def)
  ultimately show ?thesis by (rule map_of_is_SomeI [rotated])
qed

text \<open>What survives a \<open>remember\<close> was there before, unchanged, or is the entry just stored.\<close>

lemma remember_get_sub:
  assumes wf: "wf_map m" and get: "map_get (remember k v mx m) j = Some w"
  shows "if j = k then w = v else map_get m j = Some w"
proof -
  let ?m = "map_set k v (map_delete k m)"
  have wf': "wf_map ?m" by (rule jm.wf_refresh [OF wf])
  have "(j, w) \<in> set (drop (length ?m - mx) ?m)"
    using get evict_oldest_drop [OF wf'] by (simp add: remember_def map_of_SomeD)
  then have "(j, w) \<in> set ?m" by (rule in_set_dropD)
  then have "map_get ?m j = Some w"
    using wf' by (simp add: wf_map_def map_of_eq_Some_iff)
  then show ?thesis by (simp add: map_simps split: if_splits)
qed

text \<open>
  Recency: the keys remembered after \<open>k\<close> are among \<open>S\<close>. As long as \<open>S\<close> is smaller than the limit, \<open>k\<close> is kept.
\<close>

definition recent :: "'k \<Rightarrow> 'k set \<Rightarrow> ('k, 'v) jsmap \<Rightarrow> bool" where
  "recent k S m \<longleftrightarrow> (\<exists>xs v ys. m = xs @ (k, v) # ys \<and> fst ` set ys \<subseteq> S)"

lemma recent_get: "recent k S m \<Longrightarrow> map_get m k \<noteq> None"
  by (auto simp: recent_def map_of_eq_None_iff)

lemma recent_mono: "recent k S m \<Longrightarrow> S \<subseteq> T \<Longrightarrow> recent k T m"
  unfolding recent_def by (metis subset_trans)

lemma recent_remember_same:
  assumes "wf_map m" "0 < mx"
  shows "recent k S (remember k v mx m)"
proof -
  let ?m = "map_delete k m @ [(k, v)]"
  have wf: "wf_map ?m" using jm.wf_refresh [OF assms(1), of k v] by (simp add: refresh_append)
  have "remember k v mx m = drop (length ?m - mx) (map_delete k m) @ [(k, v)]"
    using evict_oldest_drop [OF wf] assms(2) by (cases mx) (simp_all add: remember_def refresh_append)
  then show ?thesis unfolding recent_def by (intro exI [of _ v] exI [of _ "[]"] exI) simp
qed

lemma recent_remember:
  assumes wf: "wf_map m" and r: "recent k S m" and j: "j \<noteq> k" and fin: "finite S" and small: "card (insert j S) < mx"
  shows "recent k (insert j S) (remember j w mx m)"
proof -
  from r obtain xs v ys where m: "m = xs @ (k, v) # ys" and ys: "fst ` set ys \<subseteq> S" by (auto simp: recent_def)
  define ys' where "ys' = map_delete j ys @ [(j, w)]"
  have app: "map_delete j m @ [(j, w)] = map_delete j xs @ (k, v) # ys'"
    using j by (simp add: m map_delete_def ys'_def)
  have wf': "wf_map (map_delete j m @ [(j, w)])"
    using jm.wf_refresh [OF wf, of j w] by (simp add: refresh_append)
  have sub: "fst ` set ys' \<subseteq> insert j S" using ys by (auto simp: ys'_def map_delete_def)
  have "distinct (map fst ys')" using wf' unfolding app by (simp add: wf_map_def)
  then have "length ys' = card (fst ` set ys')" using distinct_card [of "map fst ys'"] by simp
  also have "\<dots> \<le> card (insert j S)" using sub fin by (intro card_mono) auto
  finally have len: "length ys' < mx" using small by simp
  have "remember j w mx m = drop (length (map_delete j xs) + Suc (length ys') - mx) (map_delete j xs @ (k, v) # ys')"
    using evict_oldest_drop [OF wf', of mx] by (simp add: remember_def refresh_append app)
  also have "\<dots> = drop (length (map_delete j xs) + Suc (length ys') - mx) (map_delete j xs) @ (k, v) # ys'"
    using len by (simp add: drop_append)
  finally show ?thesis using sub by (auto simp: recent_def)
qed

end
