(* ===== verification/Variants.thy ===== *)
theory Variants
  imports Router_Prelude
begin

text \<open>
  The catalog half of the ladder algebra, \<^verbatim>\<open>src/escalate/variants.ts\<close>: the effort scale, the
  variant ladder of one model, the next variant step, when a tier's base variant is covered by a
  variant already tried, a model's input budget and the resume-or-fresh decision. Everything is
  pure. Host data of type \<^verbatim>\<open>unknown\<close> is a \<open>jsval\<close>.
\<close>

section \<open>The effort scale\<close>

definition HOST_EFFORT_ORDER :: "string list" where
  "HOST_EFFORT_ORDER = [''none'', ''minimal'', ''low'', ''medium'', ''high'', ''xhigh'', ''max'']"

definition DEFAULT_VARIANT :: string where
  "DEFAULT_VARIANT = ''default''"

definition DEFAULT_VARIANT_POSITION :: real where
  "DEFAULT_VARIANT_POSITION = of_int (index_of HOST_EFFORT_ORDER ''high'') - 1 / 2"

definition variantRank :: "string \<Rightarrow> int" where
  "variantRank vid = index_of HOST_EFFORT_ORDER vid"

text \<open>\<^verbatim>\<open>id == null || id === "" || id === DEFAULT_VARIANT\<close>; \<open>None\<close> is null or undefined.\<close>

definition is_default :: "string option \<Rightarrow> bool" where
  "is_default v \<longleftrightarrow> v = None \<or> v = Some [] \<or> v = Some DEFAULT_VARIANT"

definition variantPosition :: "string option \<Rightarrow> real option" where
  "variantPosition v =
     (if is_default v then Some DEFAULT_VARIANT_POSITION
      else (case v of None \<Rightarrow> None
            | Some vid \<Rightarrow> (let r = variantRank vid in if 0 \<le> r then Some (of_int r) else None)))"

text \<open>The interval a variant occupies, as the pair of its low and high end.\<close>

definition variantRange :: "string option \<Rightarrow> (int \<times> int) option" where
  "variantRange v =
     (if is_default v then Some (-1, variantRank ''high'')
      else (case v of None \<Rightarrow> None
            | Some vid \<Rightarrow> (let r = variantRank vid in if 0 \<le> r then Some (r, r) else None)))"

definition normalized :: "string option \<Rightarrow> string" where
  "normalized v = (case v of None \<Rightarrow> DEFAULT_VARIANT
                   | Some vid \<Rightarrow> if vid = [] then DEFAULT_VARIANT else vid)"

definition variantCovered :: "string option \<Rightarrow> string option \<Rightarrow> bool" where
  "variantCovered base reached \<longleftrightarrow>
     normalized base = normalized reached \<or>
     (case (variantRange base, variantRange reached) of
        (Some (_, bhigh), Some (rlow, _)) \<Rightarrow> bhigh \<le> rlow
      | _ \<Rightarrow> False)"

section \<open>Catalog entries\<close>

record model_limit =
  ml_context :: jsval
  ml_input :: jsval
  ml_output :: jsval

text \<open>
  \<open>cm_variants\<close> holds the \<^verbatim>\<open>entry?.id\<close> of every entry of the host's \<^verbatim>\<open>variants\<close>
  array, \<open>None\<close> when \<^verbatim>\<open>variants\<close> is not an array.
\<close>

record catalog_model =
  cm_variants :: "jsval list option"
  cm_limit :: "model_limit option"

text \<open>The ids accepted so far are carried along, as the loop's \<^verbatim>\<open>ids\<close>.\<close>

fun catalog_ids :: "string list \<Rightarrow> jsval list \<Rightarrow> string list" where
  "catalog_ids ids [] = ids"
| "catalog_ids ids (JStr v # vs) =
     (if v = [] \<or> v = DEFAULT_VARIANT \<or> v \<in> set ids then catalog_ids ids vs
      else catalog_ids (ids @ [v]) vs)"
| "catalog_ids ids (_ # vs) = catalog_ids ids vs"

definition catalogVariantIds :: "catalog_model option \<Rightarrow> string list option" where
  "catalogVariantIds cat =
     (case cat of None \<Rightarrow> None
      | Some c \<Rightarrow> (case cm_variants c of None \<Rightarrow> None | Some vs \<Rightarrow> Some (catalog_ids [] vs)))"

section \<open>Candidates of a tier\<close>

text \<open>One entry of \<^verbatim>\<open>tiers.<t>.candidates\<close>; \<open>None\<close> is an entry that is no object.\<close>

record variant_candidate =
  vc_model :: jsval
  vc_variant :: jsval

type_synonym foreign_rung = "string \<times> string option"

record candidate_scan =
  cs_named :: "string list"
  cs_foreign :: "foreign_rung list"
  cs_explicit :: bool

fun candidate_variant :: "jsval \<Rightarrow> string option" where
  "candidate_variant (JStr v) = (if v = [] then None else Some v)"
| "candidate_variant _ = None"

text \<open>\<^verbatim>\<open>candidate.model ?? model\<close>, \<open>None\<close> when that is not a string.\<close>

fun candidate_model :: "string \<Rightarrow> jsval \<Rightarrow> string option" where
  "candidate_model model JUndef = Some model"
| "candidate_model model JNull = Some model"
| "candidate_model model (JStr m) = Some m"
| "candidate_model model _ = None"

definition scan_one :: "string \<Rightarrow> variant_candidate option \<Rightarrow> candidate_scan \<Rightarrow> candidate_scan" where
  "scan_one model c s =
     (case c of None \<Rightarrow> s
      | Some cand \<Rightarrow>
         (case candidate_model model (vc_model cand) of None \<Rightarrow> s
          | Some cm \<Rightarrow>
             (let v = candidate_variant (vc_variant cand) in
              if cm \<noteq> model
              then (if (cm, v) \<in> set (cs_foreign s) then s
                    else s\<lparr>cs_foreign := cs_foreign s @ [(cm, v)]\<rparr>)
              else (case v of None \<Rightarrow> s
                    | Some vid \<Rightarrow> if vid \<in> set (cs_named s) then s
                                 else s\<lparr>cs_named := cs_named s @ [vid]\<rparr>))))"

text \<open>\<open>None\<close>: no \<^verbatim>\<open>candidates\<close> array.\<close>

definition scanCandidates :: "string \<Rightarrow> variant_candidate option list option \<Rightarrow> candidate_scan" where
  "scanCandidates model cands =
     (let empty = \<lparr>cs_named = [], cs_foreign = [], cs_explicit = False\<rparr> in
      case cands of None \<Rightarrow> empty
      | Some [] \<Rightarrow> empty
      | Some cs \<Rightarrow> fold (scan_one model) cs (empty\<lparr>cs_explicit := True\<rparr>))"

section \<open>The variant ladder of a model\<close>

datatype ladder_source = SrcCatalog | SrcCandidates | SrcNone

record variant_ladder =
  vl_model :: string
  vl_variants :: "string list"
  vl_source :: ladder_source
  vl_rejected :: "string list"
  vl_foreign :: "foreign_rung list"

record ladder_input =
  li_model :: string
  li_catalog :: "catalog_model option"
  li_candidates :: "variant_candidate option list option"
  li_maxEffort :: "string option"

text \<open>The loop over the named candidates: kept and rejected ids, \<open>lst\<close> the last kept rank.\<close>

fun keep_named :: "string list \<Rightarrow> int \<Rightarrow> string list \<Rightarrow> string list \<times> string list" where
  "keep_named catalogIds lst [] = ([], [])"
| "keep_named catalogIds lst (vid # ids) =
     (let rank = variantRank vid in
      if vid \<notin> set catalogIds \<or> rank < 0 \<or> rank \<le> lst
      then (let (vs, rs) = keep_named catalogIds lst ids in (vs, vid # rs))
      else (let (vs, rs) = keep_named catalogIds rank ids in (vid # vs, rs)))"

text \<open>The loop over the catalog ids below the cap (\<open>None\<close>: no cap).\<close>

fun keep_catalog :: "int option \<Rightarrow> int \<Rightarrow> string list \<Rightarrow> string list" where
  "keep_catalog cap lst [] = []"
| "keep_catalog cap lst (vid # ids) =
     (let rank = variantRank vid in
      if rank < 0 \<or> (case cap of None \<Rightarrow> False | Some c \<Rightarrow> c < rank) \<or> rank \<le> lst
      then keep_catalog cap lst ids
      else vid # keep_catalog cap rank ids)"

definition buildVariantLadder :: "ladder_input \<Rightarrow> variant_ladder" where
  "buildVariantLadder inp =
     (let model = li_model inp; scan = scanCandidates model (li_candidates inp) in
      case catalogVariantIds (li_catalog inp) of
        None \<Rightarrow> \<lparr>vl_model = model, vl_variants = [], vl_source = SrcNone,
                 vl_rejected = cs_named scan, vl_foreign = cs_foreign scan\<rparr>
      | Some catalogIds \<Rightarrow>
         (if cs_explicit scan
          then (let (vs, rs) = keep_named catalogIds (-1) (cs_named scan) in
                \<lparr>vl_model = model, vl_variants = vs, vl_source = SrcCandidates,
                 vl_rejected = rs, vl_foreign = cs_foreign scan\<rparr>)
          else \<lparr>vl_model = model,
                vl_variants = keep_catalog (map_option variantRank (li_maxEffort inp)) (-1) catalogIds,
                vl_source = SrcCatalog, vl_rejected = [], vl_foreign = []\<rparr>))"

text \<open>\<^verbatim>\<open>ids[at + 1] ?? null\<close> and the search of the first id ranked above a position.\<close>

definition nth_or_null :: "'a list \<Rightarrow> nat \<Rightarrow> 'a option" where
  "nth_or_null xs i = (if i < length xs then Some (xs ! i) else None)"

definition nextVariant :: "variant_ladder \<Rightarrow> string option \<Rightarrow> string option" where
  "nextVariant ladder current =
     (let ids = vl_variants ladder; effective = normalized current;
          k = index_of ids effective in
      if ids = [] then None
      else if 0 \<le> k then nth_or_null ids (nat k + 1)
      else (case variantPosition (Some effective) of
              None \<Rightarrow> None
            | Some position \<Rightarrow>
                List.find (\<lambda>vid. 0 \<le> variantRank vid \<and> position < of_int (variantRank vid)) ids))"

definition modelRef :: "string \<Rightarrow> string option \<Rightarrow> string" where
  "modelRef model v = (if is_default v then model
     else (case v of None \<Rightarrow> model | Some vid \<Rightarrow> model @ ''#'' @ vid))"

section \<open>Budgets, token estimates and the resume decision\<close>

fun finiteAtLeast :: "jsval \<Rightarrow> real \<Rightarrow> bool \<Rightarrow> real option" where
  "finiteAtLeast (JNum (Fin x)) mn inclusive = (if mn < x \<or> (inclusive \<and> x = mn) then Some x else None)"
| "finiteAtLeast _ mn inclusive = None"

definition inputBudget :: "model_limit option \<Rightarrow> real option" where
  "inputBudget limits =
     (case limits of None \<Rightarrow> None
      | Some l \<Rightarrow>
         (if ml_input l \<noteq> JUndef \<and> ml_input l \<noteq> JNull then finiteAtLeast (ml_input l) 0 False
          else (case (finiteAtLeast (ml_context l) 0 False, finiteAtLeast (ml_output l) 0 True) of
                  (Some context, Some output) \<Rightarrow>
                    if output < context then Some (context - output) else None
                | _ \<Rightarrow> None)))"

text \<open>\<^verbatim>\<open>tokens.cache\<close>: absent (null or undefined), an object, or not an object.\<close>

datatype step_cache = CacheAbsent | CacheObj jsval jsval | CacheOther

record step_tokens =
  st_input :: jsval
  st_output :: jsval
  st_cache :: step_cache

definition cache_field :: "jsval \<Rightarrow> real option" where
  "cache_field v = (if v = JUndef then Some 0 else finiteAtLeast v 0 True)"

definition stepContextTokens :: "step_tokens option \<Rightarrow> real option" where
  "stepContextTokens tokens =
     (case tokens of None \<Rightarrow> None
      | Some t \<Rightarrow>
         (case (case st_cache t of CacheAbsent \<Rightarrow> Some (JUndef, JUndef)
                | CacheObj r w \<Rightarrow> Some (r, w) | CacheOther \<Rightarrow> None) of
            None \<Rightarrow> None
          | Some (r, w) \<Rightarrow>
             (case (finiteAtLeast (st_input t) 0 True, finiteAtLeast (st_output t) 0 True,
                    cache_field r, cache_field w) of
                (Some input, Some output, Some read, Some write) \<Rightarrow> Some (input + read + write + output)
              | _ \<Rightarrow> None)))"

definition estimateTokensFromChars :: "jsnum \<Rightarrow> real option" where
  "estimateTokensFromChars chars =
     map_option (\<lambda>valid. of_int \<lceil>valid / 4\<rceil>) (finiteAtLeast (JNum chars) 0 True)"

record resume_state =
  rs_childSessionID :: "string jsopt"
  rs_lastStepTokens :: "jsnum jsopt"
  rs_nextModelContext :: "jsnum jsopt"

record resume_config =
  rc_maxContextFraction :: jsnum
  rc_nextPromptTokens :: "real option"

datatype resume_reason =
    NoChild | UnknownTokens | UnknownBudget | UnknownEstimate | InvalidFraction
  | UnderThreshold | AtOrOverThreshold

record resume_decision =
  rd_resume :: bool
  rd_reason :: resume_reason
  rd_tokens :: "real option"
  rd_budget :: "real option"
  rd_threshold :: "real option"

definition resumeDecision :: "resume_state \<Rightarrow> resume_config \<Rightarrow> resume_decision" where
  "resumeDecision st cfg =
     (let lst = finiteAtLeast (num_of (rs_lastStepTokens st)) 0 True;
          budget = finiteAtLeast (num_of (rs_nextModelContext st)) 0 False;
          estimate = finiteAtLeast (num_of_real (rc_nextPromptTokens cfg)) 0 True;
          fraction = finiteAtLeast (JNum (rc_maxContextFraction cfg)) 0 False;
          validFraction = (case fraction of Some f \<Rightarrow> if f \<le> 1 then Some f else None | None \<Rightarrow> None);
          tokens = (case (lst, estimate) of (Some a, Some b) \<Rightarrow> Some (a + b) | _ \<Rightarrow> None);
          threshold = (case (budget, validFraction) of (Some b, Some f) \<Rightarrow> Some (f * b) | _ \<Rightarrow> None);
          decide = (\<lambda>reason. \<lparr>rd_resume = (reason = UnderThreshold), rd_reason = reason,
                     rd_tokens = tokens, rd_budget = budget, rd_threshold = threshold\<rparr>)
      in case nullish (rs_childSessionID st) of
           None \<Rightarrow> decide NoChild
         | Some child \<Rightarrow>
            if child = [] then decide NoChild
            else (case lst of None \<Rightarrow> decide UnknownTokens
              | Some l \<Rightarrow> (case budget of None \<Rightarrow> decide UnknownBudget
                | Some b \<Rightarrow> (case estimate of None \<Rightarrow> decide UnknownEstimate
                  | Some e \<Rightarrow> (case validFraction of None \<Rightarrow> decide InvalidFraction
                    | Some f \<Rightarrow> if (l + e) / b < f then decide UnderThreshold
                                else decide AtOrOverThreshold)))))"


section \<open>Ranks and coverage\<close>

lemma default_not_ranked: "variantRank DEFAULT_VARIANT = -1"
  by (simp add: variantRank_def HOST_EFFORT_ORDER_def DEFAULT_VARIANT_def)

lemma variantRank_high: "variantRank ''high'' = 4"
  by (simp add: variantRank_def HOST_EFFORT_ORDER_def)

lemma default_position: "DEFAULT_VARIANT_POSITION = 7 / 2"
  by (simp add: DEFAULT_VARIANT_POSITION_def HOST_EFFORT_ORDER_def)

lemma variantRank_ge: "-1 \<le> variantRank v"
  by (simp add: variantRank_def index_of_ge)

lemma ranked_not_default: "0 \<le> variantRank v \<Longrightarrow> \<not> is_default (Some v)"
  by (auto simp: is_default_def variantRank_def HOST_EFFORT_ORDER_def DEFAULT_VARIANT_def
        split: if_splits)

lemma variantRank_inj: "0 \<le> variantRank v \<Longrightarrow> variantRank v = variantRank w \<Longrightarrow> v = w"
  unfolding variantRank_def by (rule index_of_inj)

lemma normalized_default: "is_default v \<longleftrightarrow> normalized v = DEFAULT_VARIANT"
  by (auto simp: is_default_def normalized_def DEFAULT_VARIANT_def split: option.splits)

lemma variantRange_normalized: "variantRange (Some (normalized v)) = variantRange v"
  by (cases v) (auto simp: variantRange_def normalized_def is_default_def)

lemma normalized_eq_range: "normalized v = normalized w \<Longrightarrow> variantRange v = variantRange w"
  by (metis variantRange_normalized)

lemma variantRange_ordered: "variantRange v = Some (l, h) \<Longrightarrow> l \<le> h"
  by (auto simp: variantRange_def variantRank_high Let_def split: if_splits option.splits)

text \<open>Coverage is a preorder: a tier covered by a covered rung is covered.\<close>

lemma variantCovered_refl: "variantCovered v v"
  by (simp add: variantCovered_def)

lemma variantCovered_trans:
  assumes "variantCovered a b" and "variantCovered b c"
  shows "variantCovered a c"
proof -
  consider (ab) "normalized a = normalized b" | (bc) "normalized b = normalized c"
    | (neq) "normalized a \<noteq> normalized b" "normalized b \<noteq> normalized c" by blast
  then show ?thesis
  proof cases
    case ab
    with assms(2) normalized_eq_range [OF ab] show ?thesis by (simp add: variantCovered_def)
  next
    case bc
    with assms(1) normalized_eq_range [OF bc] show ?thesis by (simp add: variantCovered_def)
  next
    case neq
    with assms obtain la ha lb hb lc hc where
      r: "variantRange a = Some (la, ha)" "variantRange b = Some (lb, hb)"
         "variantRange c = Some (lc, hc)" and le: "ha \<le> lb" "hb \<le> lc"
      by (auto simp: variantCovered_def split: option.splits)
    from variantRange_ordered [OF r(2)] le have "ha \<le> lc" by simp
    with r show ?thesis by (simp add: variantCovered_def)
  qed
qed

section \<open>Catalog ids and the built ladder\<close>

lemma catalog_ids_set: "set ids \<subseteq> set (catalog_ids ids vs)"
  by (induction ids vs rule: catalog_ids.induct) auto

lemma catalog_ids_distinct: "distinct ids \<Longrightarrow> distinct (catalog_ids ids vs)"
  by (induction ids vs rule: catalog_ids.induct) auto

lemma catalog_ids_not_default:
  "DEFAULT_VARIANT \<notin> set ids \<Longrightarrow> [] \<notin> set ids \<Longrightarrow>
   DEFAULT_VARIANT \<notin> set (catalog_ids ids vs) \<and> [] \<notin> set (catalog_ids ids vs)"
  by (induction ids vs rule: catalog_ids.induct) auto

lemma catalog_ids_from: "v \<in> set (catalog_ids ids vs) \<Longrightarrow> v \<in> set ids \<or> JStr v \<in> set vs"
  by (induction ids vs rule: catalog_ids.induct) (auto split: if_splits)

text \<open>A list of ids rises when the ranks are at least 0 and strictly increase.\<close>

definition rising :: "int \<Rightarrow> string list \<Rightarrow> bool" where
  "rising lst vs \<longleftrightarrow> sorted_wrt (<) (lst # map variantRank vs)"

lemma rising_Nil [simp]: "rising lst []"
  by (simp add: rising_def)

lemma rising_Cons [simp]: "rising lst (v # vs) \<longleftrightarrow> lst < variantRank v \<and> rising (variantRank v) vs"
  by (fastforce simp: rising_def)

lemma rising_mono: "rising l vs \<Longrightarrow> k \<le> l \<Longrightarrow> rising k vs"
  by (cases vs) auto

lemma keep_named_rising: "rising lst (fst (keep_named cs lst ids))"
proof (induction cs lst ids rule: keep_named.induct)
  case (2 cs lst vid ids)
  then show ?case by (auto simp: Let_def split: prod.splits)
qed simp

lemma keep_named_sub:
  "set (fst (keep_named cs lst ids)) \<subseteq> set cs \<inter> set ids"
  by (induction cs lst ids rule: keep_named.induct) (auto simp: Let_def case_prod_beta)

lemma keep_named_partition:
  "set (fst (keep_named cs lst ids)) \<union> set (snd (keep_named cs lst ids)) = set ids"
  by (induction cs lst ids rule: keep_named.induct) (auto simp: Let_def case_prod_beta)

lemma keep_catalog_rising: "rising lst (keep_catalog cap lst ids)"
  by (induction cap lst ids rule: keep_catalog.induct) (auto simp: Let_def intro: rising_mono)

lemma keep_catalog_sub: "set (keep_catalog cap lst ids) \<subseteq> set ids"
  by (induction cap lst ids rule: keep_catalog.induct) (auto simp: Let_def)

lemma keep_catalog_cap:
  "v \<in> set (keep_catalog (Some c) lst ids) \<Longrightarrow> variantRank v \<le> c"
  by (induction "Some c" lst ids rule: keep_catalog.induct) (auto simp: Let_def split: if_splits)

lemma rising_distinct: "rising lst vs \<Longrightarrow> distinct vs"
proof -
  assume "rising lst vs"
  then have "sorted_wrt (<) (map variantRank vs)" by (simp add: rising_def)
  then have "distinct (map variantRank vs)" by (simp add: strict_sorted_iff)
  then show ?thesis by (simp add: distinct_map)
qed

lemma rising_ranked: "rising (-1) vs \<Longrightarrow> v \<in> set vs \<Longrightarrow> 0 \<le> variantRank v"
  by (fastforce simp: rising_def)

text \<open>The ladders the code builds, and nothing else.\<close>

definition wf_ladder :: "variant_ladder \<Rightarrow> bool" where
  "wf_ladder l \<longleftrightarrow> rising (-1) (vl_variants l)"

lemma build_wf: "wf_ladder (buildVariantLadder inp)"
  using keep_named_rising keep_catalog_rising
  by (auto simp: wf_ladder_def buildVariantLadder_def Let_def split: option.splits prod.splits)
     (metis fst_conv)

lemma build_sub_catalog:
  "catalogVariantIds (li_catalog inp) = Some ids \<Longrightarrow>
   set (vl_variants (buildVariantLadder inp)) \<subseteq> set ids"
  using keep_named_sub [of ids] keep_catalog_sub
  by (auto simp: buildVariantLadder_def Let_def split: prod.splits if_splits dest!: subsetD)
     (metis Int_iff fst_conv subset_iff)

section \<open>Stepping\<close>

lemma find_Some_mem: "List.find P xs = Some x \<Longrightarrow> x \<in> set xs \<and> P x"
  by (metis find_Some_iff nth_mem)

lemma nextVariant_member: "nextVariant l cur = Some v \<Longrightarrow> v \<in> set (vl_variants l)"
  by (auto simp: nextVariant_def Let_def nth_or_null_def dest: find_Some_mem
        split: if_splits option.splits)

lemma find_filter_pos:
  "0 \<le> index_of ids v \<Longrightarrow> rising lst ids \<Longrightarrow> nth_or_null ids (nat (index_of ids v) + 1) = Some w \<Longrightarrow>
   variantRank v < variantRank w"
proof (induction ids arbitrary: lst)
  case Nil
  then show ?case by simp
next
  case (Cons u us)
  show ?case
  proof (cases "u = v")
    case True
    with Cons.prems show ?thesis by (cases us) (auto simp: nth_or_null_def)
  next
    case False
    let ?i = "index_of us v"
    from False Cons.prems(1) have i: "0 \<le> ?i" "index_of (u # us) v = ?i + 1"
      by (auto simp: Let_def split: if_splits)
    have "nth_or_null (u # us) (nat (?i + 1) + 1) = nth_or_null us (nat ?i + 1)"
      using i(1) by (simp add: nth_or_null_def nat_add_distrib)
    with Cons.prems(3) i(2) have "nth_or_null us (nat ?i + 1) = Some w" by simp
    with Cons.prems(2) i(1) Cons.IH show ?thesis by auto
  qed
qed

lemma normalized_position: "variantPosition (Some (normalized v)) = variantPosition v"
  by (cases v) (auto simp: variantPosition_def normalized_def is_default_def)

lemma nextVariant_above:
  assumes wf: "wf_ladder l" and nv: "nextVariant l cur = Some v"
    and p: "variantPosition cur = Some p"
  shows "p < of_int (variantRank v)"
proof (cases "0 \<le> index_of (vl_variants l) (normalized cur)")
  case True
  let ?c = "normalized cur"
  from True have "?c \<in> set (vl_variants l)" by (simp add: index_of_nonneg_iff)
  with wf have c: "0 \<le> variantRank ?c" unfolding wf_ladder_def by (rule rising_ranked)
  from c p have "p = of_int (variantRank ?c)"
    using normalized_position [of cur] ranked_not_default [OF c] by (simp add: variantPosition_def Let_def)
  moreover have "variantRank ?c < variantRank v"
    using True wf nv find_filter_pos [of "vl_variants l" ?c "-1" v]
    by (auto simp: nextVariant_def wf_ladder_def Let_def split: if_splits)
  ultimately show ?thesis by simp
next
  case False
  with nv p normalized_position [of cur] show ?thesis
    by (auto simp: nextVariant_def Let_def dest: find_Some_mem split: if_splits)
qed

lemma nextVariant_ranked: "wf_ladder l \<Longrightarrow> nextVariant l cur = Some v \<Longrightarrow> 0 \<le> variantRank v"
  using nextVariant_member rising_ranked unfolding wf_ladder_def by blast

lemma nextVariant_not_covered:
  assumes "wf_ladder l" and "nextVariant l cur = Some v"
  shows "\<not> variantCovered (Some v) cur"
proof -
  have v: "0 \<le> variantRank v" using assms by (rule nextVariant_ranked)
  then have nd: "\<not> is_default (Some v)" by (rule ranked_not_default)
  have rv: "variantRange (Some v) = Some (variantRank v, variantRank v)"
    using v nd by (simp add: variantRange_def Let_def)
  have above: "variantPosition cur = Some p \<Longrightarrow> p < of_int (variantRank v)" for p
    using assms by (rule nextVariant_above)
  have "normalized (Some v) \<noteq> normalized cur"
  proof
    assume "normalized (Some v) = normalized cur"
    then have "variantPosition cur = variantPosition (Some v)"
      using normalized_position by metis
    with above v nd show False by (simp add: variantPosition_def Let_def)
  qed
  moreover have "\<not> variantRank v \<le> rl" if "variantRange cur = Some (rl, rh)" for rl rh
    using that above v
    by (auto simp: variantRange_def variantPosition_def Let_def split: if_splits option.splits)
  ultimately show ?thesis
    using rv by (auto simp: variantCovered_def split: option.splits)
qed

text \<open>Repeated stepping, at most \<open>n\<close> times: the variants reached, in order.\<close>

primrec variant_walk :: "nat \<Rightarrow> variant_ladder \<Rightarrow> string option \<Rightarrow> string list" where
  "variant_walk 0 l cur = []"
| "variant_walk (Suc n) l cur =
     (case nextVariant l cur of None \<Rightarrow> [] | Some v \<Rightarrow> v # variant_walk n l (Some v))"

lemma walk_rising_from:
  "wf_ladder l \<Longrightarrow> rising (variantRank v) (variant_walk n l (Some v))"
proof (induction n arbitrary: v)
  case 0
  then show ?case by simp
next
  case (Suc n)
  show ?case
  proof (cases "nextVariant l (Some v)")
    case None
    then show ?thesis by simp
  next
    case (Some w)
    from Suc.prems Some have w: "0 \<le> variantRank w" by (rule nextVariant_ranked)
    have "variantRank v < variantRank w"
    proof (cases "0 \<le> variantRank v")
      case True
      with ranked_not_default [OF True] have "variantPosition (Some v) = Some (of_int (variantRank v))"
        by (simp add: variantPosition_def Let_def)
      from nextVariant_above [OF Suc.prems Some this] show ?thesis by simp
    qed (use w in simp)
    with Some Suc.IH [OF Suc.prems, of w] show ?thesis by simp
  qed
qed

lemma walk_members: "set (variant_walk n l cur) \<subseteq> set (vl_variants l)"
  by (induction n arbitrary: cur) (auto dest!: nextVariant_member [OF sym] split: option.splits)

lemma walk_rising:
  assumes "wf_ladder l"
  shows "rising (-1) (variant_walk n l cur)"
proof (cases n)
  case (Suc m)
  show ?thesis
  proof (cases "nextVariant l cur")
    case (Some w)
    with assms have "0 \<le> variantRank w" by (rule nextVariant_ranked)
    with Suc Some walk_rising_from [OF assms, of w m] show ?thesis by simp
  qed (simp add: Suc)
qed simp

section \<open>The resume decision\<close>

lemma resumeDecision_iff:
  "rd_resume (resumeDecision st cfg) \<longleftrightarrow>
   (\<exists>child l b e f. rs_childSessionID st = Def child \<and> child \<noteq> [] \<and>
      rs_lastStepTokens st = Def (Fin l) \<and> 0 \<le> l \<and>
      rs_nextModelContext st = Def (Fin b) \<and> 0 < b \<and>
      rc_nextPromptTokens cfg = Some e \<and> 0 \<le> e \<and>
      rc_maxContextFraction cfg = Fin f \<and> 0 < f \<and> f \<le> 1 \<and> l + e < f * b)"
  (is "?L = ?R")
proof -
  have num: "finiteAtLeast (num_of x) 0 inc = Some r \<longleftrightarrow>
      x = Def (Fin r) \<and> (0 < r \<or> inc \<and> r = 0)" for x inc r
    by (cases x rule: num_of.cases; cases "case x of Def y \<Rightarrow> y | _ \<Rightarrow> NaN") auto
  have frac: "finiteAtLeast (JNum y) 0 False = Some r \<longleftrightarrow> y = Fin r \<and> 0 < r" for y r
    by (cases y) auto
  have est: "finiteAtLeast (num_of_real z) 0 True = Some r \<longleftrightarrow> z = Some r \<and> 0 \<le> r" for z r
    by (cases z) auto
  show ?thesis
    by (auto simp: resumeDecision_def Let_def num frac est pos_divide_less_eq mult.commute
        split: option.splits if_splits)
qed

section \<open>Properties\<close>

text \<open>
  Every step target \<open>nextVariant\<close> returns on a ladder the code built is a variant of the
  model's catalog entry, never the stored \<open>default\<close>, and sits strictly above the current
  variant on the effort scale whenever that can be placed: variant steps never step down.
\<close>

theorem nextVariant_catalog_and_up:
  assumes "nextVariant (buildVariantLadder inp) cur = Some v"
  shows "(\<exists>ids. catalogVariantIds (li_catalog inp) = Some ids \<and> v \<in> set ids) \<and>
    v \<noteq> DEFAULT_VARIANT \<and>
    (\<forall>p. variantPosition cur = Some p \<longrightarrow> p < of_int (variantRank v))"
proof (intro conjI allI impI)
  have mem: "v \<in> set (vl_variants (buildVariantLadder inp))"
    using assms by (rule nextVariant_member)
  then obtain ids where ids: "catalogVariantIds (li_catalog inp) = Some ids"
    by (cases "catalogVariantIds (li_catalog inp)") (auto simp: buildVariantLadder_def Let_def)
  with mem build_sub_catalog show "\<exists>ids. catalogVariantIds (li_catalog inp) = Some ids \<and> v \<in> set ids"
    by blast
  show "v \<noteq> DEFAULT_VARIANT"
    using nextVariant_ranked [OF build_wf assms] default_not_ranked by auto
  show "p < of_int (variantRank v)" if "variantPosition cur = Some p" for p
    using build_wf assms that by (rule nextVariant_above)
qed

definition demo_input :: ladder_input where
  "demo_input = \<lparr>li_model = ''p/m'',
     li_catalog = Some \<lparr>cm_variants = Some [JStr ''low'', JNull, JStr ''high'', JStr ''low'', JStr ''max''],
                        cm_limit = None\<rparr>,
     li_candidates = None, li_maxEffort = Some ''max''\<rparr>"

lemmas variant_eval = demo_input_def buildVariantLadder_def scanCandidates_def catalogVariantIds_def
  nextVariant_def nth_or_null_def variantRank_def HOST_EFFORT_ORDER_def DEFAULT_VARIANT_def
  normalized_def variantPosition_def is_default_def DEFAULT_VARIANT_POSITION_def

lemma demo_step: "nextVariant (buildVariantLadder demo_input) None = Some ''high''"
  by (simp add: variant_eval)

theorem nextVariant_catalog_and_up_witness:
  "''high'' \<noteq> DEFAULT_VARIANT \<and> (7 / 2 :: real) < of_int (variantRank ''high'')"
proof -
  have "variantPosition None = Some (7 / 2)" by (simp add: variant_eval)
  with nextVariant_catalog_and_up [OF demo_step] show ?thesis by blast
qed

text \<open>
  (C35) Stepping ends: however often the runner asks for the next variant, from whatever variant it
  starts, the ranks it reaches strictly rise and it gets at most as many variants as the ladder has.
\<close>

theorem variant_walk_terminates:
  "rising (-1) (variant_walk n (buildVariantLadder inp) cur) \<and>
   length (variant_walk n (buildVariantLadder inp) cur) \<le> length (vl_variants (buildVariantLadder inp))"
proof
  let ?l = "buildVariantLadder inp"
  show r: "rising (-1) (variant_walk n ?l cur)" using build_wf by (rule walk_rising)
  have "length (variant_walk n ?l cur) = card (set (variant_walk n ?l cur))"
    using rising_distinct [OF r] by (simp add: distinct_card)
  also have "\<dots> \<le> card (set (vl_variants ?l))" by (rule card_mono) (simp_all add: walk_members)
  also have "\<dots> \<le> length (vl_variants ?l)" by (rule card_length)
  finally show "length (variant_walk n ?l cur) \<le> length (vl_variants ?l)" .
qed

text \<open>
  The runner resumes a child session exactly when it has one, its last step's context, the
  dispatch estimate, the next model's input budget and the configured fraction are all known and
  valid, and context plus estimate stay strictly below the fraction of the budget. In every other
  case (in particular exactly at the threshold) it starts fresh.
\<close>

theorem resume_iff_below_threshold:
  "rd_resume (resumeDecision st cfg) \<longleftrightarrow>
   (\<exists>child l b e f. rs_childSessionID st = Def child \<and> child \<noteq> [] \<and>
      rs_lastStepTokens st = Def (Fin l) \<and> 0 \<le> l \<and>
      rs_nextModelContext st = Def (Fin b) \<and> 0 < b \<and>
      rc_nextPromptTokens cfg = Some e \<and> 0 \<le> e \<and>
      rc_maxContextFraction cfg = Fin f \<and> 0 < f \<and> f \<le> 1 \<and> l + e < f * b)"
  by (rule resumeDecision_iff)

text \<open>
  What coverage means (a tier is skipped on escalation when its base is covered by the highest
  rung tried on its model): two ranked variants are covered by rank, the stored \<open>default\<close> as the
  reached rung covers nothing but \<open>default\<close>, and \<open>default\<close> as a base is covered by itself and by
  \<open>high\<close> and above only.
\<close>

theorem variantCovered_meaning:
  "(0 \<le> variantRank b \<longrightarrow> 0 \<le> variantRank r \<longrightarrow>
      (variantCovered (Some b) (Some r) \<longleftrightarrow> variantRank b \<le> variantRank r)) \<and>
   (variantCovered (Some b) None \<longleftrightarrow> is_default (Some b)) \<and>
   (variantCovered None (Some r) \<longleftrightarrow> is_default (Some r) \<or> variantRank ''high'' \<le> variantRank r)"
proof (intro conjI impI)
  assume b: "0 \<le> variantRank b" and r: "0 \<le> variantRank r"
  note nd = ranked_not_default [OF b] ranked_not_default [OF r]
  from nd have "normalized (Some b) = b" "normalized (Some r) = r"
    by (auto simp: normalized_def is_default_def)
  with b r nd variantRank_inj [OF b, of r]
  show "variantCovered (Some b) (Some r) \<longleftrightarrow> variantRank b \<le> variantRank r"
    by (auto simp: variantCovered_def variantRange_def Let_def)
next
  show "variantCovered (Some b) None \<longleftrightarrow> is_default (Some b)"
    using variantRank_ge [of b]
    by (auto simp: variantCovered_def variantRange_def normalized_default variantRank_high
        normalized_def Let_def split: option.splits if_splits)
next
  show "variantCovered None (Some r) \<longleftrightarrow> is_default (Some r) \<or> variantRank ''high'' \<le> variantRank r"
    by (auto simp: variantCovered_def variantRange_def normalized_def is_default_def
        variantRank_high Let_def split: option.splits if_splits)
qed

theorem variantCovered_meaning_witness:
  "variantCovered (Some ''low'') (Some ''high'') \<and> \<not> variantCovered (Some ''high'') (Some ''low'') \<and>
   \<not> variantCovered (Some ''low'') None"
proof -
  have r: "variantRank ''low'' = 2" "variantRank ''high'' = 4" "\<not> is_default (Some ''low'')"
    by (simp_all add: variant_eval)
  with variantCovered_meaning [of "''low''" "''high''"] variantCovered_meaning [of "''high''" "''low''"]
  show ?thesis by simp
qed

end
