(* ===== verification/Config.thy ===== *)
theory Config
  imports Js_Map Variants
begin

text \<open>
  The slice of the loaded configuration the modelled components read
  (\<^verbatim>\<open>src/router/config.ts\<close>, \<^verbatim>\<open>src/router/protocol.ts\<close> \<open>getActiveTiers\<close>). Objects whose key order
  matters are association lists; an absent field is \<open>None\<close>. Loading and validation of
  \<^verbatim>\<open>tiers.json\<close> are not modelled: the definitions take any configuration of these types.
\<close>

section \<open>Effort levels\<close>

datatype effort_level = ELow | EMedium | EHigh | EXhigh | EMax

definition EFFORT_LEVELS :: "effort_level list" where
  "EFFORT_LEVELS = [ELow, EMedium, EHigh, EXhigh, EMax]"

fun effort_name :: "effort_level \<Rightarrow> string" where
  "effort_name ELow = ''low''"
| "effort_name EMedium = ''medium''"
| "effort_name EHigh = ''high''"
| "effort_name EXhigh = ''xhigh''"
| "effort_name EMax = ''max''"

text \<open>\<^verbatim>\<open>isEffortLevel\<close> on a string, returning the level.\<close>

definition parse_effort :: "string \<Rightarrow> effort_level option" where
  "parse_effort s = List.find (\<lambda>e. effort_name e = s) EFFORT_LEVELS"

lemma parse_effort_name [simp]: "parse_effort (effort_name e) = Some e"
  by (cases e) (simp_all add: parse_effort_def EFFORT_LEVELS_def)

lemma parse_effort_Some: "parse_effort s = Some e \<Longrightarrow> s = effort_name e"
  by (auto simp: parse_effort_def EFFORT_LEVELS_def split: if_splits)

text \<open>The scale as a linear order: the order of \<open>EFFORT_LEVELS\<close>.\<close>

definition effortRank :: "effort_level \<Rightarrow> int" where
  "effortRank e = index_of EFFORT_LEVELS e"

lemma effortRank_simps [simp]:
  "effortRank ELow = 0" "effortRank EMedium = 1" "effortRank EHigh = 2"
  "effortRank EXhigh = 3" "effortRank EMax = 4"
  by (simp_all add: effortRank_def EFFORT_LEVELS_def)

lemma effortRank_inj: "effortRank a = effortRank b \<Longrightarrow> a = b"
  by (cases a; cases b) simp_all

instantiation effort_level :: linorder
begin
definition less_eq_effort_level :: "effort_level \<Rightarrow> effort_level \<Rightarrow> bool" where
  "less_eq_effort_level a b \<longleftrightarrow> effortRank a \<le> effortRank b"
definition less_effort_level :: "effort_level \<Rightarrow> effort_level \<Rightarrow> bool" where
  "less_effort_level a b \<longleftrightarrow> effortRank a < effortRank b"
instance
  by standard (auto simp: less_eq_effort_level_def less_effort_level_def dest: effortRank_inj)
end

lemmas effort_order = less_eq_effort_level_def less_effort_level_def

section \<open>Tiers and presets\<close>

text \<open>One entry of a tier's \<^verbatim>\<open>candidates\<close> as configured.\<close>

record tier_candidate =
  tcand_model :: jsval
  tcand_variant :: jsval
  tcand_costRatio :: jsval

text \<open>
  \<open>tc_thinking\<close> is the \<^verbatim>\<open>thinking\<close> object with its \<^verbatim>\<open>budgetTokens\<close>, \<open>tc_reasoning\<close> the
  \<^verbatim>\<open>reasoning\<close> object with \<^verbatim>\<open>effort\<close> and \<^verbatim>\<open>summary\<close>; \<open>tc_effort\<close> is any string, since an
  override layer can hand the code an invalid one.
\<close>

record tier_config =
  tc_model :: string
  tc_variant :: "string option"
  tc_effort :: "string option"
  tc_thinking :: "jsnum option option"
  tc_reasoning :: "(string option \<times> string option) option"
  tc_costRatio :: jsval
  tc_candidates :: "tier_candidate option list option"
  tc_readOnly :: "bool option"

type_synonym preset = "(string \<times> tier_config) list"

section \<open>Enforcement\<close>

datatype enforcement_mode = Off | Advisory | Enforced

record guard_config =
  gc_readDraftCap :: "int option"
  gc_sameOpRetryCap :: "int option"
  gc_blockSelfScript :: "bool option"
  gc_deliverableFirst :: "bool option"
  gc_budget :: "int option"
  gc_blockScriptWrites :: "bool option"

record escalate_config =
  ec_floorTier :: "string option"
  ec_ladder :: "string list option"
  ec_maxAttemptsPerTier :: "int option"
  ec_maxTotalAttempts :: "int option"
  ec_costMultiple :: "real option"
  ec_effortBump :: "bool option"
  ec_effortBumpMax :: "effort_level option"

record enforcement_config =
  en_mode :: "enforcement_mode option"
  en_envGate :: "string option"
  en_perTier :: "string \<rightharpoonup> enforcement_mode"
  en_guard :: "guard_config option"
  en_escalate :: "escalate_config option"
  en_trivialBypass :: "bool option"

record router_config =
  cfg_presets :: "(string \<times> preset) list"
  cfg_activePreset :: string
  cfg_enforcement :: "enforcement_config option"

text \<open>\<^verbatim>\<open>cfg.presets[cfg.activePreset] ?? Object.values(cfg.presets)[0]\<close>; \<open>None\<close>: no preset at all.\<close>

definition getActiveTiers :: "router_config \<Rightarrow> preset option" where
  "getActiveTiers cfg =
     first_some (map_of (cfg_presets cfg) (cfg_activePreset cfg))
       (case cfg_presets cfg of [] \<Rightarrow> None | (_, p) # _ \<Rightarrow> Some p)"

definition escalate_of :: "router_config \<Rightarrow> escalate_config option" where
  "escalate_of cfg = Option.bind (cfg_enforcement cfg) en_escalate"

text \<open>\<^verbatim>\<open>resolveEffortBump\<close>: enabled by default, up to \<^verbatim>\<open>xhigh\<close>.\<close>

definition resolveEffortBump :: "router_config \<Rightarrow> bool \<times> effort_level" where
  "resolveEffortBump cfg =
     (let escalate = escalate_of cfg in
      (or_else (Option.bind escalate ec_effortBump) True,
       or_else (Option.bind escalate ec_effortBumpMax) EXhigh))"

end
