(* ===== verification/Js_Text.thy ===== *)
theory Js_Text
  imports Router_Prelude "HOL-Library.Char_ord"
begin

text \<open>
  The JavaScript text functions the router's checks use, as executable definitions: \<^verbatim>\<open>String(x)\<close>
  and \<^verbatim>\<open>JSON.stringify\<close> of tool-call arguments, ASCII case folding and trimming, and the
  regular expressions of the source (a small matcher with word boundaries and greedy classes; an
  unanchored test tries every position). Numbers among tool arguments are integers: a fractional
  argument is not modelled.
\<close>

section \<open>Characters\<close>

definition lower_char :: "char \<Rightarrow> char" where
  "lower_char c = (if CHR ''A'' \<le> c \<and> c \<le> CHR ''Z'' then char_of (of_char c + (32::nat)) else c)"

definition to_lower :: "string \<Rightarrow> string" where
  "to_lower s = map lower_char s"

definition is_prefix :: "string \<Rightarrow> string \<Rightarrow> bool" where
  "is_prefix p s \<longleftrightarrow> take (length p) s = p"

definition is_digit :: "char \<Rightarrow> bool" where
  "is_digit c \<longleftrightarrow> CHR ''0'' \<le> c \<and> c \<le> CHR ''9''"

definition is_alpha :: "char \<Rightarrow> bool" where
  "is_alpha c \<longleftrightarrow> (CHR ''a'' \<le> c \<and> c \<le> CHR ''z'') \<or> (CHR ''A'' \<le> c \<and> c \<le> CHR ''Z'')"

definition is_word_char :: "char \<Rightarrow> bool" where
  "is_word_char c \<longleftrightarrow> is_digit c \<or> is_alpha c \<or> c = CHR ''_''"

text \<open>\<^verbatim>\<open>\s\<close>: tab, line feed, vertical tab, form feed, carriage return, space, no-break space.\<close>

definition is_space :: "char \<Rightarrow> bool" where
  "is_space c \<longleftrightarrow> c \<in> set [CHR 0x09, CHR 0x0A, CHR 0x0B, CHR 0x0C, CHR 0x0D, CHR 0x20, CHR 0xA0]"

definition trim_start :: "string \<Rightarrow> string" where
  "trim_start s = dropWhile is_space s"

definition trim :: "string \<Rightarrow> string" where
  "trim s = rev (dropWhile is_space (rev (trim_start s)))"

text \<open>\<^verbatim>\<open>s.split(c)\<close> for a single character.\<close>

fun split_on :: "char \<Rightarrow> string \<Rightarrow> string list" where
  "split_on c [] = [[]]"
| "split_on c (x # xs) =
     (if x = c then [] # split_on c xs
      else (case split_on c xs of [] \<Rightarrow> [[x]] | y # ys \<Rightarrow> (x # y) # ys))"

lemma split_on_free: "w \<in> set (split_on c s) \<Longrightarrow> c \<notin> set w"
  by (induction s arbitrary: w) (auto split: list.splits if_splits)

section \<open>JSON values\<close>

datatype json =
    JsNull | JsBool bool | JsInt int | JsText string | JsArr "json list" | JsObj "(string \<times> json) list"

text \<open>Decimal digits of a natural number; the accumulator holds the digits already produced.\<close>

fun show_nat_acc :: "nat \<Rightarrow> string \<Rightarrow> string" where
  "show_nat_acc n acc =
     (let d = char_of (48 + n mod 10 :: nat) in
      if n < 10 then d # acc else show_nat_acc (n div 10) (d # acc))"

declare show_nat_acc.simps [simp del]

definition show_int :: "int \<Rightarrow> string" where
  "show_int i = (if i < 0 then ''-'' @ show_nat_acc (nat (- i)) [] else show_nat_acc (nat i) [])"

fun join_with :: "string \<Rightarrow> string list \<Rightarrow> string" where
  "join_with sep [] = []"
| "join_with sep [x] = x"
| "join_with sep (x # xs) = x @ sep @ join_with sep xs"

definition hex_digit :: "nat \<Rightarrow> char" where
  "hex_digit n = ''0123456789abcdef'' ! n"

definition json_escape :: "char \<Rightarrow> string" where
  "json_escape c =
     (if c = CHR 0x22 then [CHR 0x5C, CHR 0x22]
      else if c = CHR 0x5C then [CHR 0x5C, CHR 0x5C]
      else if c = CHR 0x0A then [CHR 0x5C, CHR ''n'']
      else if c = CHR 0x0D then [CHR 0x5C, CHR ''r'']
      else if c = CHR 0x09 then [CHR 0x5C, CHR ''t'']
      else if c = CHR 0x08 then [CHR 0x5C, CHR ''b'']
      else if c = CHR 0x0C then [CHR 0x5C, CHR ''f'']
      else if of_char c < (32::nat)
      then [CHR 0x5C, CHR ''u'', CHR ''0'', CHR ''0'', hex_digit (of_char c div 16), hex_digit (of_char c mod 16)]
      else [c])"

definition json_quote :: "string \<Rightarrow> string" where
  "json_quote s = [CHR 0x22] @ concat (map json_escape s) @ [CHR 0x22]"

text \<open>\<^verbatim>\<open>JSON.stringify\<close> without indentation.\<close>

fun stringify :: "json \<Rightarrow> string" where
  "stringify JsNull = ''null''"
| "stringify (JsBool b) = (if b then ''true'' else ''false'')"
| "stringify (JsInt i) = show_int i"
| "stringify (JsText s) = json_quote s"
| "stringify (JsArr xs) = ''['' @ join_with '','' (map stringify xs) @ '']''"
| "stringify (JsObj ps) = ''{'' @ join_with '','' (map (\<lambda>(k, v). json_quote k @ '':'' @ stringify v) ps) @ ''}''"

text \<open>\<^verbatim>\<open>String(x)\<close> on a JSON value; an array joins its items, null items are empty.\<close>

fun to_text :: "json \<Rightarrow> string" where
  "to_text JsNull = ''null''"
| "to_text (JsBool b) = (if b then ''true'' else ''false'')"
| "to_text (JsInt i) = show_int i"
| "to_text (JsText s) = s"
| "to_text (JsArr xs) = join_with '','' (map (\<lambda>x. if x = JsNull then [] else to_text x) xs)"
| "to_text (JsObj ps) = ''[object Object]''"

section \<open>Regular expressions\<close>

datatype regex =
    Chr "char \<Rightarrow> bool" | Txt string | ManyOf "char \<Rightarrow> bool" | Boundary
  | Opt regex | Alt regex regex | Then regex regex

text \<open>A position in the text: the character before it, if any, and the rest.\<close>

type_synonym text_pos = "char option \<times> string"

fun boundary :: "text_pos \<Rightarrow> bool" where
  "boundary (p, []) \<longleftrightarrow> (case p of None \<Rightarrow> False | Some c \<Rightarrow> is_word_char c)"
| "boundary (p, d # ds) \<longleftrightarrow> (case p of None \<Rightarrow> is_word_char d | Some c \<Rightarrow> is_word_char c \<noteq> is_word_char d)"

text \<open>The positions reached after any number of characters of a class.\<close>

fun many_of :: "(char \<Rightarrow> bool) \<Rightarrow> char option \<Rightarrow> string \<Rightarrow> text_pos list" where
  "many_of P p [] = [(p, [])]"
| "many_of P p (c # cs) = (p, c # cs) # (if P c then many_of P (Some c) cs else [])"

text \<open>Text is matched without regard to ASCII case (the \<^verbatim>\<open>i\<close> flag).\<close>

definition after_text :: "string \<Rightarrow> text_pos \<Rightarrow> text_pos list" where
  "after_text t pos = (case pos of (p, s) \<Rightarrow>
     if t = [] then [pos]
     else if is_prefix t (to_lower s) then [(Some (s ! (length t - 1)), drop (length t) s)] else [])"

fun match_ends :: "regex \<Rightarrow> text_pos \<Rightarrow> text_pos list" where
  "match_ends (Chr P) (p, s) = (case s of [] \<Rightarrow> [] | c # cs \<Rightarrow> if P c then [(Some c, cs)] else [])"
| "match_ends (Txt t) pos = after_text t pos"
| "match_ends (ManyOf P) (p, s) = many_of P p s"
| "match_ends Boundary pos = (if boundary pos then [pos] else [])"
| "match_ends (Opt r) pos = pos # match_ends r pos"
| "match_ends (Alt r1 r2) pos = match_ends r1 pos @ match_ends r2 pos"
| "match_ends (Then r1 r2) pos = concat (map (match_ends r2) (match_ends r1 pos))"

fun regex_search :: "regex \<Rightarrow> char option \<Rightarrow> string \<Rightarrow> bool" where
  "regex_search r p [] \<longleftrightarrow> match_ends r (p, []) \<noteq> []"
| "regex_search r p (c # cs) \<longleftrightarrow> match_ends r (p, c # cs) \<noteq> [] \<or> regex_search r (Some c) cs"

text \<open>\<^verbatim>\<open>re.test(s)\<close> for an unanchored expression.\<close>

definition regex_test :: "regex \<Rightarrow> string \<Rightarrow> bool" where
  "regex_test r s = regex_search r None s"

fun one_of_texts :: "string list \<Rightarrow> regex" where
  "one_of_texts [] = Chr (\<lambda>_. False)"
| "one_of_texts [t] = Txt t"
| "one_of_texts (t # ts) = Alt (Txt t) (one_of_texts ts)"

fun then_all :: "regex list \<Rightarrow> regex" where
  "then_all [] = Txt []"
| "then_all [r] = r"
| "then_all (r # rs) = Then r (then_all rs)"

definition Spaces1 :: regex where
  "Spaces1 = Then (Chr is_space) (ManyOf is_space)"

end
