(* ===== verification/Agent_Options.thy ===== *)
theory Agent_Options
  imports Config Js_Text
begin

text \<open>
  The options a tier's agent is registered with, \<^verbatim>\<open>src/router/agent-options.ts\<close>, with the model
  family tests it uses (\<^verbatim>\<open>isClaudeModel\<close>, \<^verbatim>\<open>isAdaptiveOnlyClaudeModel\<close> of
  \<^verbatim>\<open>src/router/protocol.ts\<close>). Warnings are returned as the list of warn-once keys, in the order
  the code raises them; \<open>warn_once\<close> models the process-wide set that drops repeats.
\<close>

section \<open>Model families\<close>

text \<open>
  Search of an unanchored regular expression: some position whose preceding character satisfies
  \<open>before\<close> (\<open>None\<close> at the start) and whose rest satisfies \<open>body\<close>.
\<close>

fun search_from :: "(char option \<Rightarrow> bool) \<Rightarrow> (string \<Rightarrow> bool) \<Rightarrow> char option \<Rightarrow> string \<Rightarrow> bool" where
  "search_from before body prev [] \<longleftrightarrow> before prev \<and> body []"
| "search_from before body prev (c # cs) \<longleftrightarrow>
     (before prev \<and> body (c # cs)) \<or> search_from before body (Some c) cs"

definition one_of :: "string \<Rightarrow> char option \<Rightarrow> bool" where
  "one_of cs c = (case c of None \<Rightarrow> True | Some d \<Rightarrow> d \<in> set cs)"

text \<open>\<^verbatim>\<open>startsWith("anthropic/")\<close> or \<^verbatim>\<open>/(^|[\/\-])claude-/\<close> (which subsumes \<^verbatim>\<open>/\/claude-/\<close>).\<close>

definition isClaudeModel :: "string \<Rightarrow> bool" where
  "isClaudeModel modelID =
     (let s = to_lower modelID in
      if modelID = [] then False
      else is_prefix ''anthropic/'' s \<or> search_from (one_of ''/-'') (is_prefix ''claude-'') None s)"

definition ADAPTIVE_ONLY_CLAUDE_MODELS :: "string list" where
  "ADAPTIVE_ONLY_CLAUDE_MODELS =
     [''claude-opus-5-5'', ''claude-fable-5'', ''claude-fable-5-1'', ''claude-mythos-5-1'']"

text \<open>\<^verbatim>\<open>(\[[^\]]*\])?$\<close>\<close>

definition tag_end :: "string \<Rightarrow> bool" where
  "tag_end r \<longleftrightarrow> r = [] \<or>
     (2 \<le> length r \<and> hd r = CHR ''['' \<and> last r = CHR '']'' \<and> CHR '']'' \<notin> set (butlast (tl r)))"

text \<open>\<^verbatim>\<open>([-@]\d{8})?(\[[^\]]*\])?$\<close>\<close>

definition stamp_end :: "string \<Rightarrow> bool" where
  "stamp_end r \<longleftrightarrow> tag_end r \<or>
     (9 \<le> length r \<and> hd r \<in> set ''-@'' \<and> list_all is_digit (take 8 (tl r)) \<and> tag_end (drop 9 r))"

definition isAdaptiveOnlyClaudeModel :: "string \<Rightarrow> bool" where
  "isAdaptiveOnlyClaudeModel modelID =
     (isClaudeModel modelID \<and>
      (let s = map (\<lambda>c. if c = CHR ''.'' then CHR ''-'' else c) (to_lower modelID) in
       list_ex (\<lambda>i. search_from (one_of ''/-'')
           (\<lambda>r. is_prefix i r \<and> stamp_end (drop (length i) r)) None s)
         ADAPTIVE_ONLY_CLAUDE_MODELS))"

text \<open>\<^verbatim>\<open>openai/\<close> prefix, \<^verbatim>\<open>/\bgpt-/\<close>, or \<^verbatim>\<open>/(^|[/\-_])o[134]([/\-_]|$)/\<close>.\<close>

definition o_series :: "string \<Rightarrow> bool" where
  "o_series r \<longleftrightarrow> 2 \<le> length r \<and> hd r = CHR ''o'' \<and> r ! 1 \<in> set ''134'' \<and>
     (length r = 2 \<or> r ! 2 \<in> set ''/-_'')"

definition isOpenAIModel :: "string \<Rightarrow> bool" where
  "isOpenAIModel model =
     (let s = to_lower model in
      is_prefix ''openai/'' s \<or>
      search_from (\<lambda>p. case p of None \<Rightarrow> True | Some c \<Rightarrow> \<not> is_word_char c) (is_prefix ''gpt-'') None s \<or>
      search_from (one_of ''/-_'') o_series None s)"

section \<open>The effort scale\<close>

definition nextEffort :: "effort_level \<Rightarrow> effort_level \<Rightarrow> effort_level option" where
  "nextEffort current bnd =
     (if effortRank current < effortRank bnd
      then nth_or_null EFFORT_LEVELS (nat (effortRank current) + 1) else None)"

definition minEffort :: "effort_level \<Rightarrow> effort_level \<Rightarrow> effort_level" where
  "minEffort a b = (if effortRank a \<le> effortRank b then a else b)"

lemma minEffort_min: "minEffort a b = min a b"
  by (simp add: minEffort_def min_def effort_order)

text \<open>\<^verbatim>\<open>Boolean(tier.thinking?.budgetTokens)\<close>: a number that is neither 0 nor NaN.\<close>

definition truthy_budget :: "jsnum option option \<Rightarrow> bool" where
  "truthy_budget t = (case t of Some (Some n) \<Rightarrow> n \<noteq> Fin 0 \<and> n \<noteq> NaN | _ \<Rightarrow> False)"

text \<open>\<^verbatim>\<open>tier.reasoning?.effort\<close> / \<^verbatim>\<open>summary\<close>, when truthy (a non-empty string).\<close>

definition truthy_str :: "string option \<Rightarrow> string option" where
  "truthy_str s = (case s of Some x \<Rightarrow> if x = [] then None else Some x | None \<Rightarrow> None)"

definition reasoning_effort :: "tier_config \<Rightarrow> string option" where
  "reasoning_effort t = (case tc_reasoning t of None \<Rightarrow> None | Some (e, _) \<Rightarrow> truthy_str e)"

definition reasoning_summary :: "tier_config \<Rightarrow> string option" where
  "reasoning_summary t = (case tc_reasoning t of None \<Rightarrow> None | Some (_, s) \<Rightarrow> truthy_str s)"

definition effortCeilingFor :: "tier_config \<Rightarrow> effort_level option" where
  "effortCeilingFor t =
     (if truthy_str (tc_variant t) \<noteq> None \<or> Option.bind (tc_effort t) parse_effort = None then None
      else if isClaudeModel (tc_model t)
      then (if truthy_budget (tc_thinking t) \<and> \<not> isAdaptiveOnlyClaudeModel (tc_model t) then None
            else Some EMax)
      else if isOpenAIModel (tc_model t)
      then (if reasoning_effort t \<noteq> None then None else Some EHigh)
      else None)"

section \<open>buildAgentOptions\<close>

record agent_options =
  ao_effort :: "string option"
  ao_reasoningEffort :: "string option"
  ao_reasoningSummary :: "string option"
  ao_thinking :: "jsnum option"

datatype warn_key =
    ThinkingAdaptiveOnly string | ThinkingZero string | ReasoningClaude string
  | InvalidEffort string string | AnthropicConflict string | OpenAIConflict string
  | OpenAIDowngrade string string | UnknownProvider string

text \<open>The \<^verbatim>\<open>effort\<close> section of the function: the two effort keys and the warning it raises.\<close>

definition effort_keys :: "tier_config \<Rightarrow> string \<Rightarrow> bool \<Rightarrow> string option \<times> string option \<times> warn_key list" where
  "effort_keys t tierName hasThinkingBudget =
     (case tc_effort t of None \<Rightarrow> (None, None, [])
      | Some effort \<Rightarrow>
         (case parse_effort effort of None \<Rightarrow> (None, None, [InvalidEffort tierName effort])
          | Some e \<Rightarrow>
             if isClaudeModel (tc_model t)
             then (if hasThinkingBudget then (None, None, [AnthropicConflict tierName])
                   else (Some effort, None, []))
             else if isOpenAIModel (tc_model t)
             then (if reasoning_effort t \<noteq> None then (None, None, [OpenAIConflict tierName])
                   else if e = EXhigh \<or> e = EMax
                   then (None, Some ''high'', [OpenAIDowngrade tierName effort])
                   else (None, Some effort, []))
             else (None, None, [UnknownProvider tierName])))"

definition buildAgentOptions :: "tier_config \<Rightarrow> string \<Rightarrow> agent_options \<times> warn_key list" where
  "buildAgentOptions t tierName =
     (let isClaude = isClaudeModel (tc_model t);
          asked = truthy_budget (tc_thinking t);
          adaptive = isAdaptiveOnlyClaudeModel (tc_model t);
          hasThinkingBudget = (asked \<and> \<not> adaptive);
          w1 = (if asked \<and> adaptive then [ThinkingAdaptiveOnly tierName]
                else if tc_thinking t = Some (Some (Fin 0)) then [ThinkingZero tierName] else []);
          rEffort = reasoning_effort t; rSummary = reasoning_summary t;
          w2 = (if isClaude \<and> (rEffort \<noteq> None \<or> rSummary \<noteq> None) then [ReasoningClaude tierName] else []);
          explicitEffort = (if isClaude then None else rEffort);
          (eff, reff, w3) = effort_keys t tierName hasThinkingBudget
      in (\<lparr>ao_effort = eff,
           ao_reasoningEffort = first_some reff explicitEffort,
           ao_reasoningSummary = (if isClaude then None else rSummary),
           ao_thinking = (if hasThinkingBudget then Option.bind (tc_thinking t) (\<lambda>b. b) else None)\<rparr>,
          w1 @ w2 @ w3))"

text \<open>The warn-once set: which of the raised keys are delivered, and the set afterwards.\<close>

fun warn_once :: "warn_key set \<Rightarrow> warn_key list \<Rightarrow> warn_key list \<times> warn_key set" where
  "warn_once seen [] = ([], seen)"
| "warn_once seen (k # ks) =
     (if k \<in> seen then warn_once seen ks
      else (let (ds, seen') = warn_once (insert k seen) ks in (k # ds, seen')))"

section \<open>Lemmas\<close>

lemma adaptive_is_claude: "isAdaptiveOnlyClaudeModel m \<Longrightarrow> isClaudeModel m"
  by (simp add: isAdaptiveOnlyClaudeModel_def)

lemma nextEffort_above: "nextEffort c b = Some e \<Longrightarrow> c < e \<and> e \<le> b"
  by (cases c; cases b) (auto simp: nextEffort_def nth_or_null_def EFFORT_LEVELS_def effort_order
      split: if_splits)

lemma nextEffort_None: "nextEffort c b = None \<longleftrightarrow> b \<le> c"
  by (cases c; cases b) (simp_all add: nextEffort_def nth_or_null_def EFFORT_LEVELS_def effort_order)

lemma warn_once_delivered:
  "warn_once seen ks = (ds, seen') \<Longrightarrow>
   distinct ds \<and> set ds = set ks - seen \<and> seen' = seen \<union> set ks"
  by (induction ks arbitrary: seen ds seen') (auto split: if_splits prod.splits)

lemma ceiling_delivers:
  assumes c: "effortCeilingFor t = Some c" and e: "tc_effort t = Some (effort_name e)" and le: "e \<le> c"
  shows "let (opts, ws) = buildAgentOptions t n in
    first_some (ao_effort opts) (ao_reasoningEffort opts) = Some (effort_name e) \<and>
    \<not> (\<exists>x. OpenAIDowngrade n x \<in> set ws)"
proof -
  have p: "parse_effort (effort_name e) = Some e" by simp
  from c e consider
      "isClaudeModel (tc_model t)" "\<not> (truthy_budget (tc_thinking t) \<and> \<not> isAdaptiveOnlyClaudeModel (tc_model t))"
    | "\<not> isClaudeModel (tc_model t)" "isOpenAIModel (tc_model t)" "reasoning_effort t = None" "c = EHigh"
    by (auto simp: effortCeilingFor_def split: if_splits)
  then show ?thesis
  proof cases
    case 1
    then show ?thesis by (simp add: buildAgentOptions_def effort_keys_def e p Let_def)
  next
    case 2
    with le have "e \<noteq> EXhigh \<and> e \<noteq> EMax" by (auto simp: effort_order)
    with 2 show ?thesis
      by (simp add: buildAgentOptions_def effort_keys_def e p Let_def)
  qed
qed

section \<open>Properties\<close>

text \<open>
  Effort is delivered once and within the provider's scale: registered options never carry both
  effort keys, a Claude model never gets the OpenAI keys, an adaptive-only Claude model never gets a
  thinking budget, \<open>effort\<close> goes to Claude models only, and never beside an explicit
  thinking budget.
\<close>

theorem agent_options_single_delivery:
  "let (opts, ws) = buildAgentOptions t tierName in
   \<not> (ao_effort opts \<noteq> None \<and> ao_reasoningEffort opts \<noteq> None) \<and>
   \<not> (ao_effort opts \<noteq> None \<and> ao_thinking opts \<noteq> None) \<and>
   (isClaudeModel (tc_model t) \<longrightarrow> ao_reasoningEffort opts = None \<and> ao_reasoningSummary opts = None) \<and>
   (isAdaptiveOnlyClaudeModel (tc_model t) \<longrightarrow> ao_thinking opts = None) \<and>
   (ao_effort opts \<noteq> None \<longrightarrow> isClaudeModel (tc_model t))"
  by (auto simp: buildAgentOptions_def effort_keys_def Let_def
      split: option.splits prod.splits if_splits)

definition claude_tier :: tier_config where
  "claude_tier = \<lparr>tc_model = ''anthropic/claude-opus-5-5'', tc_variant = None, tc_effort = Some ''max'',
     tc_thinking = Some (Some (Fin 1000)), tc_reasoning = None, tc_costRatio = JUndef,
     tc_candidates = None, tc_readOnly = None\<rparr>"

lemma claude_tier_model:
  "isClaudeModel (tc_model claude_tier)" "isAdaptiveOnlyClaudeModel (tc_model claude_tier)"
  by (code_simp, code_simp)

theorem agent_options_single_delivery_witness:
  "ao_thinking (fst (buildAgentOptions claude_tier ''heavy'')) = None \<and>
   ao_reasoningEffort (fst (buildAgentOptions claude_tier ''heavy'')) = None"
  using agent_options_single_delivery [of claude_tier "''heavy''"] claude_tier_model
  by (simp add: case_prod_beta)

text \<open>
  The effort ceiling is truthful: an effort at or below the ceiling the tier reports is delivered
  verbatim, on exactly one key, and never downgraded; so every effort a bumped retry can reach is one
  the provider is really sent.
\<close>

theorem effort_ceiling_is_truthful:
  assumes "effortCeilingFor t = Some c" and "e \<le> c"
  shows "let (opts, ws) = buildAgentOptions (t\<lparr>tc_effort := Some (effort_name e)\<rparr>) n in
    first_some (ao_effort opts) (ao_reasoningEffort opts) = Some (effort_name e) \<and>
    \<not> (\<exists>x. OpenAIDowngrade n x \<in> set ws)"
proof (rule ceiling_delivers [OF _ _ assms(2)])
  show "effortCeilingFor (t\<lparr>tc_effort := Some (effort_name e)\<rparr>) = Some c"
    using assms(1) by (auto simp: effortCeilingFor_def reasoning_effort_def split: if_splits)
qed simp

definition openai_tier :: tier_config where
  "openai_tier = claude_tier\<lparr>tc_model := ''openai/gpt-5'', tc_effort := Some ''low'', tc_thinking := None\<rparr>"

lemma openai_tier_model: "isOpenAIModel (tc_model openai_tier)" "\<not> isClaudeModel (tc_model openai_tier)"
  by (code_simp, code_simp)

theorem effort_ceiling_is_truthful_witness:
  "first_some (ao_effort (fst (buildAgentOptions (openai_tier\<lparr>tc_effort := Some ''high''\<rparr>) ''m'')))
     (ao_reasoningEffort (fst (buildAgentOptions (openai_tier\<lparr>tc_effort := Some ''high''\<rparr>) ''m''))) = Some ''high''"
proof -
  have c: "effortCeilingFor openai_tier = Some EHigh"
    using openai_tier_model
    by (simp add: effortCeilingFor_def reasoning_effort_def truthy_str_def)
      (simp add: openai_tier_def claude_tier_def parse_effort_def EFFORT_LEVELS_def)
  from effort_ceiling_is_truthful [OF c, of EHigh "''m''"] show ?thesis by (simp add: case_prod_beta)
qed

end
