(* ===== verification/Incomplete.thy ===== *)
theory Incomplete
  imports Router_Prelude
begin

text \<open>
  The two reasons of an incomplete return, \<^verbatim>\<open>src/verify/checker.ts\<close>. The gate writes them and the ladder
  recognises them, exactly and never by prefix.
\<close>

definition INCOMPLETE_REASON :: string where
  "INCOMPLETE_REASON = ''incomplete: the delegate returned a progress note (no DONE:, NEED MORE: or ESCALATE:), not a result; resume the same delegation to let it finish''"

definition BUDGET_INCOMPLETE_REASON :: string where
  "BUDGET_INCOMPLETE_REASON = ''incomplete: the delegate stopped at its tool-call budget (NEED MORE: budget), not with a result; resume the same delegation to let it finish''"

definition isIncompleteReason :: "string \<Rightarrow> bool" where
  "isIncompleteReason reason \<longleftrightarrow> reason \<in> set [INCOMPLETE_REASON, BUDGET_INCOMPLETE_REASON]"

end
