(* ===== verification/Ladder.thy ===== *)
theory Ladder
  imports Agent_Options Incomplete
begin

text \<open>
  The escalation ladder, \<^verbatim>\<open>src/escalate/ladder.ts\<close>: its policy, the state of one delegation, the
  action after a verdict (\<open>nextAction\<close>), the state after the action (\<open>advance\<close>). A key the
  code leaves absent is \<open>None\<close>; where it also tells \<^verbatim>\<open>undefined\<close> from \<^verbatim>\<open>null\<close> the field
  is a \<open>jsopt\<close>. The texts of \<^verbatim>\<open>reason\<close> are the constructors of \<open>ladder_reason\<close>.
\<close>

section \<open>Types\<close>

record tier_variant_info =
  tv_model :: string
  tv_base :: string
  tv_ladder :: variant_ladder
  tv_inputBudget :: "real option"
  tv_costRatios :: "string \<rightharpoonup> real"
  tv_effortConfigured :: bool

record variant_policy =
  vp_maxContextFraction :: jsnum
  vp_perTier :: "string \<rightharpoonup> tier_variant_info"

type_synonym effort_bump_policy = "string \<rightharpoonup> (effort_level \<times> effort_level)"

record escalate_policy =
  ep_ladder :: "string list"
  ep_floorTier :: "string option"
  ep_maxAttemptsPerTier :: int
  ep_maxTotalAttempts :: int
  ep_costMultiple :: "real option"
  ep_effortBump :: "effort_bump_policy option"
  ep_variants :: "variant_policy option"

record ladder_state =
  ls_currentTier :: string
  ls_attemptsThisTier :: int
  ls_totalAttempts :: int
  ls_escalations :: int
  ls_firstAttemptCost :: "real option"
  ls_cumulativeCost :: real
  ls_currentEffort :: "effort_level jsopt"
  ls_currentVariant :: "string jsopt"
  ls_variantSteps :: "int option"
  ls_childSessionID :: "string jsopt"
  ls_lastStepTokens :: "jsnum jsopt"
  ls_nextModelContext :: "real jsopt"
  ls_triedByModel :: "(string \<rightharpoonup> string) option"

datatype ladder_action_kind = Accept | Retry | Escalate | GiveUp

datatype ladder_reason =
    IncompleteGiveUp | VerificationUnavailable | MaxTotalAttempts int | CostCeiling
  | OnlyTriedRungsLeft | TopOfLadder

record ladder_action =
  la_action :: ladder_action_kind
  la_tier :: "string option"
  la_forcingMessage :: "string option"
  la_reason :: "ladder_reason option"
  la_effort :: "effort_level option"
  la_variantStep :: bool
  la_agent :: "string option"
  la_model :: "string option"
  la_variant :: "string option"
  la_carryVariant :: bool
  la_rung :: "(string \<times> string) option"
  la_costRatio :: "real option"
  la_resume :: "bool option"
  la_resumeBasis :: "resume_decision option"

definition bare_action :: "ladder_action_kind \<Rightarrow> ladder_action" where
  "bare_action k = \<lparr>la_action = k, la_tier = None, la_forcingMessage = None, la_reason = None,
     la_effort = None, la_variantStep = False, la_agent = None, la_model = None, la_variant = None,
     la_carryVariant = False, la_rung = None, la_costRatio = None, la_resume = None,
     la_resumeBasis = None\<rparr>"

definition give_up :: "ladder_reason \<Rightarrow> ladder_action" where
  "give_up r = (bare_action GiveUp)\<lparr>la_reason := Some r\<rparr>"

datatype verdict_outcome = OutPass | OutFail | OutUnverifiable

record ladder_verdict =
  lv_pass :: bool
  lv_outcome :: "verdict_outcome option"
  lv_reasons :: "string list option"
  lv_incomplete :: bool

record child_observation =
  co_sessionID :: string
  co_lastStepTokens :: "jsnum option"

section \<open>Helpers\<close>

definition tierRank :: "string \<Rightarrow> string list \<Rightarrow> int" where
  "tierRank tier ladder = index_of ladder tier"

definition resolveStartTier :: "string \<Rightarrow> escalate_policy \<Rightarrow> string" where
  "resolveStartTier producerTier policy =
     (let pi = tierRank producerTier (ep_ladder policy);
          fi = (case ep_floorTier policy of None \<Rightarrow> -1 | Some f \<Rightarrow> tierRank f (ep_ladder policy));
          startIdx = max (if 0 \<le> pi then pi else 0) (if 0 \<le> fi then fi else 0)
      in or_else (nth_or_null (ep_ladder policy) (nat startIdx)) producerTier)"

definition ownTierInfo :: "escalate_policy \<Rightarrow> string \<Rightarrow> tier_variant_info option" where
  "ownTierInfo policy tier =
     (case ep_variants policy of None \<Rightarrow> None | Some v \<Rightarrow> vp_perTier v tier)"

definition newLadderState :: "string \<Rightarrow> escalate_policy \<Rightarrow> ladder_state" where
  "newLadderState producerTier policy =
     (let tier = resolveStartTier producerTier policy;
          start = ownTierInfo policy tier;
          aware = ep_variants policy \<noteq> None
      in \<lparr>ls_currentTier = tier, ls_attemptsThisTier = 0, ls_totalAttempts = 0, ls_escalations = 0,
          ls_firstAttemptCost = None, ls_cumulativeCost = 0,
          ls_currentEffort = (if ep_effortBump policy = None then Undefined else Null),
          ls_currentVariant = (if aware then Null else Undefined),
          ls_variantSteps = (if aware then Some 0 else None),
          ls_childSessionID = (if aware then Null else Undefined),
          ls_lastStepTokens = (if aware then Null else Undefined),
          ls_nextModelContext =
            (if aware then of_option (Option.bind start tv_inputBudget) else Undefined),
          ls_triedByModel =
            (if aware
             then Some (case start of None \<Rightarrow> Map.empty
                        | Some s \<Rightarrow> if tv_effortConfigured s then Map.empty
                                   else [tv_model s \<mapsto> tv_base s])
             else None)\<rparr>)"

definition recordAttempt ::
    "ladder_state \<Rightarrow> real \<Rightarrow> child_observation option \<Rightarrow> ladder_state" where
  "recordAttempt state costUnits child =
     (let nxt = state\<lparr>ls_totalAttempts := ls_totalAttempts state + 1,
                      ls_cumulativeCost := ls_cumulativeCost state + costUnits,
                      ls_firstAttemptCost := Some (or_else (ls_firstAttemptCost state) costUnits)\<rparr>
      in case child of None \<Rightarrow> nxt
         | Some c \<Rightarrow> if ls_childSessionID state = Undefined then nxt
                    else nxt\<lparr>ls_childSessionID := Def (co_sessionID c),
                             ls_lastStepTokens := of_option (co_lastStepTokens c)\<rparr>)"

definition nextTierAfter :: "string \<Rightarrow> escalate_policy \<Rightarrow> string option" where
  "nextTierAfter currentTier policy =
     (let ci = tierRank currentTier (ep_ladder policy) in
      if 0 \<le> ci \<and> ci + 1 \<le> int (length (ep_ladder policy)) - 1
      then Some (ep_ladder policy ! nat (ci + 1)) else None)"

definition NL :: string where "NL = [CHR 0x0A]"

fun join_lines :: "string list \<Rightarrow> string" where
  "join_lines [] = []"
| "join_lines [r] = r"
| "join_lines (r # rs) = r @ NL @ join_lines rs"

definition buildLadderForcingMessage :: "string list \<Rightarrow> string" where
  "buildLadderForcingMessage reasons =
     ''[router escalation] previous attempt did not pass verification:'' @ NL @
     (if reasons = [] then ''- (no reasons provided)''
      else join_lines (map (\<lambda>r. ''- '' @ r) reasons)) @
     NL @ ''NEXT: retry with these failures addressed.''"

definition raiseTried :: "(string \<rightharpoonup> string) option \<Rightarrow> string \<Rightarrow> string \<Rightarrow> (string \<rightharpoonup> string)" where
  "raiseTried tried model variant =
     (let current = or_else tried Map.empty in
      case current model of
        None \<Rightarrow> current(model \<mapsto> variant)
      | Some k \<Rightarrow>
          (case variantRange (Some variant) of
             None \<Rightarrow> current
           | Some (nlow, _) \<Rightarrow>
               (case variantRange (Some k) of
                  None \<Rightarrow> current(model \<mapsto> variant)
                | Some (klow, _) \<Rightarrow> if nlow \<le> klow then current else current(model \<mapsto> variant))))"

definition emittable :: "tier_variant_info \<Rightarrow> string \<Rightarrow> string option" where
  "emittable info v =
     (if v \<noteq> DEFAULT_VARIANT \<and> (v = tv_base info \<or> v \<in> set (vl_variants (tv_ladder info)))
      then Some v else None)"

definition costRatioOf :: "tier_variant_info \<Rightarrow> string option \<Rightarrow> real option" where
  "costRatioOf info variant = tv_costRatios info (or_else variant DEFAULT_VARIANT)"

text \<open>\<^verbatim>\<open>state.currentVariant ?? info.base\<close>.\<close>

definition reached_variant :: "ladder_state \<Rightarrow> tier_variant_info \<Rightarrow> string" where
  "reached_variant state info = or_else (nullish (ls_currentVariant state)) (tv_base info)"

definition startCostRatio :: "escalate_policy \<Rightarrow> ladder_state \<Rightarrow> real option" where
  "startCostRatio policy state =
     (case ownTierInfo policy (ls_currentTier state) of None \<Rightarrow> None
      | Some info \<Rightarrow> costRatioOf info (Some (reached_variant state info)))"

text \<open>The fourth argument \<^verbatim>\<open>session\<close> is its \<^verbatim>\<open>dispatchPromptChars\<close>, if given.\<close>

definition sessionFields ::
    "ladder_state \<Rightarrow> variant_policy \<Rightarrow> tier_variant_info option \<Rightarrow> string \<Rightarrow> nat option \<Rightarrow> resume_decision" where
  "sessionFields state variants target forcingMessage session =
     resumeDecision
       \<lparr>rs_childSessionID = ls_childSessionID state,
        rs_lastStepTokens = ls_lastStepTokens state,
        rs_nextModelContext = (case Option.bind target tv_inputBudget of None \<Rightarrow> Null
                               | Some b \<Rightarrow> Def (Fin b))\<rparr>
       \<lparr>rc_maxContextFraction = vp_maxContextFraction variants,
        rc_nextPromptTokens =
          estimateTokensFromChars (Fin (real (length forcingMessage + or_else session 0)))\<rparr>"

definition with_session :: "resume_decision \<Rightarrow> ladder_action \<Rightarrow> ladder_action" where
  "with_session basis a = a\<lparr>la_resume := Some (rd_resume basis), la_resumeBasis := Some basis\<rparr>"

definition tiersAbove :: "escalate_policy \<Rightarrow> string \<Rightarrow> int" where
  "tiersAbove policy tier =
     (let i = tierRank tier (ep_ladder policy) in
      if i < 0 then 0 else int (length (ep_ladder policy)) - 1 - i)"

definition reserveAllows :: "escalate_policy \<Rightarrow> ladder_state \<Rightarrow> bool" where
  "reserveAllows policy state \<longleftrightarrow>
     tiersAbove policy (ls_currentTier state)
       \<le> ep_maxTotalAttempts policy - ls_totalAttempts state - 1"

section \<open>Where an escalation lands\<close>

text \<open>The loop, with \<open>hops\<close> the covered tiers passed; the result is \<^verbatim>\<open>tier\<close> and \<^verbatim>\<open>variant\<close>.\<close>

function skip_loop ::
    "escalate_policy \<Rightarrow> (string \<rightharpoonup> string) \<Rightarrow> nat \<Rightarrow> string option \<Rightarrow> string option \<times> string option" where
  "skip_loop policy tried hops None = (None, None)"
| "skip_loop policy tried hops (Some t) =
     (case ownTierInfo policy t of
        None \<Rightarrow> (Some t, None)
      | Some to \<Rightarrow>
          (if tv_effortConfigured to then (Some t, None)
           else case tried (tv_model to) of
             None \<Rightarrow> (Some t, None)
           | Some reached \<Rightarrow>
               (if \<not> variantCovered (Some (tv_base to)) (Some reached) then (Some t, None)
                else case nextVariant (tv_ladder to) (Some reached) of
                  Some entry \<Rightarrow> (Some t, Some entry)
                | None \<Rightarrow>
                    (if length (ep_ladder policy) \<le> hops + 1 then (None, None)
                     else skip_loop policy tried (hops + 1) (nextTierAfter t policy)))))"
  by pat_completeness auto
termination
  by (relation "measure (\<lambda>(policy, tried, hops, t). length (ep_ladder policy) - hops)") auto

text \<open>The tried map with the rung the failed attempt just ran; an effort-configured tier records none.\<close>

definition tried_now :: "ladder_state \<Rightarrow> tier_variant_info \<Rightarrow> (string \<rightharpoonup> string)" where
  "tried_now state info =
     (if tv_effortConfigured info then or_else (ls_triedByModel state) Map.empty
      else raiseTried (ls_triedByModel state) (tv_model info) (reached_variant state info))"

definition skipCoveredTiers ::
    "string option \<Rightarrow> ladder_state \<Rightarrow> escalate_policy \<Rightarrow> tier_variant_info \<Rightarrow> string option \<times> string option" where
  "skipCoveredTiers nxt state policy info = skip_loop policy (tried_now state info) 0 nxt"

section \<open>nextAction\<close>

definition verdict_reasons :: "ladder_verdict option \<Rightarrow> string list" where
  "verdict_reasons verdict = or_else (Option.bind verdict lv_reasons) []"

definition verdict_passes :: "ladder_verdict option \<Rightarrow> bool" where
  "verdict_passes verdict \<longleftrightarrow> (case verdict of None \<Rightarrow> False | Some v \<Rightarrow> lv_pass v)"

definition verdict_unverifiable :: "ladder_verdict option \<Rightarrow> bool" where
  "verdict_unverifiable verdict \<longleftrightarrow> Option.bind verdict lv_outcome = Some OutUnverifiable"

definition verdict_incomplete :: "ladder_verdict option \<Rightarrow> bool" where
  "verdict_incomplete verdict \<longleftrightarrow>
     (case verdict of None \<Rightarrow> False | Some v \<Rightarrow> lv_incomplete v) \<or>
     list_ex isIncompleteReason (verdict_reasons verdict)"

definition cost_exceeded :: "ladder_state \<Rightarrow> escalate_policy \<Rightarrow> bool" where
  "cost_exceeded state policy =
     (case (ep_costMultiple policy, ls_firstAttemptCost state) of
        (Some multiple, Some first) \<Rightarrow> first * multiple < ls_cumulativeCost state
      | _ \<Rightarrow> False)"

text \<open>The closure \<^verbatim>\<open>variantStep\<close> of \<open>nextAction\<close>.\<close>

definition variant_step ::
    "ladder_state \<Rightarrow> ladder_verdict option \<Rightarrow> escalate_policy \<Rightarrow> nat option \<Rightarrow> ladder_action option" where
  "variant_step state verdict policy session =
     (case (ep_variants policy, ownTierInfo policy (ls_currentTier state)) of
        (Some variants, Some info) \<Rightarrow>
          (case nextVariant (tv_ladder info) (Some (reached_variant state info)) of
             None \<Rightarrow> None
           | Some v \<Rightarrow>
               (let msg = buildLadderForcingMessage (verdict_reasons verdict) in
                Some (with_session (sessionFields state variants (Some info) msg session)
                  ((bare_action Retry)\<lparr>la_tier := Some (ls_currentTier state),
                     la_forcingMessage := Some msg, la_variantStep := True,
                     la_model := Some (tv_model info), la_variant := Some v,
                     la_costRatio := costRatioOf info (Some v),
                     la_rung := (if tv_effortConfigured info then None else Some (tv_model info, v))\<rparr>))))
      | _ \<Rightarrow> None)"

text \<open>The effort of a plain retry: \<^verbatim>\<open>undefined\<close> is \<open>None\<close>.\<close>

definition bumped_effort :: "ladder_state \<Rightarrow> escalate_policy \<Rightarrow> effort_level option" where
  "bumped_effort state policy =
     (case Option.bind (ep_effortBump policy) (\<lambda>perTier. perTier (ls_currentTier state)) of
        None \<Rightarrow> None
      | Some (base, bnd) \<Rightarrow>
          (let cur = or_else (nullish (ls_currentEffort state)) base;
               startingEffort = minEffort (if effortRank cur < effortRank base then base else cur) bnd
           in first_some (nextEffort startingEffort bnd)
                (if nullish (ls_currentEffort state) = None then None else Some startingEffort)))"

text \<open>The closure \<^verbatim>\<open>plainRetry\<close>.\<close>

definition plain_retry ::
    "ladder_state \<Rightarrow> ladder_verdict option \<Rightarrow> escalate_policy \<Rightarrow> nat option \<Rightarrow> ladder_action option" where
  "plain_retry state verdict policy session =
     (if ep_maxAttemptsPerTier policy \<le> ls_attemptsThisTier state then None
      else
        (let msg = buildLadderForcingMessage (verdict_reasons verdict);
             info = ownTierInfo policy (ls_currentTier state);
             a = (bare_action Retry)\<lparr>la_tier := Some (ls_currentTier state),
                   la_forcingMessage := Some msg, la_effort := bumped_effort state policy\<rparr>
         in case ep_variants policy of
              None \<Rightarrow> Some a
            | Some variants \<Rightarrow>
                Some (with_session (sessionFields state variants info msg session)
                  (case info of None \<Rightarrow> a
                   | Some i \<Rightarrow>
                       (let v = emittable i (reached_variant state i) in
                        a\<lparr>la_model := Some (tv_model i), la_variant := v,
                          la_costRatio := costRatioOf i v\<rparr>)))))"

definition stay_action ::
    "ladder_state \<Rightarrow> ladder_verdict option \<Rightarrow> escalate_policy \<Rightarrow> nat option \<Rightarrow> ladder_action option" where
  "stay_action state verdict policy session =
     first_some (variant_step state verdict policy session) (plain_retry state verdict policy session)"

text \<open>The escalation into \<open>nxt\<close>, entered at \<open>entry\<close> when the tier is covered.\<close>

definition escalate_to ::
    "ladder_state \<Rightarrow> ladder_verdict option \<Rightarrow> escalate_policy \<Rightarrow> nat option \<Rightarrow> string \<Rightarrow> string option \<Rightarrow> ladder_action" where
  "escalate_to state verdict policy session nxt entry =
     (let msg = buildLadderForcingMessage (verdict_reasons verdict);
          a = (bare_action Escalate)\<lparr>la_tier := Some nxt, la_forcingMessage := Some msg\<rparr>
      in case ep_variants policy of
           None \<Rightarrow> a
         | Some variants \<Rightarrow>
             (let target = ownTierInfo policy nxt; a1 = a\<lparr>la_agent := Some nxt\<rparr> in
              with_session (sessionFields state variants target msg session)
                (case target of None \<Rightarrow> a1
                 | Some t \<Rightarrow>
                     (let v = first_some entry (emittable t (tv_base t)) in
                      a1\<lparr>la_model := Some (tv_model t), la_variant := v,
                         la_carryVariant := (entry \<noteq> None),
                         la_costRatio := costRatioOf t v,
                         la_rung := (if tv_effortConfigured t then None
                                     else Some (tv_model t, or_else v DEFAULT_VARIANT))\<rparr>))))"

definition escalation_target ::
    "ladder_state \<Rightarrow> escalate_policy \<Rightarrow> string option \<times> string option" where
  "escalation_target state policy =
     (let nxt = nextTierAfter (ls_currentTier state) policy in
      case (ep_variants policy, ownTierInfo policy (ls_currentTier state)) of
        (Some _, Some info) \<Rightarrow> skipCoveredTiers nxt state policy info
      | _ \<Rightarrow> (nxt, None))"

definition may_stay :: "ladder_state \<Rightarrow> escalate_policy \<Rightarrow> bool" where
  "may_stay state policy \<longleftrightarrow> ep_variants policy = None \<or> reserveAllows policy state"

text \<open>Step (6): escalate, else spend what the reserve withheld, else give up.\<close>

definition leave_tier ::
    "ladder_state \<Rightarrow> ladder_verdict option \<Rightarrow> escalate_policy \<Rightarrow> nat option \<Rightarrow> ladder_action" where
  "leave_tier state verdict policy session =
     (case escalation_target state policy of
        (Some nxt, entry) \<Rightarrow> escalate_to state verdict policy session nxt entry
      | (None, _) \<Rightarrow>
          (case (if may_stay state policy then None else stay_action state verdict policy session) of
             Some spend \<Rightarrow> spend
           | None \<Rightarrow>
               give_up (if nextTierAfter (ls_currentTier state) policy \<noteq> None
                        then OnlyTriedRungsLeft else TopOfLadder)))"

definition nextAction ::
    "ladder_state \<Rightarrow> ladder_verdict option \<Rightarrow> escalate_policy \<Rightarrow> nat option \<Rightarrow> ladder_action" where
  "nextAction state verdict policy session =
     (if verdict_passes verdict then bare_action Accept
      else if verdict_unverifiable verdict
      then give_up (if verdict_incomplete verdict then IncompleteGiveUp else VerificationUnavailable)
      else if ep_maxTotalAttempts policy \<le> ls_totalAttempts state
      then give_up (MaxTotalAttempts (ep_maxTotalAttempts policy))
      else if cost_exceeded state policy then give_up CostCeiling
      else case (if may_stay state policy then stay_action state verdict policy session else None) of
             Some stay \<Rightarrow> stay
           | None \<Rightarrow> leave_tier state verdict policy session)"

section \<open>advance\<close>

definition applyRung :: "ladder_action \<Rightarrow> ladder_state \<Rightarrow> ladder_state" where
  "applyRung action nxt =
     (case (ls_triedByModel nxt, la_rung action) of
        (Some t, Some (m, v)) \<Rightarrow> nxt\<lparr>ls_triedByModel := Some (raiseTried (Some t) m v)\<rparr>
      | _ \<Rightarrow> nxt)"

definition applySession :: "ladder_action \<Rightarrow> ladder_state \<Rightarrow> ladder_state" where
  "applySession action nxt =
     (if ls_childSessionID nxt = Undefined then nxt
      else nxt\<lparr>ls_childSessionID := (if la_resume action = Some True then ls_childSessionID nxt else Null),
               ls_lastStepTokens := Null,
               ls_nextModelContext := of_option (Option.bind (la_resumeBasis action) rd_budget)\<rparr>)"

definition advance_retry :: "ladder_state \<Rightarrow> ladder_action \<Rightarrow> ladder_state" where
  "advance_retry state action =
     (let n1 = (if la_variantStep action
                then state\<lparr>ls_currentVariant := of_option (la_variant action),
                           ls_variantSteps := Some (or_else (ls_variantSteps state) 0 + 1)\<rparr>
                else state\<lparr>ls_attemptsThisTier := ls_attemptsThisTier state + 1\<rparr>);
          n2 = (case la_effort action of None \<Rightarrow> n1 | Some e \<Rightarrow> n1\<lparr>ls_currentEffort := Def e\<rparr>)
      in applySession action (applyRung action n2))"

text \<open>\<^verbatim>\<open>action.tier!\<close> is \<open>the\<close>: every escalate action of \<open>nextAction\<close> has its tier.\<close>

definition advance_escalate :: "ladder_state \<Rightarrow> ladder_action \<Rightarrow> ladder_state" where
  "advance_escalate state action =
     (let n1 = state\<lparr>ls_currentTier := the (la_tier action), ls_attemptsThisTier := 0,
                     ls_escalations := ls_escalations state + 1\<rparr>;
          n2 = (if ls_currentEffort n1 = Undefined then n1 else n1\<lparr>ls_currentEffort := Null\<rparr>);
          n3 = (if ls_currentVariant n2 = Undefined then n2
                else n2\<lparr>ls_currentVariant :=
                          (if la_carryVariant action then of_option (la_variant action) else Null)\<rparr>)
      in applySession action (applyRung action n3))"

definition advance :: "ladder_state \<Rightarrow> ladder_action \<Rightarrow> ladder_state" where
  "advance state action =
     (case la_action action of
        Retry \<Rightarrow> advance_retry state action
      | Escalate \<Rightarrow> advance_escalate state action
      | _ \<Rightarrow> state)"

end
