(* ===== verification/Ladder_Policy.thy ===== *)
theory Ladder_Policy
  imports Ladder
begin

text \<open>
  Building the ladder's policy from the configuration: \<^verbatim>\<open>buildEscalatePolicy\<close>,
  \<^verbatim>\<open>buildVariantPolicy\<close>, \<^verbatim>\<open>buildEffortBump\<close> and \<^verbatim>\<open>rungCostRatios\<close> of
  \<^verbatim>\<open>src/escalate/ladder.ts\<close>. The host catalog is not under \<^verbatim>\<open>src/\<close>: it is the parameter
  \<open>lp_catalog\<close>, whose \<open>Inl\<close> result is a lookup that throws.
\<close>

section \<open>Cost ratios\<close>

fun validCostRatio :: "jsval \<Rightarrow> real option" where
  "validCostRatio (JNum (Fin x)) = (if 0 < x then Some x else None)"
| "validCostRatio _ = None"

text \<open>A string that is not empty, else the default.\<close>

fun nonempty_or :: "string \<Rightarrow> jsval \<Rightarrow> string" where
  "nonempty_or d (JStr s) = (if s = [] then d else s)"
| "nonempty_or d _ = d"

text \<open>The first loop of \<open>rungCostRatios\<close>: the tier's own candidates, first entry per rung.\<close>

fun own_ratios :: "string \<Rightarrow> tier_candidate option list \<Rightarrow> (string, real) jsmap \<Rightarrow> (string, real) jsmap" where
  "own_ratios model [] own = own"
| "own_ratios model (None # cs) own = own_ratios model cs own"
| "own_ratios model (Some c # cs) own =
     own_ratios model cs
       (case validCostRatio (tcand_costRatio c) of
          None \<Rightarrow> own
        | Some ratio \<Rightarrow>
            (let rung = nonempty_or DEFAULT_VARIANT (tcand_variant c) in
             if nonempty_or model (tcand_model c) \<noteq> model \<or> map_get own rung \<noteq> None then own
             else map_set rung ratio own))"

definition configured_rung :: "tier_config \<Rightarrow> string" where
  "configured_rung t = or_else (first_some (tc_variant t) (tc_effort t)) DEFAULT_VARIANT"

text \<open>The inner loop over the preset's other tiers; a tier is identified by its name.\<close>

fun raise_to_preset :: "string \<Rightarrow> tier_config \<Rightarrow> string \<Rightarrow> preset \<Rightarrow> real option \<Rightarrow> real option" where
  "raise_to_preset name t rung [] ratio = ratio"
| "raise_to_preset name t rung ((n, other) # ts) ratio =
     raise_to_preset name t rung ts
       (if n = name \<or> tc_model other \<noteq> tc_model t \<or> configured_rung other \<noteq> rung then ratio
        else case validCostRatio (tc_costRatio other) of None \<Rightarrow> ratio
             | Some oth \<Rightarrow> Some (max (or_else ratio 0) oth))"

definition rungCostRatios ::
    "string \<Rightarrow> tier_config \<Rightarrow> string \<Rightarrow> variant_ladder \<Rightarrow> preset \<Rightarrow> (string \<rightharpoonup> real)" where
  "rungCostRatios name t base ladder presetTiers =
     (let own = (case tc_candidates t of None \<Rightarrow> [] | Some cs \<Rightarrow> own_ratios (tc_model t) cs []);
          ratio_of = (\<lambda>rung.
            (let ratio = first_some (map_get own rung) (validCostRatio (tc_costRatio t)) in
             if vl_source ladder = SrcCatalog \<and> rung \<noteq> base
             then raise_to_preset name t rung presetTiers ratio else ratio))
      in (\<lambda>rung. if rung \<in> set (base # vl_variants ladder) then ratio_of rung else None))"

section \<open>The variant policy\<close>

datatype host_version = V1 | V2
datatype variant_steps_mode = StepsAuto | StepsNone

record session_policy_input =
  lp_host :: host_version
  lp_variantSteps :: "variant_steps_mode option"
  lp_maxContextFraction :: "jsnum option"
  lp_catalog :: "string \<Rightarrow> string + catalog_model option"

text \<open>\<^verbatim>\<open>lookupCatalog\<close>: a throwing lookup is no catalog entry; the warning is the second component.\<close>

definition lookupCatalog :: "session_policy_input \<Rightarrow> string \<Rightarrow> catalog_model option \<times> string list" where
  "lookupCatalog session model =
     (case lp_catalog session model of
        Inr e \<Rightarrow> (e, [])
      | Inl reason \<Rightarrow>
          (None, [''[router] ladder: catalog lookup for '' @ model @ '' failed ('' @ reason @
                  ''); treating it as no catalog entry'']))"

definition effort_configured :: "tier_config \<Rightarrow> bool" where
  "effort_configured t \<longleftrightarrow> tc_effort t \<noteq> None \<or> tc_thinking t \<noteq> None \<or> tc_reasoning t \<noteq> None"

definition as_variant_candidate :: "tier_candidate option \<Rightarrow> variant_candidate option" where
  "as_variant_candidate = map_option (\<lambda>c. \<lparr>vc_model = tcand_model c, vc_variant = tcand_variant c\<rparr>)"

text \<open>The ladder of a tier: empty for an effort-configured tier.\<close>

definition tier_ladder :: "effort_level \<Rightarrow> tier_config \<Rightarrow> catalog_model \<Rightarrow> variant_ladder" where
  "tier_ladder mx t entry =
     (if effort_configured t
      then buildVariantLadder \<lparr>li_model = tc_model t, li_catalog = None,
             li_candidates = None, li_maxEffort = None\<rparr>
      else buildVariantLadder \<lparr>li_model = tc_model t, li_catalog = Some entry,
             li_candidates = map_option (map as_variant_candidate) (tc_candidates t),
             li_maxEffort = Some (effort_name mx)\<rparr>)"

text \<open>The body of the loop over the active tiers; \<open>None\<close> is \<^verbatim>\<open>continue\<close>.\<close>

definition tier_info_of ::
    "session_policy_input \<Rightarrow> effort_level \<Rightarrow> preset \<Rightarrow> string \<Rightarrow> tier_config \<Rightarrow> tier_variant_info option" where
  "tier_info_of session mx tiers name t =
     (if tc_model t = [] then None
      else case fst (lookupCatalog session (tc_model t)) of
        None \<Rightarrow> None
      | Some entry \<Rightarrow>
          (let ids = catalogVariantIds (Some entry);
               configured = truthy_str (tc_variant t);
               base = or_else configured DEFAULT_VARIANT
           in if configured \<noteq> None \<and> base \<notin> set (or_else ids []) then None
              else Some \<lparr>tv_model = tc_model t, tv_base = base,
                         tv_ladder = tier_ladder mx t entry,
                         tv_inputBudget = inputBudget (cm_limit entry),
                         tv_costRatios = rungCostRatios name t base (tier_ladder mx t entry) tiers,
                         tv_effortConfigured = effort_configured t\<rparr>))"

definition active_tiers :: "router_config \<Rightarrow> preset" where
  "active_tiers cfg = or_else (getActiveTiers cfg) []"

definition buildVariantPolicy :: "router_config \<Rightarrow> session_policy_input option \<Rightarrow> variant_policy option" where
  "buildVariantPolicy cfg session =
     (case session of None \<Rightarrow> None
      | Some s \<Rightarrow>
          (if lp_host s \<noteq> V2 \<or> lp_variantSteps s = Some StepsNone then None
           else
             (let tiers = active_tiers cfg; mx = snd (resolveEffortBump cfg);
                  entries = List.map_filter
                    (\<lambda>(name, t). map_option (Pair name) (tier_info_of s mx tiers name t)) tiers
              in if entries = [] then None
                 else Some \<lparr>vp_maxContextFraction = or_else (lp_maxContextFraction s) (Fin (6 / 10)),
                            vp_perTier = map_of entries\<rparr>)))"

section \<open>Effort bumps and the policy\<close>

definition bump_of :: "effort_level \<Rightarrow> tier_config \<Rightarrow> (effort_level \<times> effort_level) option" where
  "bump_of mx t =
     (case (effortCeilingFor t, Option.bind (tc_effort t) parse_effort) of
        (Some ceil_e, Some base) \<Rightarrow>
          (let bnd = minEffort ceil_e mx in
           if effortRank bnd \<le> effortRank base then None else Some (base, bnd))
      | _ \<Rightarrow> None)"

definition buildEffortBump :: "router_config \<Rightarrow> effort_bump_policy option" where
  "buildEffortBump cfg =
     (let (enabled, mx) = resolveEffortBump cfg in
      if \<not> enabled then None
      else (let entries = List.map_filter (\<lambda>(name, t). map_option (Pair name) (bump_of mx t)) (active_tiers cfg)
            in if entries = [] then None else Some (map_of entries)))"

definition buildEscalatePolicy :: "router_config \<Rightarrow> session_policy_input option \<Rightarrow> escalate_policy" where
  "buildEscalatePolicy cfg session =
     (let esc = escalate_of cfg in
      \<lparr>ep_ladder = or_else (Option.bind esc ec_ladder) [''fast'', ''medium'', ''heavy''],
       ep_floorTier = Option.bind esc ec_floorTier,
       ep_maxAttemptsPerTier = or_else (Option.bind esc ec_maxAttemptsPerTier) 1,
       ep_maxTotalAttempts = or_else (Option.bind esc ec_maxTotalAttempts) 4,
       ep_costMultiple = Some (or_else (Option.bind esc ec_costMultiple) 4),
       ep_effortBump = buildEffortBump cfg,
       ep_variants = buildVariantPolicy cfg session\<rparr>)"

section \<open>What the built policy guarantees\<close>

text \<open>
  The invariant of the policy's tier entries the run proofs rest on: ladders the code built, a base
  that is \<open>default\<close> or ranked-or-catalogued and not empty, no steps for an effort-configured tier,
  and positive cost ratios.
\<close>

definition wf_info :: "tier_variant_info \<Rightarrow> bool" where
  "wf_info i \<longleftrightarrow> wf_ladder (tv_ladder i) \<and> tv_base i \<noteq> [] \<and>
     (tv_effortConfigured i \<longrightarrow> vl_variants (tv_ladder i) = []) \<and>
     (\<forall>v r. tv_costRatios i v = Some r \<longrightarrow> 0 < r)"

definition wf_policy :: "escalate_policy \<Rightarrow> bool" where
  "wf_policy p \<longleftrightarrow> (\<forall>t i. ownTierInfo p t = Some i \<longrightarrow> wf_info i) \<and>
     (\<forall>m t b d. ep_effortBump p = Some m \<longrightarrow> m t = Some (b, d) \<longrightarrow> b < d)"

lemma validCostRatio_pos: "validCostRatio v = Some r \<Longrightarrow> 0 < r"
  by (cases v rule: validCostRatio.cases) (auto split: if_splits)

definition pos_map :: "(string, real) jsmap \<Rightarrow> bool" where
  "pos_map m \<longleftrightarrow> (\<forall>k r. map_get m k = Some r \<longrightarrow> 0 < r)"

lemma pos_map_set: "pos_map m \<Longrightarrow> 0 < r \<Longrightarrow> pos_map (map_set k r m)"
  by (simp add: pos_map_def map_get_set)

lemma own_ratios_pos: "pos_map own \<Longrightarrow> pos_map (own_ratios model cs own)"
proof (induction model cs own rule: own_ratios.induct)
  case (3 model c cs own)
  show ?case
    unfolding own_ratios.simps
    by (rule 3(1)) (simp add: 3(2) Let_def pos_map_set validCostRatio_pos split: option.split)
qed auto

lemma raise_to_preset_pos:
  "(\<And>x. ratio = Some x \<Longrightarrow> 0 < x) \<Longrightarrow> raise_to_preset name t rung ts ratio = Some r \<Longrightarrow> 0 < r"
proof (induction name t rung ts ratio rule: raise_to_preset.induct)
  case (2 name t rung n other ts ratio)
  have pos: "0 < x" if "(if n = name \<or> tc_model other \<noteq> tc_model t \<or> configured_rung other \<noteq> rung then ratio
        else case validCostRatio (tc_costRatio other) of None \<Rightarrow> ratio
             | Some oth \<Rightarrow> Some (max (or_else ratio 0) oth)) = Some x" for x
    using that 2(2) by (auto dest: validCostRatio_pos split: if_splits option.splits)
  show ?case by (rule 2(1)) (use pos 2(3) in simp_all)
qed auto

lemma own_ratios_get_pos:
  "map_get (case cands of None \<Rightarrow> [] | Some cs \<Rightarrow> own_ratios model cs []) v = Some r \<Longrightarrow> 0 < r"
proof (cases cands)
  case (Some cs)
  assume "map_get (case cands of None \<Rightarrow> [] | Some cs \<Rightarrow> own_ratios model cs []) v = Some r"
  moreover have "pos_map (own_ratios model cs [])"
    by (rule own_ratios_pos) (simp add: pos_map_def)
  ultimately show ?thesis using Some by (simp add: pos_map_def)
qed simp

lemma rungCostRatios_pos:
  assumes "rungCostRatios name t base ladder tiers v = Some r"
  shows "0 < r"
proof -
  define ratio where "ratio = first_some
    (map_get (case tc_candidates t of None \<Rightarrow> [] | Some cs \<Rightarrow> own_ratios (tc_model t) cs []) v)
    (validCostRatio (tc_costRatio t))"
  have pos: "0 < x" if "ratio = Some x" for x
    using that unfolding ratio_def first_some_def
    by (simp split: option.split_asm add: own_ratios_get_pos validCostRatio_pos)
  have "ratio = Some r \<or> raise_to_preset name t v tiers ratio = Some r"
    using assms unfolding rungCostRatios_def Let_def ratio_def [symmetric] by (simp split: if_split_asm)
  then show ?thesis using pos [of r] raise_to_preset_pos [of ratio, OF pos] by (elim disjE)
qed

lemma no_catalog_ladder:
  "li_catalog inp = None \<Longrightarrow> vl_variants (buildVariantLadder inp) = []"
  by (simp add: buildVariantLadder_def catalogVariantIds_def Let_def)

lemma tier_ladder_wf: "wf_ladder (tier_ladder mx t entry)"
  by (simp add: tier_ladder_def build_wf)

lemma tier_ladder_effort: "effort_configured t \<Longrightarrow> vl_variants (tier_ladder mx t entry) = []"
  by (simp add: tier_ladder_def no_catalog_ladder)

lemma tier_info_wf:
  assumes "tier_info_of s mx tiers name t = Some i"
  shows "wf_info i"
proof -
  have base: "or_else (truthy_str v) DEFAULT_VARIANT \<noteq> []" for v
    by (simp add: truthy_str_def DEFAULT_VARIANT_def split: option.splits)
  have "tv_base i \<noteq> []"
    using assms base [of "tc_variant t"]
    by (cases "truthy_str (tc_variant t)") (auto simp: tier_info_of_def split: if_split_asm option.split_asm)
  moreover have "wf_ladder (tv_ladder i)"
      "tv_effortConfigured i \<Longrightarrow> vl_variants (tv_ladder i) = []"
      "\<And>v r. tv_costRatios i v = Some r \<Longrightarrow> 0 < r"
    using assms by (auto simp: tier_info_of_def Let_def tier_ladder_wf tier_ladder_effort
        dest: rungCostRatios_pos split: if_split_asm option.split_asm)
  ultimately show ?thesis by (auto simp: wf_info_def)
qed

lemma built_info:
  assumes "ownTierInfo (buildEscalatePolicy cfg session) name = Some i"
  shows "\<exists>s mx tiers t. tier_info_of s mx tiers name t = Some i"
proof -
  obtain vp where vp: "buildVariantPolicy cfg session = Some vp" and i: "vp_perTier vp name = Some i"
    using assms by (auto simp: ownTierInfo_def buildEscalatePolicy_def Let_def split: option.splits)
  then obtain s mx tiers where "map_of (List.map_filter
      (\<lambda>(name, t). map_option (Pair name) (tier_info_of s mx tiers name t)) tiers) name = Some i"
    by (auto simp: buildVariantPolicy_def Let_def split: option.splits if_splits)
  then have "(name, i) \<in> set (List.map_filter
      (\<lambda>(name, t). map_option (Pair name) (tier_info_of s mx tiers name t)) tiers)"
    by (rule map_of_SomeD)
  then obtain t where "tier_info_of s mx tiers name t = Some i" by (auto simp: List.map_filter_def)
  then show ?thesis by (intro exI)
qed

lemma bump_of_less: "bump_of mx t = Some (b, d) \<Longrightarrow> b < d"
  by (auto simp: bump_of_def effort_order Let_def split: option.splits if_splits)

lemma built_bump:
  assumes "buildEffortBump cfg = Some m" and "m name = Some (b, d)"
  shows "b < d"
proof -
  obtain mx tiers where "map_of (List.map_filter
      (\<lambda>(name, t). map_option (Pair name) (bump_of mx t)) tiers) name = Some (b, d)"
    using assms by (auto simp: buildEffortBump_def Let_def split: prod.splits if_splits)
  then have "(name, (b, d)) \<in> set (List.map_filter
      (\<lambda>(name, t). map_option (Pair name) (bump_of mx t)) tiers)"
    by (rule map_of_SomeD)
  then show ?thesis by (auto simp: List.map_filter_def dest: bump_of_less)
qed

lemma built_wf: "wf_policy (buildEscalatePolicy cfg session)"
proof -
  have "wf_info i" if "ownTierInfo (buildEscalatePolicy cfg session) t = Some i" for t i
    using built_info [OF that] tier_info_wf by blast
  moreover have "b < d" if "ep_effortBump (buildEscalatePolicy cfg session) = Some m" "m t = Some (b, d)"
    for m t b d
    using that built_bump by (simp add: buildEscalatePolicy_def Let_def)
  ultimately show ?thesis by (auto simp: wf_policy_def)
qed

end
