(* ===== verification/Ladder_Runs.thy ===== *)
theory Ladder_Runs
  imports Ladder_Policy
begin

text \<open>
  What the escalation ladder guarantees: the shape of every action, and the runs of a delegation
  (record an attempt, ask \<open>nextAction\<close>, \<open>advance\<close>) as a step relation whose verdicts,
  costs and child observations are arbitrary.
\<close>

section \<open>Inversion of nextAction\<close>

lemma bare_action_simps [simp]:
  "la_action (bare_action k) = k" "la_tier (bare_action k) = None"
  "la_forcingMessage (bare_action k) = None" "la_reason (bare_action k) = None"
  "la_effort (bare_action k) = None" "la_variantStep (bare_action k) = False"
  "la_agent (bare_action k) = None" "la_model (bare_action k) = None"
  "la_variant (bare_action k) = None" "la_carryVariant (bare_action k) = False"
  "la_rung (bare_action k) = None" "la_costRatio (bare_action k) = None"
  "la_resume (bare_action k) = None" "la_resumeBasis (bare_action k) = None"
  by (simp_all add: bare_action_def)

lemma with_session_simps [simp]:
  "la_action (with_session b a) = la_action a" "la_tier (with_session b a) = la_tier a"
  "la_forcingMessage (with_session b a) = la_forcingMessage a"
  "la_effort (with_session b a) = la_effort a" "la_variantStep (with_session b a) = la_variantStep a"
  "la_agent (with_session b a) = la_agent a" "la_model (with_session b a) = la_model a"
  "la_variant (with_session b a) = la_variant a" "la_carryVariant (with_session b a) = la_carryVariant a"
  "la_rung (with_session b a) = la_rung a" "la_costRatio (with_session b a) = la_costRatio a"
  "la_resume (with_session b a) = Some (rd_resume b)" "la_resumeBasis (with_session b a) = Some b"
  "la_reason (with_session b a) = la_reason a"
  by (simp_all add: with_session_def)

lemma give_up_simps [simp]:
  "la_action (give_up r) = GiveUp" "la_reason (give_up r) = Some r" "la_variant (give_up r) = None"
  "la_effort (give_up r) = None" "la_rung (give_up r) = None" "la_resume (give_up r) = None"
  "la_resumeBasis (give_up r) = None"
  by (simp_all add: give_up_def)

lemma variant_step_shape:
  assumes "variant_step s v p sess = Some a"
  obtains vp info w where "ep_variants p = Some vp" "ownTierInfo p (ls_currentTier s) = Some info"
    "nextVariant (tv_ladder info) (Some (reached_variant s info)) = Some w"
    "la_action a = Retry" "la_tier a = Some (ls_currentTier s)" "la_variantStep a"
    "la_variant a = Some w" "la_effort a = None" "la_model a = Some (tv_model info)"
    "la_rung a = (if tv_effortConfigured info then None else Some (tv_model info, w))"
    "la_costRatio a = costRatioOf info (Some w)" "la_resume a \<noteq> None" "la_resumeBasis a \<noteq> None"
    "\<not> la_carryVariant a" "la_resume a = map_option rd_resume (la_resumeBasis a)"
  using assms that
  by (auto simp: variant_step_def Let_def split: option.splits)

lemma plain_retry_shape:
  assumes "plain_retry s v p sess = Some a"
  shows "la_action a = Retry \<and> la_tier a = Some (ls_currentTier s) \<and> \<not> la_variantStep a \<and>
    la_effort a = bumped_effort s p \<and> la_rung a = None \<and> \<not> la_carryVariant a \<and>
    ls_attemptsThisTier s < ep_maxAttemptsPerTier p \<and>
    (la_resume a \<noteq> None \<longleftrightarrow> ep_variants p \<noteq> None) \<and>
    (la_resumeBasis a \<noteq> None \<longleftrightarrow> ep_variants p \<noteq> None) \<and>
    la_variant a = Option.bind (ownTierInfo p (ls_currentTier s)) (\<lambda>i. emittable i (reached_variant s i)) \<and>
    la_model a = map_option tv_model (ownTierInfo p (ls_currentTier s)) \<and>
    la_resume a = map_option rd_resume (la_resumeBasis a)"
  using assms
  by (auto simp: plain_retry_def Let_def ownTierInfo_def split: option.splits if_splits)

lemma stay_action_Some:
  "stay_action s v p sess = Some a \<longleftrightarrow>
   variant_step s v p sess = Some a \<or> variant_step s v p sess = None \<and> plain_retry s v p sess = Some a"
  by (auto simp: stay_action_def first_some_def split: option.splits)

lemma stay_action_retry:
  assumes "stay_action s v p sess = Some a"
  shows "la_action a = Retry \<and> la_tier a = Some (ls_currentTier s)"
  using assms plain_retry_shape [of s v p sess a]
  by (auto simp: stay_action_Some elim: variant_step_shape)

lemma escalate_to_shape:
  "la_action (escalate_to s v p sess nxt entry) = Escalate"
  "la_tier (escalate_to s v p sess nxt entry) = Some nxt"
  "la_effort (escalate_to s v p sess nxt entry) = None"
  "\<not> la_variantStep (escalate_to s v p sess nxt entry)"
  "la_resume (escalate_to s v p sess nxt entry) \<noteq> None \<longleftrightarrow> ep_variants p \<noteq> None"
  "la_resumeBasis (escalate_to s v p sess nxt entry) \<noteq> None \<longleftrightarrow> ep_variants p \<noteq> None"
  "la_resume (escalate_to s v p sess nxt entry) =
     map_option rd_resume (la_resumeBasis (escalate_to s v p sess nxt entry))"
  by (auto simp: escalate_to_def Let_def split: option.splits)

text \<open>The guards every paid attempt has passed.\<close>

definition may_pay :: "ladder_state \<Rightarrow> ladder_verdict option \<Rightarrow> escalate_policy \<Rightarrow> bool" where
  "may_pay s v p \<longleftrightarrow> \<not> verdict_passes v \<and> \<not> verdict_unverifiable v \<and>
     ls_totalAttempts s < ep_maxTotalAttempts p \<and> \<not> cost_exceeded s p"

lemma nextAction_paying:
  "may_pay s v p \<Longrightarrow> nextAction s v p sess =
     (case (if may_stay s p then stay_action s v p sess else None) of
        Some stay \<Rightarrow> stay | None \<Rightarrow> leave_tier s v p sess)"
  by (simp add: nextAction_def may_pay_def not_le)

lemma nextAction_not_paying:
  "\<not> may_pay s v p \<Longrightarrow> la_action (nextAction s v p sess) \<in> {Accept, GiveUp}"
  by (auto simp: nextAction_def may_pay_def)

lemma nextAction_retry:
  assumes "la_action (nextAction s v p sess) = Retry"
  shows "may_pay s v p \<and> stay_action s v p sess = Some (nextAction s v p sess) \<and>
    (may_stay s p \<or> fst (escalation_target s p) = None)"
proof -
  have pay: "may_pay s v p" using assms nextAction_not_paying [of s v p sess] by auto
  show ?thesis
  proof (cases "if may_stay s p then stay_action s v p sess else None")
    case (Some a)
    then show ?thesis using nextAction_paying [OF pay] pay by (simp split: if_splits)
  next
    case None
    then have eq: "nextAction s v p sess = leave_tier s v p sess"
      using nextAction_paying [OF pay, of sess] by simp
    obtain tgt entry where t: "escalation_target s p = (tgt, entry)" by fastforce
    have "tgt = None"
      using assms t unfolding eq by (cases tgt) (simp_all add: leave_tier_def escalate_to_shape)
    moreover from this have "stay_action s v p sess = Some (nextAction s v p sess)"
      using assms t unfolding eq by (simp add: leave_tier_def split: option.splits if_split_asm)
    ultimately show ?thesis using pay t by simp
  qed
qed

lemma nextAction_escalate:
  assumes "la_action (nextAction s v p sess) = Escalate"
  obtains nxt entry where "may_pay s v p" "escalation_target s p = (Some nxt, entry)"
    "nextAction s v p sess = escalate_to s v p sess nxt entry"
    "may_stay s p \<longrightarrow> stay_action s v p sess = None"
proof -
  have pay: "may_pay s v p" using assms nextAction_not_paying [of s v p sess] by auto
  have none: "(if may_stay s p then stay_action s v p sess else None) = None"
    using assms nextAction_paying [OF pay, of sess] stay_action_retry [of s v p sess]
    by (auto split: if_splits option.splits)
  then have eq: "nextAction s v p sess = leave_tier s v p sess"
    using nextAction_paying [OF pay, of sess] by simp
  then have "la_action (leave_tier s v p sess) = Escalate" using assms by simp
  obtain tgt entry where t: "escalation_target s p = (tgt, entry)" by fastforce
  have "tgt \<noteq> None"
    using \<open>la_action (leave_tier s v p sess) = Escalate\<close> t stay_action_retry [of s v p sess]
    by (auto simp: leave_tier_def split: option.splits if_split_asm)
  then obtain nxt where "tgt = Some nxt" by auto
  with t have tg: "escalation_target s p = (Some nxt, entry)" by simp
  then have "nextAction s v p sess = escalate_to s v p sess nxt entry"
    using eq by (simp add: leave_tier_def)
  from that [OF pay tg this] none show thesis by (simp split: if_split_asm)
qed

lemma leave_tier_cases:
  "(\<exists>u e. escalation_target s p = (Some u, e) \<and> leave_tier s v p sess = escalate_to s v p sess u e) \<or>
   stay_action s v p sess = Some (leave_tier s v p sess) \<or>
   (\<exists>r. leave_tier s v p sess = give_up r)"
proof -
  obtain tgt e where t: "escalation_target s p = (tgt, e)" by fastforce
  show ?thesis
    by (cases tgt; cases "stay_action s v p sess") (auto simp: leave_tier_def t)
qed

lemma nextAction_terminal:
  assumes "la_action (nextAction s v p sess) \<in> {Accept, GiveUp}"
  shows "verdict_passes v \<and> nextAction s v p sess = bare_action Accept \<or>
    (\<exists>r. nextAction s v p sess = give_up r)"
proof (cases "may_pay s v p")
  case True
  have "nextAction s v p sess = leave_tier s v p sess \<or> stay_action s v p sess = Some (nextAction s v p sess)"
    using nextAction_paying [OF True, of sess] by (simp split: option.split)
  with leave_tier_cases [of s p v sess] stay_action_retry [of s v p sess] assms
  show ?thesis by (fastforce simp: escalate_to_shape)
qed (auto simp: nextAction_def may_pay_def)

lemma stay_session:
  assumes "stay_action s v p sess = Some a"
  shows "la_resume a = map_option rd_resume (la_resumeBasis a) \<and>
    (la_resumeBasis a \<noteq> None \<longleftrightarrow> ep_variants p \<noteq> None)"
  using assms plain_retry_shape [of s v p sess a]
  by (auto simp: stay_action_Some elim: variant_step_shape)

section \<open>Frame facts of advance\<close>

lemma applyRung_frame [ladder_simps]:
  "ls_currentTier (applyRung a s) = ls_currentTier s"
  "ls_attemptsThisTier (applyRung a s) = ls_attemptsThisTier s"
  "ls_totalAttempts (applyRung a s) = ls_totalAttempts s"
  "ls_escalations (applyRung a s) = ls_escalations s"
  "ls_firstAttemptCost (applyRung a s) = ls_firstAttemptCost s"
  "ls_cumulativeCost (applyRung a s) = ls_cumulativeCost s"
  "ls_currentEffort (applyRung a s) = ls_currentEffort s"
  "ls_currentVariant (applyRung a s) = ls_currentVariant s"
  "ls_variantSteps (applyRung a s) = ls_variantSteps s"
  "ls_childSessionID (applyRung a s) = ls_childSessionID s"
  "ls_lastStepTokens (applyRung a s) = ls_lastStepTokens s"
  by (auto simp: applyRung_def split: option.splits)

lemma applySession_frame [ladder_simps]:
  "ls_currentTier (applySession a s) = ls_currentTier s"
  "ls_attemptsThisTier (applySession a s) = ls_attemptsThisTier s"
  "ls_totalAttempts (applySession a s) = ls_totalAttempts s"
  "ls_escalations (applySession a s) = ls_escalations s"
  "ls_firstAttemptCost (applySession a s) = ls_firstAttemptCost s"
  "ls_cumulativeCost (applySession a s) = ls_cumulativeCost s"
  "ls_currentEffort (applySession a s) = ls_currentEffort s"
  "ls_currentVariant (applySession a s) = ls_currentVariant s"
  "ls_variantSteps (applySession a s) = ls_variantSteps s"
  "ls_triedByModel (applySession a s) = ls_triedByModel s"
  by (auto simp: applySession_def)

lemma advance_frame [ladder_simps]:
  "ls_totalAttempts (advance s a) = ls_totalAttempts s"
  "ls_firstAttemptCost (advance s a) = ls_firstAttemptCost s"
  "ls_cumulativeCost (advance s a) = ls_cumulativeCost s"
  by (cases "la_action a";
      auto simp: advance_def advance_retry_def advance_escalate_def Let_def ladder_simps split: option.splits)+

lemma advance_retry_tier [ladder_simps]:
  "la_action a = Retry \<Longrightarrow> ls_currentTier (advance s a) = ls_currentTier s"
  "la_action a = Retry \<Longrightarrow> ls_escalations (advance s a) = ls_escalations s"
  by (auto simp: advance_def advance_retry_def Let_def ladder_simps split: option.splits)

lemma advance_escalate_tier [ladder_simps]:
  "la_action a = Escalate \<Longrightarrow> ls_currentTier (advance s a) = the (la_tier a)"
  "la_action a = Escalate \<Longrightarrow> ls_escalations (advance s a) = ls_escalations s + 1"
  "la_action a = Escalate \<Longrightarrow> ls_attemptsThisTier (advance s a) = 0"
  by (auto simp: advance_def advance_escalate_def Let_def ladder_simps)

lemma recordAttempt_frame [ladder_simps]:
  "ls_currentTier (recordAttempt s c ch) = ls_currentTier s"
  "ls_attemptsThisTier (recordAttempt s c ch) = ls_attemptsThisTier s"
  "ls_totalAttempts (recordAttempt s c ch) = ls_totalAttempts s + 1"
  "ls_escalations (recordAttempt s c ch) = ls_escalations s"
  "ls_firstAttemptCost (recordAttempt s c ch) = Some (or_else (ls_firstAttemptCost s) c)"
  "ls_cumulativeCost (recordAttempt s c ch) = ls_cumulativeCost s + c"
  "ls_currentEffort (recordAttempt s c ch) = ls_currentEffort s"
  "ls_currentVariant (recordAttempt s c ch) = ls_currentVariant s"
  "ls_triedByModel (recordAttempt s c ch) = ls_triedByModel s"
  by (auto simp: recordAttempt_def Let_def split: option.splits)

lemma newLadderState_frame [ladder_simps]:
  "ls_currentTier (newLadderState t p) = resolveStartTier t p"
  "ls_attemptsThisTier (newLadderState t p) = 0"
  "ls_totalAttempts (newLadderState t p) = 0"
  "ls_escalations (newLadderState t p) = 0"
  "ls_firstAttemptCost (newLadderState t p) = None"
  "ls_cumulativeCost (newLadderState t p) = 0"
  by (simp_all add: newLadderState_def Let_def)

text \<open>The resume basis of a paid attempt is computed for the tier the attempt runs on.\<close>

lemma stay_basis:
  assumes "stay_action s v p sess = Some a" and "ep_variants p = Some vp"
  shows "\<exists>msg. la_resumeBasis a = Some (sessionFields s vp (ownTierInfo p (ls_currentTier s)) msg sess)"
  using assms
  by (auto simp: stay_action_Some variant_step_def plain_retry_def Let_def split: option.splits if_splits)

lemma paid_basis:
  assumes "a = nextAction s v p sess" and "la_action a \<in> {Retry, Escalate}" and "ep_variants p = Some vp"
  shows "\<exists>msg. la_resumeBasis a = Some (sessionFields s vp (ownTierInfo p (ls_currentTier (advance s a))) msg sess)"
proof (cases "la_action a")
  case Retry
  with assms(1) nextAction_retry [of s v p sess] have "stay_action s v p sess = Some a" by simp
  from stay_basis [OF this assms(3)] Retry show ?thesis by (simp add: ladder_simps)
next
  case Escalate
  with assms(1) obtain u e where a: "a = escalate_to s v p sess u e" by (auto elim: nextAction_escalate)
  then have "ls_currentTier (advance s a) = u"
    by (simp add: ladder_simps escalate_to_shape)
  with a assms(3) show ?thesis by (auto simp: escalate_to_def Let_def)
qed (use assms(2) in auto)

lemma paid_resume:
  assumes "a = nextAction s v p sess" and "la_action a \<in> {Retry, Escalate}"
  shows "la_resume a = map_option rd_resume (la_resumeBasis a)"
proof (cases "la_action a")
  case Retry
  with assms(1) nextAction_retry [of s v p sess] have "stay_action s v p sess = Some a" by simp
  from stay_session [OF this] show ?thesis by simp
next
  case Escalate
  with assms(1) show ?thesis by (auto simp: escalate_to_shape elim: nextAction_escalate)
qed (use assms(2) in auto)

section \<open>Runs\<close>

text \<open>
  One turn of a delegation that goes on: an attempt is recorded, the ladder answers retry or
  escalate, the state advances. Verdict, cost, observed child and dispatch size are arbitrary.
\<close>

inductive ladder_step :: "escalate_policy \<Rightarrow> ladder_state \<Rightarrow> ladder_state \<Rightarrow> bool" for p where
  step: "s1 = recordAttempt s cost child \<Longrightarrow> a = nextAction s1 verdict p session \<Longrightarrow>
    la_action a = Retry \<or> la_action a = Escalate \<Longrightarrow> ladder_step p s (advance s1 a)"

inductive_cases ladder_stepE: "ladder_step p s s'"

text \<open>\<open>ladder_run p t n s\<close>: started on tier \<open>t\<close>, the delegation stands at \<open>s\<close> after \<open>n\<close> attempts.\<close>

inductive ladder_run :: "escalate_policy \<Rightarrow> string \<Rightarrow> nat \<Rightarrow> ladder_state \<Rightarrow> bool" for p t where
  start: "ladder_run p t 0 (newLadderState t p)"
| turn: "ladder_run p t n s \<Longrightarrow> ladder_step p s s' \<Longrightarrow> ladder_run p t (Suc n) s'"

lemma ladder_step_cases:
  assumes "ladder_step p s s'"
  obtains (retry) cost child verdict session s1 a where "s1 = recordAttempt s cost child"
      "a = nextAction s1 verdict p session" "s' = advance s1 a" "la_action a = Retry"
      "may_pay s1 verdict p" "stay_action s1 verdict p session = Some a"
      "may_stay s1 p \<or> fst (escalation_target s1 p) = None"
    | (escalate) cost child verdict session s1 a nxt entry where "s1 = recordAttempt s cost child"
      "a = escalate_to s1 verdict p session nxt entry" "s' = advance s1 a"
      "may_pay s1 verdict p" "escalation_target s1 p = (Some nxt, entry)"
      "may_stay s1 p \<longrightarrow> stay_action s1 verdict p session = None"
proof -
  obtain s1 cost child a verdict session
    where s1: "s1 = recordAttempt s cost child" and a: "a = nextAction s1 verdict p session"
    and s': "s' = advance s1 a" and or: "la_action a = Retry \<or> la_action a = Escalate"
    using assms by (auto elim: ladder_stepE)
  from or show thesis
  proof
    assume r: "la_action a = Retry"
    from nextAction_retry [of s1 verdict p session] r a
    show thesis by (intro retry [OF s1 a s' r]) simp_all
  next
    assume "la_action a = Escalate"
    then have "la_action (nextAction s1 verdict p session) = Escalate" using a by simp
    then show thesis
      by (rule nextAction_escalate) (use a in \<open>auto intro: escalate [OF s1 _ s']\<close>)
  qed
qed

lemma ladder_step_counts:
  assumes "ladder_step p s s'"
  shows "ls_totalAttempts s' = ls_totalAttempts s + 1 \<and> ls_totalAttempts s' < ep_maxTotalAttempts p \<and>
    \<not> cost_exceeded s' p"
  using assms
  by (cases rule: ladder_step_cases)
    (auto simp: ladder_simps may_pay_def cost_exceeded_def split: option.splits)

lemma ladder_run_counts:
  "ladder_run p t n s \<Longrightarrow> ls_totalAttempts s = int n \<and>
     (0 < n \<longrightarrow> int n < ep_maxTotalAttempts p \<and> \<not> cost_exceeded s p)"
  by (induction rule: ladder_run.induct) (auto simp: ladder_simps dest: ladder_step_counts)

section \<open>Where escalations land\<close>

lemma nextTierAfter_rank:
  assumes "distinct (ep_ladder p)" and "nextTierAfter t p = Some u"
  shows "tierRank u (ep_ladder p) = tierRank t (ep_ladder p) + 1 \<and> u \<in> set (ep_ladder p)"
proof -
  let ?i = "tierRank t (ep_ladder p)"
  from assms(2) have i: "0 \<le> ?i" "nat (?i + 1) < length (ep_ladder p)" and u: "u = ep_ladder p ! nat (?i + 1)"
    by (auto simp: nextTierAfter_def Let_def nat_less_iff split: if_splits)
  then show ?thesis
    using index_of_distinct_nth [OF assms(1) i(2)] by (simp add: tierRank_def)
qed

declare skip_loop.simps [simp del]

lemma skip_loop_None [simp]: "skip_loop p tried h None = (None, None)"
  by (simp add: skip_loop.simps)

text \<open>Why the loop stops at a tier: it has nothing to cover it, its base is above, or it is entered above.\<close>

definition lands :: "escalate_policy \<Rightarrow> (string \<rightharpoonup> string) \<Rightarrow> string \<Rightarrow> string option \<Rightarrow> bool" where
  "lands p tried u e \<longleftrightarrow>
     (case ownTierInfo p u of None \<Rightarrow> e = None
      | Some to \<Rightarrow>
          if tv_effortConfigured to then e = None
          else (case tried (tv_model to) of None \<Rightarrow> e = None
                | Some r \<Rightarrow> (e = None \<and> \<not> variantCovered (Some (tv_base to)) (Some r)) \<or>
                           (e \<noteq> None \<and> nextVariant (tv_ladder to) (Some r) = e)))"

lemma skip_loop_step:
  "skip_loop p tried h (Some t) = (Some u, e) \<Longrightarrow>
   u = t \<and> lands p tried t e \<or>
   h + 1 < length (ep_ladder p) \<and> skip_loop p tried (h + 1) (nextTierAfter t p) = (Some u, e)"
  by (auto simp: skip_loop.simps(2) [of p tried h t] lands_def split: option.splits if_split_asm)

lemma skip_loop_lands:
  "skip_loop p tried h t = (Some u, e) \<Longrightarrow> lands p tried u e"
proof (induction "length (ep_ladder p) - h" arbitrary: h t rule: less_induct)
  case less
  then obtain t' where t': "t = Some t'" by (cases t) auto
  from skip_loop_step [of p tried h t' u e] less.prems t' less.hyps [of "h + 1" "nextTierAfter t' p"]
  show ?case by auto
qed

lemma skip_loop_rank:
  assumes "distinct (ep_ladder p)"
  shows "skip_loop p tried h (Some t) = (Some u, e) \<Longrightarrow> t \<in> set (ep_ladder p) \<Longrightarrow>
    tierRank t (ep_ladder p) \<le> tierRank u (ep_ladder p) \<and> u \<in> set (ep_ladder p)"
proof (induction "length (ep_ladder p) - h" arbitrary: h t rule: less_induct)
  case less
  from skip_loop_step [OF less.prems(1)] show ?case
  proof
    assume r: "h + 1 < length (ep_ladder p) \<and> skip_loop p tried (h + 1) (nextTierAfter t p) = (Some u, e)"
    then obtain t' where t': "nextTierAfter t p = Some t'" by (cases "nextTierAfter t p") auto
    with r less.hyps [of "h + 1" t'] nextTierAfter_rank [OF assms t'] show ?thesis
      by (simp add: diff_less_mono2)
  qed (use less.prems in simp)
qed

lemma escalation_target_rank:
  assumes "distinct (ep_ladder p)" and "escalation_target s p = (Some u, e)"
  shows "tierRank (ls_currentTier s) (ep_ladder p) < tierRank u (ep_ladder p) \<and> u \<in> set (ep_ladder p)"
proof -
  obtain t where t: "nextTierAfter (ls_currentTier s) p = Some t"
    using assms(2) by (cases "nextTierAfter (ls_currentTier s) p")
      (simp_all add: escalation_target_def skipCoveredTiers_def Let_def split: option.splits)
  then have "u = t \<or> (\<exists>tried. skip_loop p tried 0 (Some t) = (Some u, e))"
    using assms(2) by (auto simp: escalation_target_def skipCoveredTiers_def Let_def split: option.splits)
  with nextTierAfter_rank [OF assms(1) t] skip_loop_rank [OF assms(1)] show ?thesis by fastforce
qed

section \<open>Coverage\<close>

lemma raiseTried_get:
  "\<exists>r. raiseTried tried m v m = Some r \<and>
     (r = v \<or> variantRange (Some v) = None \<or>
      (\<exists>lv hv lr hr. variantRange (Some v) = Some (lv, hv) \<and> variantRange (Some r) = Some (lr, hr) \<and> lv \<le> lr))"
  by (cases "or_else tried Map.empty m"; cases "variantRange (Some v)")
    (auto simp: raiseTried_def Let_def split: option.splits prod.splits)

lemma ranked_range:
  assumes "0 \<le> variantRank v"
  shows "variantRange (Some v) = Some (variantRank v, variantRank v)"
  using assms ranked_not_default [OF assms] by (simp add: variantRange_def Let_def)

text \<open>The highest rung recorded for the failed tier's model covers the rung that just failed.\<close>

lemma tried_now_covers:
  assumes "\<not> tv_effortConfigured info" and "0 \<le> variantRank (reached_variant s info)"
    and "tried_now s info (tv_model info) = Some r"
    and "0 \<le> variantRank v" and "variantRank v \<le> variantRank (reached_variant s info)"
  shows "variantCovered (Some v) (Some r)"
proof -
  from raiseTried_get [of "ls_triedByModel s" "tv_model info" "reached_variant s info"]
  have "r = reached_variant s info \<or> (\<exists>lr hr. variantRange (Some r) = Some (lr, hr) \<and>
      variantRank (reached_variant s info) \<le> lr)"
    using assms(1-3) by (auto simp: tried_now_def ranked_range)
  then show ?thesis
    using assms(2,4,5) by (auto simp: variantCovered_def ranked_range)
qed

lemma escalate_rung:
  assumes wf: "wf_policy p" and info: "ownTierInfo p (ls_currentTier s) = Some info"
    and tgt: "escalation_target s p = (Some u, e)"
    and rung: "la_rung (escalate_to s verdict p sess u e) = Some (m, v)"
    and r: "tried_now s info m = Some r"
  shows "\<not> variantCovered (Some v) (Some r)"
proof -
  obtain vp where vp: "ep_variants p = Some vp"
    using info by (auto simp: ownTierInfo_def split: option.splits)
  with tgt info have skip: "skip_loop p (tried_now s info) 0 (nextTierAfter (ls_currentTier s) p) = (Some u, e)"
    by (simp add: escalation_target_def skipCoveredTiers_def Let_def)
  obtain to where to: "ownTierInfo p u = Some to" "\<not> tv_effortConfigured to" "m = tv_model to"
    and v: "v = or_else (first_some e (emittable to (tv_base to))) DEFAULT_VARIANT"
    using rung vp by (auto simp: escalate_to_def Let_def split: option.splits if_splits)
  have base: "or_else (emittable to (tv_base to)) DEFAULT_VARIANT = tv_base to"
    by (simp add: emittable_def)
  have wl: "wf_ladder (tv_ladder to)" using wf to(1) by (auto simp: wf_policy_def wf_info_def)
  from skip_loop_lands [OF skip] to r
  consider "e = None" "\<not> variantCovered (Some (tv_base to)) (Some r)"
    | w where "e = Some w" "nextVariant (tv_ladder to) (Some r) = Some w"
    by (cases e) (auto simp: lands_def)
  then show ?thesis
    using v base nextVariant_not_covered [OF wl] by cases auto
qed

section \<open>Emitted variants and efforts\<close>

definition dispatchable :: "escalate_policy \<Rightarrow> ladder_action \<Rightarrow> bool" where
  "dispatchable p a \<longleftrightarrow>
     (case la_variant a of None \<Rightarrow> True
      | Some v \<Rightarrow> v \<noteq> DEFAULT_VARIANT \<and>
          (\<exists>t i. la_tier a = Some t \<and> ownTierInfo p t = Some i \<and> la_model a = Some (tv_model i) \<and>
            (v = tv_base i \<or> v \<in> set (vl_variants (tv_ladder i)))))"

lemma ladder_member_not_default: "wf_ladder l \<Longrightarrow> v \<in> set (vl_variants l) \<Longrightarrow> v \<noteq> DEFAULT_VARIANT"
  using rising_ranked [of "vl_variants l" v] default_not_ranked by (auto simp: wf_ladder_def)

lemma stay_dispatchable:
  assumes "wf_policy p" and "stay_action s v p sess = Some a"
  shows "dispatchable p a"
proof -
  have wl: "wf_ladder (tv_ladder i)" if "ownTierInfo p t = Some i" for t i
    using assms(1) that by (auto simp: wf_policy_def wf_info_def)
  from assms(2) consider "variant_step s v p sess = Some a" | "plain_retry s v p sess = Some a"
    by (auto simp: stay_action_Some)
  then show ?thesis
  proof cases
    case 1
    then show ?thesis
      by (elim variant_step_shape)
        (auto simp: dispatchable_def dest: nextVariant_member ladder_member_not_default [OF wl])
  next
    case 2
    from plain_retry_shape [OF 2] show ?thesis
      by (auto simp: dispatchable_def emittable_def split: option.splits bind_splits if_splits)
  qed
qed

lemma escalate_dispatchable:
  assumes wf: "wf_policy p" and tgt: "escalation_target s p = (Some u, e)"
  shows "dispatchable p (escalate_to s v p sess u e)"
proof (cases "ownTierInfo p u")
  case None
  then show ?thesis by (auto simp: dispatchable_def escalate_to_def Let_def split: option.splits)
next
  case (Some to)
  then have wl: "wf_ladder (tv_ladder to)" using wf by (auto simp: wf_policy_def wf_info_def)
  have "e = None \<or> (\<exists>tried. lands p tried u e)"
    using tgt by (auto simp: escalation_target_def skipCoveredTiers_def Let_def
        dest: skip_loop_lands split: option.splits)
  then have "e = None \<or> (\<exists>r. nextVariant (tv_ladder to) r = e)"
    using Some by (auto simp: lands_def split: if_split_asm option.split_asm)
  then have "\<forall>w. e = Some w \<longrightarrow> w \<in> set (vl_variants (tv_ladder to))"
    using nextVariant_member by auto
  then show ?thesis
    using Some ladder_member_not_default [OF wl]
    by (cases e) (auto simp: dispatchable_def escalate_to_def Let_def emittable_def split: option.splits)
qed

lemma bumped_effort_range:
  assumes wf: "wf_policy p" and e: "bumped_effort s p = Some e"
  shows "\<exists>m base bnd. ep_effortBump p = Some m \<and> m (ls_currentTier s) = Some (base, bnd) \<and>
    base \<le> e \<and> e \<le> bnd \<and> (\<forall>c. ls_currentEffort s = Def c \<longrightarrow> c \<le> bnd \<longrightarrow> c \<le> e)"
proof -
  obtain m base bnd where m: "ep_effortBump p = Some m" "m (ls_currentTier s) = Some (base, bnd)"
    using e by (auto simp: bumped_effort_def split: option.splits bind_splits)
  with wf have less: "base < bnd" by (auto simp: wf_policy_def)
  define c where "c = or_else (nullish (ls_currentEffort s)) base"
  define start where "start = minEffort (if effortRank c < effortRank base then base else c) bnd"
  have start: "base \<le> start" "start \<le> bnd" "c \<le> bnd \<Longrightarrow> c \<le> start"
    using less by (auto simp: start_def minEffort_min effort_order min_def)
  have "first_some (nextEffort start bnd)
      (if nullish (ls_currentEffort s) = None then None else Some start) = Some e"
    using e m unfolding bumped_effort_def c_def start_def Let_def by simp
  then have "start \<le> e \<and> e \<le> bnd"
    using start(2) by (auto simp: first_some_def dest: nextEffort_above split: option.splits if_splits)
  with start m show ?thesis by (auto simp: c_def)
qed

end
