(* ===== verification/Attempt_Plan.thy ===== *)
theory Attempt_Plan
  imports Ladder_Runs
begin

text \<open>
  From a ladder action to the attempt the runner executes, \<^verbatim>\<open>src/escalate/resume.ts\<close>: the model and
  variant to dispatch, and whether the previous child session is resumed or a fresh one is started.
  The host catalog lookup is a parameter (\<^verbatim>\<open>CatalogLookup\<close>); \<open>createCatalogLookup\<close> builds one.
\<close>

section \<open>Types\<close>

record runner_catalog_model =
  rm_providerID :: jsval
  rm_id :: jsval
  rm_entry :: catalog_model

record attempt_model =
  am_providerID :: string
  am_modelID :: string
  am_variant :: "string option"

datatype fresh_reason = InvalidVariant | BareModelAfterVariant | EffortPath

datatype ladder_step_kind = DispatchStep | VariantStep | RetryStep | EscalateStep

record attempt_plan =
  ap_step :: ladder_step_kind
  ap_tier :: string
  ap_agent :: string
  ap_model :: "attempt_model option"
  ap_resumeSessionID :: "string option"
  ap_resumeBasis :: "resume_decision option"
  ap_fresh :: "fresh_reason option"
  ap_effort :: "effort_level option"
  ap_costRatio :: "real option"
  ap_variant :: "string option"

type_synonym catalog_lookup = "string \<Rightarrow> catalog_model option"

section \<open>The catalog lookup\<close>

text \<open>A malformed entry (\<open>None\<close>, or an id that is no non-empty string) is skipped, a repeat keeps the first.\<close>

fun catalog_refs :: "runner_catalog_model option list \<Rightarrow> (string, catalog_model) jsmap \<Rightarrow> (string, catalog_model) jsmap" where
  "catalog_refs [] byRef = byRef"
| "catalog_refs (e # es) byRef =
     catalog_refs es
       (case e of None \<Rightarrow> byRef
        | Some entry \<Rightarrow>
            (case (rm_providerID entry, rm_id entry) of
               (JStr p, JStr i) \<Rightarrow>
                 (if p = [] \<or> i = [] \<or> map_get byRef (p @ ''/'' @ i) \<noteq> None then byRef
                  else map_set (p @ ''/'' @ i) (rm_entry entry) byRef)
             | _ \<Rightarrow> byRef))"

definition createCatalogLookup :: "runner_catalog_model option list \<Rightarrow> catalog_lookup" where
  "createCatalogLookup models = map_get (catalog_refs models [])"

section \<open>Planning\<close>

text \<open>Split at the first slash; both sides non-empty.\<close>

definition splitModel :: "string option \<Rightarrow> (string \<times> string) option" where
  "splitModel ref =
     (case ref of None \<Rightarrow> None
      | Some r \<Rightarrow>
          (let slash = index_of r (CHR ''/'') in
           if slash \<le> 0 \<or> int (length r) - 1 \<le> slash then None
           else Some (take (nat slash) r, drop (nat slash + 1) r)))"

definition configuredModel :: "router_config \<Rightarrow> string \<Rightarrow> attempt_model option" where
  "configuredModel cfg tier =
     (case map_of (active_tiers cfg) tier of None \<Rightarrow> None
      | Some t \<Rightarrow>
          map_option (\<lambda>(p, m). \<lparr>am_providerID = p, am_modelID = m, am_variant = tc_variant t\<rparr>)
            (splitModel (Some (tc_model t))))"

definition planFirstAttempt :: "router_config \<Rightarrow> string \<Rightarrow> attempt_plan" where
  "planFirstAttempt cfg tier =
     (let model = configuredModel cfg tier in
      \<lparr>ap_step = DispatchStep, ap_tier = tier, ap_agent = tier, ap_model = model,
       ap_resumeSessionID = None, ap_resumeBasis = None, ap_fresh = None, ap_effort = None,
       ap_costRatio = None, ap_variant = Option.bind model am_variant\<rparr>)"

text \<open>The target's variant is unknown to the live catalog.\<close>

definition invalid_target :: "(string \<times> string) option \<Rightarrow> string option \<Rightarrow> string list option \<Rightarrow> bool" where
  "invalid_target parsed variant ids \<longleftrightarrow>
     parsed = None \<or>
     (case variant of None \<Rightarrow> False
      | Some v \<Rightarrow> (case ids of None \<Rightarrow> True | Some xs \<Rightarrow> v \<notin> set xs))"

text \<open>The first half of \<open>planNextAttempt\<close>: model, fresh reason and effort.\<close>

definition plan_target ::
    "ladder_action \<Rightarrow> string \<Rightarrow> router_config \<Rightarrow> catalog_lookup option \<Rightarrow>
     attempt_model option \<times> fresh_reason option \<times> effort_level option" where
  "plan_target action tier cfg catalog =
     (case la_model action of
        None \<Rightarrow> (configuredModel cfg tier, None, la_effort action)
      | Some m \<Rightarrow>
          (let parsed = splitModel (Some m);
               ids = catalogVariantIds (Option.bind catalog (\<lambda>lookup. lookup m));
               configured = configuredModel cfg tier
           in if invalid_target parsed (la_variant action) ids
              then (case (configured, Option.bind (la_variant action) parse_effort) of
                      (Some c, Some e) \<Rightarrow>
                        (Some (c\<lparr>am_variant := None\<rparr>), Some InvalidVariant,
                         Some (or_else (la_effort action) e))
                    | _ \<Rightarrow> (configured, Some InvalidVariant, la_effort action))
              else (map_option (\<lambda>(p, i). \<lparr>am_providerID = p, am_modelID = i,
                      am_variant = la_variant action\<rparr>) parsed, None, la_effort action)))"

definition stored_variant :: "attempt_plan \<Rightarrow> bool" where
  "stored_variant previous \<longleftrightarrow> \<not> is_default (ap_variant previous)"

definition effort_path :: "escalate_policy \<Rightarrow> string \<Rightarrow> bool" where
  "effort_path policy name \<longleftrightarrow>
     (case ownTierInfo policy name of None \<Rightarrow> False | Some i \<Rightarrow> tv_effortConfigured i)"

text \<open>The second half: resume the child, or start fresh and why.\<close>

definition plan_resume ::
    "ladder_action \<Rightarrow> ladder_state \<Rightarrow> attempt_plan \<Rightarrow> escalate_policy \<Rightarrow> attempt_model option \<Rightarrow>
     fresh_reason option \<Rightarrow> string option \<times> fresh_reason option" where
  "plan_resume action state previous policy model fresh =
     (case nullish (ls_childSessionID state) of
        None \<Rightarrow> (None, fresh)
      | Some child \<Rightarrow>
          (if la_resume action \<noteq> Some True \<or> child = [] then (None, fresh)
           else
             (let fresh' =
                (if fresh \<noteq> None then fresh
                 else if (case model of None \<Rightarrow> False | Some m \<Rightarrow> am_variant m = None) \<and> stored_variant previous
                 then Some BareModelAfterVariant
                 else if la_action action = Escalate \<and>
                         (effort_path policy (ap_tier previous) \<or> effort_path policy (ls_currentTier state))
                 then Some EffortPath else None)
              in (if fresh' = None then Some child else None, fresh'))))"

definition plan_step :: "ladder_action \<Rightarrow> ladder_step_kind" where
  "plan_step action = (if la_action action = Escalate then EscalateStep
     else if la_variantStep action then VariantStep else RetryStep)"

definition planNextAttempt ::
    "ladder_action \<Rightarrow> ladder_state \<Rightarrow> attempt_plan \<Rightarrow> router_config \<Rightarrow> escalate_policy \<Rightarrow>
     catalog_lookup option \<Rightarrow> attempt_plan" where
  "planNextAttempt action state previous cfg policy catalog =
     (let tier = ls_currentTier state;
          (model, fresh, effort) = plan_target action tier cfg catalog;
          (resumeSessionID, fresh') = plan_resume action state previous policy model fresh
      in \<lparr>ap_step = plan_step action, ap_tier = tier, ap_agent = or_else (la_agent action) tier,
          ap_model = model, ap_resumeSessionID = resumeSessionID,
          ap_resumeBasis = la_resumeBasis action, ap_fresh = fresh', ap_effort = effort,
          ap_costRatio = (if fresh' = Some InvalidVariant then None else la_costRatio action),
          ap_variant = Option.bind model am_variant\<rparr>)"

section \<open>Lemmas\<close>

lemma plan_fields [simp]:
  "ap_variant (planNextAttempt a s pv cfg p cat) = Option.bind (ap_model (planNextAttempt a s pv cfg p cat)) am_variant"
  "ap_tier (planNextAttempt a s pv cfg p cat) = ls_currentTier s"
  by (simp_all add: planNextAttempt_def Let_def case_prod_beta)

lemma plan_model: "ap_model (planNextAttempt a s pv cfg p cat) = fst (plan_target a (ls_currentTier s) cfg cat)"
  by (simp add: planNextAttempt_def Let_def case_prod_beta)

lemma plan_effort: "ap_effort (planNextAttempt a s pv cfg p cat) = snd (snd (plan_target a (ls_currentTier s) cfg cat))"
  by (simp add: planNextAttempt_def Let_def case_prod_beta)

lemma plan_resumed:
  "ap_resumeSessionID (planNextAttempt a s pv cfg p cat) =
     fst (plan_resume a s pv p (ap_model (planNextAttempt a s pv cfg p cat))
       (fst (snd (plan_target a (ls_currentTier s) cfg cat))))"
  "ap_fresh (planNextAttempt a s pv cfg p cat) =
     snd (plan_resume a s pv p (ap_model (planNextAttempt a s pv cfg p cat))
       (fst (snd (plan_target a (ls_currentTier s) cfg cat))))"
  by (simp_all add: planNextAttempt_def Let_def case_prod_beta)

lemma plan_resume_Some:
  "fst (plan_resume a s pv p model fresh) = Some child \<Longrightarrow>
   ls_childSessionID s = Def child \<and> child \<noteq> [] \<and> la_resume a = Some True \<and> fresh = None \<and>
   snd (plan_resume a s pv p model fresh) = None \<and>
   (\<forall>m. model = Some m \<longrightarrow> am_variant m = None \<longrightarrow> \<not> stored_variant pv) \<and>
   \<not> (la_action a = Escalate \<and> (effort_path p (ap_tier pv) \<or> effort_path p (ls_currentTier s)))"
  by (auto simp: plan_resume_def Let_def split: option.splits if_splits)

lemma plan_resume_keeps: "fresh \<noteq> None \<Longrightarrow> plan_resume a s pv p model fresh = (None, fresh)"
  by (auto simp: plan_resume_def Let_def split: option.splits)

lemma plan_target_variant:
  assumes "plan_target a tier cfg cat = (Some m, fresh, effort)" and "am_variant m = Some v"
  shows "(\<exists>ref ids. la_model a = Some ref \<and> fresh = None \<and> la_variant a = Some v \<and>
      catalogVariantIds (Option.bind cat (\<lambda>l. l ref)) = Some ids \<and> v \<in> set ids) \<or>
    configuredModel cfg tier = Some m"
proof (cases "la_model a")
  case None
  with assms show ?thesis by (simp add: plan_target_def)
next
  case (Some ref)
  let ?ids = "catalogVariantIds (Option.bind cat (\<lambda>l. l ref))"
  show ?thesis
  proof (cases "invalid_target (splitModel (Some ref)) (la_variant a) ?ids")
    case True
    with assms Some have "configuredModel cfg tier = Some m"
      by (auto simp: plan_target_def Let_def split: option.splits)
    then show ?thesis ..
  next
    case False
    with assms Some show ?thesis
      by (auto simp: plan_target_def Let_def invalid_target_def split: option.splits)
  qed
qed

lemma plan_target_fallback:
  assumes "plan_target a tier cfg cat = (m, fresh, effort)" and "effort \<noteq> la_effort a"
  shows "fresh = Some InvalidVariant \<and> Option.bind m am_variant = None"
  using assms by (auto simp: plan_target_def Let_def split: option.splits if_splits bind_splits)

section \<open>Properties\<close>

text \<open>
  An unknown variant never reaches the host, and effort is delivered once: the variant of the next
  attempt is one the live catalog lists for the action's model, or the tier's own configured one;
  whenever the plan substitutes an effort override, the variant was invalid, the model goes bare,
  nothing is resumed and the action's cost ratio is dropped.
\<close>

theorem planned_variant_is_known:
  assumes plan: "plan = planNextAttempt a s previous cfg p cat"
  shows "(\<forall>v. ap_variant plan = Some v \<longrightarrow>
      (\<exists>ref ids. la_model a = Some ref \<and> la_variant a = Some v \<and>
        catalogVariantIds (Option.bind cat (\<lambda>l. l ref)) = Some ids \<and> v \<in> set ids) \<or>
      Option.bind (configuredModel cfg (ls_currentTier s)) am_variant = Some v) \<and>
    (ap_effort plan \<noteq> la_effort a \<longrightarrow>
      ap_fresh plan = Some InvalidVariant \<and> ap_variant plan = None \<and>
      ap_resumeSessionID plan = None \<and> ap_costRatio plan = None)"
proof -
  obtain m fresh effort where t: "plan_target a (ls_currentTier s) cfg cat = (m, fresh, effort)"
    by (metis prod_cases3)
  have m: "ap_model plan = m" and e: "ap_effort plan = effort" and v: "ap_variant plan = Option.bind m am_variant"
    using t by (simp_all add: plan plan_model plan_effort)
  have "ap_fresh plan = Some InvalidVariant \<and> ap_variant plan = None \<and>
      ap_resumeSessionID plan = None \<and> ap_costRatio plan = None" if "effort \<noteq> la_effort a"
  proof -
    from plan_target_fallback [OF t that] v have f: "fresh = Some InvalidVariant" "ap_variant plan = None"
      by simp_all
    then have r: "plan_resume a s previous p m fresh = (None, fresh)" by (simp add: plan_resume_keeps)
    from r f t show ?thesis by (simp add: plan planNextAttempt_def Let_def)
  qed
  moreover have "(\<exists>ref ids. la_model a = Some ref \<and> la_variant a = Some w \<and>
        catalogVariantIds (Option.bind cat (\<lambda>l. l ref)) = Some ids \<and> w \<in> set ids) \<or>
      Option.bind (configuredModel cfg (ls_currentTier s)) am_variant = Some w"
    if "ap_variant plan = Some w" for w
  proof -
    from that v obtain mm where "m = Some mm" "am_variant mm = Some w" by (cases m) auto
    with plan_target_variant [of a "ls_currentTier s" cfg cat mm fresh effort w] t show ?thesis by auto
  qed
  ultimately show ?thesis using e by blast
qed

text \<open>A step to \<open>high\<close> that the live catalog no longer lists: the tier runs bare with an effort override.\<close>

definition stale_action :: ladder_action where
  "stale_action = (bare_action Retry)\<lparr>la_model := Some ''a/x'', la_variant := Some ''high'', la_variantStep := True\<rparr>"

definition stale_cfg :: router_config where
  "stale_cfg = \<lparr>cfg_presets = [(''p'', [(''fast'', \<lparr>tc_model = ''a/x'', tc_variant = Some ''low'', tc_effort = None,
     tc_thinking = None, tc_reasoning = None, tc_costRatio = JUndef, tc_candidates = None, tc_readOnly = None\<rparr>)])],
     cfg_activePreset = ''p'', cfg_enforcement = None\<rparr>"

definition stale_state :: ladder_state where
  "stale_state = newLadderState ''fast'' (buildEscalatePolicy stale_cfg None)"

definition stale_plan :: attempt_plan where
  "stale_plan = planNextAttempt stale_action stale_state (planFirstAttempt stale_cfg ''fast'') stale_cfg
     (buildEscalatePolicy stale_cfg None) (Some (\<lambda>m. Some \<lparr>cm_variants = Some [JStr ''low''], cm_limit = None\<rparr>))"

lemma stale_plan_effort: "ap_effort stale_plan = Some EHigh" "la_effort stale_action = None"
proof -
  have "ls_currentTier stale_state = ''fast''"
    by (simp add: stale_state_def ladder_simps resolveStartTier_def nth_or_null_def Let_def
        buildEscalatePolicy_def stale_cfg_def escalate_of_def tierRank_def)
  moreover have "configuredModel stale_cfg ''fast'' =
      Some \<lparr>am_providerID = ''a'', am_modelID = ''x'', am_variant = Some ''low''\<rparr>"
    by (simp add: configuredModel_def stale_cfg_def active_tiers_def getActiveTiers_def splitModel_def Let_def)
  ultimately show "ap_effort stale_plan = Some EHigh" "la_effort stale_action = None"
    by (simp_all add: stale_plan_def plan_effort stale_action_def plan_target_def invalid_target_def
        catalogVariantIds_def DEFAULT_VARIANT_def splitModel_def parse_effort_def EFFORT_LEVELS_def Let_def)
qed

theorem planned_variant_is_known_witness:
  "ap_fresh stale_plan = Some InvalidVariant \<and> ap_variant stale_plan = None \<and> ap_effort stale_plan = Some EHigh"
  using planned_variant_is_known [OF stale_plan_def] stale_plan_effort by simp

end
