(* ===== verification/Ladder_Spec.thy ===== *)
theory Ladder_Spec
  imports Ladder_Runs
begin

text \<open>
  The properties of the escalation ladder over its runs: how many attempts a delegation pays for,
  which tiers it visits and in which order, which rungs an escalation may start, which variants and
  efforts it sends, and the abstract schedule the ladder without variant steps follows.
\<close>

section \<open>A configuration for the witnesses\<close>

definition demo_tier :: "string \<Rightarrow> tier_config" where
  "demo_tier m = \<lparr>tc_model = m, tc_variant = None, tc_effort = None, tc_thinking = None,
     tc_reasoning = None, tc_costRatio = JNum (Fin 1), tc_candidates = None, tc_readOnly = None\<rparr>"

definition demo_cfg :: router_config where
  "demo_cfg = \<lparr>cfg_presets = [(''p'', [(''fast'', demo_tier ''a/x''), (''medium'', demo_tier ''b/y''),
                                     (''heavy'', demo_tier ''a/x'')])],
     cfg_activePreset = ''p'', cfg_enforcement = None\<rparr>"

text \<open>A host catalog that knows the model of \<open>fast\<close> and \<open>heavy\<close> only.\<close>

definition demo_session :: session_policy_input where
  "demo_session = \<lparr>lp_host = V2, lp_variantSteps = None, lp_maxContextFraction = None,
     lp_catalog = (\<lambda>m. Inr (if m = ''a/x'' then Some \<lparr>cm_variants = Some [JStr ''low'', JStr ''high''],
                                                 cm_limit = None\<rparr> else None))\<rparr>"

definition demo_policy :: escalate_policy where
  "demo_policy = buildEscalatePolicy demo_cfg None"

definition demo_variants :: escalate_policy where
  "demo_variants = buildEscalatePolicy demo_cfg (Some demo_session)"

definition failed :: "ladder_verdict option" where
  "failed = Some \<lparr>lv_pass = False, lv_outcome = Some OutFail, lv_reasons = Some [], lv_incomplete = False\<rparr>"

lemma failed_simps [simp]:
  "verdict_passes failed = False" "verdict_unverifiable failed = False" "verdict_reasons failed = []"
  by (simp_all add: failed_def verdict_passes_def verdict_unverifiable_def verdict_reasons_def)

lemma demo_policy_eval:
  "demo_policy = \<lparr>ep_ladder = [''fast'', ''medium'', ''heavy''], ep_floorTier = None,
     ep_maxAttemptsPerTier = 1, ep_maxTotalAttempts = 4, ep_costMultiple = Some 4,
     ep_effortBump = None, ep_variants = None\<rparr>"
  by (simp add: demo_policy_def buildEscalatePolicy_def demo_cfg_def escalate_of_def
      buildEffortBump_def resolveEffortBump_def active_tiers_def getActiveTiers_def bump_of_def
      effortCeilingFor_def demo_tier_def List.map_filter_def buildVariantPolicy_def)

definition demo_info :: tier_variant_info where
  "demo_info = \<lparr>tv_model = ''a/x'', tv_base = DEFAULT_VARIANT,
     tv_ladder = \<lparr>vl_model = ''a/x'', vl_variants = [''low'', ''high''], vl_source = SrcCatalog,
                  vl_rejected = [], vl_foreign = []\<rparr>,
     tv_inputBudget = None,
     tv_costRatios = (\<lambda>v. if v \<in> {DEFAULT_VARIANT, ''low'', ''high''} then Some 1 else None),
     tv_effortConfigured = False\<rparr>"

text \<open>The catalog is known to the two tiers on its model; the tier between has no variant information.\<close>

lemma demo_rungs:
  "rungCostRatios n (demo_tier ''a/x'') DEFAULT_VARIANT (tv_ladder demo_info)
     [(''fast'', demo_tier ''a/x''), (''medium'', demo_tier ''b/y''), (''heavy'', demo_tier ''a/x'')] =
   tv_costRatios demo_info"
  by (rule ext) (auto simp: rungCostRatios_def demo_info_def demo_tier_def configured_rung_def
      DEFAULT_VARIANT_def Let_def)

lemma demo_ladder: "tier_ladder EXhigh (demo_tier ''a/x'') \<lparr>cm_variants = Some [JStr ''low'', JStr ''high''], cm_limit = None\<rparr>
    = tv_ladder demo_info"
  by (simp add: tier_ladder_def effort_configured_def demo_tier_def demo_info_def variant_eval)

lemma demo_variants_eval:
  "demo_variants = demo_policy\<lparr>ep_variants := Some \<lparr>vp_maxContextFraction = Fin (6 / 10),
     vp_perTier = map_of [(''fast'', demo_info), (''heavy'', demo_info)]\<rparr>\<rparr>"
proof -
  have tiers: "active_tiers demo_cfg =
      [(''fast'', demo_tier ''a/x''), (''medium'', demo_tier ''b/y''), (''heavy'', demo_tier ''a/x'')]"
    by (simp add: active_tiers_def getActiveTiers_def demo_cfg_def)
  have mx: "snd (resolveEffortBump demo_cfg) = EXhigh"
    by (simp add: resolveEffortBump_def demo_cfg_def escalate_of_def)
  have info: "tier_info_of demo_session EXhigh (active_tiers demo_cfg) n (demo_tier ''a/x'') = Some demo_info" for n
    unfolding tiers
    by (simp add: tier_info_of_def lookupCatalog_def demo_session_def demo_ladder
        demo_rungs [unfolded demo_tier_def] demo_tier_def Let_def truthy_str_def)
       (simp add: demo_info_def inputBudget_def effort_configured_def demo_ladder [unfolded demo_tier_def]
         demo_rungs [unfolded demo_tier_def demo_info_def, simplified])
  have none: "tier_info_of demo_session EXhigh (active_tiers demo_cfg) n (demo_tier ''b/y'') = None" for n
    by (simp add: tier_info_of_def lookupCatalog_def demo_session_def demo_tier_def)
  have "buildVariantPolicy demo_cfg (Some demo_session) = Some \<lparr>vp_maxContextFraction = Fin (6 / 10),
     vp_perTier = map_of [(''fast'', demo_info), (''heavy'', demo_info)]\<rparr>"
    using info none unfolding buildVariantPolicy_def mx
    by (simp add: demo_session_def tiers List.map_filter_def Let_def)
  then show ?thesis
    by (simp add: demo_variants_def demo_policy_def buildEscalatePolicy_def Let_def)
qed

lemma demo_own [simp]:
  "ownTierInfo demo_variants ''fast'' = Some demo_info"
  "ownTierInfo demo_variants ''medium'' = None"
  "ownTierInfo demo_variants ''heavy'' = Some demo_info"
  by (simp_all add: demo_variants_eval ownTierInfo_def)

text \<open>A run that goes on: each attempt costs \<open>1\<close> and fails; \<open>None\<close> once the ladder gives up.\<close>

definition fail_turn :: "escalate_policy \<Rightarrow> ladder_state \<Rightarrow> ladder_state option" where
  "fail_turn p s =
     (let s1 = recordAttempt s 1 None; a = nextAction s1 failed p None in
      if la_action a = Retry \<or> la_action a = Escalate then Some (advance s1 a) else None)"

lemma fail_turn_step: "fail_turn p s = Some s' \<Longrightarrow> ladder_step p s s'"
  by (auto simp: fail_turn_def Let_def intro: ladder_step.step split: if_splits)

lemma ladder_run_fail_turn: "ladder_run p t n s \<Longrightarrow> fail_turn p s = Some s' \<Longrightarrow> ladder_run p t (Suc n) s'"
  using ladder_run.turn fail_turn_step by blast

lemmas ladder_eval = nextAction_def stay_action_def variant_step_def plain_retry_def leave_tier_def
  escalate_to_def escalation_target_def skipCoveredTiers_def tried_now_def cost_exceeded_def
  may_stay_def reserveAllows_def tiersAbove_def nextTierAfter_def tierRank_def bumped_effort_def
  advance_def advance_retry_def advance_escalate_def applyRung_def applySession_def
  recordAttempt_def newLadderState_def resolveStartTier_def reached_variant_def ownTierInfo_def
  emittable_def costRatioOf_def raiseTried_def fail_turn_def nth_or_null_def Let_def

definition demo_state :: ladder_state where
  "demo_state = the (fail_turn demo_policy (newLadderState ''fast'' demo_policy))"

lemma demo_turn: "fail_turn demo_policy (newLadderState ''fast'' demo_policy) = Some demo_state"
  by (simp add: demo_state_def ladder_eval demo_policy_eval)

lemma demo_run: "ladder_run demo_policy ''fast'' 1 demo_state"
  using ladder_run_fail_turn [OF ladder_run.start demo_turn] by simp

section \<open>Ranks along a run\<close>

lemma start_rank:
  assumes "distinct (ep_ladder p)" and "ep_floorTier p = Some f"
  shows "tierRank f (ep_ladder p) \<le> tierRank (resolveStartTier t p) (ep_ladder p)"
proof (cases "f \<in> set (ep_ladder p)")
  case True
  let ?l = "ep_ladder p"
  let ?i = "max (if 0 \<le> tierRank t ?l then tierRank t ?l else 0) (tierRank f ?l)"
  have f: "0 \<le> tierRank f ?l" using True by (simp add: tierRank_def index_of_nonneg_iff)
  have i: "nat ?i < length ?l" "tierRank f ?l \<le> ?i"
    using index_of_less [of ?l f] index_of_less [of ?l t] f by (auto simp: tierRank_def)
  have "resolveStartTier t p = ?l ! nat ?i"
    using i(1) assms(2) f by (simp add: resolveStartTier_def Let_def nth_or_null_def)
  then have "tierRank (resolveStartTier t p) ?l = int (nat ?i)"
    using index_of_distinct_nth [OF assms(1) i(1)] by (simp add: tierRank_def)
  with i(2) show ?thesis by linarith
next
  case False
  then show ?thesis using index_of_ge [of "ep_ladder p"] by (simp add: tierRank_def index_of_notin)
qed

lemma ladder_step_rank:
  assumes "distinct (ep_ladder p)" and "ladder_step p s s'"
  shows "tierRank (ls_currentTier s) (ep_ladder p) + ls_escalations s' - ls_escalations s
      \<le> tierRank (ls_currentTier s') (ep_ladder p)"
  using assms(2)
proof (cases rule: ladder_step_cases)
  case (escalate cost child verdict session s1 a nxt entry)
  with escalation_target_rank [OF assms(1) escalate(5)] show ?thesis
    by (simp add: ladder_simps escalate_to_shape)
qed (simp add: ladder_simps)

section \<open>The schedule without variant steps\<close>

text \<open>
  The invariant of a run without variant steps: with \<open>m\<close> plain retries per tier, rank and retry count
  are the two digits of the number of attempts made, in base \<open>m + 1\<close>.
\<close>

definition on_schedule :: "escalate_policy \<Rightarrow> string \<Rightarrow> nat \<Rightarrow> ladder_state \<Rightarrow> bool" where
  "on_schedule p t n s \<longleftrightarrow> ls_currentTier s \<in> set (ep_ladder p) \<and>
     0 \<le> ls_attemptsThisTier s \<and> ls_attemptsThisTier s \<le> ep_maxAttemptsPerTier p \<and>
     tierRank (ls_currentTier s) (ep_ladder p) * (ep_maxAttemptsPerTier p + 1) + ls_attemptsThisTier s =
       tierRank (resolveStartTier t p) (ep_ladder p) * (ep_maxAttemptsPerTier p + 1) + int n"

lemma resolveStartTier_mem: "ep_ladder p \<noteq> [] \<Longrightarrow> resolveStartTier t p \<in> set (ep_ladder p)"
  using index_of_less [of "ep_ladder p"]
  by (auto simp: resolveStartTier_def Let_def nth_or_null_def tierRank_def nat_less_iff split: option.splits)

lemma plain_retry_v1:
  "ep_variants p = None \<Longrightarrow> stay_action s v p sess = plain_retry s v p sess"
  by (simp add: stay_action_def variant_step_def)

lemma escalation_target_v1:
  "ep_variants p = None \<Longrightarrow> escalation_target s p = (nextTierAfter (ls_currentTier s) p, None)"
  by (simp add: escalation_target_def Let_def)

lemma on_schedule_step:
  assumes d: "distinct (ep_ladder p)" and v1: "ep_variants p = None"
    and s: "on_schedule p t n s" and st: "ladder_step p s s'"
  shows "on_schedule p t (Suc n) s'"
  using st
proof (cases rule: ladder_step_cases)
  case (retry cost child verdict session s1 a)
  then have "plain_retry s1 verdict p session = Some a" using v1 by (simp add: plain_retry_v1)
  from plain_retry_shape [OF this] retry s show ?thesis
    by (auto simp: on_schedule_def ladder_simps advance_def advance_retry_def Let_def split: option.splits)
next
  case (escalate cost child verdict session s1 a nxt entry)
  from escalate(5) v1 have nxt: "nextTierAfter (ls_currentTier s) p = Some nxt"
    using escalate(1) by (simp add: escalation_target_v1 ladder_simps)
  have "plain_retry s1 verdict p session = None"
    using escalate(6) v1 by (simp add: plain_retry_v1 may_stay_def)
  then have "ep_maxAttemptsPerTier p \<le> ls_attemptsThisTier s"
    using escalate(1) v1 by (simp add: plain_retry_def Let_def ladder_simps split: if_splits)
  with s have m: "ls_attemptsThisTier s = ep_maxAttemptsPerTier p" by (simp add: on_schedule_def)
  from nextTierAfter_rank [OF d nxt] m s escalate(1-3) show ?thesis
    by (auto simp: on_schedule_def ladder_simps escalate_to_shape algebra_simps)
qed

lemma ladder_run_on_schedule:
  assumes "distinct (ep_ladder p)" "ep_variants p = None" "ep_ladder p \<noteq> []" "0 \<le> ep_maxAttemptsPerTier p"
  shows "ladder_run p t n s \<Longrightarrow> on_schedule p t n s"
proof (induction rule: ladder_run.induct)
  case start
  with assms resolveStartTier_mem [OF assms(3)] show ?case
    by (simp add: on_schedule_def ladder_simps)
next
  case (turn n s s')
  then show ?case using on_schedule_step [OF assms(1,2)] by blast
qed

lemma on_schedule_rank:
  assumes "on_schedule p t n s"
  shows "tierRank (ls_currentTier s) (ep_ladder p) =
      tierRank (resolveStartTier t p) (ep_ladder p) + int n div (ep_maxAttemptsPerTier p + 1) \<and>
    ls_attemptsThisTier s = int n mod (ep_maxAttemptsPerTier p + 1) \<and>
    ls_currentTier s = ep_ladder p ! nat (tierRank (ls_currentTier s) (ep_ladder p))"
proof -
  let ?m = "ep_maxAttemptsPerTier p + 1"
  let ?r = "tierRank (ls_currentTier s) (ep_ladder p)" and ?q = "tierRank (resolveStartTier t p) (ep_ladder p)"
  from assms have mem: "ls_currentTier s \<in> set (ep_ladder p)"
    and a: "0 \<le> ls_attemptsThisTier s" "ls_attemptsThisTier s < ?m"
    and eq: "int n = (?r - ?q) * ?m + ls_attemptsThisTier s"
    by (auto simp: on_schedule_def algebra_simps)
  have "int n div ?m = ?r - ?q" "int n mod ?m = ls_attemptsThisTier s"
    using a unfolding eq by simp_all
  moreover from mem have "ls_currentTier s = ep_ladder p ! nat ?r"
    by (simp add: tierRank_def index_of_nonneg_iff index_of_nth)
  ultimately show ?thesis by simp
qed

section \<open>Properties\<close>

text \<open>
  (C1) A delegation pays for a bounded number of attempts: whatever the verdicts, costs and children,
  when the ladder has answered retry or escalate \<open>n\<close> times it has recorded exactly \<open>n\<close> attempts,
  fewer than \<open>maxTotalAttempts\<close>, and the accumulated cost is within the ceiling (the first
  attempt's cost times the configured multiple). So at most \<open>max 1 maxTotalAttempts\<close> attempts run.
\<close>

theorem delegation_bounded:
  assumes "ladder_run p t n s"
  shows "ls_totalAttempts s = int n \<and> int n < max 1 (ep_maxTotalAttempts p) \<and>
    (\<forall>c mult. ls_firstAttemptCost s = Some c \<longrightarrow> ep_costMultiple p = Some mult \<longrightarrow>
      ls_cumulativeCost s \<le> c * mult)"
proof -
  have first: "n = 0 \<Longrightarrow> ls_firstAttemptCost s = None"
    using assms by (cases rule: ladder_run.cases) (auto simp: ladder_simps)
  from ladder_run_counts [OF assms] first show ?thesis
    by (cases n) (auto simp: cost_exceeded_def not_less)
qed

theorem delegation_bounded_witness: "int 1 < max 1 (ep_maxTotalAttempts demo_policy)"
  using delegation_bounded [OF demo_run] by simp

text \<open>
  Escalation only moves up: on a ladder without repeated tiers, after any run the current tier's
  rank is at least the start tier's rank plus the number of escalations, and never below the
  configured floor tier.
\<close>

theorem escalation_moves_up:
  assumes "distinct (ep_ladder p)" and "ladder_run p t n s"
  shows "tierRank (resolveStartTier t p) (ep_ladder p) + ls_escalations s
      \<le> tierRank (ls_currentTier s) (ep_ladder p) \<and>
    (\<forall>f. ep_floorTier p = Some f \<longrightarrow>
      tierRank f (ep_ladder p) \<le> tierRank (ls_currentTier s) (ep_ladder p))"
proof -
  have "tierRank (resolveStartTier t p) (ep_ladder p) + ls_escalations s
      \<le> tierRank (ls_currentTier s) (ep_ladder p) \<and> 0 \<le> ls_escalations s"
    using assms(2)
  proof (induction rule: ladder_run.induct)
    case (turn n s s')
    have "ls_escalations s \<le> ls_escalations s'"
      using turn.hyps(2) by (cases rule: ladder_step_cases) (simp_all add: ladder_simps escalate_to_shape)
    with turn.IH ladder_step_rank [OF assms(1) turn.hyps(2)] show ?case by linarith
  qed (simp add: ladder_simps)
  with start_rank [OF assms(1), of _ t] show ?thesis by fastforce
qed

theorem escalation_moves_up_witness:
  "tierRank ''fast'' (ep_ladder demo_policy) + ls_escalations demo_state
     \<le> tierRank (ls_currentTier demo_state) (ep_ladder demo_policy)"
proof -
  have "distinct (ep_ladder demo_policy)" "resolveStartTier ''fast'' demo_policy = ''fast''"
    by (simp_all add: demo_policy_eval ladder_eval)
  with escalation_moves_up [OF _ demo_run] show ?thesis by simp
qed

text \<open>Two tiers on one model: the first at its default without steps, the second at \<open>high\<close>.\<close>

definition demo_two :: escalate_policy where
  "demo_two = demo_policy\<lparr>ep_ladder := [''fast'', ''heavy''], ep_maxAttemptsPerTier := 0,
     ep_variants := Some \<lparr>vp_maxContextFraction = Fin (6 / 10),
       vp_perTier = [''fast'' \<mapsto> demo_info\<lparr>tv_ladder := (tv_ladder demo_info)\<lparr>vl_variants := []\<rparr>\<rparr>,
                     ''heavy'' \<mapsto> demo_info\<lparr>tv_base := ''high''\<rparr>]\<rparr>\<rparr>"

definition demo_two_state :: ladder_state where
  "demo_two_state = recordAttempt (newLadderState ''fast'' demo_two) 1 None"

lemma demo_two_wf: "wf_policy demo_two"
  by (auto simp: wf_policy_def wf_info_def demo_two_def demo_policy_eval ownTierInfo_def demo_info_def
      DEFAULT_VARIANT_def wf_ladder_def variantRank_def HOST_EFFORT_ORDER_def split: if_splits)

lemma demo_two_escalates:
  "la_action (nextAction demo_two_state failed demo_two None) = Escalate"
  "la_rung (nextAction demo_two_state failed demo_two None) = Some (''a/x'', ''high'')"
  "ls_currentTier demo_two_state = ''fast''"
  "tried_now demo_two_state (demo_info\<lparr>tv_ladder := (tv_ladder demo_info)\<lparr>vl_variants := []\<rparr>\<rparr>) ''a/x''
     = Some DEFAULT_VARIANT"
  by (simp_all add: demo_two_state_def demo_two_def demo_policy_eval demo_info_def ladder_eval
      skip_loop.simps variantCovered_def variantRange_def variant_eval)

text \<open>
  An escalation never starts a rung already covered: when the failing tier has variant
  information, the rung the escalation records is not covered by the highest rung tried on its model,
  the rung that just failed included; and on the failing tier's own model it never starts a ranked
  variant at or below a ranked one that just failed.
\<close>

theorem escalation_rung_is_fresh:
  assumes wf: "wf_policy p" and info: "ownTierInfo p (ls_currentTier s) = Some info"
    and esc: "la_action (nextAction s verdict p sess) = Escalate"
    and rung: "la_rung (nextAction s verdict p sess) = Some (m, v)"
  shows "(\<forall>r. tried_now s info m = Some r \<longrightarrow> \<not> variantCovered (Some v) (Some r)) \<and>
    (m = tv_model info \<longrightarrow> \<not> tv_effortConfigured info \<longrightarrow> 0 \<le> variantRank v \<longrightarrow>
      0 \<le> variantRank (reached_variant s info) \<longrightarrow>
      variantRank (reached_variant s info) < variantRank v)"
proof -
  from esc obtain u e where tgt: "escalation_target s p = (Some u, e)"
    and a: "nextAction s verdict p sess = escalate_to s verdict p sess u e"
    by (rule nextAction_escalate)
  have fresh: "\<not> variantCovered (Some v) (Some r)" if "tried_now s info m = Some r" for r
    using escalate_rung [OF wf info tgt _ that] rung a by simp
  have "variantRank (reached_variant s info) < variantRank v"
    if m: "m = tv_model info" and e: "\<not> tv_effortConfigured info"
      and v: "0 \<le> variantRank v" and x: "0 \<le> variantRank (reached_variant s info)"
  proof -
    obtain r where r: "tried_now s info m = Some r"
      using raiseTried_get [of "ls_triedByModel s" "tv_model info" "reached_variant s info"] m e
      by (auto simp: tried_now_def)
    with tried_now_covers [OF e x _ v] fresh m show ?thesis by fastforce
  qed
  with fresh show ?thesis by blast
qed

theorem escalation_rung_is_fresh_witness:
  "\<not> variantCovered (Some ''high'') (Some DEFAULT_VARIANT)"
proof -
  have "ownTierInfo demo_two (ls_currentTier demo_two_state) =
      Some (demo_info\<lparr>tv_ladder := (tv_ladder demo_info)\<lparr>vl_variants := []\<rparr>\<rparr>)"
    by (simp add: demo_two_escalates) (simp add: demo_two_def ownTierInfo_def)
  from escalation_rung_is_fresh [OF demo_two_wf this demo_two_escalates(1,2)] demo_two_escalates(4)
  show ?thesis by blast
qed

text \<open>
  Every variant an action sends is catalog-validated: it is never the stored \<open>default\<close>, and it
  is the configured base or a ladder member of the tier the action runs on, sent with that tier's model.
\<close>

theorem emitted_variant_is_validated:
  assumes "wf_policy p"
  shows "dispatchable p (nextAction s verdict p sess)"
proof (cases "la_action (nextAction s verdict p sess)")
  case Retry
  with nextAction_retry [OF Retry] stay_dispatchable [OF assms] show ?thesis by blast
next
  case Escalate
  then show ?thesis
    by (rule nextAction_escalate) (use escalate_dispatchable [OF assms] in simp)
next
  case Accept
  with nextAction_terminal [of s verdict p sess] show ?thesis by (auto simp: dispatchable_def)
next
  case GiveUp
  with nextAction_terminal [of s verdict p sess] show ?thesis by (auto simp: dispatchable_def)
qed

theorem emitted_variant_is_validated_witness:
  "la_variant (nextAction demo_two_state failed demo_two None) = Some ''high'' \<and>
   dispatchable demo_two (nextAction demo_two_state failed demo_two None)"
proof
  show "la_variant (nextAction demo_two_state failed demo_two None) = Some ''high''"
    by (simp add: demo_two_state_def demo_two_def demo_policy_eval demo_info_def ladder_eval
        skip_loop.simps variantCovered_def variantRange_def variant_eval)
qed (rule emitted_variant_is_validated [OF demo_two_wf])

text \<open>
  The budget reserve: when variant steps are enabled, the ladder stays on a tier (variant step or
  plain retry) only if one attempt is left for every ladder tier above it, or no tier above is left
  to run; and variant steps alone never use up the tier's plain retries.
\<close>

theorem budget_reserve:
  assumes "ep_variants p \<noteq> None" and "la_action (nextAction s verdict p sess) = Retry"
  shows "(tiersAbove p (ls_currentTier s) \<le> ep_maxTotalAttempts p - ls_totalAttempts s - 1 \<or>
      fst (escalation_target s p) = None) \<and>
    ls_attemptsThisTier (advance s (nextAction s verdict p sess)) =
      ls_attemptsThisTier s + (if la_variantStep (nextAction s verdict p sess) then 0 else 1)"
proof
  from nextAction_retry [OF assms(2)] assms(1)
  show "tiersAbove p (ls_currentTier s) \<le> ep_maxTotalAttempts p - ls_totalAttempts s - 1 \<or>
      fst (escalation_target s p) = None"
    by (auto simp: may_stay_def reserveAllows_def)
  show "ls_attemptsThisTier (advance s (nextAction s verdict p sess)) =
      ls_attemptsThisTier s + (if la_variantStep (nextAction s verdict p sess) then 0 else 1)"
    using assms(2) by (auto simp: advance_def advance_retry_def Let_def ladder_simps split: option.splits)
qed

theorem budget_reserve_witness:
  "tiersAbove demo_variants ''fast'' \<le> ep_maxTotalAttempts demo_variants - 1 - 1 \<or>
   fst (escalation_target (recordAttempt (newLadderState ''fast'' demo_variants) 1 None) demo_variants) = None"
proof -
  let ?s = "recordAttempt (newLadderState ''fast'' demo_variants) 1 None"
  have v: "ep_variants demo_variants \<noteq> None" by (simp add: demo_variants_eval)
  have "la_action (nextAction ?s failed demo_variants None) = Retry"
    by (simp add: demo_variants_eval demo_policy_eval demo_info_def ladder_eval variant_eval)
  from budget_reserve [OF v this] show ?thesis
    by (simp add: ladder_simps) (simp add: demo_variants_eval demo_policy_eval ladder_eval)
qed

text \<open>
  What each verdict leads to: a passing verdict is accepted and nothing else is; an unverifiable
  one always gives up without paying another producer (with the incomplete reason exactly when the
  return was incomplete); and a retry or escalation carries a resume decision, with the flag equal
  to its decision, exactly when the policy is session-aware.
\<close>

theorem verdict_table:
  "(la_action (nextAction s verdict p sess) = Accept \<longleftrightarrow> verdict_passes verdict) \<and>
   (verdict_unverifiable verdict \<longrightarrow> \<not> verdict_passes verdict \<longrightarrow>
      nextAction s verdict p sess =
        give_up (if verdict_incomplete verdict then IncompleteGiveUp else VerificationUnavailable)) \<and>
   (if la_action (nextAction s verdict p sess) \<in> {Retry, Escalate} \<and> ep_variants p \<noteq> None
    then \<exists>b. la_resumeBasis (nextAction s verdict p sess) = Some b \<and>
             la_resume (nextAction s verdict p sess) = Some (rd_resume b)
    else la_resume (nextAction s verdict p sess) = None \<and> la_resumeBasis (nextAction s verdict p sess) = None)"
proof (intro conjI)
  show "la_action (nextAction s verdict p sess) = Accept \<longleftrightarrow> verdict_passes verdict"
  proof
    assume "la_action (nextAction s verdict p sess) = Accept"
    with nextAction_terminal [of s verdict p sess] show "verdict_passes verdict" by auto
  qed (simp add: nextAction_def)
  show "verdict_unverifiable verdict \<longrightarrow> \<not> verdict_passes verdict \<longrightarrow>
      nextAction s verdict p sess =
        give_up (if verdict_incomplete verdict then IncompleteGiveUp else VerificationUnavailable)"
    by (simp add: nextAction_def)
next
  let ?a = "nextAction s verdict p sess"
  show "if la_action ?a \<in> {Retry, Escalate} \<and> ep_variants p \<noteq> None
    then \<exists>b. la_resumeBasis ?a = Some b \<and> la_resume ?a = Some (rd_resume b)
    else la_resume ?a = None \<and> la_resumeBasis ?a = None"
  proof (cases "la_action ?a")
    case Retry
    with nextAction_retry [OF Retry] have "stay_action s verdict p sess = Some ?a" by simp
    from stay_session [OF this] Retry show ?thesis by auto
  next
    case Escalate
    then obtain u e where "?a = escalate_to s verdict p sess u e" by (rule nextAction_escalate)
    with Escalate escalate_to_shape [where s = s and v = verdict and p = p and sess = sess and nxt = u and entry = e]
    show ?thesis by auto
  qed (use nextAction_terminal [of s verdict p sess] in auto)
qed

definition unverified :: "ladder_verdict option" where
  "unverified = Some \<lparr>lv_pass = False, lv_outcome = Some OutUnverifiable,
     lv_reasons = Some [INCOMPLETE_REASON], lv_incomplete = False\<rparr>"

theorem verdict_table_witness:
  "nextAction demo_state unverified demo_policy None = give_up IncompleteGiveUp"
proof -
  have "verdict_unverifiable unverified" "\<not> verdict_passes unverified" "verdict_incomplete unverified"
    by (simp_all add: unverified_def verdict_unverifiable_def verdict_passes_def verdict_incomplete_def
        verdict_reasons_def isIncompleteReason_def)
  with verdict_table [of demo_state unverified demo_policy None] show ?thesis by simp
qed

text \<open>
  A retry's effort override stays on the tier's scale: it is only sent for a tier with a bump
  policy, between the tier's base and its bound, and never below the effort already reached (as long
  as that is within the bound).
\<close>

theorem retry_effort_in_range:
  assumes "wf_policy p" and "la_effort (nextAction s verdict p sess) = Some e"
  shows "\<exists>m base bnd. ep_effortBump p = Some m \<and> m (ls_currentTier s) = Some (base, bnd) \<and>
    base \<le> e \<and> e \<le> bnd \<and> (\<forall>c. ls_currentEffort s = Def c \<longrightarrow> c \<le> bnd \<longrightarrow> c \<le> e)"
proof -
  let ?a = "nextAction s verdict p sess"
  have "la_action ?a = Retry"
    using assms(2) nextAction_terminal [of s verdict p sess] escalate_to_shape(3)
    by (cases "la_action ?a") (auto elim!: nextAction_escalate)
  from nextAction_retry [OF this] have "stay_action s verdict p sess = Some ?a" by simp
  then have "bumped_effort s p = Some e"
    using assms(2) plain_retry_shape [of s verdict p sess ?a]
    by (auto simp: stay_action_Some elim: variant_step_shape)
  then show ?thesis by (rule bumped_effort_range [OF assms(1)])
qed

definition demo_bump :: escalate_policy where
  "demo_bump = demo_policy\<lparr>ep_effortBump := Some [''fast'' \<mapsto> (ELow, EHigh)]\<rparr>"

theorem retry_effort_in_range_witness:
  "la_effort (nextAction (newLadderState ''fast'' demo_bump) failed demo_bump None) = Some EMedium \<and>
   ELow \<le> EMedium \<and> EMedium \<le> EHigh"
proof -
  have wf: "wf_policy demo_bump"
    by (auto simp: wf_policy_def demo_bump_def demo_policy_eval ownTierInfo_def effort_order split: if_splits)
  have e: "la_effort (nextAction (newLadderState ''fast'' demo_bump) failed demo_bump None) = Some EMedium"
    by (simp add: demo_bump_def demo_policy_eval ladder_eval minEffort_def nextEffort_def EFFORT_LEVELS_def)
  have cur: "ls_currentTier (newLadderState ''fast'' demo_bump) = ''fast''"
    by (simp add: demo_bump_def demo_policy_eval ladder_eval)
  from retry_effort_in_range [OF wf e] e cur show ?thesis by (auto simp: demo_bump_def)
qed

text \<open>
  Without variant steps the ladder follows a fixed schedule: with \<open>m\<close> retries per tier,
  the attempt made after \<open>n\<close> turns runs on the tier \<open>n div (m + 1)\<close> places above the start tier,
  as its try number \<open>n mod (m + 1)\<close>. Each tier is tried \<open>m + 1\<close> times before the next.
\<close>

theorem ladder_schedule:
  assumes "distinct (ep_ladder p)" "ep_variants p = None" "ep_ladder p \<noteq> []" "0 \<le> ep_maxAttemptsPerTier p"
    and "ladder_run p t n s"
  shows "tierRank (ls_currentTier s) (ep_ladder p) =
      tierRank (resolveStartTier t p) (ep_ladder p) + int n div (ep_maxAttemptsPerTier p + 1) \<and>
    ls_attemptsThisTier s = int n mod (ep_maxAttemptsPerTier p + 1) \<and>
    ls_currentTier s = ep_ladder p !
      nat (tierRank (resolveStartTier t p) (ep_ladder p) + int n div (ep_maxAttemptsPerTier p + 1))"
proof -
  note r = on_schedule_rank [OF ladder_run_on_schedule [OF assms(1-4) assms(5)]]
  then have "tierRank (resolveStartTier t p) (ep_ladder p) + int n div (ep_maxAttemptsPerTier p + 1) =
      tierRank (ls_currentTier s) (ep_ladder p)" by simp
  with r show ?thesis by metis
qed

lemma demo_policy_v1:
  "distinct (ep_ladder demo_policy)" "ep_variants demo_policy = None" "ep_ladder demo_policy \<noteq> []"
  "0 \<le> ep_maxAttemptsPerTier demo_policy"
  by (simp_all add: demo_policy_eval)

theorem ladder_schedule_witness: "ls_attemptsThisTier demo_state = 1"
  using ladder_schedule [OF demo_policy_v1 demo_run] by (simp add: demo_policy_eval)

text \<open>(C36) 
  The coverage rule has a gap: through a tier whose model the catalog does not know, the ladder
  does escalate into a rung that already failed. With the catalog covering the model of \<open>fast\<close> and
  \<open>heavy\<close> only, three failures (\<open>fast\<close> at its default and at \<open>high\<close>, then \<open>medium\<close>) lead back to
  the default of the model, although it is recorded as tried up to \<open>high\<close>, which covers it.
\<close>

theorem uncatalogued_tier_reopens_covered_rung:
  "\<exists>s. ladder_run demo_variants ''fast'' 2 s \<and>
     ls_triedByModel s = Some [''a/x'' \<mapsto> ''high''] \<and>
     variantCovered (Some DEFAULT_VARIANT) (Some ''high'') \<and>
     (let a = nextAction (recordAttempt s 1 None) failed demo_variants None in
      la_action a = Escalate \<and> la_tier a = Some ''heavy'' \<and> la_rung a = Some (''a/x'', DEFAULT_VARIANT))"
proof -
  let ?p = demo_variants
  note ev = demo_variants_eval demo_policy_eval demo_info_def ladder_eval variant_eval
    variantCovered_def variantRange_def
  obtain s1 where s1: "fail_turn ?p (newLadderState ''fast'' ?p) = Some s1"
    and f1: "ls_currentTier s1 = ''fast''" "ls_totalAttempts s1 = 1" "ls_firstAttemptCost s1 = Some 1"
      "ls_cumulativeCost s1 = 1" "ls_currentVariant s1 = Def ''high''" "ls_attemptsThisTier s1 = 0"
      "ls_triedByModel s1 = Some [''a/x'' \<mapsto> ''high'']"
    by (simp add: ev)
  obtain s2 where s2: "fail_turn ?p s1 = Some s2"
    and f2: "ls_currentTier s2 = ''medium''" "ls_totalAttempts s2 = 2" "ls_firstAttemptCost s2 = Some 1"
      "ls_cumulativeCost s2 = 2" "ls_triedByModel s2 = Some [''a/x'' \<mapsto> ''high'']"
    using f1 by (simp add: ev skip_loop.simps)
  have "ladder_run ?p ''fast'' 2 s2"
    using ladder_run_fail_turn [OF ladder_run_fail_turn [OF ladder_run.start s1] s2]
    by (simp add: numeral_2_eq_2)
  moreover have "variantCovered (Some DEFAULT_VARIANT) (Some ''high'')" by (simp add: ev)
  moreover have "let a = nextAction (recordAttempt s2 1 None) failed ?p None in
      la_action a = Escalate \<and> la_tier a = Some ''heavy'' \<and> la_rung a = Some (''a/x'', DEFAULT_VARIANT)"
    using f2 by (simp add: ev)
  ultimately show ?thesis using f2(5) by blast
qed

end
