(* ===== verification/Delegate_Loop.thy ===== *)
theory Delegate_Loop
  imports Attempt_Plan Ladder_Spec
begin

text \<open>
  The loop of the \<^verbatim>\<open>delegate\<close> tool, \<^verbatim>\<open>src/index.ts\<close> (\<^verbatim>\<open>while (true)\<close> after
  \<^verbatim>\<open>runProducerAttempt\<close>): run an attempt, record it, ask the ladder, accept, give up or go on
  with the next plan. What the host does in one turn (session, prompt, verification gate, the wait for the child's
  end, the verdict's rows) is the parameter \<open>de_run\<close>: any function of the attempts so far, the plan and the forcing message,
  and it may throw, which the tool's \<^verbatim>\<open>catch\<close> turns into its fail-closed result; so may what the tool prepares before the
  first attempt. Logging, session disposal and the telemetry rows have no effect on the loop's decisions and are left out.
\<close>

section \<open>The loop\<close>

text \<open>How a turn's attempt ends: no session, a deferred result, a verdict, or an exception.\<close>

datatype attempt_result =
    NoSession
  | Threw
  | Deferred string
  | Ran string string ladder_verdict "jsnum option"


record delegate_env =
  de_cfg :: router_config
  de_policy :: escalate_policy
  de_catalog :: "catalog_lookup option"
  de_promptChars :: nat
  de_setupThrows :: bool
  de_run :: "nat \<Rightarrow> attempt_plan \<Rightarrow> string option \<Rightarrow> attempt_result"

definition session_aware :: "delegate_env \<Rightarrow> bool" where
  "session_aware env \<longleftrightarrow> ep_variants (de_policy env) \<noteq> None"









section \<open>The loop refines the runs of the ladder\<close>









section \<open>Properties\<close>


text \<open>A host on which every attempt fails, with a budget of one attempt.\<close>

definition failing_env :: delegate_env where
  "failing_env = \<lparr>de_cfg = demo_cfg, de_policy = demo_policy\<lparr>ep_maxTotalAttempts := 1\<rparr>,
     de_catalog = None, de_promptChars = 10, de_setupThrows = False,
     de_run = (\<lambda>n plan forcing. Ran ''ses'' ''done'' (the failed) None)\<rparr>"

lemma failing_env_simps [simp]:
  "de_policy failing_env = demo_policy\<lparr>ep_maxTotalAttempts := 1\<rparr>"
  "de_run failing_env n plan f = Ran ''ses'' ''done'' (the failed) None"
  "session_aware failing_env = False" "Some (the failed) = failed" "\<not> de_setupThrows failing_env" "\<not> lv_pass (the failed)"
  by (simp_all add: failing_env_def session_aware_def demo_policy_eval failed_def)


text \<open>
  A child session is resumed only when it fits: if the plan that follows an attempt names a
  session to resume, it is the child the attempt was recorded with, the ladder's decision says resume,
  the child's context plus the dispatch estimate is below the configured fraction of the input budget
  of the tier the next attempt runs on, and neither a bare model after a variant nor an
  effort-configured tier on either side of an escalation is involved.
\<close>

theorem resumed_child_fits:
  assumes a: "a = nextAction s1 verdict p sess" and go: "la_action a \<in> {Retry, Escalate}"
    and aware: "ep_variants p = Some vp" "ls_childSessionID s1 \<noteq> Undefined"
    and plan: "plan = planNextAttempt a (advance s1 a) previous cfg p cat"
    and resumed: "ap_resumeSessionID plan = Some child"
  shows "ls_childSessionID s1 = Def child \<and> ap_fresh plan = None \<and>
    (\<exists>used budget est f. ls_lastStepTokens s1 = Def (Fin used) \<and>
      Option.bind (ownTierInfo p (ap_tier plan)) tv_inputBudget = Some budget \<and>
      vp_maxContextFraction vp = Fin f \<and> 0 \<le> est \<and> f \<le> 1 \<and> used + est < f * budget) \<and>
    (ap_variant plan = None \<longrightarrow> ap_model plan \<noteq> None \<longrightarrow> is_default (ap_variant previous)) \<and>
    \<not> (la_action a = Escalate \<and> (effort_path p (ap_tier previous) \<or> effort_path p (ap_tier plan)))"
proof -
  let ?s2 = "advance s1 a"
  have fst: "fst (plan_resume a ?s2 previous p (ap_model plan)
      (fst (snd (plan_target a (ls_currentTier ?s2) cfg cat)))) = Some child"
    using resumed plan_resumed(1) plan by metis
  note r = plan_resume_Some [OF fst]
  have fresh: "ap_fresh plan = None" using r plan_resumed(2) plan by metis
  have child: "ls_childSessionID s1 = Def child"
    using r go aware(2) unfolding advance_def
    by (auto simp: advance_retry_def advance_escalate_def applySession_def Let_def ladder_simps
        split: option.splits if_splits)
  obtain msg where basis: "la_resumeBasis a =
      Some (sessionFields s1 vp (ownTierInfo p (ls_currentTier ?s2)) msg sess)"
    using paid_basis [OF a go aware(1)] by blast
  have "la_resume a = Some True" using r by simp
  with a go have "rd_resume (sessionFields s1 vp (ownTierInfo p (ls_currentTier ?s2)) msg sess)"
    using basis paid_resume [OF a go] by simp
  then have fits: "\<exists>used budget est f. ls_lastStepTokens s1 = Def (Fin used) \<and>
      Option.bind (ownTierInfo p (ls_currentTier ?s2)) tv_inputBudget = Some budget \<and>
      vp_maxContextFraction vp = Fin f \<and> 0 \<le> est \<and> f \<le> 1 \<and> used + est < f * budget"
    unfolding sessionFields_def resumeDecision_iff by (fastforce split: option.split_asm)
  have tier: "ap_tier plan = ls_currentTier ?s2" and v: "ap_variant plan = Option.bind (ap_model plan) am_variant"
    by (simp_all add: plan)
  have "ap_variant plan = None \<longrightarrow> ap_model plan \<noteq> None \<longrightarrow> is_default (ap_variant previous)"
    using r v by (auto simp: stored_variant_def)
  with child fresh fits r show ?thesis unfolding tier by blast
qed

text \<open>A first attempt on \<open>fast\<close> that left 100 tokens of context in child \<open>c\<close>.\<close>

definition resume_policy :: escalate_policy where
  "resume_policy = demo_policy\<lparr>ep_variants := Some \<lparr>vp_maxContextFraction = Fin (6 / 10),
     vp_perTier = [''fast'' \<mapsto> demo_info\<lparr>tv_inputBudget := Some 1000\<rparr>]\<rparr>\<rparr>"

definition resume_state1 :: ladder_state where
  "resume_state1 = recordAttempt (newLadderState ''fast'' resume_policy) 1
     (Some \<lparr>co_sessionID = ''c'', co_lastStepTokens = Some (Fin 100)\<rparr>)"

definition resume_action :: ladder_action where
  "resume_action = nextAction resume_state1 failed resume_policy (Some 40)"

definition resume_plan :: attempt_plan where
  "resume_plan = planNextAttempt resume_action (advance resume_state1 resume_action)
     (planFirstAttempt demo_cfg ''fast'') demo_cfg resume_policy
     (Some (\<lambda>m. Some \<lparr>cm_variants = Some [JStr ''low'', JStr ''high''], cm_limit = None\<rparr>))"

lemma resume_state1_simps [simp]:
  "ls_currentTier resume_state1 = ''fast''" "ls_childSessionID resume_state1 = Def ''c''"
  "ls_lastStepTokens resume_state1 = Def (Fin 100)" "ls_currentVariant resume_state1 = Null"
  "ls_totalAttempts resume_state1 = 1" "ls_cumulativeCost resume_state1 = 1"
  "ls_firstAttemptCost resume_state1 = Some 1"
  by (simp_all add: resume_state1_def resume_policy_def demo_policy_eval ladder_eval)

lemma resume_own [simp]: "ownTierInfo resume_policy ''fast'' = Some (demo_info\<lparr>tv_inputBudget := Some 1000\<rparr>)"
  by (simp add: resume_policy_def ownTierInfo_def)

lemma resume_action_eval:
  "la_action resume_action = Retry" "la_variant resume_action = Some ''high''"
  "la_model resume_action = Some ''a/x''" "la_resume resume_action = Some True"
proof -
  obtain vp where vp: "ep_variants resume_policy = Some vp" "vp_maxContextFraction vp = Fin (6 / 10)"
    by (simp add: resume_policy_def)
  have step: "nextVariant (tv_ladder demo_info) (Some DEFAULT_VARIANT) = Some ''high''"
    by (simp add: demo_info_def variant_eval)
  have stay: "may_pay resume_state1 failed resume_policy" "may_stay resume_state1 resume_policy"
    by (simp_all add: may_pay_def cost_exceeded_def may_stay_def reserveAllows_def tiersAbove_def tierRank_def
        resume_policy_def demo_policy_eval)
  have b: "reached_variant resume_state1 (demo_info\<lparr>tv_inputBudget := Some 1000\<rparr>) = DEFAULT_VARIANT"
    by (simp add: reached_variant_def demo_info_def)
  have est: "length (buildLadderForcingMessage []) \<le> 200"
    by (simp add: buildLadderForcingMessage_def NL_def)
  let ?n = "real (length (buildLadderForcingMessage []) + 40)"
  have "rd_resume (sessionFields resume_state1 vp (Some (demo_info\<lparr>tv_inputBudget := Some 1000\<rparr>))
      (buildLadderForcingMessage []) (Some 40))"
  proof -
    have "of_int \<lceil>?n / 4\<rceil> \<le> ?n / 4 + 1" by linarith
    moreover have "?n \<le> 240" using est by simp
    ultimately have "100 + of_int \<lceil>?n / 4\<rceil> < (3 / 5 :: real) * 1000" by simp
    then show ?thesis
      using vp(2) by (auto simp: sessionFields_def resumeDecision_iff estimateTokensFromChars_def intro!: exI [of _ "3 / 5"])
  qed
  with stay step b vp
  show "la_action resume_action = Retry" "la_variant resume_action = Some ''high''"
    "la_model resume_action = Some ''a/x''" "la_resume resume_action = Some True"
    by (simp_all add: resume_action_def nextAction_paying stay_action_def variant_step_def Let_def)
       (simp_all add: demo_info_def)
qed

theorem resumed_child_fits_witness: "ap_resumeSessionID resume_plan = Some ''c'' \<and> ap_fresh resume_plan = None"
proof -
  obtain vp where vp: "ep_variants resume_policy = Some vp" by (simp add: resume_policy_def)
  have go: "la_action resume_action \<in> {Retry, Escalate}" by (simp add: resume_action_eval)
  have child: "ls_childSessionID (advance resume_state1 resume_action) = Def ''c''"
    by (simp add: advance_def resume_action_eval advance_retry_def applySession_def Let_def ladder_simps
        split: option.split)
  have r: "ap_resumeSessionID resume_plan = Some ''c''"
    by (simp add: resume_plan_def plan_resumed plan_model)
       (simp add: plan_resume_def plan_target_def resume_action_eval child splitModel_def Let_def
         invalid_target_def catalogVariantIds_def DEFAULT_VARIANT_def)
  have "ls_childSessionID resume_state1 \<noteq> Undefined" by simp
  from resumed_child_fits [OF resume_action_def go vp this resume_plan_def r] r show ?thesis by simp
qed

end
