(* ===== verification/Simulate.thy ===== *)
theory Simulate
  imports Ladder_Spec
begin

text \<open>
  The runner simulation the decision engine prices escalations with,
  \<^verbatim>\<open>src/routing/engine/simulate.ts\<close>: it replays the ladder (record, \<open>nextAction\<close>,
  \<open>advance\<close>) with a failing verdict after every attempt and returns the rungs it ran. The loop's
  bound \<open>MAX_SIMULATED_ATTEMPTS\<close> is the fuel; the theorems show it is never what ends a simulation
  whose policy allows at most as many attempts.
\<close>

section \<open>The simulation\<close>

record runner_rung =
  rr_tier :: string
  rr_model :: string
  rr_variant :: "string option"
  rr_costRatio :: real

type_synonym tier_base = "string \<Rightarrow> runner_rung option"

definition MAX_SIMULATED_ATTEMPTS :: nat where
  "MAX_SIMULATED_ATTEMPTS = 64"

definition FAILED :: ladder_verdict where
  "FAILED = \<lparr>lv_pass = False, lv_outcome = Some OutFail, lv_reasons = Some [], lv_incomplete = False\<rparr>"

text \<open>The rung the loop lands on after \<open>action\<close>, the state already advanced to \<open>st\<close>.\<close>

definition landed_rung ::
    "escalate_policy \<Rightarrow> ladder_state \<Rightarrow> ladder_action \<Rightarrow> runner_rung option \<Rightarrow> runner_rung \<Rightarrow> runner_rung" where
  "landed_rung policy st action current base =
     (let cost = or_else (la_costRatio action) (rr_costRatio base);
          info = ownTierInfo policy (ls_currentTier st);
          fallback = or_else (first_some (map_option tv_base info) (rr_variant base)) DEFAULT_VARIANT;
          variant = or_else (nullish (ls_currentVariant st)) fallback;
          landed = \<lparr>rr_tier = ls_currentTier st,
                    rr_model = or_else (map_option tv_model info) (rr_model base),
                    rr_variant = (if variant = DEFAULT_VARIANT then None else Some variant),
                    rr_costRatio = cost\<rparr>
      in case current of
           None \<Rightarrow> landed
         | Some cur \<Rightarrow>
             if la_action action = Retry \<and> \<not> la_variantStep action \<and> ls_currentVariant st = Undefined
             then cur\<lparr>rr_costRatio := cost\<rparr> else landed)"

fun sim_walk ::
    "nat \<Rightarrow> escalate_policy \<Rightarrow> tier_base \<Rightarrow> ladder_state \<Rightarrow> runner_rung option \<Rightarrow> runner_rung list" where
  "sim_walk 0 policy tierBase st current = []"
| "sim_walk (Suc n) policy tierBase st current =
     (let out = (case current of None \<Rightarrow> [] | Some r \<Rightarrow> [r]);
          st1 = (case current of None \<Rightarrow> st | Some r \<Rightarrow> recordAttempt st (rr_costRatio r) None);
          action = nextAction st1 (Some FAILED) policy None
      in if la_action action \<noteq> Retry \<and> la_action action \<noteq> Escalate then out
         else
           (let st2 = advance st1 action in
            case tierBase (ls_currentTier st2) of
              None \<Rightarrow> out
            | Some base \<Rightarrow>
                out @ sim_walk n policy tierBase st2 (Some (landed_rung policy st2 action current base))))"

text \<open>The hand-made variant step that records a rung as already run.\<close>

definition seed_step :: "string \<Rightarrow> string \<Rightarrow> string \<Rightarrow> ladder_action" where
  "seed_step tier model variant =
     (bare_action Retry)\<lparr>la_tier := Some tier, la_variantStep := True, la_model := Some model,
        la_variant := Some variant, la_rung := Some (model, variant)\<rparr>"

text \<open>The start state and the first rung; \<open>None\<close> when the floor tier is unknown.\<close>

definition sim_start ::
    "escalate_policy \<Rightarrow> tier_base \<Rightarrow> runner_rung \<Rightarrow> (ladder_state \<times> runner_rung) option" where
  "sim_start policy tierBase start =
     (let st = newLadderState (rr_tier start) policy in
      if ls_currentTier st = rr_tier start
      then (let variant = or_else (rr_variant start) DEFAULT_VARIANT in
            case ownTierInfo policy (rr_tier start) of
              None \<Rightarrow> Some (st, start)
            | Some info \<Rightarrow>
                if \<not> tv_effortConfigured info \<and> variant \<noteq> tv_base info
                then Some (advance st (seed_step (rr_tier start) (tv_model info) variant), start)
                else Some (st, start))
      else map_option (\<lambda>base. (st, base\<lparr>rr_costRatio := or_else (startCostRatio policy st) (rr_costRatio base)\<rparr>))
             (tierBase (ls_currentTier st)))"

definition simulateRunner :: "escalate_policy \<Rightarrow> tier_base \<Rightarrow> runner_rung \<Rightarrow> runner_rung list" where
  "simulateRunner policy tierBase start =
     (case sim_start policy tierBase start of None \<Rightarrow> []
      | Some (st, first) \<Rightarrow> sim_walk MAX_SIMULATED_ATTEMPTS policy tierBase st (Some first))"

definition seed_variant :: "runner_rung \<Rightarrow> string" where
  "seed_variant rung = or_else (rr_variant rung) DEFAULT_VARIANT"

definition seeded_state :: "escalate_policy \<Rightarrow> string \<Rightarrow> runner_rung list \<Rightarrow> ladder_state" where
  "seeded_state policy tier attempts =
     (let st = newLadderState tier policy;
          st1 = (case ownTierInfo policy tier of None \<Rightarrow> st
                 | Some info \<Rightarrow>
                     if tv_effortConfigured info then st
                     else
                       (let s' = fold (\<lambda>rung s. advance s (seed_step tier (rr_model rung) (seed_variant rung)))
                                   attempts st
                        in s'\<lparr>ls_currentVariant :=
                             (case List.find (\<lambda>r. rr_model r = tv_model info) (rev attempts) of
                                None \<Rightarrow> Null | Some r \<Rightarrow> Def (seed_variant r))\<rparr>))
      in st1\<lparr>ls_currentTier := tier,
             ls_attemptsThisTier := max (ep_maxAttemptsPerTier policy) (ls_attemptsThisTier st1),
             ls_totalAttempts := int (length attempts),
             ls_cumulativeCost := sum_list (map rr_costRatio attempts),
             ls_firstAttemptCost := map_option rr_costRatio (nth_or_null attempts 0)\<rparr>)"

definition simulateAfter :: "escalate_policy \<Rightarrow> tier_base \<Rightarrow> string \<Rightarrow> runner_rung list \<Rightarrow> runner_rung list" where
  "simulateAfter policy tierBase tier attempts =
     (if attempts = [] then []
      else sim_walk MAX_SIMULATED_ATTEMPTS policy tierBase (seeded_state policy tier attempts) None)"

section \<open>Lemmas\<close>

lemma FAILED_eq: "Some FAILED = failed"
  by (simp add: FAILED_def failed_def)

lemma landed_tier:
  assumes "\<And>cur. current = Some cur \<Longrightarrow> la_action a = Retry \<Longrightarrow> rr_tier cur = ls_currentTier st"
  shows "rr_tier (landed_rung p st a current base) = ls_currentTier st"
  using assms by (cases current) (auto simp: landed_rung_def Let_def)

lemma paid_total:
  assumes "la_action (nextAction s v p sess) = Retry \<or> la_action (nextAction s v p sess) = Escalate"
  shows "may_pay s v p"
  using assms nextAction_not_paying [of s v p sess] by fastforce

lemma sim_walk_length:
  "int (length (sim_walk n p tb st cur)) \<le>
   (if cur = None then max 0 (ep_maxTotalAttempts p - ls_totalAttempts st)
    else max 1 (ep_maxTotalAttempts p - ls_totalAttempts st))"
proof (induction n arbitrary: st cur)
  case 0
  then show ?case by (simp add: max_def)
next
  case (Suc n)
  let ?st1 = "case cur of None \<Rightarrow> st | Some r \<Rightarrow> recordAttempt st (rr_costRatio r) None"
  let ?a = "nextAction ?st1 (Some FAILED) p None"
  let ?st2 = "advance ?st1 ?a"
  have tot: "ls_totalAttempts ?st2 = ls_totalAttempts st + (if cur = None then 0 else 1)"
    by (cases cur) (simp_all add: ladder_simps)
  show ?case
  proof (cases "(la_action ?a = Retry \<or> la_action ?a = Escalate) \<and> tb (ls_currentTier ?st2) \<noteq> None")
    case True
    then obtain base where base: "tb (ls_currentTier ?st2) = Some base" by auto
    have "ls_totalAttempts ?st1 < ep_maxTotalAttempts p"
      using paid_total True by (auto simp: may_pay_def)
    then have lt: "ls_totalAttempts ?st2 < ep_maxTotalAttempts p" by (simp add: ladder_simps)
    have eq: "sim_walk (Suc n) p tb st cur = (case cur of None \<Rightarrow> [] | Some r \<Rightarrow> [r]) @
        sim_walk n p tb ?st2 (Some (landed_rung p ?st2 ?a cur base))"
      using True base by (auto simp: Let_def)
    show ?thesis
      using Suc.IH [of ?st2 "Some (landed_rung p ?st2 ?a cur base)"] lt tot
      unfolding eq by (cases cur) (auto simp del: sim_walk.simps)
  next
    case False
    then have "sim_walk (Suc n) p tb st cur = (case cur of None \<Rightarrow> [] | Some r \<Rightarrow> [r])"
      by (auto simp: Let_def split: option.split)
    then show ?thesis by (cases cur) auto
  qed
qed

text \<open>Every simulated rung is an attempt of the real ladder: on a state it reaches, on that state's tier.\<close>

lemma sim_walk_refines:
  assumes "rr_tier r = ls_currentTier st" and "i < length (sim_walk n p tb st (Some r))"
  shows "\<exists>s. (ladder_step p ^^ i) st s \<and> rr_tier (sim_walk n p tb st (Some r) ! i) = ls_currentTier s"
  using assms
proof (induction n arbitrary: st r i)
  case 0
  then show ?case by simp
next
  case (Suc n)
  let ?st1 = "recordAttempt st (rr_costRatio r) None"
  let ?a = "nextAction ?st1 (Some FAILED) p None"
  let ?st2 = "advance ?st1 ?a"
  show ?case
  proof (cases i)
    case 0
    have "sim_walk (Suc n) p tb st (Some r) ! 0 = r"
      by (auto simp: Let_def split: option.split)
    with 0 Suc.prems(1) show ?thesis by auto
  next
    case (Suc j)
    then have go: "la_action ?a = Retry \<or> la_action ?a = Escalate" and "tb (ls_currentTier ?st2) \<noteq> None"
      using Suc.prems(2) by (auto simp: Let_def split: option.splits if_splits)
    then obtain base where base: "tb (ls_currentTier ?st2) = Some base" by auto
    let ?r2 = "landed_rung p ?st2 ?a (Some r) base"
    have eq: "sim_walk (Suc n) p tb st (Some r) = r # sim_walk n p tb ?st2 (Some ?r2)"
      using go base by (auto simp: Let_def)
    have "rr_tier ?r2 = ls_currentTier ?st2"
      by (rule landed_tier) (use Suc.prems(1) in \<open>simp add: ladder_simps\<close>)
    moreover have "j < length (sim_walk n p tb ?st2 (Some ?r2))"
      using Suc Suc.prems(2) unfolding eq by simp
    ultimately obtain s where s: "(ladder_step p ^^ j) ?st2 s"
      "rr_tier (sim_walk n p tb ?st2 (Some ?r2) ! j) = ls_currentTier s"
      using Suc.IH by blast
    have "ladder_step p st ?st2" by (rule ladder_step.step [OF refl refl go])
    then have "(ladder_step p ^^ i) st s"
      using s(1) Suc relpowp_Suc_I2 by metis
    moreover have "rr_tier (sim_walk (Suc n) p tb st (Some r) ! i) = ls_currentTier s"
      unfolding eq using s(2) Suc by simp
    ultimately show ?thesis by blast
  qed
qed

lemma ladder_run_relpowp: "(ladder_step p ^^ n) (newLadderState t p) s \<Longrightarrow> ladder_run p t n s"
proof (induction n arbitrary: s)
  case 0
  then show ?case by (auto intro: ladder_run.start)
next
  case (Suc n)
  then obtain s' where "(ladder_step p ^^ n) (newLadderState t p) s'" "ladder_step p s' s" by auto
  with Suc.IH show ?case by (auto intro: ladder_run.turn)
qed

lemma sim_start_tier:
  assumes "sim_start p tb start = Some (st, first)" and "\<And>t b. tb t = Some b \<Longrightarrow> rr_tier b = t"
  shows "rr_tier first = ls_currentTier st \<and> ls_totalAttempts st = 0 \<and>
    ls_currentTier st = resolveStartTier (rr_tier start) p \<and>
    (ep_variants p = None \<longrightarrow> st = newLadderState (rr_tier start) p)"
proof -
  have own: "ep_variants p = None \<Longrightarrow> ownTierInfo p t = None" for t by (simp add: ownTierInfo_def)
  show ?thesis
    using assms own
    by (auto simp: sim_start_def Let_def ladder_simps seed_step_def split: if_splits option.splits)
qed

section \<open>Properties\<close>

text \<open>
  The simulation makes no attempt the runner would not: started on a rung it returns at most
  \<open>max 1 maxTotalAttempts\<close> rungs, and continuing after a chain of attempts it returns at most what that
  chain left of \<open>maxTotalAttempts\<close>; so for a policy of up to 64 attempts the loop bound is never
  what ends it.
\<close>

theorem simulation_bounded:
  "int (length (simulateRunner p tb start)) \<le> max 1 (ep_maxTotalAttempts p) \<and>
   int (length (simulateAfter p tb tier attempts)) \<le> max 0 (ep_maxTotalAttempts p - int (length attempts))"
proof
  show "int (length (simulateRunner p tb start)) \<le> max 1 (ep_maxTotalAttempts p)"
  proof (cases "sim_start p tb start")
    case (Some sf)
    obtain st first where sf: "sf = (st, first)" by fastforce
    have "ls_totalAttempts st = 0"
      using Some sf by (auto simp: sim_start_def Let_def ladder_simps split: if_splits option.splits)
    with Some sf sim_walk_length [of MAX_SIMULATED_ATTEMPTS p tb st "Some first"] show ?thesis
      by (simp add: simulateRunner_def)
  qed (simp add: simulateRunner_def)
  have "ls_totalAttempts (seeded_state p tier attempts) = int (length attempts)"
    by (simp add: seeded_state_def Let_def)
  with sim_walk_length [of MAX_SIMULATED_ATTEMPTS p tb "seeded_state p tier attempts" None]
  show "int (length (simulateAfter p tb tier attempts)) \<le> max 0 (ep_maxTotalAttempts p - int (length attempts))"
    by (simp add: simulateAfter_def)
qed

text \<open>
  The simulated attempts are the real ladder's: rung number \<open>i\<close> runs on the tier of a state the
  real delegation reaches after \<open>i\<close> turns; without variant steps that is exactly the tier of the
  ladder's schedule from the start tier.
\<close>

theorem simulation_follows_ladder:
  assumes tb: "\<And>t b. tb t = Some b \<Longrightarrow> rr_tier b = t"
    and start: "sim_start p tb start = Some (st, first)"
    and i: "i < length (simulateRunner p tb start)"
  shows "(\<exists>s. (ladder_step p ^^ i) st s \<and> rr_tier (simulateRunner p tb start ! i) = ls_currentTier s) \<and>
    (distinct (ep_ladder p) \<longrightarrow> ep_variants p = None \<longrightarrow> ep_ladder p \<noteq> [] \<longrightarrow> 0 \<le> ep_maxAttemptsPerTier p \<longrightarrow>
      tierRank (rr_tier (simulateRunner p tb start ! i)) (ep_ladder p) =
        tierRank (resolveStartTier (rr_tier start) p) (ep_ladder p) + int i div (ep_maxAttemptsPerTier p + 1))"
proof -
  have t: "rr_tier first = ls_currentTier st"
    and v1: "ep_variants p = None \<longrightarrow> st = newLadderState (rr_tier start) p"
    using sim_start_tier [OF start tb] by auto
  have walk: "simulateRunner p tb start = sim_walk MAX_SIMULATED_ATTEMPTS p tb st (Some first)"
    by (simp add: simulateRunner_def start)
  obtain s where s: "(ladder_step p ^^ i) st s" "rr_tier (simulateRunner p tb start ! i) = ls_currentTier s"
    using sim_walk_refines [OF t] i unfolding walk by blast
  have "tierRank (ls_currentTier s) (ep_ladder p) =
      tierRank (resolveStartTier (rr_tier start) p) (ep_ladder p) + int i div (ep_maxAttemptsPerTier p + 1)"
    if h: "distinct (ep_ladder p)" "ep_variants p = None" "ep_ladder p \<noteq> []" "0 \<le> ep_maxAttemptsPerTier p"
  proof -
    have "ladder_run p (rr_tier start) i s" using s(1) v1 h(2) ladder_run_relpowp by auto
    from on_schedule_rank [OF ladder_run_on_schedule [OF h this]] h(4) show ?thesis by simp
  qed
  with s show ?thesis by auto
qed

definition demo_base :: tier_base where
  "demo_base t = (if t \<in> {''fast'', ''medium'', ''heavy''}
     then Some \<lparr>rr_tier = t, rr_model = t, rr_variant = None, rr_costRatio = 1\<rparr> else None)"

definition demo_rung :: runner_rung where
  "demo_rung = \<lparr>rr_tier = ''fast'', rr_model = ''fast'', rr_variant = None, rr_costRatio = 1\<rparr>"

lemma demo_sim_start: "sim_start demo_policy demo_base demo_rung = Some (newLadderState ''fast'' demo_policy, demo_rung)"
  by (simp add: sim_start_def demo_rung_def demo_policy_eval ladder_eval)

lemma demo_sim_length: "1 < length (simulateRunner demo_policy demo_base demo_rung)"
proof -
  have m: "MAX_SIMULATED_ATTEMPTS = Suc (Suc 62)" by (simp add: MAX_SIMULATED_ATTEMPTS_def)
  let ?s1 = "recordAttempt (newLadderState ''fast'' demo_policy) (rr_costRatio demo_rung) None"
  let ?a = "nextAction ?s1 (Some FAILED) demo_policy None"
  have a: "la_action ?a = Retry"
    unfolding FAILED_eq by (simp add: demo_rung_def demo_policy_eval ladder_eval)
  have t: "ls_currentTier (advance ?s1 ?a) = ''fast''"
    using a by (simp add: ladder_simps) (simp add: demo_policy_eval ladder_eval)
  have l: "0 < length (sim_walk (Suc n) p tb st (Some r))" for n p tb st r
    by (auto simp: Let_def split: option.split)
  have "sim_walk (Suc (Suc 62)) demo_policy demo_base (newLadderState ''fast'' demo_policy) (Some demo_rung) =
      demo_rung # sim_walk (Suc 62) demo_policy demo_base (advance ?s1 ?a)
        (Some (landed_rung demo_policy (advance ?s1 ?a) ?a (Some demo_rung) (the (demo_base ''fast''))))"
    using a t by (subst sim_walk.simps(2)) (simp add: demo_base_def Let_def del: sim_walk.simps)
  then have eq: "simulateRunner demo_policy demo_base demo_rung =
      demo_rung # sim_walk (Suc 62) demo_policy demo_base (advance ?s1 ?a)
        (Some (landed_rung demo_policy (advance ?s1 ?a) ?a (Some demo_rung) (the (demo_base ''fast''))))"
    by (simp only: simulateRunner_def demo_sim_start m option.case prod.case)
  show ?thesis
    unfolding eq using l [of 62 demo_policy demo_base] by (simp only: list.size) simp
qed

theorem simulation_follows_ladder_witness:
  "tierRank (rr_tier (simulateRunner demo_policy demo_base demo_rung ! 1)) [''fast'', ''medium'', ''heavy''] = 0"
proof -
  have tb: "demo_base t = Some b \<Longrightarrow> rr_tier b = t" for t b
    by (auto simp: demo_base_def split: if_splits)
  have "resolveStartTier (rr_tier demo_rung) demo_policy = ''fast''"
    by (simp add: demo_rung_def demo_policy_eval ladder_eval)
  with simulation_follows_ladder [OF tb demo_sim_start demo_sim_length] demo_policy_v1 show ?thesis
    by (simp add: demo_policy_eval tierRank_def)
qed

end
