(* ===== verification/Guard.thy ===== *)
theory Guard
  imports Js_Text Js_Map
begin

text \<open>
  The tool-call guard's pure part, \<^verbatim>\<open>src/guard/guards.ts\<close> with \<^verbatim>\<open>src/guard/fingerprint.ts\<close>: what
  kind of call it is, whether it is allowed, and how the per-session state changes. The observation
  texts of a denial are not modelled: a decision names its guard. Counters are integers.
\<close>

section \<open>Types\<close>

record guard_policy =
  gp_budget :: int
  gp_cumulativeBudget :: "int option"
  gp_readDraftCap :: int
  gp_sameOpRetryCap :: int
  gp_blockSelfScript :: bool
  gp_deliverableFirst :: bool
  gp_deliverableSignal :: "string option"
  gp_deliverablePath :: "string option"
  gp_deliverableIsScript :: bool
  gp_blockScriptWrites :: bool
  gp_reader :: bool
  gp_needMoreOnExhaustion :: bool

text \<open>The arguments of a call: an object; a key that is absent, \<^verbatim>\<open>undefined\<close> or \<^verbatim>\<open>null\<close> reads as none.\<close>

type_synonym tool_args = "(string \<times> json) list"

record guard_call =
  gl_tool :: string
  gl_args :: tool_args

datatype guard_kind = KFinish | KRead | KMutation | KSelfScript | KOther

datatype guard_name =
    AntiSelfScript | IterationCap | CumulativeIterationCap | DeniedCap
  | RedundantRead | ReadBudget | DeliverableFirst

text \<open>A decision: \<open>None\<close> allows, \<open>Some g\<close> is a denial by guard \<open>g\<close>.\<close>

type_synonym guard_decision = "guard_name option"

record guard_state =
  gs_budget :: int
  gs_toolCallCount :: int
  gs_totalToolCallCount :: int
  gs_dispatches :: int
  gs_readCount :: int
  gs_execCount :: int
  gs_selfScriptCount :: int
  gs_redundantCount :: int
  gs_blockedCount :: int
  gs_consecutiveNonProducing :: int
  gs_deliverableExecuted :: bool
  gs_ttfa :: "int option"
  gs_seen :: "(string, int) jsmap"
  gs_lastBlock :: "guard_name option"
  gs_denied :: "(int \<times> int) option"
  gs_budgetRound :: "int option"
  gs_stopped :: "(int \<times> guard_name) option"

section \<open>Classification\<close>

definition arg :: "tool_args \<Rightarrow> string \<Rightarrow> json option" where
  "arg args k = (case map_of args k of Some JsNull \<Rightarrow> None | r \<Rightarrow> r)"

text \<open>\<^verbatim>\<open>String(args.k1 ?? args.k2 ?? ... ?? "")\<close>.\<close>

fun arg_text :: "tool_args \<Rightarrow> string list \<Rightarrow> string" where
  "arg_text args [] = []"
| "arg_text args (k # ks) = (case arg args k of Some v \<Rightarrow> to_text v | None \<Rightarrow> arg_text args ks)"

definition script_exts :: "string list" where
  "script_exts = [''mjs'', ''sh'', ''py'', ''js'', ''ts'', ''cjs'', ''bash'']"

definition SCRIPT_EXT_RE :: regex where
  "SCRIPT_EXT_RE = then_all [Txt ''.'', one_of_texts script_exts, Boundary]"

definition HEREDOC_RE :: regex where
  "HEREDOC_RE = then_all [Txt ''<<'', Opt (Txt ''-''), ManyOf is_space,
     Opt (Chr (\<lambda>c. c = CHR 0x27 \<or> c = CHR 0x22)), Chr (\<lambda>c. is_alpha c \<or> c = CHR ''_'')]"

definition REDIRECT_SCRIPT_RE :: regex where
  "REDIRECT_SCRIPT_RE = then_all [Txt ''>'', ManyOf is_space, Chr (\<lambda>c. \<not> is_space c),
     ManyOf (\<lambda>c. \<not> is_space c), Txt ''.'', one_of_texts script_exts, Boundary]"

definition INLINE_SCRIPT_RE :: regex where
  "INLINE_SCRIPT_RE = then_all [Boundary, Alt (Txt ''node'') (Alt (Then (Txt ''python'') (Opt (Txt ''3'')))
     (Alt (Txt ''deno'') (Txt ''bun''))), Spaces1, Txt ''-'', Alt (Txt ''e'') (Txt ''c''), Boundary]"

definition CAT_WRITE_RE :: regex where
  "CAT_WRITE_RE = then_all [Boundary, Txt ''cat'', Spaces1, Txt ''>'', ManyOf is_space, Chr (\<lambda>c. \<not> is_space c)]"

definition BASH_C_RE :: regex where
  "BASH_C_RE = then_all [Boundary, Txt ''bash'', Spaces1, Txt ''-c'', Boundary]"

definition MAX_GUARD_SCAN_CHARS :: nat where
  "MAX_GUARD_SCAN_CHARS = 20000"

definition WRITE_TOOLS :: "string set" where
  "WRITE_TOOLS = {''write'', ''edit'', ''patch'', ''multiedit''}"

definition FINISH_TOOLS :: "string set" where
  "FINISH_TOOLS = {''finish'', ''return'', ''task_complete''}"

definition MUTATION_TOOLS :: "string set" where
  "MUTATION_TOOLS = {''write'', ''edit'', ''patch'', ''bash'', ''multiedit''}"

definition READ_ONLY_TOOLS :: "string set" where
  "READ_ONLY_TOOLS = {''grep'', ''read'', ''glob'', ''ls''}"

definition suspicious_command :: "string \<Rightarrow> bool" where
  "suspicious_command cmd \<longleftrightarrow> cmd \<noteq> [] \<and>
     (MAX_GUARD_SCAN_CHARS < length cmd \<or>
      regex_test HEREDOC_RE cmd \<or> regex_test REDIRECT_SCRIPT_RE cmd \<or> regex_test INLINE_SCRIPT_RE cmd \<or>
      regex_test CAT_WRITE_RE cmd \<or> regex_test BASH_C_RE cmd)"

definition isSelfScript :: "guard_call \<Rightarrow> guard_policy \<Rightarrow> bool" where
  "isSelfScript call policy =
     (let target = arg_text (gl_args call) [''filePath'', ''path'', ''file''] in
      if gp_deliverableIsScript policy then False
      else if gp_deliverablePath policy = Some target \<and> target \<noteq> [] then False
      else if gl_tool call = ''bash'' \<or> gl_tool call = ''shell''
      then suspicious_command (arg_text (gl_args call) [''command'', ''cmd''])
      else gl_tool call \<in> WRITE_TOOLS \<and> gp_blockScriptWrites policy \<and> regex_test SCRIPT_EXT_RE target)"

definition classify :: "guard_call \<Rightarrow> guard_policy \<Rightarrow> guard_kind" where
  "classify call policy =
     (if gl_tool call \<in> FINISH_TOOLS then KFinish
      else if isSelfScript call policy then KSelfScript
      else if gl_tool call \<in> READ_ONLY_TOOLS then KRead
      else if gl_tool call \<in> MUTATION_TOOLS then KMutation
      else KOther)"

section \<open>Fingerprints\<close>

definition fingerprintToolCall :: "string \<Rightarrow> tool_args \<Rightarrow> string" where
  "fingerprintToolCall tool a =
     (if tool = ''read'' then
        (let range = List.map_filter (\<lambda>k. map_option (Pair k) (arg a k))
                       [''offset'', ''limit'', ''start'', ''end'', ''line'', ''lines'', ''range''];
             suffix = (if range \<noteq> [] then '':'' @ stringify (JsObj range) else [])
         in ''read:'' @ arg_text a [''file_path'', ''filePath''] @ suffix)
      else if tool = ''grep'' then ''grep:'' @ arg_text a [''pattern''] @ '':'' @ arg_text a [''path'', ''glob'']
      else if tool = ''glob'' then ''glob:'' @ arg_text a [''pattern''] @ '':'' @ arg_text a [''path'']
      else if tool = ''ls'' then ''ls:'' @ arg_text a [''path'']
      else tool @ '':'' @ take 120 (stringify (JsObj a)))"

section \<open>Counters and caps\<close>

definition newGuardState :: "guard_policy \<Rightarrow> guard_state" where
  "newGuardState policy =
     \<lparr>gs_budget = gp_budget policy, gs_toolCallCount = 0, gs_totalToolCallCount = 0, gs_dispatches = 1,
      gs_readCount = 0, gs_execCount = 0, gs_selfScriptCount = 0, gs_redundantCount = 0, gs_blockedCount = 0,
      gs_consecutiveNonProducing = 0, gs_deliverableExecuted = False, gs_ttfa = None, gs_seen = [],
      gs_lastBlock = None, gs_denied = None, gs_budgetRound = None, gs_stopped = None\<rparr>"

definition REFUSAL_CAP :: int where
  "REFUSAL_CAP = 10"

definition deniedThisDispatch :: "guard_state \<Rightarrow> int" where
  "deniedThisDispatch state =
     (case gs_denied state of None \<Rightarrow> 0
      | Some (rnd, count) \<Rightarrow> if rnd = gs_dispatches state then count else 0)"

definition refusalCap :: "guard_state \<Rightarrow> int" where
  "refusalCap state = min (gs_budget state) REFUSAL_CAP"

definition refusalsSpent :: "guard_state \<Rightarrow> bool" where
  "refusalsSpent state \<longleftrightarrow>
     refusalCap state \<le> deniedThisDispatch state \<and>
     gs_budget state \<le> gs_toolCallCount state + deniedThisDispatch state"

definition deniedCapDecision :: "guard_state \<Rightarrow> guard_decision" where
  "deniedCapDecision state = (if refusalsSpent state then Some DeniedCap else None)"

definition budgetSpent :: "guard_state \<Rightarrow> int option \<Rightarrow> bool" where
  "budgetSpent state cumulativeBudget \<longleftrightarrow>
     gs_budget state \<le> gs_toolCallCount state \<or>
     (case cumulativeBudget of None \<Rightarrow> False | Some c \<Rightarrow> c \<le> gs_totalToolCallCount state)"

definition guardStopped :: "guard_state \<Rightarrow> int option \<Rightarrow> bool" where
  "guardStopped state cumulativeBudget \<longleftrightarrow> budgetSpent state cumulativeBudget \<or> refusalsSpent state"

section \<open>evaluateGuards\<close>

definition effective_kind :: "guard_call \<Rightarrow> guard_policy \<Rightarrow> guard_kind" where
  "effective_kind call policy =
     (if classify call policy = KSelfScript \<and> \<not> gp_blockSelfScript policy then KMutation
      else classify call policy)"

definition seen_count :: "guard_state \<Rightarrow> string \<Rightarrow> int" where
  "seen_count state fp = (case map_get (gs_seen state) fp of None \<Rightarrow> 0 | Some n \<Rightarrow> n)"

definition evaluateGuards :: "guard_state \<Rightarrow> guard_call \<Rightarrow> guard_policy \<Rightarrow> guard_decision" where
  "evaluateGuards state call policy =
     (let fp = fingerprintToolCall (gl_tool call) (gl_args call);
          kind = effective_kind call policy
      in if kind = KFinish then None
         else if kind = KSelfScript then Some AntiSelfScript
         else if gs_budget state \<le> gs_toolCallCount state then Some IterationCap
         else if (case gp_cumulativeBudget policy of None \<Rightarrow> False
                  | Some c \<Rightarrow> c \<le> gs_totalToolCallCount state) then Some CumulativeIterationCap
         else if refusalsSpent state then deniedCapDecision state
         else if kind = KRead \<and> gp_sameOpRetryCap policy \<le> seen_count state fp then Some RedundantRead
         else if kind = KRead \<and> \<not> gp_reader policy \<and>
                 gp_readDraftCap policy \<le> gs_consecutiveNonProducing state then Some ReadBudget
         else if gp_deliverableFirst policy \<and> gp_deliverableSignal policy \<noteq> None \<and>
                 \<not> gs_deliverableExecuted state \<and> (kind = KRead \<or> kind = KOther) then Some DeliverableFirst
         else None)"

section \<open>State updates\<close>

definition updateState :: "guard_state \<Rightarrow> guard_call \<Rightarrow> bool \<Rightarrow> guard_policy \<Rightarrow> guard_state" where
  "updateState state call ok policy =
     (let kind = classify call policy;
          fp = fingerprintToolCall (gl_tool call) (gl_args call);
          s1 = state\<lparr>gs_toolCallCount := gs_toolCallCount state + 1,
                     gs_totalToolCallCount := gs_totalToolCallCount state + 1\<rparr>
      in case kind of
           KFinish \<Rightarrow> state
         | KSelfScript \<Rightarrow> s1\<lparr>gs_selfScriptCount := gs_selfScriptCount s1 + 1,
                            gs_consecutiveNonProducing := gs_consecutiveNonProducing s1 + 1\<rparr>
         | KMutation \<Rightarrow>
             (let s2 = s1\<lparr>gs_execCount := gs_execCount s1 + 1, gs_consecutiveNonProducing := 0\<rparr> in
              if ok \<and> \<not> gs_deliverableExecuted s2
              then s2\<lparr>gs_deliverableExecuted := True, gs_ttfa := Some (gs_toolCallCount s2)\<rparr> else s2)
         | KRead \<Rightarrow> s1\<lparr>gs_readCount := gs_readCount s1 + 1,
                      gs_consecutiveNonProducing := gs_consecutiveNonProducing s1 + 1,
                      gs_seen := map_set fp (seen_count s1 fp + 1) (gs_seen s1)\<rparr>
         | KOther \<Rightarrow> s1\<lparr>gs_consecutiveNonProducing := gs_consecutiveNonProducing s1 + 1\<rparr>)"

definition recordDenied :: "guard_state \<Rightarrow> guard_call \<Rightarrow> guard_policy \<Rightarrow> guard_state" where
  "recordDenied state call policy =
     state\<lparr>gs_selfScriptCount := gs_selfScriptCount state + (if classify call policy = KSelfScript then 1 else 0),
           gs_denied := Some (gs_dispatches state, deniedThisDispatch state + 1)\<rparr>"

definition recordBlock :: "guard_state \<Rightarrow> guard_decision \<Rightarrow> guard_state" where
  "recordBlock state decision =
     state\<lparr>gs_lastBlock := decision, gs_blockedCount := gs_blockedCount state + 1,
           gs_redundantCount := gs_redundantCount state + (if decision = Some RedundantRead then 1 else 0)\<rparr>"

section \<open>Hints and results\<close>

text \<open>What the forcing message tells the child to do next.\<close>

datatype next_hint = RunDeliverable string | ReturnNeedMore | EmitFinalAnswer | ProduceOrFinish

definition forcing_next :: "guard_state \<Rightarrow> guard_policy \<Rightarrow> next_hint" where
  "forcing_next state policy =
     (case gp_deliverableSignal policy of
        Some sig \<Rightarrow>
          if \<not> gs_deliverableExecuted state then RunDeliverable sig
          else (if refusalsSpent state \<or> (gp_needMoreOnExhaustion policy \<and> budgetSpent state (gp_cumulativeBudget policy))
                then (if gp_needMoreOnExhaustion policy then ReturnNeedMore else EmitFinalAnswer)
                else if gp_reader policy then EmitFinalAnswer else ProduceOrFinish)
      | None \<Rightarrow>
          (if refusalsSpent state \<or> (gp_needMoreOnExhaustion policy \<and> budgetSpent state (gp_cumulativeBudget policy))
           then (if gp_needMoreOnExhaustion policy then ReturnNeedMore else EmitFinalAnswer)
           else if gp_reader policy then EmitFinalAnswer else ProduceOrFinish))"

definition ERROR_PREFIXES :: "string list" where
  "ERROR_PREFIXES = [''DENIED'', ''BLOCKED'', ''Error'', ''error:'', ''ERROR'', ''Exception'', ''Traceback'',
     ''FAIL'', ''failed:'']"

text \<open>\<open>None\<close> is an output that is no string.\<close>

definition observationOk :: "string option \<Rightarrow> bool" where
  "observationOk output =
     (let s = (case output of None \<Rightarrow> [] | Some t \<Rightarrow> trim_start t) in
      s = [] \<or> \<not> list_ex (\<lambda>p. is_prefix p s) ERROR_PREFIXES)"

section \<open>Lemmas\<close>

lemma refusalsSpent_dec:
  "\<not> refusalsSpent s \<Longrightarrow> 0 \<le> gs_budget s \<Longrightarrow> 0 \<le> deniedThisDispatch s \<Longrightarrow> gs_toolCallCount s < gs_budget s \<Longrightarrow>
   gs_toolCallCount s + deniedThisDispatch s + 1 \<le> gs_budget s + refusalCap s"
  by (auto simp: refusalsSpent_def refusalCap_def REFUSAL_CAP_def min_def not_le split: if_splits)

lemma updateState_counts [guard_simps]:
  "gs_budget (updateState s c ok p) = gs_budget s"
  "gs_dispatches (updateState s c ok p) = gs_dispatches s"
  "gs_denied (updateState s c ok p) = gs_denied s"
  "gs_stopped (updateState s c ok p) = gs_stopped s"
  "gs_budgetRound (updateState s c ok p) = gs_budgetRound s"
  "gs_lastBlock (updateState s c ok p) = gs_lastBlock s"
  "gs_toolCallCount (updateState s c ok p) =
     gs_toolCallCount s + (if classify c p = KFinish then 0 else 1)"
  "gs_totalToolCallCount (updateState s c ok p) =
     gs_totalToolCallCount s + (if classify c p = KFinish then 0 else 1)"
  by (cases "classify c p"; simp add: updateState_def Let_def)+

lemma recordDenied_counts [guard_simps]:
  "gs_budget (recordDenied s c p) = gs_budget s"
  "gs_dispatches (recordDenied s c p) = gs_dispatches s"
  "gs_stopped (recordDenied s c p) = gs_stopped s"
  "gs_budgetRound (recordDenied s c p) = gs_budgetRound s"
  "gs_toolCallCount (recordDenied s c p) = gs_toolCallCount s"
  "gs_totalToolCallCount (recordDenied s c p) = gs_totalToolCallCount s"
  "gs_consecutiveNonProducing (recordDenied s c p) = gs_consecutiveNonProducing s"
  "gs_seen (recordDenied s c p) = gs_seen s"
  "gs_deliverableExecuted (recordDenied s c p) = gs_deliverableExecuted s"
  "deniedThisDispatch (recordDenied s c p) = deniedThisDispatch s + 1"
  by (simp_all add: recordDenied_def deniedThisDispatch_def)

lemma recordBlock_counts [guard_simps]:
  "gs_budget (recordBlock s d) = gs_budget s"
  "gs_dispatches (recordBlock s d) = gs_dispatches s"
  "gs_denied (recordBlock s d) = gs_denied s"
  "gs_stopped (recordBlock s d) = gs_stopped s"
  "gs_budgetRound (recordBlock s d) = gs_budgetRound s"
  "gs_toolCallCount (recordBlock s d) = gs_toolCallCount s"
  "gs_totalToolCallCount (recordBlock s d) = gs_totalToolCallCount s"
  "gs_consecutiveNonProducing (recordBlock s d) = gs_consecutiveNonProducing s"
  "gs_seen (recordBlock s d) = gs_seen s"
  "gs_deliverableExecuted (recordBlock s d) = gs_deliverableExecuted s"
  by (simp_all add: recordBlock_def)

lemma denied_cong:
  "gs_denied s = gs_denied t \<Longrightarrow> gs_dispatches s = gs_dispatches t \<Longrightarrow> deniedThisDispatch s = deniedThisDispatch t"
  by (simp add: deniedThisDispatch_def split: option.split)

lemma deniedCapDecision_cases: "deniedCapDecision s = Some DeniedCap \<or> deniedCapDecision s = None"
  by (simp add: deniedCapDecision_def)

lemma classify_finish: "classify c p = KFinish \<longleftrightarrow> gl_tool c \<in> FINISH_TOOLS"
  by (auto simp: classify_def)

end
