(* ===== verification/Guard_Store.thy ===== *)
theory Guard_Store
  imports Guard
begin

text \<open>
  The store of guard states, \<^verbatim>\<open>src/guard/store.ts\<close>, and the budget tracking of
  \<^verbatim>\<open>src/guard/enforce.ts\<close>. Guard states are mutable objects: the store and the tracking map hold
  references to them, so an eviction from the store leaves the tracked object readable and a later
  \<open>ensure\<close> makes a new one. The model has an explicit heap of states, and both maps hold
  addresses. One plugin instance is modelled. A pending note is kept as its guard and hint.
\<close>

section \<open>State\<close>

type_synonym guard_note = "guard_name \<times> next_hint"

record guard_world =
  gw_heap :: "nat \<Rightarrow> guard_state"
  gw_next :: nat
  gw_states :: "(string, nat) jsmap"
  gw_notes :: "(string, guard_note) jsmap"
  gw_touch :: "(string, int) jsmap"
  gw_tracked :: "(string, nat \<times> int option) jsmap"

definition empty_world :: "(nat \<Rightarrow> guard_state) \<Rightarrow> guard_world" where
  "empty_world h = \<lparr>gw_heap = h, gw_next = 0, gw_states = [], gw_notes = [], gw_touch = [], gw_tracked = []\<rparr>"

text \<open>The state object of a session, and a mutation of it in place.\<close>

definition store_get :: "guard_world \<Rightarrow> string \<Rightarrow> guard_state option" where
  "store_get w sid = map_option (gw_heap w) (map_get (gw_states w) sid)"

definition mutate :: "string \<Rightarrow> (guard_state \<Rightarrow> guard_state) \<Rightarrow> guard_world \<Rightarrow> guard_world" where
  "mutate sid f w =
     (case map_get (gw_states w) sid of None \<Rightarrow> w
      | Some a \<Rightarrow> w\<lparr>gw_heap := (gw_heap w)(a := f (gw_heap w a))\<rparr>)"

section \<open>Operations\<close>

definition touch :: "int \<Rightarrow> string \<Rightarrow> guard_world \<Rightarrow> guard_world" where
  "touch now sid w = w\<lparr>gw_touch := map_set sid now (gw_touch w)\<rparr>"

definition evict :: "string \<Rightarrow> guard_world \<Rightarrow> guard_world" where
  "evict sid w = w\<lparr>gw_states := map_delete sid (gw_states w), gw_notes := map_delete sid (gw_notes w),
                   gw_touch := map_delete sid (gw_touch w)\<rparr>"

text \<open>The resumed round takes its own budget, once.\<close>

definition round_budget :: "guard_policy \<Rightarrow> guard_state \<Rightarrow> guard_state" where
  "round_budget policy s =
     (if 1 < gs_dispatches s \<and> gs_budgetRound s \<noteq> Some (gs_dispatches s)
      then s\<lparr>gs_budget := gp_budget policy, gs_budgetRound := Some (gs_dispatches s)\<rparr> else s)"

definition store_ensure :: "int \<Rightarrow> string \<Rightarrow> guard_policy \<Rightarrow> guard_world \<Rightarrow> guard_world" where
  "store_ensure now sid policy w =
     (let w1 = touch now sid w in
      case map_get (gw_states w1) sid of
        None \<Rightarrow> w1\<lparr>gw_heap := (gw_heap w1)(gw_next w1 := newGuardState policy),
                  gw_next := gw_next w1 + 1,
                  gw_states := map_set sid (gw_next w1) (gw_states w1)\<rparr>
      | Some a \<Rightarrow> mutate sid (round_budget policy) w1)"

definition setPendingNote :: "int \<Rightarrow> string \<Rightarrow> guard_note \<Rightarrow> guard_world \<Rightarrow> guard_world" where
  "setPendingNote now sid note w =
     (let w1 = touch now sid w in w1\<lparr>gw_notes := map_set sid note (gw_notes w1)\<rparr>)"

definition takePendingNote :: "int \<Rightarrow> string \<Rightarrow> guard_world \<Rightarrow> guard_note option \<times> guard_world" where
  "takePendingNote now sid w =
     (let w1 = touch now sid w in
      (map_get (gw_notes w1) sid, w1\<lparr>gw_notes := map_delete sid (gw_notes w1)\<rparr>))"

definition beginDispatch :: "int \<Rightarrow> string \<Rightarrow> guard_world \<Rightarrow> guard_world" where
  "beginDispatch now sid w =
     (case map_get (gw_states w) sid of None \<Rightarrow> w
      | Some a \<Rightarrow> touch now sid
          (mutate sid (\<lambda>s. s\<lparr>gs_toolCallCount := 0, gs_dispatches := gs_dispatches s + 1\<rparr>) w))"

text \<open>The sweep goes over a snapshot of the stamps.\<close>

definition sweep :: "int \<Rightarrow> int \<Rightarrow> guard_world \<Rightarrow> guard_world" where
  "sweep nowMs ttlMs w =
     fold (\<lambda>(sid, stamp) v. if ttlMs \<le> nowMs - stamp then evict sid v else v) (gw_touch w) w"

definition MAX_TRACKED_BUDGETS :: nat where
  "MAX_TRACKED_BUDGETS = 1000"

definition trackBudget :: "string \<Rightarrow> int option \<Rightarrow> guard_world \<Rightarrow> guard_world" where
  "trackBudget sid cumulative w =
     (case map_get (gw_states w) sid of None \<Rightarrow> w
      | Some a \<Rightarrow> w\<lparr>gw_tracked := remember sid (a, cumulative) MAX_TRACKED_BUDGETS (gw_tracked w)\<rparr>)"

definition tracked_state :: "guard_world \<Rightarrow> string \<Rightarrow> guard_state option" where
  "tracked_state w sid = map_option (\<lambda>(a, c). gw_heap w a) (map_get (gw_tracked w) sid)"

definition budgetExhausted :: "guard_world \<Rightarrow> string \<Rightarrow> bool" where
  "budgetExhausted w sid \<longleftrightarrow>
     (case tracked_state w sid of None \<Rightarrow> False
      | Some s \<Rightarrow> map_option fst (gs_stopped s) = Some (gs_dispatches s))"

record budget_snapshot =
  bs_tracked :: bool
  bs_stopped :: bool
  bs_usedUp :: bool

definition captureBudget :: "guard_world \<Rightarrow> string \<Rightarrow> budget_snapshot" where
  "captureBudget w sid =
     (case (if sid = [] then None else map_get (gw_tracked w) sid) of
        None \<Rightarrow> \<lparr>bs_tracked = False, bs_stopped = False, bs_usedUp = False\<rparr>
      | Some (a, c) \<Rightarrow>
          (let s = gw_heap w a in
           \<lparr>bs_tracked = True, bs_stopped = (map_option fst (gs_stopped s) = Some (gs_dispatches s)),
            bs_usedUp = guardStopped s c\<rparr>))"

section \<open>The aliasing invariant\<close>

text \<open>
  Addresses in use are below \<open>gw_next\<close>, no two sessions of the store share an object, and a tracked
  object is never another session's current object.
\<close>

definition wf_world :: "guard_world \<Rightarrow> bool" where
  "wf_world w \<longleftrightarrow> wf_map (gw_states w) \<and> wf_map (gw_tracked w) \<and>
     (\<forall>sid a. map_get (gw_states w) sid = Some a \<longrightarrow> a < gw_next w) \<and>
     (\<forall>s1 s2 a. map_get (gw_states w) s1 = Some a \<longrightarrow> map_get (gw_states w) s2 = Some a \<longrightarrow> s1 = s2) \<and>
     (\<forall>s1 a c. map_get (gw_tracked w) s1 = Some (a, c) \<longrightarrow> a < gw_next w) \<and>
     (\<forall>s1 s2 a c. map_get (gw_tracked w) s1 = Some (a, c) \<longrightarrow> map_get (gw_states w) s2 = Some a \<longrightarrow> s1 = s2)"

lemma wf_empty: "wf_world (empty_world h)"
  by (simp add: wf_world_def empty_world_def)

lemma touch_fields [simp]:
  "gw_heap (touch n sid w) = gw_heap w" "gw_next (touch n sid w) = gw_next w"
  "gw_states (touch n sid w) = gw_states w" "gw_tracked (touch n sid w) = gw_tracked w"
  "gw_notes (touch n sid w) = gw_notes w"
  by (simp_all add: touch_def)

lemma wf_world_cong:
  "gw_next w = gw_next v \<Longrightarrow> gw_states w = gw_states v \<Longrightarrow> gw_tracked w = gw_tracked v \<Longrightarrow> wf_world w = wf_world v"
  by (simp add: wf_world_def)

lemma mutate_fields [simp]:
  "gw_next (mutate sid f w) = gw_next w" "gw_states (mutate sid f w) = gw_states w"
  "gw_tracked (mutate sid f w) = gw_tracked w" "gw_notes (mutate sid f w) = gw_notes w"
  by (simp_all add: mutate_def split: option.split)

lemma wf_mutate [simp]: "wf_world (mutate sid f w) = wf_world w"
  by (rule wf_world_cong) simp_all

lemma wf_touch [simp]: "wf_world (touch n sid w) = wf_world w"
  by (rule wf_world_cong) simp_all

lemma store_get_mutate:
  assumes "wf_world w"
  shows "store_get (mutate sid f w) j = (if j = sid then map_option f (store_get w j) else store_get w j)"
proof (cases "map_get (gw_states w) sid")
  case None
  then show ?thesis by (simp add: mutate_def store_get_def)
next
  case (Some a)
  then have other: "map_get (gw_states w) j = Some a \<Longrightarrow> j = sid"
    using assms by (auto simp: wf_world_def)
  with Some show ?thesis
    by (cases "map_get (gw_states w) j") (auto simp: mutate_def store_get_def)
qed

lemma wf_evict: "wf_world w \<Longrightarrow> wf_world (evict sid w)"
  by (auto simp: wf_world_def evict_def map_get_delete jm.wf_del split: if_splits)

lemma store_get_evict: "store_get (evict sid w) j = (if j = sid then None else store_get w j)"
  by (simp add: store_get_def evict_def map_get_delete)

lemma wf_ensure:
  assumes "wf_world w"
  shows "wf_world (store_ensure n sid p w)"
proof (cases "map_get (gw_states w) sid")
  case None
  then show ?thesis
    using assms by (fastforce simp: store_ensure_def Let_def wf_world_def map_get_set jm.wf_put split: if_splits)
next
  case (Some a)
  then show ?thesis using assms by (simp add: store_ensure_def Let_def)
qed

lemma store_get_ensure:
  assumes "wf_world w"
  shows "store_get (store_ensure n sid p w) j =
    (if j = sid then Some (case store_get w sid of None \<Rightarrow> newGuardState p | Some s \<Rightarrow> round_budget p s)
     else store_get w j)"
proof (cases "map_get (gw_states w) sid")
  case None
  have "map_get (gw_states w) j = Some a \<Longrightarrow> a < gw_next w" for a
    using assms by (auto simp: wf_world_def)
  with None show ?thesis
    by (cases "map_get (gw_states w) j") (auto simp: store_ensure_def Let_def store_get_def map_get_set)
next
  case (Some a)
  then show ?thesis
    using store_get_mutate [of "touch n sid w" sid "round_budget p" j] assms
    by (simp add: store_ensure_def Let_def) (simp add: store_get_def)
qed

lemma wf_track:
  assumes "wf_world w"
  shows "wf_world (trackBudget sid c w)"
proof (cases "map_get (gw_states w) sid")
  case (Some a)
  have wft: "wf_map (gw_tracked w)" using assms by (simp add: wf_world_def)
  have get: "map_get (remember sid (a, c) MAX_TRACKED_BUDGETS (gw_tracked w)) j = Some (b, d) \<Longrightarrow>
      j = sid \<and> b = a \<or> map_get (gw_tracked w) j = Some (b, d)" for j b d
    using remember_get_sub [OF wft, of sid "(a, c)" MAX_TRACKED_BUDGETS j "(b, d)"] by (auto split: if_splits)
  have wf': "wf_map (remember sid (a, c) MAX_TRACKED_BUDGETS (gw_tracked w))" using wft by (rule wf_remember)
  show ?thesis
    unfolding wf_world_def
  proof (intro conjI allI impI)
    show "s1 = s2" if "map_get (gw_tracked (trackBudget sid c w)) s1 = Some (b, d)"
      "map_get (gw_states (trackBudget sid c w)) s2 = Some b" for s1 s2 b d
      using that get [of s1 b d] assms Some by (auto simp: trackBudget_def wf_world_def)
    show "b < gw_next (trackBudget sid c w)" if "map_get (gw_tracked (trackBudget sid c w)) s1 = Some (b, d)" for s1 b d
      using that get [of s1 b d] assms Some unfolding trackBudget_def wf_world_def
      by (simp split: option.splits) blast
  qed (use assms Some wf' in \<open>auto simp: trackBudget_def wf_world_def\<close>)
qed (simp add: trackBudget_def assms)

lemma track_fields [simp]:
  "gw_states (trackBudget sid c w) = gw_states w" "gw_heap (trackBudget sid c w) = gw_heap w"
  "store_get (trackBudget sid c w) = store_get w"
  by (auto simp: trackBudget_def store_get_def fun_eq_iff split: option.splits)

text \<open>A session just tracked is observed through the store's own object.\<close>

definition aliased :: "guard_world \<Rightarrow> string \<Rightarrow> bool" where
  "aliased w sid \<longleftrightarrow> (\<exists>a c. map_get (gw_states w) sid = Some a \<and> map_get (gw_tracked w) sid = Some (a, c))"

lemma aliased_tracked: "aliased w sid \<Longrightarrow> tracked_state w sid = store_get w sid"
  by (auto simp: aliased_def tracked_state_def store_get_def)

lemma aliased_mutate [simp]: "aliased (mutate k f w) sid = aliased w sid"
  by (simp add: aliased_def)

lemma aliased_touch [simp]: "aliased (touch n k w) sid = aliased w sid"
  by (simp add: aliased_def)

lemma aliased_track:
  assumes "wf_world w" and "store_get w sid \<noteq> None"
  shows "aliased (trackBudget sid c w) sid"
proof -
  obtain a where a: "map_get (gw_states w) sid = Some a" using assms(2) by (auto simp: store_get_def)
  have "wf_map (gw_tracked w)" using assms(1) by (simp add: wf_world_def)
  then have "map_get (remember sid (a, c) MAX_TRACKED_BUDGETS (gw_tracked w)) sid = Some (a, c)"
    by (rule remember_get) (simp add: MAX_TRACKED_BUDGETS_def)
  with a show ?thesis by (simp add: aliased_def trackBudget_def)
qed

section \<open>The interface\<close>

text \<open>
  What the guard relies on: a store of per-session states with an in-place update, in which a
  change to one session is invisible to every other. The invariant is what makes this true of a store
  of references.
\<close>

locale session_store =
  fixes look :: "'w \<Rightarrow> 'k \<Rightarrow> 's option"
    and upd :: "'k \<Rightarrow> ('s \<Rightarrow> 's) \<Rightarrow> 'w \<Rightarrow> 'w"
    and forget :: "'k \<Rightarrow> 'w \<Rightarrow> 'w"
    and good :: "'w \<Rightarrow> bool"
  assumes look_upd: "good w \<Longrightarrow> look (upd k f w) j = (if j = k then map_option f (look w j) else look w j)"
    and look_forget: "good w \<Longrightarrow> look (forget k w) j = (if j = k then None else look w j)"
    and good_upd: "good w \<Longrightarrow> good (upd k f w)"
    and good_forget: "good w \<Longrightarrow> good (forget k w)"
begin

lemma look_upd_same: "good w \<Longrightarrow> look w k = Some s \<Longrightarrow> look (upd k f w) k = Some (f s)"
  by (simp add: look_upd)

lemma look_upd_upd: "good w \<Longrightarrow> look (upd k g (upd k f w)) j = look (upd k (g \<circ> f) w) j"
  by (simp add: look_upd good_upd option.map_comp)

text \<open>Session isolation: updates of other sessions leave a session's state as it is.\<close>

lemma good_fold: "good w \<Longrightarrow> good (fold (\<lambda>(k, f). upd k f) es w)"
  by (induction es arbitrary: w) (auto simp: good_upd)

lemma isolated:
  "good w \<Longrightarrow> \<forall>e \<in> set es. fst e \<noteq> j \<Longrightarrow> look (fold (\<lambda>(k, f). upd k f) es w) j = look w j"
proof (induction es arbitrary: w)
  case (Cons e es)
  then show ?case by (cases e) (auto simp: look_upd good_upd)
qed simp

text \<open>The updates of one session compose, whatever happens to the others in between.\<close>

lemma own_updates:
  "good w \<Longrightarrow> look (fold (\<lambda>(k, f). upd k f) es w) j =
     map_option (fold (\<lambda>(k, f). if k = j then f else id) es) (look w j)"
proof (induction es arbitrary: w)
  case (Cons e es)
  then show ?case
    by (cases e) (auto simp: look_upd good_upd option.map_comp comp_def)
qed (simp add: option.map_id0 [unfolded id_def] id_def)

end

interpretation gst: session_store store_get mutate evict wf_world
  by unfold_locales (simp_all add: store_get_mutate store_get_evict wf_evict)

lemma sweep_fold_gone:
  "store_get (fold (\<lambda>(sid, stamp) v. if ttl \<le> now - stamp then evict sid v else v) ts w) j =
   (if \<exists>stamp. (j, stamp) \<in> set ts \<and> ttl \<le> now - stamp then None else store_get w j)"
  by (induction ts arbitrary: w) (auto simp: store_get_evict)

text \<open>A sweep drops exactly the sessions idle for the time to live; a future stamp is never dropped.\<close>

lemma store_get_sweep:
  "store_get (sweep now ttl w) j =
   (if \<exists>stamp. (j, stamp) \<in> set (gw_touch w) \<and> ttl \<le> now - stamp then None else store_get w j)"
  unfolding sweep_def by (rule sweep_fold_gone)

end
