(* ===== verification/Enforce.thy ===== *)
theory Enforce
  imports Guard_Store Config
begin

text \<open>
  Enforcement of the tool-call guard: the mode (\<^verbatim>\<open>src/router/enforcement.ts\<close>), the guard profiles
  (\<^verbatim>\<open>src/router/guard-profile.ts\<close>), the policy and the hooks around a call
  (\<^verbatim>\<open>src/guard/enforce.ts\<close>). The routed task class of a session comes from the process-wide
  dispatch registry: it is the field \<open>gc_taskClass\<close> of the call. A message shown to the child is
  kept as the guard and the hint it is built from.
\<close>

section \<open>Mode\<close>

definition DEFAULT_ENV_GATE :: string where
  "DEFAULT_ENV_GATE = ''MODEL_ROUTER_ENFORCE''"

text \<open>The mode, and the gate name and value the warning names when the value is unrecognised.\<close>

definition resolveEnforcementMode ::
    "router_config option \<Rightarrow> string option \<Rightarrow> (string \<rightharpoonup> string) \<Rightarrow> enforcement_mode \<times> (string \<times> string) option" where
  "resolveEnforcementMode config tier env =
     (let enf = Option.bind config cfg_enforcement;
          gateName = or_else (Option.bind enf en_envGate) DEFAULT_ENV_GATE;
          raw = env gateName
      in if raw = Some ''1'' then (Enforced, None)
         else if raw = Some ''0'' then (Off, None)
         else
           (let warning = (case raw of None \<Rightarrow> None | Some r \<Rightarrow> if r = [] then None else Some (gateName, r));
                base = or_else (Option.bind enf en_mode) Advisory;
                own = Option.bind tier (\<lambda>t. Option.bind enf (\<lambda>e. en_perTier e t))
            in (or_else own base, warning)))"

section \<open>Guard profiles\<close>

datatype profile_kind = Reader | Producer

record guard_profile =
  pf_kind :: profile_kind
  pf_budget :: jsnum
  pf_cumulative :: jsnum

definition TIER_GUARD_BUDGET :: int where "TIER_GUARD_BUDGET = 25"
definition GUARD_CUMULATIVE_MULTIPLIER :: int where "GUARD_CUMULATIVE_MULTIPLIER = 3"
definition ROUTE_BUDGET_RAISE_MAX :: int where "ROUTE_BUDGET_RAISE_MAX = 2"

definition READER_CLASSES :: "string set" where
  "READER_CLASSES = {''review'', ''recon'', ''search''}"

datatype dispatch_cap = CapUncapped | CapCalls int

datatype reader_reason = ByRole | ByReadOnlyTier | ByClass | ByUncapped

definition readerReason ::
    "guard_profile option \<Rightarrow> bool \<Rightarrow> string option \<Rightarrow> dispatch_cap option \<Rightarrow> reader_reason option" where
  "readerReason profile readOnlyTier taskClass cap =
     (case profile of
        Some p \<Rightarrow> (if pf_kind p = Reader then Some ByRole else None)
      | None \<Rightarrow>
          (if readOnlyTier then Some ByReadOnlyTier
           else if (case taskClass of None \<Rightarrow> False | Some c \<Rightarrow> c \<in> READER_CLASSES) then Some ByClass
           else if cap = Some CapUncapped then Some ByUncapped
           else None))"

fun positiveBudget :: "jsnum \<Rightarrow> int option" where
  "positiveBudget (Fin x) = (if 1 \<le> \<lfloor>x\<rfloor> then Some \<lfloor>x\<rfloor> else None)"
| "positiveBudget _ = None"

definition raisedBudget :: "int \<Rightarrow> jsnum option \<Rightarrow> int" where
  "raisedBudget base requested =
     (case Option.bind requested positiveBudget of
        None \<Rightarrow> base
      | Some asked \<Rightarrow> min (max base asked) (base * ROUTE_BUDGET_RAISE_MAX))"

text \<open>A role's guard kind, budgets per tier and the ceiling tier of its range, if it has one.\<close>

record role_guard =
  rg_guard :: profile_kind
  rg_budget :: "string \<rightharpoonup> jsnum"
  rg_ceiling :: "string option"

definition ownBudget :: "role_guard \<Rightarrow> string \<Rightarrow> int option" where
  "ownBudget role tier = Option.bind (rg_budget role tier) positiveBudget"

definition role_base_budget :: "role_guard \<Rightarrow> string \<Rightarrow> int" where
  "role_base_budget role tier =
     or_else (ownBudget role tier)
       (max (or_else (Option.bind (rg_ceiling role) (ownBudget role)) 0) TIER_GUARD_BUDGET)"

definition roleGuardProfile :: "role_guard \<Rightarrow> string \<Rightarrow> jsnum option \<Rightarrow> guard_profile" where
  "roleGuardProfile role tier routeBudget =
     (let budget = raisedBudget (role_base_budget role tier) routeBudget in
      \<lparr>pf_kind = rg_guard role, pf_budget = Fin (of_int budget),
       pf_cumulative = Fin (of_int (budget * GUARD_CUMULATIVE_MULTIPLIER))\<rparr>)"

section \<open>The policy of a call\<close>

definition guard_budget :: "router_config \<Rightarrow> guard_profile option \<Rightarrow> int" where
  "guard_budget cfg profile =
     (let g = Option.bind (cfg_enforcement cfg) en_guard;
          tierBudget = or_else (Option.bind g gc_budget) TIER_GUARD_BUDGET
      in case profile of None \<Rightarrow> tierBudget | Some p \<Rightarrow> or_else (positiveBudget (pf_budget p)) tierBudget)"

definition guard_cumulative :: "router_config \<Rightarrow> guard_profile option \<Rightarrow> int" where
  "guard_cumulative cfg profile =
     (let budget = guard_budget cfg profile in
      case profile of None \<Rightarrow> budget * GUARD_CUMULATIVE_MULTIPLIER
      | Some p \<Rightarrow> max budget (or_else (positiveBudget (pf_cumulative p)) (budget * GUARD_CUMULATIVE_MULTIPLIER)))"

definition buildGuardPolicy :: "router_config \<Rightarrow> guard_profile option \<Rightarrow> guard_policy" where
  "buildGuardPolicy cfg profile =
     (let g = Option.bind (cfg_enforcement cfg) en_guard in
      \<lparr>gp_budget = guard_budget cfg profile,
       gp_cumulativeBudget = Some (guard_cumulative cfg profile),
       gp_readDraftCap = or_else (Option.bind g gc_readDraftCap) 3,
       gp_sameOpRetryCap = or_else (Option.bind g gc_sameOpRetryCap) 1,
       gp_blockSelfScript = or_else (Option.bind g gc_blockSelfScript) True,
       gp_deliverableFirst = or_else (Option.bind g gc_deliverableFirst) True,
       gp_deliverableSignal = None, gp_deliverablePath = None, gp_deliverableIsScript = False,
       gp_blockScriptWrites = or_else (Option.bind g gc_blockScriptWrites) False,
       gp_reader = (case profile of None \<Rightarrow> False | Some p \<Rightarrow> pf_kind p = Reader),
       gp_needMoreOnExhaustion = (profile \<noteq> None)\<rparr>)"

definition isReadOnlyTier :: "string \<Rightarrow> tier_config \<Rightarrow> bool" where
  "isReadOnlyTier name t = or_else (tc_readOnly t) (name = ''fast'')"

definition isReaderDispatch ::
    "router_config \<Rightarrow> string option \<Rightarrow> string option \<Rightarrow> guard_profile option \<Rightarrow> dispatch_cap option \<Rightarrow> bool" where
  "isReaderDispatch cfg tier taskClass profile cap \<longleftrightarrow>
     (let readOnlyTier =
        (case tier of None \<Rightarrow> False
         | Some t \<Rightarrow> (case Option.bind (getActiveTiers cfg) (\<lambda>ts. map_of ts t) of
                       None \<Rightarrow> False | Some d \<Rightarrow> isReadOnlyTier t d))
      in readerReason profile readOnlyTier taskClass cap \<noteq> None)"

section \<open>The hooks\<close>

record guard_call_params =
  gc_cfg :: router_config
  gc_tier :: "string option"
  gc_session :: string
  gc_call :: guard_call
  gc_env :: "string \<rightharpoonup> string"
  gc_trivial :: bool
  gc_profile :: "guard_profile option"
  gc_cap :: "dispatch_cap option"
  gc_taskClass :: "string option"
  gc_now :: int

definition callMode :: "guard_call_params \<Rightarrow> enforcement_mode" where
  "callMode par =
     (let mode = fst (resolveEnforcementMode (Some (gc_cfg par)) (gc_tier par) (gc_env par)) in
      if mode = Enforced \<and> gc_trivial par \<and>
         Option.bind (cfg_enforcement (gc_cfg par)) en_trivialBypass \<noteq> Some False
      then Advisory else mode)"

definition STOP_GUARDS :: "guard_name set" where
  "STOP_GUARDS = {IterationCap, CumulativeIterationCap, DeniedCap}"

record before_result =
  br_block :: bool
  br_mode :: enforcement_mode
  br_guard :: "guard_name option"
  br_hint :: "next_hint option"

definition call_policy :: "guard_call_params \<Rightarrow> guard_policy" where
  "call_policy par =
     (let policy = buildGuardPolicy (gc_cfg par) (gc_profile par) in
      if isReaderDispatch (gc_cfg par) (gc_tier par) (gc_taskClass par) (gc_profile par) (gc_cap par)
      then policy\<lparr>gp_reader := True\<rparr> else policy)"

text \<open>\<^verbatim>\<open>store.ensure\<close> and \<^verbatim>\<open>trackBudget\<close>: the session's state is there and tracked.\<close>

definition enter_call :: "guard_call_params \<Rightarrow> guard_world \<Rightarrow> guard_world" where
  "enter_call par w =
     (let policy = buildGuardPolicy (gc_cfg par) (gc_profile par) in
      trackBudget (gc_session par) (gp_cumulativeBudget policy)
        (store_ensure (gc_now par) (gc_session par) policy w))"

definition current_state :: "guard_world \<Rightarrow> string \<Rightarrow> guard_state" where
  "current_state w sid = the (store_get w sid)"

definition deny :: "guard_call_params \<Rightarrow> guard_name \<Rightarrow> guard_state \<Rightarrow> guard_state" where
  "deny par g s =
     (let s1 = recordBlock (recordDenied s (gc_call par) (call_policy par)) (Some g) in
      if g \<in> STOP_GUARDS then s1\<lparr>gs_stopped := Some (gs_dispatches s1, g)\<rparr> else s1)"

definition guardBeforeCall :: "guard_call_params \<Rightarrow> guard_world \<Rightarrow> before_result \<times> guard_world" where
  "guardBeforeCall par w =
     (let mode = callMode par in
      if mode = Off then (\<lparr>br_block = False, br_mode = mode, br_guard = None, br_hint = None\<rparr>, w)
      else
        (let w1 = enter_call par w; policy = call_policy par; sid = gc_session par in
         case evaluateGuards (current_state w1 sid) (gc_call par) policy of
           None \<Rightarrow> (\<lparr>br_block = False, br_mode = mode, br_guard = None, br_hint = None\<rparr>, w1)
         | Some g \<Rightarrow>
             (if mode = Enforced
              then (let w2 = mutate sid (deny par g) w1 in
                    (\<lparr>br_block = True, br_mode = mode, br_guard = Some g,
                      br_hint = Some (forcing_next (current_state w2 sid) policy)\<rparr>, w2))
              else (let w2 = mutate sid (\<lambda>s. recordBlock s (Some g)) w1 in
                    (\<lparr>br_block = False, br_mode = mode, br_guard = Some g, br_hint = None\<rparr>,
                     setPendingNote (gc_now par) sid (g, forcing_next (current_state w2 sid) policy) w2)))))"

text \<open>A call refused outside the guard; the result is the text added to the refusal, as guard and hint.\<close>

definition guardRefusedCall :: "guard_call_params \<Rightarrow> guard_world \<Rightarrow> guard_note option \<times> guard_world" where
  "guardRefusedCall par w =
     (let mode = callMode par in
      if mode = Off then (None, w)
      else
        (let policy = call_policy par; sid = gc_session par;
             w1 = mutate sid (\<lambda>s. recordDenied s (gc_call par) policy) (enter_call par w)
         in case deniedCapDecision (current_state w1 sid) of
              None \<Rightarrow> (None, w1)
            | Some g \<Rightarrow>
                (let w2 = mutate sid (\<lambda>s. recordBlock s (Some g)) w1;
                     w3 = (if mode = Enforced
                           then mutate sid (\<lambda>s. s\<lparr>gs_stopped := Some (gs_dispatches s, DeniedCap)\<rparr>) w2 else w2)
                 in (Some (g, forcing_next (current_state w3 sid) policy), w3))))"

definition guardAfterCall ::
    "guard_call_params \<Rightarrow> string option \<Rightarrow> guard_world \<Rightarrow> guard_note option \<times> guard_world" where
  "guardAfterCall par output w =
     (case store_get w (gc_session par) of
        None \<Rightarrow> (None, w)
      | Some _ \<Rightarrow>
          (let policy = buildGuardPolicy (gc_cfg par) (gc_profile par);
               w1 = mutate (gc_session par) (\<lambda>s. updateState s (gc_call par) (observationOk output) policy) w
           in takePendingNote (gc_now par) (gc_session par) w1))"

end
