(* ===== verification/Guard_Spec.thy ===== *)
theory Guard_Spec
  imports Enforce
begin

text \<open>
  The guard under a host that runs one call of a session at a time: the before-hook, then (when the call was let through) the
  call and its after-hook; resumes and refusals outside the guard come in between. The theorems bound executed plus refused
  calls per dispatch round, say when a session counts as stopped, and where the documented bound does not hold. \<open>Guard_Calls\<close>
  has the hooks as separate events, with sweeps and clears, and the bound on the calls let through.
\<close>

section \<open>Events\<close>

datatype guard_event =
    Called guard_call_params "string option"
  | RefusedOutside guard_call_params
  | Resumed int string

definition run_event :: "guard_event \<Rightarrow> guard_world \<Rightarrow> guard_world" where
  "run_event e w =
     (case e of
        Called par out \<Rightarrow>
          (let (r, w1) = guardBeforeCall par w in
           if br_block r then w1 else snd (guardAfterCall par out w1))
      | RefusedOutside par \<Rightarrow> snd (guardRefusedCall par w)
      | Resumed now sid \<Rightarrow> beginDispatch now sid w)"

definition run_events :: "guard_event list \<Rightarrow> guard_world \<Rightarrow> guard_world" where
  "run_events es w = fold run_event es w"

section \<open>The transition of one session\<close>

text \<open>What an event does to the state of the session it is for, as a function of that state alone.\<close>

definition entered :: "guard_call_params \<Rightarrow> guard_state option \<Rightarrow> guard_state" where
  "entered par s =
     (let p = buildGuardPolicy (gc_cfg par) (gc_profile par) in
      case s of None \<Rightarrow> newGuardState p | Some st \<Rightarrow> round_budget p st)"

definition called_state :: "guard_call_params \<Rightarrow> string option \<Rightarrow> guard_state option \<Rightarrow> guard_state" where
  "called_state par out s =
     (let st = entered par s;
          after = (\<lambda>st. updateState st (gc_call par) (observationOk out)
                         (buildGuardPolicy (gc_cfg par) (gc_profile par)))
      in case evaluateGuards st (gc_call par) (call_policy par) of
           None \<Rightarrow> after st
         | Some g \<Rightarrow> if callMode par = Enforced then deny par g st else after (recordBlock st (Some g)))"

definition refused_state :: "guard_call_params \<Rightarrow> guard_state option \<Rightarrow> guard_state" where
  "refused_state par s =
     (let st = recordDenied (entered par s) (gc_call par) (call_policy par) in
      if refusalsSpent st
      then (if callMode par = Enforced
            then (recordBlock st (Some DeniedCap))\<lparr>gs_stopped := Some (gs_dispatches st, DeniedCap)\<rparr>
            else recordBlock st (Some DeniedCap))
      else st)"

definition resumed_state :: "guard_state \<Rightarrow> guard_state" where
  "resumed_state st = st\<lparr>gs_toolCallCount := 0, gs_dispatches := gs_dispatches st + 1\<rparr>"

lemma wf_enter: "wf_world w \<Longrightarrow> wf_world (enter_call par w)"
  by (simp add: enter_call_def Let_def wf_track wf_ensure)

lemma store_get_enter:
  assumes "wf_world w"
  shows "store_get (enter_call par w) j =
    (if j = gc_session par then Some (entered par (store_get w j)) else store_get w j)"
  using assms by (simp add: enter_call_def entered_def Let_def store_get_ensure split: option.split)

lemma note_fields [simp]:
  "store_get (setPendingNote n sid note w) = store_get w"
  "store_get (snd (takePendingNote n sid w)) = store_get w"
  "store_get (touch n sid w) = store_get w"
  by (simp_all add: setPendingNote_def takePendingNote_def Let_def store_get_def fun_eq_iff)

lemma wf_notes [simp]:
  "wf_world (setPendingNote n sid note w) = wf_world w"
  "wf_world (snd (takePendingNote n sid w)) = wf_world w"
  by (auto simp: setPendingNote_def takePendingNote_def Let_def wf_world_def)

lemma wf_before: "wf_world w \<Longrightarrow> wf_world (snd (guardBeforeCall par w))"
  by (auto simp: guardBeforeCall_def Let_def wf_enter split: option.split)

lemma wf_after: "wf_world w \<Longrightarrow> wf_world (snd (guardAfterCall par out w))"
  by (auto simp: guardAfterCall_def Let_def split: option.split)

lemma wf_event: "wf_world w \<Longrightarrow> wf_world (run_event e w)"
  by (auto simp: run_event_def Let_def case_prod_beta wf_before wf_after guardRefusedCall_def wf_enter
      beginDispatch_def split: guard_event.split option.split)

lemma current_enter:
  "wf_world w \<Longrightarrow> current_state (enter_call par w) (gc_session par) = entered par (store_get w (gc_session par))"
  by (simp add: current_state_def store_get_enter)

lemma store_get_called:
  assumes wf: "wf_world w" and on: "callMode par \<noteq> Off"
  shows "store_get (run_event (Called par out) w) j =
    (if j = gc_session par then Some (called_state par out (store_get w j)) else store_get w j)"
proof (cases "evaluateGuards (entered par (store_get w (gc_session par))) (gc_call par) (call_policy par)")
  case None
  then show ?thesis
    using wf on
    by (simp add: run_event_def guardBeforeCall_def Let_def current_enter guardAfterCall_def
        store_get_enter gst.look_upd wf_enter called_state_def)
next
  case (Some g)
  then show ?thesis
    using wf on
    by (simp add: run_event_def guardBeforeCall_def Let_def current_enter guardAfterCall_def
        store_get_enter gst.look_upd wf_enter called_state_def)
qed

lemma store_get_refused:
  assumes wf: "wf_world w" and on: "callMode par \<noteq> Off"
  shows "store_get (run_event (RefusedOutside par) w) j =
    (if j = gc_session par then Some (refused_state par (store_get w j)) else store_get w j)"
proof -
  let ?w1 = "mutate (gc_session par) (\<lambda>s. recordDenied s (gc_call par) (call_policy par)) (enter_call par w)"
  have w1: "store_get ?w1 i = (if i = gc_session par
      then Some (recordDenied (entered par (store_get w i)) (gc_call par) (call_policy par)) else store_get w i)" for i
    using wf by (simp add: gst.look_upd wf_enter store_get_enter)
  then have cur: "current_state ?w1 (gc_session par) =
      recordDenied (entered par (store_get w (gc_session par))) (gc_call par) (call_policy par)"
    by (simp add: current_state_def)
  show ?thesis
  proof (cases "refusalsSpent (current_state ?w1 (gc_session par))")
    case True
    then show ?thesis
      using on wf cur
      by (simp add: run_event_def guardRefusedCall_def Let_def deniedCapDecision_def gst.look_upd wf_enter w1
          refused_state_def guard_simps)
  next
    case False
    then show ?thesis
      using on cur by (simp add: run_event_def guardRefusedCall_def Let_def deniedCapDecision_def w1 refused_state_def)
  qed
qed

lemma store_get_resumed:
  assumes "wf_world w"
  shows "store_get (run_event (Resumed n sid) w) j =
    (if j = sid then map_option resumed_state (store_get w j) else store_get w j)"
proof (cases "map_get (gw_states w) sid")
  case None
  then show ?thesis by (simp add: run_event_def beginDispatch_def store_get_def)
next
  case (Some a)
  then show ?thesis
    using assms by (simp add: run_event_def beginDispatch_def gst.look_upd resumed_state_def [abs_def])
qed

section \<open>The invariant of a session\<close>

lemma effective_finish: "effective_kind c p = KFinish \<longleftrightarrow> gl_tool c \<in> FINISH_TOOLS"
  by (auto simp: effective_kind_def classify_def)

lemma evaluate_None:
  "evaluateGuards s c p = None \<Longrightarrow> gl_tool c \<in> FINISH_TOOLS \<or>
     gs_toolCallCount s < gs_budget s \<and> \<not> refusalsSpent s \<and>
     (\<forall>C. gp_cumulativeBudget p = Some C \<longrightarrow> gs_totalToolCallCount s < C)"
  by (auto simp: evaluateGuards_def Let_def effective_finish deniedCapDecision_def split: if_splits option.splits)

lemma evaluate_Some:
  "evaluateGuards s c p = Some g \<Longrightarrow>
     g = AntiSelfScript \<and> effective_kind c p = KSelfScript \<or> g \<in> STOP_GUARDS \<or>
     g \<notin> STOP_GUARDS \<and> gs_toolCallCount s < gs_budget s \<and> \<not> refusalsSpent s"
  by (auto simp: evaluateGuards_def Let_def deniedCapDecision_def STOP_GUARDS_def split: if_splits option.splits)

text \<open>Stopped in the current dispatch round.\<close>

definition stopped_now :: "guard_state \<Rightarrow> bool" where
  "stopped_now s \<longleftrightarrow> map_option fst (gs_stopped s) = Some (gs_dispatches s)"

definition round_bound :: "guard_state \<Rightarrow> bool" where
  "round_bound s \<longleftrightarrow> stopped_now s \<or> gs_toolCallCount s + deniedThisDispatch s \<le> gs_budget s + refusalCap s"

text \<open>
  \<open>guard_inv C ns s\<close>: \<open>C\<close> bounds the cumulative budgets of the calls; \<open>ns\<close> adds the bound on
  executed plus refused calls, for sessions whose calls are no throwaway scripts.
\<close>

definition guard_inv :: "int \<Rightarrow> bool \<Rightarrow> guard_state \<Rightarrow> bool" where
  "guard_inv C ns s \<longleftrightarrow>
     1 \<le> gs_dispatches s \<and> 0 \<le> gs_toolCallCount s \<and> gs_toolCallCount s \<le> max 0 (gs_budget s) \<and>
     gs_totalToolCallCount s \<le> max 0 C \<and> 0 \<le> deniedThisDispatch s \<and>
     (\<forall>r c. gs_denied s = Some (r, c) \<longrightarrow> r \<le> gs_dispatches s) \<and>
     (\<forall>r g. gs_stopped s = Some (r, g) \<longrightarrow> r \<le> gs_dispatches s) \<and>
     (\<forall>r. gs_budgetRound s = Some r \<longrightarrow> r \<le> gs_dispatches s) \<and>
     (1 < gs_dispatches s \<longrightarrow> gs_budgetRound s \<noteq> Some (gs_dispatches s) \<longrightarrow>
        gs_toolCallCount s = 0 \<and> deniedThisDispatch s = 0) \<and>
     (ns \<longrightarrow> 0 \<le> gs_budget s \<and> round_bound s)"

definition good_call :: "int \<Rightarrow> bool \<Rightarrow> guard_call_params \<Rightarrow> bool" where
  "good_call C ns par \<longleftrightarrow> callMode par = Enforced \<and>
     guard_cumulative (gc_cfg par) (gc_profile par) \<le> C \<and>
     (ns \<longrightarrow> 0 \<le> guard_budget (gc_cfg par) (gc_profile par) \<and>
        effective_kind (gc_call par) (call_policy par) \<noteq> KSelfScript)"

definition good_event :: "int \<Rightarrow> bool \<Rightarrow> guard_event \<Rightarrow> bool" where
  "good_event C ns e =
     (case e of Called par _ \<Rightarrow> good_call C ns par | RefusedOutside par \<Rightarrow> good_call C ns par | Resumed _ _ \<Rightarrow> True)"

lemma policy_fields [simp]:
  "gp_budget (buildGuardPolicy cfg pf) = guard_budget cfg pf"
  "gp_cumulativeBudget (buildGuardPolicy cfg pf) = Some (guard_cumulative cfg pf)"
  "gp_cumulativeBudget (call_policy par) = Some (guard_cumulative (gc_cfg par) (gc_profile par))"
  by (simp_all add: buildGuardPolicy_def call_policy_def Let_def)

lemma denied_round_budget [simp]: "deniedThisDispatch (round_budget p s) = deniedThisDispatch s"
  by (rule denied_cong) (simp_all add: round_budget_def)

lemma entered_inv:
  assumes "good_call C ns par" and "\<And>st. s = Some st \<Longrightarrow> guard_inv C ns st"
  shows "guard_inv C ns (entered par s) \<and>
    (1 < gs_dispatches (entered par s) \<longrightarrow> gs_budgetRound (entered par s) = Some (gs_dispatches (entered par s)))"
proof (cases s)
  case None
  then show ?thesis
    using assms(1)
    by (simp add: entered_def newGuardState_def guard_inv_def round_bound_def refusalCap_def REFUSAL_CAP_def
        deniedThisDispatch_def good_call_def)
next
  case (Some st)
  define e where "e = round_budget (buildGuardPolicy (gc_cfg par) (gc_profile par)) st"
  have inv: "guard_inv C ns st" and e: "entered par s = e"
    using assms(2) [OF Some] Some by (auto simp: entered_def Let_def e_def)
  have f: "gs_dispatches e = gs_dispatches st" "gs_toolCallCount e = gs_toolCallCount st"
    "gs_totalToolCallCount e = gs_totalToolCallCount st" "gs_denied e = gs_denied st" "gs_stopped e = gs_stopped st"
    "deniedThisDispatch e = deniedThisDispatch st" "stopped_now e = stopped_now st"
    by (simp_all add: e_def stopped_now_def) (simp_all add: round_budget_def)
  show ?thesis
  proof (cases "1 < gs_dispatches st \<and> gs_budgetRound st \<noteq> Some (gs_dispatches st)")
    case True
    then have "gs_budget e = guard_budget (gc_cfg par) (gc_profile par)" "gs_budgetRound e = Some (gs_dispatches st)"
      by (simp_all add: e_def round_budget_def)
    with inv True assms(1) f show ?thesis
      by (auto simp: e guard_inv_def round_bound_def refusalCap_def REFUSAL_CAP_def good_call_def)
  next
    case False
    then have "e = st" by (auto simp: e_def round_budget_def)
    with inv False e show ?thesis by auto
  qed
qed

lemma after_inv:
  assumes "guard_inv C ns s" and "1 < gs_dispatches s \<longrightarrow> gs_budgetRound s = Some (gs_dispatches s)"
    and "classify c p = KFinish \<or> gs_toolCallCount s < gs_budget s \<and> \<not> refusalsSpent s \<and> gs_totalToolCallCount s < C"
  shows "guard_inv C ns (updateState s c ok p)"
proof -
  let ?t = "updateState s c ok p"
  have d: "deniedThisDispatch ?t = deniedThisDispatch s" by (rule denied_cong) (simp_all add: guard_simps)
  have f: "refusalCap ?t = refusalCap s" "stopped_now ?t = stopped_now s"
    by (simp_all add: refusalCap_def stopped_now_def guard_simps)
  show ?thesis
  proof (cases "classify c p = KFinish")
    case True
    then show ?thesis using assms(1,2) by (simp add: updateState_def)
  next
    case False
    with assms show ?thesis
      using refusalsSpent_dec [of s]
      by (auto simp: guard_inv_def round_bound_def guard_simps d f)
  qed
qed

lemma denied_inv:
  assumes inv: "guard_inv C ns s" and r: "1 < gs_dispatches s \<longrightarrow> gs_budgetRound s = Some (gs_dispatches s)"
    and t: "gs_budget t = gs_budget s" "gs_dispatches t = gs_dispatches s" "gs_toolCallCount t = gs_toolCallCount s"
      "gs_totalToolCallCount t = gs_totalToolCallCount s" "gs_budgetRound t = gs_budgetRound s"
      "gs_denied t = Some (gs_dispatches s, deniedThisDispatch s + 1)"
      "gs_stopped t = gs_stopped s \<or> (\<exists>g. gs_stopped t = Some (gs_dispatches s, g))"
    and b: "ns \<Longrightarrow> round_bound t"
  shows "guard_inv C ns t"
proof -
  have "deniedThisDispatch t = deniedThisDispatch s + 1" using t by (simp add: deniedThisDispatch_def)
  with inv r t b show ?thesis unfolding guard_inv_def by auto
qed

lemma deny_counts:
  "gs_budget (deny par d s) = gs_budget s" "gs_dispatches (deny par d s) = gs_dispatches s"
  "gs_toolCallCount (deny par d s) = gs_toolCallCount s"
  "gs_totalToolCallCount (deny par d s) = gs_totalToolCallCount s"
  "deniedThisDispatch (deny par d s) = deniedThisDispatch s + 1"
proof -
  have "deniedThisDispatch (deny par d s) = deniedThisDispatch (recordDenied s (gc_call par) (call_policy par))"
    by (rule denied_cong) (simp_all add: deny_def Let_def guard_simps)
  then show "deniedThisDispatch (deny par d s) = deniedThisDispatch s + 1" by (simp add: guard_simps)
qed (simp_all add: deny_def Let_def guard_simps)

lemma called_inv:
  assumes g: "good_call C ns par" and s: "\<And>st. s = Some st \<Longrightarrow> guard_inv C ns st"
  shows "guard_inv C ns (called_state par out s)"
proof -
  let ?e = "entered par s"
  have inv: "guard_inv C ns ?e" and r: "1 < gs_dispatches ?e \<longrightarrow> gs_budgetRound ?e = Some (gs_dispatches ?e)"
    using entered_inv [OF g s] by auto
  show ?thesis
  proof (cases "evaluateGuards ?e (gc_call par) (call_policy par)")
    case None
    then have "classify (gc_call par) p = KFinish \<or>
        gs_toolCallCount ?e < gs_budget ?e \<and> \<not> refusalsSpent ?e \<and> gs_totalToolCallCount ?e < C" for p
      using evaluate_None [OF None] g by (auto simp: classify_finish good_call_def)
    from after_inv [OF inv r this] None show ?thesis by (simp add: called_state_def Let_def)
  next
    case (Some d)
    have "round_bound (deny par d ?e)" if ns
    proof (cases "d \<in> STOP_GUARDS")
      case True
      then show ?thesis by (simp add: deny_def Let_def round_bound_def stopped_now_def)
    next
      case False
      with evaluate_Some [OF Some] g \<open>ns\<close>
      have lt: "gs_toolCallCount ?e < gs_budget ?e" "\<not> refusalsSpent ?e" by (auto simp: good_call_def)
      have "0 \<le> gs_budget ?e" "0 \<le> deniedThisDispatch ?e" using inv \<open>ns\<close> by (auto simp: guard_inv_def)
      from refusalsSpent_dec [OF lt(2) this lt(1)] False show ?thesis
        by (simp add: round_bound_def refusalCap_def deny_counts)
    qed
    then have "guard_inv C ns (deny par d ?e)"
      by (intro denied_inv [OF inv r]) (auto simp: deny_def Let_def guard_simps recordDenied_def)
    with Some g show ?thesis by (simp add: called_state_def Let_def good_call_def)
  qed
qed

lemma refused_inv:
  assumes g: "good_call C ns par" and s: "\<And>st. s = Some st \<Longrightarrow> guard_inv C ns st"
  shows "guard_inv C ns (refused_state par s)"
proof -
  let ?e = "entered par s"
  let ?d = "recordDenied ?e (gc_call par) (call_policy par)"
  have inv: "guard_inv C ns ?e" and r: "1 < gs_dispatches ?e \<longrightarrow> gs_budgetRound ?e = Some (gs_dispatches ?e)"
    using entered_inv [OF g s] by auto
  show ?thesis
  proof (cases "refusalsSpent ?d")
    case True
    with g have eq: "refused_state par s =
        (recordBlock ?d (Some DeniedCap))\<lparr>gs_stopped := Some (gs_dispatches ?d, DeniedCap)\<rparr>"
      by (simp add: refused_state_def good_call_def Let_def)
    show ?thesis
      unfolding eq by (intro denied_inv [OF inv r])
        (auto simp: guard_simps round_bound_def stopped_now_def recordDenied_def)
  next
    case False
    have "round_bound ?d" if ns
    proof -
      have "gs_toolCallCount ?d \<le> gs_budget ?d"
        using inv \<open>ns\<close> by (auto simp: guard_inv_def guard_simps)
      moreover have "deniedThisDispatch ?d < refusalCap ?d \<or> gs_toolCallCount ?d + deniedThisDispatch ?d < gs_budget ?d"
        using False by (auto simp: refusalsSpent_def)
      moreover have "0 \<le> refusalCap ?d"
        using inv \<open>ns\<close> by (auto simp: guard_inv_def guard_simps refusalCap_def REFUSAL_CAP_def)
      ultimately show ?thesis by (auto simp: round_bound_def)
    qed
    then have "guard_inv C ns ?d"
      by (intro denied_inv [OF inv r]) (auto simp: guard_simps recordDenied_def)
    with False show ?thesis by (simp add: refused_state_def Let_def)
  qed
qed

lemma resumed_inv: "guard_inv C ns s \<Longrightarrow> guard_inv C ns (resumed_state s)"
  by (auto simp: guard_inv_def resumed_state_def round_bound_def refusalCap_def REFUSAL_CAP_def
      deniedThisDispatch_def split: option.splits)

lemma event_inv:
  assumes wf: "wf_world w" and e: "good_event C ns e"
    and inv: "\<And>j st. store_get w j = Some st \<Longrightarrow> guard_inv C ns st"
    and st: "store_get (run_event e w) sid = Some st"
  shows "guard_inv C ns st"
proof (cases e)
  case (Called par out)
  with e have "callMode par \<noteq> Off" "good_call C ns par" by (auto simp: good_event_def good_call_def)
  with st inv called_inv [of C ns par "store_get w sid" out] show ?thesis
    unfolding Called store_get_called [OF wf \<open>callMode par \<noteq> Off\<close>] by (auto split: if_splits)
next
  case (RefusedOutside par)
  with e have "callMode par \<noteq> Off" "good_call C ns par" by (auto simp: good_event_def good_call_def)
  with st inv refused_inv [of C ns par "store_get w sid"] show ?thesis
    unfolding RefusedOutside store_get_refused [OF wf \<open>callMode par \<noteq> Off\<close>] by (auto split: if_splits)
next
  case (Resumed n k)
  with st inv resumed_inv show ?thesis
    unfolding Resumed store_get_resumed [OF wf] by (auto split: if_splits)
qed

lemma run_inv:
  assumes "\<forall>e \<in> set es. good_event C ns e" and "store_get (run_events es (empty_world h)) sid = Some st"
  shows "guard_inv C ns st"
proof -
  have main: "wf_world w \<Longrightarrow> (\<And>j st. store_get w j = Some st \<Longrightarrow> guard_inv C ns st) \<Longrightarrow>
      \<forall>e \<in> set es. good_event C ns e \<Longrightarrow> store_get (run_events es w) sid = Some st \<Longrightarrow> guard_inv C ns st" for w
  proof (induction es arbitrary: w)
    case Nil
    then show ?case by (simp add: run_events_def)
  next
    case (Cons e es)
    show ?case
    proof (rule Cons.IH)
      show "wf_world (run_event e w)" by (rule wf_event [OF Cons.prems(1)])
      show "guard_inv C ns s" if "store_get (run_event e w) j = Some s" for j s
        using event_inv [OF Cons.prems(1) _ Cons.prems(2) that] Cons.prems(3) by simp
    qed (use Cons.prems in \<open>simp_all add: run_events_def\<close>)
  qed
  show ?thesis
    by (rule main [OF wf_empty [of h] _ assms]) (simp add: store_get_def empty_world_def)
qed

section \<open>Bounds\<close>

text \<open>A concrete session for the witnesses: an enforced configuration with a budget of two calls.\<close>

definition demo_config :: router_config where
  "demo_config = \<lparr>cfg_presets = [], cfg_activePreset = [], cfg_enforcement = Some
     \<lparr>en_mode = Some Enforced, en_envGate = None, en_perTier = Map.empty,
      en_guard = Some \<lparr>gc_readDraftCap = None, gc_sameOpRetryCap = None, gc_blockSelfScript = None,
        gc_deliverableFirst = None, gc_budget = Some 2, gc_blockScriptWrites = None\<rparr>,
      en_escalate = None, en_trivialBypass = None\<rparr>\<rparr>"

definition demo_call :: "string \<Rightarrow> (string \<times> json) list \<Rightarrow> guard_call_params" where
  "demo_call tool args = \<lparr>gc_cfg = demo_config, gc_tier = None, gc_session = ''s'',
     gc_call = \<lparr>gl_tool = tool, gl_args = args\<rparr>, gc_env = Map.empty, gc_trivial = False, gc_profile = None,
     gc_cap = None, gc_taskClass = None, gc_now = 0\<rparr>"

definition demo_run :: "guard_event list" where
  "demo_run = map (\<lambda>f. Called (demo_call ''read'' [(''filePath'', JsText f)]) (Some ''ok'')) [''a'', ''b'', ''c'']"

definition demo_heap :: "nat \<Rightarrow> guard_state" where
  "demo_heap = (\<lambda>_. newGuardState (buildGuardPolicy demo_config None))"

lemma demo_good: "\<forall>e \<in> set demo_run. good_event 6 True e"
  by code_simp

lemma demo_result:
  "map_option (\<lambda>s. (gs_toolCallCount s, deniedThisDispatch s, gs_stopped s))
     (store_get (run_events demo_run (empty_world demo_heap)) ''s'') = Some (2, 1, Some (1, IterationCap))"
  by code_simp

text \<open>Refusals are bounded with the budget: when no call is a throwaway script, then in every
  dispatch the session is stopped, or the executed and the refused calls together stay within the
  budget plus the refusal cap, which is at most ten.\<close>

theorem guard_steps_bound:
  assumes "\<forall>e \<in> set es. good_event C True e"
    and "store_get (run_events es (empty_world h)) sid = Some st"
  shows "stopped_now st \<or>
    gs_toolCallCount st + deniedThisDispatch st \<le> gs_budget st + min (gs_budget st) REFUSAL_CAP"
  using run_inv [OF assms] by (simp add: guard_inv_def round_bound_def refusalCap_def)

theorem guard_steps_bound_witness:
  "\<exists>st. store_get (run_events demo_run (empty_world demo_heap)) ''s'' = Some st \<and>
     (stopped_now st \<or> gs_toolCallCount st + deniedThisDispatch st \<le> gs_budget st + min (gs_budget st) REFUSAL_CAP)"
proof -
  obtain st where "store_get (run_events demo_run (empty_world demo_heap)) ''s'' = Some st"
    using demo_result by auto
  with guard_steps_bound [OF demo_good this] show ?thesis by blast
qed

section \<open>Throwaway scripts\<close>

lemma run_events_Nil [simp]: "run_events [] w = w"
  by (simp add: run_events_def)

lemma run_events_snoc [simp]: "run_events (es @ [e]) w = run_event e (run_events es w)"
  by (simp add: run_events_def)

lemma wf_run: "wf_world w \<Longrightarrow> wf_world (run_events es w)"
  by (induction es arbitrary: w) (simp_all add: run_events_def wf_event)

text \<open>What is tracked for a session is the state object the store has for it (no sweep in between).\<close>

definition tracked_current :: "guard_world \<Rightarrow> bool" where
  "tracked_current w \<longleftrightarrow>
     (\<forall>sid a c. map_get (gw_tracked w) sid = Some (a, c) \<longrightarrow> map_get (gw_states w) sid = Some a)"

lemma tracked_current_cong:
  "gw_states w = gw_states v \<Longrightarrow> gw_tracked w = gw_tracked v \<Longrightarrow> tracked_current w = tracked_current v"
  by (simp add: tracked_current_def)

lemma tracked_mutate [simp]: "tracked_current (mutate k f w) = tracked_current w"
  by (rule tracked_current_cong) simp_all

lemma tracked_notes [simp]:
  "tracked_current (setPendingNote n sid note w) = tracked_current w"
  "tracked_current (snd (takePendingNote n sid w)) = tracked_current w"
  "tracked_current (touch n sid w) = tracked_current w"
  by (rule tracked_current_cong; simp add: setPendingNote_def takePendingNote_def Let_def)+

lemma tracked_ensure: "tracked_current w \<Longrightarrow> tracked_current (store_ensure n sid p w)"
proof (cases "map_get (gw_states w) sid")
  case None
  then show "tracked_current w \<Longrightarrow> ?thesis"
    by (auto simp: tracked_current_def store_ensure_def Let_def map_get_set)
next
  case (Some a)
  then show "tracked_current w \<Longrightarrow> ?thesis" by (simp add: store_ensure_def Let_def)
qed

lemma tracked_track:
  assumes wf: "wf_world w" and cur: "tracked_current w"
  shows "tracked_current (trackBudget sid c w)"
  unfolding tracked_current_def
proof (intro allI impI)
  fix j a d
  assume t: "map_get (gw_tracked (trackBudget sid c w)) j = Some (a, d)"
  show "map_get (gw_states (trackBudget sid c w)) j = Some a"
  proof (cases "map_get (gw_states w) sid")
    case None
    with t cur show ?thesis by (auto simp: trackBudget_def tracked_current_def)
  next
    case (Some b)
    have "wf_map (gw_tracked w)" using wf by (simp add: wf_world_def)
    moreover have "map_get (remember sid (b, c) MAX_TRACKED_BUDGETS (gw_tracked w)) j = Some (a, d)"
      using t Some by (simp add: trackBudget_def)
    ultimately have "if j = sid then (a, d) = (b, c) else map_get (gw_tracked w) j = Some (a, d)"
      by (rule remember_get_sub)
    with Some cur show ?thesis by (auto simp: tracked_current_def split: if_splits)
  qed
qed

lemma tracked_enter: "wf_world w \<Longrightarrow> tracked_current w \<Longrightarrow> tracked_current (enter_call par w)"
  by (simp add: enter_call_def Let_def tracked_track tracked_ensure wf_ensure)

lemma tracked_event: "wf_world w \<Longrightarrow> tracked_current w \<Longrightarrow> tracked_current (run_event e w)"
  by (cases e)
    (auto simp: run_event_def guardBeforeCall_def guardAfterCall_def guardRefusedCall_def beginDispatch_def Let_def
      case_prod_beta tracked_enter split: option.split)

lemma tracked_run: "wf_world w \<Longrightarrow> tracked_current w \<Longrightarrow> tracked_current (run_events es w)"
  by (induction es arbitrary: w) (simp_all add: run_events_def tracked_event wf_event)

lemma tracked_empty: "tracked_current (empty_world h)"
  by (simp add: tracked_current_def empty_world_def)

lemma reachable_world:
  "wf_world (run_events es (empty_world h))" "tracked_current (run_events es (empty_world h))"
  by (simp_all add: wf_run wf_empty tracked_run tracked_empty)

lemma exhausted_stopped:
  "tracked_current w \<Longrightarrow> budgetExhausted w sid \<Longrightarrow> \<exists>s. store_get w sid = Some s \<and> stopped_now s"
  by (auto simp: budgetExhausted_def tracked_state_def tracked_current_def store_get_def stopped_now_def
      split: option.splits)

lemma exhausted_aliased:
  "aliased w sid \<Longrightarrow> store_get w sid = Some s \<Longrightarrow> budgetExhausted w sid \<longleftrightarrow> stopped_now s"
  by (simp add: budgetExhausted_def aliased_tracked stopped_now_def)

lemma evaluate_script: "effective_kind c p = KSelfScript \<Longrightarrow> evaluateGuards s c p = Some AntiSelfScript"
  by (simp add: evaluateGuards_def Let_def)

lemma run_scripts:
  assumes "callMode par = Enforced" and "effective_kind (gc_call par) (call_policy par) = KSelfScript" and "0 < n"
  shows "\<exists>s. store_get (run_events (replicate n (Called par out)) (empty_world h)) (gc_session par) = Some s \<and>
    gs_dispatches s = 1 \<and> gs_stopped s = None \<and> gs_toolCallCount s = 0 \<and> deniedThisDispatch s = int n"
  using \<open>0 < n\<close>
proof (induction n rule: nat_induct_non_zero)
  case 1
  have "store_get (empty_world h) j = None" for j by (simp add: store_get_def empty_world_def)
  with assms show ?case
    using store_get_called [OF wf_empty, of par out h]
    by (simp add: run_events_def called_state_def evaluate_script deny_def STOP_GUARDS_def entered_def Let_def
        newGuardState_def guard_simps) (simp add: deniedThisDispatch_def recordDenied_def recordBlock_def)
next
  case (Suc n)
  then obtain s where s: "store_get (run_events (replicate n (Called par out)) (empty_world h)) (gc_session par) = Some s"
    "gs_dispatches s = 1" "gs_stopped s = None" "gs_toolCallCount s = 0" "deniedThisDispatch s = int n" by auto
  have e: "entered par (Some s) = s" using s(2) by (simp add: entered_def Let_def round_budget_def)
  have "replicate (Suc n) (Called par out) = replicate n (Called par out) @ [Called par out]"
    by (simp add: replicate_append_same)
  then show ?case
    using s assms store_get_called [OF reachable_world(1), of par]
    by (simp add: called_state_def evaluate_script e Let_def deny_counts) (simp add: deny_def STOP_GUARDS_def guard_simps)
qed

text \<open>A child that keeps sending throwaway scripts is refused every time and never stopped: the
  script check comes before every counting guard and is no stop guard, so after any number of such
  calls the next one is refused by the same guard, the session is not reported as exhausted, and the
  refusals of the dispatch are as many as the calls, beyond the refusal cap.\<close>

theorem script_loop_never_stopped:
  assumes "callMode par = Enforced" and "effective_kind (gc_call par) (call_policy par) = KSelfScript"
  shows "let w = run_events (replicate n (Called par out)) (empty_world h) in
    br_block (fst (guardBeforeCall par w)) \<and> br_guard (fst (guardBeforeCall par w)) = Some AntiSelfScript \<and>
    \<not> budgetExhausted w (gc_session par) \<and>
    (0 < n \<longrightarrow> map_option deniedThisDispatch (store_get w (gc_session par)) = Some (int n))"
proof -
  define w where "w = run_events (replicate n (Called par out)) (empty_world h)"
  have "\<not> budgetExhausted w (gc_session par)"
  proof
    assume "budgetExhausted w (gc_session par)"
    then obtain s where s: "store_get w (gc_session par) = Some s" "stopped_now s"
      unfolding w_def using exhausted_stopped [OF reachable_world(2)] by blast
    show False
    proof (cases "0 < n")
      case True
      from run_scripts [OF assms(1,2) this, of out h] s show False by (simp add: w_def stopped_now_def)
    next
      case False
      with s show False by (simp add: w_def store_get_def empty_world_def)
    qed
  qed
  moreover have "map_option deniedThisDispatch (store_get w (gc_session par)) = Some (int n)" if "0 < n"
    using run_scripts [OF assms(1,2) that, of out h] by (auto simp: w_def)
  moreover have "br_block (fst (guardBeforeCall par w)) \<and> br_guard (fst (guardBeforeCall par w)) = Some AntiSelfScript"
    using assms(1) evaluate_script [OF assms(2)] by (simp add: guardBeforeCall_def Let_def)
  ultimately show ?thesis by (simp add: w_def Let_def)
qed

definition demo_script :: guard_call_params where
  "demo_script = demo_call ''bash'' [(''command'', JsText ''node -e 1'')]"

lemma demo_script_kind: "callMode demo_script = Enforced"
  "effective_kind (gc_call demo_script) (call_policy demo_script) = KSelfScript"
  by code_simp+

theorem script_loop_never_stopped_witness:
  "map_option deniedThisDispatch
     (store_get (run_events (replicate 50 (Called demo_script None)) (empty_world demo_heap)) (gc_session demo_script)) =
     Some 50"
  using script_loop_never_stopped [OF demo_script_kind, where n = 50 and out = None and h = demo_heap]
  by (simp add: Let_def)

end
