(* ===== verification/Guard_Rounds.thy ===== *)
theory Guard_Rounds
  imports Guard_Spec
begin

text \<open>
  Refusals, resumes and sessions: what a refusal does not charge, when a session counts as stopped,
  that a resume clears a stop as long as the store still has the session, and that sessions do not
  see each other. Holds for every mode, also when calls of different modes are mixed.
\<close>

section \<open>Transitions in every mode\<close>

definition event_session :: "guard_event \<Rightarrow> string" where
  "event_session e = (case e of Called par _ \<Rightarrow> gc_session par | RefusedOutside par \<Rightarrow> gc_session par | Resumed _ s \<Rightarrow> s)"

lemma store_get_called_off:
  assumes "wf_world w" and "callMode par = Off"
  shows "store_get (run_event (Called par out) w) j =
    (if j = gc_session par
     then map_option (\<lambda>s. updateState s (gc_call par) (observationOk out) (buildGuardPolicy (gc_cfg par) (gc_profile par)))
            (store_get w j)
     else store_get w j)"
  using assms by (cases "store_get w (gc_session par)")
    (simp_all add: run_event_def guardBeforeCall_def guardAfterCall_def Let_def gst.look_upd)

lemma store_get_refused_off:
  "callMode par = Off \<Longrightarrow> run_event (RefusedOutside par) w = w"
  by (simp add: run_event_def guardRefusedCall_def Let_def)

lemma store_get_other:
  assumes wf: "wf_world w" and "event_session e \<noteq> j"
  shows "store_get (run_event e w) j = store_get w j"
proof (cases e)
  case (Called par out)
  with assms show ?thesis
    by (cases "callMode par = Off")
      (simp_all add: event_session_def store_get_called store_get_called_off)
next
  case (RefusedOutside par)
  with assms show ?thesis
    by (cases "callMode par = Off") (simp_all add: event_session_def store_get_refused store_get_refused_off)
next
  case (Resumed n sid)
  with assms show ?thesis by (simp add: event_session_def store_get_resumed)
qed

text \<open>A stop is never recorded for a later round than the current one.\<close>

definition rounds_ok :: "guard_state \<Rightarrow> bool" where
  "rounds_ok s \<longleftrightarrow> (\<forall>r g. gs_stopped s = Some (r, g) \<longrightarrow> r \<le> gs_dispatches s)"

lemma rounds_entered: "(\<And>st. s = Some st \<Longrightarrow> rounds_ok st) \<Longrightarrow> rounds_ok (entered par s)"
  by (cases s) (simp_all add: entered_def Let_def rounds_ok_def newGuardState_def round_budget_def)

lemma rounds_called: "rounds_ok (entered par s) \<Longrightarrow> rounds_ok (called_state par out s)"
  by (auto simp: called_state_def Let_def rounds_ok_def deny_def guard_simps split: option.split)

lemma rounds_refused: "rounds_ok (entered par s) \<Longrightarrow> rounds_ok (refused_state par s)"
  by (auto simp: refused_state_def Let_def rounds_ok_def guard_simps)

lemma rounds_event:
  assumes wf: "wf_world w" and ok: "\<And>j st. store_get w j = Some st \<Longrightarrow> rounds_ok st"
    and st: "store_get (run_event e w) j = Some st"
  shows "rounds_ok st"
proof (cases "event_session e = j")
  case False
  then show ?thesis using st ok store_get_other [OF wf] by simp
next
  case True
  have ent: "rounds_ok (entered par (store_get w j))" for par
    by (rule rounds_entered) (rule ok)
  show ?thesis
  proof (cases e)
    case (Called par out)
    show ?thesis
    proof (cases "callMode par = Off")
      case True
      with \<open>event_session e = j\<close> Called st ok [of j] wf show ?thesis
        by (auto simp: event_session_def store_get_called_off rounds_ok_def guard_simps)
    next
      case False
      with \<open>event_session e = j\<close> Called st wf rounds_called [OF ent [of par], of out] show ?thesis
        by (auto simp: event_session_def store_get_called)
    qed
  next
    case (RefusedOutside par)
    with True st ok [of j] wf rounds_refused [OF ent [of par]] show ?thesis
      by (cases "callMode par = Off")
        (auto simp: event_session_def store_get_refused_off store_get_refused)
  next
    case (Resumed n sid)
    with True st ok [of sid] show ?thesis
      by (auto simp: event_session_def store_get_resumed [OF wf] resumed_state_def rounds_ok_def)
  qed
qed

lemma rounds_run:
  assumes "store_get (run_events es (empty_world h)) sid = Some st"
  shows "rounds_ok st"
  using assms
proof (induction es arbitrary: sid st rule: rev_induct)
  case Nil
  then show ?case by (simp add: store_get_def empty_world_def)
next
  case (snoc e es)
  show ?case
    by (rule rounds_event [OF reachable_world(1) snoc.IH]) (use snoc.prems in \<open>simp_all\<close>)
qed

section \<open>Properties\<close>

text \<open>A resume clears a stop: after any history of calls, refusals and resumes in any modes, a
  session that is resumed while the store has its state no longer counts as exhausted.\<close>

theorem resume_clears_stop:
  "\<not> budgetExhausted (beginDispatch now sid (run_events es (empty_world h))) sid"
proof
  let ?w = "run_events es (empty_world h)"
  assume ex: "budgetExhausted (beginDispatch now sid ?w) sid"
  have eq: "beginDispatch now sid ?w = run_event (Resumed now sid) ?w" by (simp add: run_event_def)
  have "tracked_current (beginDispatch now sid ?w)"
    unfolding eq by (rule tracked_event [OF reachable_world])
  from exhausted_stopped [OF this ex] obtain s where
    s: "store_get (beginDispatch now sid ?w) sid = Some s" "stopped_now s" by blast
  then obtain st where st: "store_get ?w sid = Some st" "s = resumed_state st"
    unfolding eq store_get_resumed [OF reachable_world(1)] by auto
  from rounds_run [OF st(1)] s(2) st(2) show False
    by (auto simp: rounds_ok_def stopped_now_def resumed_state_def)
qed

text \<open>After an idle eviction it does not: the sweep drops the stopped session's state from the store,
  the tracking map keeps the old object, the resume finds nothing to reset, and the session is still
  reported as exhausted.\<close>

theorem evicted_session_stays_exhausted:
  "let w = sweep 100 100 (run_events demo_run (empty_world demo_heap)) in
   store_get w ''s'' = None \<and> budgetExhausted w ''s'' \<and> budgetExhausted (beginDispatch 100 ''s'' w) ''s''"
  by code_simp

text \<open>A refusal charges nothing: when a call is refused, the mode is enforced, the tool is no
  finishing tool, the budgets, call counts, streak, repeat records and deliverable flag are those of
  the session before, the refusals of the dispatch go up by one, and the session counts as exhausted
  exactly when a stop guard refused the call or it was stopped already.\<close>

theorem refused_call_not_charged:
  assumes "br_block (fst (guardBeforeCall par (run_events es (empty_world h))))"
  shows "let w = run_events es (empty_world h); (r, w') = guardBeforeCall par w;
             s = entered par (store_get w (gc_session par)); t = current_state w' (gc_session par)
    in callMode par = Enforced \<and> gl_tool (gc_call par) \<notin> FINISH_TOOLS \<and>
       gs_budget t = gs_budget s \<and> gs_dispatches t = gs_dispatches s \<and>
       gs_toolCallCount t = gs_toolCallCount s \<and> gs_totalToolCallCount t = gs_totalToolCallCount s \<and>
       gs_consecutiveNonProducing t = gs_consecutiveNonProducing s \<and> gs_seen t = gs_seen s \<and>
       gs_deliverableExecuted t = gs_deliverableExecuted s \<and>
       deniedThisDispatch t = deniedThisDispatch s + 1 \<and>
       (budgetExhausted w' (gc_session par) \<longleftrightarrow> the (br_guard r) \<in> STOP_GUARDS \<or> stopped_now s)"
proof -
  define w where "w = run_events es (empty_world h)"
  define s where "s = entered par (store_get w (gc_session par))"
  have wf: "wf_world w" by (simp add: w_def reachable_world)
  have cur: "current_state (enter_call par w) (gc_session par) = s"
    by (simp add: s_def current_enter [OF wf])
  obtain g where mode: "callMode par = Enforced" and g: "evaluateGuards s (gc_call par) (call_policy par) = Some g"
    using assms unfolding w_def [symmetric] by (auto simp: guardBeforeCall_def Let_def cur split: option.splits if_splits)
  define w' where "w' = mutate (gc_session par) (deny par g) (enter_call par w)"
  have before: "snd (guardBeforeCall par w) = w'" "br_guard (fst (guardBeforeCall par w)) = Some g"
    using mode g by (simp_all add: guardBeforeCall_def Let_def cur w'_def)
  have t: "store_get w' (gc_session par) = Some (deny par g s)"
    using wf by (simp add: w'_def gst.look_upd wf_enter store_get_enter s_def)
  have "aliased (enter_call par w) (gc_session par)"
    unfolding enter_call_def Let_def by (rule aliased_track) (simp_all add: wf wf_ensure store_get_ensure)
  then have ex: "budgetExhausted w' (gc_session par) = stopped_now (deny par g s)"
    using t by (intro exhausted_aliased) (simp_all add: w'_def)
  have fin: "gl_tool (gc_call par) \<notin> FINISH_TOOLS"
    using g by (auto simp: evaluateGuards_def Let_def effective_finish)
  have keep: "gs_consecutiveNonProducing (deny par g s) = gs_consecutiveNonProducing s"
    "gs_seen (deny par g s) = gs_seen s" "gs_deliverableExecuted (deny par g s) = gs_deliverableExecuted s"
    "stopped_now (deny par g s) \<longleftrightarrow> g \<in> STOP_GUARDS \<or> stopped_now s"
    by (simp_all add: deny_def Let_def guard_simps stopped_now_def)
  show ?thesis
    using mode fin ex keep t before
    by (simp add: w_def [symmetric] s_def [symmetric] Let_def case_prod_beta current_state_def deny_counts)
qed

theorem refused_call_not_charged_witness:
  "let w = run_events demo_run (empty_world demo_heap); par = demo_call ''grep'' [(''pattern'', JsText ''x'')];
       (r, w') = guardBeforeCall par w
   in br_guard r = Some IterationCap \<and> budgetExhausted w' (gc_session par)"
proof -
  let ?par = "demo_call ''grep'' [(''pattern'', JsText ''x'')]"
  let ?w = "run_events demo_run (empty_world demo_heap)"
  have b: "br_block (fst (guardBeforeCall ?par ?w))" by code_simp
  have g: "br_guard (fst (guardBeforeCall ?par ?w)) = Some IterationCap" by code_simp
  show ?thesis
    using refused_call_not_charged [OF b] g by (simp add: Let_def case_prod_beta STOP_GUARDS_def)
qed

text \<open>Sessions are isolated: whatever other sessions do, in whatever mode, a session's guard state
  stays as it was.\<close>

theorem sessions_isolated:
  assumes "\<forall>e \<in> set es. event_session e \<noteq> sid"
  shows "store_get (run_events (before @ es) (empty_world h)) sid = store_get (run_events before (empty_world h)) sid"
  using assms
proof (induction es rule: rev_induct)
  case Nil
  then show ?case by simp
next
  case (snoc e es)
  then show ?case
    using store_get_other [OF reachable_world(1), of e sid "before @ es" h]
    by (simp add: run_events_snoc [of "before @ es" e, simplified])
qed

theorem sessions_isolated_witness:
  "store_get (run_events (demo_run @ [Resumed 1 ''other'']) (empty_world demo_heap)) ''s'' =
   store_get (run_events demo_run (empty_world demo_heap)) ''s''"
  by (rule sessions_isolated) (simp add: event_session_def)

section \<open>Role budgets\<close>

lemma positiveBudget_int: "1 \<le> b \<Longrightarrow> positiveBudget (Fin (of_int b)) = Some b"
  by simp

lemma positiveBudget_pos: "positiveBudget x = Some b \<Longrightarrow> 1 \<le> b"
  by (cases x) (auto split: if_splits)

lemma role_base_pos: "1 \<le> role_base_budget role tier"
  by (auto simp: role_base_budget_def ownBudget_def TIER_GUARD_BUDGET_def or_else_def max_def
      dest!: positiveBudget_pos split: option.split Option.bind_split)

lemma raised_bounds:
  "1 \<le> base \<Longrightarrow> base \<le> raisedBudget base rb \<and> raisedBudget base rb \<le> 2 * base"
  by (auto simp: raisedBudget_def ROUTE_BUDGET_RAISE_MAX_def split: option.split)

text \<open>The budget a dispatch asks for is bounded: the guard of a role runs with its base budget for
  the tier, or with a requested raise clamped between that and twice that; the cumulative budget is
  three times it; without a usable request it is the base.\<close>

theorem role_budget_bounds:
  "let b = guard_budget cfg (Some (roleGuardProfile role tier rb)); base = role_base_budget role tier in
   base \<le> b \<and> b \<le> 2 * base \<and> 1 \<le> b \<and>
   guard_cumulative cfg (Some (roleGuardProfile role tier rb)) = 3 * b \<and>
   b = (case Option.bind rb positiveBudget of None \<Rightarrow> base | Some asked \<Rightarrow> min (max base asked) (2 * base))"
proof -
  let ?b = "raisedBudget (role_base_budget role tier) rb"
  have b: "role_base_budget role tier \<le> ?b" "?b \<le> 2 * role_base_budget role tier" "1 \<le> ?b"
    using raised_bounds [OF role_base_pos, of role tier rb] role_base_pos [of role tier] by auto
  then have "positiveBudget (Fin (of_int ?b)) = Some ?b" "positiveBudget (Fin (of_int (?b * 3))) = Some (?b * 3)"
    by (intro positiveBudget_int; simp)+
  with b show ?thesis
    by (simp add: guard_budget_def guard_cumulative_def roleGuardProfile_def Let_def GUARD_CUMULATIVE_MULTIPLIER_def
        or_else_def del: positiveBudget.simps)
      (simp add: raisedBudget_def ROUTE_BUDGET_RAISE_MAX_def mult.commute split: option.split)
qed

end
