(* ===== verification/Guard_Calls.thy ===== *)
theory Guard_Calls
  imports Guard_Rounds
begin

text \<open>
  The guard as the host drives it: the before-hook and the after-hook of a call are events of their own, so the calls of a
  session may overlap, and a call whose tool throws has no after-hook. The idle sweep (\<^verbatim>\<open>index.ts\<close>, chat.message) and
  \<open>clear\<close> (a finished producer) are events too. The calls that were let through are counted beside the guard's state, from
  what the before-hook answered: the budget is compared with these, not with the guard's own counters.
\<close>

section \<open>Events\<close>

datatype hook_event =
    Before guard_call_params
  | After guard_call_params "string option"
  | OutsideRefusal guard_call_params
  | Resume int string
  | IdleSweep int int
  | Clear string

definition run_hook :: "hook_event \<Rightarrow> guard_world \<Rightarrow> guard_world" where
  "run_hook e w =
     (case e of
        Before par \<Rightarrow> snd (guardBeforeCall par w)
      | After par out \<Rightarrow> snd (guardAfterCall par out w)
      | OutsideRefusal par \<Rightarrow> snd (guardRefusedCall par w)
      | Resume now sid \<Rightarrow> beginDispatch now sid w
      | IdleSweep now ttl \<Rightarrow> sweep now ttl w
      | Clear sid \<Rightarrow> evict sid w)"

definition let_through :: "guard_call_params \<Rightarrow> guard_world \<Rightarrow> bool" where
  "let_through par w \<longleftrightarrow> \<not> br_block (fst (guardBeforeCall par w))"

definition budgeted :: "guard_call \<Rightarrow> bool" where
  "budgeted call \<longleftrightarrow> gl_tool call \<notin> FINISH_TOOLS"

text \<open>
  The tally of a session: the budgeted calls let through whose after-hook has not run, how many were let through since the
  last resume and since the guard has its state, and the largest number that was ever open at once.
\<close>

record call_tally =
  ty_open :: "guard_call list"
  ty_round :: nat
  ty_life :: nat
  ty_peak :: nat

definition no_calls :: call_tally where
  "no_calls = \<lparr>ty_open = [], ty_round = 0, ty_life = 0, ty_peak = 0\<rparr>"

definition admit :: "guard_call \<Rightarrow> call_tally \<Rightarrow> call_tally" where
  "admit call t = t\<lparr>ty_open := call # ty_open t, ty_round := ty_round t + 1, ty_life := ty_life t + 1,
     ty_peak := max (ty_peak t) (length (ty_open t) + 1)\<rparr>"

definition forgotten :: "call_tally \<Rightarrow> call_tally" where
  "forgotten t = t\<lparr>ty_round := 0, ty_life := 0\<rparr>"

definition tally_event :: "hook_event \<Rightarrow> guard_world \<Rightarrow> (string \<Rightarrow> call_tally) \<Rightarrow> string \<Rightarrow> call_tally" where
  "tally_event e w ts =
     (case e of
        Before par \<Rightarrow>
          if let_through par w \<and> budgeted (gc_call par)
          then ts(gc_session par := admit (gc_call par) (ts (gc_session par))) else ts
      | After par _ \<Rightarrow>
          if budgeted (gc_call par)
          then ts(gc_session par := (ts (gc_session par))\<lparr>ty_open := remove1 (gc_call par) (ty_open (ts (gc_session par)))\<rparr>) else ts
      | OutsideRefusal _ \<Rightarrow> ts
      | Resume _ sid \<Rightarrow> ts(sid := (ts sid)\<lparr>ty_round := 0\<rparr>)
      | IdleSweep now ttl \<Rightarrow> (\<lambda>sid. if store_get (sweep now ttl w) sid = None then forgotten (ts sid) else ts sid)
      | Clear sid \<Rightarrow> ts(sid := forgotten (ts sid)))"

text \<open>Runs from a fresh plugin instance; \<open>host_order\<close>: an after-hook ends a call that was let through and is still open.\<close>

record hook_run =
  hr_world :: guard_world
  hr_tally :: "string \<Rightarrow> call_tally"

definition fresh_run :: "(nat \<Rightarrow> guard_state) \<Rightarrow> hook_run" where
  "fresh_run h = \<lparr>hr_world = empty_world h, hr_tally = (\<lambda>_. no_calls)\<rparr>"

definition run_step :: "hook_event \<Rightarrow> hook_run \<Rightarrow> hook_run" where
  "run_step e r = \<lparr>hr_world = run_hook e (hr_world r), hr_tally = tally_event e (hr_world r) (hr_tally r)\<rparr>"

definition run_hooks :: "hook_event list \<Rightarrow> hook_run \<Rightarrow> hook_run" where
  "run_hooks es r = fold run_step es r"

definition ends_open_call :: "hook_event \<Rightarrow> hook_run \<Rightarrow> bool" where
  "ends_open_call e r \<longleftrightarrow>
     (case e of After par _ \<Rightarrow> budgeted (gc_call par) \<longrightarrow> gc_call par \<in> set (ty_open (hr_tally r (gc_session par))) | _ \<Rightarrow> True)"

fun host_order :: "hook_event list \<Rightarrow> hook_run \<Rightarrow> bool" where
  "host_order [] r = True"
| "host_order (e # es) r = (ends_open_call e r \<and> host_order es (run_step e r))"

text \<open>The calls of the session are guarded in enforced mode, with cumulative budgets of at most \<open>C\<close>.\<close>

definition enforced_for :: "string \<Rightarrow> int \<Rightarrow> hook_event \<Rightarrow> bool" where
  "enforced_for sid C e \<longleftrightarrow>
     (case e of Before par \<Rightarrow> gc_session par = sid \<longrightarrow> good_call C False par
      | OutsideRefusal par \<Rightarrow> gc_session par = sid \<longrightarrow> good_call C False par
      | _ \<Rightarrow> True)"

text \<open>A host that runs one call at a time is the special case of \<^const>\<open>run_event\<close>.\<close>

lemma sequential_host:
  "run_event (Called par out) w =
     (if let_through par w then run_hook (After par out) (run_hook (Before par) w) else run_hook (Before par) w)"
  "run_event (RefusedOutside par) w = run_hook (OutsideRefusal par) w"
  "run_event (Resumed now sid) w = run_hook (Resume now sid) w"
  by (simp_all add: run_event_def run_hook_def let_through_def case_prod_beta)

section \<open>What an event does to a session\<close>

lemma wf_sweep: "wf_world w \<Longrightarrow> wf_world (sweep now ttl w)"
proof -
  have "wf_world v \<Longrightarrow> wf_world (fold (\<lambda>(sid, stamp) u. if ttl \<le> now - stamp then evict sid u else u) ts v)" for ts v
    by (induction ts arbitrary: v) (auto simp: wf_evict)
  then show "wf_world w \<Longrightarrow> wf_world (sweep now ttl w)" by (simp add: sweep_def)
qed

lemma wf_hook: "wf_world w \<Longrightarrow> wf_world (run_hook e w)"
  by (cases e) (auto simp: run_hook_def wf_before wf_after wf_sweep wf_evict guardRefusedCall_def Let_def wf_enter
      beginDispatch_def split: option.split)

lemma store_get_before:
  assumes wf: "wf_world w" and "callMode par = Enforced"
  shows "store_get (run_hook (Before par) w) j =
    (if j = gc_session par
     then Some (case evaluateGuards (entered par (store_get w j)) (gc_call par) (call_policy par) of
                  None \<Rightarrow> entered par (store_get w j) | Some g \<Rightarrow> deny par g (entered par (store_get w j)))
     else store_get w j)"
  using assms
  by (cases "evaluateGuards (entered par (store_get w (gc_session par))) (gc_call par) (call_policy par)")
    (simp_all add: run_hook_def guardBeforeCall_def Let_def current_enter store_get_enter gst.look_upd wf_enter)

lemma store_get_before_other:
  assumes wf: "wf_world w" and "j \<noteq> gc_session par"
  shows "store_get (run_hook (Before par) w) j = store_get w j"
  using assms
  by (simp add: run_hook_def guardBeforeCall_def Let_def store_get_enter gst.look_upd wf_enter split: option.split)

lemma store_get_after:
  assumes "wf_world w"
  shows "store_get (run_hook (After par out) w) j =
    (if j = gc_session par
     then map_option (\<lambda>s. updateState s (gc_call par) (observationOk out) (buildGuardPolicy (gc_cfg par) (gc_profile par)))
            (store_get w j)
     else store_get w j)"
  using assms by (cases "store_get w (gc_session par)") (simp_all add: run_hook_def guardAfterCall_def Let_def gst.look_upd)

lemma let_through_iff:
  assumes "wf_world w" and "callMode par = Enforced"
  shows "let_through par w \<longleftrightarrow>
    evaluateGuards (entered par (store_get w (gc_session par))) (gc_call par) (call_policy par) = None"
  using assms by (simp add: let_through_def guardBeforeCall_def Let_def current_enter split: option.split)

text \<open>An admitted call finds room in both budgets.\<close>

lemma admitted_room:
  assumes "evaluateGuards s call policy = None" and "budgeted call" and "gp_cumulativeBudget policy = Some B"
  shows "gs_toolCallCount s < gs_budget s" and "gs_totalToolCallCount s < B"
  using evaluate_None [OF assms(1)] assms(2,3) by (auto simp: budgeted_def)

section \<open>The tally and the counters\<close>

text \<open>
  The guard's counters lag behind the calls let through by those still open; so the calls let through stay below the budget
  plus the calls that were open at once.
\<close>

definition tally_inv :: "int \<Rightarrow> call_tally \<Rightarrow> guard_state \<Rightarrow> bool" where
  "tally_inv C t s \<longleftrightarrow>
     int (ty_round t) \<le> gs_toolCallCount s + int (length (ty_open t)) \<and>
     int (ty_life t) \<le> gs_totalToolCallCount s + int (length (ty_open t)) \<and>
     (ty_round t = 0 \<or> int (ty_round t) < gs_budget s + int (ty_peak t)) \<and>
     (ty_life t = 0 \<or> int (ty_life t) < C + int (ty_peak t)) \<and>
     (ty_round t = 0 \<or> gs_dispatches s \<le> 1 \<or> gs_budgetRound s = Some (gs_dispatches s))"

definition session_inv :: "int \<Rightarrow> call_tally \<Rightarrow> guard_state option \<Rightarrow> bool" where
  "session_inv C t s \<longleftrightarrow> (case s of None \<Rightarrow> ty_round t = 0 \<and> ty_life t = 0 | Some st \<Rightarrow> tally_inv C t st)"

lemma tally_cong:
  "\<lbrakk>tally_inv C t s; gs_toolCallCount s' = gs_toolCallCount s; gs_totalToolCallCount s' = gs_totalToolCallCount s;
    gs_budget s' = gs_budget s; gs_dispatches s' = gs_dispatches s; gs_budgetRound s' = gs_budgetRound s\<rbrakk> \<Longrightarrow> tally_inv C t s'"
  by (simp add: tally_inv_def)

lemma deny_rounds [simp]: "gs_budgetRound (deny par g s) = gs_budgetRound s"
  by (simp add: deny_def Let_def guard_simps)

lemma tally_entered:
  assumes "session_inv C t s"
  shows "tally_inv C t (entered par s)"
    and "gs_dispatches (entered par s) \<le> 1 \<or> gs_budgetRound (entered par s) = Some (gs_dispatches (entered par s))"
  using assms
  by (auto simp: session_inv_def tally_inv_def entered_def Let_def newGuardState_def round_budget_def split: option.splits)

lemma tally_deny: "tally_inv C t s \<Longrightarrow> tally_inv C t (deny par g s)"
  by (erule tally_cong) (simp_all add: deny_counts)

lemma tally_refused: "tally_inv C t (entered par s) \<Longrightarrow> tally_inv C t (refused_state par s)"
  by (erule tally_cong)
    (simp_all add: refused_state_def Let_def guard_simps)

lemma tally_admit:
  assumes "tally_inv C t s" and "gs_toolCallCount s < gs_budget s" and "gs_totalToolCallCount s < C"
    and "gs_dispatches s \<le> 1 \<or> gs_budgetRound s = Some (gs_dispatches s)"
  shows "tally_inv C (admit call t) s"
  using assms by (auto simp: tally_inv_def admit_def)

lemma tally_update:
  assumes "tally_inv C t s" and "budgeted call \<Longrightarrow> call \<in> set (ty_open t)"
  shows "tally_inv C (if budgeted call then t\<lparr>ty_open := remove1 call (ty_open t)\<rparr> else t) (updateState s call ok policy)"
proof (cases "budgeted call")
  case True
  then have "length (ty_open t) = Suc (length (remove1 call (ty_open t)))"
    using assms(2) length_pos_if_in_set [of call "ty_open t"] by (simp add: length_remove1)
  with True assms(1) show ?thesis by (auto simp: tally_inv_def guard_simps classify_finish budgeted_def)
next
  case False
  with assms(1) show ?thesis by (auto simp: tally_inv_def guard_simps classify_finish budgeted_def)
qed

lemma tally_resume: "tally_inv C t s \<Longrightarrow> tally_inv C (t\<lparr>ty_round := 0\<rparr>) (resumed_state s)"
  by (simp add: tally_inv_def resumed_state_def)

text \<open>One event keeps the invariant of a session, in any order the host may choose.\<close>

lemma step_inv:
  assumes wf: "wf_world (hr_world r)" and good: "enforced_for sid C e" and ord: "ends_open_call e r"
    and inv: "session_inv C (hr_tally r sid) (store_get (hr_world r) sid)"
  shows "session_inv C (hr_tally (run_step e r) sid) (store_get (hr_world (run_step e r)) sid)"
proof (cases e)
  case (Before par)
  show ?thesis
  proof (cases "gc_session par = sid")
    case True
    with good Before have mode: "callMode par = Enforced" and cum: "guard_cumulative (gc_cfg par) (gc_profile par) \<le> C"
      by (auto simp: enforced_for_def good_call_def)
    note get = store_get_before [OF wf mode, of sid] and through = let_through_iff [OF wf mode]
    note ent = tally_entered [OF inv, of par]
    show ?thesis
    proof (cases "evaluateGuards (entered par (store_get (hr_world r) sid)) (gc_call par) (call_policy par)")
      case None
      have "tally_inv C (admit (gc_call par) (hr_tally r sid)) (entered par (store_get (hr_world r) sid))"
        if b: "budgeted (gc_call par)"
      proof (rule tally_admit [OF ent(1) _ _ ent(2)])
        note room = admitted_room [OF None b policy_fields(3)]
        show "gs_toolCallCount (entered par (store_get (hr_world r) sid)) < gs_budget (entered par (store_get (hr_world r) sid))"
          by (rule room(1))
        show "gs_totalToolCallCount (entered par (store_get (hr_world r) sid)) < C" using room(2) cum by simp
      qed
      with None True ent(1) through get Before show ?thesis
        by (simp add: run_step_def tally_event_def session_inv_def)
    next
      case (Some g)
      with True tally_deny [OF ent(1)] through get Before show ?thesis
        by (simp add: run_step_def tally_event_def session_inv_def)
    qed
  next
    case False
    with inv Before wf show ?thesis by (simp add: run_step_def tally_event_def store_get_before_other)
  qed
next
  case (After par out)
  show ?thesis
  proof (cases "gc_session par = sid")
    case True
    with ord After have "budgeted (gc_call par) \<Longrightarrow> gc_call par \<in> set (ty_open (hr_tally r sid))"
      by (auto simp: ends_open_call_def)
    note upd = tally_update [OF _ this]
    show ?thesis
    proof (cases "store_get (hr_world r) sid")
      case None
      with inv True After wf show ?thesis by (simp add: run_step_def tally_event_def session_inv_def store_get_after)
    next
      case (Some st)
      with inv have "tally_inv C (hr_tally r sid) st" by (simp add: session_inv_def)
      from upd [OF this] Some True After wf show ?thesis
        by (cases "budgeted (gc_call par)") (simp_all add: run_step_def tally_event_def session_inv_def store_get_after)
    qed
  next
    case False
    with inv After wf show ?thesis by (simp add: run_step_def tally_event_def store_get_after)
  qed
next
  case (OutsideRefusal par)
  have eq: "run_hook (OutsideRefusal par) (hr_world r) = run_event (RefusedOutside par) (hr_world r)"
    by (simp add: sequential_host)
  show ?thesis
  proof (cases "gc_session par = sid")
    case True
    with good OutsideRefusal have "callMode par \<noteq> Off" by (auto simp: enforced_for_def good_call_def)
    with True OutsideRefusal tally_refused [OF tally_entered(1) [OF inv]] show ?thesis
      by (simp add: run_step_def tally_event_def session_inv_def eq store_get_refused [OF wf])
  next
    case False
    with inv OutsideRefusal store_get_other [OF wf, of "RefusedOutside par" sid] show ?thesis
      by (simp add: run_step_def tally_event_def eq event_session_def)
  qed
next
  case (Resume now j)
  have "store_get (run_hook (Resume now j) (hr_world r)) sid =
      (if sid = j then map_option resumed_state (store_get (hr_world r) sid) else store_get (hr_world r) sid)"
    using store_get_resumed [OF wf, of now j sid] by (simp add: sequential_host)
  with inv Resume show ?thesis
    by (auto simp: run_step_def tally_event_def session_inv_def tally_resume split: option.splits)
next
  case (IdleSweep now ttl)
  with inv show ?thesis
    by (auto simp: run_step_def tally_event_def run_hook_def session_inv_def forgotten_def store_get_sweep split: if_splits)
next
  case (Clear j)
  with inv show ?thesis
    by (auto simp: run_step_def tally_event_def run_hook_def session_inv_def forgotten_def store_get_evict)
qed

lemma run_hooks_inv:
  assumes "wf_world (hr_world r)" and "\<forall>e \<in> set es. enforced_for sid C e" and "host_order es r"
    and "session_inv C (hr_tally r sid) (store_get (hr_world r) sid)"
  shows "session_inv C (hr_tally (run_hooks es r) sid) (store_get (hr_world (run_hooks es r)) sid)"
  using assms
proof (induction es arbitrary: r)
  case (Cons e es)
  have "session_inv C (hr_tally (run_hooks es (run_step e r)) sid) (store_get (hr_world (run_hooks es (run_step e r))) sid)"
    by (rule Cons.IH) (use Cons.prems step_inv [of r sid C e] in \<open>auto simp: run_step_def wf_hook\<close>)
  then show ?case by (simp add: run_hooks_def)
qed (simp add: run_hooks_def)

lemma wf_hooks: "wf_world (hr_world r) \<Longrightarrow> wf_world (hr_world (run_hooks es r))"
  by (induction es arbitrary: r) (simp_all add: run_hooks_def run_step_def wf_hook)

lemma entered_entered: "entered par (Some (entered par s)) = entered par s"
  by (cases s) (auto simp: entered_def Let_def newGuardState_def round_budget_def)

section \<open>Properties\<close>

text \<open>
  (C21) The budget bounds the calls that are let through. Whatever the host does in enforced mode (calls that overlap or never
  end, refusals, resumes, idle sweeps, cleared sessions, any other sessions), count the calls the before-hook let through, the
  finishing tools aside: since a session's last resume they are fewer than its budget plus the largest number of its calls that
  were open at once, and since the guard has its state fewer than the cumulative budget plus that number. With one call at a
  time the bounds are the budgets themselves.
\<close>

theorem let_through_within_budget:
  assumes "\<forall>e \<in> set es. enforced_for sid C e" and "host_order es (fresh_run h)"
    and "r = run_hooks es (fresh_run h)" and "store_get (hr_world r) sid = Some st"
  shows "(ty_round (hr_tally r sid) = 0 \<or>
        int (ty_round (hr_tally r sid)) < gs_budget st + int (ty_peak (hr_tally r sid))) \<and>
    (ty_life (hr_tally r sid) = 0 \<or> int (ty_life (hr_tally r sid)) < C + int (ty_peak (hr_tally r sid))) \<and>
    (ty_peak (hr_tally r sid) \<le> 1 \<longrightarrow>
       int (ty_round (hr_tally r sid)) \<le> max 0 (gs_budget st) \<and> int (ty_life (hr_tally r sid)) \<le> max 0 C)"
proof -
  have "session_inv C (hr_tally r sid) (store_get (hr_world r) sid)"
    unfolding assms(3)
    by (rule run_hooks_inv [OF _ assms(1,2)])
      (simp_all add: fresh_run_def wf_empty, simp add: session_inv_def no_calls_def store_get_def empty_world_def)
  with assms(4) show ?thesis by (auto simp: session_inv_def tally_inv_def)
qed

text \<open>Two reads in turn on a budget of two; the third is refused. Then a resume, and a read that is never ended.\<close>

definition demo_hooks :: "hook_event list" where
  "demo_hooks = (let c = (\<lambda>f. demo_call ''read'' [(''filePath'', JsText f)]) in
     [Before (c ''a''), After (c ''a'') (Some ''ok''), Before (c ''b''), After (c ''b'') (Some ''ok''), Before (c ''c''),
      Resume 1 ''s'', Before (c ''d'')])"

theorem let_through_within_budget_witness:
  "\<exists>st. store_get (hr_world (run_hooks demo_hooks (fresh_run demo_heap))) ''s'' = Some st \<and>
     ty_round (hr_tally (run_hooks demo_hooks (fresh_run demo_heap)) ''s'') = 1 \<and>
     ty_life (hr_tally (run_hooks demo_hooks (fresh_run demo_heap)) ''s'') = 3 \<and>
     int (ty_round (hr_tally (run_hooks demo_hooks (fresh_run demo_heap)) ''s'')) \<le> max 0 (gs_budget st) \<and>
     int (ty_life (hr_tally (run_hooks demo_hooks (fresh_run demo_heap)) ''s'')) \<le> 6"
proof -
  let ?r = "run_hooks demo_hooks (fresh_run demo_heap)"
  have good: "\<forall>e \<in> set demo_hooks. enforced_for ''s'' 6 e" by code_simp
  have ord: "host_order demo_hooks (fresh_run demo_heap)" by code_simp
  have t: "ty_round (hr_tally ?r ''s'') = 1" "ty_life (hr_tally ?r ''s'') = 3" "ty_peak (hr_tally ?r ''s'') \<le> 1"
    by code_simp+
  have "store_get (hr_world ?r) ''s'' \<noteq> None" by code_simp
  then obtain st where st: "store_get (hr_world ?r) ''s'' = Some st" by blast
  from let_through_within_budget [OF good ord refl st] t st show ?thesis by simp
qed

text \<open>
  (C17) A call is charged when it ends, not when it is let through. When a budgeted call is let through in enforced mode, any
  number of copies of it are let through before one of them ends, whatever the budget; none of them is counted, and
  the session's guard state is the one the first of them found. So calls of one session that the host runs at the same time
  can exceed the budget, by as many as are open at once.
\<close>

theorem overlapping_calls_uncounted:
  assumes "r = run_hooks es (fresh_run h)" and "callMode par = Enforced" and "budgeted (gc_call par)"
    and "let_through par (hr_world r)" and "r' = run_hooks (replicate (Suc n) (Before par)) r"
  shows "let_through par (hr_world r') \<and>
    ty_round (hr_tally r' (gc_session par)) = ty_round (hr_tally r (gc_session par)) + Suc n \<and>
    store_get (hr_world r') (gc_session par) = Some (entered par (store_get (hr_world r) (gc_session par)))"
proof -
  let ?j = "gc_session par"
  have wf: "wf_world (hr_world (run_hooks es' (fresh_run h)))" for es'
    using wf_hooks [of "fresh_run h" es'] by (simp add: fresh_run_def wf_empty)
  let ?s = "entered par (store_get (hr_world r) ?j)"
  have again: "entered par (Some ?s) = ?s" by (rule entered_entered)
  have ev: "evaluateGuards ?s (gc_call par) (call_policy par) = None"
    using assms(4) let_through_iff [OF wf [of es, folded assms(1)] assms(2)] by simp
  have "store_get (hr_world (run_hooks (replicate (Suc n) (Before par)) r)) ?j = Some ?s \<and>
      ty_round (hr_tally (run_hooks (replicate (Suc n) (Before par)) r) ?j) = ty_round (hr_tally r ?j) + Suc n \<and>
      let_through par (hr_world (run_hooks (replicate (Suc n) (Before par)) r))"
  proof (induction n)
    case 0
    have w: "wf_world (hr_world r)" using wf [of es] assms(1) by simp
    with assms(2-4) ev show ?case
      using let_through_iff [OF wf_hook [OF w, of "Before par"] assms(2)] again
      by (simp add: run_hooks_def run_step_def store_get_before tally_event_def admit_def)
  next
    case (Suc n)
    let ?r = "run_hooks (replicate (Suc n) (Before par)) r"
    have w: "wf_world (hr_world ?r)"
      using wf [of "es @ replicate (Suc n) (Before par)"] assms(1) by (simp add: run_hooks_def)
    have snoc: "run_hooks (replicate (Suc (Suc n)) (Before par)) r = run_step (Before par) ?r"
      unfolding run_hooks_def replicate_Suc [of "Suc n"] replicate_append_same [symmetric] by simp
    from Suc.IH w assms(2,3) ev show ?case
      using let_through_iff [OF wf_hook [OF w, of "Before par"] assms(2)] again
      unfolding snoc by (simp add: run_step_def store_get_before tally_event_def admit_def)
  qed
  with assms(5) show ?thesis by blast
qed

text \<open>Three reads at the same time, on a budget of two.\<close>

theorem overlapping_calls_uncounted_witness:
  "let par = demo_call ''read'' [(''filePath'', JsText ''a'')]; r = run_hooks (replicate (Suc 2) (Before par)) (fresh_run demo_heap) in
   ty_round (hr_tally r ''s'') = 3 \<and> let_through par (hr_world r) \<and> map_option gs_budget (store_get (hr_world r) ''s'') = Some 2"
proof -
  let ?par = "demo_call ''read'' [(''filePath'', JsText ''a'')]"
  have "callMode ?par = Enforced" "budgeted (gc_call ?par)" "let_through ?par (hr_world (run_hooks [] (fresh_run demo_heap)))"
    by code_simp+
  note o = overlapping_calls_uncounted [OF refl this refl, of 2]
  have s: "gc_session ?par = ''s''" by code_simp
  have "ty_round (hr_tally (run_hooks [] (fresh_run demo_heap)) ''s'') = 0"
    "gs_budget (entered ?par (store_get (hr_world (run_hooks [] (fresh_run demo_heap))) ''s'')) = 2"
    by code_simp+
  with o show ?thesis unfolding Let_def s by (simp add: run_hooks_def)
qed

end
