(* ===== verification/Facts.thy ===== *)
theory Facts
  imports Router_Prelude
begin

text \<open>
  Task facts and the vocabulary of the classifier (\<^verbatim>\<open>src/routing/classify/types.ts\<close>) with the
  raise-only effective facts of a role dispatch (\<^verbatim>\<open>src/routing/roles/policy.ts\<close>). Risk, scope and
  detection are linear orders, so that raising is \<open>max\<close>. Task classes are strings.
\<close>

datatype risk = RiskLow | RiskMedium | RiskHigh
datatype scope = ScopeSingle | ScopeMulti | ScopeRepo
datatype detection = DetNone | DetGrader | DetDeterministic
datatype need = NeedShell | NeedWeb | NeedEdit | NeedNetwork | NeedExternalDir

definition RISK_ORDER :: "risk list" where "RISK_ORDER = [RiskLow, RiskMedium, RiskHigh]"
definition SCOPE_ORDER :: "scope list" where "SCOPE_ORDER = [ScopeSingle, ScopeMulti, ScopeRepo]"

fun detection_strength :: "detection \<Rightarrow> int" where
  "detection_strength DetNone = 0"
| "detection_strength DetGrader = 1"
| "detection_strength DetDeterministic = 2"

text \<open>The orders, as the code's position in the order lists and its strength table.\<close>

lemma risk_pos [simp]: "index_of RISK_ORDER RiskLow = 0" "index_of RISK_ORDER RiskMedium = 1" "index_of RISK_ORDER RiskHigh = 2"
  by (simp_all add: RISK_ORDER_def)

lemma scope_pos [simp]: "index_of SCOPE_ORDER ScopeSingle = 0" "index_of SCOPE_ORDER ScopeMulti = 1" "index_of SCOPE_ORDER ScopeRepo = 2"
  by (simp_all add: SCOPE_ORDER_def)

instantiation risk :: linorder
begin
definition less_eq_risk :: "risk \<Rightarrow> risk \<Rightarrow> bool" where
  "less_eq_risk a b \<longleftrightarrow> index_of RISK_ORDER a \<le> index_of RISK_ORDER b"
definition less_risk :: "risk \<Rightarrow> risk \<Rightarrow> bool" where
  "less_risk a b \<longleftrightarrow> index_of RISK_ORDER a < index_of RISK_ORDER b"
instance
proof
  show "a \<le> b \<Longrightarrow> b \<le> a \<Longrightarrow> a = b" for a b :: risk
    by (cases a; cases b) (simp_all add: less_eq_risk_def)
qed (auto simp: less_eq_risk_def less_risk_def)
end

instantiation scope :: linorder
begin
definition less_eq_scope :: "scope \<Rightarrow> scope \<Rightarrow> bool" where
  "less_eq_scope a b \<longleftrightarrow> index_of SCOPE_ORDER a \<le> index_of SCOPE_ORDER b"
definition less_scope :: "scope \<Rightarrow> scope \<Rightarrow> bool" where
  "less_scope a b \<longleftrightarrow> index_of SCOPE_ORDER a < index_of SCOPE_ORDER b"
instance
proof
  show "a \<le> b \<Longrightarrow> b \<le> a \<Longrightarrow> a = b" for a b :: scope
    by (cases a; cases b) (simp_all add: less_eq_scope_def)
qed (auto simp: less_eq_scope_def less_scope_def)
end

instantiation detection :: linorder
begin
definition less_eq_detection :: "detection \<Rightarrow> detection \<Rightarrow> bool" where
  "less_eq_detection a b \<longleftrightarrow> detection_strength a \<le> detection_strength b"
definition less_detection :: "detection \<Rightarrow> detection \<Rightarrow> bool" where
  "less_detection a b \<longleftrightarrow> detection_strength a < detection_strength b"
instance
proof
  show "a \<le> b \<Longrightarrow> b \<le> a \<Longrightarrow> a = b" for a b :: detection
    by (cases a; cases b) (simp_all add: less_eq_detection_def)
qed (auto simp: less_eq_detection_def less_detection_def)
end

lemmas fact_orders = less_eq_risk_def less_risk_def less_eq_scope_def less_scope_def
  less_eq_detection_def less_detection_def

section \<open>Facts\<close>

record task_facts =
  tf_class :: string
  tf_risk :: risk
  tf_scope :: scope
  tf_needs :: "need list"
  tf_confidence :: jsnum

text \<open>The fields of a route line the role policy and the engine read.\<close>

record route_line =
  rl_risk :: "risk option"
  rl_scope :: "scope option"
  rl_needs :: "need list option"

text \<open>The classifier result as the role policy reads it: facts, the rules' facts, the route line.\<close>

record classified_dispatch =
  cd_facts :: task_facts
  cd_rules :: "(risk \<times> scope) option"
  cd_routeLine :: "route_line option"

definition highest :: "'a::linorder \<Rightarrow> 'a option list \<Rightarrow> 'a" where
  "highest base values = fold (\<lambda>v out. case v of None \<Rightarrow> out | Some x \<Rightarrow> if out < x then x else out) values base"

definition effectiveFacts :: "task_facts \<Rightarrow> (risk \<times> scope) option \<Rightarrow> route_line option \<Rightarrow> task_facts" where
  "effectiveFacts facts classifier routeLine =
     (let risk = highest (tf_risk facts) [map_option fst classifier, Option.bind routeLine rl_risk];
          scope = highest (tf_scope facts) [map_option snd classifier, Option.bind routeLine rl_scope]
      in if risk = tf_risk facts \<and> scope = tf_scope facts then facts
         else facts\<lparr>tf_risk := risk, tf_scope := scope\<rparr>)"

definition effectiveFactsOf :: "classified_dispatch \<Rightarrow> task_facts" where
  "effectiveFactsOf c = effectiveFacts (cd_facts c) (cd_rules c) (cd_routeLine c)"

lemma highest_ge: "base \<le> highest base vs"
proof (induction vs arbitrary: base)
  case (Cons v vs)
  show ?case
  proof (cases v)
    case None
    then show ?thesis using Cons by (simp add: highest_def)
  next
    case (Some x)
    have "base \<le> (if base < x then x else base)" by (simp add: less_imp_le)
    also have "\<dots> \<le> highest (if base < x then x else base) vs" by (rule Cons)
    finally show ?thesis using Some by (simp add: highest_def)
  qed
qed (simp add: highest_def)

lemma highest_mem: "Some x \<in> set vs \<Longrightarrow> x \<le> highest base vs"
proof (induction vs arbitrary: base)
  case (Cons v vs)
  show ?case
  proof (cases "v = Some x")
    case True
    have "x \<le> (if base < x then x else base)" by (simp add: not_less)
    also have "\<dots> \<le> highest (if base < x then x else base) vs" by (rule highest_ge)
    finally show ?thesis using True by (simp add: highest_def)
  next
    case False
    with Cons show ?thesis by (cases v) (auto simp: highest_def)
  qed
qed simp

lemma effective_fields:
  "tf_risk (effectiveFacts f c r) = highest (tf_risk f) [map_option fst c, Option.bind r rl_risk]"
  "tf_scope (effectiveFacts f c r) = highest (tf_scope f) [map_option snd c, Option.bind r rl_scope]"
  "tf_needs (effectiveFacts f c r) = tf_needs f" "tf_class (effectiveFacts f c r) = tf_class f"
  "tf_confidence (effectiveFacts f c r) = tf_confidence f"
  by (auto simp: effectiveFacts_def Let_def)

section \<open>Effective detection\<close>

definition strength :: "detection option \<Rightarrow> int" where
  "strength d = (case d of None \<Rightarrow> 0 | Some x \<Rightarrow> detection_strength x)"

text \<open>\<open>verifies\<close> is \<open>None\<close> when the field is absent.\<close>

record detection_input =
  di_routerGate :: bool
  di_claim :: "detection option"
  di_acceptance :: "detection option"
  di_verifies :: "bool option"

definition DETECTIONS :: "detection list" where
  "DETECTIONS = [DetDeterministic, DetGrader, DetNone]"

definition effectiveDetection :: "detection_input \<Rightarrow> detection" where
  "effectiveDetection inp =
     (if di_verifies inp = Some False then DetNone
      else if di_routerGate inp then DetDeterministic
      else (let weaker = min (min (strength (di_claim inp)) (strength (di_acceptance inp))) (detection_strength DetGrader)
            in the (List.find (\<lambda>d. detection_strength d = weaker) DETECTIONS)))"

lemma effective_detection_cases:
  "effectiveDetection inp =
     (if di_verifies inp = Some False then DetNone
      else if di_routerGate inp then DetDeterministic
      else min DetGrader (min (or_else (di_claim inp) DetNone) (or_else (di_acceptance inp) DetNone)))"
proof -
  have s: "strength d = detection_strength (or_else d DetNone)" for d
    by (simp add: strength_def or_else_def split: option.split)
  have "the (List.find (\<lambda>d. detection_strength d = min (min (detection_strength a) (detection_strength b)) 1) DETECTIONS) =
      min DetGrader (min a b)" for a b
    by (cases a; cases b) (simp_all add: DETECTIONS_def min_def less_eq_detection_def)
  then show ?thesis by (simp add: effectiveDetection_def Let_def s)
qed

end
