(* ===== verification/Role_Policy.thy ===== *)
theory Role_Policy
  imports Facts
begin

text \<open>
  The role dispatch policy, \<^verbatim>\<open>src/routing/roles/policy.ts\<close>: the actions one dispatch may use, the
  least tier they require, and the tier window of the dispatch. Actions and tiers are strings, since
  the configuration can name unknown ones; a note of a grant is a constructor.
\<close>

section \<open>Actions\<close>

definition ACTION_ORDER :: "string list" where
  "ACTION_ORDER = [''read'', ''glob'', ''grep'', ''router_git'', ''router_run'', ''edit'', ''webfetch'',
     ''websearch'', ''context7'', ''execute'']"

definition LOCAL :: "string list" where "LOCAL = [''read'', ''glob'', ''grep'', ''router_git'']"
definition EXEC :: "string list" where "EXEC = [''router_run'']"
definition WRITE :: "string list" where "WRITE = [''edit'']"
definition EGRESS :: "string list" where "EGRESS = [''webfetch'', ''websearch'', ''context7'', ''execute'']"

definition hasAny :: "string list \<Rightarrow> string list \<Rightarrow> bool" where
  "hasAny actions cls \<longleftrightarrow> list_ex (\<lambda>a. a \<in> set actions) cls"

datatype role_kind = KindExplore | KindResearch | KindRun | KindImplement | KindReview | KindDesign | KindGeneral
datatype authority_mode = ModeFixed | ModeDynamic

record role_spec =
  ro_agent :: string
  ro_kind :: role_kind
  ro_mode :: authority_mode
  ro_allow :: "string list"
  ro_deny :: "string list"
  ro_floor :: string
  ro_ceiling :: string

definition dynamicBase :: "role_kind \<Rightarrow> string list" where
  "dynamicBase kind = (if kind = KindImplement then LOCAL @ WRITE else LOCAL)"

datatype grant_note = NoteShell | NoteWeb | NoteEdit | NoteExternalDir | NoteNoWorkRoot | NoteSeparation

record dispatch_grant =
  dg_actions :: "string list"
  dg_notes :: "grant_note list"
  dg_workRoot :: "string option"

section \<open>grantFor\<close>

definition role_max :: "role_spec \<Rightarrow> string list" where
  "role_max role = filter (\<lambda>a. a \<in> set ACTION_ORDER \<and> a \<notin> set (ro_deny role)) (ro_allow role)"

text \<open>The actions before the separation and work-root rules, as a list of what is in the set.\<close>

definition granted_base :: "role_spec \<Rightarrow> need list \<Rightarrow> string list \<Rightarrow> string list" where
  "granted_base role needs widened =
     (if ro_mode role = ModeFixed then role_max role
      else filter (\<lambda>a. a \<in> set (role_max role))
             (dynamicBase (ro_kind role) @
              (if NeedEdit \<in> set needs then [''edit''] else []) @
              (if NeedShell \<in> set needs \<or> NeedNetwork \<in> set needs then [''router_run''] else []) @ widened))"

definition drop_all :: "string list \<Rightarrow> string list \<Rightarrow> string list" where
  "drop_all cls actions = filter (\<lambda>a. a \<notin> set cls) actions"

text \<open>The separation rule: egress goes when anything else is granted with it.\<close>

definition mixes_egress :: "string list \<Rightarrow> bool" where
  "mixes_egress actions \<longleftrightarrow>
     hasAny actions EGRESS \<and> (hasAny actions LOCAL \<or> hasAny actions EXEC \<or> hasAny actions WRITE)"

definition separated :: "string list \<Rightarrow> string list" where
  "separated actions = (if mixes_egress actions then drop_all EGRESS actions else actions)"

text \<open>Without a validated work root there is no write and no run.\<close>

definition rooted :: "string option \<Rightarrow> string list \<Rightarrow> string list" where
  "rooted workRoot actions = (if workRoot = None then drop_all (WRITE @ EXEC) actions else actions)"

definition grantFor ::
    "role_spec \<Rightarrow> task_facts \<Rightarrow> string list \<Rightarrow> string option \<Rightarrow> need list option \<Rightarrow> dispatch_grant" where
  "grantFor role facts widened workRoot lineNeeds =
     (let needs = tf_needs facts @ or_else lineNeeds [];
          wantsShell = (NeedShell \<in> set needs \<or> NeedNetwork \<in> set needs);
          a0 = granted_base role needs widened;
          a1 = separated a0;
          roleEdits = (''edit'' \<in> set a1);
          withheld = (workRoot = None \<and> hasAny a1 (WRITE @ EXEC));
          a2 = rooted workRoot a1;
          notes = (if wantsShell then [NoteShell] else []) @
                  (if NeedWeb \<in> set needs \<and> \<not> hasAny a2 EGRESS then [NoteWeb] else []) @
                  (if NeedEdit \<in> set needs \<and> \<not> roleEdits then [NoteEdit] else []) @
                  (if NeedExternalDir \<in> set needs \<and> workRoot = None then [NoteExternalDir] else []);
          structural = (if mixes_egress a0 then [NoteSeparation] else []) @ (if withheld then [NoteNoWorkRoot] else [])
      in \<lparr>dg_actions = filter (\<lambda>a. a \<in> set a2) ACTION_ORDER, dg_notes = notes @ structural,
          dg_workRoot = workRoot\<rparr>)"

section \<open>The floor of a grant\<close>

definition BUILTIN_TIERS :: "string list" where
  "BUILTIN_TIERS = [''fast'', ''medium'', ''heavy'']"

definition tierIndex :: "string \<Rightarrow> int" where
  "tierIndex tier = index_of BUILTIN_TIERS tier"

definition maxBuiltin :: "string \<Rightarrow> string \<Rightarrow> string" where
  "maxBuiltin a b = (if tierIndex b \<le> tierIndex a then a else b)"

definition authorityFloor :: "dispatch_grant \<Rightarrow> detection \<Rightarrow> risk \<Rightarrow> scope \<Rightarrow> string" where
  "authorityFloor grant det risk scope =
     (let writes = hasAny (dg_actions grant) WRITE; execs = hasAny (dg_actions grant) EXEC;
          f0 = ''fast'';
          f1 = (if writes \<and> \<not> execs
                then (if det = DetDeterministic then (if risk = RiskLow \<and> scope = ScopeSingle then ''fast'' else ''medium'')
                      else if det = DetGrader then ''medium''
                      else if risk = RiskHigh then ''heavy'' else ''medium'')
                else f0)
      in if writes \<and> execs then maxBuiltin f1 (if det = DetDeterministic then ''medium'' else ''heavy'') else f1)"

section \<open>The tier window\<close>

record bounds_options =
  bo_floorTier :: "string option"
  bo_runningTier :: "string option"
  bo_pinTier :: "string option"
  bo_tiers :: "string list"

record tier_bounds =
  tb_floor :: string
  tb_ceiling :: string
  tb_pinned :: "string option"
  tb_reasons :: "string list"

text \<open>\<^verbatim>\<open>findIndex\<close>: the first position with the property, or -1.\<close>

definition find_index :: "('a \<Rightarrow> bool) \<Rightarrow> 'a list \<Rightarrow> int" where
  "find_index P xs = (case List.find (\<lambda>i. P (xs ! i)) [0..<length xs] of None \<Rightarrow> -1 | Some i \<Rightarrow> int i)"

text \<open>Position of a floor-type tier: index, exact, known.\<close>

definition placeFloor :: "string \<Rightarrow> string list \<Rightarrow> int \<times> bool \<times> bool" where
  "placeFloor tier ordr =
     (let k = index_of ordr tier; rank = tierIndex tier; up = find_index (\<lambda>t. rank \<le> tierIndex t) ordr in
      if 0 \<le> k then (k, True, True)
      else if rank < 0 then (int (length ordr) - 1, False, False)
      else if 0 \<le> up then (up, False, True)
      else (if rank = 0 then 0 else int (length ordr) - 1, False, True))"

definition placeCeiling :: "string \<Rightarrow> string list \<Rightarrow> (int \<times> bool) option" where
  "placeCeiling tier ordr =
     (let k = index_of ordr tier; rank = tierIndex tier in
      if 0 \<le> k then Some (k, True)
      else if rank < 0 then None
      else (let down = fold (\<lambda>i d. let r = tierIndex (ordr ! i) in if 0 \<le> r \<and> r \<le> rank then int i else d)
                         [0..<length ordr] (-1)
            in Some (max down 0, False)))"

datatype floor_source = SrcRole | SrcAuthority | SrcFloorTier | SrcRunning

fun source_name :: "floor_source \<Rightarrow> string" where
  "source_name SrcRole = ''role''"
| "source_name SrcAuthority = ''authority''"
| "source_name SrcFloorTier = ''floorTier''"
| "source_name SrcRunning = ''running''"

text \<open>One floor source: the state is floor, owner and the reasons so far.\<close>

definition floor_step :: "string list \<Rightarrow> floor_source \<times> string option \<Rightarrow>
    int \<times> floor_source option \<times> string list \<Rightarrow> int \<times> floor_source option \<times> string list" where
  "floor_step ordr src st =
     (case (src, st) of
        ((source, None), _) \<Rightarrow> st
      | ((source, Some tier), (flr, owner, reasons)) \<Rightarrow>
          (let (idx, exact, known) = placeFloor tier ordr;
               top = ordr ! nat idx;
               r1 = (if \<not> known then reasons @ [''unknown:'' @ source_name source @ '':'' @ tier @ ''->'' @ top]
                     else if \<not> exact then reasons @ [''round:'' @ source_name source @ '':'' @ tier @ ''->'' @ top]
                     else reasons)
           in if flr < idx \<or> owner = None
              then (max flr idx, Some source,
                    if flr < idx \<and> source \<noteq> SrcRole then r1 @ [''floor:'' @ source_name source] else r1)
              else if idx = flr \<and> source = SrcAuthority then (flr, Some source, r1)
              else (flr, owner, r1)))"

definition tier_order :: "bounds_options \<Rightarrow> string list" where
  "tier_order opts =
     (let listed = uniq (filter (\<lambda>t. t \<noteq> []) (bo_tiers opts)) in if listed \<noteq> [] then listed else BUILTIN_TIERS)"

definition floor_sources :: "role_spec \<Rightarrow> dispatch_grant \<Rightarrow> task_facts \<Rightarrow> detection \<Rightarrow> bounds_options \<Rightarrow>
    (floor_source \<times> string option) list" where
  "floor_sources role grant facts det opts =
     [(SrcRole, Some (ro_floor role)),
      (SrcAuthority, Some (authorityFloor grant det (tf_risk facts) (tf_scope facts))),
      (SrcFloorTier, bo_floorTier opts), (SrcRunning, bo_runningTier opts)]"

definition tierBounds ::
    "role_spec \<Rightarrow> dispatch_grant \<Rightarrow> classified_dispatch \<Rightarrow> detection \<Rightarrow> bounds_options \<Rightarrow> tier_bounds" where
  "tierBounds role grant classified det opts =
     (let ordr = tier_order opts;
          (flr, owner, r1) = fold (floor_step ordr)
             (floor_sources role grant (effectiveFactsOf classified) det opts) (0, None, []);
          lift = (if owner = Some SrcAuthority then ''lift:authority'' else ''lift:floor'');
          (c0, r2) = (case placeCeiling (ro_ceiling role) ordr of
                        None \<Rightarrow> (int (length ordr) - 1, r1 @ [''ignore:ceiling:'' @ ro_ceiling role])
                      | Some (idx, exact) \<Rightarrow>
                          (idx, if exact then r1
                                else r1 @ [''round:ceiling:'' @ ro_ceiling role @ ''->'' @ ordr ! nat idx]));
          (clg, r3) = (if c0 < flr then (flr, r2 @ [lift]) else (c0, r2));
          (pinned, r4) = (case bo_pinTier opts of
                            None \<Rightarrow> (None, r3)
                          | Some pin \<Rightarrow>
                              (let k = index_of ordr pin in
                               if k < 0 then (None, r3 @ [''ignore:pin:'' @ pin])
                               else if k < flr then (Some (ordr ! nat flr), r3 @ [lift])
                               else if clg < k then (Some (ordr ! nat clg), r3 @ [''clamp:ceiling''])
                               else (Some pin, r3)))
      in \<lparr>tb_floor = ordr ! nat flr, tb_ceiling = ordr ! nat clg, tb_pinned = pinned, tb_reasons = uniq r4\<rparr>)"

section \<open>Grants are safe\<close>

lemma in_order: "a \<in> set ACTION_ORDER \<longleftrightarrow> a \<in> set LOCAL \<or> a \<in> set EXEC \<or> a \<in> set WRITE \<or> a \<in> set EGRESS"
  by (auto simp: ACTION_ORDER_def LOCAL_def EXEC_def WRITE_def EGRESS_def)

lemma hasAny_iff: "hasAny as cls \<longleftrightarrow> (\<exists>a. a \<in> set as \<and> a \<in> set cls)"
  by (auto simp: hasAny_def list_ex_iff)

lemma granted_max: "set (granted_base role needs widened) \<subseteq> set (role_max role)"
  by (auto simp: granted_base_def)

lemma role_max_set: "a \<in> set (role_max role) \<longleftrightarrow> a \<in> set (ro_allow role) \<and> a \<in> set ACTION_ORDER \<and> a \<notin> set (ro_deny role)"
  by (auto simp: role_max_def)

text \<open>What is granted, as a set: the base, less egress when mixed, less write and run without a work root.\<close>

lemma grant_actions:
  "set (dg_actions (grantFor role facts widened wr lneeds)) =
     set (rooted wr (separated (granted_base role (tf_needs facts @ or_else lneeds []) widened))) \<inter> set ACTION_ORDER"
  by (auto simp: grantFor_def Let_def)

lemma rooted_sub: "set (rooted wr as) \<subseteq> set as"
  by (auto simp: rooted_def drop_all_def)

lemma separated_sub: "set (separated as) \<subseteq> set as"
  by (auto simp: separated_def drop_all_def)

lemma rooted_none: "''edit'' \<notin> set (rooted None as)" "''router_run'' \<notin> set (rooted None as)"
  by (auto simp: rooted_def drop_all_def WRITE_def EXEC_def)

lemma separated_apart:
  assumes "e \<in> set (separated as)" "e \<in> set EGRESS" "a \<in> set (separated as)" "a \<in> set ACTION_ORDER"
  shows "a \<in> set EGRESS"
proof (rule ccontr)
  assume "a \<notin> set EGRESS"
  with assms separated_sub [of as] have "mixes_egress as"
    by (auto simp: mixes_egress_def hasAny_iff in_order)
  with assms(1,2) show False by (simp add: separated_def drop_all_def)
qed

lemma grant_separated:
  assumes "hasAny (dg_actions (grantFor role facts widened wr lneeds)) EGRESS"
  shows "set (dg_actions (grantFor role facts widened wr lneeds)) \<subseteq> set EGRESS"
proof -
  let ?s = "separated (granted_base role (tf_needs facts @ or_else lneeds []) widened)"
  obtain e where "e \<in> set EGRESS" "e \<in> set ?s"
    using assms rooted_sub [of wr ?s] by (auto simp: hasAny_iff grant_actions)
  then show ?thesis
    using rooted_sub [of wr ?s] separated_apart [of e] by (auto simp: grant_actions)
qed

lemma grant_within:
  "set (dg_actions (grantFor role facts widened wr lneeds)) \<subseteq>
     set (granted_base role (tf_needs facts @ or_else lneeds []) widened)"
  using rooted_sub separated_sub by (fastforce simp: grant_actions)

lemma base_run:
  "''router_run'' \<in> set (granted_base role needs widened) \<Longrightarrow> ro_mode role = ModeDynamic \<Longrightarrow>
     NeedShell \<in> set needs \<or> NeedNetwork \<in> set needs \<or> ''router_run'' \<in> set widened"
  by (auto simp: granted_base_def dynamicBase_def LOCAL_def WRITE_def split: if_splits)

text \<open>(C29) A grant never exceeds the role and never mixes egress with local, write or run actions: every
  granted action is a known action the role allows and does not deny, whatever the needs and whatever
  was widened; if any egress action is granted then only egress actions are; without a validated work
  root neither edit nor run is granted; and a dynamic role gets run only when the task needs a shell or
  the network, or by widening.\<close>

theorem grant_is_safe:
  "let g = grantFor role facts widened wr lneeds; needs = tf_needs facts @ or_else lneeds [] in
   set (dg_actions g) \<subseteq> (set (ro_allow role) \<inter> set ACTION_ORDER) - set (ro_deny role) \<and>
   (hasAny (dg_actions g) EGRESS \<longrightarrow> set (dg_actions g) \<subseteq> set EGRESS) \<and>
   (wr = None \<longrightarrow> ''edit'' \<notin> set (dg_actions g) \<and> ''router_run'' \<notin> set (dg_actions g)) \<and>
   (ro_mode role = ModeDynamic \<and> ''router_run'' \<in> set (dg_actions g) \<longrightarrow>
      NeedShell \<in> set needs \<or> NeedNetwork \<in> set needs \<or> ''router_run'' \<in> set widened)"
proof -
  let ?g = "grantFor role facts widened wr lneeds"
  let ?needs = "tf_needs facts @ or_else lneeds []"
  have "set (dg_actions ?g) \<subseteq> (set (ro_allow role) \<inter> set ACTION_ORDER) - set (ro_deny role)"
  proof
    fix a
    assume "a \<in> set (dg_actions ?g)"
    with grant_within granted_max have "a \<in> set (role_max role)" by blast
    then show "a \<in> (set (ro_allow role) \<inter> set ACTION_ORDER) - set (ro_deny role)" by (simp add: role_max_set)
  qed
  moreover have "wr = None \<longrightarrow> ''edit'' \<notin> set (dg_actions ?g) \<and> ''router_run'' \<notin> set (dg_actions ?g)"
    by (auto simp: grant_actions rooted_none)
  moreover have "ro_mode role = ModeDynamic \<and> ''router_run'' \<in> set (dg_actions ?g) \<longrightarrow>
      NeedShell \<in> set ?needs \<or> NeedNetwork \<in> set ?needs \<or> ''router_run'' \<in> set widened"
    using grant_within base_run by blast
  ultimately show ?thesis
    using grant_separated by (simp only: Let_def) blast
qed

definition demo_role :: role_spec where
  "demo_role = \<lparr>ro_agent = ''implementer'', ro_kind = KindImplement, ro_mode = ModeDynamic,
     ro_allow = LOCAL @ EXEC @ WRITE @ [''websearch''], ro_deny = [''grep''], ro_floor = ''fast'', ro_ceiling = ''heavy''\<rparr>"

definition demo_facts :: task_facts where
  "demo_facts = \<lparr>tf_class = ''implement'', tf_risk = RiskLow, tf_scope = ScopeSingle, tf_needs = [NeedShell], tf_confidence = Fin 1\<rparr>"

theorem grant_is_safe_witness:
  "dg_actions (grantFor demo_role demo_facts [''websearch''] None None) = [''read'', ''glob'', ''router_git''] \<and>
   ''edit'' \<notin> set (dg_actions (grantFor demo_role demo_facts [''websearch''] None None))"
proof
  show "dg_actions (grantFor demo_role demo_facts [''websearch''] None None) = [''read'', ''glob'', ''router_git'']" by code_simp
  show "''edit'' \<notin> set (dg_actions (grantFor demo_role demo_facts [''websearch''] None None))"
    using grant_is_safe [of demo_role demo_facts "[''websearch'']" None None] by (simp add: Let_def)
qed

section \<open>The floor of a grant\<close>

lemma tier_simps [simp]: "tierIndex ''fast'' = 0" "tierIndex ''medium'' = 1" "tierIndex ''heavy'' = 2"
  by (simp_all add: tierIndex_def BUILTIN_TIERS_def)

text \<open>The authority floor is monotone: with at least as much write and run authority, no stronger
  detection, no lower risk and no narrower scope, the least tier is at least as high; and work that is
  written and run without deterministic detection is never below the heavy tier.\<close>

theorem authority_floor_monotone:
  assumes "hasAny (dg_actions g) WRITE \<Longrightarrow> hasAny (dg_actions g') WRITE"
    and "hasAny (dg_actions g) EXEC \<Longrightarrow> hasAny (dg_actions g') EXEC"
    and "d' \<le> d" and "r \<le> r'" and "s \<le> s'"
  shows "tierIndex (authorityFloor g d r s) \<le> tierIndex (authorityFloor g' d' r' s') \<and>
    (hasAny (dg_actions g') WRITE \<and> hasAny (dg_actions g') EXEC \<and> d' \<noteq> DetDeterministic \<longrightarrow>
       authorityFloor g' d' r' s' = ''heavy'')"
  using assms
  by (cases d; cases d'; cases r; cases r'; cases s; cases s')
    (auto simp: authorityFloor_def Let_def maxBuiltin_def fact_orders)

theorem authority_floor_monotone_witness:
  "tierIndex (authorityFloor \<lparr>dg_actions = [''read''], dg_notes = [], dg_workRoot = None\<rparr> DetGrader RiskLow ScopeSingle) \<le>
   tierIndex (authorityFloor \<lparr>dg_actions = [''edit'', ''router_run''], dg_notes = [], dg_workRoot = Some ''w''\<rparr> DetNone RiskHigh ScopeRepo)"
  using authority_floor_monotone
    [of "\<lparr>dg_actions = [''read''], dg_notes = [], dg_workRoot = None\<rparr>"
        "\<lparr>dg_actions = [''edit'', ''router_run''], dg_notes = [], dg_workRoot = Some ''w''\<rparr>"
        DetNone DetGrader RiskLow RiskHigh ScopeSingle ScopeRepo]
  by (auto simp: hasAny_def WRITE_def EXEC_def fact_orders)

section \<open>The window\<close>

lemma order_props: "tier_order opts \<noteq> []" "distinct (tier_order opts)"
  by (auto simp: tier_order_def Let_def BUILTIN_TIERS_def)

lemma find_index_bounds: "-1 \<le> find_index P xs" "find_index P xs < int (length xs)"
  by (auto simp: find_index_def find_Some_iff split: option.split)

lemma placeFloor_bounds:
  assumes "ordr \<noteq> []"
  shows "0 \<le> fst (placeFloor t ordr)" "fst (placeFloor t ordr) < int (length ordr)"
  using assms index_of_less [of ordr t] find_index_bounds(2) [of _ ordr]
  by (auto simp: placeFloor_def Let_def not_less Suc_le_eq)

lemma fold_down_bounds:
  "-1 \<le> d \<Longrightarrow> d < int n \<Longrightarrow> (\<forall>i \<in> set is. i < n) \<Longrightarrow>
   -1 \<le> fold (\<lambda>i d. let r = f i in if 0 \<le> r \<and> r \<le> (k::int) then int i else d) is d \<and>
   fold (\<lambda>i d. let r = f i in if 0 \<le> r \<and> r \<le> k then int i else d) is d < int n"
  by (induction "is" arbitrary: d) (auto simp: Let_def)

lemma placeCeiling_bounds:
  assumes "ordr \<noteq> []" and "placeCeiling t ordr = Some (k, ex)"
  shows "0 \<le> k \<and> k < int (length ordr)"
  using assms fold_down_bounds [of "-1" "length ordr" "[0..<length ordr]" "\<lambda>i. tierIndex (ordr ! i)" "tierIndex t"] index_of_less [of ordr t]
  by (auto simp: placeCeiling_def Let_def split: if_splits)

definition placed :: "string list \<Rightarrow> floor_source \<times> string option \<Rightarrow> int" where
  "placed ordr src = (case snd src of None \<Rightarrow> 0 | Some t \<Rightarrow> fst (placeFloor t ordr))"

text \<open>The floor the loop computes is the maximum of the placements.\<close>

lemma floor_step_fst:
  "ordr \<noteq> [] \<Longrightarrow> 0 \<le> fst st \<Longrightarrow> fst (floor_step ordr src st) = max (fst st) (placed ordr src)"
  by (cases src; cases "snd src"; cases st)
    (auto simp: floor_step_def placed_def Let_def max_def split: prod.splits)

lemma floor_fold_fst:
  "ordr \<noteq> [] \<Longrightarrow> 0 \<le> fst st \<Longrightarrow> fst (fold (floor_step ordr) srcs st) = fold (\<lambda>s k. max k (placed ordr s)) srcs (fst st)"
proof (induction srcs arbitrary: st)
  case (Cons s srcs)
  have "0 \<le> fst (floor_step ordr s st)"
    using Cons.prems by (simp add: floor_step_fst)
  with Cons.IH [OF Cons.prems(1) this] show ?case by (simp add: floor_step_fst Cons.prems)
qed simp

lemma fold_max_ge: "(k::int) \<le> fold (\<lambda>s k. max k (f s)) ss k"
  by (induction ss arbitrary: k) (auto intro: order_trans max.cobounded1)

lemma fold_max_mem: "s \<in> set ss \<Longrightarrow> f s \<le> fold (\<lambda>s (k::int). max k (f s)) ss k"
proof (induction ss arbitrary: k)
  case (Cons a ss)
  then show ?case
    using fold_max_ge [of "max k (f a)" f ss] by (auto intro: order_trans max.cobounded2)
qed simp

lemma fold_max_less: "(k::int) < n \<Longrightarrow> (\<And>s. s \<in> set ss \<Longrightarrow> f s < n) \<Longrightarrow> fold (\<lambda>s k. max k (f s)) ss k < n"
  by (induction ss arbitrary: k) auto

text \<open>Floor, ceiling and pin of the window as positions on the order.\<close>

definition window_floor :: "role_spec \<Rightarrow> dispatch_grant \<Rightarrow> classified_dispatch \<Rightarrow> detection \<Rightarrow> bounds_options \<Rightarrow> int" where
  "window_floor role grant classified det opts =
     fold (\<lambda>s k. max k (placed (tier_order opts) s))
       (floor_sources role grant (effectiveFactsOf classified) det opts) 0"

definition window_ceiling :: "role_spec \<Rightarrow> bounds_options \<Rightarrow> int" where
  "window_ceiling role opts =
     (case placeCeiling (ro_ceiling role) (tier_order opts) of None \<Rightarrow> int (length (tier_order opts)) - 1 | Some (k, _) \<Rightarrow> k)"

lemma tierBounds_fields:
  fixes role grant classified det opts
  defines "ordr \<equiv> tier_order opts" and "f \<equiv> window_floor role grant classified det opts"
    and "c \<equiv> window_ceiling role opts" and "b \<equiv> tierBounds role grant classified det opts"
  shows "tb_floor b = ordr ! nat f" "tb_ceiling b = ordr ! nat (max c f)"
    "tb_pinned b = (case bo_pinTier opts of None \<Rightarrow> None
       | Some pin \<Rightarrow> (let k = index_of ordr pin in
           if k < 0 then None else if k < f then Some (ordr ! nat f)
           else if max c f < k then Some (ordr ! nat (max c f)) else Some pin))"
proof -
  obtain flr owner r1 where st: "fold (floor_step ordr)
      (floor_sources role grant (effectiveFactsOf classified) det opts) (0, None, []) = (flr, owner, r1)"
    by (metis prod_cases3)
  have "flr = f"
    using floor_fold_fst [of ordr "(0, None, [])" "floor_sources role grant (effectiveFactsOf classified) det opts"]
      st order_props(1) by (simp add: f_def ordr_def window_floor_def)
  then show "tb_floor b = ordr ! nat f" "tb_ceiling b = ordr ! nat (max c f)"
    "tb_pinned b = (case bo_pinTier opts of None \<Rightarrow> None
       | Some pin \<Rightarrow> (let k = index_of ordr pin in
           if k < 0 then None else if k < f then Some (ordr ! nat f)
           else if max c f < k then Some (ordr ! nat (max c f)) else Some pin))"
    using st
    by (auto simp: b_def tierBounds_def ordr_def c_def window_ceiling_def Let_def max_def
        split: option.splits prod.splits if_splits)
qed

lemma window_bounds:
  "0 \<le> window_floor role grant classified det opts"
  "window_floor role grant classified det opts < int (length (tier_order opts))"
  "0 \<le> window_ceiling role opts" "window_ceiling role opts < int (length (tier_order opts))"
proof -
  have pl: "placed (tier_order opts) s < int (length (tier_order opts))" for s
    using placeFloor_bounds(2) [OF order_props(1)] order_props(1) by (auto simp: placed_def split: option.split)
  show "0 \<le> window_floor role grant classified det opts"
    unfolding window_floor_def by (rule fold_max_ge)
  show "window_floor role grant classified det opts < int (length (tier_order opts))"
    unfolding window_floor_def by (rule fold_max_less [OF _ pl]) (use order_props(1) in simp)
  show "0 \<le> window_ceiling role opts" "window_ceiling role opts < int (length (tier_order opts))"
    using placeCeiling_bounds [OF order_props(1)] order_props(1) [of opts]
    by (auto simp: window_ceiling_def Suc_le_eq split: option.split)
qed

lemma order_index: "0 \<le> k \<Longrightarrow> k < int (length (tier_order opts)) \<Longrightarrow> index_of (tier_order opts) (tier_order opts ! nat k) = k"
  using index_of_distinct_nth [OF order_props(2), of "nat k" opts] by simp

text \<open>The tier window is sound: floor, ceiling and pin are tiers of the order with the pin between floor
  and ceiling; no floor source is undercut, that is the role's floor, the authority floor at the raised
  risk and scope, the configured floor tier and the tier a resumed child runs on all place at or below the
  window's floor; and the ceiling is the role's unless the floor is above it, when it is the floor.\<close>

theorem tier_window_sound:
  "let ordr = tier_order opts; b = tierBounds role grant classified det opts;
       flr = index_of ordr (tb_floor b); clg = index_of ordr (tb_ceiling b) in
   tb_floor b \<in> set ordr \<and> tb_ceiling b \<in> set ordr \<and> 0 \<le> flr \<and> flr \<le> clg \<and>
   (case tb_pinned b of None \<Rightarrow> True
    | Some p \<Rightarrow> bo_pinTier opts \<noteq> None \<and> p \<in> set ordr \<and> flr \<le> index_of ordr p \<and> index_of ordr p \<le> clg) \<and>
   list_all (\<lambda>s. placed ordr s \<le> flr) (floor_sources role grant (effectiveFactsOf classified) det opts) \<and>
   clg = max flr (window_ceiling role opts)"
proof -
  let ?o = "tier_order opts"
  let ?b = "tierBounds role grant classified det opts"
  let ?f = "window_floor role grant classified det opts"
  let ?c = "max (window_ceiling role opts) ?f"
  note w = window_bounds(1,2) [of role grant classified det opts] window_bounds(3,4) [of role opts]
  have c: "0 \<le> ?c" "?c < int (length ?o)" using w by auto
  have fl: "tb_floor ?b = ?o ! nat ?f" "tb_ceiling ?b = ?o ! nat ?c" by (simp_all add: tierBounds_fields)
  have ix: "index_of ?o (tb_floor ?b) = ?f" "index_of ?o (tb_ceiling ?b) = ?c"
    using order_index [of ?f opts] order_index [of ?c opts] w c by (simp_all add: fl)
  have mem: "tb_floor ?b \<in> set ?o" "tb_ceiling ?b \<in> set ?o"
    using ix w c index_of_nonneg_iff by metis+
  have src: "placed ?o s \<le> ?f" if "s \<in> set (floor_sources role grant (effectiveFactsOf classified) det opts)" for s
    unfolding window_floor_def using that by (rule fold_max_mem)
  have pin: "p \<in> set ?o \<and> ?f \<le> index_of ?o p \<and> index_of ?o p \<le> ?c" if "tb_pinned ?b = Some p" for p
  proof -
    have "index_of ?o p = ?f \<or> index_of ?o p = ?c \<or> ?f \<le> index_of ?o p \<and> index_of ?o p \<le> ?c"
      using that order_index [of ?f opts] order_index [of ?c opts] w c
      by (auto simp: tierBounds_fields Let_def split: option.splits if_splits)
    moreover from this have "0 \<le> index_of ?o p" using w c by auto
    ultimately show ?thesis using index_of_nonneg_iff [of ?o p] by auto
  qed
  have pin_from: "bo_pinTier opts \<noteq> None" if "tb_pinned ?b = Some p" for p
    using that by (auto simp: tierBounds_fields split: option.splits)
  show ?thesis
    using ix mem w src pin pin_from by (auto simp: Let_def list_all_iff max.commute split: option.split)
qed

section \<open>Raise-only facts and detection\<close>

text \<open>Claims in a dispatch only tighten it: the effective risk and scope are at least those of the
  classifier, of its rules and of the route line; and an effective detection above grader strength means
  that verification runs and the router's own gate runs the checks, whatever is claimed.\<close>

theorem claims_only_tighten:
  "let f = effectiveFactsOf c in
   tf_risk (cd_facts c) \<le> tf_risk f \<and> tf_scope (cd_facts c) \<le> tf_scope f \<and>
   (case cd_rules c of None \<Rightarrow> True | Some (r, s) \<Rightarrow> r \<le> tf_risk f \<and> s \<le> tf_scope f) \<and>
   (case cd_routeLine c of None \<Rightarrow> True
    | Some l \<Rightarrow> (case rl_risk l of None \<Rightarrow> True | Some r \<Rightarrow> r \<le> tf_risk f) \<and>
                (case rl_scope l of None \<Rightarrow> True | Some s \<Rightarrow> s \<le> tf_scope f)) \<and>
   (effectiveDetection inp = DetDeterministic \<longleftrightarrow> di_verifies inp \<noteq> Some False \<and> di_routerGate inp)"
proof -
  have "effectiveDetection inp = DetDeterministic \<longleftrightarrow> di_verifies inp \<noteq> Some False \<and> di_routerGate inp"
    by (auto simp: effective_detection_cases min_def less_eq_detection_def split: if_splits)
  then show ?thesis
    by (auto simp: effectiveFactsOf_def effective_fields Let_def intro: highest_ge highest_mem split: option.split)
qed

end
