(* ===== verification/Outcome_Key.thy ===== *)
theory Outcome_Key
  imports Js_Text Variants
begin

text \<open>
  Outcome keys, \<^verbatim>\<open>src/routing/outcomes/types.ts\<close>: the one text key
  \<^verbatim>\<open>class|origin:agent|provider/model#variant\<close> under which evidence and costs are stored, with
  percent escapes, and the \<^verbatim>\<open>provider/model#variant\<close> references of the host.
\<close>

section \<open>Cutting texts\<close>

text \<open>The text before and after the first (last) occurrence of a character.\<close>

fun cut_first :: "char \<Rightarrow> string \<Rightarrow> (string \<times> string) option" where
  "cut_first c [] = None"
| "cut_first c (x # xs) =
     (if x = c then Some ([], xs) else map_option (\<lambda>(a, b). (x # a, b)) (cut_first c xs))"

fun cut_last :: "char \<Rightarrow> string \<Rightarrow> (string \<times> string) option" where
  "cut_last c [] = None"
| "cut_last c (x # xs) =
     (case cut_last c xs of Some (a, b) \<Rightarrow> Some (x # a, b)
      | None \<Rightarrow> if x = c then Some ([], xs) else None)"

lemma cut_first_here: "c \<notin> set a \<Longrightarrow> cut_first c (a @ c # b) = Some (a, b)"
  by (induction a) auto

lemma cut_first_none: "c \<notin> set a \<Longrightarrow> cut_first c a = None"
  by (induction a) auto

lemma cut_last_none: "c \<notin> set a \<Longrightarrow> cut_last c a = None"
  by (induction a) auto

lemma cut_last_here: "c \<notin> set b \<Longrightarrow> cut_last c (a @ c # b) = Some (a, b)"
  by (induction a) (auto simp: cut_last_none)

lemma split_on_none: "c \<notin> set a \<Longrightarrow> split_on c a = [a]"
  by (induction a) auto

lemma split_on_nonempty: "split_on c a \<noteq> []"
  by (induction a) (auto split: list.split)

lemma split_on_here: "c \<notin> set a \<Longrightarrow> split_on c (a @ c # b) = a # split_on c b"
  by (induction a) (auto simp: split_on_nonempty)

section \<open>Escapes\<close>

definition ESCAPES :: "(char \<times> string) list" where
  "ESCAPES = [(CHR ''%'', ''%25''), (CHR ''|'', ''%7C''), (CHR ''#'', ''%23''), (CHR '':'', ''%3A''), (CHR ''/'', ''%2F'')]"

definition UNESCAPES :: "(string \<times> char) list" where
  "UNESCAPES = [(''%25'', CHR ''%''), (''%7C'', CHR ''|''), (''%23'', CHR ''#''), (''%3A'', CHR '':''), (''%2F'', CHR ''/'')]"

definition STRICT_CHARS :: string where "STRICT_CHARS = ''%|#:/''"
definition MODEL_CHARS :: string where "MODEL_CHARS = ''%|#''"

definition escape_char :: "string \<Rightarrow> char \<Rightarrow> string" where
  "escape_char chars ch = (if ch \<in> set chars then or_else (map_of ESCAPES ch) [ch] else [ch])"

definition escapePart :: "string \<Rightarrow> string \<Rightarrow> string" where
  "escapePart s chars = concat (map (escape_char chars) s)"

fun unescapePart :: "string \<Rightarrow> string option" where
  "unescapePart [] = Some []"
| "unescapePart (ch # rest) =
     (if ch \<noteq> CHR ''%'' then map_option (\<lambda>t. ch # t) (unescapePart rest)
      else (case map_of UNESCAPES (take 3 (ch # rest)) of None \<Rightarrow> None
            | Some dec \<Rightarrow> map_option (\<lambda>t. dec # t) (unescapePart (drop 2 rest))))"

lemma chars_simps: "STRICT_CHARS = ''%|#:/''" "MODEL_CHARS = ''%|#''" "set MODEL_CHARS \<subseteq> set STRICT_CHARS"
  by (auto simp: STRICT_CHARS_def MODEL_CHARS_def)

lemma escape_char_cases:
  assumes "chars = STRICT_CHARS \<or> chars = MODEL_CHARS"
  shows "escape_char chars c = [c] \<and> c \<noteq> CHR ''%'' \<or> (escape_char chars c, c) \<in> set UNESCAPES"
proof (cases "c \<in> set chars")
  case True
  with assms have "c \<in> {CHR ''%'', CHR ''|'', CHR ''#'', CHR '':'', CHR ''/''}"
    by (auto simp: chars_simps)
  with True show ?thesis
    by (elim insertE emptyE) (simp_all add: escape_char_def ESCAPES_def UNESCAPES_def)
next
  case False
  with assms have "c \<noteq> CHR ''%''" by (auto simp: chars_simps)
  with False show ?thesis by (simp add: escape_char_def)
qed

lemma unescape_step: "(u, c) \<in> set UNESCAPES \<Longrightarrow> unescapePart (u @ t) = map_option (\<lambda>t. c # t) (unescapePart t)"
  unfolding UNESCAPES_def list.set by (elim insertE emptyE) (simp_all add: UNESCAPES_def)

lemma unescape_escape:
  assumes "chars = STRICT_CHARS \<or> chars = MODEL_CHARS"
  shows "unescapePart (escapePart s chars) = Some s"
proof (induction s)
  case Nil
  then show ?case by (simp add: escapePart_def)
next
  case (Cons c s)
  have "unescapePart (escape_char chars c @ t) = map_option (\<lambda>t. c # t) (unescapePart t)" for t
    using escape_char_cases [OF assms, of c] unescape_step [of "escape_char chars c" c t] by auto
  with Cons show ?case by (simp add: escapePart_def)
qed

lemma escape_char_clean:
  assumes "chars = STRICT_CHARS \<or> chars = MODEL_CHARS" and "d \<in> set chars" and "d \<noteq> CHR ''%''"
  shows "d \<notin> set (escape_char chars c)"
proof (cases "c \<in> set chars")
  case False
  then show ?thesis using assms by (auto simp: escape_char_def)
next
  case True
  have "c \<in> set STRICT_CHARS" "d \<in> set STRICT_CHARS" using True assms chars_simps(3) by auto
  then have u: "(escape_char chars c, c) \<in> set UNESCAPES"
    using True by (auto simp: STRICT_CHARS_def escape_char_def ESCAPES_def UNESCAPES_def)
  have "\<forall>(u, c) \<in> set UNESCAPES. \<forall>d \<in> set STRICT_CHARS. d \<noteq> CHR ''%'' \<longrightarrow> d \<notin> set u" by code_simp
  with u \<open>d \<in> set STRICT_CHARS\<close> assms(3) show ?thesis by blast
qed

lemma escape_clean:
  assumes "chars = STRICT_CHARS \<or> chars = MODEL_CHARS" and "c \<in> set chars" and "c \<noteq> CHR ''%''"
  shows "c \<notin> set (escapePart s chars)"
  using escape_char_clean [OF assms] by (simp add: escapePart_def)

lemma escape_nonempty: "escapePart s chars = [] \<longleftrightarrow> s = []"
proof (cases s)
  case (Cons c t)
  have "escape_char chars c \<noteq> []"
    by (auto simp: escape_char_def ESCAPES_def or_else_def)
  with Cons show ?thesis by (simp add: escapePart_def)
qed (simp add: escapePart_def)

section \<open>Keys\<close>

datatype agent_origin = OriginRouter | OriginHost | OriginRole

record agent_ref =
  ar_origin :: agent_origin
  ar_id :: string

type_synonym outcome_key = string

record key_parts =
  kp_cls :: string
  kp_agent :: agent_ref
  kp_provider :: string
  kp_model :: string
  kp_variant :: string

fun origin_text :: "agent_origin \<Rightarrow> string" where
  "origin_text OriginRouter = ''router''"
| "origin_text OriginHost = ''host''"
| "origin_text OriginRole = ''role''"

definition origin_of :: "string \<Rightarrow> agent_origin option" where
  "origin_of s = (if s = ''router'' then Some OriginRouter else if s = ''host'' then Some OriginHost
                  else if s = ''role'' then Some OriginRole else None)"

definition FALLBACK_CLASS :: string where "FALLBACK_CLASS = ''other''"
definition UNKNOWN_PART :: string where "UNKNOWN_PART = ''unknown''"

definition fallback :: "string \<Rightarrow> string \<Rightarrow> string" where
  "fallback d s = (if s = [] then d else s)"

text \<open>\<^verbatim>\<open>normalizeVariant\<close> is \<open>normalized\<close> of the variant ladders: absent or empty reads as the default.\<close>

definition makeKey :: "string \<Rightarrow> agent_ref \<Rightarrow> string \<Rightarrow> string \<Rightarrow> string option \<Rightarrow> outcome_key" where
  "makeKey cls agent provider model vnt =
     escapePart (fallback FALLBACK_CLASS cls) STRICT_CHARS @ ''|'' @
     origin_text (ar_origin agent) @ '':'' @ escapePart (fallback UNKNOWN_PART (ar_id agent)) STRICT_CHARS @ ''|'' @
     escapePart (fallback UNKNOWN_PART provider) STRICT_CHARS @ ''/'' @
     escapePart (fallback UNKNOWN_PART model) MODEL_CHARS @ ''#'' @
     escapePart (normalized vnt) STRICT_CHARS"

definition nonempty :: "string option \<Rightarrow> string option" where
  "nonempty s = (if s = Some [] then None else s)"

definition parseKey :: "string \<Rightarrow> key_parts option" where
  "parseKey key =
     (case split_on CHR ''|'' key of
        [clsSeg, agentSeg, modelSeg] \<Rightarrow>
          (case cut_first CHR '':'' agentSeg of None \<Rightarrow> None
           | Some (orig, idSeg) \<Rightarrow>
          (case origin_of orig of None \<Rightarrow> None
           | Some org \<Rightarrow>
          (case cut_last CHR ''#'' modelSeg of None \<Rightarrow> None
           | Some (providerModel, variantSeg) \<Rightarrow>
          (case cut_first CHR ''/'' providerModel of None \<Rightarrow> None
           | Some (providerSeg, modelPart) \<Rightarrow>
          (case (nonempty (unescapePart clsSeg), nonempty (unescapePart idSeg), nonempty (unescapePart providerSeg),
                 nonempty (unescapePart modelPart), nonempty (unescapePart variantSeg)) of
             (Some cls, Some aid, Some provider, Some model, Some vnt) \<Rightarrow>
               (let agent = \<lparr>ar_origin = org, ar_id = aid\<rparr> in
                if makeKey cls agent provider model (Some vnt) = key
                then Some \<lparr>kp_cls = cls, kp_agent = agent, kp_provider = provider, kp_model = model, kp_variant = vnt\<rparr>
                else None)
           | _ \<Rightarrow> None)))))
      | _ \<Rightarrow> None)"

text \<open>\<^verbatim>\<open>splitModelRef\<close>: provider, model and variant.\<close>

definition splitModelRef :: "string \<Rightarrow> (string \<times> string \<times> string option) option" where
  "splitModelRef ref =
     (case cut_first CHR ''/'' ref of None \<Rightarrow> None
      | Some (provider, rest) \<Rightarrow>
          (if provider = [] then None
           else (let (model, vnt) = (case cut_last CHR ''#'' rest of None \<Rightarrow> (rest, None)
                                     | Some (m, v) \<Rightarrow> (m, Some v))
                 in if model = [] then None
                    else Some (provider, model, if vnt = Some [] then None else vnt))))"

definition classifyAgentOrigin :: "string \<Rightarrow> string list \<Rightarrow> agent_origin" where
  "classifyAgentOrigin agentId routerAgentIds =
     (if agentId \<in> set routerAgentIds then OriginRouter else OriginHost)"

section \<open>Round trips\<close>

lemma origin_inverse [simp]: "origin_of (origin_text g) = Some g"
  by (cases g) (auto simp: origin_of_def)

lemma fallback_nonempty [simp]: "fallback FALLBACK_CLASS s \<noteq> []" "fallback UNKNOWN_PART s \<noteq> []"
  by (auto simp: fallback_def FALLBACK_CLASS_def UNKNOWN_PART_def)

lemma fallback_fix: "s \<noteq> [] \<Longrightarrow> fallback d s = s"
  by (simp add: fallback_def)

lemma normalized_nonempty [simp]: "normalized v \<noteq> []"
  by (auto simp: normalized_def DEFAULT_VARIANT_def split: option.split)

lemma normalized_Some: "v \<noteq> [] \<Longrightarrow> normalized (Some v) = v"
  by (simp add: normalized_def)

text \<open>The key of five well-formed parts parses back to them.\<close>

lemma parse_parts:
  assumes "cls \<noteq> []" "aid \<noteq> []" "provider \<noteq> []" "model \<noteq> []" "vnt \<noteq> []"
  shows "parseKey (makeKey cls \<lparr>ar_origin = g, ar_id = aid\<rparr> provider model (Some vnt)) =
    Some \<lparr>kp_cls = cls, kp_agent = \<lparr>ar_origin = g, ar_id = aid\<rparr>, kp_provider = provider, kp_model = model, kp_variant = vnt\<rparr>"
proof -
  let ?e = "\<lambda>s. escapePart s STRICT_CHARS"
  let ?m = "escapePart model MODEL_CHARS"
  define k where "k = makeKey cls \<lparr>ar_origin = g, ar_id = aid\<rparr> provider model (Some vnt)"
  have k: "k = ?e cls @ ''|'' @ (origin_text g @ '':'' @ ?e aid) @ ''|'' @ ?e provider @ ''/'' @ ?m @ ''#'' @ ?e vnt"
    using assms by (simp add: k_def makeKey_def fallback_fix normalized_Some)
  have clean: "c \<notin> set (?e s)" if "c \<in> {CHR ''|'', CHR ''#'', CHR '':'', CHR ''/''}" for c s
    using that by (intro escape_clean) (auto simp: STRICT_CHARS_def)
  have cleanm: "c \<notin> set ?m" if "c \<in> {CHR ''|'', CHR ''#''}" for c
    using that by (intro escape_clean) (auto simp: MODEL_CHARS_def)
  have org: "CHR ''|'' \<notin> set (origin_text g)" "CHR '':'' \<notin> set (origin_text g)" by (cases g; simp)+
  have split: "split_on CHR ''|'' k = [?e cls, origin_text g @ '':'' @ ?e aid, ?e provider @ ''/'' @ ?m @ ''#'' @ ?e vnt]"
  proof -
    have "CHR ''|'' \<notin> set (?e cls)" "CHR ''|'' \<notin> set (origin_text g @ '':'' @ ?e aid)"
      "CHR ''|'' \<notin> set (?e provider @ ''/'' @ ?m @ ''#'' @ ?e vnt)"
      using clean cleanm org by simp_all
    from split_on_here [OF this(1)] split_on_here [OF this(2)] split_on_none [OF this(3)] show ?thesis
      by (simp add: k)
  qed
  have agent: "cut_first CHR '':'' (origin_text g @ '':'' @ ?e aid) = Some (origin_text g, ?e aid)"
    using org by (simp add: cut_first_here)
  have hash: "cut_last CHR ''#'' (?e provider @ ''/'' @ ?m @ ''#'' @ ?e vnt) = Some (?e provider @ ''/'' @ ?m, ?e vnt)"
    using cut_last_here [of "CHR ''#''" "?e vnt" "?e provider @ ''/'' @ ?m"] clean by simp
  have slash: "cut_first CHR ''/'' (?e provider @ ''/'' @ ?m) = Some (?e provider, ?m)"
    using clean by (simp add: cut_first_here)
  have un: "nonempty (unescapePart (?e s)) = (if s = [] then None else Some s)"
    "nonempty (unescapePart ?m) = Some model" for s
    using assms by (simp_all add: unescape_escape nonempty_def)
  have "makeKey cls \<lparr>ar_origin = g, ar_id = aid\<rparr> provider model (Some vnt) = k" by (simp add: k_def)
  then show ?thesis
    using split agent hash slash un assms by (simp add: parseKey_def Let_def)
qed

lemma make_normal:
  "makeKey cls a provider model v = makeKey (fallback FALLBACK_CLASS cls)
     \<lparr>ar_origin = ar_origin a, ar_id = fallback UNKNOWN_PART (ar_id a)\<rparr> (fallback UNKNOWN_PART provider)
     (fallback UNKNOWN_PART model) (Some (normalized v))"
  by (simp add: makeKey_def fallback_fix normalized_Some)

lemma parse_make:
  "parseKey (makeKey cls a provider model v) =
     Some \<lparr>kp_cls = fallback FALLBACK_CLASS cls,
           kp_agent = \<lparr>ar_origin = ar_origin a, ar_id = fallback UNKNOWN_PART (ar_id a)\<rparr>,
           kp_provider = fallback UNKNOWN_PART provider, kp_model = fallback UNKNOWN_PART model,
           kp_variant = normalized v\<rparr>"
  by (subst make_normal) (rule parse_parts; simp)

lemma parse_canonical:
  assumes "parseKey key = Some p"
  shows "makeKey (kp_cls p) (kp_agent p) (kp_provider p) (kp_model p) (Some (kp_variant p)) = key"
  using assms
  by (auto simp: parseKey_def Let_def split: list.splits option.splits if_splits prod.splits)

text \<open>(C30) Outcome keys round-trip: the key of any parts parses to those parts with the empty ones
  replaced by their defaults, whatever delimiters or percent signs they contain; and a text parses
  only if it is the very key its parts make, so no two texts name the same entry.\<close>

theorem outcome_key_roundtrip:
  "parseKey (makeKey cls a provider model v) =
     Some \<lparr>kp_cls = fallback FALLBACK_CLASS cls,
           kp_agent = \<lparr>ar_origin = ar_origin a, ar_id = fallback UNKNOWN_PART (ar_id a)\<rparr>,
           kp_provider = fallback UNKNOWN_PART provider, kp_model = fallback UNKNOWN_PART model,
           kp_variant = normalized v\<rparr> \<and>
   (case parseKey key of None \<Rightarrow> True
    | Some p \<Rightarrow> makeKey (kp_cls p) (kp_agent p) (kp_provider p) (kp_model p) (Some (kp_variant p)) = key)"
  using parse_make parse_canonical by (auto split: option.split)

end
