(* ===== verification/Beta.thy ===== *)
theory Beta
  imports Router_Prelude
begin

text \<open>
  Beta evidence, \<^verbatim>\<open>src/routing/outcomes/beta.ts\<close>: pseudo-counts of successes and failures
  that decay with time and are capped, the rank priors added on reading, and the posterior. Counts and
  instants are reals (exact arithmetic); \<open>now\<close> is a \<open>jsnum\<close>, since the code accepts a bad clock.
\<close>

section \<open>State and tuning\<close>

record beta_state =
  be_alpha :: real
  be_beta :: real
  be_updatedAt :: real

record beta_prior =
  bp_alpha :: real
  bp_beta :: real

record posterior_view =
  po_alpha :: real
  po_beta :: real
  po_mean :: real
  po_n :: real
  po_prior :: beta_prior

record outcome_tuning =
  ot_halfLifeDays :: real
  ot_maxEffectiveSamples :: real

definition DEFAULT_OUTCOME_TUNING :: outcome_tuning where
  "DEFAULT_OUTCOME_TUNING = \<lparr>ot_halfLifeDays = 14, ot_maxEffectiveSamples = 50\<rparr>"

definition PRIOR_STRENGTH :: real where "PRIOR_STRENGTH = 5"
definition MIN_TINY :: real where "MIN_TINY = 1 / 10 ^ 12"
definition DAY_MS :: real where "DAY_MS = 86400000"
definition MAX_PRIOR_OFFSET_CENTI :: int where "MAX_PRIOR_OFFSET_CENTI = 95"
definition MIN_PRIOR_OFFSET_CENTI :: int where "MIN_PRIOR_OFFSET_CENTI = 30"

text \<open>\<^verbatim>\<open>Math.round\<close>: halves go up.\<close>

definition js_round :: "real \<Rightarrow> int" where
  "js_round x = \<lfloor>x + 1 / 2\<rfloor>"

definition prior_centi :: "int \<Rightarrow> int" where
  "prior_centi off = (if 0 \<le> off then min MAX_PRIOR_OFFSET_CENTI (80 + 5 * off)
                      else max MIN_PRIOR_OFFSET_CENTI (80 + 25 * off))"

definition priorForRankOffset :: "jsnum \<Rightarrow> beta_prior" where
  "priorForRankOffset offset =
     (let off = (case offset of Fin x \<Rightarrow> js_round x | _ \<Rightarrow> 0);
          alpha = of_int (prior_centi off) / 20
      in \<lparr>bp_alpha = alpha, bp_beta = PRIOR_STRENGTH - alpha\<rparr>)"

definition SAME_RANK_PRIOR :: beta_prior where
  "SAME_RANK_PRIOR = priorForRankOffset (Fin 0)"

definition clamp :: "real \<Rightarrow> real \<Rightarrow> real \<Rightarrow> real" where
  "clamp x lo hi = min hi (max lo x)"

definition sanitizeTuning :: "jsnum option \<Rightarrow> jsnum option \<Rightarrow> outcome_tuning" where
  "sanitizeTuning half cap =
     \<lparr>ot_halfLifeDays = (case Option.bind half finite_value of None \<Rightarrow> ot_halfLifeDays DEFAULT_OUTCOME_TUNING
                         | Some x \<Rightarrow> clamp x 1 365),
      ot_maxEffectiveSamples = (case Option.bind cap finite_value of
                         None \<Rightarrow> ot_maxEffectiveSamples DEFAULT_OUTCOME_TUNING
                       | Some x \<Rightarrow> clamp (of_int (js_round x)) 5 1000)\<rparr>"

section \<open>Decay, cap and observation\<close>

definition decayFactor :: "real \<Rightarrow> real \<Rightarrow> real" where
  "decayFactor dtMs halfLifeDays =
     (let dt = (if 0 < dtMs then dtMs else 0);
          half = (if 0 < halfLifeDays then halfLifeDays else ot_halfLifeDays DEFAULT_OUTCOME_TUNING)
      in 2 powr (- dt / (half * DAY_MS)))"

definition decayTo :: "beta_state \<Rightarrow> jsnum \<Rightarrow> outcome_tuning \<Rightarrow> beta_state" where
  "decayTo state now tuning =
     (let t = (case now of Fin x \<Rightarrow> x | _ \<Rightarrow> be_updatedAt state) in
      if t < be_updatedAt state - DAY_MS
      then \<lparr>be_alpha = be_alpha state, be_beta = be_beta state, be_updatedAt = t\<rparr>
      else (let f = decayFactor (t - be_updatedAt state) (ot_halfLifeDays tuning);
                alpha = be_alpha state * f; beta = be_beta state * f
            in if alpha + beta < MIN_TINY
               then \<lparr>be_alpha = 0, be_beta = 0, be_updatedAt = max (be_updatedAt state) t\<rparr>
               else \<lparr>be_alpha = alpha, be_beta = beta, be_updatedAt = max (be_updatedAt state) t\<rparr>))"

definition capEvidence :: "beta_state \<Rightarrow> real \<Rightarrow> beta_state" where
  "capEvidence state maxEffectiveSamples =
     (let n = be_alpha state + be_beta state in
      if \<not> maxEffectiveSamples < n then state
      else (let scale = maxEffectiveSamples / n in
            \<lparr>be_alpha = be_alpha state * scale, be_beta = be_beta state * scale,
             be_updatedAt = be_updatedAt state\<rparr>))"

definition usable_weight :: "jsnum \<Rightarrow> real option" where
  "usable_weight w = (case w of Fin x \<Rightarrow> if 0 < x \<and> x \<le> 1 then Some x else None | _ \<Rightarrow> None)"

definition observe :: "beta_state option \<Rightarrow> bool \<Rightarrow> jsnum \<Rightarrow> outcome_tuning \<Rightarrow> jsnum \<Rightarrow> beta_state" where
  "observe state success now tuning weight =
     (let t = (case now of Fin x \<Rightarrow> x | _ \<Rightarrow> (case state of None \<Rightarrow> 0 | Some s \<Rightarrow> be_updatedAt s));
          start = or_else state \<lparr>be_alpha = 0, be_beta = 0, be_updatedAt = t\<rparr>
      in case usable_weight weight of
           None \<Rightarrow> start
         | Some w \<Rightarrow>
             (let base = decayTo start (Fin t) tuning;
                  nxt = (if success then base\<lparr>be_alpha := be_alpha base + w\<rparr>
                         else base\<lparr>be_beta := be_beta base + w\<rparr>)
              in capEvidence nxt (ot_maxEffectiveSamples tuning)))"

definition usablePrior :: "beta_prior \<Rightarrow> beta_prior" where
  "usablePrior prior = (if 0 < bp_alpha prior \<and> 0 < bp_beta prior then prior else SAME_RANK_PRIOR)"

definition posteriorOf :: "beta_state option \<Rightarrow> beta_prior \<Rightarrow> jsnum \<Rightarrow> outcome_tuning \<Rightarrow> posterior_view" where
  "posteriorOf state prior now tuning =
     (let p = usablePrior prior;
          (ea, eb) = (case state of None \<Rightarrow> (0, 0)
                      | Some s \<Rightarrow> (let e = capEvidence (decayTo s now tuning) (ot_maxEffectiveSamples tuning)
                                  in (be_alpha e, be_beta e)));
          alpha = bp_alpha p + ea; beta = bp_beta p + eb
      in \<lparr>po_alpha = alpha, po_beta = beta, po_mean = alpha / (alpha + beta), po_n = ea + eb, po_prior = p\<rparr>)"

definition mergeBeta :: "beta_state \<Rightarrow> beta_state \<Rightarrow> jsnum \<Rightarrow> outcome_tuning \<Rightarrow> beta_state" where
  "mergeBeta a b now tuning =
     (let newest = max (be_updatedAt a) (be_updatedAt b);
          t = (case now of Fin x \<Rightarrow> if DAY_MS < newest - x then x else max newest x | _ \<Rightarrow> newest);
          da = decayTo a (Fin t) tuning; db = decayTo b (Fin t) tuning
      in capEvidence \<lparr>be_alpha = be_alpha da + be_alpha db, be_beta = be_beta da + be_beta db,
                      be_updatedAt = t\<rparr> (ot_maxEffectiveSamples tuning))"

section \<open>The evidence invariant\<close>

definition tuning_ok :: "outcome_tuning \<Rightarrow> bool" where
  "tuning_ok tun \<longleftrightarrow> 1 \<le> ot_halfLifeDays tun \<and> 5 \<le> ot_maxEffectiveSamples tun"

definition evidence_ok :: "outcome_tuning \<Rightarrow> beta_state \<Rightarrow> bool" where
  "evidence_ok tun s \<longleftrightarrow>
     0 \<le> be_alpha s \<and> 0 \<le> be_beta s \<and> be_alpha s + be_beta s \<le> ot_maxEffectiveSamples tun"

lemma sanitized_ok: "tuning_ok (sanitizeTuning half cap)"
  by (auto simp: tuning_ok_def sanitizeTuning_def DEFAULT_OUTCOME_TUNING_def clamp_def split: option.split)

lemma decayFactor_bounds [beta_simps]: "0 < decayFactor dt half" "decayFactor dt half \<le> 1"
proof -
  have "2 powr (- (if 0 < dt then dt else 0) / ((if 0 < half then half else ot_halfLifeDays DEFAULT_OUTCOME_TUNING) * DAY_MS)) \<le> 2 powr 0"
    by (intro powr_mono) (auto simp: DEFAULT_OUTCOME_TUNING_def DAY_MS_def)
  then show "decayFactor dt half \<le> 1" by (simp add: decayFactor_def Let_def)
qed (simp add: decayFactor_def Let_def)

lemma decayFactor_0 [beta_simps]: "dt \<le> 0 \<Longrightarrow> decayFactor dt half = 1"
  by (simp add: decayFactor_def)

lemma decayFactor_nonneg:
  "0 \<le> x \<Longrightarrow> decayFactor x half =
     2 powr (- (x / ((if 0 < half then half else ot_halfLifeDays DEFAULT_OUTCOME_TUNING) * DAY_MS)))"
  by (simp add: decayFactor_def Let_def)

lemma decayFactor_add:
  assumes "0 \<le> x" "0 \<le> y"
  shows "decayFactor x half * decayFactor y half = decayFactor (x + y) half"
proof -
  have "- (x / c) + - (y / c) = - ((x + y) / c)" for c :: real by (simp add: add_divide_distrib)
  with assms show ?thesis by (simp only: decayFactor_nonneg powr_add [symmetric] add_nonneg_nonneg)
qed

text \<open>Decay only ever shrinks the counts, whatever the clock says.\<close>

lemma decay_shrinks:
  assumes "0 \<le> be_alpha s" "0 \<le> be_beta s"
  shows "0 \<le> be_alpha (decayTo s now tun)" "be_alpha (decayTo s now tun) \<le> be_alpha s"
    "0 \<le> be_beta (decayTo s now tun)" "be_beta (decayTo s now tun) \<le> be_beta s"
proof -
  have "x * decayFactor dt half \<le> x" if "0 \<le> x" for x dt half
    using that decayFactor_bounds [of dt half] by (simp add: mult_left_le)
  then show "0 \<le> be_alpha (decayTo s now tun)" "be_alpha (decayTo s now tun) \<le> be_alpha s"
    "0 \<le> be_beta (decayTo s now tun)" "be_beta (decayTo s now tun) \<le> be_beta s"
    using assms by (auto simp: decayTo_def Let_def less_imp_le [OF decayFactor_bounds(1)])
qed

lemma cap_shrinks:
  assumes "0 \<le> be_alpha s" "0 \<le> be_beta s" "0 < cap"
  shows "0 \<le> be_alpha (capEvidence s cap)" "be_alpha (capEvidence s cap) \<le> be_alpha s"
    "0 \<le> be_beta (capEvidence s cap)" "be_beta (capEvidence s cap) \<le> be_beta s"
    "be_alpha (capEvidence s cap) + be_beta (capEvidence s cap) = min cap (be_alpha s + be_beta s)"
proof -
  let ?n = "be_alpha s + be_beta s"
  have le: "x * (cap / ?n) \<le> x" "0 \<le> x * (cap / ?n)" if "0 \<le> x" "cap < ?n" for x
    using that assms by (auto simp: divide_le_eq intro: mult_left_mono)
  show "0 \<le> be_alpha (capEvidence s cap)" "be_alpha (capEvidence s cap) \<le> be_alpha s"
    "0 \<le> be_beta (capEvidence s cap)" "be_beta (capEvidence s cap) \<le> be_beta s"
    using assms le by (auto simp: capEvidence_def Let_def)
  show "be_alpha (capEvidence s cap) + be_beta (capEvidence s cap) = min cap ?n"
  proof (cases "cap < ?n")
    case True
    have "be_alpha s * (cap / ?n) + be_beta s * (cap / ?n) = cap"
      using True assms(3) by (simp only: distrib_right [symmetric]) simp
    with True show ?thesis by (simp add: capEvidence_def Let_def)
  qed (simp add: capEvidence_def Let_def)
qed

lemma evidence_decay: "evidence_ok tun s \<Longrightarrow> evidence_ok tun (decayTo s now tun)"
  using decay_shrinks [of s now tun] by (auto simp: evidence_ok_def)

lemma evidence_cap:
  "tuning_ok tun \<Longrightarrow> 0 \<le> be_alpha s \<Longrightarrow> 0 \<le> be_beta s \<Longrightarrow> evidence_ok tun (capEvidence s (ot_maxEffectiveSamples tun))"
  using cap_shrinks [of s "ot_maxEffectiveSamples tun"] by (simp add: evidence_ok_def tuning_ok_def)

lemma evidence_observe:
  assumes "tuning_ok tun" and "\<And>st. s = Some st \<Longrightarrow> evidence_ok tun st"
  shows "evidence_ok tun (observe s success now tun w)"
proof -
  let ?t = "case now of Fin x \<Rightarrow> x | _ \<Rightarrow> (case s of None \<Rightarrow> 0 | Some st \<Rightarrow> be_updatedAt st)"
  let ?start = "or_else s \<lparr>be_alpha = 0, be_beta = 0, be_updatedAt = ?t\<rparr>"
  have ok: "evidence_ok tun ?start"
    using assms by (cases s) (auto simp: evidence_ok_def tuning_ok_def)
  from evidence_decay [OF this] have "evidence_ok tun (decayTo ?start (Fin ?t) tun)" .
  then have base: "0 \<le> be_alpha (decayTo ?start (Fin ?t) tun)" "0 \<le> be_beta (decayTo ?start (Fin ?t) tun)"
    by (simp_all add: evidence_ok_def)
  show ?thesis
  proof (cases "usable_weight w")
    case None
    with ok show ?thesis by (simp add: observe_def Let_def)
  next
    case (Some x)
    then have "0 < x" by (auto simp: usable_weight_def split: jsnum.splits if_splits)
    with base show ?thesis
      unfolding observe_def Let_def Some option.case
      by (intro evidence_cap [OF assms(1)]; cases success; simp)
  qed
qed

lemma evidence_merge:
  assumes "tuning_ok tun" "0 \<le> be_alpha a" "0 \<le> be_beta a" "0 \<le> be_alpha b" "0 \<le> be_beta b"
  shows "evidence_ok tun (mergeBeta a b now tun)"
  unfolding mergeBeta_def Let_def
  by (rule evidence_cap) (use assms decay_shrinks in \<open>auto intro!: add_nonneg_nonneg\<close>)

text \<open>Counts are never negative, whatever tuning they were capped under.\<close>

definition beta_nonneg :: "beta_state \<Rightarrow> bool" where
  "beta_nonneg s \<longleftrightarrow> 0 \<le> be_alpha s \<and> 0 \<le> be_beta s"

lemma beta_nonneg_decay: "beta_nonneg s \<Longrightarrow> beta_nonneg (decayTo s now tun)"
  using decay_shrinks [of s now tun] by (simp add: beta_nonneg_def)

lemma beta_nonneg_cap: "tuning_ok tun \<Longrightarrow> beta_nonneg s \<Longrightarrow> beta_nonneg (capEvidence s (ot_maxEffectiveSamples tun))"
  using cap_shrinks [of s "ot_maxEffectiveSamples tun"] by (simp add: beta_nonneg_def tuning_ok_def)

lemma beta_nonneg_evidence: "evidence_ok tun s \<Longrightarrow> beta_nonneg s"
  by (simp add: evidence_ok_def beta_nonneg_def)

lemma beta_nonneg_observe:
  assumes "tuning_ok tun" "beta_nonneg s"
  shows "beta_nonneg (observe (Some s) success (Fin t) tun w)"
proof (cases "usable_weight w")
  case None
  with assms show ?thesis by (simp add: observe_def Let_def)
next
  case (Some x)
  then have "0 < x" by (auto simp: usable_weight_def split: jsnum.splits if_splits)
  with beta_nonneg_decay [OF assms(2), of "Fin t" tun] show ?thesis
    unfolding observe_def Let_def Some option.case or_else_simps jsnum.case
    by (intro beta_nonneg_cap [OF assms(1)]; cases success; simp add: beta_nonneg_def)
qed

lemma usable_pos: "0 < bp_alpha (usablePrior p)" "0 < bp_beta (usablePrior p)"
  by (auto simp: usablePrior_def SAME_RANK_PRIOR_def priorForRankOffset_def Let_def js_round_def prior_centi_def
      MAX_PRIOR_OFFSET_CENTI_def PRIOR_STRENGTH_def)

lemma posterior_bounds:
  assumes "tuning_ok tun" and "\<And>st. s = Some st \<Longrightarrow> beta_nonneg st"
  shows "0 < po_mean (posteriorOf s p now tun)" "po_mean (posteriorOf s p now tun) < 1"
    "0 \<le> po_n (posteriorOf s p now tun)" "po_n (posteriorOf s p now tun) \<le> ot_maxEffectiveSamples tun"
proof -
  obtain ea eb where e: "0 \<le> ea" "0 \<le> eb" "ea + eb \<le> ot_maxEffectiveSamples tun"
    "po_mean (posteriorOf s p now tun) = (bp_alpha (usablePrior p) + ea) / (bp_alpha (usablePrior p) + ea + (bp_beta (usablePrior p) + eb))"
    "po_n (posteriorOf s p now tun) = ea + eb"
  proof (cases s)
    case None
    then show thesis using that [of 0 0] assms(1) by (simp add: posteriorOf_def Let_def tuning_ok_def)
  next
    case (Some st)
    let ?e = "capEvidence (decayTo st now tun) (ot_maxEffectiveSamples tun)"
    have "beta_nonneg (decayTo st now tun)" using assms(2) [OF Some] by (rule beta_nonneg_decay)
    then have "evidence_ok tun ?e"
      by (intro evidence_cap [OF assms(1)]) (simp_all add: beta_nonneg_def)
    with Some show thesis
      using that [of "be_alpha ?e" "be_beta ?e"] by (simp add: posteriorOf_def Let_def evidence_ok_def)
  qed
  have pos: "0 < bp_alpha (usablePrior p) + ea" "0 < bp_beta (usablePrior p) + eb"
    using usable_pos [of p] e by auto
  show "0 < po_mean (posteriorOf s p now tun)" "po_mean (posteriorOf s p now tun) < 1"
    using pos by (simp_all add: e divide_less_eq)
  show "0 \<le> po_n (posteriorOf s p now tun)" "po_n (posteriorOf s p now tun) \<le> ot_maxEffectiveSamples tun"
    using e by simp_all
qed

section \<open>Properties\<close>

definition observe_all :: "outcome_tuning \<Rightarrow> (bool \<times> jsnum \<times> jsnum) list \<Rightarrow> beta_state option \<Rightarrow> beta_state option" where
  "observe_all tun os s = fold (\<lambda>(ok, now, w) s. Some (observe s ok now tun w)) os s"

lemma observe_all_ok:
  "tuning_ok tun \<Longrightarrow> (\<And>st. s = Some st \<Longrightarrow> evidence_ok tun st) \<Longrightarrow> observe_all tun os s = Some st \<Longrightarrow> evidence_ok tun st"
proof (induction os arbitrary: s)
  case Nil
  then show ?case by (simp add: observe_all_def)
next
  case (Cons x os)
  obtain ok now w where x: "x = (ok, now, w)" by (cases x)
  show ?case
    by (rule Cons.IH [of "Some (observe s ok now tun w)"])
      (use Cons.prems evidence_observe [OF Cons.prems(1,2)] x in \<open>auto simp: observe_all_def\<close>)
qed

text \<open>Evidence stays proper: after any sequence of observations, with any clock readings, any
  weights and any configured tuning, and whatever the prior, the posterior success rate of a key lies
  strictly between 0 and 1 and its effective evidence between 0 and the configured cap.\<close>

theorem posterior_is_proper:
  "let tun = sanitizeTuning half cap; po = posteriorOf (observe_all tun os None) prior now tun in
   0 < po_mean po \<and> po_mean po < 1 \<and> 0 \<le> po_n po \<and> po_n po \<le> ot_maxEffectiveSamples tun \<and>
   ot_maxEffectiveSamples tun \<le> 1000"
proof -
  have ok: "evidence_ok (sanitizeTuning half cap) st"
    if "observe_all (sanitizeTuning half cap) os None = Some st" for st
    by (rule observe_all_ok [OF sanitized_ok _ that]) simp
  have "ot_maxEffectiveSamples (sanitizeTuning half cap) \<le> 1000"
    by (auto simp: sanitizeTuning_def DEFAULT_OUTCOME_TUNING_def clamp_def split: option.split)
  with posterior_bounds [OF sanitized_ok beta_nonneg_evidence [OF ok]] show ?thesis by (simp add: Let_def)
qed

text \<open>Decay is a function of elapsed time only: materialising evidence at an intermediate instant and
  then at a later one is the same as materialising it at the later one directly, so reads cannot change
  what later reads see.\<close>

theorem decay_materialises:
  assumes "0 \<le> be_alpha s" "0 \<le> be_beta s" "be_updatedAt s \<le> t1" "t1 \<le> t2"
  shows "decayTo (decayTo s (Fin t1) tun) (Fin t2) tun = decayTo s (Fin t2) tun"
proof -
  let ?h = "ot_halfLifeDays tun"
  define f where "f = decayFactor (t1 - be_updatedAt s) ?h"
  define g where "g = decayFactor (t2 - t1) ?h"
  have fg: "decayFactor (t2 - be_updatedAt s) ?h = f * g"
    using decayFactor_add [of "t1 - be_updatedAt s" "t2 - t1" ?h] assms by (simp add: f_def g_def)
  have g: "0 < g" "g \<le> 1" by (simp_all add: g_def decayFactor_bounds)
  have day: "0 < DAY_MS" "0 < MIN_TINY" by (simp_all add: DAY_MS_def MIN_TINY_def)
  have "x * (f * g) + y * (f * g) < MIN_TINY" if "x * f + y * f < MIN_TINY" "0 \<le> x * f + y * f" for x y
  proof -
    have "(x * f + y * f) * g \<le> x * f + y * f" using that g by (simp add: mult_left_le)
    with that show ?thesis by (simp add: algebra_simps)
  qed
  moreover have "0 \<le> be_alpha s * f + be_beta s * f"
    using assms by (simp add: f_def less_imp_le [OF decayFactor_bounds(1)])
  ultimately show ?thesis
    using assms day by (auto simp: decayTo_def Let_def fg f_def [symmetric] g_def [symmetric] max_def mult.assoc)
qed

text \<open>Reading evidence at the instant it was last written changes nothing but the flush of tiny totals.\<close>

lemma decay_same_instant:
  assumes "be_updatedAt s2 = be_updatedAt (decayTo s now tun)"
    and "MIN_TINY \<le> be_alpha s2 + be_beta s2"
  shows "be_alpha (decayTo s2 now tun) = be_alpha s2" "be_beta (decayTo s2 now tun) = be_beta s2"
proof -
  have "0 < DAY_MS" by (simp add: DAY_MS_def)
  then show "be_alpha (decayTo s2 now tun) = be_alpha s2" "be_beta (decayTo s2 now tun) = be_beta s2"
    using assms by (cases now; auto simp: decayTo_def Let_def decayFactor_0 max_def split: if_splits)+
qed

lemma cap_id: "be_alpha s + be_beta s \<le> cap \<Longrightarrow> capEvidence s cap = s"
  by (simp add: capEvidence_def)

lemma cap_updatedAt [simp]: "be_updatedAt (capEvidence s cap) = be_updatedAt s"
  by (simp add: capEvidence_def Let_def)

text \<open>Adding to one count and capping never takes from that count nor adds to the other.\<close>

lemma cap_added:
  fixes a b w cap :: real
  assumes "0 \<le> a" "0 \<le> b" "0 < w" "a + b \<le> cap" "cap < a + w + b"
  shows "a \<le> (a + w) * (cap / (a + w + b))" "b * (cap / (a + w + b)) \<le> b"
proof -
  have n: "0 < a + w + b" using assms by simp
  have "a * (a + b) \<le> a * cap" "a * w \<le> cap * w"
    using assms by (auto intro: mult_left_mono mult_right_mono)
  then have "a * (a + b + w) \<le> a * cap + w * cap"
    by (simp only: distrib_left mult.commute [of w cap])
  then show "a \<le> (a + w) * (cap / (a + w + b))"
    using n by (simp add: field_simps)
  show "b * (cap / (a + w + b)) \<le> b"
    using n assms by (auto simp: divide_le_eq intro: mult_left_mono)
qed

lemma mean_mono:
  fixes a1 :: real
  assumes "0 < a1" "0 < b2" "a1 \<le> a2" "b2 \<le> b1"
  shows "a1 / (a1 + b1) \<le> a2 / (a2 + b2)"
proof -
  have "a1 * b2 \<le> a2 * b1" using assms by (intro mult_mono) auto
  then show ?thesis using assms by (simp add: field_simps)
qed

text \<open>The counts read back right after an observation.\<close>

lemma observe_read:
  assumes tun: "tuning_ok tun" and ok: "evidence_ok tun s" and x: "MIN_TINY \<le> x" "x \<le> 1"
  shows "\<exists>o2 b. observe (Some s) success now tun (Fin x) = o2 \<and> decayTo s now tun = b \<and>
     capEvidence (decayTo s now tun) (ot_maxEffectiveSamples tun) = b \<and>
     be_alpha (capEvidence (decayTo o2 now tun) (ot_maxEffectiveSamples tun)) = be_alpha o2 \<and>
     be_beta (capEvidence (decayTo o2 now tun) (ot_maxEffectiveSamples tun)) = be_beta o2 \<and>
     (if success then be_alpha b \<le> be_alpha o2 \<and> be_beta o2 \<le> be_beta b
      else be_alpha o2 \<le> be_alpha b \<and> be_beta b \<le> be_beta o2) \<and>
     0 \<le> be_alpha b \<and> 0 \<le> be_beta b \<and> 0 \<le> be_alpha o2 \<and> 0 \<le> be_beta o2"
proof -
  let ?cap = "ot_maxEffectiveSamples tun"
  define b where "b = decayTo s now tun"
  define n where "n = (if success then b\<lparr>be_alpha := be_alpha b + x\<rparr> else b\<lparr>be_beta := be_beta b + x\<rparr>)"
  have "0 < MIN_TINY" by (simp add: MIN_TINY_def)
  with x have x0: "0 < x" by simp
  have b: "0 \<le> be_alpha b" "0 \<le> be_beta b" "be_alpha b + be_beta b \<le> ?cap"
    using evidence_decay [OF ok, of now] by (simp_all add: evidence_ok_def b_def)
  have same: "decayTo s (Fin (case now of Fin x \<Rightarrow> x
      | _ \<Rightarrow> (case Some s of None \<Rightarrow> 0 | Some u \<Rightarrow> be_updatedAt u))) tun = b"
    by (simp add: b_def decayTo_def split: jsnum.split)
  have o2: "observe (Some s) success now tun (Fin x) = capEvidence n ?cap"
    using x x0 by (simp add: observe_def usable_weight_def Let_def same n_def)
  have n0: "0 \<le> be_alpha n" "0 \<le> be_beta n" "be_alpha n + be_beta n = be_alpha b + be_beta b + x"
    using b x0 by (simp_all add: n_def)
  have cap0: "0 < ?cap" "5 \<le> ?cap" using tun by (auto simp: tuning_ok_def)
  note sh = cap_shrinks [OF n0(1,2) cap0(1)]
  have "MIN_TINY \<le> be_alpha (capEvidence n ?cap) + be_beta (capEvidence n ?cap)"
    using sh(5) n0 b x cap0(2) by (simp add: MIN_TINY_def)
  moreover have "be_updatedAt (capEvidence n ?cap) = be_updatedAt (decayTo s now tun)"
    by (simp add: n_def b_def)
  ultimately have rd: "be_alpha (decayTo (capEvidence n ?cap) now tun) = be_alpha (capEvidence n ?cap)"
    "be_beta (decayTo (capEvidence n ?cap) now tun) = be_beta (capEvidence n ?cap)"
    by (simp_all add: decay_same_instant)
  have idc: "capEvidence (decayTo (capEvidence n ?cap) now tun) ?cap = decayTo (capEvidence n ?cap) now tun"
    using sh(5) rd by (intro cap_id) simp
  have mono: "if success then be_alpha b \<le> be_alpha (capEvidence n ?cap) \<and> be_beta (capEvidence n ?cap) \<le> be_beta b
      else be_alpha (capEvidence n ?cap) \<le> be_alpha b \<and> be_beta b \<le> be_beta (capEvidence n ?cap)"
  proof (cases "?cap < be_alpha n + be_beta n")
    case False
    then have "capEvidence n ?cap = n" by (simp add: capEvidence_def)
    with x0 show ?thesis by (cases success; simp add: n_def)
  next
    case True
    then show ?thesis
      using cap_added [of "be_alpha b" "be_beta b" x ?cap] cap_added [of "be_beta b" "be_alpha b" x ?cap] b x0 n0
      by (auto simp: capEvidence_def Let_def n_def add.commute add.left_commute add.assoc)
  qed
  show ?thesis
    using o2 b sh rd idc mono cap_id [of b ?cap] b(3) by (auto simp: b_def [symmetric])
qed

text \<open>Verdicts move the estimate the right way: for a key with proper evidence, read at the instant of
  the verdict, a pass of any weight from a million-millionth to one never lowers the posterior
  success rate and a failure never raises it, also when the cap rescales the evidence.\<close>

theorem verdict_moves_posterior:
  assumes "evidence_ok (sanitizeTuning half cap) s" and "MIN_TINY \<le> x" and "x \<le> 1"
  shows "let tun = sanitizeTuning half cap; rate = (\<lambda>s. po_mean (posteriorOf (Some s) prior now tun)) in
    rate s \<le> rate (observe (Some s) True now tun (Fin x)) \<and>
    rate (observe (Some s) False now tun (Fin x)) \<le> rate s"
proof -
  let ?tun = "sanitizeTuning half cap"
  obtain o1 b where 1: "observe (Some s) True now ?tun (Fin x) = o1" "decayTo s now ?tun = b"
    "capEvidence b (ot_maxEffectiveSamples ?tun) = b"
    "be_alpha (capEvidence (decayTo o1 now ?tun) (ot_maxEffectiveSamples ?tun)) = be_alpha o1"
    "be_beta (capEvidence (decayTo o1 now ?tun) (ot_maxEffectiveSamples ?tun)) = be_beta o1"
    "be_alpha b \<le> be_alpha o1" "be_beta o1 \<le> be_beta b" "0 \<le> be_alpha b" "0 \<le> be_beta b"
    "0 \<le> be_alpha o1" "0 \<le> be_beta o1"
    using observe_read [OF sanitized_ok assms, of True now] by (simp only: if_True) blast
  obtain o2 where 2: "observe (Some s) False now ?tun (Fin x) = o2"
    "be_alpha (capEvidence (decayTo o2 now ?tun) (ot_maxEffectiveSamples ?tun)) = be_alpha o2"
    "be_beta (capEvidence (decayTo o2 now ?tun) (ot_maxEffectiveSamples ?tun)) = be_beta o2"
    "be_alpha o2 \<le> be_alpha b" "be_beta b \<le> be_beta o2" "0 \<le> be_alpha o2" "0 \<le> be_beta o2"
    using observe_read [OF sanitized_ok assms, of False now] 1(2) by (simp only: if_False) blast
  show ?thesis
    using 1 2 usable_pos [of prior]
    by (auto simp: posteriorOf_def Let_def intro!: mean_mono add_pos_nonneg)
qed

theorem verdict_moves_posterior_witness:
  "let tun = sanitizeTuning None None; s = \<lparr>be_alpha = 1, be_beta = 2, be_updatedAt = 0\<rparr>;
       rate = (\<lambda>s. po_mean (posteriorOf (Some s) SAME_RANK_PRIOR (Fin 0) tun)) in
   rate s \<le> rate (observe (Some s) True (Fin 0) tun (Fin 1)) \<and>
   rate (observe (Some s) False (Fin 0) tun (Fin 1)) \<le> rate s"
proof -
  have "evidence_ok (sanitizeTuning None None) \<lparr>be_alpha = 1, be_beta = 2, be_updatedAt = 0\<rparr>"
    by (simp add: evidence_ok_def sanitizeTuning_def DEFAULT_OUTCOME_TUNING_def)
  moreover have "MIN_TINY \<le> 1" by (simp add: MIN_TINY_def)
  ultimately show ?thesis using verdict_moves_posterior [of None None _ 1 SAME_RANK_PRIOR "Fin 0"] by (simp add: Let_def)
qed

theorem decay_materialises_witness:
  "decayTo (decayTo \<lparr>be_alpha = 1, be_beta = 2, be_updatedAt = 0\<rparr> (Fin 5) DEFAULT_OUTCOME_TUNING) (Fin 9) DEFAULT_OUTCOME_TUNING =
   decayTo \<lparr>be_alpha = 1, be_beta = 2, be_updatedAt = 0\<rparr> (Fin 9) DEFAULT_OUTCOME_TUNING"
  by (rule decay_materialises) simp_all

lemma prior_centi_bounds: "30 \<le> prior_centi off" "prior_centi off \<le> 95"
  by (auto simp: prior_centi_def MAX_PRIOR_OFFSET_CENTI_def MIN_PRIOR_OFFSET_CENTI_def)

lemma prior_centi_mono: "i \<le> j \<Longrightarrow> prior_centi i \<le> prior_centi j"
  by (auto simp: prior_centi_def MAX_PRIOR_OFFSET_CENTI_def MIN_PRIOR_OFFSET_CENTI_def)

lemma prior_rank: "priorForRankOffset (Fin (of_int i)) =
    \<lparr>bp_alpha = of_int (prior_centi i) / 20, bp_beta = 5 - of_int (prior_centi i) / 20\<rparr>"
proof -
  have "js_round (of_int i) = i" unfolding js_round_def by linarith
  then show ?thesis by (simp add: priorForRankOffset_def PRIOR_STRENGTH_def Let_def)
qed

lemma merge_comm: "mergeBeta a b now tun = mergeBeta b a now tun"
  by (simp add: mergeBeta_def Let_def max.commute add.commute)

end
