(* ===== verification/Cost.thy ===== *)
theory Cost
  imports Router_Prelude
begin

text \<open>
  Cost accounting, \<^verbatim>\<open>src/routing/outcomes/cost.ts\<close>: catalog prices, the usable cost of a step,
  running means per attempt, their merge, the unit rule and the expected cost of an attempt. Catalog
  prices come from outside and are \<open>jsnum\<close>s; \<open>read_price\<close> is the validity check together with the
  reading of the numbers. Statistics are reals, sample counts naturals.
\<close>

section \<open>Prices\<close>

text \<open>A catalog entry: \<open>tier\<close> with its type and size, \<open>cache\<close> with its read and write price.\<close>

record price_entry =
  pe_tier :: "(string \<times> jsnum) option"
  pe_input :: jsnum
  pe_output :: jsnum
  pe_cache :: "(jsnum option \<times> jsnum option) option"

datatype model_pricing = NoPricing | OnePrice price_entry | ManyPrices "price_entry list"

text \<open>A valid entry's numbers; \<open>pr_tier\<close> is the size of a \<^verbatim>\<open>context\<close> tier.\<close>

record price =
  pr_tier :: "real option"
  pr_input :: real
  pr_output :: real
  pr_read :: "real option"
  pr_write :: "real option"

fun non_negative :: "jsnum \<Rightarrow> real option" where
  "non_negative (Fin x) = (if 0 \<le> x then Some x else None)"
| "non_negative _ = None"

text \<open>An optional price: absent is fine, present must be finite and not negative.\<close>

definition optional_price :: "jsnum option \<Rightarrow> real option option" where
  "optional_price x = (case x of None \<Rightarrow> Some None | Some v \<Rightarrow> map_option Some (non_negative v))"

definition tier_size :: "(string \<times> jsnum) option \<Rightarrow> real option option" where
  "tier_size t =
     (case t of None \<Rightarrow> Some None
      | Some (kind, sz) \<Rightarrow>
          (if kind \<noteq> ''context'' then None
           else (case sz of Fin x \<Rightarrow> if 0 < x then Some (Some x) else None | _ \<Rightarrow> None)))"

definition read_price :: "price_entry \<Rightarrow> price option" where
  "read_price e =
     (case (non_negative (pe_input e), non_negative (pe_output e),
            (case pe_cache e of None \<Rightarrow> Some None | Some c \<Rightarrow> optional_price (fst c)),
            (case pe_cache e of None \<Rightarrow> Some None | Some c \<Rightarrow> optional_price (snd c)),
            tier_size (pe_tier e)) of
        (Some inp, Some out, Some rd, Some wr, Some tr) \<Rightarrow>
          Some \<lparr>pr_tier = tr, pr_input = inp, pr_output = out, pr_read = rd, pr_write = wr\<rparr>
      | _ \<Rightarrow> None)"

definition normalizePricing :: "model_pricing \<Rightarrow> price list" where
  "normalizePricing pricing =
     (case pricing of NoPricing \<Rightarrow> [] | OnePrice e \<Rightarrow> List.map_filter read_price [e]
      | ManyPrices es \<Rightarrow> List.map_filter read_price es)"

definition isUnpriced :: "model_pricing \<Rightarrow> bool" where
  "isUnpriced pricing \<longleftrightarrow>
     (let entries = normalizePricing pricing in
      entries = [] \<or>
      list_all (\<lambda>e. pr_input e = 0 \<and> pr_output e = 0 \<and> or_else (pr_read e) 0 = 0 \<and> or_else (pr_write e) 0 = 0) entries)"

datatype pricing_state = Priced | Unpriced

definition pricingState :: "model_pricing \<Rightarrow> pricing_state" where
  "pricingState pricing = (if isUnpriced pricing then Unpriced else Priced)"

definition stepUSD :: "jsnum \<Rightarrow> pricing_state \<Rightarrow> real option" where
  "stepUSD rawCost pricing =
     (case non_negative rawCost of None \<Rightarrow> None
      | Some c \<Rightarrow> if c = 0 \<and> pricing = Unpriced then None else Some c)"

definition first_of :: "'a list \<Rightarrow> 'a option" where
  "first_of xs = (case xs of [] \<Rightarrow> None | x # _ \<Rightarrow> Some x)"

definition selectPriceEntry :: "model_pricing \<Rightarrow> jsnum \<Rightarrow> price option" where
  "selectPriceEntry pricing inputTokens =
     (let entries = normalizePricing pricing;
          inp = (case inputTokens of Fin x \<Rightarrow> x | _ \<Rightarrow> 0);
          tiered = sort_key (\<lambda>e. the (pr_tier e)) (filter (\<lambda>e. pr_tier e \<noteq> None) entries);
          base = filter (\<lambda>e. pr_tier e = None) entries;
          best = fold (\<lambda>e acc. if the (pr_tier e) < inp then Some e else acc) tiered None
      in first_some (first_some best (first_of base)) (first_of tiered))"

section \<open>Tokens\<close>

record token_sample =
  tk_input :: real
  tk_output :: real
  tk_reasoning :: real
  tk_cacheRead :: real
  tk_cacheWrite :: real

text \<open>The same counts as they arrive.\<close>

record raw_tokens =
  rw_input :: jsnum
  rw_output :: jsnum
  rw_reasoning :: jsnum
  rw_cacheRead :: jsnum
  rw_cacheWrite :: jsnum

definition PER_MILLION :: real where "PER_MILLION = 1000000"

definition priceTokens :: "price \<Rightarrow> token_sample \<Rightarrow> real" where
  "priceTokens e t =
     (tk_input t * pr_input e + (tk_output t + tk_reasoning t) * pr_output e +
      tk_cacheRead t * or_else (pr_read e) 0 + tk_cacheWrite t * or_else (pr_write e) 0) / PER_MILLION"

definition nonNegativeOrZero :: "jsnum \<Rightarrow> real" where
  "nonNegativeOrZero x = or_else (non_negative x) 0"

definition emptyTokenSample :: token_sample where
  "emptyTokenSample = \<lparr>tk_input = 0, tk_output = 0, tk_reasoning = 0, tk_cacheRead = 0, tk_cacheWrite = 0\<rparr>"

definition cleanTokenSample :: "raw_tokens \<Rightarrow> token_sample" where
  "cleanTokenSample t =
     \<lparr>tk_input = nonNegativeOrZero (rw_input t), tk_output = nonNegativeOrZero (rw_output t),
      tk_reasoning = nonNegativeOrZero (rw_reasoning t), tk_cacheRead = nonNegativeOrZero (rw_cacheRead t),
      tk_cacheWrite = nonNegativeOrZero (rw_cacheWrite t)\<rparr>"

definition addTokens :: "token_sample \<Rightarrow> token_sample \<Rightarrow> token_sample" where
  "addTokens a b =
     \<lparr>tk_input = tk_input a + tk_input b, tk_output = tk_output a + tk_output b,
      tk_reasoning = tk_reasoning a + tk_reasoning b, tk_cacheRead = tk_cacheRead a + tk_cacheRead b,
      tk_cacheWrite = tk_cacheWrite a + tk_cacheWrite b\<rparr>"

section \<open>Running means\<close>

record mean_stat =
  ms_mean :: real
  ms_n :: nat

text \<open>Per-field token means with one sample count.\<close>

record token_means =
  tm_n :: nat
  tm_mean :: token_sample

record cost_stats =
  co_measuredUSD :: mean_stat
  co_unpricedAttempts :: nat
  co_tokens :: token_means
  co_steps :: mean_stat
  co_finalMessageTokens :: mean_stat

definition mean_weight :: "nat \<Rightarrow> real \<Rightarrow> real" where
  "mean_weight n1 maxEffectiveSamples = 1 / min (real n1) (max 1 maxEffectiveSamples)"

definition updateMean :: "mean_stat \<Rightarrow> real \<Rightarrow> real \<Rightarrow> mean_stat" where
  "updateMean stat x maxEffectiveSamples =
     (let n1 = ms_n stat + 1 in
      \<lparr>ms_mean = ms_mean stat + (x - ms_mean stat) * mean_weight n1 maxEffectiveSamples, ms_n = n1\<rparr>)"

text \<open>A combination of two samples, field by field.\<close>

definition zip_tokens :: "(real \<Rightarrow> real \<Rightarrow> real) \<Rightarrow> token_sample \<Rightarrow> token_sample \<Rightarrow> token_sample" where
  "zip_tokens f a b =
     \<lparr>tk_input = f (tk_input a) (tk_input b), tk_output = f (tk_output a) (tk_output b),
      tk_reasoning = f (tk_reasoning a) (tk_reasoning b), tk_cacheRead = f (tk_cacheRead a) (tk_cacheRead b),
      tk_cacheWrite = f (tk_cacheWrite a) (tk_cacheWrite b)\<rparr>"

definition updateTokenMeans :: "token_means \<Rightarrow> token_sample \<Rightarrow> real \<Rightarrow> token_means" where
  "updateTokenMeans t sample maxEffectiveSamples =
     (let n1 = tm_n t + 1; w = mean_weight n1 maxEffectiveSamples in
      \<lparr>tm_n = n1, tm_mean = zip_tokens (\<lambda>m s. m + (s - m) * w) (tm_mean t) sample\<rparr>)"

definition emptyMeanStat :: mean_stat where
  "emptyMeanStat = \<lparr>ms_mean = 0, ms_n = 0\<rparr>"

definition emptyTokenMeans :: token_means where
  "emptyTokenMeans = \<lparr>tm_n = 0, tm_mean = emptyTokenSample\<rparr>"

definition emptyCostStats :: cost_stats where
  "emptyCostStats = \<lparr>co_measuredUSD = emptyMeanStat, co_unpricedAttempts = 0, co_tokens = emptyTokenMeans,
     co_steps = emptyMeanStat, co_finalMessageTokens = emptyMeanStat\<rparr>"

record open_attempt =
  oa_key :: string
  oa_attemptID :: string
  oa_steps :: nat
  oa_usd :: real
  oa_usdKnown :: bool
  oa_tokens :: token_sample
  oa_finalOutput :: "real option"
  oa_lastStepAt :: real

definition foldAttempt :: "cost_stats \<Rightarrow> open_attempt \<Rightarrow> real \<Rightarrow> cost_stats" where
  "foldAttempt stats attempt cap =
     (let usdKnown = (oa_usdKnown attempt \<and> 0 < oa_steps attempt) in
      \<lparr>co_measuredUSD = (if usdKnown then updateMean (co_measuredUSD stats) (oa_usd attempt) cap
                         else co_measuredUSD stats),
       co_unpricedAttempts = (if usdKnown then co_unpricedAttempts stats else co_unpricedAttempts stats + 1),
       co_tokens = updateTokenMeans (co_tokens stats) (oa_tokens attempt) cap,
       co_steps = updateMean (co_steps stats) (real (oa_steps attempt)) cap,
       co_finalMessageTokens = (case oa_finalOutput attempt of None \<Rightarrow> co_finalMessageTokens stats
                                | Some x \<Rightarrow> updateMean (co_finalMessageTokens stats) x cap)\<rparr>)"

definition mergeMean :: "mean_stat \<Rightarrow> mean_stat \<Rightarrow> mean_stat" where
  "mergeMean a b =
     (let n = ms_n a + ms_n b in
      \<lparr>ms_mean = (if 0 < n then (ms_mean a * real (ms_n a) + ms_mean b * real (ms_n b)) / real n else 0), ms_n = n\<rparr>)"

definition mergeTokenMeans :: "token_means \<Rightarrow> token_means \<Rightarrow> token_means" where
  "mergeTokenMeans a b =
     (let n = tm_n a + tm_n b in
      if n = 0 then emptyTokenMeans
      else \<lparr>tm_n = n, tm_mean = zip_tokens (\<lambda>x y. (x * real (tm_n a) + y * real (tm_n b)) / real n) (tm_mean a) (tm_mean b)\<rparr>)"

definition mergeCostStats :: "cost_stats \<Rightarrow> cost_stats \<Rightarrow> cost_stats" where
  "mergeCostStats a b =
     \<lparr>co_measuredUSD = mergeMean (co_measuredUSD a) (co_measuredUSD b),
      co_unpricedAttempts = co_unpricedAttempts a + co_unpricedAttempts b,
      co_tokens = mergeTokenMeans (co_tokens a) (co_tokens b),
      co_steps = mergeMean (co_steps a) (co_steps b),
      co_finalMessageTokens = mergeMean (co_finalMessageTokens a) (co_finalMessageTokens b)\<rparr>"

section \<open>Units and expected costs\<close>

datatype cost_unit = USD | Ratio

record unit_candidate =
  uc_priced :: bool
  uc_measuredUSD :: mean_stat
  uc_tokenSamples :: nat

definition MIN_MEASURED_USD_SAMPLES :: nat where
  "MIN_MEASURED_USD_SAMPLES = 3"

definition compareUnit :: "unit_candidate list \<Rightarrow> cost_unit" where
  "compareUnit cands =
     (if cands = [] then Ratio
      else if list_all (\<lambda>c. MIN_MEASURED_USD_SAMPLES \<le> ms_n (uc_measuredUSD c) \<or>
                           uc_priced c \<and> 1 \<le> uc_tokenSamples c) cands
      then USD else Ratio)"

definition expectedAttemptUSD :: "cost_stats \<Rightarrow> model_pricing \<Rightarrow> token_means option \<Rightarrow> real option" where
  "expectedAttemptUSD stats pricing classProfile =
     (if MIN_MEASURED_USD_SAMPLES \<le> ms_n (co_measuredUSD stats) then Some (ms_mean (co_measuredUSD stats))
      else if isUnpriced pricing then None
      else (case (if 1 \<le> tm_n (co_tokens stats) then Some (co_tokens stats)
                  else (case classProfile of None \<Rightarrow> None | Some c \<Rightarrow> if 1 \<le> tm_n c then Some c else None)) of
              None \<Rightarrow> None
            | Some profile \<Rightarrow>
                (let steps = (if 1 \<le> ms_n (co_steps stats) then ms_mean (co_steps stats) else 1);
                     t = tm_mean profile;
                     ctx = (tk_input t + tk_cacheRead t + tk_cacheWrite t) / max 1 steps
                 in map_option (\<lambda>e. priceTokens e t) (selectPriceEntry pricing (Fin ctx)))))"

definition taxUSD :: "mean_stat \<Rightarrow> jsnum \<Rightarrow> model_pricing \<Rightarrow> jsnum \<Rightarrow> real option" where
  "taxUSD finalMessageTokens remainingTurns pricing contextTokens =
     (if ms_n finalMessageTokens = 0 \<or> isUnpriced pricing then None
      else (case selectPriceEntry pricing contextTokens of None \<Rightarrow> None
            | Some e \<Rightarrow>
                (let turns = (case remainingTurns of Fin x \<Rightarrow> if 0 < x then x else 0 | _ \<Rightarrow> 0) in
                 Some (ms_mean finalMessageTokens * turns * or_else (pr_read e) (pr_input e) / PER_MILLION))))"

section \<open>Prices of a model\<close>

lemma normalized_valid:
  assumes "e \<in> set (normalizePricing pricing)"
  shows "0 \<le> pr_input e" "0 \<le> pr_output e" "0 \<le> or_else (pr_read e) 0" "0 \<le> or_else (pr_write e) 0"
    "pr_tier e = Some z \<Longrightarrow> 0 < z"
proof -
  have nn: "non_negative x = Some r \<Longrightarrow> 0 \<le> r" for x r by (cases x) (auto split: if_splits)
  have op: "optional_price x = Some r \<Longrightarrow> 0 \<le> or_else r 0" for x r
    using nn by (auto simp: optional_price_def split: option.splits)
  have ts: "tier_size x = Some (Some r) \<Longrightarrow> 0 < r" for x r
    by (auto simp: tier_size_def split: option.splits prod.splits if_splits jsnum.splits)
  obtain raw where r: "read_price raw = Some e"
    using assms by (auto simp: normalizePricing_def map_filter_simps split: model_pricing.splits option.splits)
      (auto simp: List.map_filter_def)
  then show "0 \<le> pr_input e" "0 \<le> pr_output e" "0 \<le> or_else (pr_read e) 0" "0 \<le> or_else (pr_write e) 0"
    "pr_tier e = Some z \<Longrightarrow> 0 < z"
    by (auto simp: read_price_def dest: nn op ts split: option.splits)
qed

lemma fold_last_match:
  "fold (\<lambda>e acc. if P e then Some e else acc) xs acc =
     (if filter P xs = [] then acc else Some (last (filter P xs)))"
  by (induction xs arbitrary: acc) auto

lemma first_of_in: "first_of xs = Some x \<Longrightarrow> x \<in> set xs"
  by (cases xs) (auto simp: first_of_def)

lemma sorted_last: "sorted (map f xs) \<Longrightarrow> x \<in> set xs \<Longrightarrow> f x \<le> f (last xs)"
proof (induction xs)
  case (Cons y ys)
  then show ?case by (cases "ys = []") auto
qed simp

lemma select_tier:
  assumes "selectPriceEntry pricing (Fin c) = Some e"
  shows "e \<in> set (normalizePricing pricing)"
    "z \<in> set (normalizePricing pricing) \<Longrightarrow> pr_tier z = Some a \<Longrightarrow> a < c \<Longrightarrow>
       \<exists>b. pr_tier e = Some b \<and> a \<le> b \<and> b < c"
proof -
  let ?ns = "normalizePricing pricing"
  define ts where "ts = sort_key (\<lambda>e. the (pr_tier e)) (filter (\<lambda>e. pr_tier e \<noteq> None) ?ns)"
  define ms where "ms = filter (\<lambda>e. the (pr_tier e) < c) ts"
  have "first_some (first_some (if ms = [] then None else Some (last ms))
      (first_of (filter (\<lambda>e. pr_tier e = None) ?ns))) (first_of ts) = Some e"
    using assms by (simp only: selectPriceEntry_def Let_def fold_last_match ts_def ms_def jsnum.case)
  then have e: "e = last ms \<and> ms \<noteq> [] \<or> ms = [] \<and> e \<in> set ?ns"
    by (cases "first_of (filter (\<lambda>e. pr_tier e = None) ?ns)")
      (auto simp: ts_def dest!: first_of_in split: if_splits)
  have sub: "set ms \<subseteq> set ?ns" by (auto simp: ms_def ts_def)
  then show "e \<in> set ?ns" using e last_in_set by blast
  assume z: "z \<in> set ?ns" "pr_tier z = Some a" "a < c"
  then have zm: "z \<in> set ms" by (auto simp: ms_def ts_def)
  then have ne: "ms \<noteq> []" by auto
  with e have el: "e = last ms" by blast
  have "sorted (map (\<lambda>e. the (pr_tier e)) ms)"
    unfolding ms_def ts_def by (rule sorted_filter) simp
  from sorted_last [OF this zm] have "the (pr_tier z) \<le> the (pr_tier e)" by (simp add: el)
  moreover have "e \<in> set ms" using ne el by simp
  then have "the (pr_tier e) < c" "pr_tier e \<noteq> None" by (auto simp: ms_def ts_def)
  ultimately show "\<exists>b. pr_tier e = Some b \<and> a \<le> b \<and> b < c" using z by auto
qed

lemma select_some: "normalizePricing pricing \<noteq> [] \<Longrightarrow> selectPriceEntry pricing x \<noteq> None"
proof -
  assume ne: "normalizePricing pricing \<noteq> []"
  then obtain e where e: "e \<in> set (normalizePricing pricing)" by (cases "normalizePricing pricing") auto
  show ?thesis
  proof (cases "pr_tier e")
    case None
    with e have "filter (\<lambda>e. pr_tier e = None) (normalizePricing pricing) \<noteq> []" by (auto simp: filter_empty_conv)
    then show ?thesis
      by (auto simp: selectPriceEntry_def Let_def first_some_def first_of_def split: option.split list.split)
  next
    case (Some z)
    with e have "set (filter (\<lambda>e. pr_tier e \<noteq> None) (normalizePricing pricing)) \<noteq> {}" by auto
    then have "sort_key (\<lambda>e. the (pr_tier e)) (filter (\<lambda>e. pr_tier e \<noteq> None) (normalizePricing pricing)) \<noteq> []"
      by (metis set_sort set_empty)
    then show ?thesis
      by (auto simp: selectPriceEntry_def Let_def first_some_def first_of_def split: option.split list.split)
  qed
qed

text \<open>A price entry exists and is not negative, so a priced profile has a non-negative estimate.\<close>

definition tokens_nonneg :: "token_sample \<Rightarrow> bool" where
  "tokens_nonneg t \<longleftrightarrow> 0 \<le> tk_input t \<and> 0 \<le> tk_output t \<and> 0 \<le> tk_reasoning t \<and>
     0 \<le> tk_cacheRead t \<and> 0 \<le> tk_cacheWrite t"

definition stats_nonneg :: "cost_stats \<Rightarrow> bool" where
  "stats_nonneg s \<longleftrightarrow> 0 \<le> ms_mean (co_measuredUSD s) \<and> tokens_nonneg (tm_mean (co_tokens s)) \<and>
     0 \<le> ms_mean (co_steps s) \<and> 0 \<le> ms_mean (co_finalMessageTokens s)"

lemma priceTokens_nonneg:
  "e \<in> set (normalizePricing pricing) \<Longrightarrow> tokens_nonneg t \<Longrightarrow> 0 \<le> priceTokens e t"
  using normalized_valid [of e pricing] by (auto simp: priceTokens_def tokens_nonneg_def PER_MILLION_def)

lemma expected_nonneg:
  assumes "stats_nonneg stats" and "\<And>p. prof = Some p \<Longrightarrow> tokens_nonneg (tm_mean p)"
    and "expectedAttemptUSD stats pricing prof = Some v"
  shows "0 \<le> v"
proof (cases "MIN_MEASURED_USD_SAMPLES \<le> ms_n (co_measuredUSD stats)")
  case True
  with assms show ?thesis by (auto simp: expectedAttemptUSD_def stats_nonneg_def)
next
  case False
  with assms(3) obtain p e x where p: "v = priceTokens e (tm_mean p)" "selectPriceEntry pricing (Fin x) = Some e"
    "p = co_tokens stats \<or> prof = Some p"
    by (auto simp: expectedAttemptUSD_def Let_def split: if_splits option.splits)
  then have "tokens_nonneg (tm_mean p)" using assms(1,2) by (auto simp: stats_nonneg_def)
  with p select_tier(1) [OF p(2)] show ?thesis by (simp add: priceTokens_nonneg)
qed

text \<open>The samples the kernel offers for pricing: the key's own, else the class profile's.\<close>

definition tokenSamples :: "cost_stats option \<Rightarrow> token_means option \<Rightarrow> nat" where
  "tokenSamples stats profile =
     (case stats of
        Some s \<Rightarrow> if 1 \<le> tm_n (co_tokens s) then tm_n (co_tokens s)
                  else (case profile of None \<Rightarrow> 0 | Some p \<Rightarrow> tm_n p)
      | None \<Rightarrow> (case profile of None \<Rightarrow> 0 | Some p \<Rightarrow> tm_n p))"

definition unit_candidate_of :: "cost_stats \<Rightarrow> model_pricing \<Rightarrow> token_means option \<Rightarrow> unit_candidate" where
  "unit_candidate_of stats pricing prof =
     \<lparr>uc_priced = (\<not> isUnpriced pricing), uc_measuredUSD = co_measuredUSD stats,
      uc_tokenSamples = tokenSamples (Some stats) prof\<rparr>"

lemma estimate_exists:
  "MIN_MEASURED_USD_SAMPLES \<le> ms_n (co_measuredUSD stats) \<or> \<not> isUnpriced pricing \<and> 1 \<le> tokenSamples (Some stats) prof \<Longrightarrow>
   expectedAttemptUSD stats pricing prof \<noteq> None"
  using select_some [of pricing]
  by (auto simp: expectedAttemptUSD_def tokenSamples_def isUnpriced_def Let_def split: option.splits if_splits)

text \<open>The unit rule never promises a price it cannot give: when all candidates are declared
  comparable in dollars, each of them has a dollar estimate of an attempt, and with non-negative
  statistics the estimate is not negative.\<close>

theorem usd_unit_has_estimates:
  assumes "compareUnit (map (\<lambda>(s, p). unit_candidate_of s p prof) cands) = USD" and "(s, p) \<in> set cands"
  shows "\<exists>v. expectedAttemptUSD s p prof = Some v \<and>
     (stats_nonneg s \<longrightarrow> (\<forall>c. prof = Some c \<longrightarrow> tokens_nonneg (tm_mean c)) \<longrightarrow> 0 \<le> v)"
proof -
  have "MIN_MEASURED_USD_SAMPLES \<le> ms_n (co_measuredUSD s) \<or> \<not> isUnpriced p \<and> 1 \<le> tokenSamples (Some s) prof"
    using assms by (auto simp: compareUnit_def list_all_iff unit_candidate_of_def split: if_splits)
  from estimate_exists [OF this] obtain v where "expectedAttemptUSD s p prof = Some v" by blast
  with expected_nonneg show ?thesis by blast
qed

section \<open>Running means are means\<close>

definition stat_of :: "real list \<Rightarrow> mean_stat" where
  "stat_of xs = \<lparr>ms_mean = (if xs = [] then 0 else sum_list xs / real (length xs)), ms_n = length xs\<rparr>"

lemma updateMean_stat_of:
  "real (length xs) + 1 \<le> cap \<Longrightarrow> updateMean (stat_of xs) x cap = stat_of (xs @ [x])"
proof -
  assume cap: "real (length xs) + 1 \<le> cap"
  then have "mean_weight (length xs + 1) cap = 1 / (real (length xs) + 1)"
    by (simp add: mean_weight_def min_def max_def)
  then show ?thesis
    by (cases "xs = []") (simp_all add: updateMean_def stat_of_def Let_def field_simps)
qed

lemma mergeMean_stat_of: "mergeMean (stat_of xs) (stat_of ys) = stat_of (xs @ ys)"
  by (auto simp: mergeMean_def stat_of_def Let_def add_divide_distrib)

text \<open>Each field of the token means is a running mean with the shared count.\<close>

definition tokens_of :: "token_sample list \<Rightarrow> token_means" where
  "tokens_of ts = \<lparr>tm_n = length ts, tm_mean =
     \<lparr>tk_input = ms_mean (stat_of (map tk_input ts)), tk_output = ms_mean (stat_of (map tk_output ts)),
      tk_reasoning = ms_mean (stat_of (map tk_reasoning ts)), tk_cacheRead = ms_mean (stat_of (map tk_cacheRead ts)),
      tk_cacheWrite = ms_mean (stat_of (map tk_cacheWrite ts))\<rparr>\<rparr>"

lemma field_update:
  "real (length xs) + 1 \<le> cap \<Longrightarrow>
   ms_mean (stat_of xs) + (x - ms_mean (stat_of xs)) * mean_weight (Suc (length xs)) cap = ms_mean (stat_of (xs @ [x]))"
  using updateMean_stat_of [of xs cap x, THEN arg_cong, of ms_mean]
  by (simp add: updateMean_def Let_def) (simp add: stat_of_def)

lemma field_merge:
  "xs \<noteq> [] \<or> ys \<noteq> [] \<Longrightarrow>
   (ms_mean (stat_of xs) * real (length xs) + ms_mean (stat_of ys) * real (length ys)) / (real (length xs) + real (length ys)) =
   ms_mean (stat_of (xs @ ys))"
  using mergeMean_stat_of [of xs ys, THEN arg_cong, of ms_mean]
  by (auto simp: mergeMean_def Let_def) (auto simp: stat_of_def)

definition demo_price :: price_entry where
  "demo_price = \<lparr>pe_tier = None, pe_input = Fin 3, pe_output = Fin 15, pe_cache = None\<rparr>"

theorem usd_unit_has_estimates_witness:
  "\<exists>v. expectedAttemptUSD emptyCostStats (OnePrice demo_price) (Some (tokens_of [emptyTokenSample])) = Some v"
proof -
  let ?p = "OnePrice demo_price"
  have "\<not> isUnpriced ?p"
    by (simp add: isUnpriced_def normalizePricing_def map_filter_simps read_price_def demo_price_def tier_size_def)
  then have "compareUnit (map (\<lambda>(s, p). unit_candidate_of s p (Some (tokens_of [emptyTokenSample]))) [(emptyCostStats, ?p)]) = USD"
    by (simp add: compareUnit_def unit_candidate_of_def tokenSamples_def emptyCostStats_def emptyTokenMeans_def tokens_of_def)
  from usd_unit_has_estimates [OF this, of emptyCostStats ?p] show ?thesis by auto
qed

lemma update_tokens:
  "real (length ts) + 1 \<le> cap \<Longrightarrow> updateTokenMeans (tokens_of ts) t cap = tokens_of (ts @ [t])"
  using field_update [of "map tk_input ts" cap "tk_input t"] field_update [of "map tk_output ts" cap "tk_output t"]
    field_update [of "map tk_reasoning ts" cap "tk_reasoning t"] field_update [of "map tk_cacheRead ts" cap "tk_cacheRead t"]
    field_update [of "map tk_cacheWrite ts" cap "tk_cacheWrite t"]
  by (simp add: updateTokenMeans_def Let_def tokens_of_def zip_tokens_def)

lemma merge_tokens: "mergeTokenMeans (tokens_of as) (tokens_of bs) = tokens_of (as @ bs)"
proof (cases "as = [] \<and> bs = []")
  case True
  then show ?thesis
    by (simp add: mergeTokenMeans_def tokens_of_def emptyTokenMeans_def emptyTokenSample_def stat_of_def)
next
  case False
  then show ?thesis
    using field_merge [of "map tk_input as" "map tk_input bs"] field_merge [of "map tk_output as" "map tk_output bs"]
      field_merge [of "map tk_reasoning as" "map tk_reasoning bs"]
      field_merge [of "map tk_cacheRead as" "map tk_cacheRead bs"]
      field_merge [of "map tk_cacheWrite as" "map tk_cacheWrite bs"]
    by (auto simp: mergeTokenMeans_def tokens_of_def zip_tokens_def Let_def)
qed

definition fold_attempts :: "real \<Rightarrow> open_attempt list \<Rightarrow> cost_stats" where
  "fold_attempts cap as = fold (\<lambda>a s. foldAttempt s a cap) as emptyCostStats"

definition usd_known :: "open_attempt \<Rightarrow> bool" where
  "usd_known a \<longleftrightarrow> oa_usdKnown a \<and> 0 < oa_steps a"

text \<open>The statistics of a list of attempts, written out.\<close>

definition stats_of :: "open_attempt list \<Rightarrow> cost_stats" where
  "stats_of as =
     \<lparr>co_measuredUSD = stat_of (map oa_usd (filter usd_known as)),
      co_unpricedAttempts = length (filter (\<lambda>a. \<not> usd_known a) as),
      co_tokens = tokens_of (map oa_tokens as),
      co_steps = stat_of (map (\<lambda>a. real (oa_steps a)) as),
      co_finalMessageTokens = stat_of (List.map_filter oa_finalOutput as)\<rparr>"

lemma map_filter_append [simp]: "List.map_filter f (xs @ ys) = List.map_filter f xs @ List.map_filter f ys"
  by (simp add: List.map_filter_def)

lemma map_filter_length: "length (List.map_filter f xs) \<le> length xs"
  by (simp add: List.map_filter_def)

lemma stats_of_fold: "real (length as) \<le> cap \<Longrightarrow> fold_attempts cap as = stats_of as"
proof (induction as rule: rev_induct)
  case Nil
  then show ?case
    by (simp add: fold_attempts_def stats_of_def emptyCostStats_def emptyMeanStat_def stat_of_def tokens_of_def
        emptyTokenMeans_def emptyTokenSample_def map_filter_simps)
next
  case (snoc a as)
  have cap: "real (length as) + 1 \<le> cap" using snoc.prems by simp
  have le: "real (length (filter usd_known as)) + 1 \<le> cap" "real (length (List.map_filter oa_finalOutput as)) + 1 \<le> cap"
    using cap length_filter_le [of usd_known as] map_filter_length [of oa_finalOutput as] by linarith+
  have IH: "fold_attempts cap as = stats_of as" using snoc by simp
  have "fold_attempts cap (as @ [a]) = foldAttempt (stats_of as) a cap"
    using IH by (simp add: fold_attempts_def)
  also have "\<dots> = stats_of (as @ [a])"
    using updateMean_stat_of [of "map oa_usd (filter usd_known as)" cap "oa_usd a"]
      updateMean_stat_of [of "map (\<lambda>a. real (oa_steps a)) as" cap "real (oa_steps a)"]
      updateMean_stat_of [of "List.map_filter oa_finalOutput as" cap]
      update_tokens [of "map oa_tokens as" cap "oa_tokens a"] cap le
    by (cases "oa_finalOutput a") (simp_all add: foldAttempt_def stats_of_def Let_def map_filter_simps usd_known_def)
  finally show ?case .
qed

text \<open>Cost statistics are exact and mergeable: while no more attempts than the configured cap have
  been folded, every statistic of a key is the arithmetic mean (or count) over exactly the attempts it is
  defined for, and merging the statistics of two writers gives those of the concatenated attempts.\<close>

theorem cost_statistics_exact:
  assumes "real (length as) \<le> cap" and "real (length bs) \<le> cap"
  shows "fold_attempts cap as = stats_of as \<and>
    mergeCostStats (fold_attempts cap as) (fold_attempts cap bs) = stats_of (as @ bs)"
  using stats_of_fold [OF assms(1)] stats_of_fold [OF assms(2)]
  by (simp add: mergeCostStats_def stats_of_def mergeMean_stat_of merge_tokens)

definition demo_attempt :: open_attempt where
  "demo_attempt = \<lparr>oa_key = ''k'', oa_attemptID = ''a'', oa_steps = 2, oa_usd = 3, oa_usdKnown = True,
     oa_tokens = emptyTokenSample, oa_finalOutput = Some 7, oa_lastStepAt = 0\<rparr>"

theorem cost_statistics_exact_witness:
  "mergeCostStats (fold_attempts 50 [demo_attempt]) (fold_attempts 50 [demo_attempt]) = stats_of [demo_attempt, demo_attempt]"
  using cost_statistics_exact [of "[demo_attempt]" 50 "[demo_attempt]"] by auto

end
