(* ===== verification/Kernel.thy ===== *)
theory Kernel
  imports Facts Outcome_Key Beta Cost
begin

text \<open>
  The decision kernel, \<^verbatim>\<open>src/routing/engine/kernel.ts\<close> with \<^verbatim>\<open>src/routing/engine/types.ts\<close>:
  the expected cost of the whole cascade per candidate, and the rule by which the orchestrator's pick is
  replaced. Ranks are integers. Numbers the code tests for being finite are \<open>jsnum\<close>s where they come
  from configuration; what is computed from finite numbers is a real. A \<open>NaN\<close> slot of the code's
  arrays is \<open>None\<close>. The store is a record of its three read operations. Reason texts are not modelled.
\<close>

section \<open>Types\<close>

datatype candidate_source = FromTier | RoleOwnModel | RoleTierRung | RoleRange

record candidate =
  ca_agent :: agent_ref
  ca_model :: string
  ca_variant :: "string option"
  ca_costRatio :: jsnum
  ca_rank :: int
  ca_tier :: string
  ca_source :: candidate_source
  ca_grants :: "need list option"
  ca_pricing :: model_pricing

record preset_rung =
  pg_model :: string
  pg_variant :: "string option"
  pg_rank :: int

text \<open>\<open>el_next\<close> and the entries of \<open>el_paths\<close> are indices; an absent \<^verbatim>\<open>paths\<close> or \<^verbatim>\<open>reachable\<close> is empty.\<close>

record engine_ladder =
  el_candidates :: "candidate list"
  el_next :: "int option list"
  el_classRank :: "int option"
  el_reachable :: "candidate list"
  el_paths :: "int list option list"
  el_presetRungs :: "preset_rung list option"

record store_view =
  sv_posterior :: "outcome_key \<Rightarrow> beta_prior \<Rightarrow> posterior_view"
  sv_cost :: "outcome_key \<Rightarrow> cost_stats"
  sv_classTokenProfile :: "string \<Rightarrow> token_means option"

datatype routing_profile = Frugal | Balanced | Safe

record kernel_routing =
  kr_profile :: routing_profile
  kr_margin :: jsnum
  kr_minClassConfidence :: jsnum
  kr_detection :: "detection \<Rightarrow> jsnum"

record chosen_dispatch =
  ch_agent :: agent_ref
  ch_model :: string
  ch_variant :: "string option"

record decision_input =
  in_facts :: task_facts
  in_chosen :: chosen_dispatch
  in_ladder :: engine_ladder
  in_detection :: detection
  in_pin :: bool
  in_routing :: kernel_routing
  in_store :: "store_view option"
  in_floorRank :: "int option"
  in_orchestrator :: "(model_pricing \<times> jsnum) option"
  in_remainingTurns :: "jsnum option"

datatype ineligible_reason = WhyNeeds | WhyFloor | WhyNeverDown | WhyInvalidCost | WhyEvidence

datatype decision_reason = Switched | KeptNoCandidates | KeptPinned | KeptChosenNotCandidate | KeptBestIsChosen
  | KeptClassConfidence | KeptMargin | KeptEvidence | KeptInvalidConfig

record route_choice =
  rc_key :: outcome_key
  rc_agent :: string
  rc_origin :: agent_origin
  rc_model :: string
  rc_variant :: string

record engine_decision =
  de_chosen :: route_choice
  de_best :: "route_choice option"
  de_argmin :: "route_choice option"
  de_switched :: bool
  de_pinned :: bool
  de_confidence :: real
  de_reason :: decision_reason
  de_costs :: "(outcome_key \<times> real) list"
  de_unit :: cost_unit
  de_ineligible :: "(outcome_key \<times> ineligible_reason) list"
  de_target :: "candidate option"
  de_pickRank :: "int option"

section \<open>Constants and small helpers\<close>

fun GIVE_UP_COST :: "routing_profile \<Rightarrow> risk \<Rightarrow> real" where
  "GIVE_UP_COST Frugal RiskLow = 3" | "GIVE_UP_COST Frugal RiskMedium = 8" | "GIVE_UP_COST Frugal RiskHigh = 20"
| "GIVE_UP_COST Balanced RiskLow = 5" | "GIVE_UP_COST Balanced RiskMedium = 15" | "GIVE_UP_COST Balanced RiskHigh = 40"
| "GIVE_UP_COST Safe RiskLow = 10" | "GIVE_UP_COST Safe RiskMedium = 30" | "GIVE_UP_COST Safe RiskHigh = 100"

definition DEFAULT_REMAINING_TURNS :: real where "DEFAULT_REMAINING_TURNS = 4"
definition MIN_EVIDENCE_TO_SWITCH_DOWN :: real where "MIN_EVIDENCE_TO_SWITCH_DOWN = PRIOR_STRENGTH"
definition EVIDENCE_EPSILON :: real where "EVIDENCE_EPSILON = 1 / 1000000"

definition hasMinEvidence :: "real \<Rightarrow> bool" where
  "hasMinEvidence n \<longleftrightarrow> MIN_EVIDENCE_TO_SWITCH_DOWN \<le> n + EVIDENCE_EPSILON"

fun clamp01 :: "jsnum \<Rightarrow> real" where
  "clamp01 (Fin x) = min 1 (max 0 x)"
| "clamp01 _ = 0"

definition round2 :: "real \<Rightarrow> real" where
  "round2 x = of_int (js_round (x * 100)) / 100"

definition modelParts :: "string \<Rightarrow> string option \<Rightarrow> string \<times> string \<times> string option" where
  "modelParts model vnt =
     (case splitModelRef model of None \<Rightarrow> ([], model, vnt)
      | Some (provider, m, v) \<Rightarrow> (provider, m, first_some vnt v))"

definition keyOf :: "string \<Rightarrow> agent_ref \<Rightarrow> string \<times> string \<times> string option \<Rightarrow> outcome_key" where
  "keyOf cls agent parts = (case parts of (provider, model, vnt) \<Rightarrow> makeKey cls agent provider model vnt)"

definition parts_model :: "string \<times> string \<times> string option \<Rightarrow> string" where
  "parts_model parts = (case parts of (provider, model, _) \<Rightarrow> if provider = [] then model else provider @ ''/'' @ model)"

definition routeChoice :: "outcome_key \<Rightarrow> agent_ref \<Rightarrow> string \<times> string \<times> string option \<Rightarrow> route_choice" where
  "routeChoice key agent parts =
     \<lparr>rc_key = key, rc_agent = ar_id agent, rc_origin = ar_origin agent, rc_model = parts_model parts,
      rc_variant = normalized (snd (snd parts))\<rparr>"

definition candidateKey :: "string \<Rightarrow> candidate \<Rightarrow> outcome_key" where
  "candidateKey cls c = keyOf cls (ca_agent c) (modelParts (ca_model c) (ca_variant c))"

definition coversNeeds :: "need list option \<Rightarrow> need list \<Rightarrow> bool" where
  "coversNeeds grants needs \<longleftrightarrow>
     list_all (\<lambda>nd. case grants of None \<Rightarrow> False | Some gs \<Rightarrow> nd \<in> set gs) needs"

definition canonicalRung :: "string \<Rightarrow> string option \<Rightarrow> string \<times> string" where
  "canonicalRung model vnt =
     (let parts = modelParts model vnt in (to_lower (parts_model parts), normalized (snd (snd parts))))"

text \<open>The capability rank of a dispatch; the code indexes the table once, the model searches it.\<close>

definition max_rank :: "preset_rung list \<Rightarrow> int option" where
  "max_rank rungs = fold (\<lambda>r acc. Some (case acc of None \<Rightarrow> pg_rank r | Some m \<Rightarrow> max m (pg_rank r))) rungs None"

definition rank_table :: "engine_ladder \<Rightarrow> preset_rung list" where
  "rank_table ladder =
     or_else (el_presetRungs ladder)
       (map (\<lambda>c. \<lparr>pg_model = ca_model c, pg_variant = ca_variant c, pg_rank = ca_rank c\<rparr>)
         (filter (\<lambda>c. ar_origin (ca_agent c) = OriginRouter) (el_candidates ladder @ el_reachable ladder)))"

definition capabilityRank :: "engine_ladder \<Rightarrow> string \<Rightarrow> string option \<Rightarrow> int option \<Rightarrow> int option" where
  "capabilityRank ladder model vnt candidateRank =
     (let target = canonicalRung model vnt; table = rank_table ladder;
          own = (\<lambda>r. canonicalRung (pg_model r) (pg_variant r));
          preset = first_some (max_rank (filter (\<lambda>r. own r = target) table))
                              (max_rank (filter (\<lambda>r. fst (own r) = fst target) table))
      in case (preset, candidateRank) of
           (None, flr) \<Rightarrow> flr
         | (Some p, None) \<Rightarrow> Some p
         | (Some p, Some flr) \<Rightarrow> Some (max p flr))"

definition lowerEffortOnSameModel :: "string \<Rightarrow> string option \<Rightarrow> string \<Rightarrow> string option \<Rightarrow> bool" where
  "lowerEffortOnSameModel cmodel cvariant pmodel pvariant =
     (let c = canonicalRung cmodel cvariant; p = canonicalRung pmodel pvariant in
      if fst c \<noteq> fst p \<or> snd c = snd p then False
      else (case (variantPosition (Some (snd c)), variantPosition (Some (snd p))) of
              (Some cPos, Some pPos) \<Rightarrow> cPos < pPos | _ \<Rightarrow> True))"

definition usdScale :: "candidate list \<Rightarrow> real option list \<Rightarrow> real option" where
  "usdScale cands estimates =
     (let usable = filter (\<lambda>(c, e). case ca_costRatio c of Fin r \<Rightarrow> 0 < r | _ \<Rightarrow> False) (zip cands estimates);
          ratio = (\<lambda>c. case ca_costRatio c of Fin r \<Rightarrow> r | _ \<Rightarrow> 0);
          ref = fold (\<lambda>(c, e) acc. case acc of None \<Rightarrow> Some (c, e)
                       | Some (b, be) \<Rightarrow> if ratio c < ratio b then Some (c, e) else acc) usable None
      in case ref of
           Some (b, Some e) \<Rightarrow> if 0 < e then Some (e / ratio b) else None
         | _ \<Rightarrow> None)"

section \<open>The cascade\<close>

text \<open>
  What the recursion of one decision reads: attempt cost (\<open>None\<close>: unusable), tax and success
  probability per rung, the detection probability, the give-up cost, the usable path prefixes and
  successors of the candidates.
\<close>

record cascade_env =
  ce_cost :: "real list"
  ce_tax :: "real list"
  ce_p :: "real list"
  ce_d :: real
  ce_U :: real
  ce_usable :: "bool list"
  ce_path :: "nat list option list"
  ce_next :: "int option list"

definition attemptValue :: "cascade_env \<Rightarrow> nat \<Rightarrow> real \<Rightarrow> real" where
  "attemptValue env a after =
     ce_cost env ! a + ce_tax env ! a + (1 - ce_p env ! a) * (ce_d env * after + (1 - ce_d env) * ce_U env)"

definition path_value :: "cascade_env \<Rightarrow> nat list \<Rightarrow> real" where
  "path_value env path = foldr (attemptValue env) path (ce_U env)"

text \<open>The successor of a candidate, when it is in range and usable.\<close>

definition successor :: "cascade_env \<Rightarrow> nat \<Rightarrow> nat option" where
  "successor env k =
     (case (if k < length (ce_next env) then ce_next env ! k else None) of
        None \<Rightarrow> None
      | Some j \<Rightarrow> if 0 \<le> j \<and> j < int (length (ce_path env)) \<and> ce_usable env ! nat j then Some (nat j) else None)"

definition path_of :: "cascade_env \<Rightarrow> nat \<Rightarrow> nat list option" where
  "path_of env k = (if k < length (ce_path env) then ce_path env ! k else None)"

datatype visit_mark = NotSeen | OnChain | Finished

text \<open>
  The loop down the chain: the tail cost reached, the stack (last pushed first), the marks and the
  memo. The first branch is never taken: start and successors are candidates.
\<close>

function walk_chain :: "cascade_env \<Rightarrow> nat \<Rightarrow> nat list \<Rightarrow> visit_mark list \<Rightarrow> real list \<Rightarrow>
    real \<times> nat list \<times> visit_mark list \<times> real list" where
  "walk_chain env k stack visit memo =
     (if length visit \<le> k then (ce_U env, stack, visit, memo)
      else if visit ! k = Finished then (memo ! k, stack, visit, memo)
      else if visit ! k = OnChain then (ce_U env, stack, visit, memo)
      else (case path_of env k of
              Some path \<Rightarrow> (let v = path_value env path in (v, stack, visit[k := Finished], memo[k := v]))
            | None \<Rightarrow> (case successor env k of
                        Some j \<Rightarrow> walk_chain env j (k # stack) (visit[k := OnChain]) memo
                      | None \<Rightarrow> (ce_U env, k # stack, visit[k := OnChain], memo))))"
  by pat_completeness auto

lemma count_update: "k < length xs \<Longrightarrow> xs ! k = x \<Longrightarrow> y \<noteq> x \<Longrightarrow> count_list (xs[k := y]) x < count_list xs x"
proof (induction xs arbitrary: k)
  case (Cons a xs)
  then show ?case by (cases k) auto
qed simp

termination walk_chain
proof (relation "measure (\<lambda>(env, k, stack, visit, memo). count_list visit NotSeen)")
  fix env k stack visit memo j
  assume "\<not> length visit \<le> k" "visit ! k \<noteq> Finished" "visit ! k \<noteq> OnChain"
  then have "k < length visit" "visit ! k = NotSeen" by (auto intro: visit_mark.exhaust [of "visit ! k"])
  then show "((env, j, k # stack, visit[k := OnChain], memo), env, k, stack, visit, memo)
      \<in> measure (\<lambda>(env, k, stack, visit, memo). count_list visit NotSeen)"
    by (simp add: count_update)
qed simp

declare walk_chain.simps [simp del]

text \<open>Back up the stack, filling the memo.\<close>

definition unwind_step :: "cascade_env \<Rightarrow> nat \<Rightarrow> real \<times> visit_mark list \<times> real list \<Rightarrow> real \<times> visit_mark list \<times> real list" where
  "unwind_step env node st =
     (case st of (tail, visit, memo) \<Rightarrow>
        (let v = attemptValue env node tail in (v, visit[node := Finished], memo[node := v])))"

definition cascade :: "cascade_env \<Rightarrow> nat \<Rightarrow> visit_mark list \<times> real list \<Rightarrow> visit_mark list \<times> real list" where
  "cascade env start st =
     (case st of (visit, memo) \<Rightarrow>
        if visit ! start = Finished then st
        else (case walk_chain env start [] visit memo of
                (tail, stack, visit1, memo1) \<Rightarrow> snd (fold (unwind_step env) stack (tail, visit1, memo1))))"

text \<open>The costs of all candidates in order; the memo is shared between them.\<close>

definition cascade_step :: "cascade_env \<Rightarrow> nat \<Rightarrow>
    (visit_mark list \<times> real list) \<times> real option list \<Rightarrow> (visit_mark list \<times> real list) \<times> real option list" where
  "cascade_step env k acc =
     (case acc of (st, cs) \<Rightarrow>
        if ce_usable env ! k then (let st1 = cascade env k st in (st1, cs @ [Some (snd st1 ! k)]))
        else (st, cs @ [None]))"

definition all_costs :: "cascade_env \<Rightarrow> real option list" where
  "all_costs env =
     (let n = length (ce_path env) in
      snd (fold (cascade_step env) [0..<n] ((replicate n NotSeen, replicate n 0), [])))"

end
