(* ===== verification/Decide.thy ===== *)
theory Decide
  imports Kernel
begin

text \<open>
  \<^verbatim>\<open>decide\<close> of \<^verbatim>\<open>src/routing/engine/kernel.ts\<close>, split at its comment headings: trust and
  success probabilities, unit and attempt costs, taxes, usable path prefixes, the cascade, the choice
  of \<open>best\<close> and the reason of the decision.
\<close>

section \<open>Probabilities\<close>

definition all_rungs :: "engine_ladder \<Rightarrow> candidate list" where
  "all_rungs ladder = el_candidates ladder @ el_reachable ladder"

definition rung_keys :: "string \<Rightarrow> engine_ladder \<Rightarrow> outcome_key list" where
  "rung_keys cls ladder = map (candidateKey cls) (all_rungs ladder)"

definition class_trusted :: "decision_input \<Rightarrow> bool" where
  "class_trusted inp =
     (case kr_minClassConfidence (in_routing inp) of
        Fin mn \<Rightarrow> mn \<le> clamp01 (tf_confidence (in_facts inp)) | _ \<Rightarrow> False)"

text \<open>The store is not read at all under an untrusted class.\<close>

definition used_store :: "decision_input \<Rightarrow> store_view option" where
  "used_store inp = (if class_trusted inp then in_store inp else None)"

definition chosen_key :: "decision_input \<Rightarrow> outcome_key" where
  "chosen_key inp =
     (let ch = in_chosen inp in
      keyOf (tf_class (in_facts inp)) (ch_agent ch) (modelParts (ch_model ch) (ch_variant ch)))"

text \<open>The first candidate with the pick's key.\<close>

definition chosen_index :: "decision_input \<Rightarrow> nat option" where
  "chosen_index inp =
     (let keys = rung_keys (tf_class (in_facts inp)) (in_ladder inp) in
      List.find (\<lambda>k. keys ! k = chosen_key inp) [0..<length (el_candidates (in_ladder inp))])"

definition chosen_rank :: "decision_input \<Rightarrow> int option" where
  "chosen_rank inp = map_option (\<lambda>k. ca_rank (el_candidates (in_ladder inp) ! k)) (chosen_index inp)"

definition pick_rank :: "decision_input \<Rightarrow> int option" where
  "pick_rank inp =
     (case chosen_rank inp of None \<Rightarrow> None
      | Some r \<Rightarrow> capabilityRank (in_ladder inp) (ch_model (in_chosen inp)) (ch_variant (in_chosen inp)) (Some r))"

definition reference_rank :: "decision_input \<Rightarrow> int" where
  "reference_rank inp =
     (let cr = el_classRank (in_ladder inp) in
      if class_trusted inp then or_else (first_some cr (chosen_rank inp)) 0
      else or_else (first_some (chosen_rank inp) cr) 0)"

text \<open>Success probability and evidence of one rung.\<close>

definition rung_belief :: "decision_input \<Rightarrow> outcome_key \<Rightarrow> candidate \<Rightarrow> real \<times> real" where
  "rung_belief inp key c =
     (let prior = priorForRankOffset (Fin (of_int (ca_rank c - reference_rank inp)));
          priorMean = bp_alpha prior / (bp_alpha prior + bp_beta prior)
      in case used_store inp of
           None \<Rightarrow> (priorMean, 0)
         | Some store \<Rightarrow>
             (let post = sv_posterior store key prior in
              (clamp01 (Fin (po_mean post)), if 0 < po_n post then po_n post else 0)))"

definition beliefs :: "decision_input \<Rightarrow> (real \<times> real) list" where
  "beliefs inp =
     map (\<lambda>c. rung_belief inp (candidateKey (tf_class (in_facts inp)) c) c) (all_rungs (in_ladder inp))"

section \<open>Unit and attempt costs\<close>

text \<open>The dollar estimates and the value of a ratio unit, when everything is comparable in dollars.\<close>

definition usd_prices :: "decision_input \<Rightarrow> (real list \<times> real) option" where
  "usd_prices inp =
     (case used_store inp of None \<Rightarrow> None
      | Some store \<Rightarrow>
          (let cls = tf_class (in_facts inp); cands = all_rungs (in_ladder inp);
               stats = map (\<lambda>c. sv_cost store (candidateKey cls c)) cands;
               prof = sv_classTokenProfile store cls
           in if compareUnit (map (\<lambda>(s, c). unit_candidate_of s (ca_pricing c) prof) (zip stats cands)) = USD
              then (let estimates = map (\<lambda>(s, c). expectedAttemptUSD s (ca_pricing c) prof) (zip stats cands) in
                    case usdScale cands estimates of None \<Rightarrow> None
                    | Some scale \<Rightarrow>
                        if list_all (\<lambda>v. case v of None \<Rightarrow> False | Some x \<Rightarrow> 0 \<le> x) estimates
                        then Some (map the estimates, scale) else None)
              else None))"

text \<open>Cost and usability of every rung.\<close>

definition attempt_costs :: "decision_input \<Rightarrow> (real \<times> bool) list" where
  "attempt_costs inp =
     (case usd_prices inp of
        Some (usd, _) \<Rightarrow> map (\<lambda>v. if 0 \<le> v then (v, True) else (0, False)) usd
      | None \<Rightarrow> map (\<lambda>c. case ca_costRatio c of Fin r \<Rightarrow> if 0 < r then (r, True) else (0, False) | _ \<Rightarrow> (0, False))
                  (all_rungs (in_ladder inp)))"

definition rung_taxes :: "decision_input \<Rightarrow> real list" where
  "rung_taxes inp =
     map (\<lambda>c. case (usd_prices inp, in_orchestrator inp, used_store inp) of
               (Some _, Some (pricing, ctx), Some store) \<Rightarrow>
                 (let turns = (case in_remainingTurns inp of
                                 Some (Fin x) \<Rightarrow> if 0 \<le> x then x else DEFAULT_REMAINING_TURNS
                               | _ \<Rightarrow> DEFAULT_REMAINING_TURNS);
                      stats = sv_cost store (candidateKey (tf_class (in_facts inp)) c)
                  in case taxUSD (co_finalMessageTokens stats) (Fin turns) pricing ctx of
                       None \<Rightarrow> 0 | Some t \<Rightarrow> if 0 < t then t else 0)
             | _ \<Rightarrow> 0)
         (all_rungs (in_ladder inp))"

definition give_up :: "decision_input \<Rightarrow> real" where
  "give_up inp =
     GIVE_UP_COST (kr_profile (in_routing inp)) (tf_risk (in_facts inp)) *
     (case usd_prices inp of None \<Rightarrow> 1 | Some (_, scale) \<Rightarrow> scale)"

section \<open>Paths and the cascade\<close>

text \<open>
  The usable prefix of the attempts of one candidate; a candidate whose first attempt cannot be priced
  becomes unusable, which later candidates' paths see.
\<close>

definition path_step :: "engine_ladder \<Rightarrow> nat \<Rightarrow> bool list \<times> nat list option list \<Rightarrow> bool list \<times> nat list option list" where
  "path_step ladder k st =
     (case st of (usable, paths) \<Rightarrow>
        (case (if k < length (el_paths ladder) then el_paths ladder ! k else None) of
           None \<Rightarrow> (usable, paths @ [None])
         | Some raw \<Rightarrow>
             (let prefix = map nat (takeWhile (\<lambda>a. 0 \<le> a \<and> a < int (length usable) \<and> usable ! nat a) raw) in
              if prefix \<noteq> [] then (usable, paths @ [Some prefix])
              else (usable[k := False], paths @ [None]))))"

definition env_of :: "decision_input \<Rightarrow> cascade_env" where
  "env_of inp =
     (let ladder = in_ladder inp; costs = attempt_costs inp;
          (usable, paths) = fold (path_step ladder) [0..<length (el_candidates ladder)] (map snd costs, [])
      in \<lparr>ce_cost = map fst costs, ce_tax = rung_taxes inp, ce_p = map fst (beliefs inp),
          ce_d = clamp01 (kr_detection (in_routing inp) (in_detection inp)), ce_U = give_up inp,
          ce_usable = usable, ce_path = paths, ce_next = el_next ladder\<rparr>)"

definition decision_costs :: "decision_input \<Rightarrow> real option list" where
  "decision_costs inp = all_costs (env_of inp)"

text \<open>The first cost of every key.\<close>

definition record_first :: "(string \<times> 'a) list \<Rightarrow> string \<Rightarrow> 'a \<Rightarrow> (string \<times> 'a) list" where
  "record_first m k v = (if map_of m k = None then m @ [(k, v)] else m)"

definition cost_table :: "outcome_key list \<Rightarrow> real option list \<Rightarrow> (outcome_key \<times> real) list" where
  "cost_table keys cs =
     fold (\<lambda>(k, c) m. case c of None \<Rightarrow> m | Some v \<Rightarrow> record_first m k v) (zip keys cs) []"

section \<open>Choosing\<close>

record selection =
  se_best :: "nat option"
  se_argmin :: "nat option"
  se_ineligible :: "(outcome_key \<times> ineligible_reason) list"

text \<open>What rules a candidate out before the evidence gate.\<close>

definition why_not :: "decision_input \<Rightarrow> nat \<Rightarrow> ineligible_reason option" where
  "why_not inp k =
     (let cand = el_candidates (in_ladder inp) ! k; pick = pick_rank inp; ch = in_chosen inp;
          neverDown = (tf_risk (in_facts inp) = RiskHigh \<and> in_detection inp = DetNone)
      in if decision_costs inp ! k = None then Some WhyInvalidCost
         else if \<not> coversNeeds (ca_grants cand) (tf_needs (in_facts inp)) then Some WhyNeeds
         else if (case in_floorRank inp of None \<Rightarrow> False | Some f \<Rightarrow> ca_rank cand < f) then Some WhyFloor
         else if neverDown \<and> (case pick of None \<Rightarrow> False
                 | Some r \<Rightarrow> ca_rank cand < r \<or> ca_rank cand = r \<and>
                     lowerEffortOnSameModel (ca_model cand) (ca_variant cand) (ch_model ch) (ch_variant ch))
         then Some WhyNeverDown else None)"

text \<open>Strictly above the pick, as a candidate and on the preset table.\<close>

definition strictly_above :: "decision_input \<Rightarrow> nat \<Rightarrow> bool" where
  "strictly_above inp k =
     (let cand = el_candidates (in_ladder inp) ! k;
          presetRank = capabilityRank (in_ladder inp) (ca_model cand) (ca_variant cand) None
      in case (pick_rank inp, presetRank) of (Some r, Some p) \<Rightarrow> r < ca_rank cand \<and> r < p | _ \<Rightarrow> False)"

definition cost_of :: "decision_input \<Rightarrow> nat \<Rightarrow> real" where
  "cost_of inp k = or_else (decision_costs inp ! k) 0"

definition cheaper :: "decision_input \<Rightarrow> nat \<Rightarrow> nat option \<Rightarrow> bool" where
  "cheaper inp k cur = (case cur of None \<Rightarrow> True | Some j \<Rightarrow> cost_of inp k < cost_of inp j)"

definition skipped :: "decision_input \<Rightarrow> nat \<Rightarrow> bool" where
  "skipped inp k \<longleftrightarrow> chosen_index inp = Some k \<or>
     rung_keys (tf_class (in_facts inp)) (in_ladder inp) ! k = chosen_key inp"

definition select_step :: "decision_input \<Rightarrow> nat \<Rightarrow> selection \<Rightarrow> selection" where
  "select_step inp k s =
     (let key = rung_keys (tf_class (in_facts inp)) (in_ladder inp) ! k in
      if skipped inp k then s
      else (case why_not inp k of
              Some why \<Rightarrow> s\<lparr>se_ineligible := record_first (se_ineligible s) key why\<rparr>
            | None \<Rightarrow>
                (let s1 = (if cheaper inp k (se_argmin s) then s\<lparr>se_argmin := Some k\<rparr> else s) in
                 if \<not> strictly_above inp k \<and> \<not> hasMinEvidence (snd (beliefs inp ! k))
                 then s1\<lparr>se_ineligible := record_first (se_ineligible s1) key WhyEvidence\<rparr>
                 else if cheaper inp k (se_best s1) then s1\<lparr>se_best := Some k\<rparr> else s1)))"

text \<open>The pick's index when it is priced: where the search starts.\<close>

definition priced_pick :: "decision_input \<Rightarrow> nat option" where
  "priced_pick inp =
     (case chosen_index inp of None \<Rightarrow> None | Some k \<Rightarrow> if decision_costs inp ! k = None then None else Some k)"

definition select_best :: "decision_input \<Rightarrow> selection" where
  "select_best inp =
     fold (select_step inp) [0..<length (el_candidates (in_ladder inp))]
       \<lparr>se_best = priced_pick inp, se_argmin = priced_pick inp, se_ineligible = []\<rparr>"

section \<open>The decision\<close>

definition valid_margin :: "jsnum \<Rightarrow> real option" where
  "valid_margin m = (case m of Fin x \<Rightarrow> if 0 \<le> x \<and> x < 1 then Some x else None | _ \<Rightarrow> None)"

definition decision_reason_of :: "decision_input \<Rightarrow> nat option \<Rightarrow> nat option \<Rightarrow> decision_reason" where
  "decision_reason_of inp best argmin =
     (case best of
        None \<Rightarrow> KeptNoCandidates
      | Some b \<Rightarrow>
          (if in_pin inp then KeptPinned
           else (case priced_pick inp of
             None \<Rightarrow> KeptChosenNotCandidate
           | Some ch \<Rightarrow>
               (let gated = (b = ch \<and> argmin \<noteq> None \<and> argmin \<noteq> Some ch);
                    decidingCost = cost_of inp (if gated then the argmin else b)
                in if b = ch \<and> \<not> gated then KeptBestIsChosen
                   else (case valid_margin (kr_margin (in_routing inp)) of
                     None \<Rightarrow> KeptInvalidConfig
                   | Some margin \<Rightarrow>
                       (case kr_minClassConfidence (in_routing inp) of
                          Fin mn \<Rightarrow>
                            (if clamp01 (tf_confidence (in_facts inp)) < mn then KeptClassConfidence
                             else if \<not> decidingCost < (1 - margin) * cost_of inp ch then KeptMargin
                             else if gated then KeptEvidence else Switched)
                        | _ \<Rightarrow> KeptInvalidConfig))))))"

definition choice_of :: "decision_input \<Rightarrow> nat \<Rightarrow> route_choice" where
  "choice_of inp k =
     (let c = el_candidates (in_ladder inp) ! k in
      routeChoice (candidateKey (tf_class (in_facts inp)) c) (ca_agent c) (modelParts (ca_model c) (ca_variant c)))"

definition decide :: "decision_input \<Rightarrow> engine_decision" where
  "decide inp =
     (let ch = in_chosen inp;
          chosen = routeChoice (chosen_key inp) (ch_agent ch) (modelParts (ch_model ch) (ch_variant ch));
          cands = el_candidates (in_ladder inp)
      in if cands = []
         then \<lparr>de_chosen = chosen, de_best = None, de_argmin = None, de_switched = False, de_pinned = in_pin inp,
               de_confidence = 0, de_reason = KeptNoCandidates, de_costs = [], de_unit = Ratio,
               de_ineligible = [], de_target = None, de_pickRank = None\<rparr>
         else (let s = select_best inp; best = se_best s;
                   reason = decision_reason_of inp best (se_argmin s);
                   conf = clamp01 (tf_confidence (in_facts inp))
               in \<lparr>de_chosen = chosen, de_best = map_option (choice_of inp) best,
                   de_argmin = map_option (choice_of inp) (se_argmin s),
                   de_switched = (reason = Switched), de_pinned = in_pin inp,
                   de_confidence = (case best of None \<Rightarrow> 0
                     | Some b \<Rightarrow> (let e = snd (beliefs inp ! b) in round2 (conf * (e / (e + PRIOR_STRENGTH))))),
                   de_reason = reason,
                   de_costs = cost_table (rung_keys (tf_class (in_facts inp)) (in_ladder inp)) (decision_costs inp),
                   de_unit = (if usd_prices inp = None then Ratio else USD),
                   de_ineligible = se_ineligible s,
                   de_target = map_option (\<lambda>b. cands ! b) best, de_pickRank = pick_rank inp\<rparr>))"

end
