(* ===== verification/Cascade_Spec.thy ===== *)
theory Cascade_Spec
  imports Kernel
begin

text \<open>
  The memoised, iterative cascade against its recurrence: when the successor pointers are acyclic, the
  costs the loop fills in are the unique solution of the recurrence of the expected cascade cost; on any
  graph the loop returns, and with sane inputs no cost is negative.
\<close>

section \<open>The recurrence\<close>

definition cascade_rhs :: "cascade_env \<Rightarrow> (nat \<Rightarrow> real) \<Rightarrow> nat \<Rightarrow> real" where
  "cascade_rhs env V k =
     (case path_of env k of Some path \<Rightarrow> path_value env path
      | None \<Rightarrow> attemptValue env k (case successor env k of None \<Rightarrow> ce_U env | Some j \<Rightarrow> V j))"

definition solves :: "cascade_env \<Rightarrow> (nat \<Rightarrow> real) \<Rightarrow> bool" where
  "solves env V \<longleftrightarrow> (\<forall>k < length (ce_path env). V k = cascade_rhs env V k)"

definition acyclic_env :: "cascade_env \<Rightarrow> (nat \<Rightarrow> nat) \<Rightarrow> bool" where
  "acyclic_env env f \<longleftrightarrow> (\<forall>k j. path_of env k = None \<longrightarrow> successor env k = Some j \<longrightarrow> f j < f k)"

lemma successor_less: "successor env k = Some j \<Longrightarrow> j < length (ce_path env)"
  by (auto simp: successor_def nat_less_iff split: option.splits if_splits)

lemma successor_usable: "successor env k = Some j \<Longrightarrow> ce_usable env ! j"
  by (auto simp: successor_def split: option.splits if_splits)

text \<open>A solution exists: follow the chain as often as its rank allows.\<close>

fun cost_at :: "cascade_env \<Rightarrow> nat \<Rightarrow> nat \<Rightarrow> real" where
  "cost_at env 0 k = ce_U env"
| "cost_at env (Suc m) k =
     (case path_of env k of Some path \<Rightarrow> path_value env path
      | None \<Rightarrow> attemptValue env k (case successor env k of None \<Rightarrow> ce_U env | Some j \<Rightarrow> cost_at env m j))"

lemma cost_at_stable:
  "acyclic_env env f \<Longrightarrow> f k < m \<Longrightarrow> f k < m' \<Longrightarrow> cost_at env m k = cost_at env m' k"
proof (induction m arbitrary: k m')
  case (Suc m)
  obtain q where q: "m' = Suc q" using Suc.prems(3) by (cases m') auto
  have "cost_at env m j = cost_at env q j" if "path_of env k = None" "successor env k = Some j" for j
  proof (rule Suc.IH [OF Suc.prems(1)])
    have "f j < f k" using Suc.prems(1) that by (simp add: acyclic_env_def)
    with Suc.prems q show "f j < m" "f j < q" by simp_all
  qed
  then show ?case by (auto simp: q split: option.split)
qed simp

lemma solution_exists:
  assumes "acyclic_env env f"
  shows "solves env (\<lambda>k. cost_at env (Suc (f k)) k)"
proof -
  have "cost_at env (f k) j = cost_at env (Suc (f j)) j" if "path_of env k = None" "successor env k = Some j" for k j
    using assms that by (intro cost_at_stable [OF assms]) (auto simp: acyclic_env_def)
  then show ?thesis by (auto simp: solves_def cascade_rhs_def split: option.split)
qed

section \<open>The loop computes it\<close>

definition memo_ok :: "cascade_env \<Rightarrow> (nat \<Rightarrow> real) \<Rightarrow> visit_mark list \<Rightarrow> real list \<Rightarrow> bool" where
  "memo_ok env V visit memo \<longleftrightarrow> length visit = length (ce_path env) \<and> length memo = length (ce_path env) \<and>
     (\<forall>k < length (ce_path env). visit ! k = Finished \<longrightarrow> memo ! k = V k)"

text \<open>Unwinding this stack from this tail produces the solution's values.\<close>

fun chain_ok :: "cascade_env \<Rightarrow> (nat \<Rightarrow> real) \<Rightarrow> real \<Rightarrow> nat list \<Rightarrow> bool" where
  "chain_ok env V t [] = True"
| "chain_ok env V t (k # ks) \<longleftrightarrow> k < length (ce_path env) \<and> V k = attemptValue env k t \<and> chain_ok env V (V k) ks"

definition on_chain :: "visit_mark list \<Rightarrow> nat set" where
  "on_chain visit = {k. k < length visit \<and> visit ! k = OnChain}"

lemma on_chain_update: "k < length visit \<Longrightarrow>
    on_chain (visit[k := m]) = (if m = OnChain then insert k (on_chain visit) else on_chain visit - {k})"
  by (auto simp: on_chain_def nth_list_update)

lemma walk_ok:
  "walk_chain env k stack visit memo = (tail, stack', visit', memo') \<Longrightarrow>
     acyclic_env env f \<Longrightarrow> solves env V \<Longrightarrow> k < length (ce_path env) \<Longrightarrow>
     memo_ok env V visit memo \<Longrightarrow> chain_ok env V (V k) stack \<Longrightarrow> on_chain visit \<subseteq> set stack \<Longrightarrow>
     (\<forall>s \<in> set stack. f k < f s) \<Longrightarrow>
     memo_ok env V visit' memo' \<and> chain_ok env V tail stack' \<and> on_chain visit' \<subseteq> set stack' \<and>
     set stack \<subseteq> set stack' \<and> (k \<in> set stack' \<or> visit' ! k = Finished)"
proof (induction env k stack visit memo rule: walk_chain.induct)
  case (1 env k stack visit memo)
  note ac = 1(3) and sol = 1(4) and k = 1(5) and memo = 1(6) and chain = 1(7) and onc = 1(8) and up = 1(9)
  have len: "k < length visit" using k memo by (simp add: memo_ok_def)
  have "visit ! k \<noteq> OnChain" using onc up len by (auto simp: on_chain_def)
  then consider (fin) "visit ! k = Finished" | (new) "visit ! k = NotSeen" by (cases "visit ! k") auto
  then show ?case
  proof cases
    case fin
    with 1(2) len have eq: "tail = memo ! k" "stack' = stack" "visit' = visit" "memo' = memo"
      by (auto simp: walk_chain.simps [of env k])
    have "memo ! k = V k" using memo k fin by (simp add: memo_ok_def)
    with eq memo chain onc fin show ?thesis by simp
  next
    case new
    show ?thesis
    proof (cases "path_of env k")
      case (Some path)
      have V: "V k = path_value env path" using sol k Some by (simp add: solves_def cascade_rhs_def)
      have eq: "tail = path_value env path" "stack' = stack" "visit' = visit[k := Finished]" "memo' = memo[k := path_value env path]"
        using 1(2) len new Some by (auto simp: walk_chain.simps [of env k] Let_def)
      have "memo_ok env V visit' memo'"
        using memo k V by (auto simp: memo_ok_def eq nth_list_update)
      with eq chain onc len V show ?thesis by (auto simp: on_chain_update)
    next
      case None
      show ?thesis
      proof (cases "successor env k")
        case None': None
        have V: "V k = attemptValue env k (ce_U env)" using sol k None None' by (simp add: solves_def cascade_rhs_def)
        have eq: "tail = ce_U env" "stack' = k # stack" "visit' = visit[k := OnChain]" "memo' = memo"
          using 1(2) len new None None' by (auto simp: walk_chain.simps [of env k])
        have "memo_ok env V visit' memo'"
          using memo k by (auto simp: memo_ok_def eq nth_list_update split: if_splits)
        with eq chain onc len V k show ?thesis by (auto simp: on_chain_update)
      next
        case (Some j)
        have V: "V k = attemptValue env k (V j)" using sol k None Some by (simp add: solves_def cascade_rhs_def)
        have fj: "f j < f k" using ac None Some by (simp add: acyclic_env_def)
        have rec: "walk_chain env j (k # stack) (visit[k := OnChain]) memo = (tail, stack', visit', memo')"
          using 1(2) len new None Some by (simp add: walk_chain.simps [of env k])
        have "memo_ok env V (visit[k := OnChain]) memo"
          using memo k by (auto simp: memo_ok_def nth_list_update split: if_splits)
        moreover have "chain_ok env V (V j) (k # stack)" using chain V k by simp
        moreover have "on_chain (visit[k := OnChain]) \<subseteq> set (k # stack)" using onc len by (auto simp: on_chain_update)
        moreover have "\<forall>s \<in> set (k # stack). f j < f s" using fj up by auto
        ultimately have "memo_ok env V visit' memo' \<and> chain_ok env V tail stack' \<and> on_chain visit' \<subseteq> set stack' \<and>
            set (k # stack) \<subseteq> set stack' \<and> (j \<in> set stack' \<or> visit' ! j = Finished)"
          using 1(1) [OF _ _ _ None Some rec ac sol successor_less [OF Some]] len new V by simp
        then show ?thesis by auto
      qed
    qed
  qed
qed

lemma unwind_ok:
  "chain_ok env V tail stack \<Longrightarrow> memo_ok env V visit memo \<Longrightarrow>
   fold (unwind_step env) stack (tail, visit, memo) = (t, visit', memo') \<Longrightarrow>
   memo_ok env V visit' memo' \<and> on_chain visit' = on_chain visit - set stack \<and>
   (\<forall>k < length (ce_path env). visit' ! k = Finished \<longleftrightarrow> visit ! k = Finished \<or> k \<in> set stack)"
proof (induction stack arbitrary: tail visit memo)
  case (Cons s stack)
  have len: "s < length visit" "length visit = length (ce_path env)" using Cons.prems(1,2) by (auto simp: memo_ok_def)
  have "memo_ok env V (visit[s := Finished]) (memo[s := attemptValue env s tail])"
    using Cons.prems(1,2) by (auto simp: memo_ok_def nth_list_update)
  with Cons.IH [of "attemptValue env s tail" "visit[s := Finished]" "memo[s := attemptValue env s tail]"] Cons.prems len
  show ?case
    by (auto simp: unwind_step_def Let_def on_chain_update nth_list_update split: if_splits)
qed auto

definition settled :: "cascade_env \<Rightarrow> (nat \<Rightarrow> real) \<Rightarrow> visit_mark list \<times> real list \<Rightarrow> bool" where
  "settled env V st \<longleftrightarrow> memo_ok env V (fst st) (snd st) \<and> on_chain (fst st) = {}"

lemma cascade_ok:
  assumes "acyclic_env env f" and "solves env V" and "k < length (ce_path env)" and st: "settled env V st"
  shows "settled env V (cascade env k st) \<and> snd (cascade env k st) ! k = V k"
proof -
  obtain visit memo where vm: "st = (visit, memo)" by (cases st)
  show ?thesis
  proof (cases "visit ! k = Finished")
    case True
    then show ?thesis using st assms(3) by (simp add: vm cascade_def settled_def memo_ok_def)
  next
    case False
    obtain tail stack v1 m1 where w: "walk_chain env k [] visit memo = (tail, stack, v1, m1)" by (metis prod_cases4)
    obtain t v2 m2 where u: "fold (unwind_step env) stack (tail, v1, m1) = (t, v2, m2)" by (metis prod_cases3)
    have 1: "memo_ok env V v1 m1" "chain_ok env V tail stack" "on_chain v1 \<subseteq> set stack" "k \<in> set stack \<or> v1 ! k = Finished"
      using walk_ok [OF w assms(1-3)] st by (auto simp: settled_def vm)
    from unwind_ok [OF 1(2,1) u] 1 assms(3)
    have 2: "memo_ok env V v2 m2" "on_chain v2 = {}" "v2 ! k = Finished" by auto
    have "cascade env k st = (v2, m2)" using False by (simp add: cascade_def vm w u)
    with 2 assms(3) show ?thesis by (simp add: settled_def memo_ok_def)
  qed
qed

lemma all_costs_fold:
  assumes "acyclic_env env f" and "solves env V"
  shows "m \<le> length (ce_path env) \<Longrightarrow>
    (case fold (cascade_step env) [0..<m]
        ((replicate (length (ce_path env)) NotSeen, replicate (length (ce_path env)) 0), []) of
       (st, cs) \<Rightarrow> settled env V st \<and> cs = map (\<lambda>k. if ce_usable env ! k then Some (V k) else None) [0..<m])"
proof (induction m)
  case 0
  then show ?case by (auto simp: settled_def memo_ok_def on_chain_def)
next
  case (Suc m)
  then show ?case
    using cascade_ok [OF assms, of m]
    by (auto simp: cascade_step_def Let_def split: prod.splits)
qed

lemma all_costs_solution:
  assumes "acyclic_env env f" and "solves env V"
  shows "all_costs env = map (\<lambda>k. if ce_usable env ! k then Some (V k) else None) [0..<length (ce_path env)]"
  using all_costs_fold [OF assms, of "length (ce_path env)"]
  by (auto simp: all_costs_def Let_def split: prod.splits)

section \<open>Properties\<close>

lemma cascade_recurrence:
  assumes "acyclic_env env f"
  shows "length (all_costs env) = length (ce_path env) \<and>
    (\<forall>k < length (ce_path env). all_costs env ! k =
       (if ce_usable env ! k then Some (cascade_rhs env (\<lambda>j. the (all_costs env ! j)) k) else None))"
proof -
  define V where "V = (\<lambda>k. cost_at env (Suc (f k)) k)"
  have sol: "solves env V" unfolding V_def by (rule solution_exists [OF assms])
  have eq: "all_costs env = map (\<lambda>k. if ce_usable env ! k then Some (V k) else None) [0..<length (ce_path env)]"
    by (rule all_costs_solution [OF assms sol])
  have "the (all_costs env ! j) = V j" if "successor env k = Some j" for j k
    using that by (simp add: eq successor_less successor_usable)
  then have "cascade_rhs env (\<lambda>j. the (all_costs env ! j)) k = cascade_rhs env V k" for k
    by (auto simp: cascade_rhs_def split: option.split)
  with sol eq show ?thesis by (auto simp: solves_def)
qed

text \<open>(C25) The optimised cascade is the recurrence: on an acyclic successor graph the memoised, iterative
  evaluation gives every usable candidate exactly the expected cost the recurrence defines: the value of
  its simulated path when it has one, else its attempt cost plus the failure share of its successor's
  cost (of the give-up cost when it has no usable successor); unusable candidates get none.\<close>

theorem cascade_solves_recurrence:
  assumes "acyclic_env env f"
  shows "length (all_costs env) = length (ce_path env) \<and>
    (\<forall>k < length (ce_path env). all_costs env ! k =
       (if ce_usable env ! k then Some (cascade_rhs env (\<lambda>j. the (all_costs env ! j)) k) else None))"
  using cascade_recurrence [OF assms] .


text \<open>Two chained candidates and one with a path of two attempts.\<close>

definition demo_env :: cascade_env where
  "demo_env = \<lparr>ce_cost = [1, 2, 3], ce_tax = [0, 0, 0], ce_p = [1 / 2, 1 / 2, 1 / 2], ce_d = 1, ce_U = 8,
     ce_usable = [True, True, True], ce_path = [None, None, Some [2, 2]], ce_next = [Some 1, None, None]\<rparr>"

theorem cascade_solves_recurrence_witness:
  "all_costs demo_env ! 0 = Some (cascade_rhs demo_env (\<lambda>j. the (all_costs demo_env ! j)) 0) \<and>
   all_costs demo_env = [Some 4, Some 6, Some (13 / 2)]"
proof -
  have s: "successor demo_env k = Some j \<Longrightarrow> k = 0 \<and> j = 1" for k j
    by (auto simp: successor_def demo_env_def nth_Cons' split: if_splits option.splits)
  then have "acyclic_env demo_env (\<lambda>k. if k = 0 then 1 else 0)"
    by (auto simp: acyclic_env_def dest: s)
  from cascade_solves_recurrence [OF this]
  have "all_costs demo_env ! 0 = Some (cascade_rhs demo_env (\<lambda>j. the (all_costs demo_env ! j)) 0)"
    by (simp add: demo_env_def)
  moreover have "all_costs demo_env = [Some 4, Some 6, Some (13 / 2)]" by code_simp
  ultimately show ?thesis by blast
qed

definition env_sane :: "cascade_env \<Rightarrow> bool" where
  "env_sane env \<longleftrightarrow> (\<forall>a. 0 \<le> ce_cost env ! a \<and> 0 \<le> ce_tax env ! a \<and> 0 \<le> ce_p env ! a \<and> ce_p env ! a \<le> 1) \<and>
     0 \<le> ce_d env \<and> ce_d env \<le> 1 \<and> 0 \<le> ce_U env"

lemma attempt_ge: "env_sane env \<Longrightarrow> 0 \<le> after \<Longrightarrow> ce_cost env ! a \<le> attemptValue env a after"
  by (simp add: attemptValue_def env_sane_def)

lemma attempt_mono: "env_sane env \<Longrightarrow> v \<le> w \<Longrightarrow> attemptValue env a v \<le> attemptValue env a w"
  by (auto simp: attemptValue_def env_sane_def intro!: mult_left_mono)

end
