(* ===== verification/Decide_Spec.thy ===== *)
theory Decide_Spec
  imports Decide Cascade_Spec
begin

text \<open>
  What a decision guarantees: why a switch is justified, that the best candidate is the cheapest of
  the eligible ones, that high-risk work nobody verifies is never moved down, and that without
  recorded outcomes nothing moves down or sideways.
\<close>

section \<open>The search\<close>

definition eligible :: "decision_input \<Rightarrow> nat \<Rightarrow> bool" where
  "eligible inp k \<longleftrightarrow> \<not> skipped inp k \<and> why_not inp k = None \<and>
     (strictly_above inp k \<or> hasMinEvidence (snd (beliefs inp ! k)))"

definition search_inv :: "decision_input \<Rightarrow> nat \<Rightarrow> selection \<Rightarrow> bool" where
  "search_inv inp m s \<longleftrightarrow>
     (case se_best s of None \<Rightarrow> priced_pick inp = None
      | Some b \<Rightarrow> (priced_pick inp = Some b \<or> b < m \<and> eligible inp b) \<and>
          (case priced_pick inp of None \<Rightarrow> True | Some ch \<Rightarrow> b = ch \<or> cost_of inp b < cost_of inp ch)) \<and>
     (\<forall>k < m. eligible inp k \<longrightarrow> (\<exists>b. se_best s = Some b \<and> cost_of inp b \<le> cost_of inp k))"

lemma record_fields [simp]:
  "se_best (s\<lparr>se_ineligible := x\<rparr>) = se_best s" "se_argmin (s\<lparr>se_ineligible := x\<rparr>) = se_argmin s"
  by simp_all

lemma search_step:
  assumes "search_inv inp m s"
  shows "search_inv inp (Suc m) (select_step inp m s)"
proof -
  let ?t = "select_step inp m s"
  have best: "se_best ?t = (if eligible inp m \<and> cheaper inp m (se_best s) then Some m else se_best s)"
    by (auto simp: select_step_def eligible_def Let_def split: option.split)
  show ?thesis
  proof (cases "eligible inp m \<and> cheaper inp m (se_best s)")
    case True
    then have b: "se_best ?t = Some m" by (simp add: best)
    have le: "cost_of inp m \<le> cost_of inp k" if "k < m" "eligible inp k" for k
    proof -
      from assms that obtain b where "se_best s = Some b" "cost_of inp b \<le> cost_of inp k"
        by (auto simp: search_inv_def)
      with True show ?thesis by (simp add: cheaper_def)
    qed
    have pick: "m = ch \<or> cost_of inp m < cost_of inp ch" if "priced_pick inp = Some ch" for ch
      using assms True that by (auto simp: search_inv_def cheaper_def split: option.splits)
    show ?thesis
      using True le pick by (auto simp: search_inv_def b less_Suc_eq split: option.split)
  next
    case False
    then have b: "se_best ?t = se_best s" by (auto simp: best)
    have "\<exists>b. se_best s = Some b \<and> cost_of inp b \<le> cost_of inp m" if "eligible inp m"
      using False that by (auto simp: cheaper_def split: option.splits)
    with assms show ?thesis
      by (auto simp: search_inv_def b less_Suc_eq split: option.splits)
  qed
qed

lemma search_fold:
  "search_inv inp m (fold (select_step inp) [0..<m]
     \<lparr>se_best = priced_pick inp, se_argmin = priced_pick inp, se_ineligible = []\<rparr>)"
proof (induction m)
  case 0
  then show ?case by (auto simp: search_inv_def split: option.split)
next
  case (Suc m)
  then show ?case using search_step by simp
qed

lemma select_inv: "search_inv inp (length (el_candidates (in_ladder inp))) (select_best inp)"
  unfolding select_best_def by (rule search_fold)

lemma priced_chosen: "priced_pick inp = Some k \<Longrightarrow> chosen_index inp = Some k"
  by (auto simp: priced_pick_def split: option.splits if_splits)

lemma chosen_less: "chosen_index inp = Some k \<Longrightarrow> k < length (el_candidates (in_ladder inp))"
  by (auto simp: chosen_index_def Let_def find_Some_iff)

lemma decide_fields:
  assumes "el_candidates (in_ladder inp) \<noteq> []"
  shows "de_switched (decide inp) \<longleftrightarrow>
      decision_reason_of inp (se_best (select_best inp)) (se_argmin (select_best inp)) = Switched"
    "de_target (decide inp) = map_option (\<lambda>b. el_candidates (in_ladder inp) ! b) (se_best (select_best inp))"
    "de_pickRank (decide inp) = pick_rank inp"
  using assms by (simp_all add: decide_def Let_def)

lemma switched_ne: "de_switched (decide inp) \<Longrightarrow> el_candidates (in_ladder inp) \<noteq> []"
  by (auto simp: decide_def Let_def)

text \<open>What a switch means, by index.\<close>

lemma switched_facts:
  assumes "de_switched (decide inp)"
  obtains b ch margin mn where
    "se_best (select_best inp) = Some b" "priced_pick inp = Some ch" "chosen_index inp = Some ch" "b \<noteq> ch"
    "b < length (el_candidates (in_ladder inp))" "eligible inp b" "\<not> in_pin inp"
    "kr_margin (in_routing inp) = Fin margin" "0 \<le> margin" "margin < 1"
    "kr_minClassConfidence (in_routing inp) = Fin mn" "mn \<le> clamp01 (tf_confidence (in_facts inp))"
    "cost_of inp b < (1 - margin) * cost_of inp ch"
    "de_target (decide inp) = Some (el_candidates (in_ladder inp) ! b)"
proof -
  note ne = switched_ne [OF assms]
  from assms obtain b where b: "se_best (select_best inp) = Some b"
    by (cases "se_best (select_best inp)") (auto simp: decide_fields [OF ne] decision_reason_of_def)
  from assms b obtain ch where ch: "priced_pick inp = Some ch" and pin: "\<not> in_pin inp"
    by (cases "priced_pick inp") (auto simp: decide_fields [OF ne] decision_reason_of_def split: if_splits)
  from assms b ch pin have r: "b \<noteq> ch \<and> (\<exists>margin. valid_margin (kr_margin (in_routing inp)) = Some margin \<and>
      (\<exists>mn. kr_minClassConfidence (in_routing inp) = Fin mn \<and> mn \<le> clamp01 (tf_confidence (in_facts inp)) \<and>
         cost_of inp b < (1 - margin) * cost_of inp ch))"
    by (auto simp: decide_fields [OF ne] decision_reason_of_def Let_def not_less split: if_splits option.splits jsnum.splits)
  then obtain margin mn where mm: "valid_margin (kr_margin (in_routing inp)) = Some margin"
    "kr_minClassConfidence (in_routing inp) = Fin mn" "mn \<le> clamp01 (tf_confidence (in_facts inp))"
    "cost_of inp b < (1 - margin) * cost_of inp ch" "b \<noteq> ch" by blast
  have "b < length (el_candidates (in_ladder inp)) \<and> eligible inp b"
    using select_inv [of inp] b ch mm(5) by (auto simp: search_inv_def)
  with that [OF b ch priced_chosen [OF ch] mm(5)] mm pin b show thesis
    by (auto simp: decide_fields [OF ne] valid_margin_def split: jsnum.splits if_splits)
qed

section \<open>Properties\<close>

text \<open>(C11) A switch is justified: the dispatch is not pinned, the class is trusted, the pick is a priced
  candidate and the target is another candidate whose permissions cover the needs, that is not below the
  floor, that is strictly above the pick or has enough recorded outcomes, and whose expected cost is below
  the pick's by more than the margin.\<close>

theorem switch_is_justified:
  assumes "de_switched (decide inp)"
  shows "\<exists>b ch margin mn. let cand = el_candidates (in_ladder inp) ! b in
    de_target (decide inp) = Some cand \<and> b < length (el_candidates (in_ladder inp)) \<and>
    chosen_index inp = Some ch \<and> b \<noteq> ch \<and> \<not> in_pin inp \<and>
    kr_minClassConfidence (in_routing inp) = Fin mn \<and> mn \<le> clamp01 (tf_confidence (in_facts inp)) \<and>
    kr_margin (in_routing inp) = Fin margin \<and> 0 \<le> margin \<and> margin < 1 \<and>
    decision_costs inp ! b \<noteq> None \<and> cost_of inp b < (1 - margin) * cost_of inp ch \<and>
    coversNeeds (ca_grants cand) (tf_needs (in_facts inp)) \<and>
    (case in_floorRank inp of None \<Rightarrow> True | Some f \<Rightarrow> f \<le> ca_rank cand) \<and>
    (strictly_above inp b \<or> hasMinEvidence (snd (beliefs inp ! b)))"
proof -
  from assms obtain b ch margin mn where f:
    "priced_pick inp = Some ch" "chosen_index inp = Some ch" "b \<noteq> ch"
    "b < length (el_candidates (in_ladder inp))" "eligible inp b" "\<not> in_pin inp"
    "kr_margin (in_routing inp) = Fin margin" "0 \<le> margin" "margin < 1"
    "kr_minClassConfidence (in_routing inp) = Fin mn" "mn \<le> clamp01 (tf_confidence (in_facts inp))"
    "cost_of inp b < (1 - margin) * cost_of inp ch"
    "de_target (decide inp) = Some (el_candidates (in_ladder inp) ! b)"
    by (rule switched_facts) blast
  have "decision_costs inp ! b \<noteq> None" "coversNeeds (ca_grants (el_candidates (in_ladder inp) ! b)) (tf_needs (in_facts inp))"
    "case in_floorRank inp of None \<Rightarrow> True | Some f \<Rightarrow> f \<le> ca_rank (el_candidates (in_ladder inp) ! b)"
    "strictly_above inp b \<or> hasMinEvidence (snd (beliefs inp ! b))"
    using f(5) by (auto simp: eligible_def why_not_def Let_def split: if_splits option.splits)
  with f show ?thesis unfolding Let_def by blast
qed

text \<open>The best candidate is the cheapest eligible one: its expected cost is at most that of every other
  candidate that is priced, permitted, not below the floor, not ruled out as a move down and evidenced or
  strictly above; and it replaces a priced pick only when strictly cheaper, so ties keep the pick.\<close>

theorem best_is_cheapest:
  "case se_best (select_best inp) of
     None \<Rightarrow> priced_pick inp = None \<and> \<not> list_ex (eligible inp) [0..<length (el_candidates (in_ladder inp))]
   | Some b \<Rightarrow>
       list_all (\<lambda>k. eligible inp k \<longrightarrow> cost_of inp b \<le> cost_of inp k) [0..<length (el_candidates (in_ladder inp))] \<and>
       (case priced_pick inp of None \<Rightarrow> eligible inp b | Some ch \<Rightarrow> b = ch \<or> eligible inp b \<and> cost_of inp b < cost_of inp ch)"
  using select_inv [of inp]
  by (auto simp: search_inv_def list_all_iff list_ex_iff split: option.splits)

lemma capability_ge: "capabilityRank ladder m v (Some r) = Some q \<Longrightarrow> r \<le> q"
  by (auto simp: capabilityRank_def Let_def split: option.splits)

lemma capabilityRank_some: "\<exists>q. capabilityRank ladder m v (Some r) = Some q"
  by (simp add: capabilityRank_def Let_def split: option.split)

lemma pick_rank_ge: "chosen_index inp = Some ch \<Longrightarrow> \<exists>q. pick_rank inp = Some q \<and> ca_rank (el_candidates (in_ladder inp) ! ch) \<le> q"
proof -
  assume "chosen_index inp = Some ch"
  then have p: "pick_rank inp = capabilityRank (in_ladder inp) (ch_model (in_chosen inp)) (ch_variant (in_chosen inp))
      (Some (ca_rank (el_candidates (in_ladder inp) ! ch)))"
    by (simp add: pick_rank_def chosen_rank_def)
  moreover obtain q where "capabilityRank (in_ladder inp) (ch_model (in_chosen inp)) (ch_variant (in_chosen inp))
      (Some (ca_rank (el_candidates (in_ladder inp) ! ch))) = Some q"
    by (metis capabilityRank_some)
  ultimately show ?thesis using capability_ge by metis
qed

text \<open>High-risk work nobody verifies is never moved down: a switch then goes to a candidate whose rank is
  at least the pick's capability rank, hence at least the pick's own rank, and which is not the pick's own
  model on a lower effort.\<close>

theorem high_risk_never_down:
  assumes "de_switched (decide inp)" and "tf_risk (in_facts inp) = RiskHigh" and "in_detection inp = DetNone"
  shows "\<exists>ch cand q. chosen_index inp = Some ch \<and> de_target (decide inp) = Some cand \<and> pick_rank inp = Some q \<and>
    ca_rank (el_candidates (in_ladder inp) ! ch) \<le> q \<and> q \<le> ca_rank cand \<and>
    \<not> (ca_rank cand = q \<and>
        lowerEffortOnSameModel (ca_model cand) (ca_variant cand) (ch_model (in_chosen inp)) (ch_variant (in_chosen inp)))"
proof -
  from assms(1) obtain b ch margin mn where f: "chosen_index inp = Some ch" "eligible inp b"
    "de_target (decide inp) = Some (el_candidates (in_ladder inp) ! b)"
    by (rule switched_facts) blast
  obtain q where q: "pick_rank inp = Some q" "ca_rank (el_candidates (in_ladder inp) ! ch) \<le> q"
    using pick_rank_ge [OF f(1)] by blast
  have "why_not inp b = None" using f(2) by (simp add: eligible_def)
  then have "q \<le> ca_rank (el_candidates (in_ladder inp) ! b) \<and> \<not> (ca_rank (el_candidates (in_ladder inp) ! b) = q \<and>
      lowerEffortOnSameModel (ca_model (el_candidates (in_ladder inp) ! b)) (ca_variant (el_candidates (in_ladder inp) ! b))
        (ch_model (in_chosen inp)) (ch_variant (in_chosen inp)))"
    using assms(2,3) q(1) by (auto simp: why_not_def Let_def not_less split: if_splits)
  with f q show ?thesis by blast
qed

text \<open>No outcomes recorded for the candidates: no belief rests on evidence.\<close>

definition no_outcomes :: "decision_input \<Rightarrow> bool" where
  "no_outcomes inp = list_all (\<lambda>b. snd b \<le> 0) (beliefs inp)"

lemma beliefs_length: "length (beliefs inp) = length (all_rungs (in_ladder inp))"
  by (simp add: beliefs_def rung_keys_def)

lemma no_evidence:
  assumes "no_outcomes inp" and "k < length (all_rungs (in_ladder inp))"
  shows "\<not> hasMinEvidence (snd (beliefs inp ! k))"
  using assms by (auto simp: no_outcomes_def list_all_length beliefs_length hasMinEvidence_def
      MIN_EVIDENCE_TO_SWITCH_DOWN_def PRIOR_STRENGTH_def EVIDENCE_EPSILON_def)

text \<open>Priors alone never move work down or sideways: while no outcomes are recorded for the candidates, a
  switch only goes to a candidate whose rank, and whose capability on the preset, is strictly above the
  pick's capability rank.\<close>

theorem priors_only_move_up:
  assumes "de_switched (decide inp)" and "no_outcomes inp"
  shows "\<exists>ch cand q p. chosen_index inp = Some ch \<and> de_target (decide inp) = Some cand \<and> pick_rank inp = Some q \<and>
    ca_rank (el_candidates (in_ladder inp) ! ch) \<le> q \<and> q < ca_rank cand \<and>
    capabilityRank (in_ladder inp) (ca_model cand) (ca_variant cand) None = Some p \<and> q < p"
proof -
  from assms(1) obtain b ch margin mn where f: "chosen_index inp = Some ch" "eligible inp b"
    "b < length (el_candidates (in_ladder inp))"
    "de_target (decide inp) = Some (el_candidates (in_ladder inp) ! b)"
    by (rule switched_facts) blast
  have "strictly_above inp b"
    using f no_evidence [OF assms(2), of b] by (auto simp: eligible_def all_rungs_def)
  with pick_rank_ge [OF f(1)] f show ?thesis
    by (auto simp: strictly_above_def Let_def split: option.splits)
qed


section \<open>A concrete decision\<close>

definition demo_candidate :: "string \<Rightarrow> real \<Rightarrow> int \<Rightarrow> candidate" where
  "demo_candidate nm ratio rk =
     \<lparr>ca_agent = \<lparr>ar_origin = OriginRouter, ar_id = nm\<rparr>, ca_model = ''p/'' @ nm, ca_variant = None, ca_costRatio = Fin ratio,
      ca_rank = rk, ca_tier = nm, ca_source = FromTier, ca_grants = Some [], ca_pricing = NoPricing\<rparr>"

definition demo_decision :: decision_input where
  "demo_decision =
     \<lparr>in_facts = \<lparr>tf_class = ''x'', tf_risk = RiskHigh, tf_scope = ScopeSingle, tf_needs = [], tf_confidence = Fin 1\<rparr>,
      in_chosen = \<lparr>ch_agent = \<lparr>ar_origin = OriginRouter, ar_id = ''a''\<rparr>, ch_model = ''p/a'', ch_variant = None\<rparr>,
      in_ladder = \<lparr>el_candidates = [demo_candidate ''a'' 5 0, demo_candidate ''b'' 1 1], el_next = [None, None],
        el_classRank = None, el_reachable = [], el_paths = [Some [0], Some [1]], el_presetRungs = None\<rparr>,
      in_detection = DetNone, in_pin = False,
      in_routing = \<lparr>kr_profile = Balanced, kr_margin = Fin (1 / 10), kr_minClassConfidence = Fin (1 / 2),
        kr_detection = (\<lambda>_. Fin (1 / 2))\<rparr>,
      in_store = None, in_floorRank = None, in_orchestrator = None, in_remainingTurns = None\<rparr>"

lemma demo_switches: "de_switched (decide demo_decision)"
  by code_simp

lemma demo_no_outcomes: "no_outcomes demo_decision"
  by code_simp

text \<open>The four properties at this decision.\<close>

theorem switch_is_justified_witness:
  "\<exists>b ch margin mn. let cand = el_candidates (in_ladder demo_decision) ! b in
    de_target (decide demo_decision) = Some cand \<and> b < length (el_candidates (in_ladder demo_decision)) \<and>
    chosen_index demo_decision = Some ch \<and> b \<noteq> ch \<and> \<not> in_pin demo_decision \<and>
    kr_minClassConfidence (in_routing demo_decision) = Fin mn \<and> mn \<le> clamp01 (tf_confidence (in_facts demo_decision)) \<and>
    kr_margin (in_routing demo_decision) = Fin margin \<and> 0 \<le> margin \<and> margin < 1 \<and>
    decision_costs demo_decision ! b \<noteq> None \<and>
    cost_of demo_decision b < (1 - margin) * cost_of demo_decision ch \<and>
    coversNeeds (ca_grants cand) (tf_needs (in_facts demo_decision)) \<and>
    (case in_floorRank demo_decision of None \<Rightarrow> True | Some f \<Rightarrow> f \<le> ca_rank cand) \<and>
    (strictly_above demo_decision b \<or> hasMinEvidence (snd (beliefs demo_decision ! b)))"
  by (rule switch_is_justified [OF demo_switches])

theorem best_is_cheapest_witness:
  "se_best (select_best demo_decision) = Some 1 \<and> eligible demo_decision 1 \<and>
   cost_of demo_decision 1 < cost_of demo_decision 0"
proof -
  have s: "se_best (select_best demo_decision) = Some 1" "priced_pick demo_decision = Some 0" by code_simp+
  then show ?thesis using best_is_cheapest [of demo_decision] by simp
qed

theorem high_risk_never_down_witness:
  "\<exists>ch cand q. chosen_index demo_decision = Some ch \<and> de_target (decide demo_decision) = Some cand \<and>
    pick_rank demo_decision = Some q \<and> ca_rank (el_candidates (in_ladder demo_decision) ! ch) \<le> q \<and> q \<le> ca_rank cand"
  using high_risk_never_down [OF demo_switches] by (auto simp: demo_decision_def)

theorem priors_only_move_up_witness:
  "\<exists>ch cand q. chosen_index demo_decision = Some ch \<and> de_target (decide demo_decision) = Some cand \<and>
    pick_rank demo_decision = Some q \<and> ca_rank (el_candidates (in_ladder demo_decision) ! ch) \<le> q \<and> q < ca_rank cand"
  using priors_only_move_up [OF demo_switches demo_no_outcomes] by blast

end
