(* ===== verification/Role_Decide.thy ===== *)
theory Role_Decide
  imports Decide "HOL-Library.Word"
begin

text \<open>
  Role dispatches: \<^verbatim>\<open>decideRole\<close> of \<^verbatim>\<open>src/routing/engine/kernel.ts\<close> with the seeded draws of
  its exploration. The draws are 32-bit arithmetic: \<^verbatim>\<open>Math.imul\<close> and the bit operators act
  modulo \<open>2^32\<close>, as \<open>32 word\<close> does. The position of the kernel's target is the index the kernel
  found it at (the code looks the object up by identity). Notes of the ladder are strings as in the code.
\<close>

unbundle bit_operations_syntax

section \<open>Types\<close>

record role_ladder_tier =
  rt_tier :: string
  rt_rank :: int
  rt_first :: "nat option"

text \<open>\<open>rl_graph\<close> is the \<^verbatim>\<open>Ladder\<close> part.\<close>

record role_ladder =
  rl_graph :: engine_ladder
  rl_role :: string
  rl_floorRank :: "int option"
  rl_ceilingRank :: "int option"
  rl_tiers :: "role_ladder_tier list"
  rl_staticDefault :: "nat option"
  rl_pinnedIndex :: "nat option"
  rl_reasons :: "string list"

record role_exploration =
  rx_rate :: jsnum
  rx_decisionID :: string

datatype engine_mode = EngineStatic | EngineShadow | EngineAdvise | EngineEnforce

record role_input =
  ri_classified :: classified_dispatch
  ri_ladder :: role_ladder
  ri_detection :: detection
  ri_engine :: engine_mode
  ri_routing :: kernel_routing
  ri_store :: "store_view option"
  ri_resume :: "(string \<times> string option) option"
  ri_exploration :: "role_exploration option"
  ri_orchestrator :: "(model_pricing \<times> jsnum) option"
  ri_remainingTurns :: "jsnum option"

record role_decision =
  rd_decision :: engine_decision
  rd_base :: "candidate option"
  rd_dispatch :: "candidate option"
  rd_switched :: bool
  rd_explore :: bool
  rd_propensity :: real
  rd_reasons :: "string list"

section \<open>Seeded draws\<close>

definition MAX_EXPLORATION_RATE :: real where "MAX_EXPLORATION_RATE = 1 / 5"

definition explorationRate :: "jsnum \<Rightarrow> real" where
  "explorationRate rate =
     (case rate of Fin r \<Rightarrow> if 0 < r then min r MAX_EXPLORATION_RATE else 0
      | PosInf \<Rightarrow> 0 | NegInf \<Rightarrow> 0 | NaN \<Rightarrow> 0)"

text \<open>The seed is hashed byte by byte (FNV-1a); then each draw steps the state and mixes it (mulberry32).\<close>

definition fnv1a :: "string \<Rightarrow> 32 word" where
  "fnv1a seed = fold (\<lambda>c h. (h XOR word_of_nat (of_char c)) * 0x01000193) seed 0x811c9dc5"

definition draw_step :: "32 word \<Rightarrow> 32 word \<times> real" where
  "draw_step s =
     (let s1 = s + 0x6d2b79f5;
          t1 = (s1 XOR drop_bit 15 s1) * (s1 OR 1);
          t2 = t1 XOR (t1 + (t1 XOR drop_bit 7 t1) * (t1 OR 61))
      in (s1, real (unat (t2 XOR drop_bit 14 t2)) / 4294967296))"

text \<open>The first two draws of a seed.\<close>

definition seededDraws :: "string \<Rightarrow> real \<times> real" where
  "seededDraws seed = (let (s1, u) = draw_step (fnv1a seed); (_, v) = draw_step s1 in (u, v))"

section \<open>The pick of the policy\<close>

definition rungAbove :: "candidate \<Rightarrow> candidate \<Rightarrow> bool" where
  "rungAbove a b \<longleftrightarrow> ca_rank b < ca_rank a \<or>
     ca_rank a = ca_rank b \<and> lowerEffortOnSameModel (ca_model b) (ca_variant b) (ca_model a) (ca_variant a)"

text \<open>A rank of \<open>None\<close> stands for \<^verbatim>\<open>Infinity\<close>.\<close>

definition roleCandidateAt :: "role_ladder \<Rightarrow> int option \<Rightarrow> nat option" where
  "roleCandidateAt ladder rank =
     (case List.find (\<lambda>t. (case rank of None \<Rightarrow> False | Some r \<Rightarrow> r \<le> rt_rank t) \<and> rt_first t \<noteq> None) (rl_tiers ladder) of
        Some t \<Rightarrow> rt_first t
      | None \<Rightarrow> (case List.find (\<lambda>t. rt_first t \<noteq> None) (rev (rl_tiers ladder)) of
                   Some t \<Rightarrow> rt_first t | None \<Rightarrow> None))"

definition cand :: "role_ladder \<Rightarrow> nat \<Rightarrow> candidate" where
  "cand ladder k = el_candidates (rl_graph ladder) ! k"

text \<open>The first candidate on the running rung.\<close>

definition running_index :: "role_ladder \<Rightarrow> string \<times> string option \<Rightarrow> nat option" where
  "running_index ladder run =
     List.find (\<lambda>k. canonicalRung (ca_model (cand ladder k)) (ca_variant (cand ladder k)) =
                    canonicalRung (fst run) (snd run))
       [0..<length (el_candidates (rl_graph ladder))]"

definition raised_base :: "role_ladder \<Rightarrow> string \<times> string option \<Rightarrow> nat \<Rightarrow> nat \<times> string list" where
  "raised_base ladder run base =
     (case running_index ladder run of
        Some k \<Rightarrow> if rungAbove (cand ladder k) (cand ladder base) then (k, [''resume:running'']) else (base, [])
      | None \<Rightarrow>
          (let rank = capabilityRank (rl_graph ladder) (fst run) (snd run) None;
               lifted = (case rank of None \<Rightarrow> roleCandidateAt ladder (rl_ceilingRank ladder)
                         | Some r \<Rightarrow> roleCandidateAt ladder (Some r));
               b = (case lifted of
                      Some l \<Rightarrow> if ca_rank (cand ladder base) < ca_rank (cand ladder l) then l else base
                    | None \<Rightarrow> base)
           in (b, [if rank = None then ''resume:off-ladder:lift'' else ''resume:off-ladder''])))"

definition role_base :: "role_input \<Rightarrow> nat option \<times> string list" where
  "role_base inp =
     (let ladder = ri_ladder inp; base = first_some (rl_pinnedIndex ladder) (rl_staticDefault ladder)
      in case (ri_resume inp, base) of
           (Some run, Some b) \<Rightarrow> (let (b', notes) = raised_base ladder run b in (Some b', rl_reasons ladder @ notes))
         | _ \<Rightarrow> (base, rl_reasons ladder))"

text \<open>The kernel's input for the role's pick.\<close>

definition role_kernel_input :: "role_input \<Rightarrow> decision_input" where
  "role_kernel_input inp =
     (let ladder = ri_ladder inp in
      \<lparr>in_facts = effectiveFactsOf (ri_classified inp),
       in_chosen = (case fst (role_base inp) of
          None \<Rightarrow> \<lparr>ch_agent = \<lparr>ar_origin = OriginRole, ar_id = rl_role ladder\<rparr>, ch_model = [], ch_variant = None\<rparr>
        | Some b \<Rightarrow> \<lparr>ch_agent = ca_agent (cand ladder b), ch_model = ca_model (cand ladder b),
                     ch_variant = ca_variant (cand ladder b)\<rparr>),
       in_ladder = rl_graph ladder, in_detection = ri_detection inp, in_pin = (rl_pinnedIndex ladder \<noteq> None),
       in_routing = ri_routing inp, in_store = ri_store inp, in_floorRank = rl_floorRank ladder,
       in_orchestrator = ri_orchestrator inp, in_remainingTurns = ri_remainingTurns inp\<rparr>)"

section \<open>Exploration\<close>

definition role_rate :: "role_input \<Rightarrow> real" where
  "role_rate inp =
     (if ri_engine inp = EngineEnforce
      then (case ri_exploration inp of None \<Rightarrow> 0 | Some x \<Rightarrow> explorationRate (rx_rate x)) else 0)"

definition explorable :: "role_input \<Rightarrow> bool" where
  "explorable inp \<longleftrightarrow> 0 < role_rate inp \<and> rl_pinnedIndex (ri_ladder inp) = None \<and> ri_resume inp = None \<and>
     tf_risk (effectiveFactsOf (ri_classified inp)) \<noteq> RiskHigh \<and> ri_detection inp = DetDeterministic"

text \<open>The candidates at or above the floor and below the static default.\<close>

definition role_targets :: "role_input \<Rightarrow> nat list" where
  "role_targets inp =
     (let ladder = ri_ladder inp in
      case (rl_staticDefault ladder, rl_floorRank ladder) of
        (Some def, Some floorRank) \<Rightarrow>
          (if explorable inp
           then filter (\<lambda>k. floorRank \<le> ca_rank (cand ladder k) \<and> rungAbove (cand ladder def) (cand ladder k))
                  [0..<length (el_candidates (rl_graph ladder))]
           else [])
      | _ \<Rightarrow> [])"

definition role_switches :: "role_input \<Rightarrow> bool" where
  "role_switches inp \<longleftrightarrow>
     ri_engine inp = EngineEnforce \<and> ri_resume inp = None \<and> de_switched (decide (role_kernel_input inp)) \<and>
     de_target (decide (role_kernel_input inp)) \<noteq> None"

text \<open>What the policy does when no draw is taken.\<close>

definition exploit_index :: "role_input \<Rightarrow> nat \<Rightarrow> nat" where
  "exploit_index inp base =
     (if role_switches inp then or_else (se_best (select_best (role_kernel_input inp))) base else base)"

text \<open>A draw \<open>(u, v)\<close>: the dispatched index, and whether it was explored.\<close>

definition role_draw :: "real \<Rightarrow> nat list \<Rightarrow> nat \<Rightarrow> real \<times> real \<Rightarrow> nat \<times> bool" where
  "role_draw rate targets exploit uv =
     (if targets \<noteq> [] \<and> fst uv < rate
      then (targets ! min (length targets - 1) (nat \<lfloor>snd uv * real (length targets)\<rfloor>), True)
      else (exploit, False))"

definition role_propensity :: "real \<Rightarrow> nat list \<Rightarrow> nat \<Rightarrow> nat \<Rightarrow> real" where
  "role_propensity rate targets exploit dispatch =
     (if targets = [] then 1
      else (if dispatch = exploit then 1 - rate else 0) +
           (if dispatch \<in> set targets then rate / real (length targets) else 0))"

section \<open>The decision\<close>

definition decideRole :: "role_input \<Rightarrow> role_decision" where
  "decideRole inp =
     (let ladder = ri_ladder inp; (base, reasons) = role_base inp; decision = decide (role_kernel_input inp)
      in case base of
           None \<Rightarrow> \<lparr>rd_decision = decision, rd_base = None, rd_dispatch = None, rd_switched = False,
                    rd_explore = False, rd_propensity = 1, rd_reasons = reasons\<rparr>
         | Some b \<Rightarrow>
             (let kept = (if ri_resume inp \<noteq> None \<and> de_switched decision then [''kept:resume''] else []);
                  exploit = exploit_index inp b; rate = role_rate inp; targets = role_targets inp;
                  (dispatch, explore) = role_draw rate targets exploit
                     (seededDraws (case ri_exploration inp of None \<Rightarrow> [] | Some x \<Rightarrow> rx_decisionID x))
              in \<lparr>rd_decision = decision, rd_base = Some (cand ladder b), rd_dispatch = Some (cand ladder dispatch),
                  rd_switched = (role_switches inp \<and> \<not> explore), rd_explore = explore,
                  rd_propensity = role_propensity rate targets exploit dispatch,
                  rd_reasons = reasons @ kept @ (if explore then [''explore''] else [])\<rparr>))"

end
