(* ===== verification/Role_Spec.thy ===== *)
theory Role_Spec
  imports Role_Decide Decide_Spec
begin

text \<open>
  What a role decision guarantees: the dispatch is a candidate of the window, a resumed child is never
  moved below its running rung, exploration happens only where it is allowed, and the recorded
  propensities are the probabilities of the policy.
\<close>

section \<open>Well-formed role ladders\<close>

text \<open>
  What \<^verbatim>\<open>buildRoleLadder\<close> guarantees: its indices are those of candidates, the first candidate of a
  tier has at least the tier's rank, and every candidate lies in the window.
\<close>

definition role_ladder_ok :: "role_ladder \<Rightarrow> bool" where
  "role_ladder_ok ladder \<longleftrightarrow>
     (let n = length (el_candidates (rl_graph ladder)) in
      (case rl_staticDefault ladder of None \<Rightarrow> True | Some k \<Rightarrow> k < n) \<and>
      (case rl_pinnedIndex ladder of None \<Rightarrow> True | Some k \<Rightarrow> k < n) \<and>
      list_all (\<lambda>t. case rt_first t of None \<Rightarrow> True | Some k \<Rightarrow> k < n \<and> rt_rank t \<le> ca_rank (cand ladder k))
        (rl_tiers ladder))"

lemma tier_first: "role_ladder_ok ladder \<Longrightarrow> t \<in> set (rl_tiers ladder) \<Longrightarrow> rt_first t = Some k \<Longrightarrow>
    k < length (el_candidates (rl_graph ladder)) \<and> rt_rank t \<le> ca_rank (cand ladder k)"
  by (auto simp: role_ladder_ok_def list_all_iff Let_def)

lemma found_tier:
  assumes "List.find P xs = Some t"
  shows "t \<in> set xs" "P t"
  using assms by (auto simp: find_Some_iff)

lemma roleCandidateAt_less:
  assumes "role_ladder_ok ladder" and "roleCandidateAt ladder rank = Some k"
  shows "k < length (el_candidates (rl_graph ladder))"
  using assms by (auto simp: roleCandidateAt_def dest!: found_tier(1) dest: tier_first split: option.splits)

lemma roleCandidateAt_rank:
  assumes "role_ladder_ok ladder" and "roleCandidateAt ladder (Some r) = Some k"
    and "list_ex (\<lambda>t. r \<le> rt_rank t \<and> rt_first t \<noteq> None) (rl_tiers ladder)"
  shows "r \<le> ca_rank (cand ladder k)"
proof -
  let ?P = "\<lambda>t. r \<le> rt_rank t \<and> rt_first t \<noteq> None"
  from assms(3) obtain t where t: "List.find ?P (rl_tiers ladder) = Some t"
    by (cases "List.find ?P (rl_tiers ladder)") (auto simp: find_None_iff list_ex_iff)
  with assms(2) have "rt_first t = Some k" by (simp add: roleCandidateAt_def)
  with found_tier [OF t] tier_first [OF assms(1)] show ?thesis by fastforce
qed

lemma running_index_facts:
  assumes "running_index ladder run = Some k"
  shows "k < length (el_candidates (rl_graph ladder))"
    "canonicalRung (ca_model (cand ladder k)) (ca_variant (cand ladder k)) = canonicalRung (fst run) (snd run)"
  using found_tier [OF assms [unfolded running_index_def]] by simp_all

section \<open>The base\<close>

lemma base_less:
  assumes "role_ladder_ok (ri_ladder inp)" and "fst (role_base inp) = Some b"
  shows "b < length (el_candidates (rl_graph (ri_ladder inp)))"
proof -
  let ?l = "ri_ladder inp"
  have start: "first_some (rl_pinnedIndex ?l) (rl_staticDefault ?l) = Some k \<Longrightarrow>
      k < length (el_candidates (rl_graph ?l))" for k
    using assms(1) by (cases "rl_pinnedIndex ?l") (auto simp: role_ladder_ok_def Let_def)
  have "fst (raised_base ?l run k) < length (el_candidates (rl_graph ?l))"
    if "k < length (el_candidates (rl_graph ?l))" for run k
    using that roleCandidateAt_less [OF assms(1)] running_index_facts(1) [of ?l run]
    by (auto simp: raised_base_def Let_def split: option.split)
  with start assms(2) show ?thesis
    by (auto simp: role_base_def Let_def split: option.splits prod.splits) (metis fst_conv)+
qed

lemma rungAbove_irrefl [simp]: "\<not> rungAbove c c"
  by (simp add: rungAbove_def lowerEffortOnSameModel_def Let_def)

section \<open>Dispatching\<close>

lemma draws_bounds: "0 \<le> snd (draw_step s) \<and> snd (draw_step s) < 1"
proof -
  have "0 \<le> real (unat w)" for w :: "32 word" by (rule of_nat_0_le_iff)
  moreover have "real (unat w) < real 4294967296" for w :: "32 word"
  proof -
    have "unat w < 4294967296" using unsigned_less [of w, where 'a = nat] by simp
    then show ?thesis by (simp only: of_nat_less_iff)
  qed
  ultimately show ?thesis by (simp add: draw_step_def Let_def)
qed

lemma seeded_bounds:
  "0 \<le> fst (seededDraws seed)" "fst (seededDraws seed) < 1"
  "0 \<le> snd (seededDraws seed)" "snd (seededDraws seed) < 1"
  using draws_bounds by (auto simp: seededDraws_def split: prod.split) (metis snd_conv)+

lemma role_draw_cases:
  assumes "role_draw rate targets exploit uv = (d, e)"
  shows "e \<and> targets \<noteq> [] \<and> fst uv < rate \<and> d \<in> set targets \<or> \<not> e \<and> d = exploit"
proof (cases "targets \<noteq> [] \<and> fst uv < rate")
  case True
  then have "min (length targets - 1) (nat \<lfloor>snd uv * real (length targets)\<rfloor>) < length targets"
    by (cases targets) auto
  with True assms show ?thesis by (auto simp: role_draw_def)
next
  case False
  with assms show ?thesis by (auto simp: role_draw_def)
qed

lemma target_facts:
  assumes "k \<in> set (role_targets inp)"
  shows "explorable inp" "k < length (el_candidates (rl_graph (ri_ladder inp)))"
    "\<exists>def flr. rl_staticDefault (ri_ladder inp) = Some def \<and> rl_floorRank (ri_ladder inp) = Some flr \<and>
       flr \<le> ca_rank (cand (ri_ladder inp) k) \<and> rungAbove (cand (ri_ladder inp) def) (cand (ri_ladder inp) k)"
  using assms by (cases "rl_staticDefault (ri_ladder inp)"; cases "rl_floorRank (ri_ladder inp)";
      auto simp: role_targets_def Let_def split: if_splits)+

lemma exploit_less:
  assumes "b < length (el_candidates (rl_graph (ri_ladder inp)))"
  shows "exploit_index inp b < length (el_candidates (rl_graph (ri_ladder inp)))"
proof (cases "role_switches inp")
  case True
  then have "de_switched (decide (role_kernel_input inp))" by (simp add: role_switches_def)
  then obtain c where "se_best (select_best (role_kernel_input inp)) = Some c"
    "c < length (el_candidates (in_ladder (role_kernel_input inp)))"
    by (rule switched_facts) blast
  with True show ?thesis by (simp add: exploit_index_def role_kernel_input_def Let_def)
next
  case False
  with assms show ?thesis by (simp add: exploit_index_def)
qed

lemma decideRole_dispatch:
  assumes "fst (role_base inp) = Some b"
  obtains d e where
    "role_draw (role_rate inp) (role_targets inp) (exploit_index inp b)
       (seededDraws (case ri_exploration inp of None \<Rightarrow> [] | Some x \<Rightarrow> rx_decisionID x)) = (d, e)"
    "rd_dispatch (decideRole inp) = Some (cand (ri_ladder inp) d)" "rd_explore (decideRole inp) = e"
    "rd_switched (decideRole inp) \<longleftrightarrow> role_switches inp \<and> \<not> e"
    "rd_base (decideRole inp) = Some (cand (ri_ladder inp) b)"
    "rd_propensity (decideRole inp) = role_propensity (role_rate inp) (role_targets inp) (exploit_index inp b) d"
proof -
  obtain nts where b: "role_base inp = (Some b, nts)" using assms by (cases "role_base inp") simp
  obtain d e where de: "role_draw (role_rate inp) (role_targets inp) (exploit_index inp b)
       (seededDraws (case ri_exploration inp of None \<Rightarrow> [] | Some x \<Rightarrow> rx_decisionID x)) = (d, e)"
    by (cases "role_draw (role_rate inp) (role_targets inp) (exploit_index inp b)
       (seededDraws (case ri_exploration inp of None \<Rightarrow> [] | Some x \<Rightarrow> rx_decisionID x))")
  show thesis
    by (rule that [OF de]) (simp_all add: decideRole_def b de Let_def del: option.case_eq_if)
qed


lemma in_ladder_role: "in_ladder (role_kernel_input inp) = rl_graph (ri_ladder inp)"
  by (simp add: role_kernel_input_def Let_def)

lemma no_base: "fst (role_base inp) = None \<Longrightarrow> rd_dispatch (decideRole inp) = None"
  by (auto simp: decideRole_def Let_def split: prod.split)

lemma role_base_None: "fst (role_base inp) = None \<longleftrightarrow>
    rl_pinnedIndex (ri_ladder inp) = None \<and> rl_staticDefault (ri_ladder inp) = None"
  by (cases "rl_pinnedIndex (ri_ladder inp)"; cases "rl_staticDefault (ri_ladder inp)"; cases "ri_resume inp")
    (auto simp: role_base_def Let_def split: prod.split)

lemma role_dispatch_facts:
  assumes "role_ladder_ok (ri_ladder inp)"
  shows "let d = decideRole inp in
    (rd_dispatch d = None \<longleftrightarrow> rl_pinnedIndex (ri_ladder inp) = None \<and> rl_staticDefault (ri_ladder inp) = None) \<and>
    (case rd_dispatch d of None \<Rightarrow> True
     | Some c \<Rightarrow> c \<in> set (el_candidates (rl_graph (ri_ladder inp))) \<and>
         (rd_switched d \<longrightarrow> ri_engine inp = EngineEnforce \<and> ri_resume inp = None \<and> \<not> rd_explore d \<and>
            de_switched (rd_decision d) \<and> de_target (rd_decision d) = Some c) \<and>
         (\<not> rd_switched d \<and> \<not> rd_explore d \<longrightarrow> rd_base d = Some c) \<and>
         (ri_engine inp \<noteq> EngineEnforce \<longrightarrow> rd_base d = Some c \<and> \<not> rd_explore d \<and> rd_propensity d = 1))"
proof (cases "fst (role_base inp)")
  case None
  then show ?thesis using no_base role_base_None [of inp] by (simp add: Let_def)
next
  case (Some b)
  have bl: "b < length (el_candidates (rl_graph (ri_ladder inp)))" by (rule base_less [OF assms Some])
  obtain d e where de: "role_draw (role_rate inp) (role_targets inp) (exploit_index inp b)
       (seededDraws (case ri_exploration inp of None \<Rightarrow> [] | Some x \<Rightarrow> rx_decisionID x)) = (d, e)"
    and f: "rd_dispatch (decideRole inp) = Some (cand (ri_ladder inp) d)" "rd_explore (decideRole inp) = e"
    "rd_switched (decideRole inp) \<longleftrightarrow> role_switches inp \<and> \<not> e"
    "rd_base (decideRole inp) = Some (cand (ri_ladder inp) b)"
    "rd_propensity (decideRole inp) = role_propensity (role_rate inp) (role_targets inp) (exploit_index inp b) d"
    by (rule decideRole_dispatch [OF Some])
  have dec: "rd_decision (decideRole inp) = decide (role_kernel_input inp)"
    by (simp add: decideRole_def Let_def split: option.split prod.split)
  note c = role_draw_cases [OF de]
  have "d < length (el_candidates (rl_graph (ri_ladder inp)))"
    using c exploit_less [OF bl] target_facts(2) by auto
  moreover have "de_switched (decide (role_kernel_input inp)) \<and>
      de_target (decide (role_kernel_input inp)) = Some (cand (ri_ladder inp) (exploit_index inp b))" if "role_switches inp"
  proof -
    from that have "de_switched (decide (role_kernel_input inp))" by (simp add: role_switches_def)
    then obtain c where "se_best (select_best (role_kernel_input inp)) = Some c"
      "de_target (decide (role_kernel_input inp)) = Some (el_candidates (in_ladder (role_kernel_input inp)) ! c)"
      by (rule switched_facts) blast
    with that show ?thesis
      by (simp add: role_switches_def exploit_index_def cand_def in_ladder_role or_else_def)
  qed
  moreover have "role_switches inp \<Longrightarrow> ri_engine inp = EngineEnforce \<and> ri_resume inp = None"
    "\<not> role_switches inp \<Longrightarrow> exploit_index inp b = b"
    "ri_engine inp \<noteq> EngineEnforce \<Longrightarrow> role_targets inp = [] \<and> \<not> role_switches inp"
    by (auto simp: role_switches_def exploit_index_def role_targets_def explorable_def role_rate_def Let_def split: option.split)
  ultimately show ?thesis
    using c f dec Some role_base_None [of inp] by (auto simp: Let_def cand_def role_propensity_def)
qed

text \<open>A role dispatch is refused exactly when the window has neither a pin nor a default; otherwise it is
  one of the window's candidates, and the policy's pick, the kernel's target or an explored target: only an
  enforcing engine switches or explores, never both, and in every other mode the pick itself is dispatched
  with propensity one.\<close>

theorem role_dispatch_confined:
  assumes "role_ladder_ok (ri_ladder inp)"
  shows "let d = decideRole inp in
    (rd_dispatch d = None \<longleftrightarrow> rl_pinnedIndex (ri_ladder inp) = None \<and> rl_staticDefault (ri_ladder inp) = None) \<and>
    (case rd_dispatch d of None \<Rightarrow> True
     | Some c \<Rightarrow> c \<in> set (el_candidates (rl_graph (ri_ladder inp))) \<and>
         (rd_switched d \<longrightarrow> ri_engine inp = EngineEnforce \<and> ri_resume inp = None \<and> \<not> rd_explore d \<and>
            de_switched (rd_decision d) \<and> de_target (rd_decision d) = Some c) \<and>
         (\<not> rd_switched d \<and> \<not> rd_explore d \<longrightarrow> rd_base d = Some c) \<and>
         (ri_engine inp \<noteq> EngineEnforce \<longrightarrow> rd_base d = Some c \<and> \<not> rd_explore d \<and> rd_propensity d = 1))"
  by (rule role_dispatch_facts [OF assms])


text \<open>A resumed child is never moved below the rung it runs on: it is neither switched nor explored, and
  the dispatch is not below the running rung when that is a candidate; when it is not, the dispatch has at
  least the running model's capability rank, or the ceiling's when that is unknown, as far as a tier of the
  window reaches it.\<close>

theorem resume_never_below:
  assumes "role_ladder_ok (ri_ladder inp)" and "ri_resume inp = Some run" and "rd_dispatch (decideRole inp) = Some c"
  shows "\<not> rd_switched (decideRole inp) \<and> \<not> rd_explore (decideRole inp) \<and> rd_base (decideRole inp) = Some c \<and>
    (case running_index (ri_ladder inp) run of
       Some k \<Rightarrow> \<not> rungAbove (cand (ri_ladder inp) k) c
     | None \<Rightarrow>
         (case first_some (capabilityRank (rl_graph (ri_ladder inp)) (fst run) (snd run) None) (rl_ceilingRank (ri_ladder inp)) of
            None \<Rightarrow> True
          | Some r \<Rightarrow> list_ex (\<lambda>t. r \<le> rt_rank t \<and> rt_first t \<noteq> None) (rl_tiers (ri_ladder inp)) \<longrightarrow> r \<le> ca_rank c))"
proof -
  let ?l = "ri_ladder inp"
  obtain b where b: "fst (role_base inp) = Some b"
    using assms(3) no_base by (cases "fst (role_base inp)") auto
  then obtain start where "first_some (rl_pinnedIndex ?l) (rl_staticDefault ?l) = Some start"
    by (cases "first_some (rl_pinnedIndex ?l) (rl_staticDefault ?l)") (auto simp: role_base_def assms(2) Let_def)
  with b have rb: "b = fst (raised_base ?l run start)"
    by (auto simp: role_base_def assms(2) Let_def split: prod.splits)
  have t: "role_targets inp = []" "\<not> role_switches inp"
    by (auto simp: role_targets_def explorable_def assms(2) role_switches_def Let_def split: option.split)
  have f: "rd_dispatch (decideRole inp) = Some (cand ?l b)" "\<not> rd_explore (decideRole inp)"
    "\<not> rd_switched (decideRole inp)" "rd_base (decideRole inp) = Some (cand ?l b)"
    using t by (auto intro: decideRole_dispatch [OF b] simp: role_draw_def exploit_index_def)
  have c: "c = cand ?l b" using f(1) assms(3) by simp
  show ?thesis
  proof (cases "running_index ?l run")
    case (Some k)
    then have "\<not> rungAbove (cand ?l k) (cand ?l b)" by (simp add: rb raised_base_def)
    with f c Some show ?thesis by simp
  next
    case None
    have "r \<le> ca_rank (cand ?l b)"
      if r: "first_some (capabilityRank (rl_graph ?l) (fst run) (snd run) None) (rl_ceilingRank ?l) = Some r"
        and ex: "list_ex (\<lambda>t. r \<le> rt_rank t \<and> rt_first t \<noteq> None) (rl_tiers ?l)" for r
    proof -
      let ?P = "\<lambda>t. r \<le> rt_rank t \<and> rt_first t \<noteq> None"
      from ex have "roleCandidateAt ?l (Some r) \<noteq> None"
        by (auto simp: roleCandidateAt_def find_None_iff list_ex_iff dest!: found_tier(2) split: option.split)
      then obtain k where k: "roleCandidateAt ?l (Some r) = Some k" by blast
      with roleCandidateAt_rank [OF assms(1) k ex] r None show ?thesis
        by (cases "capabilityRank (rl_graph ?l) (fst run) (snd run) None") (auto simp: rb raised_base_def Let_def)
    qed
    with f c None show ?thesis by (auto split: option.split)
  qed
qed


text \<open>Exploration stays within its limits: a dispatch is explored only by an enforcing engine with a positive
  rate of at most one in five, without pin or resume, when the raised risk is not high and detection is
  deterministic; its target is at or above the window's floor and the static default is above it.\<close>

theorem exploration_is_confined:
  assumes "rd_explore (decideRole inp)" and "rd_dispatch (decideRole inp) = Some c"
  shows "ri_engine inp = EngineEnforce \<and> 0 < role_rate inp \<and> role_rate inp \<le> MAX_EXPLORATION_RATE \<and>
    rl_pinnedIndex (ri_ladder inp) = None \<and> ri_resume inp = None \<and> ri_detection inp = DetDeterministic \<and>
    tf_risk (effectiveFactsOf (ri_classified inp)) \<noteq> RiskHigh \<and>
    (\<exists>def flr. rl_staticDefault (ri_ladder inp) = Some def \<and> rl_floorRank (ri_ladder inp) = Some flr \<and>
       flr \<le> ca_rank c \<and> rungAbove (cand (ri_ladder inp) def) c)"
proof -
  obtain b where b: "fst (role_base inp) = Some b"
    using assms(2) no_base by (cases "fst (role_base inp)") auto
  obtain d e where de: "role_draw (role_rate inp) (role_targets inp) (exploit_index inp b)
       (seededDraws (case ri_exploration inp of None \<Rightarrow> [] | Some x \<Rightarrow> rx_decisionID x)) = (d, e)"
    and f: "rd_dispatch (decideRole inp) = Some (cand (ri_ladder inp) d)" "rd_explore (decideRole inp) = e"
    by (rule decideRole_dispatch [OF b]) blast
  then have d: "d \<in> set (role_targets inp)" "c = cand (ri_ladder inp) d"
    using role_draw_cases [OF de] assms by auto
  from target_facts(1) [OF d(1)] have x: "explorable inp" .
  then have "ri_engine inp = EngineEnforce" "role_rate inp \<le> MAX_EXPLORATION_RATE"
    by (auto simp: explorable_def role_rate_def explorationRate_def MAX_EXPLORATION_RATE_def
        split: if_splits option.splits jsnum.splits)
  with x target_facts(3) [OF d(1)] show ?thesis unfolding d(2) explorable_def by blast
qed

section \<open>Propensities\<close>

lemma rate_bounds: "0 \<le> role_rate inp \<and> role_rate inp \<le> 1 / 5"
  by (auto simp: role_rate_def explorationRate_def MAX_EXPLORATION_RATE_def split: option.split jsnum.split)

lemma sum_indicator: "distinct xs \<Longrightarrow> set ys \<subseteq> set xs \<Longrightarrow> distinct ys \<Longrightarrow>
    (\<Sum>k\<leftarrow>xs. if k \<in> set ys then (c :: real) else 0) = real (length ys) * c"
proof -
  assume a: "distinct xs" "set ys \<subseteq> set xs" "distinct ys"
  then have "(\<Sum>k\<leftarrow>xs. if k \<in> set ys then c else 0) = (\<Sum>k\<in>set xs. if k \<in> set ys then c else 0)"
    by (simp add: sum_list_distinct_conv_sum_set)
  also have "\<dots> = (\<Sum>k\<in>set ys. c)"
    using a(2) by (intro sum.mono_neutral_cong_right) auto
  finally show ?thesis using a(3) by (simp add: distinct_card)
qed

lemma targets_distinct: "distinct (role_targets inp)"
  by (auto simp: role_targets_def Let_def split: option.split)

lemma propensity_sum:
  assumes "e < n" and "ts \<noteq> []" and "distinct ts" and "set ts \<subseteq> {0..<n}"
  shows "(\<Sum>k\<leftarrow>[0..<n]. role_propensity rate ts e k) = 1"
proof -
  have "(\<Sum>k\<leftarrow>[0..<n]. role_propensity rate ts e k) =
      (\<Sum>k\<leftarrow>[0..<n]. if k \<in> set [e] then 1 - rate else 0) +
      (\<Sum>k\<leftarrow>[0..<n]. if k \<in> set ts then rate / real (length ts) else 0)"
    using assms(2) by (simp add: role_propensity_def sum_list_addf)
  also have "\<dots> = (1 - rate) + real (length ts) * (rate / real (length ts))"
    using assms by (subst sum_indicator; simp)+
  finally show ?thesis using assms(2) by simp
qed

text \<open>The recorded propensity is a probability: it lies above zero and at most at one; when an exploration
  draw is possible, the propensities of the candidates sum to one, and they are those of the draws: for \<open>u\<close>
  from the rate on the policy's choice is dispatched, and for \<open>u\<close> below it each target is dispatched on an
  interval of \<open>v\<close> of the same length.\<close>

theorem propensity_is_probability:
  assumes "role_ladder_ok (ri_ladder inp)" and "fst (role_base inp) = Some b"
  shows "let p = rd_propensity (decideRole inp); ts = role_targets inp; e = exploit_index inp b; r = role_rate inp in
    0 < p \<and> p \<le> 1 \<and>
    (ts \<noteq> [] \<longrightarrow>
       (\<Sum>k\<leftarrow>[0..<length (el_candidates (rl_graph (ri_ladder inp)))]. role_propensity r ts e k) = 1) \<and>
    (\<forall>u v. r \<le> u \<longrightarrow> role_draw r ts e (u, v) = (e, False)) \<and>
    (\<forall>u v i. u < r \<and> i < length ts \<and> real i / real (length ts) \<le> v \<and> v < real (Suc i) / real (length ts) \<longrightarrow>
       role_draw r ts e (u, v) = (ts ! i, True))"
proof -
  let ?ts = "role_targets inp" and ?e = "exploit_index inp b" and ?r = "role_rate inp"
  obtain d x where de: "role_draw ?r ?ts ?e
       (seededDraws (case ri_exploration inp of None \<Rightarrow> [] | Some x \<Rightarrow> rx_decisionID x)) = (d, x)"
    and p: "rd_propensity (decideRole inp) = role_propensity ?r ?ts ?e d"
    by (rule decideRole_dispatch [OF assms(2)]) blast
  have r: "0 \<le> ?r" "?r \<le> 1 / 5" using rate_bounds by auto
  have pos: "?ts \<noteq> [] \<Longrightarrow> 0 < ?r"
    using target_facts(1) [of "hd ?ts" inp] by (auto simp: explorable_def)
  have len: "?ts \<noteq> [] \<Longrightarrow> ?r / real (length ?ts) \<le> ?r"
    using divide_left_mono [of 1 "real (length ?ts)" ?r] r(1) by (cases ?ts) auto
  have len1: "?ts \<noteq> [] \<Longrightarrow> ?r \<le> real (length ?ts)"
    using r(2) by (cases ?ts) auto
  have "0 < role_propensity ?r ?ts ?e d \<and> role_propensity ?r ?ts ?e d \<le> 1"
    using role_draw_cases [OF de] r pos len len1 by (auto simp: role_propensity_def add_pos_pos)
  moreover have "?ts \<noteq> [] \<Longrightarrow>
      (\<Sum>k\<leftarrow>[0..<length (el_candidates (rl_graph (ri_ladder inp)))]. role_propensity ?r ?ts ?e k) = 1"
    using target_facts(2) exploit_less [OF base_less [OF assms]] targets_distinct
    by (intro propensity_sum) auto
  moreover have "role_draw ?r ?ts ?e (u, v) = (?e, False)" if "?r \<le> u" for u v
    using that by (simp add: role_draw_def)
  moreover have "role_draw ?r ?ts ?e (u, v) = (?ts ! i, True)"
    if "u < ?r \<and> i < length ?ts \<and> real i / real (length ?ts) \<le> v \<and> v < real (Suc i) / real (length ?ts)" for u v i
  proof -
    from that have "real i \<le> v * real (length ?ts)" "v * real (length ?ts) < real (Suc i)"
      by (auto simp: divide_le_eq less_divide_eq split: if_splits)
    then have "\<lfloor>v * real (length ?ts)\<rfloor> = int i" by (simp add: floor_eq_iff)
    moreover have "min (length ?ts - 1) i = i" using that by (intro min_absorb2) linarith
    ultimately show ?thesis using that by (cases ?ts) (auto simp: role_draw_def simp del: min_def)
  qed
  ultimately show ?thesis unfolding p Let_def by blast
qed


section \<open>A concrete role decision\<close>

definition demo_ladder :: role_ladder where
  "demo_ladder =
     \<lparr>rl_graph = \<lparr>el_candidates = [demo_candidate ''a'' 1 0, demo_candidate ''b'' 5 1], el_next = [Some 1, None],
        el_classRank = None, el_reachable = [], el_paths = [], el_presetRungs = None\<rparr>,
      rl_role = ''implementer'', rl_floorRank = Some 0, rl_ceilingRank = Some 1,
      rl_tiers = [\<lparr>rt_tier = ''fast'', rt_rank = 0, rt_first = Some 0\<rparr>, \<lparr>rt_tier = ''medium'', rt_rank = 1, rt_first = Some 1\<rparr>],
      rl_staticDefault = Some 1, rl_pinnedIndex = None, rl_reasons = []\<rparr>"

definition demo_role_input :: "(string \<times> string option) option \<Rightarrow> role_input" where
  "demo_role_input run =
     \<lparr>ri_classified = \<lparr>cd_facts = \<lparr>tf_class = ''x'', tf_risk = RiskLow, tf_scope = ScopeSingle, tf_needs = [], tf_confidence = Fin 1\<rparr>,
        cd_rules = None, cd_routeLine = None\<rparr>,
      ri_ladder = demo_ladder, ri_detection = DetDeterministic, ri_engine = EngineEnforce,
      ri_routing = in_routing demo_decision, ri_store = None, ri_resume = run,
      ri_exploration = Some \<lparr>rx_rate = Fin 1, rx_decisionID = ''c''\<rparr>, ri_orchestrator = None, ri_remainingTurns = None\<rparr>"

lemma demo_draws: "seededDraws ''c'' = (648991343 / 4294967296, 1597053694 / 4294967296)"
proof -
  have "fnv1a ''c'' = 3859557458" by (simp add: fnv1a_def)
  moreover have "draw_step 3859557458 = (1396155975, 648991343 / 4294967296)" by (simp add: draw_step_def Let_def)
  moreover have "draw_step 1396155975 = (3227721788, 1597053694 / 4294967296)" by (simp add: draw_step_def Let_def)
  ultimately show ?thesis by (simp add: seededDraws_def)
qed

lemma demo_role_facts:
  "role_ladder_ok (ri_ladder (demo_role_input run))" "role_base (demo_role_input None) = (Some 1, [])"
  "role_targets (demo_role_input None) = [0]" "role_rate (demo_role_input None) = 1 / 5"
  "fst (role_base (demo_role_input (Some (''p/b'', None)))) = Some 1"
  by (code_simp+)

lemma demo_explores:
  "rd_explore (decideRole (demo_role_input None))"
  "rd_dispatch (decideRole (demo_role_input None)) = Some (demo_candidate ''a'' 1 0)"
proof -
  have x: "ri_exploration (demo_role_input None) = Some \<lparr>rx_rate = Fin 1, rx_decisionID = ''c''\<rparr>"
    "cand (ri_ladder (demo_role_input None)) 0 = demo_candidate ''a'' 1 0"
    by (simp_all add: demo_role_input_def demo_ladder_def cand_def)
  have b: "fst (role_base (demo_role_input None)) = Some 1" by (simp add: demo_role_facts)
  show "rd_explore (decideRole (demo_role_input None))"
    "rd_dispatch (decideRole (demo_role_input None)) = Some (demo_candidate ''a'' 1 0)"
    by (rule decideRole_dispatch [OF b]; simp add: demo_role_facts x demo_draws role_draw_def)+
qed

theorem role_dispatch_confined_witness:
  "demo_candidate ''a'' 1 0 \<in> set (el_candidates (rl_graph (ri_ladder (demo_role_input None)))) \<and>
   \<not> rd_switched (decideRole (demo_role_input None))"
  using role_dispatch_confined [OF demo_role_facts(1) [of None]]
  by (auto simp: demo_explores Let_def)

theorem exploration_is_confined_witness:
  "ri_detection (demo_role_input None) = DetDeterministic \<and> role_rate (demo_role_input None) \<le> MAX_EXPLORATION_RATE"
  using exploration_is_confined [OF demo_explores] by blast

theorem propensity_is_probability_witness:
  "let p = rd_propensity (decideRole (demo_role_input None)) in 0 < p \<and> p \<le> 1"
  using propensity_is_probability [OF demo_role_facts(1) [of None], of 1] by (simp add: demo_role_facts Let_def)

theorem resume_never_below_witness:
  "\<exists>c. rd_dispatch (decideRole (demo_role_input (Some (''p/b'', None)))) = Some c \<and>
     \<not> rungAbove (cand (ri_ladder (demo_role_input (Some (''p/b'', None)))) 1) c"
proof -
  let ?i = "demo_role_input (Some (''p/b'', None))"
  have "rd_dispatch (decideRole ?i) \<noteq> None"
    by (rule decideRole_dispatch [OF demo_role_facts(5)]) simp
  then obtain c where c: "rd_dispatch (decideRole ?i) = Some c" by blast
  have "running_index (ri_ladder ?i) (''p/b'', None) = Some 1" by code_simp
  moreover have "ri_resume ?i = Some (''p/b'', None)" by (simp add: demo_role_input_def)
  ultimately show ?thesis using resume_never_below [OF demo_role_facts(1) _ c] c by auto
qed

end
