(* ===== verification/Tier_Rungs.thy ===== *)
theory Tier_Rungs
  imports Ladder_Policy Js_Text Outcome_Key Facts
begin

text \<open>
  The tiers of the active preset and their rungs: preset name resolution and \<^verbatim>\<open>resolveCandidates\<close> of
  \<^verbatim>\<open>src/router/config.ts\<close>, \<^verbatim>\<open>presetTierOrder\<close> of \<^verbatim>\<open>src/router/roles.ts\<close>, and the tier
  helpers of \<^verbatim>\<open>src/routing/engine/ladders.ts\<close> (the escalate ladder, base rungs, grants). Entries of a
  validated configuration have the declared types: a ratio that is not a number above zero, or a null
  entry of \<^verbatim>\<open>candidates\<close>, does not survive loading. Names inherited from \<^verbatim>\<open>Object.prototype\<close> are
  not preset names in the model.
\<close>

section \<open>Presets\<close>

definition resolvePresetName :: "router_config \<Rightarrow> string \<Rightarrow> string option" where
  "resolvePresetName cfg requested =
     (if map_of (cfg_presets cfg) requested \<noteq> None then Some requested
      else (let n = to_lower (trim requested) in
            if n = [] then None
            else List.find (\<lambda>name. to_lower name = n) (map fst (cfg_presets cfg))))"

definition resolveActiveTiers :: "router_config \<Rightarrow> preset" where
  "resolveActiveTiers cfg =
     or_else (first_some (Option.bind (resolvePresetName cfg (cfg_activePreset cfg)) (map_of (cfg_presets cfg)))
       (case cfg_presets cfg of [] \<Rightarrow> None | (_, p) # _ \<Rightarrow> Some p)) []"

definition activeTiers :: "router_config \<Rightarrow> preset option" where
  "activeTiers cfg = Option.bind (resolvePresetName cfg (cfg_activePreset cfg)) (map_of (cfg_presets cfg))"

definition tierConfigOf :: "router_config \<Rightarrow> string \<Rightarrow> tier_config option" where
  "tierConfigOf cfg tier = Option.bind (activeTiers cfg) (\<lambda>tiers. map_of tiers tier)"

definition routerTierIds :: "router_config \<Rightarrow> string list" where
  "routerTierIds cfg = (case activeTiers cfg of None \<Rightarrow> [] | Some tiers \<Rightarrow> map fst tiers)"

section \<open>The rungs of a tier\<close>

definition TIER_DEFAULTS :: "(string \<times> real) list" where
  "TIER_DEFAULTS = [(''fast'', 1), (''medium'', 5), (''heavy'', 20)]"

definition tierDefaultsFor :: "string \<Rightarrow> real" where
  "tierDefaultsFor tierName = or_else (map_of TIER_DEFAULTS tierName) 1"

definition tierCostRatioOf :: "string \<Rightarrow> jsval \<Rightarrow> real" where
  "tierCostRatioOf tierName ratio = or_else (validCostRatio ratio) (tierDefaultsFor tierName)"

record resolved_candidate =
  rs_model :: string
  rs_variant :: "string option"
  rs_costRatio :: real

fun str_field :: "jsval \<Rightarrow> string option" where
  "str_field (JStr s) = Some s"
| "str_field _ = None"

text \<open>A configured entry as a rung: model and ratio from the tier when omitted, the variant never.\<close>

definition listed_rung :: "string \<Rightarrow> tier_config \<Rightarrow> tier_candidate \<Rightarrow> resolved_candidate" where
  "listed_rung tierName t c =
     \<lparr>rs_model = or_else (str_field (tcand_model c)) (tc_model t), rs_variant = str_field (tcand_variant c),
      rs_costRatio = or_else (validCostRatio (tcand_costRatio c)) (tierCostRatioOf tierName (tc_costRatio t))\<rparr>"

definition own_rung :: "string \<Rightarrow> tier_config \<Rightarrow> resolved_candidate" where
  "own_rung tierName t =
     \<lparr>rs_model = tc_model t, rs_variant = tc_variant t, rs_costRatio = tierCostRatioOf tierName (tc_costRatio t)\<rparr>"

definition listed_candidates :: "tier_config \<Rightarrow> tier_candidate list" where
  "listed_candidates t = List.map_filter id (or_else (tc_candidates t) [])"

definition rungKey :: "string \<Rightarrow> string option \<Rightarrow> string \<times> string" where
  "rungKey model variant = (model, or_else variant [])"

datatype rung_problem = OwnRungMissing | OwnRungRatio nat

definition ownRungProblem :: "string \<Rightarrow> string option \<Rightarrow> real \<Rightarrow> tier_candidate list \<Rightarrow> rung_problem option" where
  "ownRungProblem tierModel tierVariant tierCostRatio cands =
     (case List.find (\<lambda>i. rungKey (or_else (str_field (tcand_model (cands ! i))) tierModel)
                (str_field (tcand_variant (cands ! i))) = rungKey tierModel tierVariant) [0..<length cands] of
        None \<Rightarrow> Some OwnRungMissing
      | Some i \<Rightarrow> (case validCostRatio (tcand_costRatio (cands ! i)) of
                     None \<Rightarrow> None
                   | Some declared \<Rightarrow> if declared \<noteq> tierCostRatio then Some (OwnRungRatio i) else None))"

definition candidatesProblem :: "string \<Rightarrow> tier_config \<Rightarrow> rung_problem option" where
  "candidatesProblem tierName t =
     (let listed = listed_candidates t in
      if listed = [] then None
      else ownRungProblem (tc_model t) (tc_variant t) (tierCostRatioOf tierName (tc_costRatio t)) listed)"

definition hasExplicitCandidates :: "tier_config \<Rightarrow> bool" where
  "hasExplicitCandidates t \<longleftrightarrow> listed_candidates t \<noteq> []"

definition resolveCandidates :: "string \<Rightarrow> router_config \<Rightarrow> resolved_candidate list" where
  "resolveCandidates tierName cfg =
     (case tierConfigOf cfg tierName of
        None \<Rightarrow> []
      | Some t \<Rightarrow> if candidatesProblem tierName t \<noteq> None \<or> \<not> hasExplicitCandidates t then [own_rung tierName t]
                  else map (listed_rung tierName t) (listed_candidates t))"

section \<open>Tier orders\<close>

text \<open>The names of a ladder that have a rung, without duplicates.\<close>

definition ladderOf :: "router_config \<Rightarrow> string list \<Rightarrow> string list" where
  "ladderOf cfg raw = uniq (filter (\<lambda>tier. tier \<noteq> [] \<and> resolveCandidates tier cfg \<noteq> []) raw)"

definition escalateLadder :: "router_config \<Rightarrow> string list" where
  "escalateLadder cfg = ladderOf cfg (ep_ladder (buildEscalatePolicy cfg None))"

definition rank_in :: "string list \<Rightarrow> string option \<Rightarrow> int option" where
  "rank_in ordr tier =
     (case tier of None \<Rightarrow> None | Some t \<Rightarrow> let r = index_of ordr t in if 0 \<le> r then Some r else None)"

definition tierRankOf :: "router_config \<Rightarrow> string option \<Rightarrow> int option" where
  "tierRankOf cfg tier = (if tier = Some [] then None else rank_in (escalateLadder cfg) tier)"

definition floorRankOf :: "router_config \<Rightarrow> int option" where
  "floorRankOf cfg = tierRankOf cfg (Option.bind (escalate_of cfg) ec_floorTier)"

fun finite_cost :: "jsval \<Rightarrow> real option" where
  "finite_cost (JNum (Fin x)) = Some x"
| "finite_cost _ = None"

text \<open>By cost when every tier states one (a stable sort), else as listed.\<close>

definition presetTierOrder :: "preset \<Rightarrow> string list" where
  "presetTierOrder p =
     (let costs = map (\<lambda>(_, t). finite_cost (tc_costRatio t)) p in
      if list_all (\<lambda>c. c \<noteq> None) costs
      then map fst (sort_key (\<lambda>(_, t). or_else (finite_cost (tc_costRatio t)) 0) p)
      else map fst p)"

section \<open>Grants\<close>

definition SHELL_TOOLS :: "string list" where "SHELL_TOOLS = [''shell'', ''bash'']"
definition WEB_TOOLS :: "string list" where "WEB_TOOLS = [''webfetch'', ''websearch'']"
definition EDIT_TOOLS :: "string list" where "EDIT_TOOLS = [''edit'', ''write'', ''patch'', ''apply_patch'']"
definition NEEDS :: "need list" where "NEEDS = [NeedShell, NeedWeb, NeedEdit, NeedNetwork, NeedExternalDir]"

definition grantsFromTools :: "string list \<Rightarrow> bool \<Rightarrow> need list" where
  "grantsFromTools tools externalDirectory =
     (let have_tools = map to_lower tools;
          has = (\<lambda>ids. list_ex (\<lambda>t. t \<in> set have_tools) ids);
          granted = (if has SHELL_TOOLS then [NeedShell, NeedNetwork] else []) @
                    (if has WEB_TOOLS then [NeedWeb] else []) @ (if has EDIT_TOOLS then [NeedEdit] else []) @
                    (if externalDirectory then [NeedExternalDir] else [])
      in filter (\<lambda>nd. nd \<in> set granted) NEEDS)"

end
