(* ===== verification/Ladders.thy ===== *)
theory Ladders
  imports Tier_Rungs Role_Decide Simulate
begin

text \<open>
  The candidate graphs the kernel prices: \<^verbatim>\<open>buildLadder\<close>, \<^verbatim>\<open>buildRoleLadder\<close> and
  \<^verbatim>\<open>resolveChosen\<close> of \<^verbatim>\<open>src/routing/engine/ladders.ts\<close>. The host's agent list and the catalog
  pricing are parameters; a pricing lookup that throws (\<open>Inl\<close>) prices as unpriced, the log line it
  writes is not modelled.
\<close>

section \<open>Input\<close>

record host_agent_info =
  ha_id :: string
  ha_model :: "string option"
  ha_mode :: string
  ha_hidden :: bool
  ha_permitted :: bool
  ha_grants :: "need list"

datatype exclusion_reason = ExNeeds | ExAgentUnavailable | ExNoOwningTier | ExDuplicate | ExNotModelled

record excluded_candidate =
  ex_agent :: agent_ref
  ex_model :: string
  ex_variant :: "string option"
  ex_why :: exclusion_reason

type_synonym pricing_lookup = "(string \<Rightarrow> string + model_pricing) option"

record ladder_build_input =
  lb_cfg :: router_config
  lb_roles :: "(string \<times> string list) list"
  lb_class :: string
  lb_needs :: "need list"
  lb_agents :: "host_agent_info list option"
  lb_pricing :: pricing_lookup
  lb_parentModel :: "string option"
  lb_session :: "session_policy_input option"

section \<open>Helpers\<close>

definition CLASS_STATIC_TIER :: "(string \<times> string option) list" where
  "CLASS_STATIC_TIER =
     [(''search'', Some ''fast''), (''recon'', Some ''fast''), (''mechanical'', Some ''fast''),
      (''implement'', Some ''medium''), (''review'', Some ''medium''), (''debug'', Some ''medium''),
      (''design'', Some ''heavy''), (''other'', None)]"

definition class_tier :: "string \<Rightarrow> string option" where
  "class_tier cls = or_else (map_of CLASS_STATIC_TIER cls) None"

definition ROUTING_RESERVED_AGENTS :: "string list" where
  "ROUTING_RESERVED_AGENTS = [''build'', ''plan'', ''title'', ''summary'', ''compaction'']"

definition priced :: "pricing_lookup \<Rightarrow> string \<Rightarrow> model_pricing" where
  "priced lookup model =
     (case lookup of None \<Rightarrow> NoPricing
      | Some f \<Rightarrow> (case f model of Inl err \<Rightarrow> NoPricing | Inr p \<Rightarrow> p))"

definition normalizedVariant :: "string option \<Rightarrow> string option" where
  "normalizedVariant v = (if v = Some [] then None else v)"

definition sameRung :: "string \<times> string option \<Rightarrow> string \<times> string option \<Rightarrow> bool" where
  "sameRung a b \<longleftrightarrow> fst a = fst b \<and> normalized (snd a) = normalized (snd b)"

definition rung_of :: "candidate \<Rightarrow> string \<times> string option" where
  "rung_of c = (ca_model c, ca_variant c)"

definition ownRoles :: "(string \<times> string list) list \<Rightarrow> string \<Rightarrow> string list" where
  "ownRoles roles cls = uniq (or_else (map_of roles cls) [])"

definition agentUnavailable :: "host_agent_info \<Rightarrow> bool" where
  "agentUnavailable info \<longleftrightarrow> ha_mode info = ''primary'' \<or> ha_hidden info \<or> \<not> ha_permitted info"

definition roleAgentExclusion :: "string \<Rightarrow> host_agent_info option \<Rightarrow> string list \<Rightarrow> exclusion_reason option" where
  "roleAgentExclusion aid info routerIds =
     (if aid \<in> set routerIds then Some ExDuplicate
      else if aid \<in> set ROUTING_RESERVED_AGENTS then Some ExAgentUnavailable
      else (case info of None \<Rightarrow> Some ExAgentUnavailable
            | Some i \<Rightarrow> if agentUnavailable i then Some ExAgentUnavailable else None))"

definition nonEmpty :: "string option \<Rightarrow> string option" where
  "nonEmpty v = (case v of None \<Rightarrow> None | Some s \<Rightarrow> if trim s = [] then None else Some (trim s))"

definition modelOfAgent :: "host_agent_info \<Rightarrow> string option \<Rightarrow> string option" where
  "modelOfAgent info parentModel = first_some (nonEmpty (ha_model info)) (nonEmpty parentModel)"

definition tierBaseRung :: "router_config \<Rightarrow> string \<Rightarrow> runner_rung option" where
  "tierBaseRung cfg tier =
     (case tierConfigOf cfg tier of None \<Rightarrow> None
      | Some t \<Rightarrow>
          (let vnt = normalizedVariant (tc_variant t); rungs = resolveCandidates tier cfg;
               own = List.find (\<lambda>r. sameRung (rs_model r, normalizedVariant (rs_variant r)) (tc_model t, vnt)) rungs
           in case first_some own (nth_or_null rungs 0) of
                None \<Rightarrow> None
              | Some r \<Rightarrow> Some \<lparr>rr_tier = tier, rr_model = tc_model t, rr_variant = vnt, rr_costRatio = rs_costRatio r\<rparr>))"

text \<open>The rungs on the tier's own model, and the others.\<close>

definition modelledRungs :: "router_config \<Rightarrow> string \<Rightarrow> resolved_candidate list \<times> resolved_candidate list" where
  "modelledRungs cfg tier =
     (let rungs = resolveCandidates tier cfg in
      case tierConfigOf cfg tier of
        None \<Rightarrow> (rungs, [])
      | Some t \<Rightarrow> (filter (\<lambda>r. rs_model r = tc_model t) rungs, filter (\<lambda>r. rs_model r \<noteq> tc_model t) rungs))"

definition effortConfigured :: "router_config \<Rightarrow> string \<Rightarrow> bool" where
  "effortConfigured cfg tier = (case tierConfigOf cfg tier of None \<Rightarrow> False | Some t \<Rightarrow> effort_configured t)"

definition skippedAfter :: "router_config \<Rightarrow> candidate \<Rightarrow> candidate \<Rightarrow> bool" where
  "skippedAfter cfg k r \<longleftrightarrow>
     ca_model r = ca_model k \<and> \<not> effortConfigured cfg (ca_tier k) \<and> \<not> effortConfigured cfg (ca_tier r) \<and>
     variantCovered (Some (or_else (ca_variant r) ''default'')) (Some (or_else (ca_variant k) ''default''))"

definition firstUncovered :: "router_config \<Rightarrow> candidate \<Rightarrow> nat list \<Rightarrow> candidate list \<Rightarrow> bool \<Rightarrow> nat option" where
  "firstUncovered cfg k following all skipCovered =
     List.find (\<lambda>j. \<not> skipCovered \<or> \<not> skippedAfter cfg k (all ! j)) following"

definition find_agent :: "host_agent_info list option \<Rightarrow> string \<Rightarrow> host_agent_info option" where
  "find_agent agents aid = List.find (\<lambda>a. ha_id a = aid) (or_else agents [])"

section \<open>The router block\<close>

definition router_rung :: "ladder_build_input \<Rightarrow> string \<Rightarrow> int \<Rightarrow> resolved_candidate \<Rightarrow> candidate" where
  "router_rung inp tier rank r =
     \<lparr>ca_agent = \<lparr>ar_origin = OriginRouter, ar_id = tier\<rparr>, ca_model = rs_model r,
      ca_variant = normalizedVariant (rs_variant r), ca_costRatio = Fin (rs_costRatio r), ca_rank = rank, ca_tier = tier,
      ca_source = FromTier, ca_grants = map_option ha_grants (find_agent (lb_agents inp) tier),
      ca_pricing = priced (lb_pricing inp) (rs_model r)\<rparr>"

definition excluded_rung :: "exclusion_reason \<Rightarrow> candidate \<Rightarrow> excluded_candidate" where
  "excluded_rung why c = \<lparr>ex_agent = ca_agent c, ex_model = ca_model c, ex_variant = ca_variant c, ex_why = why\<rparr>"

record ladder_acc =
  lc_presetRungs :: "candidate list"
  lc_candidates :: "candidate list"
  lc_excluded :: "excluded_candidate list"

definition tier_unavailable :: "ladder_build_input \<Rightarrow> string \<Rightarrow> bool" where
  "tier_unavailable inp tier =
     (case find_agent (lb_agents inp) tier of None \<Rightarrow> False | Some i \<Rightarrow> agentUnavailable i)"

definition router_tier :: "ladder_build_input \<Rightarrow> string \<times> int \<Rightarrow> ladder_acc \<Rightarrow> ladder_acc" where
  "router_tier inp tr acc =
     (case tr of (tier, rank) \<Rightarrow>
        (let (kept, dropped) = modelledRungs (lb_cfg inp) tier;
             keptC = map (router_rung inp tier rank) kept; droppedC = map (router_rung inp tier rank) dropped;
             un = tier_unavailable inp tier
         in \<lparr>lc_presetRungs = lc_presetRungs acc @ droppedC @ keptC,
             lc_candidates = lc_candidates acc @ (if un then [] else keptC),
             lc_excluded = lc_excluded acc @ map (excluded_rung ExNotModelled) droppedC @
               (if un then map (excluded_rung ExAgentUnavailable) keptC else [])\<rparr>))"

definition ladder_order :: "ladder_build_input \<Rightarrow> string list" where
  "ladder_order inp = ladderOf (lb_cfg inp) (ep_ladder (buildEscalatePolicy (lb_cfg inp) (lb_session inp)))"

definition with_ranks :: "string list \<Rightarrow> (string \<times> int) list" where
  "with_ranks ordr = zip ordr (map int [0..<length ordr])"

definition router_block :: "ladder_build_input \<Rightarrow> ladder_acc" where
  "router_block inp =
     fold (router_tier inp) (with_ranks (ladder_order inp)) \<lparr>lc_presetRungs = [], lc_candidates = [], lc_excluded = []\<rparr>"

section \<open>Role chains\<close>

record role_chain =
  ch_start :: nat
  ch_length :: nat
  ch_tier :: string

record chains_acc =
  cs_candidates :: "candidate list"
  cs_next :: "nat option list"
  cs_chainNext :: "(nat \<times> nat option) list"
  cs_chains :: "role_chain list"
  cs_excluded :: "excluded_candidate list"

definition excludedOf :: "ladder_build_input \<Rightarrow> string \<Rightarrow> exclusion_reason \<Rightarrow> host_agent_info option \<Rightarrow> excluded_candidate" where
  "excludedOf inp aid why info =
     (let ref = Option.bind (Option.bind info ha_model) splitModelRef in
      \<lparr>ex_agent = \<lparr>ar_origin = classifyAgentOrigin aid (routerTierIds (lb_cfg inp)), ar_id = aid\<rparr>,
       ex_model = (case ref of None \<Rightarrow> or_else (Option.bind info ha_model) [] | Some (p, m, v) \<Rightarrow> p @ ''/'' @ m),
       ex_variant = (case ref of None \<Rightarrow> None | Some (p, m, v) \<Rightarrow> v), ex_why = why\<rparr>)"

text \<open>The rung of a role agent on its own model, priced and ranked by the matching preset rung.\<close>

definition own_model_rung ::
    "ladder_build_input \<Rightarrow> candidate list \<Rightarrow> string \<Rightarrow> int \<Rightarrow> resolved_candidate \<Rightarrow> string \<Rightarrow> host_agent_info \<Rightarrow> candidate option" where
  "own_model_rung inp presetRungs owningTier owningRank firstRung aid info =
     (case Option.bind (modelOfAgent info (lb_parentModel inp)) splitModelRef of
        None \<Rightarrow> None
      | Some (p, m, v) \<Rightarrow>
          (let model = p @ ''/'' @ m; matched = List.find (\<lambda>r. sameRung (rung_of r) (model, v)) presetRungs;
               lowered = (case matched of None \<Rightarrow> None | Some r \<Rightarrow> if ca_rank r < owningRank then Some r else None)
           in Some \<lparr>ca_agent = \<lparr>ar_origin = OriginHost, ar_id = aid\<rparr>, ca_model = model, ca_variant = v,
                ca_costRatio = or_else (map_option ca_costRatio matched) (Fin (rs_costRatio firstRung)),
                ca_rank = or_else (map_option ca_rank lowered) owningRank,
                ca_tier = or_else (map_option ca_tier lowered) owningTier, ca_source = RoleOwnModel,
                ca_grants = Some (ha_grants info), ca_pricing = priced (lb_pricing inp) model\<rparr>))"

definition role_tier_rung :: "ladder_build_input \<Rightarrow> string \<Rightarrow> int \<Rightarrow> string \<Rightarrow> host_agent_info \<Rightarrow> resolved_candidate \<Rightarrow> candidate" where
  "role_tier_rung inp owningTier owningRank aid info r =
     \<lparr>ca_agent = \<lparr>ar_origin = OriginHost, ar_id = aid\<rparr>, ca_model = rs_model r,
      ca_variant = normalizedVariant (rs_variant r), ca_costRatio = Fin (rs_costRatio r), ca_rank = owningRank,
      ca_tier = owningTier, ca_source = RoleTierRung, ca_grants = Some (ha_grants info),
      ca_pricing = priced (lb_pricing inp) (rs_model r)\<rparr>"

text \<open>The chain of one agent, and how many of the tier's rungs its own model duplicates.\<close>

definition chain_rungs ::
    "ladder_build_input \<Rightarrow> candidate list \<Rightarrow> string \<Rightarrow> int \<Rightarrow> resolved_candidate list \<Rightarrow> string \<Rightarrow> host_agent_info \<Rightarrow>
     candidate list \<times> nat" where
  "chain_rungs inp presetRungs owningTier owningRank tierRungs aid info =
     (let own = own_model_rung inp presetRungs owningTier owningRank (hd tierRungs) aid info;
          rungs = map (role_tier_rung inp owningTier owningRank aid info) tierRungs;
          dup = (\<lambda>c. case own of None \<Rightarrow> False | Some w \<Rightarrow> sameRung (rung_of w) (rung_of c))
      in ((case own of None \<Rightarrow> [] | Some w \<Rightarrow> [w]) @ filter (\<lambda>c. \<not> dup c) rungs, length (filter dup rungs)))"

definition append_chain ::
    "ladder_build_input \<Rightarrow> nat \<Rightarrow> bool \<Rightarrow> string \<Rightarrow> int \<Rightarrow> candidate list \<Rightarrow> chains_acc \<Rightarrow> chains_acc" where
  "append_chain inp routerCount skipCovered owningTier owningRank chain acc =
     (let start = length (cs_candidates acc); cands = cs_candidates acc @ chain; n = length cands;
          above = filter (\<lambda>j. owningRank < ca_rank (cands ! j)) [0..<routerCount];
          inChain = (\<lambda>k. firstUncovered (lb_cfg inp) (cands ! k) [Suc k..<n] cands True);
          after = (\<lambda>k. first_some (inChain k) (firstUncovered (lb_cfg inp) (cands ! k) above cands skipCovered))
      in acc\<lparr>cs_candidates := cands, cs_next := cs_next acc @ map after [start..<n],
             cs_chainNext := cs_chainNext acc @ map (\<lambda>k. (k, inChain k)) [start..<n],
             cs_chains := cs_chains acc @ [\<lparr>ch_start = start, ch_length = length chain, ch_tier = owningTier\<rparr>]\<rparr>)"

definition owning :: "ladder_build_input \<Rightarrow> (string \<times> int) option" where
  "owning inp =
     (case class_tier (lb_class inp) of None \<Rightarrow> None
      | Some t \<Rightarrow> map_option (Pair t) (rank_in (ladder_order inp) (Some t)))"

definition role_agent :: "ladder_build_input \<Rightarrow> candidate list \<Rightarrow> nat \<Rightarrow> bool \<Rightarrow> string \<Rightarrow> chains_acc \<Rightarrow> chains_acc" where
  "role_agent inp presetRungs routerCount skipCovered aid acc =
     (let info = find_agent (lb_agents inp) aid;
          exclude = (\<lambda>why. acc\<lparr>cs_excluded := cs_excluded acc @ [excludedOf inp aid why info]\<rparr>);
          tierRungs = (case owning inp of None \<Rightarrow> [] | Some (t, r) \<Rightarrow> fst (modelledRungs (lb_cfg inp) t))
      in case owning inp of
           None \<Rightarrow> exclude ExNoOwningTier
         | Some (owningTier, owningRank) \<Rightarrow>
             (if tierRungs = [] then exclude ExNoOwningTier
              else (case roleAgentExclusion aid info (routerTierIds (lb_cfg inp)) of
                Some why \<Rightarrow> exclude why
              | None \<Rightarrow>
                  (case info of None \<Rightarrow> exclude ExAgentUnavailable
                   | Some i \<Rightarrow>
                      (if \<not> coversNeeds (Some (ha_grants i)) (lb_needs inp) then exclude ExNeeds
                       else (let (chain, dups) = chain_rungs inp presetRungs owningTier owningRank tierRungs aid i
                             in append_chain inp routerCount skipCovered owningTier owningRank chain
                                  (acc\<lparr>cs_excluded := cs_excluded acc @ replicate dups (excludedOf inp aid ExDuplicate info)\<rparr>)))))))"

definition with_chains :: "ladder_build_input \<Rightarrow> chains_acc" where
  "with_chains inp =
     (let rb = router_block inp; n = length (lc_candidates rb);
          skip = (ep_variants (buildEscalatePolicy (lb_cfg inp) (lb_session inp)) \<noteq> None)
      in fold (role_agent inp (lc_presetRungs rb) n skip) (ownRoles (lb_roles inp) (lb_class inp))
           \<lparr>cs_candidates = lc_candidates rb, cs_next = replicate n None, cs_chainNext = [], cs_chains = [],
            cs_excluded = lc_excluded rb\<rparr>)"

section \<open>Simulated paths\<close>

text \<open>
  The index of a rung the runner reaches: that of a candidate, or of an entry of the list of reachable
  rungs (after the candidates), which grows when the rung is new; \<open>None\<close> when its tier has no rank.
\<close>

definition reach_rung ::
    "(candidate \<Rightarrow> bool) \<Rightarrow> candidate list \<Rightarrow> nat \<Rightarrow> candidate option \<Rightarrow> candidate list \<Rightarrow> nat option \<times> candidate list" where
  "reach_rung same cands limit fresh reach =
     (case List.find (\<lambda>j. same (cands ! j)) [0..<limit] of
        Some j \<Rightarrow> (Some j, reach)
      | None \<Rightarrow> (case List.find (\<lambda>j. same (reach ! j)) [0..<length reach] of
                   Some j \<Rightarrow> (Some (length cands + j), reach)
                 | None \<Rightarrow> (case fresh of None \<Rightarrow> (None, reach)
                            | Some c \<Rightarrow> (Some (length cands + length reach), reach @ [c]))))"

text \<open>The indices of a simulation up to the first rung without one.\<close>

fun walk_path :: "(runner_rung \<Rightarrow> candidate list \<Rightarrow> nat option \<times> candidate list) \<Rightarrow> runner_rung list \<Rightarrow>
    candidate list \<Rightarrow> nat list \<times> candidate list" where
  "walk_path step [] reach = ([], reach)"
| "walk_path step (r # rs) reach =
     (case step r reach of
        (None, reach') \<Rightarrow> ([], reach')
      | (Some j, reach') \<Rightarrow> (case walk_path step rs reach' of (p, reach2) \<Rightarrow> (j # p, reach2)))"

text \<open>One path per plan, a plan being a prefix of indices and the simulated attempts after it.\<close>

fun walk_plans :: "(runner_rung \<Rightarrow> candidate list \<Rightarrow> nat option \<times> candidate list) \<Rightarrow>
    (nat list \<times> runner_rung list) list \<Rightarrow> candidate list \<Rightarrow> nat list option list \<times> candidate list" where
  "walk_plans step [] reach = ([], reach)"
| "walk_plans step ((prefix, attempts) # ps) reach =
     (case walk_path step attempts reach of
        (p, reach') \<Rightarrow>
          (case walk_plans step ps reach' of
             (paths, reach2) \<Rightarrow> ((if prefix @ p = [] then None else Some (prefix @ p)) # paths, reach2)))"

definition ratio_value :: "candidate \<Rightarrow> real" where
  "ratio_value c = or_else (finite_value (ca_costRatio c)) 0"

definition start_rung :: "candidate \<Rightarrow> runner_rung" where
  "start_rung c = \<lparr>rr_tier = ca_tier c, rr_model = ca_model c, rr_variant = ca_variant c, rr_costRatio = ratio_value c\<rparr>"

text \<open>The rest of a chain from one of its rungs.\<close>

function chain_members :: "(nat \<times> nat option) list \<Rightarrow> nat \<Rightarrow> nat list \<Rightarrow> nat list" where
  "chain_members cn k members =
     (if k \<in> set members then members
      else (case map_of cn k of
              Some (Some j) \<Rightarrow> chain_members cn j (members @ [k])
            | _ \<Rightarrow> members @ [k]))"
  by pat_completeness auto

lemma members_decrease:
  assumes "k \<notin> set members" and "map_of cn k = Some x"
  shows "length (filter (\<lambda>i. i \<notin> set (members @ [k])) (map fst cn)) < length (filter (\<lambda>i. i \<notin> set members) (map fst cn))"
proof -
  let ?f = "filter (\<lambda>i. i \<notin> set members) (map fst cn)"
  have "k \<in> set ?f" using assms by (auto dest: map_of_SomeD intro: rev_image_eqI)
  then have "length (filter (\<lambda>i. i \<noteq> k) ?f) < length ?f" by (rule length_filter_less) simp
  moreover have "filter (\<lambda>i. i \<notin> set (members @ [k])) (map fst cn) = filter (\<lambda>i. i \<noteq> k) ?f"
    by (auto intro: filter_cong)
  ultimately show ?thesis by simp
qed

termination chain_members
  by (relation "measure (\<lambda>(cn, k, members). length (filter (\<lambda>i. i \<notin> set members) (map fst cn)))")
    (use members_decrease in \<open>simp_all only: wf_measure in_measure prod.case\<close>)

declare chain_members.simps [simp del]

definition router_same :: "runner_rung \<Rightarrow> candidate \<Rightarrow> bool" where
  "router_same r c \<longleftrightarrow> ca_tier c = rr_tier r \<and> ar_origin (ca_agent c) = OriginRouter \<and>
     sameRung (rung_of c) (rr_model r, rr_variant r)"

text \<open>A rung only the runner reaches.\<close>

definition reached_candidate :: "ladder_build_input \<Rightarrow> runner_rung \<Rightarrow> candidate option" where
  "reached_candidate inp r =
     map_option (\<lambda>rank. \<lparr>ca_agent = \<lparr>ar_origin = OriginRouter, ar_id = rr_tier r\<rparr>, ca_model = rr_model r,
         ca_variant = rr_variant r, ca_costRatio = Fin (rr_costRatio r), ca_rank = rank, ca_tier = rr_tier r,
         ca_source = FromTier, ca_grants = map_option ha_grants (find_agent (lb_agents inp) (rr_tier r)),
         ca_pricing = priced (lb_pricing inp) (rr_model r)\<rparr>)
       (rank_in (ladder_order inp) (Some (rr_tier r)))"

definition router_plans :: "ladder_build_input \<Rightarrow> escalate_policy \<Rightarrow> candidate list \<Rightarrow> (nat list \<times> runner_rung list) list" where
  "router_plans inp policy routers =
     map (\<lambda>c. ([], simulateRunner policy (tierBaseRung (lb_cfg inp)) (start_rung c))) routers"

definition chain_plans :: "ladder_build_input \<Rightarrow> escalate_policy \<Rightarrow> chains_acc \<Rightarrow> role_chain \<Rightarrow> (nat list \<times> runner_rung list) list" where
  "chain_plans inp policy cs ch =
     map (\<lambda>k. (let members = chain_members (cs_chainNext cs) k [];
                   spent = map (\<lambda>m. (start_rung (cs_candidates cs ! m))\<lparr>rr_tier := ch_tier ch\<rparr>) members
               in (members, simulateAfter policy (tierBaseRung (lb_cfg inp)) (ch_tier ch) spent)))
       [ch_start ch..<ch_start ch + ch_length ch]"

definition ladder_paths :: "ladder_build_input \<Rightarrow> nat list option list \<times> candidate list" where
  "ladder_paths inp =
     (let policy = buildEscalatePolicy (lb_cfg inp) (lb_session inp); cs = with_chains inp;
          routers = lc_candidates (router_block inp)
      in walk_plans (\<lambda>r. reach_rung (router_same r) (cs_candidates cs) (length routers) (reached_candidate inp r))
           (router_plans inp policy routers @ concat (map (chain_plans inp policy cs) (cs_chains cs))) [])"

definition buildLadder :: "ladder_build_input \<Rightarrow> engine_ladder \<times> excluded_candidate list" where
  "buildLadder inp =
     (let cs = with_chains inp; (paths, reach) = ladder_paths inp
      in (\<lparr>el_candidates = cs_candidates cs, el_next = map (map_option int) (cs_next cs),
           el_classRank = map_option snd (owning inp), el_reachable = reach,
           el_paths = map (map_option (map int)) paths,
           el_presetRungs = Some (map (\<lambda>c. \<lparr>pg_model = ca_model c, pg_variant = ca_variant c, pg_rank = ca_rank c\<rparr>)
             (lc_presetRungs (router_block inp)))\<rparr>, cs_excluded cs))"

end
