(* ===== verification/Role_Ladders.thy ===== *)
theory Role_Ladders
  imports Ladders
begin

text \<open>
  Role ladders: \<^verbatim>\<open>windowSpan\<close>, \<^verbatim>\<open>roleTierOrder\<close>, \<^verbatim>\<open>roleEscalatePolicy\<close>,
  \<^verbatim>\<open>buildRoleLadder\<close> and \<^verbatim>\<open>resolveChosen\<close> of \<^verbatim>\<open>src/routing/engine/ladders.ts\<close>.
\<close>

section \<open>The window\<close>

record role_window =
  rw_floor :: string
  rw_ceiling :: string
  rw_pinned :: "string option"

text \<open>\<open>rli_classTier\<close>: \<open>None\<close> when the field is absent, \<open>Some None\<close> for \<^verbatim>\<open>null\<close>.\<close>

record role_ladder_input =
  rli_cfg :: router_config
  rli_class :: string
  rli_needs :: "need list"
  rli_role :: string
  rli_window :: role_window
  rli_classTier :: "string option option"
  rli_pricing :: pricing_lookup

record window_span =
  ws_floor :: nat
  ws_ceiling :: nat
  ws_reasons :: "string list"

definition windowSpan :: "string list \<Rightarrow> role_window \<Rightarrow> window_span option" where
  "windowSpan ordr w =
     (let flr = index_of ordr (rw_floor w); clg = index_of ordr (rw_ceiling w) in
      if flr < 0 then None
      else if clg < 0 then Some \<lparr>ws_floor = nat flr, ws_ceiling = nat flr, ws_reasons = [''window:ceiling-off-ladder:'' @ rw_ceiling w]\<rparr>
      else if clg < flr then Some \<lparr>ws_floor = nat flr, ws_ceiling = nat flr, ws_reasons = [''window:ceiling-below-floor'']\<rparr>
      else Some \<lparr>ws_floor = nat flr, ws_ceiling = nat clg, ws_reasons = []\<rparr>)"

definition roleTierOrder :: "router_config \<Rightarrow> string list" where
  "roleTierOrder cfg = ladderOf cfg (presetTierOrder (resolveActiveTiers cfg))"

definition roleEscalatePolicy :: "router_config \<Rightarrow> role_window \<Rightarrow> escalate_policy option" where
  "roleEscalatePolicy cfg w =
     (let ordr = roleTierOrder cfg in
      case windowSpan ordr w of None \<Rightarrow> None
      | Some s \<Rightarrow>
          (let ladder = drop (ws_floor s) (take (Suc (ws_ceiling s)) ordr)
           in Some \<lparr>ep_ladder = ladder, ep_floorTier = Some (ordr ! ws_floor s), ep_maxAttemptsPerTier = 0,
                ep_maxTotalAttempts = int (length ladder), ep_costMultiple = None, ep_effortBump = None, ep_variants = None\<rparr>))"

section \<open>Candidates\<close>

definition role_rung :: "role_ladder_input \<Rightarrow> string \<Rightarrow> nat \<Rightarrow> string \<Rightarrow> string option \<Rightarrow> real \<Rightarrow> candidate" where
  "role_rung inp tier rank model vnt ratio =
     \<lparr>ca_agent = \<lparr>ar_origin = OriginRole, ar_id = rli_role inp\<rparr>, ca_model = model, ca_variant = normalizedVariant vnt,
      ca_costRatio = Fin ratio, ca_rank = int rank, ca_tier = tier, ca_source = RoleRange,
      ca_grants = Some (rli_needs inp), ca_pricing = priced (rli_pricing inp) model\<rparr>"

record role_acc =
  rac_candidates :: "candidate list"
  rac_excluded :: "excluded_candidate list"
  rac_tiers :: "role_ladder_tier list"

text \<open>One rung: a repeated \<^verbatim>\<open>(model, variant)\<close> is a duplicate. The last component is the tier's first index.\<close>

definition role_add :: "role_ladder_input \<Rightarrow> string \<Rightarrow> nat \<Rightarrow> resolved_candidate \<Rightarrow>
    candidate list \<times> excluded_candidate list \<times> nat option \<Rightarrow> candidate list \<times> excluded_candidate list \<times> nat option" where
  "role_add inp tier rank r st =
     (case st of (cands, excl, first) \<Rightarrow>
        (let c = role_rung inp tier rank (rs_model r) (rs_variant r) (rs_costRatio r) in
         if list_ex (\<lambda>d. sameRung (rung_of d) (rung_of c)) cands then (cands, excl @ [excluded_rung ExDuplicate c], first)
         else (cands @ [c], excl, first_some first (Some (length cands)))))"

definition role_tier :: "role_ladder_input \<Rightarrow> string list \<Rightarrow> nat \<Rightarrow> role_acc \<Rightarrow> role_acc" where
  "role_tier inp ordr rank acc =
     (let tier = ordr ! rank; (kept, dropped) = modelledRungs (rli_cfg inp) tier;
          excl = map (\<lambda>r. excluded_rung ExNotModelled (role_rung inp tier rank (rs_model r) (rs_variant r) (rs_costRatio r))) dropped;
          (cands, excl2, first) = fold (role_add inp tier rank) kept (rac_candidates acc, rac_excluded acc @ excl, None)
      in \<lparr>rac_candidates = cands, rac_excluded = excl2,
          rac_tiers = rac_tiers acc @ [\<lparr>rt_tier = tier, rt_rank = int rank, rt_first = first\<rparr>]\<rparr>)"

definition role_candidates :: "role_ladder_input \<Rightarrow> string list \<Rightarrow> window_span \<Rightarrow> role_acc" where
  "role_candidates inp ordr s =
     fold (role_tier inp ordr) [ws_floor s..<Suc (ws_ceiling s)] \<lparr>rac_candidates = [], rac_excluded = [], rac_tiers = []\<rparr>"

section \<open>Paths, default and pin\<close>

definition role_same :: "runner_rung \<Rightarrow> candidate \<Rightarrow> bool" where
  "role_same r c \<longleftrightarrow> ca_tier c = rr_tier r \<and> sameRung (rung_of c) (rr_model r, rr_variant r)"

definition role_reached :: "role_ladder_input \<Rightarrow> string list \<Rightarrow> window_span \<Rightarrow> runner_rung \<Rightarrow> candidate option" where
  "role_reached inp ordr s r =
     (let rank = index_of ordr (rr_tier r) in
      if rank < int (ws_floor s) \<or> int (ws_ceiling s) < rank then None
      else Some (role_rung inp (rr_tier r) (nat rank) (rr_model r) (rr_variant r) (rr_costRatio r)))"

definition role_paths :: "role_ladder_input \<Rightarrow> string list \<Rightarrow> window_span \<Rightarrow> escalate_policy \<Rightarrow> candidate list \<Rightarrow>
    nat list option list \<times> candidate list" where
  "role_paths inp ordr s policy cands =
     walk_plans (\<lambda>r. reach_rung (role_same r) cands (length cands) (role_reached inp ordr s r))
       (map (\<lambda>c. ([], simulateRunner policy (tierBaseRung (rli_cfg inp)) (start_rung c))) cands) []"

definition candidateAt :: "role_ladder_tier list \<Rightarrow> nat \<Rightarrow> nat option" where
  "candidateAt tiers rank =
     (case List.find (\<lambda>t. int rank \<le> rt_rank t \<and> rt_first t \<noteq> None) tiers of
        Some t \<Rightarrow> rt_first t
      | None \<Rightarrow> (case List.find (\<lambda>t. rt_first t \<noteq> None) (rev tiers) of None \<Rightarrow> None | Some t \<Rightarrow> rt_first t))"

definition effective_class_tier :: "role_ladder_input \<Rightarrow> string option" where
  "effective_class_tier inp = (case rli_classTier inp of Some t \<Rightarrow> t | None \<Rightarrow> class_tier (rli_class inp))"

text \<open>The rank of the static default, with its note.\<close>

definition default_rank :: "string option \<Rightarrow> int option \<Rightarrow> window_span \<Rightarrow> nat \<times> string list" where
  "default_rank classTier classRank s =
     (case classRank of
        None \<Rightarrow> (ws_floor s, [case classTier of Some t \<Rightarrow> ''default:off-ladder:'' @ t | None \<Rightarrow> ''default:no-class-tier''])
      | Some r \<Rightarrow>
          (if r < int (ws_floor s) then (ws_floor s, [''default:clamp:floor''])
           else if int (ws_ceiling s) < r then (ws_ceiling s, [''default:clamp:ceiling''])
           else (nat r, [])))"

definition pin_index :: "string list \<Rightarrow> window_span \<Rightarrow> role_ladder_tier list \<Rightarrow> candidate list \<Rightarrow> string option \<Rightarrow>
    nat option \<times> string list" where
  "pin_index ordr s tiers cands pin =
     (case pin of None \<Rightarrow> (None, [])
      | Some p \<Rightarrow>
          (let k = index_of ordr p in
           if k < 0 then (None, [''pin:off-ladder:'' @ p])
           else (let clamped = min (max k (int (ws_floor s))) (int (ws_ceiling s));
                     note = (if clamped \<noteq> k then [''pin:clamp''] else [])
                 in case candidateAt tiers (nat clamped) of
                      None \<Rightarrow> (None, note)
                    | Some i \<Rightarrow> (let got = ca_tier (cands ! i) in
                                 (Some i, note @ [if got = p then ''pinned:'' @ p else ''pinned:'' @ p @ ''->'' @ got])))))"

definition role_preset_rungs :: "role_ladder_input \<Rightarrow> string list \<Rightarrow> preset_rung list" where
  "role_preset_rungs inp ordr =
     concat (map (\<lambda>(tier, rank). map (\<lambda>r. \<lparr>pg_model = rs_model r, pg_variant = normalizedVariant (rs_variant r), pg_rank = rank\<rparr>)
       (resolveCandidates tier (rli_cfg inp))) (with_ranks ordr))"

definition buildRoleLadder :: "role_ladder_input \<Rightarrow> role_ladder \<times> excluded_candidate list" where
  "buildRoleLadder inp =
     (let ordr = roleTierOrder (rli_cfg inp); w = rli_window inp; classTier = effective_class_tier inp;
          classRank = rank_in ordr classTier; presetRungs = role_preset_rungs inp ordr
      in case (windowSpan ordr w, roleEscalatePolicy (rli_cfg inp) w) of
           (Some s, Some policy) \<Rightarrow>
             (let acc = role_candidates inp ordr s; cands = rac_candidates acc;
                  (paths, reach) = role_paths inp ordr s policy cands;
                  (target, dnotes) = default_rank classTier classRank s;
                  (pinned, pnotes) = pin_index ordr s (rac_tiers acc) cands (rw_pinned w)
              in (\<lparr>rl_graph = \<lparr>el_candidates = cands, el_next = map (\<lambda>_. None) cands, el_classRank = classRank,
                     el_reachable = reach, el_paths = map (map_option (map int)) paths, el_presetRungs = Some presetRungs\<rparr>,
                   rl_role = rli_role inp, rl_floorRank = Some (int (ws_floor s)), rl_ceilingRank = Some (int (ws_ceiling s)),
                   rl_tiers = rac_tiers acc, rl_staticDefault = candidateAt (rac_tiers acc) target, rl_pinnedIndex = pinned,
                   rl_reasons = ws_reasons s @ (if cands = [] then [''window:no-candidates''] else []) @ dnotes @ pnotes\<rparr>,
                  rac_excluded acc))
         | _ \<Rightarrow>
             (\<lparr>rl_graph = \<lparr>el_candidates = [], el_next = [], el_classRank = classRank, el_reachable = [], el_paths = [],
                 el_presetRungs = Some presetRungs\<rparr>,
               rl_role = rli_role inp, rl_floorRank = None, rl_ceilingRank = None, rl_tiers = [], rl_staticDefault = None,
               rl_pinnedIndex = None, rl_reasons = [''window:floor-off-ladder:'' @ rw_floor w, ''window:no-candidates'']\<rparr>, []))"

section \<open>The orchestrator's pick\<close>

record chosen_input =
  ci_cfg :: router_config
  ci_agents :: "host_agent_info list option"
  ci_agent :: string
  ci_model :: "string option"
  ci_parentModel :: "string option"

definition splitRef :: "string \<Rightarrow> string \<times> string option" where
  "splitRef ref =
     (case splitModelRef ref of
        Some (p, m, v) \<Rightarrow> (p @ ''/'' @ m, v)
      | None \<Rightarrow> (case cut_last CHR ''#'' ref of
                   Some (m, v) \<Rightarrow> if m \<noteq> [] then (m, normalizedVariant (Some v)) else (ref, None)
                 | None \<Rightarrow> (ref, None)))"

definition chosen_at :: "agent_origin \<Rightarrow> string \<Rightarrow> string \<times> string option \<Rightarrow> chosen_dispatch" where
  "chosen_at org aid ref =
     \<lparr>ch_agent = \<lparr>ar_origin = org, ar_id = aid\<rparr>, ch_model = fst ref, ch_variant = snd ref\<rparr>"

definition resolveChosen :: "chosen_input \<Rightarrow> chosen_dispatch option" where
  "resolveChosen inp =
     (let cfg = ci_cfg inp; aid = ci_agent inp; org = classifyAgentOrigin aid (routerTierIds cfg);
          callModel = nonEmpty (ci_model inp)
      in if aid = [] then None
         else if org = OriginRouter
         then (case callModel of
                 Some m \<Rightarrow> Some (chosen_at org aid (splitRef m))
               | None \<Rightarrow> (case tierConfigOf cfg aid of
                            None \<Rightarrow> None
                          | Some t \<Rightarrow> (let base = splitRef (tc_model t) in
                              Some (chosen_at org aid (fst base, first_some (normalizedVariant (tc_variant t)) (snd base))))))
         else map_option (\<lambda>r. chosen_at org aid (splitRef r))
                (first_some callModel
                  (first_some (nonEmpty (Option.bind (find_agent (ci_agents inp) aid) ha_model)) (nonEmpty (ci_parentModel inp)))))"

end
