(* ===== verification/Ladders_Spec.thy ===== *)
theory Ladders_Spec
  imports Role_Ladders Role_Spec
begin

text \<open>
  What the built graphs guarantee: the graph of a decision is acyclic, so that the kernel's loop computes
  the recurrence on it; its candidates may be dispatched; and a role dispatch on a built role ladder lies
  in its window.
\<close>

section \<open>Role ladders\<close>

text \<open>The candidates collected from the floor's rank up to a rank, below \<open>hi\<close>.\<close>

definition role_inv :: "role_ladder_input \<Rightarrow> string list \<Rightarrow> nat \<Rightarrow> nat \<Rightarrow> candidate list \<Rightarrow> bool" where
  "role_inv inp ordr lo hi cands \<longleftrightarrow>
     (\<forall>c \<in> set cands. int lo \<le> ca_rank c \<and> ca_rank c < int hi \<and> ca_tier c = ordr ! nat (ca_rank c) \<and>
        ca_agent c = \<lparr>ar_origin = OriginRole, ar_id = rli_role inp\<rparr>)"

definition tiers_inv :: "nat \<Rightarrow> nat \<Rightarrow> candidate list \<Rightarrow> role_ladder_tier list \<Rightarrow> bool" where
  "tiers_inv lo hi cands tiers \<longleftrightarrow>
     (\<forall>t \<in> set tiers. int lo \<le> rt_rank t \<and> rt_rank t < int hi \<and>
        (\<forall>k. rt_first t = Some k \<longrightarrow> k < length cands \<and> ca_rank (cands ! k) = rt_rank t)) \<and>
     (cands \<noteq> [] \<longrightarrow> (\<exists>t \<in> set tiers. rt_first t \<noteq> None))"

lemma role_rung_fields [simp]:
  "ca_rank (role_rung inp tier rank m v r) = int rank" "ca_tier (role_rung inp tier rank m v r) = tier"
  "ca_agent (role_rung inp tier rank m v r) = \<lparr>ar_origin = OriginRole, ar_id = rli_role inp\<rparr>"
  by (simp_all add: role_rung_def)

text \<open>Adding the rungs of one tier: a suffix of candidates of that rank, the first of which is recorded.\<close>

lemma role_add_fold:
  assumes "fold (role_add inp tier rank) rungs (cands, excl, first) = (cands', excl', first')"
  obtains new where "cands' = cands @ new"
    "\<forall>c \<in> set new. \<exists>m v r. c = role_rung inp tier rank m v r"
    "first' = first_some first (if new = [] then None else Some (length cands))"
  using assms
proof (induction rungs arbitrary: cands excl first thesis)
  case Nil
  then show ?case by simp
next
  case (Cons r rs)
  let ?c = "role_rung inp tier rank (rs_model r) (rs_variant r) (rs_costRatio r)"
  show ?case
  proof (cases "list_ex (\<lambda>d. sameRung (rung_of d) (rung_of ?c)) cands")
    case True
    with Cons.prems(2) have "fold (role_add inp tier rank) rs (cands, excl @ [excluded_rung ExDuplicate ?c], first) = (cands', excl', first')"
      by (simp add: role_add_def [of inp tier rank r] Let_def)
    from Cons.IH [OF _ this] Cons.prems(1) show ?thesis by blast
  next
    case False
    with Cons.prems(2) have "fold (role_add inp tier rank) rs (cands @ [?c], excl, first_some first (Some (length cands))) = (cands', excl', first')"
      by (simp add: role_add_def [of inp tier rank r] Let_def)
    from Cons.IH [OF _ this] obtain new where n: "cands' = (cands @ [?c]) @ new"
      "\<forall>c \<in> set new. \<exists>m v r. c = role_rung inp tier rank m v r"
      "first' = first_some (first_some first (Some (length cands))) (if new = [] then None else Some (length (cands @ [?c])))" by blast
    show ?thesis by (rule Cons.prems(1) [of "?c # new"]) (use n in \<open>cases first; auto\<close>)+
  qed
qed

lemma role_tier_inv:
  assumes "role_inv inp ordr lo rank (rac_candidates acc)" and "tiers_inv lo rank (rac_candidates acc) (rac_tiers acc)"
    and "lo \<le> rank"
  shows "role_inv inp ordr lo (Suc rank) (rac_candidates (role_tier inp ordr rank acc)) \<and>
    tiers_inv lo (Suc rank) (rac_candidates (role_tier inp ordr rank acc)) (rac_tiers (role_tier inp ordr rank acc))"
proof -
  obtain ks ds where m: "modelledRungs (rli_cfg inp) (ordr ! rank) = (ks, ds)"
    by (cases "modelledRungs (rli_cfg inp) (ordr ! rank)")
  obtain cs ex fs where f: "fold (role_add inp (ordr ! rank) rank) ks (rac_candidates acc,
      rac_excluded acc @ map (\<lambda>r. excluded_rung ExNotModelled
        (role_rung inp (ordr ! rank) rank (rs_model r) (rs_variant r) (rs_costRatio r))) ds, None) = (cs, ex, fs)"
    using prod_cases3 by blast
  then obtain new where n: "cs = rac_candidates acc @ new" "\<forall>c \<in> set new. \<exists>m v r. c = role_rung inp (ordr ! rank) rank m v r"
    "fs = (if new = [] then None else Some (length (rac_candidates acc)))"
    by (rule role_add_fold) auto
  have t: "rac_candidates (role_tier inp ordr rank acc) = cs"
    "rac_tiers (role_tier inp ordr rank acc) = rac_tiers acc @ [\<lparr>rt_tier = ordr ! rank, rt_rank = int rank, rt_first = fs\<rparr>]"
    using f by (simp_all add: role_tier_def Let_def m)
  have r: "ca_rank c = int rank" if "c \<in> set new" for c using n(2) that by auto
  have "\<forall>c \<in> set new. int lo \<le> ca_rank c \<and> ca_rank c < int (Suc rank) \<and> ca_tier c = ordr ! nat (ca_rank c) \<and>
      ca_agent c = \<lparr>ar_origin = OriginRole, ar_id = rli_role inp\<rparr>"
    using n(2) assms(3) by auto
  moreover have "\<forall>c \<in> set (rac_candidates acc). int lo \<le> ca_rank c \<and> ca_rank c < int (Suc rank) \<and>
      ca_tier c = ordr ! nat (ca_rank c) \<and> ca_agent c = \<lparr>ar_origin = OriginRole, ar_id = rli_role inp\<rparr>"
    using assms(1) by (auto simp: role_inv_def)
  ultimately have "role_inv inp ordr lo (Suc rank) cs" unfolding role_inv_def n(1) by auto
  moreover have "tiers_inv lo (Suc rank) cs (rac_tiers acc @ [\<lparr>rt_tier = ordr ! rank, rt_rank = int rank, rt_first = fs\<rparr>])"
  proof -
    have old: "int lo \<le> rt_rank t \<and> rt_rank t < int (Suc rank) \<and>
        (\<forall>k. rt_first t = Some k \<longrightarrow> k < length cs \<and> ca_rank (cs ! k) = rt_rank t)" if "t \<in> set (rac_tiers acc)" for t
      using assms(2) that by (auto simp: tiers_inv_def n(1) nth_append)
    have "fs = Some k \<Longrightarrow> k < length cs \<and> ca_rank (cs ! k) = int rank" for k
      using n(3) r by (cases new) (auto simp: n(1) nth_append split: if_splits)
    moreover have "cs \<noteq> [] \<Longrightarrow> (\<exists>t \<in> set (rac_tiers acc). rt_first t \<noteq> None) \<or> fs \<noteq> None"
      using assms(2) n(1,3) by (auto simp: tiers_inv_def split: if_splits)
    ultimately show ?thesis using old assms(3) by (auto simp: tiers_inv_def)
  qed
  ultimately show ?thesis unfolding t by blast
qed


lemma role_candidates_inv:
  "lo \<le> hi \<Longrightarrow> let acc = fold (role_tier inp ordr) [lo..<hi] \<lparr>rac_candidates = [], rac_excluded = [], rac_tiers = []\<rparr> in
     role_inv inp ordr lo hi (rac_candidates acc) \<and> tiers_inv lo hi (rac_candidates acc) (rac_tiers acc)"
proof (induction hi)
  case 0
  then show ?case by (simp add: role_inv_def tiers_inv_def)
next
  case (Suc hi)
  show ?case
  proof (cases "lo \<le> hi")
    case True
    then show ?thesis using Suc.IH role_tier_inv by (simp add: Let_def)
  next
    case False
    with Suc.prems show ?thesis by (simp add: role_inv_def tiers_inv_def)
  qed
qed

lemma span_le: "windowSpan ordr w = Some s \<Longrightarrow> ws_floor s \<le> ws_ceiling s"
  by (auto simp: windowSpan_def Let_def split: if_splits)

lemma candidateAt_facts:
  assumes "candidateAt tiers rank = Some k"
  obtains t where "t \<in> set tiers" "rt_first t = Some k"
  using assms by (auto simp: candidateAt_def dest!: found_tier(1) split: option.splits)

lemma candidateAt_some: "t \<in> set tiers \<Longrightarrow> rt_first t \<noteq> None \<Longrightarrow> candidateAt tiers rank \<noteq> None"
  by (auto simp: candidateAt_def find_None_iff dest: found_tier(2) split: option.split)

text \<open>The built ladder, when the window can be placed.\<close>

lemma built_role_ladder:
  assumes s: "windowSpan (roleTierOrder (rli_cfg b)) (rli_window b) = Some s"
  obtains acc :: role_acc where
    "role_inv b (roleTierOrder (rli_cfg b)) (ws_floor s) (Suc (ws_ceiling s)) (rac_candidates acc)"
    "tiers_inv (ws_floor s) (Suc (ws_ceiling s)) (rac_candidates acc) (rac_tiers acc)"
    "el_candidates (rl_graph (fst (buildRoleLadder b))) = rac_candidates acc"
    "rl_tiers (fst (buildRoleLadder b)) = rac_tiers acc"
    "\<exists>r. rl_staticDefault (fst (buildRoleLadder b)) = candidateAt (rac_tiers acc) r"
    "\<forall>k. rl_pinnedIndex (fst (buildRoleLadder b)) = Some k \<longrightarrow> (\<exists>r. candidateAt (rac_tiers acc) r = Some k)"
proof -
  let ?o = "roleTierOrder (rli_cfg b)"
  define acc where "acc = role_candidates b ?o s"
  obtain policy where p: "roleEscalatePolicy (rli_cfg b) (rli_window b) = Some policy"
    using s by (simp add: roleEscalatePolicy_def Let_def)
  obtain paths reach where w: "role_paths b ?o s policy (rac_candidates acc) = (paths, reach)"
    by (cases "role_paths b ?o s policy (rac_candidates acc)")
  obtain target dn where d: "default_rank (effective_class_tier b) (rank_in ?o (effective_class_tier b)) s = (target, dn)"
    by (cases "default_rank (effective_class_tier b) (rank_in ?o (effective_class_tier b)) s")
  obtain pinned pn where pin: "pin_index ?o s (rac_tiers acc) (rac_candidates acc) (rw_pinned (rli_window b)) = (pinned, pn)"
    by (cases "pin_index ?o s (rac_tiers acc) (rac_candidates acc) (rw_pinned (rli_window b))")
  have b: "el_candidates (rl_graph (fst (buildRoleLadder b))) = rac_candidates acc"
    "rl_tiers (fst (buildRoleLadder b)) = rac_tiers acc"
    "rl_staticDefault (fst (buildRoleLadder b)) = candidateAt (rac_tiers acc) target"
    "rl_pinnedIndex (fst (buildRoleLadder b)) = pinned"
    by (simp_all add: buildRoleLadder_def Let_def s p acc_def [symmetric] w d pin)
  have "\<exists>r. candidateAt (rac_tiers acc) r = Some k" if "pinned = Some k" for k
    using pin that by (auto simp: pin_index_def Let_def split: option.splits if_splits)
  with b that [of acc] role_candidates_inv [of "ws_floor s" "Suc (ws_ceiling s)" b ?o] span_le [OF s]
  show thesis by (auto simp: acc_def role_candidates_def Let_def)
qed

lemma unplaced_role_ladder:
  assumes "windowSpan (roleTierOrder (rli_cfg b)) (rli_window b) = None"
  shows "el_candidates (rl_graph (fst (buildRoleLadder b))) = []" "rl_staticDefault (fst (buildRoleLadder b)) = None"
    "rl_pinnedIndex (fst (buildRoleLadder b)) = None" "rl_tiers (fst (buildRoleLadder b)) = []"
  by (simp_all add: buildRoleLadder_def assms Let_def)

lemma built_ok: "role_ladder_ok (fst (buildRoleLadder b))"
proof (cases "windowSpan (roleTierOrder (rli_cfg b)) (rli_window b)")
  case None
  then show ?thesis by (simp add: role_ladder_ok_def unplaced_role_ladder)
next
  case (Some s)
  then obtain acc :: role_acc where a: "tiers_inv (ws_floor s) (Suc (ws_ceiling s)) (rac_candidates acc) (rac_tiers acc)"
    "el_candidates (rl_graph (fst (buildRoleLadder b))) = rac_candidates acc"
    "rl_tiers (fst (buildRoleLadder b)) = rac_tiers acc"
    "\<exists>r. rl_staticDefault (fst (buildRoleLadder b)) = candidateAt (rac_tiers acc) r"
    "\<forall>k. rl_pinnedIndex (fst (buildRoleLadder b)) = Some k \<longrightarrow> (\<exists>r. candidateAt (rac_tiers acc) r = Some k)"
    by (rule built_role_ladder) blast
  have c: "candidateAt (rac_tiers acc) r = Some k \<Longrightarrow> k < length (rac_candidates acc)" for r k
    using a(1) by (auto simp: tiers_inv_def elim!: candidateAt_facts)
  have "k < length (rac_candidates acc)" if "rl_pinnedIndex (fst (buildRoleLadder b)) = Some k" for k
    using a(5) c that by blast
  moreover have "k < length (rac_candidates acc)" if "rl_staticDefault (fst (buildRoleLadder b)) = Some k" for k
    using a(4) c that by auto
  moreover have "rt_first t = Some k \<Longrightarrow> k < length (rac_candidates acc) \<and> rt_rank t \<le> ca_rank (rac_candidates acc ! k)"
    if "t \<in> set (rac_tiers acc)" for t k
    using a(1) that by (auto simp: tiers_inv_def)
  ultimately show ?thesis
    unfolding role_ladder_ok_def Let_def cand_def a(2,3) list_all_iff by (auto split: option.split)
qed


lemma span_floor: "windowSpan ordr w = Some s \<Longrightarrow> ordr ! ws_floor s = rw_floor w"
  using index_of_nth [of ordr "rw_floor w"] by (auto simp: windowSpan_def Let_def split: if_splits)

lemma dispatch_in_window:
  assumes "ri_ladder inp = fst (buildRoleLadder b)"
  shows "case rd_dispatch (decideRole inp) of
      None \<Rightarrow> el_candidates (rl_graph (ri_ladder inp)) = []
    | Some c \<Rightarrow> \<exists>s. windowSpan (roleTierOrder (rli_cfg b)) (rli_window b) = Some s \<and>
        roleTierOrder (rli_cfg b) ! ws_floor s = rw_floor (rli_window b) \<and>
        int (ws_floor s) \<le> ca_rank c \<and> ca_rank c \<le> int (ws_ceiling s) \<and>
        ca_tier c = roleTierOrder (rli_cfg b) ! nat (ca_rank c) \<and>
        ca_agent c = \<lparr>ar_origin = OriginRole, ar_id = rli_role b\<rparr>"
proof (cases "windowSpan (roleTierOrder (rli_cfg b)) (rli_window b)")
  case None
  then have "el_candidates (rl_graph (ri_ladder inp)) = []" by (simp add: assms unplaced_role_ladder)
  with role_dispatch_facts [OF built_ok [of b, folded assms]] show ?thesis
    by (auto simp: Let_def split: option.splits)
next
  case (Some s)
  then obtain acc :: role_acc where a: "role_inv b (roleTierOrder (rli_cfg b)) (ws_floor s) (Suc (ws_ceiling s)) (rac_candidates acc)"
    "tiers_inv (ws_floor s) (Suc (ws_ceiling s)) (rac_candidates acc) (rac_tiers acc)"
    "el_candidates (rl_graph (ri_ladder inp)) = rac_candidates acc"
    "\<exists>r. rl_staticDefault (ri_ladder inp) = candidateAt (rac_tiers acc) r"
    unfolding assms by (rule built_role_ladder) blast
  have "rac_candidates acc = []" if "rl_staticDefault (ri_ladder inp) = None"
  proof (rule ccontr)
    assume "rac_candidates acc \<noteq> []"
    then obtain t where "t \<in> set (rac_tiers acc)" "rt_first t \<noteq> None" using a(2) by (auto simp: tiers_inv_def)
    note some = candidateAt_some [OF this]
    from a(4) that obtain r where "candidateAt (rac_tiers acc) r = None" by (metis (no_types))
    with some [of r] show False by blast
  qed
  with role_dispatch_facts [OF built_ok [of b, folded assms]] a(1,3) Some span_floor [OF Some] show ?thesis
    by (auto simp: Let_def role_inv_def split: option.splits)
qed

text \<open>(C22) A role never runs outside its window: on a built role ladder the dispatch, whether chosen, switched,
  resumed or explored, is run by the role agent on a tier between the window's floor and ceiling in the
  preset's cost order; it is refused exactly when the window holds no candidate.\<close>

theorem role_dispatch_in_window:
  "let inp = req\<lparr>ri_ladder := fst (buildRoleLadder b)\<rparr> in
   case rd_dispatch (decideRole inp) of
      None \<Rightarrow> el_candidates (rl_graph (ri_ladder inp)) = []
    | Some c \<Rightarrow> \<exists>s. windowSpan (roleTierOrder (rli_cfg b)) (rli_window b) = Some s \<and>
        roleTierOrder (rli_cfg b) ! ws_floor s = rw_floor (rli_window b) \<and>
        int (ws_floor s) \<le> ca_rank c \<and> ca_rank c \<le> int (ws_ceiling s) \<and>
        ca_tier c = roleTierOrder (rli_cfg b) ! nat (ca_rank c) \<and>
        ca_agent c = \<lparr>ar_origin = OriginRole, ar_id = rli_role b\<rparr>"
  unfolding Let_def by (rule dispatch_in_window) simp


section \<open>The graph of a decision\<close>

text \<open>
  While role chains are appended: router rungs have no successor, every other successor is a router rung
  or a later rung of the same chain.
\<close>

definition graph_inv :: "nat \<Rightarrow> chains_acc \<Rightarrow> bool" where
  "graph_inv n acc \<longleftrightarrow> n \<le> length (cs_candidates acc) \<and> length (cs_next acc) = length (cs_candidates acc) \<and>
     (\<forall>k < length (cs_candidates acc). \<forall>j. cs_next acc ! k = Some j \<longrightarrow>
        n \<le> k \<and> (j < n \<or> k < j \<and> j < length (cs_candidates acc)))"

lemma firstUncovered_mem: "firstUncovered cfg k following all b = Some j \<Longrightarrow> j \<in> set following"
  by (auto simp: firstUncovered_def find_Some_iff)

lemma append_chain_inv:
  assumes "graph_inv n acc"
  shows "graph_inv n (append_chain inp n b tier rank chain acc)"
proof -
  let ?a = "append_chain inp n b tier rank chain acc"
  let ?s = "length (cs_candidates acc)"
  let ?cands = "cs_candidates acc @ chain"
  define after where "after = (\<lambda>k. first_some (firstUncovered (lb_cfg inp) (?cands ! k) [Suc k..<length ?cands] ?cands True)
    (firstUncovered (lb_cfg inp) (?cands ! k) (filter (\<lambda>j. rank < ca_rank (?cands ! j)) [0..<n]) ?cands b))"
  have a: "cs_candidates ?a = ?cands" "cs_next ?a = cs_next acc @ map after [?s..<length ?cands]"
    by (simp_all add: append_chain_def Let_def after_def)
  have "after k = Some j \<Longrightarrow> j < n \<or> k < j \<and> j < length ?cands" for k j
    unfolding after_def
    by (cases "firstUncovered (lb_cfg inp) (?cands ! k) [Suc k..<length ?cands] ?cands True") (auto dest: firstUncovered_mem)
  with assms show ?thesis
    unfolding graph_inv_def a by (auto simp: nth_append)
qed

lemma role_agent_inv:
  assumes "graph_inv n acc"
  shows "graph_inv n (role_agent inp presetRungs n b aid acc)"
proof -
  have upd: "graph_inv n (acc\<lparr>cs_excluded := e\<rparr>)" for e
    using assms by (simp add: graph_inv_def)
  then show ?thesis
    using append_chain_inv [OF upd]
    by (auto simp: role_agent_def Let_def split: option.split prod.split)
qed

lemma role_agents_inv: "graph_inv n acc \<Longrightarrow> graph_inv n (fold (role_agent inp presetRungs n b) aids acc)"
  by (induction aids arbitrary: acc) (auto intro: role_agent_inv)

definition router_count :: "ladder_build_input \<Rightarrow> nat" where
  "router_count inp = length (lc_candidates (router_block inp))"

lemma with_chains_inv: "graph_inv (router_count inp) (with_chains inp)"
  unfolding with_chains_def Let_def router_count_def by (rule role_agents_inv) (simp add: graph_inv_def)

lemma built_fields:
  "el_candidates (fst (buildLadder b)) = cs_candidates (with_chains b)"
  "el_next (fst (buildLadder b)) = map (map_option int) (cs_next (with_chains b))"
  by (simp_all add: buildLadder_def Let_def split: prod.split)

lemma env_fields:
  "ce_next (env_of inp) = el_next (in_ladder inp)"
  by (simp add: env_of_def Let_def split: prod.split)

lemma path_step_length: "length (snd (path_step l k st)) = Suc (length (snd st))"
  by (auto simp: path_step_def Let_def split: prod.split option.split)

lemma path_fold_length: "length (snd (fold (path_step l) ks st)) = length ks + length (snd st)"
  by (induction ks arbitrary: st) (simp_all add: path_step_length)

lemma env_path_length: "length (ce_path (env_of inp)) = length (el_candidates (in_ladder inp))"
  using path_fold_length [of "in_ladder inp" "[0..<length (el_candidates (in_ladder inp))]"
      "(map snd (attempt_costs inp), [])"]
  by (auto simp: env_of_def Let_def split: prod.split)

lemma built_acyclic:
  assumes "in_ladder inp = fst (buildLadder b)"
  shows "acyclic_env (env_of inp)
    (\<lambda>k. if k < router_count b then 0 else Suc (length (el_candidates (in_ladder inp)) - k))"
proof -
  let ?n = "router_count b" and ?len = "length (el_candidates (in_ladder inp))"
  have inv: "graph_inv ?n (with_chains b)" by (rule with_chains_inv)
  have len: "length (el_next (in_ladder inp)) = ?len"
    using inv by (simp add: assms built_fields graph_inv_def)
  have step: "?n \<le> k \<and> (j < ?n \<or> k < j \<and> j < ?len)" if s: "successor (env_of inp) k = Some j" for k j
  proof -
    have k: "k < ?len" using s len by (auto simp: successor_def env_fields split: if_splits)
    with s len have "el_next (in_ladder inp) ! k = Some (int j)"
      by (auto simp: successor_def env_fields split: option.splits if_splits)
    with k inv have "cs_next (with_chains b) ! k = Some j" "k < length (cs_candidates (with_chains b))"
      by (auto simp: assms built_fields graph_inv_def)
    with inv show ?thesis by (auto simp: graph_inv_def assms built_fields)
  qed
  show ?thesis unfolding acyclic_env_def
  proof (intro allI impI)
    fix k j
    assume "successor (env_of inp) k = Some j"
    from step [OF this] show "(if j < ?n then 0 else Suc (?len - j)) < (if k < ?n then 0 else Suc (?len - k))" by auto
  qed
qed

text \<open>(C37) The graphs the router builds are acyclic, so the kernel prices them by the recurrence: for every
  built ladder the costs of a decision satisfy \<open>C(k) = cost + tax + (1 - p)(d C(next k) + (1 - d) U)\<close>, or
  the value of the simulated path, whatever the catalog, the agents, the store and the configuration.\<close>

theorem built_ladder_priced_by_recurrence:
  "let inp = req\<lparr>in_ladder := fst (buildLadder b)\<rparr>; env = env_of inp in
   decision_costs inp =
     map (\<lambda>k. if ce_usable env ! k then Some (cascade_rhs env (\<lambda>j. the (decision_costs inp ! j)) k) else None)
       [0..<length (el_candidates (in_ladder inp))]"
proof -
  let ?i = "req\<lparr>in_ladder := fst (buildLadder b)\<rparr>"
  have "in_ladder ?i = fst (buildLadder b)" by simp
  from cascade_recurrence [OF built_acyclic [OF this]] show ?thesis
    unfolding Let_def decision_costs_def env_path_length [symmetric]
    by (auto intro!: nth_equalityI)
qed


section \<open>The candidates of a decision\<close>

definition dispatchable :: "ladder_build_input \<Rightarrow> candidate \<Rightarrow> bool" where
  "dispatchable b c =
     (let aid = ar_id (ca_agent c); info = find_agent (lb_agents b) aid in
      case ar_origin (ca_agent c) of
        OriginRouter \<Rightarrow>
          aid = ca_tier c \<and> 0 \<le> ca_rank c \<and> ca_rank c < int (length (ladder_order b)) \<and>
          ladder_order b ! nat (ca_rank c) = aid \<and>
          (case tierConfigOf (lb_cfg b) aid of None \<Rightarrow> True | Some t \<Rightarrow> ca_model c = tc_model t) \<and>
          (case info of None \<Rightarrow> ca_grants c = None | Some i \<Rightarrow> \<not> agentUnavailable i \<and> ca_grants c = Some (ha_grants i))
      | OriginHost \<Rightarrow>
          aid \<in> set (ownRoles (lb_roles b) (lb_class b)) \<and> aid \<notin> set (routerTierIds (lb_cfg b)) \<and>
          aid \<notin> set ROUTING_RESERVED_AGENTS \<and>
          (case info of None \<Rightarrow> False
           | Some i \<Rightarrow> \<not> agentUnavailable i \<and> ca_grants c = Some (ha_grants i) \<and> coversNeeds (ca_grants c) (lb_needs b)) \<and>
          (case owning b of None \<Rightarrow> False | Some (t, r) \<Rightarrow> ca_rank c \<le> r)
      | OriginRole \<Rightarrow> False)"

lemma with_ranks_mem: "(t, r) \<in> set (with_ranks ordr) \<Longrightarrow> 0 \<le> r \<and> r < int (length ordr) \<and> ordr ! nat r = t"
  by (auto simp: with_ranks_def set_zip)

lemma kept_model: "r \<in> set (fst (modelledRungs cfg tier)) \<Longrightarrow>
    case tierConfigOf cfg tier of None \<Rightarrow> True | Some t \<Rightarrow> rs_model r = tc_model t"
  by (auto simp: modelledRungs_def Let_def split: option.split)

lemma router_tier_dispatchable:
  assumes "tr \<in> set (with_ranks (ladder_order b))" and "list_all (dispatchable b) (lc_candidates acc)"
  shows "list_all (dispatchable b) (lc_candidates (router_tier b tr acc))"
proof -
  obtain tier rank where tr: "tr = (tier, rank)" by (cases tr)
  obtain kept dropped where m: "modelledRungs (lb_cfg b) tier = (kept, dropped)" by (cases "modelledRungs (lb_cfg b) tier")
  note rk = with_ranks_mem [OF assms(1) [unfolded tr]]
  have "dispatchable b (router_rung b tier rank r)" if "\<not> tier_unavailable b tier" "r \<in> set kept" for r
    using kept_model [of r "lb_cfg b" tier] that rk
    by (auto simp: m dispatchable_def router_rung_def tier_unavailable_def Let_def split: option.split option.splits)
  with assms(2) show ?thesis
    by (auto simp: router_tier_def tr m Let_def list_all_iff)
qed

lemma router_block_dispatchable: "list_all (dispatchable b) (lc_candidates (router_block b))"
proof -
  have "list_all (dispatchable b) (lc_candidates (fold (router_tier b) trs acc))"
    if "set trs \<subseteq> set (with_ranks (ladder_order b))" "list_all (dispatchable b) (lc_candidates acc)" for trs acc
    using that by (induction trs arbitrary: acc) (auto intro: router_tier_dispatchable)
  then show ?thesis by (simp add: router_block_def)
qed

lemma chain_rung_fields:
  assumes "c \<in> set (fst (chain_rungs b presetRungs tier rank rungs aid i))"
  shows "ca_agent c = \<lparr>ar_origin = OriginHost, ar_id = aid\<rparr> \<and> ca_grants c = Some (ha_grants i) \<and> ca_rank c \<le> rank"
proof -
  have "ca_agent w = \<lparr>ar_origin = OriginHost, ar_id = aid\<rparr> \<and> ca_grants w = Some (ha_grants i) \<and> ca_rank w \<le> rank"
    if "own_model_rung b presetRungs tier rank r aid i = Some w" for w r
    using that by (auto simp: own_model_rung_def Let_def split: option.splits prod.splits if_splits)
  with assms show ?thesis
    by (auto simp: chain_rungs_def Let_def role_tier_rung_def split: option.splits)
qed

lemma role_agent_dispatchable:
  assumes "aid \<in> set (ownRoles (lb_roles b) (lb_class b))" and "list_all (dispatchable b) (cs_candidates acc)"
  shows "list_all (dispatchable b) (cs_candidates (role_agent b presetRungs n skip aid acc))"
proof (cases "\<exists>t r i. owning b = Some (t, r) \<and> find_agent (lb_agents b) aid = Some i \<and>
    roleAgentExclusion aid (Some i) (routerTierIds (lb_cfg b)) = None \<and> coversNeeds (Some (ha_grants i)) (lb_needs b)")
  case True
  then obtain t r i where h: "owning b = Some (t, r)" "find_agent (lb_agents b) aid = Some i"
    "roleAgentExclusion aid (Some i) (routerTierIds (lb_cfg b)) = None" "coversNeeds (Some (ha_grants i)) (lb_needs b)" by blast
  have x: "aid \<notin> set (routerTierIds (lb_cfg b))" "aid \<notin> set ROUTING_RESERVED_AGENTS" "\<not> agentUnavailable i"
    using h(3) by (auto simp: roleAgentExclusion_def split: if_splits)
  have "dispatchable b c"
    if "c \<in> set (fst (chain_rungs b presetRungs t r (fst (modelledRungs (lb_cfg b) t)) aid i))" for c
    using chain_rung_fields [OF that] assms(1) h(1,2,4) x by (simp add: dispatchable_def Let_def)
  with assms(2) h show ?thesis
    by (auto simp: role_agent_def Let_def append_chain_def list_all_iff split: prod.split)
next
  case False
  then have "cs_candidates (role_agent b presetRungs n skip aid acc) = cs_candidates acc"
    by (auto simp: role_agent_def Let_def split: option.split)
  with assms(2) show ?thesis by simp
qed

text \<open>Every candidate of a decision may be dispatched: a router candidate is a rung of its tier's own model,
  at the tier's place on the escalation ladder, and its agent is not hidden, primary or forbidden; a host
  candidate is an agent configured for the class that is neither a router tier nor reserved, is available,
  whose permissions cover the needs of the task and whose rank is at most that of the class's tier.\<close>

theorem candidates_are_dispatchable:
  "list_all (dispatchable b) (el_candidates (fst (buildLadder b)))"
proof -
  have "list_all (dispatchable b) (cs_candidates (fold (role_agent b presetRungs n skip) aids acc))"
    if "set aids \<subseteq> set (ownRoles (lb_roles b) (lb_class b))" "list_all (dispatchable b) (cs_candidates acc)"
    for aids acc presetRungs n skip
    using that by (induction aids arbitrary: acc) (auto intro: role_agent_dispatchable)
  then show ?thesis
    by (simp add: built_fields with_chains_def Let_def router_block_dispatchable)
qed

end
