(* ===== verification/Json_Doc.thy ===== *)
theory Json_Doc
  imports Js_Map
begin

text \<open>
  Parsed JSON documents, as the validators of the router read them: an object is an association list in
  insertion order with distinct keys (what \<^verbatim>\<open>JSON.parse\<close> yields), a number a \<open>jsnum\<close>. A missing
  field is \<open>None\<close>. The readers return \<open>None\<close> where the code's type guards say no.
\<close>

datatype jdoc = DNull | DBool bool | DNum jsnum | DStr string | DArr "jdoc list" | DObj "(string \<times> jdoc) list"

text \<open>\<^verbatim>\<open>isRec\<close> / \<^verbatim>\<open>isPlainObject\<close>: the fields of an object that is not an array.\<close>

fun as_obj :: "jdoc \<Rightarrow> (string \<times> jdoc) list option" where
  "as_obj (DObj fs) = Some fs"
| "as_obj _ = None"

fun as_num :: "jdoc \<Rightarrow> jsnum option" where
  "as_num (DNum x) = Some x"
| "as_num _ = None"

fun as_str :: "jdoc \<Rightarrow> string option" where
  "as_str (DStr s) = Some s"
| "as_str _ = None"

fun as_bool :: "jdoc \<Rightarrow> bool option" where
  "as_bool (DBool b) = Some b"
| "as_bool _ = None"

fun as_arr :: "jdoc \<Rightarrow> jdoc list option" where
  "as_arr (DArr xs) = Some xs"
| "as_arr _ = None"

definition isFiniteNum :: "jdoc \<Rightarrow> real option" where
  "isFiniteNum d = Option.bind (as_num d) finite_value"

definition isNonNegFinite :: "jdoc \<Rightarrow> real option" where
  "isNonNegFinite d = (case isFiniteNum d of None \<Rightarrow> None | Some x \<Rightarrow> if 0 \<le> x then Some x else None)"

text \<open>A non-negative integer; \<open>nat \<lfloor>x\<rfloor>\<close> is exact on the numbers that pass.\<close>

definition isCount :: "jdoc \<Rightarrow> nat option" where
  "isCount d = (case isFiniteNum d of None \<Rightarrow> None
                | Some x \<Rightarrow> if x = of_int \<lfloor>x\<rfloor> \<and> 0 \<le> x then Some (nat \<lfloor>x\<rfloor>) else None)"

text \<open>A field of an object read with a reader.\<close>

definition field_as :: "(string \<times> jdoc) list \<Rightarrow> string \<Rightarrow> (jdoc \<Rightarrow> 'a option) \<Rightarrow> 'a option" where
  "field_as fs k rd = Option.bind (map_of fs k) rd"

definition num_doc :: "real \<Rightarrow> jdoc" where "num_doc x = DNum (Fin x)"

lemma finite_num_doc [simp]: "isFiniteNum (num_doc x) = Some x"
  by (simp add: isFiniteNum_def num_doc_def)

lemma non_neg_num_doc [simp]: "isNonNegFinite (num_doc x) = (if 0 \<le> x then Some x else None)"
  by (simp add: isNonNegFinite_def)

lemma count_num_doc [simp]: "isCount (num_doc (real n)) = Some n"
  by (simp add: isCount_def)

lemma non_neg_Some: "isNonNegFinite d = Some x \<Longrightarrow> 0 \<le> x"
  by (auto simp: isNonNegFinite_def split: option.splits if_splits)

end
