(* ===== verification/Outcome_Store.thy ===== *)
theory Outcome_Store
  imports Json_Doc Outcome_Key Beta Cost
begin

text \<open>
  The outcome store, \<^verbatim>\<open>src/routing/outcomes/store.ts\<close>: per key the Beta evidence, the lifetime
  counters and the cost statistics, plus the attempts still receiving steps and two bounded memories of
  attempt ids. Every operation takes the readings of the clock it makes: \<open>t\<close> is the operation's own
  reading, \<open>tn\<close> the one that stamps an entry created on the way. Readings are finite (\<^verbatim>\<open>safeNow\<close>).
  A JavaScript object of the store is reached from one map only, so updating it is updating the map.
\<close>

section \<open>State\<close>

record outcome_counts =
  oc_pass :: int
  oc_fail :: int
  oc_falseRefusals :: int
  oc_variantPass :: int
  oc_variantFail :: int

record entry =
  en_cls :: string
  en_beta :: beta_state
  en_counts :: outcome_counts
  en_cost :: cost_stats

datatype scored_kind = ScPass | ScFail | ScRefusal

record scored_info =
  sc_key :: string
  sc_kind :: scored_kind
  sc_at :: real
  sc_variant :: bool
  sc_weight :: "real option"

record outcome_store =
  os_entries :: "(string, entry) jsmap"
  os_open :: "(string, open_attempt) jsmap"
  os_scored :: "(string, scored_info) jsmap"
  os_closed :: "(string, unit) jsmap"
  os_tuning :: outcome_tuning
  os_revision :: nat
  os_maxOpen :: nat
  os_maxScored :: nat

definition ZERO_COUNTS :: outcome_counts where
  "ZERO_COUNTS = \<lparr>oc_pass = 0, oc_fail = 0, oc_falseRefusals = 0, oc_variantPass = 0, oc_variantFail = 0\<rparr>"

definition EMPTY_COST :: cost_stats where "EMPTY_COST = emptyCostStats"

definition DEFAULT_MAX_OPEN_ATTEMPTS :: nat where "DEFAULT_MAX_OPEN_ATTEMPTS = 256"
definition DEFAULT_MAX_SCORED_ATTEMPTS :: nat where "DEFAULT_MAX_SCORED_ATTEMPTS = 4096"

definition bump :: "outcome_store \<Rightarrow> outcome_store" where
  "bump st = st\<lparr>os_revision := os_revision st + 1\<rparr>"

text \<open>A limit option as given: \<open>Math.max(1, Math.floor(x ?? default))\<close> on a finite number.\<close>

definition limit_of :: "real option \<Rightarrow> nat \<Rightarrow> nat" where
  "limit_of opt d = (case opt of None \<Rightarrow> max 1 d | Some x \<Rightarrow> max 1 (nat \<lfloor>x\<rfloor>))"

definition createOutcomeStore :: "jsnum option \<Rightarrow> jsnum option \<Rightarrow> real option \<Rightarrow> real option \<Rightarrow> outcome_store" where
  "createOutcomeStore half cap maxOpen maxScored =
     \<lparr>os_entries = [], os_open = [], os_scored = [], os_closed = [], os_tuning = sanitizeTuning half cap,
      os_revision = 0, os_maxOpen = limit_of maxOpen DEFAULT_MAX_OPEN_ATTEMPTS,
      os_maxScored = limit_of maxScored DEFAULT_MAX_SCORED_ATTEMPTS\<rparr>"

definition configure :: "jsnum option \<Rightarrow> jsnum option \<Rightarrow> outcome_store \<Rightarrow> outcome_store" where
  "configure half cap st =
     st\<lparr>os_tuning := sanitizeTuning (first_some half (Some (Fin (ot_halfLifeDays (os_tuning st)))))
                       (first_some cap (Some (Fin (ot_maxEffectiveSamples (os_tuning st)))))\<rparr>"

section \<open>Entries\<close>

definition new_entry :: "string \<Rightarrow> real \<Rightarrow> entry" where
  "new_entry cls tn =
     \<lparr>en_cls = cls, en_beta = \<lparr>be_alpha = 0, be_beta = 0, be_updatedAt = tn\<rparr>, en_counts = ZERO_COUNTS, en_cost = EMPTY_COST\<rparr>"

text \<open>The entry of a key, and the entries with it created for a well-formed new key.\<close>

definition entryFor :: "string \<Rightarrow> real \<Rightarrow> (string, entry) jsmap \<Rightarrow> (entry \<times> (string, entry) jsmap) option" where
  "entryFor key tn es =
     (case map_get es key of
        Some e \<Rightarrow> Some (e, es)
      | None \<Rightarrow> (case parseKey key of None \<Rightarrow> None
                 | Some p \<Rightarrow> (let e = new_entry (kp_cls p) tn in Some (e, map_set key e es))))"

definition put_entry :: "string \<Rightarrow> entry \<Rightarrow> (string, entry) jsmap \<Rightarrow> outcome_store \<Rightarrow> outcome_store" where
  "put_entry key e es st = st\<lparr>os_entries := map_set key e es\<rparr>"

section \<open>Verdicts\<close>

datatype verdict = VPass | VFail | VUnverifiable
datatype step_kind = StepDispatch | StepVariant | StepRetry | StepEscalate

definition b2i :: "bool \<Rightarrow> int" where "b2i b = (if b then 1 else 0)"

definition keep_scored :: "string \<Rightarrow> scored_info \<Rightarrow> outcome_store \<Rightarrow> outcome_store" where
  "keep_scored aid info st = st\<lparr>os_scored := remember aid info (os_maxScored st) (os_scored st)\<rparr>"

definition recordVerdict ::
    "string \<Rightarrow> verdict \<Rightarrow> string \<Rightarrow> step_kind \<Rightarrow> jsnum \<Rightarrow> real \<Rightarrow> real \<Rightarrow> outcome_store \<Rightarrow> bool \<times> outcome_store" where
  "recordVerdict key v aid step weight tn t st =
     (if v = VUnverifiable then (False, st)
      else case usable_weight weight of None \<Rightarrow> (False, st)
      | Some w \<Rightarrow>
         (case map_get (os_scored st) aid of
            Some previous \<Rightarrow> (False, keep_scored aid previous st)
          | None \<Rightarrow>
             (case entryFor key tn (os_entries st) of None \<Rightarrow> (False, st)
              | Some (e, es) \<Rightarrow>
                 (let pass = (v = VPass); variant = (step = StepVariant); c = en_counts e;
                      e' = e\<lparr>en_beta := observe (Some (en_beta e)) pass (Fin t) (os_tuning st) weight,
                             en_counts := \<lparr>oc_pass = oc_pass c + b2i pass, oc_fail = oc_fail c + b2i (\<not> pass),
                               oc_falseRefusals = oc_falseRefusals c,
                               oc_variantPass = oc_variantPass c + b2i (variant \<and> pass),
                               oc_variantFail = oc_variantFail c + b2i (variant \<and> \<not> pass)\<rparr>\<rparr>;
                      info = \<lparr>sc_key = key, sc_kind = (if pass then ScPass else ScFail), sc_at = t, sc_variant = variant,
                              sc_weight = (if w = 1 then None else Some w)\<rparr>
                  in (True, bump (keep_scored aid info (put_entry key e' es st)))))))"

text \<open>The four cases of a false refusal: first signal, wrong pass, weighted failure, already a failure.\<close>

definition refuse_first :: "string \<Rightarrow> string \<Rightarrow> step_kind \<Rightarrow> real \<Rightarrow> entry \<Rightarrow> (string, entry) jsmap \<Rightarrow> outcome_store \<Rightarrow> outcome_store" where
  "refuse_first key aid step t e es st =
     (let variant = (step = StepVariant); c = en_counts e;
          e' = e\<lparr>en_counts := c\<lparr>oc_falseRefusals := oc_falseRefusals c + 1, oc_variantFail := oc_variantFail c + b2i variant\<rparr>,
                 en_beta := observe (Some (en_beta e)) False (Fin t) (os_tuning st) (Fin 1)\<rparr>
      in keep_scored aid \<lparr>sc_key = key, sc_kind = ScRefusal, sc_at = t, sc_variant = variant, sc_weight = None\<rparr>
           (put_entry key e' es st))"

definition refuse_pass :: "string \<Rightarrow> string \<Rightarrow> scored_info \<Rightarrow> real \<Rightarrow> entry \<Rightarrow> (string, entry) jsmap \<Rightarrow> outcome_store \<Rightarrow> outcome_store" where
  "refuse_pass key aid previous t e es st =
     (let tun = os_tuning st; c = en_counts e; decayed = decayTo (en_beta e) (Fin t) tun; v = b2i (sc_variant previous);
          contribution = decayFactor (t - sc_at previous) (ot_halfLifeDays tun) * or_else (sc_weight previous) 1;
          e' = e\<lparr>en_beta := capEvidence \<lparr>be_alpha = max 0 (be_alpha decayed - contribution), be_beta = be_beta decayed + 1,
                     be_updatedAt = be_updatedAt decayed\<rparr> (ot_maxEffectiveSamples tun),
                 en_counts := \<lparr>oc_pass = max 0 (oc_pass c - 1), oc_fail = oc_fail c + 1, oc_falseRefusals = oc_falseRefusals c + 1,
                     oc_variantPass = max 0 (oc_variantPass c - v), oc_variantFail = oc_variantFail c + v\<rparr>\<rparr>
      in keep_scored aid \<lparr>sc_key = key, sc_kind = ScRefusal, sc_at = t, sc_variant = sc_variant previous, sc_weight = None\<rparr>
           (put_entry key e' es st))"

definition refuse_fail :: "string \<Rightarrow> string \<Rightarrow> scored_info \<Rightarrow> real \<Rightarrow> entry \<Rightarrow> (string, entry) jsmap \<Rightarrow> outcome_store \<Rightarrow> outcome_store" where
  "refuse_fail key aid previous t e es st =
     (let tun = os_tuning st; c = en_counts e; decayed = decayTo (en_beta e) (Fin t) tun;
          topUp = max 0 (1 - or_else (sc_weight previous) 1 * decayFactor (t - sc_at previous) (ot_halfLifeDays tun));
          e' = e\<lparr>en_beta := capEvidence (decayed\<lparr>be_beta := be_beta decayed + topUp\<rparr>) (ot_maxEffectiveSamples tun),
                 en_counts := c\<lparr>oc_falseRefusals := oc_falseRefusals c + 1\<rparr>\<rparr>
      in keep_scored aid \<lparr>sc_key = key, sc_kind = ScRefusal, sc_at = t, sc_variant = sc_variant previous, sc_weight = None\<rparr>
           (put_entry key e' es st))"

definition recordFalseRefusal :: "string \<Rightarrow> string \<Rightarrow> step_kind \<Rightarrow> real \<Rightarrow> real \<Rightarrow> outcome_store \<Rightarrow> bool \<times> outcome_store" where
  "recordFalseRefusal key aid step tn t st =
     (case entryFor key tn (os_entries st) of None \<Rightarrow> (False, st)
      | Some (e, es) \<Rightarrow>
         (case map_get (os_scored st) aid of
            None \<Rightarrow> (True, bump (refuse_first key aid step t e es st))
          | Some previous \<Rightarrow>
             (if sc_kind previous = ScPass \<and> sc_key previous = key
              then (True, bump (refuse_pass key aid previous t e es st))
              else if sc_kind previous = ScFail \<and> sc_key previous = key \<and> or_else (sc_weight previous) 1 < 1
              then (True, bump (refuse_fail key aid previous t e es st))
              else (let c = en_counts e; e' = e\<lparr>en_counts := c\<lparr>oc_falseRefusals := oc_falseRefusals c + 1\<rparr>\<rparr>
                    in (False, bump (keep_scored aid previous (put_entry key e' es st)))))))"

section \<open>Steps and attempts\<close>

record step_sample =
  ss_attemptID :: string
  ss_cost :: jsnum
  ss_pricing :: pricing_state
  ss_tokens :: raw_tokens
  ss_final :: bool

definition fold_open :: "open_attempt \<Rightarrow> real \<Rightarrow> outcome_store \<Rightarrow> outcome_store" where
  "fold_open attempt tn st =
     (case entryFor (oa_key attempt) tn (os_entries st) of None \<Rightarrow> st
      | Some (e, es) \<Rightarrow>
          bump (put_entry (oa_key attempt)
            (e\<lparr>en_cost := foldAttempt (en_cost e) attempt (ot_maxEffectiveSamples (os_tuning st))\<rparr>) es st))"

definition markClosed :: "string \<Rightarrow> outcome_store \<Rightarrow> outcome_store" where
  "markClosed aid st = st\<lparr>os_closed := remember aid () (os_maxScored st) (os_closed st)\<rparr>"

definition closeInternal :: "string \<Rightarrow> bool \<Rightarrow> real \<Rightarrow> outcome_store \<Rightarrow> outcome_store" where
  "closeInternal aid rememberClosed tn st =
     (case map_get (os_open st) aid of None \<Rightarrow> st
      | Some attempt \<Rightarrow>
          (let st1 = fold_open attempt tn (st\<lparr>os_open := map_delete aid (os_open st)\<rparr>)
           in if rememberClosed then markClosed aid st1 else st1))"

definition closeAttempt :: "string \<Rightarrow> real \<Rightarrow> outcome_store \<Rightarrow> outcome_store" where
  "closeAttempt aid tn st = closeInternal aid True tn st"

definition next_open :: "string \<Rightarrow> open_attempt option \<Rightarrow> step_sample \<Rightarrow> real \<Rightarrow> open_attempt" where
  "next_open key acc s t =
     (let usd = stepUSD (ss_cost s) (ss_pricing s); tokens = cleanTokenSample (ss_tokens s);
          base = or_else acc \<lparr>oa_key = key, oa_attemptID = ss_attemptID s, oa_steps = 0, oa_usd = 0, oa_usdKnown = True,
                   oa_tokens = emptyTokenSample, oa_finalOutput = None, oa_lastStepAt = t\<rparr>
      in \<lparr>oa_key = oa_key base, oa_attemptID = oa_attemptID base, oa_steps = oa_steps base + 1,
          oa_usd = oa_usd base + or_else usd 0, oa_usdKnown = (oa_usdKnown base \<and> usd \<noteq> None),
          oa_tokens = addTokens (oa_tokens base) tokens,
          oa_finalOutput = (if ss_final s then Some (tk_output tokens) else oa_finalOutput base), oa_lastStepAt = t\<rparr>)"

text \<open>\<open>tn1\<close> stamps an entry created for an attempt id that changed its key, \<open>tn2\<close> one created by the fold at the end.\<close>

definition recordStep :: "string \<Rightarrow> step_sample \<Rightarrow> real \<Rightarrow> real \<Rightarrow> real \<Rightarrow> outcome_store \<Rightarrow> outcome_store" where
  "recordStep key s tn1 t tn2 st =
     (let aid = ss_attemptID s in
      if map_get (os_closed st) aid \<noteq> None then st
      else
        (let moved = (case map_get (os_open st) aid of None \<Rightarrow> False | Some a \<Rightarrow> oa_key a \<noteq> key);
             st1 = (if moved then closeInternal aid False tn1 st else st);
             nxt = next_open key (if moved then None else map_get (os_open st) aid) s t;
             st2 = st1\<lparr>os_open := map_delete aid (os_open st1)\<rparr>
         in if ss_final s then markClosed aid (fold_open nxt tn2 st2)
            else
              (let st3 = st2\<lparr>os_open := map_set aid nxt (os_open st2)\<rparr> in
               if os_maxOpen st3 < length (os_open st3)
               then (case os_open st3 of [] \<Rightarrow> st3 | (oldest, _) # _ \<Rightarrow> closeInternal oldest True tn2 st3)
               else st3)))"

definition sweepAttempts :: "real \<Rightarrow> real \<Rightarrow> (string \<Rightarrow> real) \<Rightarrow> outcome_store \<Rightarrow> nat \<times> outcome_store" where
  "sweepAttempts maxIdleMs t tn st =
     (let idle = map fst (filter (\<lambda>(aid, a). maxIdleMs \<le> t - oa_lastStepAt a) (os_open st))
      in (length idle, fold (\<lambda>aid s. closeInternal aid True (tn aid) s) idle st))"

section \<open>Reads\<close>

text \<open>A read of evidence stamped more than a day ahead re-stamps it in the store.\<close>

definition restamped :: "string \<Rightarrow> real \<Rightarrow> outcome_store \<Rightarrow> outcome_store" where
  "restamped key t st =
     (case map_get (os_entries st) key of None \<Rightarrow> st
      | Some e \<Rightarrow> if t + DAY_MS < be_updatedAt (en_beta e)
                  then bump (st\<lparr>os_entries := map_set key (e\<lparr>en_beta := (en_beta e)\<lparr>be_updatedAt := t\<rparr>\<rparr>) (os_entries st)\<rparr>)
                  else st)"

definition store_posterior :: "string \<Rightarrow> beta_prior \<Rightarrow> real \<Rightarrow> outcome_store \<Rightarrow> posterior_view \<times> outcome_store" where
  "store_posterior key prior t st =
     (let st' = restamped key t st in
      (posteriorOf (map_option en_beta (map_get (os_entries st') key)) prior (Fin t) (os_tuning st'), st'))"

definition store_cost :: "string \<Rightarrow> outcome_store \<Rightarrow> cost_stats" where
  "store_cost key st = or_else (map_option en_cost (map_get (os_entries st) key)) EMPTY_COST"

definition add_profile :: "token_means \<Rightarrow> nat \<times> token_sample \<Rightarrow> nat \<times> token_sample" where
  "add_profile t acc =
     (case acc of (n, totals) \<Rightarrow> (n + tm_n t, zip_tokens (\<lambda>s m. s + m * real (tm_n t)) totals (tm_mean t)))"

definition classTokenProfile :: "string \<Rightarrow> outcome_store \<Rightarrow> token_means option" where
  "classTokenProfile cls st =
     (let ts = filter (\<lambda>t. tm_n t \<noteq> 0) (map (\<lambda>(_, e). co_tokens (en_cost e)) (filter (\<lambda>(_, e). en_cls e = cls) (os_entries st)));
          (n, totals) = fold add_profile ts (0, emptyTokenSample)
      in if n = 0 then None else Some \<lparr>tm_n = n, tm_mean = zip_tokens (\<lambda>s _. s / real n) totals totals\<rparr>)"

end
