(* ===== verification/Outcome_Sync.thy ===== *)
theory Outcome_Sync
  imports Outcome_Store "HOL-Library.List_Lexorder" "HOL-Library.Char_ord"
begin

text \<open>
  Persisted outcomes, the second half of \<^verbatim>\<open>src/routing/outcomes/store.ts\<close>: the snapshot document
  and its validation, loading (replace or merge) and the merge with what another process wrote to the
  file. Documents are \<open>jdoc\<close> values. Message texts of refusals are not modelled.
\<close>

section \<open>Snapshots\<close>

definition mean_doc :: "mean_stat \<Rightarrow> jdoc" where
  "mean_doc m = DObj [(''mean'', num_doc (ms_mean m)), (''n'', num_doc (real (ms_n m)))]"

definition tokens_doc :: "token_means \<Rightarrow> jdoc" where
  "tokens_doc t =
     DObj [(''n'', num_doc (real (tm_n t))), (''input'', num_doc (tk_input (tm_mean t))),
           (''output'', num_doc (tk_output (tm_mean t))), (''reasoning'', num_doc (tk_reasoning (tm_mean t))),
           (''cacheRead'', num_doc (tk_cacheRead (tm_mean t))), (''cacheWrite'', num_doc (tk_cacheWrite (tm_mean t)))]"

definition counts_doc :: "outcome_counts \<Rightarrow> jdoc" where
  "counts_doc c =
     DObj [(''pass'', num_doc (of_int (oc_pass c))), (''fail'', num_doc (of_int (oc_fail c))),
           (''falseRefusals'', num_doc (of_int (oc_falseRefusals c))),
           (''variantPass'', num_doc (of_int (oc_variantPass c))), (''variantFail'', num_doc (of_int (oc_variantFail c)))]"

definition cost_doc :: "cost_stats \<Rightarrow> jdoc" where
  "cost_doc c =
     DObj [(''measuredUSD'', mean_doc (co_measuredUSD c)), (''unpricedAttempts'', num_doc (real (co_unpricedAttempts c))),
           (''tokens'', tokens_doc (co_tokens c)), (''steps'', mean_doc (co_steps c)),
           (''finalMessageTokens'', mean_doc (co_finalMessageTokens c))]"

definition entrySnapshot :: "entry \<Rightarrow> jdoc" where
  "entrySnapshot e =
     DObj [(''beta'', DObj [(''alpha'', num_doc (be_alpha (en_beta e))), (''beta'', num_doc (be_beta (en_beta e))),
                            (''updatedAt'', num_doc (be_updatedAt (en_beta e)))]),
           (''counts'', counts_doc (en_counts e)), (''cost'', cost_doc (en_cost e))]"

definition OUTCOMES_SCHEMA_ID :: string where "OUTCOMES_SCHEMA_ID = ''opencode-model-router.outcomes''"
definition OUTCOMES_SCHEMA_VERSION :: real where "OUTCOMES_SCHEMA_VERSION = 1"

definition store_keys :: "outcome_store \<Rightarrow> string list" where
  "store_keys st = sort (map fst (os_entries st))"

definition snapshot :: "outcome_store \<Rightarrow> jdoc" where
  "snapshot st =
     DObj [(''version'', num_doc OUTCOMES_SCHEMA_VERSION),
           (''entries'', DObj (map (\<lambda>k. (k, entrySnapshot (the (map_get (os_entries st) k)))) (store_keys st)))]"

section \<open>Reading entries\<close>

definition readMean :: "jdoc \<Rightarrow> mean_stat option" where
  "readMean x =
     (case as_obj x of None \<Rightarrow> None
      | Some fs \<Rightarrow> (case (field_as fs ''mean'' isNonNegFinite, field_as fs ''n'' isCount) of
                      (Some m, Some n) \<Rightarrow> Some \<lparr>ms_mean = m, ms_n = n\<rparr> | _ \<Rightarrow> None))"

definition readTokenMeans :: "jdoc \<Rightarrow> token_means option" where
  "readTokenMeans x =
     (case as_obj x of None \<Rightarrow> None
      | Some fs \<Rightarrow>
          (let num = (\<lambda>k. field_as fs k isNonNegFinite) in
           case (field_as fs ''n'' isCount, num ''input'', num ''output'', num ''reasoning'', num ''cacheRead'', num ''cacheWrite'') of
             (Some n, Some i, Some out, Some r, Some cr, Some cw) \<Rightarrow>
               Some \<lparr>tm_n = n, tm_mean = \<lparr>tk_input = i, tk_output = out, tk_reasoning = r, tk_cacheRead = cr, tk_cacheWrite = cw\<rparr>\<rparr>
           | _ \<Rightarrow> None))"

definition readCounts :: "jdoc \<Rightarrow> outcome_counts option" where
  "readCounts x =
     (case as_obj x of None \<Rightarrow> None
      | Some fs \<Rightarrow>
          (let num = (\<lambda>k. map_option int (field_as fs k isCount)) in
           case (num ''pass'', num ''fail'', num ''falseRefusals'', num ''variantPass'', num ''variantFail'') of
             (Some p, Some f, Some r, Some vp, Some vf) \<Rightarrow>
               Some \<lparr>oc_pass = p, oc_fail = f, oc_falseRefusals = r, oc_variantPass = vp, oc_variantFail = vf\<rparr>
           | _ \<Rightarrow> None))"

definition readCost :: "jdoc \<Rightarrow> cost_stats option" where
  "readCost x =
     (case as_obj x of None \<Rightarrow> None
      | Some fs \<Rightarrow>
          (case (field_as fs ''unpricedAttempts'' isCount, field_as fs ''measuredUSD'' readMean, field_as fs ''tokens'' readTokenMeans,
                 field_as fs ''steps'' readMean, field_as fs ''finalMessageTokens'' readMean) of
             (Some u, Some m, Some t, Some s, Some f) \<Rightarrow>
               Some \<lparr>co_measuredUSD = m, co_unpricedAttempts = u, co_tokens = t, co_steps = s, co_finalMessageTokens = f\<rparr>
           | _ \<Rightarrow> None))"

definition readBeta :: "jdoc \<Rightarrow> beta_state option" where
  "readBeta x =
     (case as_obj x of None \<Rightarrow> None
      | Some fs \<Rightarrow>
          (case (field_as fs ''alpha'' isNonNegFinite, field_as fs ''beta'' isNonNegFinite, field_as fs ''updatedAt'' isFiniteNum) of
             (Some a, Some b, Some u) \<Rightarrow> Some \<lparr>be_alpha = a, be_beta = b, be_updatedAt = u\<rparr>
           | _ \<Rightarrow> None))"

definition readEntry :: "string \<Rightarrow> jdoc \<Rightarrow> entry option" where
  "readEntry key v =
     (case (parseKey key, as_obj v) of
        (Some parts, Some fs) \<Rightarrow>
          (case (field_as fs ''beta'' readBeta, field_as fs ''counts'' readCounts, field_as fs ''cost'' readCost) of
             (Some b, Some c, Some k) \<Rightarrow> Some \<lparr>en_cls = kp_cls parts, en_beta = b, en_counts = c, en_cost = k\<rparr>
           | _ \<Rightarrow> None)
      | _ \<Rightarrow> None)"

section \<open>Parsing the file\<close>

datatype parse_failure = UnsupportedVersion | Corrupt

definition valid_entries :: "(string \<times> jdoc) list \<Rightarrow> (string \<times> entry) list" where
  "valid_entries fs = List.map_filter (\<lambda>(k, v). map_option (Pair k) (readEntry k v)) fs"

definition entries_field :: "(string \<times> jdoc) list \<Rightarrow> (string \<times> jdoc) list option" where
  "entries_field fs = field_as fs ''entries'' as_obj"

text \<open>The failure, or the sorted valid entries and the number dropped.\<close>

definition parseSnapshot :: "jdoc \<Rightarrow> parse_failure + (string \<times> jdoc) list \<times> nat" where
  "parseSnapshot json =
     (case as_obj json of None \<Rightarrow> Inl UnsupportedVersion
      | Some fs \<Rightarrow>
          (if map_of fs ''schema'' \<noteq> Some (DStr OUTCOMES_SCHEMA_ID) then Inl UnsupportedVersion
           else (case field_as fs ''version'' isFiniteNum of
             None \<Rightarrow> Inl UnsupportedVersion
           | Some v \<Rightarrow>
               (if v \<noteq> of_int \<lfloor>v\<rfloor> then Inl UnsupportedVersion
                else if OUTCOMES_SCHEMA_VERSION < v then Inl UnsupportedVersion
                else if v < 1 then Inl Corrupt
                else (case entries_field fs of
                  None \<Rightarrow> Inl Corrupt
                | Some es \<Rightarrow> (let valid = valid_entries es in
                     Inr (sort_key fst (map (\<lambda>(k, e). (k, entrySnapshot e)) valid), length es - length valid)))))))"

section \<open>Loading\<close>

definition addCounts :: "outcome_counts \<Rightarrow> outcome_counts \<Rightarrow> outcome_counts" where
  "addCounts a b =
     \<lparr>oc_pass = oc_pass a + oc_pass b, oc_fail = oc_fail a + oc_fail b, oc_falseRefusals = oc_falseRefusals a + oc_falseRefusals b,
      oc_variantPass = oc_variantPass a + oc_variantPass b, oc_variantFail = oc_variantFail a + oc_variantFail b\<rparr>"

definition absorb :: "outcome_tuning \<Rightarrow> real \<Rightarrow> string \<times> entry \<Rightarrow> (string, entry) jsmap \<Rightarrow> (string, entry) jsmap" where
  "absorb tun t ke es =
     (case ke of (key, e) \<Rightarrow>
        (let inc = (if t < be_updatedAt (en_beta e) then e\<lparr>en_beta := (en_beta e)\<lparr>be_updatedAt := t\<rparr>\<rparr> else e) in
         case map_get es key of
           None \<Rightarrow> map_set key inc es
         | Some live \<Rightarrow> map_set key (live\<lparr>en_beta := mergeBeta (en_beta live) (en_beta inc) (Fin t) tun,
                           en_counts := addCounts (en_counts live) (en_counts inc),
                           en_cost := mergeCostStats (en_cost live) (en_cost inc)\<rparr>) es))"

definition entries_of :: "jdoc \<Rightarrow> (string \<times> jdoc) list" where
  "entries_of doc = or_else (Option.bind (as_obj doc) entries_field) []"

text \<open>\<open>replace\<close>: whether the mode is \<^verbatim>\<open>replace\<close>. The report is (accepted, dropped).\<close>

definition fromSnapshot :: "bool \<Rightarrow> jdoc \<Rightarrow> real \<Rightarrow> outcome_store \<Rightarrow> (nat \<times> nat) \<times> outcome_store" where
  "fromSnapshot replace doc t st =
     (let src = entries_of doc; accepted = valid_entries src; had = os_entries st \<noteq> [];
          es = fold (absorb (os_tuning st) t) accepted (if replace then [] else os_entries st);
          st' = st\<lparr>os_entries := es\<rparr>
      in ((length accepted, length src - length accepted),
          if accepted \<noteq> [] \<or> replace \<and> had then bump st' else st'))"

section \<open>Merging what another process wrote\<close>

definition mean_of_three :: "real \<Rightarrow> real \<Rightarrow> real \<Rightarrow> nat \<Rightarrow> nat \<Rightarrow> nat \<Rightarrow> real" where
  "mean_of_three l d b nl nd nb = max 0 ((l * real nl + d * real nd - b * real nb) / (real nl + real nd - real nb))"

definition mergeMean3 :: "mean_stat \<Rightarrow> mean_stat \<Rightarrow> mean_stat \<Rightarrow> mean_stat" where
  "mergeMean3 live disk base =
     (if ms_n live + ms_n disk \<le> ms_n base then \<lparr>ms_mean = 0, ms_n = 0\<rparr>
      else \<lparr>ms_mean = mean_of_three (ms_mean live) (ms_mean disk) (ms_mean base) (ms_n live) (ms_n disk) (ms_n base),
            ms_n = ms_n live + ms_n disk - ms_n base\<rparr>)"

definition mergeTokens3 :: "token_means \<Rightarrow> token_means \<Rightarrow> token_means \<Rightarrow> token_means" where
  "mergeTokens3 live disk base =
     (if tm_n live + tm_n disk \<le> tm_n base then emptyTokenMeans
      else (let part = (\<lambda>f. mean_of_three (f (tm_mean live)) (f (tm_mean disk)) (f (tm_mean base)) (tm_n live) (tm_n disk) (tm_n base))
            in \<lparr>tm_n = tm_n live + tm_n disk - tm_n base,
                tm_mean = \<lparr>tk_input = part tk_input, tk_output = part tk_output, tk_reasoning = part tk_reasoning,
                           tk_cacheRead = part tk_cacheRead, tk_cacheWrite = part tk_cacheWrite\<rparr>\<rparr>))"

definition NO_BETA :: beta_state where "NO_BETA = \<lparr>be_alpha = 0, be_beta = 0, be_updatedAt = 0\<rparr>"

definition merge_beta3 :: "beta_state option \<Rightarrow> beta_state \<Rightarrow> beta_state \<Rightarrow> real \<Rightarrow> outcome_tuning \<Rightarrow> beta_state" where
  "merge_beta3 live disk base now tun =
     (let l = or_else live NO_BETA; newest = max (max (be_updatedAt l) (be_updatedAt disk)) (be_updatedAt base);
          t = (if DAY_MS < newest - now then now else max newest now);
          dl = (case live of None \<Rightarrow> \<lparr>be_alpha = 0, be_beta = 0, be_updatedAt = t\<rparr> | Some b \<Rightarrow> decayTo b (Fin t) tun);
          dd = decayTo disk (Fin t) tun; db = decayTo base (Fin t) tun;
          alpha = max 0 (be_alpha dl + be_alpha dd - be_alpha db); beta = max 0 (be_beta dl + be_beta dd - be_beta db)
      in capEvidence (if alpha + beta < MIN_TINY then \<lparr>be_alpha = 0, be_beta = 0, be_updatedAt = t\<rparr>
                      else \<lparr>be_alpha = alpha, be_beta = beta, be_updatedAt = t\<rparr>) (ot_maxEffectiveSamples tun))"

definition merge_counts3 :: "outcome_counts \<Rightarrow> outcome_counts \<Rightarrow> outcome_counts \<Rightarrow> outcome_counts" where
  "merge_counts3 l d b =
     (let part = (\<lambda>f. max 0 (f l + f d - f b)) in
      \<lparr>oc_pass = part oc_pass, oc_fail = part oc_fail, oc_falseRefusals = part oc_falseRefusals,
       oc_variantPass = part oc_variantPass, oc_variantFail = part oc_variantFail\<rparr>)"

definition mergeDescendant :: "entry option \<Rightarrow> entry \<Rightarrow> entry \<Rightarrow> real \<Rightarrow> outcome_tuning \<Rightarrow> entry" where
  "mergeDescendant live disk base now tun =
     (let lk = or_else (map_option en_cost live) EMPTY_COST; dk = en_cost disk; bk = en_cost base in
      \<lparr>en_cls = en_cls disk, en_beta = merge_beta3 (map_option en_beta live) (en_beta disk) (en_beta base) now tun,
       en_counts = merge_counts3 (or_else (map_option en_counts live) ZERO_COUNTS) (en_counts disk) (en_counts base),
       en_cost = \<lparr>co_measuredUSD = mergeMean3 (co_measuredUSD lk) (co_measuredUSD dk) (co_measuredUSD bk),
                  co_unpricedAttempts = co_unpricedAttempts lk + co_unpricedAttempts dk - co_unpricedAttempts bk,
                  co_tokens = mergeTokens3 (co_tokens lk) (co_tokens dk) (co_tokens bk),
                  co_steps = mergeMean3 (co_steps lk) (co_steps dk) (co_steps bk),
                  co_finalMessageTokens = mergeMean3 (co_finalMessageTokens lk) (co_finalMessageTokens dk) (co_finalMessageTokens bk)\<rparr>\<rparr>)"

text \<open>The counters and sample counts of an entry.\<close>

definition tallies :: "entry \<Rightarrow> int list" where
  "tallies e =
     (let c = en_counts e; k = en_cost e in
      [oc_pass c, oc_fail c, oc_falseRefusals c, oc_variantPass c, oc_variantFail c, int (co_unpricedAttempts k),
       int (ms_n (co_measuredUSD k)), int (tm_n (co_tokens k)), int (ms_n (co_steps k)), int (ms_n (co_finalMessageTokens k))])"

definition descendsFrom :: "entry \<Rightarrow> entry \<Rightarrow> bool" where
  "descendsFrom disk base \<longleftrightarrow> list_all2 (\<le>) (tallies base) (tallies disk)"

definition grewSince :: "entry \<Rightarrow> entry \<Rightarrow> bool" where
  "grewSince disk base \<longleftrightarrow> tallies disk \<noteq> tallies base"

text \<open>One disk entry: the state, the accepted and the dropped.\<close>

definition foreign_step :: "outcome_tuning \<Rightarrow> real \<Rightarrow> (string \<times> jdoc) list \<Rightarrow> string \<times> jdoc \<Rightarrow>
    (string, entry) jsmap \<times> nat \<times> nat \<Rightarrow> (string, entry) jsmap \<times> nat \<times> nat" where
  "foreign_step tun t baseEntries kv acc =
     (case (kv, acc) of ((key, v), (es, accepted, dropped)) \<Rightarrow>
        (case readEntry key v of
           None \<Rightarrow> (es, accepted, dropped + 1)
         | Some current \<Rightarrow>
             (case field_as baseEntries key (readEntry key) of
                None \<Rightarrow> (absorb tun t (key, current) es, accepted + 1, dropped)
              | Some base \<Rightarrow>
                  (if \<not> descendsFrom current base then (absorb tun t (key, current) es, accepted + 1, dropped)
                   else if grewSince current base
                   then (map_set key (mergeDescendant (map_get es key) current base t tun) es, accepted + 1, dropped)
                   else (es, accepted, dropped)))))"

definition mergeForeign :: "jdoc \<Rightarrow> jdoc \<Rightarrow> real \<Rightarrow> outcome_store \<Rightarrow> (nat \<times> nat) \<times> outcome_store" where
  "mergeForeign disk baseline t st =
     (let (es, accepted, dropped) = fold (foreign_step (os_tuning st) t (entries_of baseline)) (entries_of disk) (os_entries st, 0, 0);
          st' = st\<lparr>os_entries := es\<rparr>
      in ((accepted, dropped), if 0 < accepted then bump st' else st'))"

end
