(* ===== verification/Store_Inv.thy ===== *)
theory Store_Inv
  imports Outcome_Sync
begin

text \<open>
  The invariant of the outcome store and its preservation by every operation, in any order and with any
  readings of the clock: keys are well formed, evidence, counters and costs are never negative and the
  three bounded maps stay within their limits.
\<close>

section \<open>The invariant\<close>

definition counts_nonneg :: "outcome_counts \<Rightarrow> bool" where
  "counts_nonneg c \<longleftrightarrow> 0 \<le> oc_pass c \<and> 0 \<le> oc_fail c \<and> 0 \<le> oc_falseRefusals c \<and> 0 \<le> oc_variantPass c \<and> 0 \<le> oc_variantFail c"

definition entry_ok :: "string \<times> entry \<Rightarrow> bool" where
  "entry_ok p \<longleftrightarrow> map_option kp_cls (parseKey (fst p)) = Some (en_cls (snd p)) \<and> beta_nonneg (en_beta (snd p)) \<and>
     counts_nonneg (en_counts (snd p)) \<and> stats_nonneg (en_cost (snd p))"

definition attempt_ok :: "string \<times> open_attempt \<Rightarrow> bool" where
  "attempt_ok p \<longleftrightarrow> 0 \<le> oa_usd (snd p) \<and> tokens_nonneg (oa_tokens (snd p)) \<and> 0 \<le> or_else (oa_finalOutput (snd p)) 0"

definition scored_ok :: "string \<times> scored_info \<Rightarrow> bool" where
  "scored_ok p \<longleftrightarrow> 0 < or_else (sc_weight (snd p)) 1 \<and> or_else (sc_weight (snd p)) 1 \<le> 1"

definition map_ok :: "('k \<times> 'v \<Rightarrow> bool) \<Rightarrow> ('k, 'v) jsmap \<Rightarrow> bool" where
  "map_ok P m \<longleftrightarrow> wf_map m \<and> (\<forall>p\<in>set m. P p)"

definition store_ok :: "outcome_store \<Rightarrow> bool" where
  "store_ok st \<longleftrightarrow> tuning_ok (os_tuning st) \<and> map_ok entry_ok (os_entries st) \<and> map_ok attempt_ok (os_open st) \<and>
     map_ok scored_ok (os_scored st) \<and> wf_map (os_closed st) \<and> 0 < os_maxOpen st \<and> 0 < os_maxScored st \<and>
     length (os_open st) \<le> os_maxOpen st \<and> length (os_scored st) \<le> os_maxScored st \<and> length (os_closed st) \<le> os_maxScored st"

section \<open>Maps\<close>

lemma map_ok_set [intro]: "map_ok P m \<Longrightarrow> P (k, v) \<Longrightarrow> map_ok P (map_set k v m)"
  using set_map_set [of k v m] by (auto simp: map_ok_def jm.wf_put)

lemma map_ok_delete [intro]: "map_ok P m \<Longrightarrow> map_ok P (map_delete k m)"
  using set_map_delete [of k m] by (auto simp: map_ok_def jm.wf_del)

lemma map_ok_remember [intro]: "map_ok P m \<Longrightarrow> P (k, v) \<Longrightarrow> map_ok P (remember k v mx m)"
  using set_remember [of k v mx m] by (auto simp: map_ok_def wf_remember)

lemma map_ok_get: "map_ok P m \<Longrightarrow> map_get m k = Some v \<Longrightarrow> P (k, v)"
  by (auto simp: map_ok_def dest: map_of_SomeD)

lemma map_ok_Nil [simp]: "map_ok P []"
  by (simp add: map_ok_def)

lemma length_delete_present: "wf_map m \<Longrightarrow> map_get m k \<noteq> None \<Longrightarrow> length (map_delete k m) < length m"
  using jm.length_refresh_present [of m k] by (simp add: refresh_append jm.keys_refresh map_keys_delete [symmetric])

lemma length_delete_le: "length (map_delete k m) \<le> length m"
  by (simp add: map_delete_def)

section \<open>Cost statistics stay non-negative\<close>

lemma weighted_nonneg:
  fixes m x :: real
  assumes "0 \<le> m" "0 \<le> x" "0 \<le> w" "w \<le> 1"
  shows "0 \<le> m + (x - m) * w"
proof -
  have "m + (x - m) * w = m * (1 - w) + x * w" by (simp add: algebra_simps)
  with assms show ?thesis by simp
qed

lemma mean_weight_bounds: "0 < n \<Longrightarrow> 0 \<le> mean_weight n cap \<and> mean_weight n cap \<le> 1"
  by (simp add: mean_weight_def)

lemma updateMean_nonneg: "0 \<le> ms_mean s \<Longrightarrow> 0 \<le> x \<Longrightarrow> 0 \<le> ms_mean (updateMean s x cap)"
  using mean_weight_bounds [of "ms_n s + 1" cap] by (simp add: updateMean_def Let_def weighted_nonneg)

lemma updateTokens_nonneg:
  "tokens_nonneg (tm_mean t) \<Longrightarrow> tokens_nonneg s \<Longrightarrow> tokens_nonneg (tm_mean (updateTokenMeans t s cap))"
  using mean_weight_bounds [of "tm_n t + 1" cap]
  by (simp add: updateTokenMeans_def Let_def tokens_nonneg_def zip_tokens_def weighted_nonneg)

lemma fold_attempt_nonneg: "stats_nonneg s \<Longrightarrow> attempt_ok (k, a) \<Longrightarrow> stats_nonneg (foldAttempt s a cap)"
  by (auto simp: stats_nonneg_def attempt_ok_def foldAttempt_def Let_def updateTokens_nonneg split: option.split
      intro!: updateMean_nonneg)

lemma mergeMean_nonneg: "0 \<le> ms_mean a \<Longrightarrow> 0 \<le> ms_mean b \<Longrightarrow> 0 \<le> ms_mean (mergeMean a b)"
  by (simp add: mergeMean_def Let_def)

lemma mergeTokens_nonneg:
  "tokens_nonneg (tm_mean a) \<Longrightarrow> tokens_nonneg (tm_mean b) \<Longrightarrow> tokens_nonneg (tm_mean (mergeTokenMeans a b))"
  by (simp add: mergeTokenMeans_def Let_def tokens_nonneg_def zip_tokens_def emptyTokenMeans_def emptyTokenSample_def)

lemma merge_stats_nonneg: "stats_nonneg a \<Longrightarrow> stats_nonneg b \<Longrightarrow> stats_nonneg (mergeCostStats a b)"
  by (simp add: stats_nonneg_def mergeCostStats_def mergeMean_nonneg mergeTokens_nonneg)

lemma merge3_nonneg: "0 \<le> ms_mean (mergeMean3 a b c)" "tokens_nonneg (tm_mean (mergeTokens3 x y z))"
  by (simp_all add: mergeMean3_def mergeTokens3_def mean_of_three_def tokens_nonneg_def Let_def emptyTokenMeans_def emptyTokenSample_def)

lemma clean_nonneg: "tokens_nonneg (cleanTokenSample t)"
proof -
  have "0 \<le> nonNegativeOrZero x" for x
    by (cases x) (simp_all add: nonNegativeOrZero_def)
  then show ?thesis by (simp add: cleanTokenSample_def tokens_nonneg_def)
qed

lemma stepUSD_nonneg: "stepUSD c p = Some u \<Longrightarrow> 0 \<le> u"
  by (cases c) (auto simp: stepUSD_def split: if_splits pricing_state.splits)

section \<open>Parts of an operation\<close>

lemma entry_ok_new: "parseKey key = Some p \<Longrightarrow> entry_ok (key, new_entry (kp_cls p) tn)"
  by (simp add: entry_ok_def new_entry_def beta_nonneg_def counts_nonneg_def ZERO_COUNTS_def stats_nonneg_def tokens_nonneg_def
      EMPTY_COST_def emptyCostStats_def emptyMeanStat_def emptyTokenMeans_def emptyTokenSample_def)

lemma entryFor_ok:
  assumes "entryFor key tn es = Some (e, es')" "map_ok entry_ok es"
  shows "map_ok entry_ok es'" "entry_ok (key, e)"
  using assms by (auto simp: entryFor_def Let_def entry_ok_new split: option.splits dest: map_ok_get)

lemma bump_ok [simp]: "store_ok (bump st) = store_ok st"
  by (simp add: store_ok_def bump_def)

lemma put_entry_ok: "store_ok st \<Longrightarrow> map_ok entry_ok es \<Longrightarrow> entry_ok (key, e) \<Longrightarrow> store_ok (put_entry key e es st)"
  by (auto simp: store_ok_def put_entry_def)

lemma keep_scored_ok: "store_ok st \<Longrightarrow> scored_ok (aid, info) \<Longrightarrow> store_ok (keep_scored aid info st)"
  using map_ok_remember [of scored_ok "os_scored st" aid info "os_maxScored st"]
  by (simp add: store_ok_def keep_scored_def map_ok_def length_remember)

lemma store_ok_parts:
  assumes "store_ok st"
  shows "tuning_ok (os_tuning st)" "map_ok entry_ok (os_entries st)" "map_ok attempt_ok (os_open st)" "map_ok scored_ok (os_scored st)"
    "length (os_open st) \<le> os_maxOpen st" "wf_map (os_open st)" "wf_map (os_closed st)"
  using assms by (simp_all add: store_ok_def map_ok_def)

lemma entry_ok_parts:
  assumes "entry_ok (key, e)"
  shows "beta_nonneg (en_beta e)" "counts_nonneg (en_counts e)" "stats_nonneg (en_cost e)"
  using assms by (simp_all add: entry_ok_def)

lemma b2i_bounds [simp]: "0 \<le> b2i b" "b2i b \<le> 1"
  by (simp_all add: b2i_def)

section \<open>Verdicts and refusals\<close>

text \<open>The one branch of a verdict that scores.\<close>

lemma recordVerdict_scores:
  assumes "v \<noteq> VUnverifiable" "usable_weight weight = Some w" "map_get (os_scored st) aid = None"
    "entryFor key tn (os_entries st) = Some (e, es)"
  obtains e' info where "recordVerdict key v aid step weight tn t st = (True, bump (keep_scored aid info (put_entry key e' es st)))"
    "en_beta e' = observe (Some (en_beta e)) (v = VPass) (Fin t) (os_tuning st) weight" "en_cls e' = en_cls e" "en_cost e' = en_cost e"
    "en_counts e' = \<lparr>oc_pass = oc_pass (en_counts e) + b2i (v = VPass), oc_fail = oc_fail (en_counts e) + b2i (v \<noteq> VPass),
       oc_falseRefusals = oc_falseRefusals (en_counts e),
       oc_variantPass = oc_variantPass (en_counts e) + b2i (step = StepVariant \<and> v = VPass),
       oc_variantFail = oc_variantFail (en_counts e) + b2i (step = StepVariant \<and> v \<noteq> VPass)\<rparr>"
    "info = \<lparr>sc_key = key, sc_kind = (if v = VPass then ScPass else ScFail), sc_at = t, sc_variant = (step = StepVariant),
       sc_weight = (if w = 1 then None else Some w)\<rparr>"
  by (rule that, insert assms, simp only: recordVerdict_def Let_def option.case prod.case if_False) simp_all

lemma recordVerdict_ok:
  assumes "store_ok st"
  shows "store_ok (snd (recordVerdict key v aid step weight tn t st))"
proof (cases "v = VUnverifiable \<or> usable_weight weight = None \<or> entryFor key tn (os_entries st) = None \<or> map_get (os_scored st) aid \<noteq> None")
  case True
  have "scored_ok (aid, p)" if "map_get (os_scored st) aid = Some p" for p
    by (rule map_ok_get [OF store_ok_parts(4) [OF assms] that])
  with True assms show ?thesis
    by (auto simp: recordVerdict_def intro: keep_scored_ok split: option.split)
next
  case False
  then obtain w e es where w: "usable_weight weight = Some w" and e: "entryFor key tn (os_entries st) = Some (e, es)"
    by auto
  note eok = entryFor_ok [OF e store_ok_parts(2) [OF assms]]
  obtain e' info where r: "recordVerdict key v aid step weight tn t st = (True, bump (keep_scored aid info (put_entry key e' es st)))"
    "en_beta e' = observe (Some (en_beta e)) (v = VPass) (Fin t) (os_tuning st) weight" "en_cls e' = en_cls e" "en_cost e' = en_cost e"
    and c: "counts_nonneg (en_counts e')" and i: "sc_weight info = (if w = 1 then None else Some w)"
    by (rule recordVerdict_scores [OF _ w _ e, of v aid step t])
      (use False entry_ok_parts(2) [OF eok(2)] in \<open>auto simp: counts_nonneg_def\<close>)
  have "beta_nonneg (en_beta e')"
    unfolding r(2) by (rule beta_nonneg_observe [OF store_ok_parts(1) [OF assms] entry_ok_parts(1) [OF eok(2)]])
  with r(3,4) c eok(2) have "entry_ok (key, e')" by (simp add: entry_ok_def)
  moreover have "scored_ok (aid, info)"
    using w i by (auto simp: scored_ok_def usable_weight_def split: jsnum.splits if_splits)
  ultimately show ?thesis
    using assms eok(1) by (simp add: r(1) keep_scored_ok put_entry_ok)
qed

lemma refuse_first_ok:
  assumes "store_ok st" "map_ok entry_ok es" "entry_ok (key, e)"
  shows "store_ok (refuse_first key aid step t e es st)"
  unfolding refuse_first_def Let_def
  using entry_ok_parts [OF assms(3)] assms beta_nonneg_observe [OF store_ok_parts(1) [OF assms(1)], of "en_beta e" False t "Fin 1"]
  by (intro keep_scored_ok put_entry_ok) (simp_all add: scored_ok_def counts_nonneg_def entry_ok_def)

lemma refuse_pass_ok:
  assumes "store_ok st" "map_ok entry_ok es" "entry_ok (key, e)"
  shows "store_ok (refuse_pass key aid previous t e es st)"
proof -
  let ?d = "decayTo (en_beta e) (Fin t) (os_tuning st)"
  have "beta_nonneg (capEvidence \<lparr>be_alpha = max 0 (be_alpha ?d - c), be_beta = be_beta ?d + 1, be_updatedAt = u\<rparr>
      (ot_maxEffectiveSamples (os_tuning st)))" for c u
    using beta_nonneg_decay [OF entry_ok_parts(1) [OF assms(3)], of "Fin t" "os_tuning st"]
    by (intro beta_nonneg_cap [OF store_ok_parts(1) [OF assms(1)]]) (simp add: beta_nonneg_def)
  then show ?thesis
    unfolding refuse_pass_def Let_def
    using entry_ok_parts [OF assms(3)] assms
    by (intro keep_scored_ok put_entry_ok) (simp_all add: scored_ok_def counts_nonneg_def entry_ok_def)
qed

lemma refuse_fail_ok:
  assumes "store_ok st" "map_ok entry_ok es" "entry_ok (key, e)"
  shows "store_ok (refuse_fail key aid previous t e es st)"
proof -
  let ?d = "decayTo (en_beta e) (Fin t) (os_tuning st)"
  have "beta_nonneg (capEvidence (?d\<lparr>be_beta := be_beta ?d + max 0 c\<rparr>) (ot_maxEffectiveSamples (os_tuning st)))" for c
    using beta_nonneg_decay [OF entry_ok_parts(1) [OF assms(3)], of "Fin t" "os_tuning st"]
    by (intro beta_nonneg_cap [OF store_ok_parts(1) [OF assms(1)]]) (simp add: beta_nonneg_def)
  then show ?thesis
    unfolding refuse_fail_def Let_def
    using entry_ok_parts [OF assms(3)] assms
    by (intro keep_scored_ok put_entry_ok) (simp_all add: scored_ok_def counts_nonneg_def entry_ok_def)
qed

lemma recordFalseRefusal_ok:
  assumes "store_ok st"
  shows "store_ok (snd (recordFalseRefusal key aid step tn t st))"
proof (cases "entryFor key tn (os_entries st)")
  case None
  with assms show ?thesis by (simp add: recordFalseRefusal_def)
next
  case (Some p)
  obtain e es where p: "p = (e, es)" by (cases p)
  note eok = entryFor_ok [OF Some [unfolded p] store_ok_parts(2) [OF assms]]
  have sc: "scored_ok (aid, q)" if "map_get (os_scored st) aid = Some q" for q
    by (rule map_ok_get [OF store_ok_parts(4) [OF assms] that])
  have "entry_ok (key, e\<lparr>en_counts := (en_counts e)\<lparr>oc_falseRefusals := oc_falseRefusals (en_counts e) + 1\<rparr>\<rparr>)"
    using eok(2) by (simp add: counts_nonneg_def entry_ok_def)
  with Some p assms eok sc show ?thesis
    by (auto simp: recordFalseRefusal_def Let_def refuse_first_ok refuse_pass_ok refuse_fail_ok
        intro!: keep_scored_ok put_entry_ok split: option.split)
qed

section \<open>Steps and attempts\<close>

lemma open_ok: "store_ok st \<Longrightarrow> map_ok attempt_ok m \<Longrightarrow> length m \<le> os_maxOpen st \<Longrightarrow> store_ok (st\<lparr>os_open := m\<rparr>)"
  by (simp add: store_ok_def)

lemma fold_open_ok:
  assumes "store_ok st" "attempt_ok (k, a)"
  shows "store_ok (fold_open a tn st)"
proof (cases "entryFor (oa_key a) tn (os_entries st)")
  case None
  with assms show ?thesis by (simp add: fold_open_def)
next
  case (Some p)
  obtain e es where p: "p = (e, es)" by (cases p)
  note eok = entryFor_ok [OF Some [unfolded p] store_ok_parts(2) [OF assms(1)]]
  then have "entry_ok (oa_key a, e\<lparr>en_cost := foldAttempt (en_cost e) a (ot_maxEffectiveSamples (os_tuning st))\<rparr>)"
    using assms(2) by (simp add: entry_ok_def fold_attempt_nonneg)
  with Some p eok assms show ?thesis by (simp add: fold_open_def put_entry_ok)
qed

lemma markClosed_ok: "store_ok st \<Longrightarrow> store_ok (markClosed aid st)"
  by (simp add: store_ok_def markClosed_def length_remember wf_remember)

text \<open>Only the map without the closed attempt has to be within its limit.\<close>

lemma close_present_ok:
  assumes "store_ok (st\<lparr>os_open := map_delete aid (os_open st)\<rparr>)" "map_get (os_open st) aid = Some a" "attempt_ok (aid, a)"
  shows "store_ok (closeInternal aid remb tn st)"
  using assms by (simp add: closeInternal_def Let_def markClosed_ok fold_open_ok)

lemma delete_open_ok: "store_ok st \<Longrightarrow> store_ok (st\<lparr>os_open := map_delete aid (os_open st)\<rparr>)"
  using length_delete_le [of aid "os_open st"] by (intro open_ok map_ok_delete) (auto dest: store_ok_parts)

lemma closeInternal_ok:
  assumes "store_ok st"
  shows "store_ok (closeInternal aid remb tn st)"
proof (cases "map_get (os_open st) aid")
  case None
  with assms show ?thesis by (simp add: closeInternal_def)
next
  case (Some a)
  show ?thesis
    by (rule close_present_ok [OF delete_open_ok [OF assms] Some map_ok_get [OF store_ok_parts(3) [OF assms] Some]])
qed

lemma next_open_ok:
  assumes "\<And>a. acc = Some a \<Longrightarrow> attempt_ok (k, a)"
  shows "attempt_ok (j, next_open key acc s t)"
proof -
  have usd: "0 \<le> or_else (stepUSD (ss_cost s) (ss_pricing s)) 0"
    by (cases "stepUSD (ss_cost s) (ss_pricing s)") (auto dest: stepUSD_nonneg)
  have add: "tokens_nonneg a \<Longrightarrow> tokens_nonneg b \<Longrightarrow> tokens_nonneg (addTokens a b)" for a b
    by (simp add: tokens_nonneg_def addTokens_def)
  have out: "0 \<le> tk_output (cleanTokenSample (ss_tokens s))"
    using clean_nonneg [of "ss_tokens s"] by (simp add: tokens_nonneg_def)
  have zero: "tokens_nonneg emptyTokenSample" by (simp add: tokens_nonneg_def emptyTokenSample_def)
  show ?thesis
    using assms usd clean_nonneg out zero
    by (cases acc) (auto simp: next_open_def Let_def attempt_ok_def intro!: add)
qed

lemma recordStep_ok:
  assumes "store_ok st"
  shows "store_ok (recordStep key s tn1 t tn2 st)"
proof (cases "map_get (os_closed st) (ss_attemptID s)")
  case (Some u)
  with assms show ?thesis by (simp add: recordStep_def Let_def)
next
  case None
  let ?aid = "ss_attemptID s"
  define moved where "moved = (case map_get (os_open st) ?aid of None \<Rightarrow> False | Some a \<Rightarrow> oa_key a \<noteq> key)"
  define st1 where "st1 = (if moved then closeInternal ?aid False tn1 st else st)"
  define nxt where "nxt = next_open key (if moved then None else map_get (os_open st) ?aid) s t"
  define st2 where "st2 = st1\<lparr>os_open := map_delete ?aid (os_open st1)\<rparr>"
  define st3 where "st3 = st2\<lparr>os_open := map_set ?aid nxt (os_open st2)\<rparr>"
  have st2: "store_ok st2"
    unfolding st2_def st1_def by (intro delete_open_ok) (simp add: assms closeInternal_ok)
  have nxt: "attempt_ok (j, nxt)" for j
    unfolding nxt_def
    by (rule next_open_ok) (auto split: if_splits dest: map_ok_get [OF store_ok_parts(3) [OF assms]])
  have rs: "recordStep key s tn1 t tn2 st =
      (if ss_final s then markClosed ?aid (fold_open nxt tn2 st2)
       else if os_maxOpen st3 < length (os_open st3)
       then (case os_open st3 of [] \<Rightarrow> st3 | (oldest, _) # _ \<Rightarrow> closeInternal oldest True tn2 st3) else st3)"
    unfolding st3_def st2_def st1_def nxt_def moved_def recordStep_def Let_def
    by (simp only: None simp_thms if_False)
  have open3: "map_ok attempt_ok (os_open st3)"
    using store_ok_parts(3) [OF st2] nxt by (auto simp: st3_def)
  have keep: "store_ok (st3\<lparr>os_open := m\<rparr>)" if "map_ok attempt_ok m" "length m \<le> os_maxOpen st2" for m
    using open_ok [OF st2 that] by (simp add: st3_def)
  show ?thesis
  proof (cases "os_maxOpen st3 < length (os_open st3) \<and> \<not> ss_final s")
    case True
    then obtain oldest a rest where o3: "os_open st3 = (oldest, a) # rest" by (cases "os_open st3") auto
    have "wf_map (os_open st3)" using open3 by (simp add: map_ok_def)
    then have del: "map_delete oldest (os_open st3) = rest" using map_delete_hd [of "(oldest, a)" rest] by (simp add: o3)
    have "length (os_open st3) \<le> Suc (os_maxOpen st2)"
      using length_map_set_le [of ?aid nxt "os_open st2"] store_ok_parts(5) [OF st2] by (simp add: st3_def)
    then have "store_ok (st3\<lparr>os_open := map_delete oldest (os_open st3)\<rparr>)"
      using map_ok_delete [OF open3, of oldest] del o3 by (intro keep) auto
    then have "store_ok (closeInternal oldest True tn2 st3)"
      by (rule close_present_ok [where a = a]) (use open3 in \<open>simp_all add: o3 map_ok_def\<close>)
    with True o3 show ?thesis by (simp add: rs)
  next
    case False
    have "store_ok st3" if "length (os_open st3) \<le> os_maxOpen st3"
      using keep [OF open3] that by (simp add: st3_def)
    with False st2 nxt show ?thesis by (auto simp: rs markClosed_ok fold_open_ok)
  qed
qed

lemma sweep_ok:
  assumes "store_ok st"
  shows "store_ok (snd (sweepAttempts idle t tn st))"
proof -
  have "store_ok (fold (\<lambda>aid s. closeInternal aid True (tn aid) s) ids st)" for ids
    using assms by (induction ids arbitrary: st) (simp_all add: closeInternal_ok)
  then show ?thesis by (simp add: sweepAttempts_def Let_def)
qed

section \<open>Reads, loads and merges\<close>

lemma entries_update_ok: "store_ok st \<Longrightarrow> map_ok entry_ok es \<Longrightarrow> store_ok (st\<lparr>os_entries := es\<rparr>)"
  by (simp add: store_ok_def)

lemma restamped_ok:
  assumes "store_ok st"
  shows "store_ok (restamped key t st)"
proof (cases "map_get (os_entries st) key")
  case None
  with assms show ?thesis by (simp add: restamped_def)
next
  case (Some e)
  then have "entry_ok (key, e)" by (rule map_ok_get [OF store_ok_parts(2) [OF assms]])
  then have "entry_ok (key, e\<lparr>en_beta := (en_beta e)\<lparr>be_updatedAt := t\<rparr>\<rparr>)" by (simp add: entry_ok_def beta_nonneg_def)
  with assms Some show ?thesis by (auto simp: restamped_def intro!: entries_update_ok store_ok_parts)
qed

lemma field_as_Some: "field_as fs k rd = Some x \<Longrightarrow> \<exists>d. map_of fs k = Some d \<and> rd d = Some x"
  by (auto simp: field_as_def bind_eq_Some_conv)

lemma field_non_neg: "field_as fs k isNonNegFinite = Some x \<Longrightarrow> 0 \<le> x"
  by (auto dest!: field_as_Some non_neg_Some)

lemma readMean_ok: "readMean d = Some s \<Longrightarrow> 0 \<le> ms_mean s"
  by (auto simp: readMean_def dest: field_non_neg split: option.splits)

lemma readTokens_ok: "readTokenMeans d = Some s \<Longrightarrow> tokens_nonneg (tm_mean s)"
  by (auto simp: readTokenMeans_def Let_def tokens_nonneg_def dest: field_non_neg split: option.splits)

lemma readCounts_ok: "readCounts d = Some c \<Longrightarrow> counts_nonneg c"
  by (auto simp: readCounts_def Let_def counts_nonneg_def split: option.splits)

lemma readBeta_ok: "readBeta d = Some b \<Longrightarrow> beta_nonneg b"
  by (auto simp: readBeta_def beta_nonneg_def dest: field_non_neg split: option.splits)

lemma readCost_ok: "readCost d = Some c \<Longrightarrow> stats_nonneg c"
  by (auto simp: readCost_def stats_nonneg_def dest!: field_as_Some readMean_ok readTokens_ok split: option.splits)

lemma readEntry_ok: "readEntry k d = Some e \<Longrightarrow> entry_ok (k, e)"
  by (auto simp: readEntry_def entry_ok_def dest!: field_as_Some readBeta_ok readCounts_ok readCost_ok split: option.splits)

lemma counts_nonneg_add: "counts_nonneg a \<Longrightarrow> counts_nonneg b \<Longrightarrow> counts_nonneg (addCounts a b)"
  by (simp add: counts_nonneg_def addCounts_def)

lemma absorb_ok:
  assumes "tuning_ok tun" "map_ok entry_ok es" "entry_ok ke"
  shows "map_ok entry_ok (absorb tun t ke es)"
proof -
  obtain key e where ke: "ke = (key, e)" by (cases ke)
  define inc where "inc = (if t < be_updatedAt (en_beta e) then e\<lparr>en_beta := (en_beta e)\<lparr>be_updatedAt := t\<rparr>\<rparr> else e)"
  have inc: "entry_ok (key, inc)" using assms(3) by (simp add: ke inc_def entry_ok_def beta_nonneg_def)
  show ?thesis
  proof (cases "map_get es key")
    case None
    with inc assms show ?thesis by (auto simp: absorb_def ke Let_def inc_def [symmetric])
  next
    case (Some live)
    have live: "entry_ok (key, live)" by (rule map_ok_get [OF assms(2) Some])
    have "beta_nonneg (mergeBeta (en_beta live) (en_beta inc) (Fin t) tun)"
      using evidence_merge [OF assms(1), of "en_beta live" "en_beta inc" "Fin t"] live inc
      by (auto simp: entry_ok_def beta_nonneg_def evidence_ok_def)
    with live inc have "entry_ok (key, live\<lparr>en_beta := mergeBeta (en_beta live) (en_beta inc) (Fin t) tun,
        en_counts := addCounts (en_counts live) (en_counts inc), en_cost := mergeCostStats (en_cost live) (en_cost inc)\<rparr>)"
      by (simp add: entry_ok_def counts_nonneg_add merge_stats_nonneg)
    with Some assms(2) show ?thesis by (auto simp: absorb_def ke Let_def inc_def [symmetric])
  qed
qed

lemma valid_entries_ok: "p \<in> set (valid_entries fs) \<Longrightarrow> entry_ok p"
  by (auto simp: valid_entries_def List.map_filter_def dest: readEntry_ok)

lemma fromSnapshot_ok:
  assumes "store_ok st"
  shows "store_ok (snd (fromSnapshot replace doc t st))"
proof -
  have "map_ok entry_ok (fold (absorb (os_tuning st) t) ps es)"
    if "\<forall>p\<in>set ps. entry_ok p" "map_ok entry_ok es" for ps es
    using that by (induction ps arbitrary: es) (simp_all add: absorb_ok [OF store_ok_parts(1) [OF assms]])
  then have "map_ok entry_ok (fold (absorb (os_tuning st) t) (valid_entries fs) (if replace then [] else os_entries st))" for fs
    using store_ok_parts(2) [OF assms] by (simp add: valid_entries_ok)
  with assms show ?thesis by (simp add: fromSnapshot_def Let_def entries_update_ok)
qed

text \<open>The local definitions of \<open>merge_beta3\<close> one at a time: unfolding them all repeats them many times over.\<close>

lemma beta_nonneg_let: "(\<And>x. x = t \<Longrightarrow> beta_nonneg (f x)) \<Longrightarrow> beta_nonneg (let x = t in f x)"
  by simp

lemma merge_beta3_ok: "tuning_ok tun \<Longrightarrow> beta_nonneg (merge_beta3 l d b now tun)"
  unfolding merge_beta3_def
  apply (intro beta_nonneg_let beta_nonneg_cap, assumption)
  subgoal premises prems for l0 newest t dl dd db alpha beta
    using prems(8,9) by (simp add: beta_nonneg_def)
  done

lemma mergeDescendant_ok:
  "tuning_ok tun \<Longrightarrow> entry_ok (key, disk) \<Longrightarrow> entry_ok (key, mergeDescendant live disk base now tun)"
  by (simp add: entry_ok_def mergeDescendant_def Let_def merge_beta3_ok counts_nonneg_def merge_counts3_def stats_nonneg_def merge3_nonneg)

lemma foreign_step_ok:
  assumes "tuning_ok tun" "map_ok entry_ok (fst acc)"
  shows "map_ok entry_ok (fst (foreign_step tun t bs kv acc))"
proof -
  obtain key v es n d where [simp]: "kv = (key, v)" "acc = (es, n, d)" by (cases kv, cases acc)
  show ?thesis
  proof (cases "readEntry key v")
    case None
    with assms show ?thesis by (simp add: foreign_step_def)
  next
    case (Some current)
    note ok = readEntry_ok [OF Some]
    from assms Some show ?thesis
      by (auto simp: foreign_step_def intro!: absorb_ok map_ok_set mergeDescendant_ok ok split: option.split)
  qed
qed

lemma mergeForeign_ok:
  assumes "store_ok st"
  shows "store_ok (snd (mergeForeign disk base t st))"
proof -
  have "map_ok entry_ok (fst (fold (foreign_step (os_tuning st) t bs) ps acc))" if "map_ok entry_ok (fst acc)" for ps bs acc
    using that by (induction ps arbitrary: acc) (simp_all add: foreign_step_ok [OF store_ok_parts(1) [OF assms]])
  from this [of "(os_entries st, 0, 0)"] store_ok_parts(2) [OF assms]
  have "map_ok entry_ok (fst (fold (foreign_step (os_tuning st) t bs) ps (os_entries st, 0, 0)))" for bs ps
    by simp
  then show ?thesis
    using entries_update_ok [OF assms] by (simp add: mergeForeign_def Let_def split_beta)
qed

lemma configure_ok: "store_ok st \<Longrightarrow> store_ok (configure half cap st)"
  by (simp add: store_ok_def configure_def sanitized_ok)

lemma create_ok: "store_ok (createOutcomeStore half cap mo ms)"
  by (auto simp: store_ok_def createOutcomeStore_def sanitized_ok limit_of_def split: option.split)

end
