(* ===== verification/Store_Spec.thy ===== *)
theory Store_Spec
  imports Store_Inv
begin

text \<open>
  Properties of the outcome store over arbitrary sequences of its operations: the invariant, one score per
  attempt, the correction of a pass by a false refusal.
\<close>

section \<open>Histories\<close>

datatype store_op =
    OpConfigure "jsnum option" "jsnum option"
  | OpVerdict string verdict string step_kind jsnum real real
  | OpRefusal string string step_kind real real
  | OpStep string step_sample real real real
  | OpClose string real
  | OpSweep real real "string \<Rightarrow> real"
  | OpPosterior string beta_prior real
  | OpLoad bool jdoc real
  | OpMerge jdoc jdoc real

fun apply_op :: "store_op \<Rightarrow> outcome_store \<Rightarrow> outcome_store" where
  "apply_op (OpConfigure half cap) st = configure half cap st"
| "apply_op (OpVerdict key v aid step w tn t) st = snd (recordVerdict key v aid step w tn t st)"
| "apply_op (OpRefusal key aid step tn t) st = snd (recordFalseRefusal key aid step tn t st)"
| "apply_op (OpStep key s tn1 t tn2) st = recordStep key s tn1 t tn2 st"
| "apply_op (OpClose aid tn) st = closeAttempt aid tn st"
| "apply_op (OpSweep idle t tn) st = snd (sweepAttempts idle t tn st)"
| "apply_op (OpPosterior key prior t) st = snd (store_posterior key prior t st)"
| "apply_op (OpLoad replace doc t) st = snd (fromSnapshot replace doc t st)"
| "apply_op (OpMerge disk baseline t) st = snd (mergeForeign disk baseline t st)"

lemma apply_op_ok: "store_ok st \<Longrightarrow> store_ok (apply_op op st)"
  by (cases op) (simp_all add: configure_ok recordVerdict_ok recordFalseRefusal_ok recordStep_ok closeAttempt_def closeInternal_ok
      sweep_ok store_posterior_def Let_def restamped_ok fromSnapshot_ok mergeForeign_ok)

definition store_after :: "store_op list \<Rightarrow> outcome_store \<Rightarrow> outcome_store" where
  "store_after ops st = fold apply_op ops st"

lemma store_after_ok: "store_ok st \<Longrightarrow> store_ok (store_after ops st)"
  by (induction ops arbitrary: st) (simp_all add: store_after_def apply_op_ok)

lemma posterior_in_bounds:
  assumes "store_ok st"
  shows "0 < po_mean (fst (store_posterior key prior t st))" "po_mean (fst (store_posterior key prior t st)) < 1"
    "0 \<le> po_n (fst (store_posterior key prior t st))"
    "po_n (fst (store_posterior key prior t st)) \<le> ot_maxEffectiveSamples (os_tuning (restamped key t st))"
proof -
  note ok = restamped_ok [OF assms, of key t]
  have nn: "beta_nonneg b" if "map_option en_beta (map_get (os_entries (restamped key t st)) key) = Some b" for b
    using that by (auto dest!: map_ok_get [OF store_ok_parts(2) [OF ok]] entry_ok_parts(1))
  note pb = posterior_bounds [OF store_ok_parts(1) [OF ok] nn]
  show "0 < po_mean (fst (store_posterior key prior t st))" "po_mean (fst (store_posterior key prior t st)) < 1"
    "0 \<le> po_n (fst (store_posterior key prior t st))"
    "po_n (fst (store_posterior key prior t st)) \<le> ot_maxEffectiveSamples (os_tuning (restamped key t st))"
    by (simp_all add: store_posterior_def Let_def pb)
qed

lemma cost_nonneg: "store_ok st \<Longrightarrow> stats_nonneg (store_cost key st)"
  by (cases "map_get (os_entries st) key")
    (auto simp: store_cost_def EMPTY_COST_def stats_nonneg_def tokens_nonneg_def emptyCostStats_def emptyMeanStat_def emptyTokenMeans_def
      emptyTokenSample_def dest!: map_ok_get [OF store_ok_parts(2)] entry_ok_parts(3))

text \<open>(C26) The store stays well formed: after any sequence of operations on a fresh store (verdicts, refusals,
  steps, sweeps, reads, reconfigurations, snapshots loaded from any document and merges with what any other
  process wrote), with any clock readings, every key parses, no counter, cost or evidence is negative, the open
  attempts and the two memories of attempt ids stay within their limits, and a read of any key gives a success rate
  strictly between 0 and 1 and non-negative costs.\<close>

theorem store_stays_well_formed:
  "let st = store_after ops (createOutcomeStore half cap mo ms); po = fst (store_posterior key prior t st) in
   list_all (\<lambda>(k, e). parseKey k \<noteq> None \<and> counts_nonneg (en_counts e) \<and> beta_nonneg (en_beta e)) (os_entries st) \<and>
   distinct (map fst (os_entries st)) \<and>
   length (os_open st) \<le> os_maxOpen st \<and> length (os_scored st) \<le> os_maxScored st \<and> length (os_closed st) \<le> os_maxScored st \<and>
   0 < po_mean po \<and> po_mean po < 1 \<and> 0 \<le> po_n po \<and> stats_nonneg (store_cost key st)"
proof -
  define st where "st = store_after ops (createOutcomeStore half cap mo ms)"
  have ok: "store_ok st" unfolding st_def by (rule store_after_ok [OF create_ok])
  then have "entry_ok p" if "p \<in> set (os_entries st)" for p using that by (simp add: store_ok_def map_ok_def)
  then have "list_all (\<lambda>(k, e). parseKey k \<noteq> None \<and> counts_nonneg (en_counts e) \<and> beta_nonneg (en_beta e)) (os_entries st)"
    by (fastforce simp: entry_ok_def list_all_iff)
  with ok posterior_in_bounds [OF ok] cost_nonneg [OF ok] show ?thesis
    by (simp add: st_def [symmetric] store_ok_def map_ok_def wf_map_def Let_def)
qed

section \<open>The memory of scored attempts\<close>

text \<open>The attempts an operation may put into the memory: those of the terminal signals.\<close>

fun signal_of :: "store_op \<Rightarrow> string set" where
  "signal_of (OpVerdict key v aid step w tn t) = {aid}"
| "signal_of (OpRefusal key aid step tn t) = {aid}"
| "signal_of _ = {}"

definition signals_of :: "store_op list \<Rightarrow> string set" where
  "signals_of ops = \<Union> (signal_of ` set ops)"

lemma finite_signals [simp]: "finite (signals_of ops)"
proof -
  have "finite (signal_of op)" for op by (cases op) simp_all
  then show ?thesis by (simp add: signals_of_def)
qed

text \<open>The memory after an operation: as before, or with one attempt of the signal remembered.\<close>

definition memory_step :: "string set \<Rightarrow> outcome_store \<Rightarrow> outcome_store \<Rightarrow> bool" where
  "memory_step ids st st' \<longleftrightarrow> os_maxScored st' = os_maxScored st \<and>
     (os_scored st' = os_scored st \<or> (\<exists>aid\<in>ids. \<exists>info. os_scored st' = remember aid info (os_maxScored st) (os_scored st)))"

lemma memory_verdict: "memory_step {aid} st (snd (recordVerdict key v aid step w tn t st))"
  by (auto simp: memory_step_def recordVerdict_def keep_scored_def put_entry_def bump_def Let_def split: option.split)

lemma memory_refusal: "memory_step {aid} st (snd (recordFalseRefusal key aid step tn t st))"
  by (auto simp: memory_step_def recordFalseRefusal_def refuse_first_def refuse_pass_def refuse_fail_def keep_scored_def put_entry_def
      bump_def Let_def split: option.split)

lemma memory_fold_open: "memory_step {} st (fold_open a tn st)"
  by (auto simp: memory_step_def fold_open_def put_entry_def bump_def split: option.split)

lemma memory_trans_none: "memory_step {} st st1 \<Longrightarrow> memory_step {} st1 st2 \<Longrightarrow> memory_step {} st st2"
  by (simp add: memory_step_def)

lemma memory_close: "memory_step {} st (closeInternal aid r tn st)"
  using memory_fold_open [of "st\<lparr>os_open := map_delete aid (os_open st)\<rparr>"]
  by (auto simp: closeInternal_def markClosed_def Let_def memory_step_def split: option.split)

lemma memory_open [simp]: "memory_step {} st (st'\<lparr>os_open := m\<rparr>) = memory_step {} st st'"
  by (simp add: memory_step_def)

lemma memory_closed [simp]: "memory_step {} st (markClosed aid st') = memory_step {} st st'"
  by (simp add: memory_step_def markClosed_def)

lemma memory_refl [simp]: "memory_step ids st st"
  by (simp add: memory_step_def)

lemma memory_step_op: "memory_step {} st (recordStep key s tn1 t tn2 st)"
proof -
  have "memory_step {} st (closeInternal aid r tn st')" if "memory_step {} st st'" for aid r tn st'
    using memory_trans_none [OF that memory_close] .
  moreover have "memory_step {} st (fold_open a tn st')" if "memory_step {} st st'" for a tn st'
    using memory_trans_none [OF that memory_fold_open] .
  ultimately show ?thesis
    unfolding recordStep_def Let_def by (auto split: list.split)
qed

lemma memory_apply: "memory_step (signal_of op) st (apply_op op st)"
proof (cases op)
  case (OpSweep idle t tn)
  have "memory_step {} st (fold (\<lambda>aid s. closeInternal aid True (tn aid) s) ids st)" for ids
    by (induction ids arbitrary: st) (auto intro: memory_trans_none memory_close)
  with OpSweep show ?thesis by (simp add: sweepAttempts_def Let_def)
qed (simp_all add: memory_verdict memory_refusal memory_step_op memory_close closeAttempt_def,
    auto simp: memory_step_def configure_def store_posterior_def restamped_def fromSnapshot_def mergeForeign_def bump_def Let_def
      split: option.split prod.split)

lemma memory_keeps:
  assumes "store_ok st" "recent aid S (os_scored st)" "finite S" "card (S \<union> (signals_of ops - {aid})) < os_maxScored st"
  shows "map_get (os_scored (store_after ops st)) aid \<noteq> None"
  using assms
proof (induction ops arbitrary: st S)
  case Nil
  then show ?case using recent_get by (fastforce simp: store_after_def)
next
  case (Cons op ops)
  let ?st = "apply_op op st"
  let ?S = "S \<union> (signal_of op - {aid})"
  have sig: "signals_of (op # ops) = signal_of op \<union> signals_of ops" by (simp add: signals_of_def)
  have fin: "finite ?S" using Cons.prems(3) by (cases op) simp_all
  have wf: "wf_map (os_scored st)" using Cons.prems(1) by (simp add: store_ok_def map_ok_def)
  have all: "S \<union> (signals_of (op # ops) - {aid}) = ?S \<union> (signals_of ops - {aid})" by (auto simp: sig)
  have le: "card ?S \<le> card (?S \<union> (signals_of ops - {aid}))" using fin by (intro card_mono) auto
  have small: "card ?S < os_maxScored st" using le Cons.prems(4) by (simp only: all)
  from memory_apply [of op st] have mx: "os_maxScored ?st = os_maxScored st" by (simp add: memory_step_def)
  have "recent aid ?S (os_scored ?st)"
  proof (cases "os_scored ?st = os_scored st")
    case True
    with recent_mono [OF Cons.prems(2)] show ?thesis by simp
  next
    case False
    with memory_apply [of op st] obtain j info where j: "j \<in> signal_of op"
      "os_scored ?st = remember j info (os_maxScored st) (os_scored st)" by (auto simp: memory_step_def)
    show ?thesis
    proof (cases "j = aid")
      case True
      with j recent_remember_same [OF wf] small show ?thesis by simp
    next
      case False
      have one: "signal_of op = {j}" using j(1) by (cases op) auto
      with False have S: "?S = insert j S" by auto
      show ?thesis unfolding S j(2)
        by (rule recent_remember [OF wf Cons.prems(2) False Cons.prems(3)]) (use small S in simp)
    qed
  qed
  from Cons.IH [OF apply_op_ok [OF Cons.prems(1)] this fin] Cons.prems(4) mx
  show ?case by (simp add: store_after_def all)
qed

lemma recordVerdict_True:
  assumes "fst (recordVerdict key v aid step w tn t st)"
  obtains st1 info where "snd (recordVerdict key v aid step w tn t st) = bump (keep_scored aid info st1)"
    "os_scored st1 = os_scored st" "os_maxScored st1 = os_maxScored st"
  using assms by (auto simp: recordVerdict_def put_entry_def Let_def split: if_splits option.splits)

lemma remembered_scores_nothing:
  "map_get (os_scored st) aid \<noteq> None \<Longrightarrow>
   \<not> fst (recordVerdict key v aid step w tn t st) \<and> os_entries (snd (recordVerdict key v aid step w tn t st)) = os_entries st"
  by (auto simp: recordVerdict_def keep_scored_def split: option.split)

text \<open>One observation per attempt: once a verdict of an attempt has been scored, no later verdict of the same attempt,
  whatever its key, result, kind or weight, changes the recorded outcomes, as long as fewer other attempts than the memory
  holds have sent terminal signals in between, whatever else happened to the store.\<close>

theorem attempt_scores_once:
  assumes "fst (recordVerdict key v aid step w tn t (store_after before (createOutcomeStore half cap mo ms)))"
    and "card (signals_of between - {aid}) < os_maxScored (store_after before (createOutcomeStore half cap mo ms))"
  shows "let st = store_after between (snd (recordVerdict key v aid step w tn t (store_after before (createOutcomeStore half cap mo ms))))
         in \<not> fst (recordVerdict key' v' aid step' w' tn' t' st) \<and>
            os_entries (snd (recordVerdict key' v' aid step' w' tn' t' st)) = os_entries st"
proof -
  define st0 where "st0 = store_after before (createOutcomeStore half cap mo ms)"
  have ok0: "store_ok st0" unfolding st0_def by (rule store_after_ok [OF create_ok])
  let ?st1 = "snd (recordVerdict key v aid step w tn t st0)"
  have ok1: "store_ok ?st1" by (rule recordVerdict_ok [OF ok0])
  obtain st1 info where r: "?st1 = bump (keep_scored aid info st1)" "os_scored st1 = os_scored st0" "os_maxScored st1 = os_maxScored st0"
    using recordVerdict_True assms(1) unfolding st0_def [symmetric] by metis
  have "wf_map (os_scored st0)" "0 < os_maxScored st0" using ok0 by (simp_all add: store_ok_def map_ok_def)
  then have "recent aid {} (os_scored ?st1)" by (simp add: r bump_def keep_scored_def recent_remember_same)
  moreover have "os_maxScored ?st1 = os_maxScored st0" by (simp add: r bump_def keep_scored_def)
  ultimately have "map_get (os_scored (store_after between ?st1)) aid \<noteq> None"
    using memory_keeps [OF ok1, of aid "{}" between] assms(2) by (simp add: st0_def)
  then show ?thesis unfolding Let_def st0_def [symmetric] by (rule remembered_scores_nothing)
qed

definition demo_key :: outcome_key where
  "demo_key = makeKey ''coding'' \<lparr>ar_origin = OriginRouter, ar_id = ''fast''\<rparr> ''openai'' ''gpt-5'' None"

lemma demo_parse: "\<exists>p. parseKey demo_key = Some p"
  by (simp add: demo_key_def parse_make)

definition demo_store :: outcome_store where
  "demo_store = createOutcomeStore None None None None"

theorem attempt_scores_once_witness:
  "let st = store_after [OpVerdict demo_key VPass ''a2'' StepDispatch (Fin 1) 0 5]
         (snd (recordVerdict demo_key VPass ''a1'' StepDispatch (Fin 1) 0 0 (store_after [] demo_store)))
   in \<not> fst (recordVerdict demo_key VFail ''a1'' StepRetry (Fin 1) 0 9 st) \<and>
      os_entries (snd (recordVerdict demo_key VFail ''a1'' StepRetry (Fin 1) 0 9 st)) = os_entries st"
  unfolding demo_store_def
proof (rule attempt_scores_once)
  show "fst (recordVerdict demo_key VPass ''a1'' StepDispatch (Fin 1) 0 0 (store_after [] (createOutcomeStore None None None None)))"
    using demo_parse
    by (auto simp: recordVerdict_def store_after_def createOutcomeStore_def entryFor_def usable_weight_def Let_def)
  show "card (signals_of [OpVerdict demo_key VPass ''a2'' StepDispatch (Fin 1) 0 5] - {''a1''})
      < os_maxScored (store_after [] (createOutcomeStore None None None None))"
    by (simp add: signals_of_def store_after_def createOutcomeStore_def limit_of_def DEFAULT_MAX_SCORED_ATTEMPTS_def)
qed

section \<open>False refusals\<close>

text \<open>A verdict of an attempt that is not remembered, on an existing entry.\<close>

lemma pass_scored:
  assumes "store_ok st" "map_get (os_entries st) key = Some e" "map_get (os_scored st) aid = None" "0 < w" "w \<le> 1"
    and st1: "st1 = snd (recordVerdict key VPass aid step (Fin w) tn t st)"
  shows "map_get (os_entries st1) key = Some (e\<lparr>en_beta := observe (Some (en_beta e)) True (Fin t) (os_tuning st) (Fin w),
      en_counts := \<lparr>oc_pass = oc_pass (en_counts e) + 1, oc_fail = oc_fail (en_counts e), oc_falseRefusals = oc_falseRefusals (en_counts e),
        oc_variantPass = oc_variantPass (en_counts e) + b2i (step = StepVariant), oc_variantFail = oc_variantFail (en_counts e)\<rparr>\<rparr>)"
    and "map_get (os_scored st1) aid = Some \<lparr>sc_key = key, sc_kind = ScPass, sc_at = t, sc_variant = (step = StepVariant),
      sc_weight = (if w = 1 then None else Some w)\<rparr>"
    and "os_tuning st1 = os_tuning st"
proof -
  have wf: "wf_map (os_scored st)" "0 < os_maxScored st" using assms(1) by (simp_all add: store_ok_def map_ok_def)
  show "map_get (os_entries st1) key = Some (e\<lparr>en_beta := observe (Some (en_beta e)) True (Fin t) (os_tuning st) (Fin w),
      en_counts := \<lparr>oc_pass = oc_pass (en_counts e) + 1, oc_fail = oc_fail (en_counts e), oc_falseRefusals = oc_falseRefusals (en_counts e),
        oc_variantPass = oc_variantPass (en_counts e) + b2i (step = StepVariant), oc_variantFail = oc_variantFail (en_counts e)\<rparr>\<rparr>)"
    "map_get (os_scored st1) aid = Some \<lparr>sc_key = key, sc_kind = ScPass, sc_at = t, sc_variant = (step = StepVariant),
      sc_weight = (if w = 1 then None else Some w)\<rparr>"
    "os_tuning st1 = os_tuning st"
    using assms(2-5) by (simp_all add: st1 recordVerdict_def usable_weight_def entryFor_def Let_def bump_def keep_scored_def
        put_entry_def map_get_set remember_get [OF wf] b2i_def)
qed

text \<open>Evidence of a pass taken back: what a plain failure at the later instant would have left.\<close>

lemma pass_taken_back:
  assumes "beta_nonneg b" "be_updatedAt b \<le> t" "t \<le> t2" "0 < w"
    and room: "be_alpha b + be_beta b + w \<le> cap" "cap = ot_maxEffectiveSamples tun" "w \<le> 1"
    and solid: "be_alpha b + be_beta b = 0 \<or> MIN_TINY \<le> (be_alpha b + be_beta b) * decayFactor (t2 - be_updatedAt b) (ot_halfLifeDays tun)"
    and d: "d = decayTo (observe (Some b) True (Fin t) tun (Fin w)) (Fin t2) tun"
  shows "max 0 (be_alpha d - decayFactor (t2 - t) (ot_halfLifeDays tun) * w) = be_alpha (decayTo b (Fin t2) tun)"
    and "be_beta d = be_beta (decayTo b (Fin t2) tun)" and "be_updatedAt d = be_updatedAt (decayTo b (Fin t2) tun)"
proof -
  let ?h = "ot_halfLifeDays tun"
  define f where "f = decayFactor (t - be_updatedAt b) ?h"
  define g where "g = decayFactor (t2 - t) ?h"
  have fg: "decayFactor (t2 - be_updatedAt b) ?h = f * g"
    using decayFactor_add [of "t - be_updatedAt b" "t2 - t" ?h] assms(2,3) by (simp add: f_def g_def)
  have fb: "0 < f" "f \<le> 1" and gb: "0 < g" "g \<le> 1" by (simp_all add: f_def g_def decayFactor_bounds)
  have day: "0 < DAY_MS" "0 < MIN_TINY" by (simp_all add: DAY_MS_def MIN_TINY_def)
  have nn: "0 \<le> be_alpha b" "0 \<le> be_beta b" using assms(1) by (simp_all add: beta_nonneg_def)
  have zero: "be_alpha b = 0 \<and> be_beta b = 0 \<or> MIN_TINY \<le> be_alpha b * f * g + be_beta b * f * g"
    using solid nn by (auto simp: fg algebra_simps)
  have "(be_alpha b * f + be_beta b * f) * g \<le> (be_alpha b * f + be_beta b * f)"
    using nn fb gb by (intro mult_left_le) auto
  with zero have first: "be_alpha b = 0 \<and> be_beta b = 0 \<or> MIN_TINY \<le> be_alpha b * f + be_beta b * f"
    by (auto simp: algebra_simps)
  have b1: "decayTo b (Fin t) tun = \<lparr>be_alpha = be_alpha b * f, be_beta = be_beta b * f, be_updatedAt = t\<rparr>"
    using first assms(2) day by (auto simp: decayTo_def Let_def f_def [symmetric] max_def)
  have b2: "decayTo b (Fin t2) tun = \<lparr>be_alpha = be_alpha b * f * g, be_beta = be_beta b * f * g, be_updatedAt = t2\<rparr>"
    using zero assms(2,3) day by (auto simp: decayTo_def Let_def fg max_def mult.assoc)
  have "be_alpha b * f \<le> be_alpha b" "be_beta b * f \<le> be_beta b" using nn fb by (auto intro: mult_left_le)
  with room have "be_alpha b * f + w + be_beta b * f \<le> ot_maxEffectiveSamples tun" by simp
  then have ob: "observe (Some b) True (Fin t) tun (Fin w) = \<lparr>be_alpha = be_alpha b * f + w, be_beta = be_beta b * f, be_updatedAt = t\<rparr>"
    using room(3) \<open>0 < w\<close> by (simp add: observe_def Let_def usable_weight_def b1 cap_id)
  have wg: "0 < w * g" using gb \<open>0 < w\<close> by simp
  have flush: "be_alpha b = 0 \<and> be_beta b = 0" if "(be_alpha b * f + w) * g + be_beta b * f * g < MIN_TINY"
    using that zero wg by (auto simp: algebra_simps)
  have dd: "decayTo (observe (Some b) True (Fin t) tun (Fin w)) (Fin t2) tun =
      (if (be_alpha b * f + w) * g + be_beta b * f * g < MIN_TINY then \<lparr>be_alpha = 0, be_beta = 0, be_updatedAt = t2\<rparr>
       else \<lparr>be_alpha = (be_alpha b * f + w) * g, be_beta = be_beta b * f * g, be_updatedAt = t2\<rparr>)"
    using assms(3) day by (simp add: ob decayTo_def Let_def g_def [symmetric] max_def)
  show "max 0 (be_alpha d - decayFactor (t2 - t) ?h * w) = be_alpha (decayTo b (Fin t2) tun)"
    "be_beta d = be_beta (decayTo b (Fin t2) tun)" "be_updatedAt d = be_updatedAt (decayTo b (Fin t2) tun)"
    using flush wg nn fb gb by (auto simp: d dd b2 g_def [symmetric] algebra_simps)
qed

lemma beta_update: "\<lparr>be_alpha = be_alpha s, be_beta = x, be_updatedAt = be_updatedAt s\<rparr> = s\<lparr>be_beta := x\<rparr>"
  by (cases s) simp

lemma refusal_of_pass:
  assumes ok: "store_ok st" and e: "map_get (os_entries st) key = Some e"
    and p: "map_get (os_scored st) aid = Some p" "sc_kind p = ScPass" "sc_key p = key"
    and st2: "st2 = snd (recordFalseRefusal key aid step tn t2 st)"
    and d: "d = decayTo (en_beta e) (Fin t2) (os_tuning st)"
  shows "map_get (os_entries st2) key = Some (e\<lparr>en_beta := capEvidence \<lparr>
      be_alpha = max 0 (be_alpha d - decayFactor (t2 - sc_at p) (ot_halfLifeDays (os_tuning st)) * or_else (sc_weight p) 1),
      be_beta = be_beta d + 1, be_updatedAt = be_updatedAt d\<rparr> (ot_maxEffectiveSamples (os_tuning st)),
    en_counts := \<lparr>oc_pass = max 0 (oc_pass (en_counts e) - 1), oc_fail = oc_fail (en_counts e) + 1,
      oc_falseRefusals = oc_falseRefusals (en_counts e) + 1, oc_variantPass = max 0 (oc_variantPass (en_counts e) - b2i (sc_variant p)),
      oc_variantFail = oc_variantFail (en_counts e) + b2i (sc_variant p)\<rparr>\<rparr>)"
  using e p by (simp add: st2 d recordFalseRefusal_def entryFor_def refuse_pass_def Let_def bump_def keep_scored_def put_entry_def map_get_set)

text \<open>A false refusal takes a pass back exactly: when an attempt whose pass was scored later turns out to have refused
  wrongly, the entry ends with the evidence a plain failure at that instant would have left, with one more failure and one more
  refusal on the counters and the pass gone, whatever weight the pass carried and however old it is. (Stated below the
  evidence cap and outside the flush of tiny totals, where the code says it approximates.)\<close>

theorem refusal_undoes_pass:
  assumes st: "st = store_after ops (createOutcomeStore half cap mo ms)" and e: "map_get (os_entries st) key = Some e"
    and fresh: "map_get (os_scored st) aid = None" and w: "0 < w" "w \<le> 1"
    and times: "be_updatedAt (en_beta e) \<le> t" "t \<le> t2"
    and room: "be_alpha (en_beta e) + be_beta (en_beta e) + w \<le> ot_maxEffectiveSamples (os_tuning st)"
    and solid: "be_alpha (en_beta e) + be_beta (en_beta e) = 0 \<or>
      MIN_TINY \<le> (be_alpha (en_beta e) + be_beta (en_beta e)) * decayFactor (t2 - be_updatedAt (en_beta e)) (ot_halfLifeDays (os_tuning st))"
  shows "let st1 = snd (recordVerdict key VPass aid step (Fin w) tn t st);
             st2 = snd (recordFalseRefusal key aid step' tn' t2 st1); v = b2i (step = StepVariant); c = en_counts e
         in map_get (os_entries st2) key = Some (e\<lparr>en_beta := observe (Some (en_beta e)) False (Fin t2) (os_tuning st) (Fin 1),
              en_counts := c\<lparr>oc_fail := oc_fail c + 1, oc_falseRefusals := oc_falseRefusals c + 1, oc_variantFail := oc_variantFail c + v\<rparr>\<rparr>)"
proof -
  have ok: "store_ok st" unfolding st by (rule store_after_ok [OF create_ok])
  have eok: "entry_ok (key, e)" by (rule map_ok_get [OF store_ok_parts(2) [OF ok] e])
  let ?st1 = "snd (recordVerdict key VPass aid step (Fin w) tn t st)"
  note p1 = pass_scored [OF ok e fresh w refl]
  have ok1: "store_ok ?st1" by (rule recordVerdict_ok [OF ok])
  define tun where "tun = os_tuning st"
  define d where "d = decayTo (observe (Some (en_beta e)) True (Fin t) tun (Fin w)) (Fin t2) tun"
  note undo = pass_taken_back [OF entry_ok_parts(1) [OF eok] times w(1) room [folded tun_def] refl w(2) solid [folded tun_def] d_def]
  have we: "or_else (if w = 1 then None else Some w) 1 = w" by simp
  have "capEvidence \<lparr>be_alpha = max 0 (be_alpha d - decayFactor (t2 - t) (ot_halfLifeDays tun) * w), be_beta = be_beta d + 1,
      be_updatedAt = be_updatedAt d\<rparr> (ot_maxEffectiveSamples tun) = observe (Some (en_beta e)) False (Fin t2) tun (Fin 1)"
    unfolding undo beta_update by (simp add: observe_def Let_def usable_weight_def)
  moreover have "0 \<le> oc_pass (en_counts e)" "0 \<le> oc_variantPass (en_counts e)"
    using entry_ok_parts(2) [OF eok] by (simp_all add: counts_nonneg_def)
  ultimately show ?thesis
    unfolding Let_def
    by (subst refusal_of_pass [OF ok1 p1(1) p1(2) _ _ refl refl])
      (simp_all add: p1(3) we tun_def [symmetric] d_def [symmetric] max_def)
qed

definition demo_failed :: outcome_store where
  "demo_failed = store_after [OpVerdict demo_key VFail ''a0'' StepDispatch (Fin 1) 0 0] demo_store"

lemma demo_failed_entry:
  obtains e where "map_get (os_entries demo_failed) demo_key = Some e" "en_beta e = \<lparr>be_alpha = 0, be_beta = 1, be_updatedAt = 0\<rparr>"
    "en_counts e = ZERO_COUNTS\<lparr>oc_fail := 1\<rparr>" "map_get (os_scored demo_failed) ''a1'' = None" "os_tuning demo_failed = DEFAULT_OUTCOME_TUNING"
proof -
  obtain p where p: "parseKey demo_key = Some p" using demo_parse by auto
  have "observe (Some \<lparr>be_alpha = 0, be_beta = 0, be_updatedAt = 0\<rparr>) False (Fin 0) DEFAULT_OUTCOME_TUNING (Fin 1) =
      \<lparr>be_alpha = 0, be_beta = 1, be_updatedAt = 0\<rparr>"
    by (simp add: observe_def Let_def usable_weight_def decayTo_def DAY_MS_def MIN_TINY_def capEvidence_def DEFAULT_OUTCOME_TUNING_def)
  moreover have "os_tuning demo_store = DEFAULT_OUTCOME_TUNING"
    by (simp add: demo_store_def createOutcomeStore_def sanitizeTuning_def)
  moreover have "os_entries demo_store = []" "os_scored demo_store = []" "0 < os_maxScored demo_store"
    by (simp_all add: demo_store_def createOutcomeStore_def limit_of_def DEFAULT_MAX_SCORED_ATTEMPTS_def)
  ultimately show thesis
    by (intro that) (auto simp: demo_failed_def store_after_def recordVerdict_def usable_weight_def entryFor_def p new_entry_def
        bump_def keep_scored_def put_entry_def Let_def b2i_def ZERO_COUNTS_def remember_def map_delete_def evict_oldest.simps)
qed

theorem refusal_undoes_pass_witness:
  "map_option (oc_pass \<circ> en_counts) (map_get (os_entries (snd (recordFalseRefusal demo_key ''a1'' StepRetry 0 0
     (snd (recordVerdict demo_key VPass ''a1'' StepRetry (Fin (1 / 2)) 0 0 demo_failed))))) demo_key) = Some 0"
proof -
  obtain e where e: "map_get (os_entries demo_failed) demo_key = Some e" "en_beta e = \<lparr>be_alpha = 0, be_beta = 1, be_updatedAt = 0\<rparr>"
    "en_counts e = ZERO_COUNTS\<lparr>oc_fail := 1\<rparr>" "map_get (os_scored demo_failed) ''a1'' = None" "os_tuning demo_failed = DEFAULT_OUTCOME_TUNING"
    by (rule demo_failed_entry)
  have st: "demo_failed = store_after [OpVerdict demo_key VFail ''a0'' StepDispatch (Fin 1) 0 0] (createOutcomeStore None None None None)"
    by (simp add: demo_failed_def demo_store_def)
  show ?thesis
    using refusal_undoes_pass [OF st e(1,4), of "1 / 2" 0 0]
    by (simp add: e DEFAULT_OUTCOME_TUNING_def decayFactor_0 MIN_TINY_def Let_def ZERO_COUNTS_def)
qed

end
