(* ===== verification/Sync_Spec.thy ===== *)
theory Sync_Spec
  imports Store_Spec
begin

text \<open>
  Properties of persisted outcomes: snapshots load back as they were, the verdicts of the envelope check, the
  exactness of the merge with another process, and the case the merge counts twice.
\<close>

section \<open>Entries round-trip\<close>

lemma field_here [simp]: "field_as ((k, d) # fs) k rd = rd d"
  by (simp add: field_as_def)

lemma field_there [simp]: "k \<noteq> j \<Longrightarrow> field_as ((j, d) # fs) k rd = field_as fs k rd"
  by (simp add: field_as_def)

lemma read_mean_doc [simp]: "0 \<le> ms_mean m \<Longrightarrow> readMean (mean_doc m) = Some m"
  by (simp add: readMean_def mean_doc_def)

lemma read_tokens_doc [simp]: "tokens_nonneg (tm_mean t) \<Longrightarrow> readTokenMeans (tokens_doc t) = Some t"
  by (simp add: readTokenMeans_def tokens_doc_def tokens_nonneg_def Let_def)

lemma count_int_doc [simp]: "0 \<le> i \<Longrightarrow> isCount (num_doc (of_int i)) = Some (nat i)"
  by (simp add: isCount_def)

lemma read_counts_doc [simp]: "counts_nonneg c \<Longrightarrow> readCounts (counts_doc c) = Some c"
  by (simp add: readCounts_def counts_doc_def counts_nonneg_def Let_def)

lemma read_cost_doc [simp]: "stats_nonneg c \<Longrightarrow> readCost (cost_doc c) = Some c"
  by (simp add: readCost_def cost_doc_def stats_nonneg_def)

lemma read_entry_snapshot:
  assumes "entry_ok (k, e)"
  shows "readEntry k (entrySnapshot e) = Some e"
proof -
  obtain p where p: "parseKey k = Some p" "kp_cls p = en_cls e" using assms by (auto simp: entry_ok_def)
  have "readBeta (DObj [(''alpha'', num_doc (be_alpha (en_beta e))), (''beta'', num_doc (be_beta (en_beta e))),
      (''updatedAt'', num_doc (be_updatedAt (en_beta e)))]) = Some (en_beta e)"
    using assms by (simp add: readBeta_def entry_ok_def beta_nonneg_def)
  with assms p show ?thesis by (simp add: readEntry_def entrySnapshot_def entry_ok_def)
qed

section \<open>Snapshots\<close>

lemma set_store_keys: "set (store_keys st) = fst ` set (os_entries st)"
  by (simp add: store_keys_def)

lemma distinct_store_keys: "store_ok st \<Longrightarrow> distinct (store_keys st)"
  by (simp add: store_keys_def store_ok_def map_ok_def wf_map_def)

definition snapshot_list :: "outcome_store \<Rightarrow> (string \<times> entry) list" where
  "snapshot_list st = map (\<lambda>k. (k, the (map_get (os_entries st) k))) (store_keys st)"

lemma snapshot_list_ok:
  assumes "store_ok st" "(k, e) \<in> set (snapshot_list st)"
  shows "map_get (os_entries st) k = Some e" "entry_ok (k, e)"
proof -
  have k: "k \<in> fst ` set (os_entries st)" "e = the (map_get (os_entries st) k)"
    using assms(2) by (auto simp: snapshot_list_def set_store_keys)
  then obtain e' where "map_get (os_entries st) k = Some e'"
    by (metis domIff dom_map_of_conv_image_fst option.exhaust)
  with k show "map_get (os_entries st) k = Some e" by simp
  then show "entry_ok (k, e)" by (rule map_ok_get [OF store_ok_parts(2) [OF assms(1)]])
qed

lemma snapshot_map:
  assumes "store_ok st"
  shows "map_of (snapshot_list st) = map_of (os_entries st)"
proof
  fix k
  show "map_of (snapshot_list st) k = map_of (os_entries st) k"
  proof (cases "map_of (snapshot_list st) k")
    case None
    then have "k \<notin> fst ` set (os_entries st)"
      by (auto simp: map_of_eq_None_iff snapshot_list_def set_store_keys image_image)
    with None show ?thesis by (metis map_of_eq_None_iff)
  next
    case (Some e)
    from snapshot_list_ok(1) [OF assms map_of_SomeD [OF Some]] Some show ?thesis by simp
  qed
qed

lemma entries_of_snapshot: "entries_of (snapshot st) = map (\<lambda>(k, e). (k, entrySnapshot e)) (snapshot_list st)"
  by (simp add: entries_of_def snapshot_def entries_field_def snapshot_list_def comp_def)

lemma valid_snapshot:
  assumes "\<And>k e. (k, e) \<in> set ps \<Longrightarrow> entry_ok (k, e)"
  shows "valid_entries (map (\<lambda>(k, e). (k, entrySnapshot e)) ps) = ps"
  using assms by (induction ps) (auto simp: valid_entries_def List.map_filter_def read_entry_snapshot)

text \<open>What loading does to one entry: evidence from the future is stamped with the reading of the clock.\<close>

definition stamped :: "real \<Rightarrow> entry \<Rightarrow> entry" where
  "stamped t e = e\<lparr>en_beta := (en_beta e)\<lparr>be_updatedAt := min t (be_updatedAt (en_beta e))\<rparr>\<rparr>"

lemma absorb_fresh: "map_get es k = None \<Longrightarrow> absorb tun t (k, e) es = es @ [(k, stamped t e)]"
  by (simp add: absorb_def Let_def map_set_fresh stamped_def min_def)

lemma absorb_all:
  "distinct (map fst ps) \<Longrightarrow> fst ` set ps \<inter> fst ` set es = {} \<Longrightarrow>
   fold (absorb tun t) ps es = es @ map (\<lambda>(k, e). (k, stamped t e)) ps"
proof (induction ps arbitrary: es)
  case (Cons p ps)
  obtain k e where p: "p = (k, e)" by (cases p)
  have "map_get es k = None" using Cons.prems p by (auto simp: map_of_eq_None_iff)
  with Cons p show ?case by (subst fold_simps(2)) (auto simp: absorb_fresh)
qed simp

lemma load_snapshot:
  assumes "store_ok st"
  shows "fst (fromSnapshot True (snapshot st) t st0) = (length (os_entries st), 0)"
    and "os_entries (snd (fromSnapshot True (snapshot st) t st0)) = map (\<lambda>(k, e). (k, stamped t e)) (snapshot_list st)"
proof -
  have v: "valid_entries (entries_of (snapshot st)) = snapshot_list st"
    unfolding entries_of_snapshot by (rule valid_snapshot) (rule snapshot_list_ok(2) [OF assms])
  have d: "distinct (map fst (snapshot_list st))"
    using distinct_store_keys [OF assms] by (simp add: snapshot_list_def comp_def)
  have n: "length (snapshot_list st) = length (os_entries st)" "length (entries_of (snapshot st)) = length (os_entries st)"
    by (simp_all add: entries_of_snapshot snapshot_list_def store_keys_def)
  show "fst (fromSnapshot True (snapshot st) t st0) = (length (os_entries st), 0)"
    by (simp add: fromSnapshot_def Let_def v n)
  show "os_entries (snd (fromSnapshot True (snapshot st) t st0)) = map (\<lambda>(k, e). (k, stamped t e)) (snapshot_list st)"
    using absorb_all [OF d, of "[]"] by (simp add: fromSnapshot_def Let_def v bump_def)
qed

text \<open>(C33) Persisted outcomes load back: whatever happened to a store, its snapshot loaded into any other store is accepted
  whole, drops nothing and gives every key the very entry it had; evidence stamped later than the loading clock is the one thing
  that changes, and only in its stamp.\<close>

theorem snapshot_loads_back:
  "let st = store_after ops (createOutcomeStore half cap mo ms); (report, st') = fromSnapshot True (snapshot st) t other
   in report = (length (os_entries st), 0) \<and>
      (map_get (os_entries st') key = map_option (stamped t) (map_get (os_entries st) key))"
proof -
  define st where "st = store_after ops (createOutcomeStore half cap mo ms)"
  have ok: "store_ok st" unfolding st_def by (rule store_after_ok [OF create_ok])
  have "map_get (map (\<lambda>(k, e). (k, stamped t e)) (snapshot_list st)) key = map_option (stamped t) (map_get (snapshot_list st) key)"
    by (simp add: map_of_map)
  with load_snapshot [OF ok, of t other] snapshot_map [OF ok] show ?thesis
    by (simp add: st_def [symmetric] Let_def split_beta)
qed

section \<open>The envelope\<close>

text \<open>A document of this store's schema; its version number; its entries.\<close>

definition our_schema :: "jdoc \<Rightarrow> bool" where
  "our_schema json \<longleftrightarrow> Option.bind (as_obj json) (\<lambda>fs. map_of fs ''schema'') = Some (DStr OUTCOMES_SCHEMA_ID)"

definition doc_version :: "jdoc \<Rightarrow> int option" where
  "doc_version json = Option.bind (Option.bind (as_obj json) (\<lambda>fs. field_as fs ''version'' isFiniteNum))
     (\<lambda>v. if v = of_int \<lfloor>v\<rfloor> then Some \<lfloor>v\<rfloor> else None)"

definition doc_entries :: "jdoc \<Rightarrow> (string \<times> jdoc) list option" where
  "doc_entries json = Option.bind (as_obj json) entries_field"

lemma parse_cases:
  "parseSnapshot json =
     (if \<not> our_schema json then Inl UnsupportedVersion
      else case doc_version json of None \<Rightarrow> Inl UnsupportedVersion
      | Some v \<Rightarrow> if 1 < v then Inl UnsupportedVersion else if v < 1 then Inl Corrupt
                  else (case doc_entries json of None \<Rightarrow> Inl Corrupt
                        | Some es \<Rightarrow> Inr (sort_key fst (map (\<lambda>(k, e). (k, entrySnapshot e)) (valid_entries es)),
                                         length es - length (valid_entries es))))"
proof -
  have int: "1 < x \<longleftrightarrow> 1 < \<lfloor>x\<rfloor>" "x < 1 \<longleftrightarrow> \<lfloor>x\<rfloor> < 1" if "x = of_int \<lfloor>x\<rfloor>" for x :: real
    using that by linarith+
  show ?thesis
    by (auto simp: parseSnapshot_def our_schema_def doc_version_def doc_entries_def OUTCOMES_SCHEMA_VERSION_def int Let_def
        split: option.splits)
qed

lemma valid_entries_le: "length (valid_entries es) \<le> length es"
  by (simp add: valid_entries_def map_filter_length)

lemma valid_reads: "(k, e) \<in> set (valid_entries fs) \<Longrightarrow> readEntry k (entrySnapshot e) = Some e"
  by (rule read_entry_snapshot) (rule valid_entries_ok)

text \<open>The document \<^verbatim>\<open>saveSnapshot\<close> of \<^verbatim>\<open>outcomes/persist.ts\<close> writes.\<close>

definition written_file :: "string \<Rightarrow> outcome_store \<Rightarrow> jdoc" where
  "written_file savedAt st =
     DObj [(''schema'', DStr OUTCOMES_SCHEMA_ID), (''version'', num_doc OUTCOMES_SCHEMA_VERSION), (''savedAt'', DStr savedAt),
           (''entries'', DObj (entries_of (snapshot st)))]"

lemma sort_key_sorted: "sorted (map f xs) \<Longrightarrow> sort_key f xs = xs"
  by (induction xs) (auto simp: insort_is_Cons)

lemma sort_snapshot: "sort_key fst (map (\<lambda>(k, e). (k, entrySnapshot e)) (snapshot_list st)) = entries_of (snapshot st)"
proof -
  have "map fst (entries_of (snapshot st)) = store_keys st"
    by (simp add: entries_of_snapshot snapshot_list_def comp_def)
  then have "sorted (map fst (entries_of (snapshot st)))" by (simp add: store_keys_def)
  then have "sort_key fst (entries_of (snapshot st)) = entries_of (snapshot st)" by (rule sort_key_sorted)
  then show ?thesis by (simp add: entries_of_snapshot)
qed

text \<open>(C34) The file check never mistakes a foreign file for a broken one: a document is called corrupt, and so set aside and
  replaced, only when it carries this store's schema and an integer version of at most the supported one; anything else that is
  refused is left alone as unsupported. An accepted document is version 1, every entry it returns is valid, in key order, and
  every entry is returned or counted as dropped. What this plugin writes is always accepted, with nothing dropped.\<close>

theorem file_check_verdicts:
  "(case parseSnapshot json of
      Inl Corrupt \<Rightarrow> our_schema json \<and> (case doc_version json of None \<Rightarrow> False | Some v \<Rightarrow> v < 1 \<or> v = 1 \<and> doc_entries json = None)
    | Inl UnsupportedVersion \<Rightarrow> (if our_schema json then (case doc_version json of None \<Rightarrow> True | Some v \<Rightarrow> 1 < v) else True)
    | Inr (es, dropped) \<Rightarrow> our_schema json \<and> doc_version json = Some 1 \<and> sorted (map fst es) \<and>
        list_all (\<lambda>(k, d). readEntry k d \<noteq> None) es \<and> Some (length es + dropped) = map_option length (doc_entries json)) \<and>
   parseSnapshot (written_file savedAt (store_after ops (createOutcomeStore half cap mo ms))) =
     Inr (entries_of (snapshot (store_after ops (createOutcomeStore half cap mo ms))), 0)"
proof
  show "case parseSnapshot json of
      Inl Corrupt \<Rightarrow> our_schema json \<and> (case doc_version json of None \<Rightarrow> False | Some v \<Rightarrow> v < 1 \<or> v = 1 \<and> doc_entries json = None)
    | Inl UnsupportedVersion \<Rightarrow> (if our_schema json then (case doc_version json of None \<Rightarrow> True | Some v \<Rightarrow> 1 < v) else True)
    | Inr (es, dropped) \<Rightarrow> our_schema json \<and> doc_version json = Some 1 \<and> sorted (map fst es) \<and>
        list_all (\<lambda>(k, d). readEntry k d \<noteq> None) es \<and> Some (length es + dropped) = map_option length (doc_entries json)"
    unfolding parse_cases using valid_entries_le
    by (auto simp: list_all_iff valid_reads not_less split: option.splits)
  define st where "st = store_after ops (createOutcomeStore half cap mo ms)"
  have ok: "store_ok st" unfolding st_def by (rule store_after_ok [OF create_ok])
  have "our_schema (written_file savedAt st)" "doc_version (written_file savedAt st) = Some 1"
    "doc_entries (written_file savedAt st) = Some (entries_of (snapshot st))"
    by (simp_all add: our_schema_def written_file_def doc_version_def doc_entries_def entries_field_def snapshot_def entries_of_def
        OUTCOMES_SCHEMA_VERSION_def)
  moreover have "valid_entries (entries_of (snapshot st)) = snapshot_list st"
    unfolding entries_of_snapshot by (rule valid_snapshot) (rule snapshot_list_ok(2) [OF ok])
  moreover have "length (entries_of (snapshot st)) = length (snapshot_list st)" by (simp add: entries_of_snapshot)
  ultimately show "parseSnapshot (written_file savedAt (store_after ops (createOutcomeStore half cap mo ms))) =
      Inr (entries_of (snapshot (store_after ops (createOutcomeStore half cap mo ms))), 0)"
    by (simp add: parse_cases sort_snapshot st_def [symmetric])
qed

section \<open>Tallies only grow, but for refusals\<close>

definition no_tallies :: "int list" where "no_tallies = replicate 10 0"

definition entry_tallies :: "entry option \<Rightarrow> int list" where
  "entry_tallies e = or_else (map_option tallies e) no_tallies"

definition tallies_at :: "outcome_store \<Rightarrow> string \<Rightarrow> int list" where
  "tallies_at st key = entry_tallies (map_get (os_entries st) key)"

abbreviation below :: "int list \<Rightarrow> int list \<Rightarrow> bool" where
  "below \<equiv> list_all2 (\<le>)"

definition grows :: "outcome_store \<Rightarrow> outcome_store \<Rightarrow> bool" where
  "grows st st' \<longleftrightarrow> (\<forall>key. below (tallies_at st key) (tallies_at st' key))"

lemma below_refl [simp]: "below xs xs"
  by (rule list_all2_refl) simp

lemma below_trans: "below xs ys \<Longrightarrow> below ys zs \<Longrightarrow> below xs zs"
  by (rule list_all2_trans) auto

lemma grows_refl [simp]: "grows st st"
  by (simp add: grows_def)

lemma grows_trans: "grows st st1 \<Longrightarrow> grows st1 st2 \<Longrightarrow> grows st st2"
  unfolding grows_def by (blast intro: below_trans)

lemma tallies_expand: "no_tallies = [0, 0, 0, 0, 0, 0, 0, 0, 0, 0]"
  by (simp add: no_tallies_def numeral_eq_Suc)

lemma entry_tallies_simps [simp]: "entry_tallies None = no_tallies" "entry_tallies (Some e) = tallies e"
  by (simp_all add: entry_tallies_def)

lemma grows_same: "os_entries st' = os_entries st \<Longrightarrow> grows st st'"
  by (simp add: grows_def tallies_at_def)

lemma grows_set:
  "os_entries st' = map_set key e es \<Longrightarrow> (\<And>j. entry_tallies (map_get es j) = tallies_at st j) \<Longrightarrow>
   below (tallies_at st key) (tallies e) \<Longrightarrow> grows st st'"
  by (simp add: grows_def tallies_at_def map_get_set)

text \<open>An entry created on the way has nothing on its counters.\<close>

lemma entryFor_tallies:
  assumes "entryFor key tn es = Some (e, es')"
  shows "entry_tallies (map_get es' j) = entry_tallies (map_get es j)" "tallies e = entry_tallies (map_get es key)"
  using assms
  by (auto simp: entryFor_def Let_def map_get_set new_entry_def tallies_def tallies_expand ZERO_COUNTS_def EMPTY_COST_def
      emptyCostStats_def emptyMeanStat_def emptyTokenMeans_def split: option.splits)

lemma update_n: "ms_n (updateMean s x cap) = ms_n s + 1" "tm_n (updateTokenMeans t y cap) = tm_n t + 1"
  by (simp_all add: updateMean_def updateTokenMeans_def Let_def)

lemma fold_tallies: "below (tallies e) (tallies (e\<lparr>en_cost := foldAttempt (en_cost e) a cap\<rparr>))"
  by (simp add: tallies_def foldAttempt_def Let_def update_n split: option.split)

lemma grows_fold: "grows st (fold_open a tn st)"
proof (cases "entryFor (oa_key a) tn (os_entries st)")
  case None
  then show ?thesis by (simp add: fold_open_def)
next
  case (Some p)
  obtain e es where p: "p = (e, es)" by (cases p)
  note et = entryFor_tallies [OF Some [unfolded p]]
  show ?thesis
    by (rule grows_set [where key = "oa_key a" and es = es
        and e = "e\<lparr>en_cost := foldAttempt (en_cost e) a (ot_maxEffectiveSamples (os_tuning st))\<rparr>"])
      (use Some p et fold_tallies [of e] in \<open>simp_all add: fold_open_def bump_def put_entry_def tallies_at_def\<close>)
qed

lemma grows_entries: "grows st st' \<Longrightarrow> os_entries st'' = os_entries st' \<Longrightarrow> grows st st''"
  by (simp add: grows_def tallies_at_def)

lemma grows_close: "grows st (closeInternal aid r tn st)"
proof -
  have "grows st (fold_open a tn (st\<lparr>os_open := m\<rparr>))" for a m
    using grows_fold [of "st\<lparr>os_open := m\<rparr>" a tn] by (simp add: grows_def tallies_at_def)
  moreover have "grows st (markClosed aid st') = grows st st'" for st'
    by (simp add: grows_def tallies_at_def markClosed_def)
  ultimately show ?thesis
    by (simp add: closeInternal_def Let_def split: option.split)
qed

lemma grows_step: "grows st (recordStep key s tn1 t tn2 st)"
proof -
  have "grows st (closeInternal aid r tn st')" if "grows st st'" for aid r tn st'
    using grows_trans [OF that grows_close] .
  moreover have "grows st (fold_open a tn st')" if "grows st st'" for a tn st'
    using grows_trans [OF that grows_fold] .
  moreover have "grows st (st'\<lparr>os_open := m\<rparr>) = grows st st'" "grows st (markClosed aid st') = grows st st'" for st' m aid
    by (simp_all add: grows_def tallies_at_def markClosed_def)
  ultimately show ?thesis
    unfolding recordStep_def Let_def by (auto split: list.split)
qed

lemma grows_verdict: "grows st (snd (recordVerdict key v aid step w tn t st))"
proof (cases "v = VUnverifiable \<or> usable_weight w = None \<or> entryFor key tn (os_entries st) = None \<or> map_get (os_scored st) aid \<noteq> None")
  case True
  then show ?thesis
    by (auto simp: recordVerdict_def keep_scored_def intro: grows_same split: option.split)
next
  case False
  then obtain x e es where x: "usable_weight w = Some x" and e: "entryFor key tn (os_entries st) = Some (e, es)"
    by auto
  obtain e' info where r: "recordVerdict key v aid step w tn t st = (True, bump (keep_scored aid info (put_entry key e' es st)))"
    "en_cost e' = en_cost e" and c: "below (tallies e) (tallies e')"
    by (rule recordVerdict_scores [OF _ x _ e, of v aid step t]) (use False in \<open>auto simp: tallies_def Let_def\<close>)
  note et = entryFor_tallies [OF e]
  show ?thesis
    by (rule grows_set [where key = key and e = e' and es = es])
      (use c et in \<open>simp_all add: r bump_def keep_scored_def put_entry_def tallies_at_def\<close>)
qed

section \<open>One key of a merge\<close>

definition merged_at :: "outcome_tuning \<Rightarrow> real \<Rightarrow> (string \<times> jdoc) list \<Rightarrow> string \<Rightarrow> jdoc \<Rightarrow> entry option \<Rightarrow> entry option" where
  "merged_at tun t bs key v live =
     map_get (fst (foreign_step tun t bs (key, v) (case live of None \<Rightarrow> [] | Some e \<Rightarrow> [(key, e)], 0, 0))) key"

lemma absorb_get:
  "map_get (absorb tun t (key, e) es) j =
     (if j = key then map_get (absorb tun t (key, e) (case map_get es key of None \<Rightarrow> [] | Some l \<Rightarrow> [(key, l)])) key else map_get es j)"
  by (auto simp: absorb_def Let_def map_get_set split: option.split)

lemma foreign_step_get:
  "map_get (fst (foreign_step tun t bs (key, v) (es, a, d))) j =
     (if j = key then merged_at tun t bs key v (map_get es key) else map_get es j)"
proof -
  have none: "map_get (case map_get es key of None \<Rightarrow> [] | Some e \<Rightarrow> [(key, e)]) key = map_get es key"
    by (simp split: option.split)
  show ?thesis
    by (cases "readEntry key v"; cases "field_as bs key (readEntry key)")
      (simp_all add: merged_at_def foreign_step_def none map_get_set absorb_get [of tun t key _ es])
qed

lemma foreign_fold_get:
  "distinct (map fst ps) \<Longrightarrow>
   map_get (fst (fold (foreign_step tun t bs) ps (es, a, d))) j =
     (case map_of ps j of None \<Rightarrow> map_get es j | Some v \<Rightarrow> merged_at tun t bs j v (map_get es j))"
proof (induction ps arbitrary: es a d)
  case (Cons p ps)
  obtain k v where p: "p = (k, v)" by (cases p)
  obtain es' a' d' where st: "foreign_step tun t bs (k, v) (es, a, d) = (es', a', d')"
    by (cases "foreign_step tun t bs (k, v) (es, a, d)") auto
  have get: "map_get es' i = (if i = k then merged_at tun t bs k v (map_get es k) else map_get es i)" for i
    using foreign_step_get [of tun t bs k v es a d i] by (simp add: st)
  have "k \<notin> fst ` set ps" using Cons.prems p by simp
  then have "map_of ps k = None" by (simp add: map_of_eq_None_iff)
  with Cons.IH [of es' a' d'] Cons.prems show ?case
    by (auto simp: p st get split: option.split)
qed simp

lemma merge_n: "ms_n (mergeMean a b) = ms_n a + ms_n b" "tm_n (mergeTokenMeans x y) = tm_n x + tm_n y"
  by (simp_all add: mergeMean_def mergeTokenMeans_def emptyTokenMeans_def Let_def)

lemma merge3_n: "ms_n (mergeMean3 a b c) = ms_n a + ms_n b - ms_n c" "tm_n (mergeTokens3 x y z) = tm_n x + tm_n y - tm_n z"
  by (simp_all add: mergeMean3_def mergeTokens3_def emptyTokenMeans_def Let_def)

abbreviation tally_add :: "int list \<Rightarrow> int list \<Rightarrow> int list" where "tally_add \<equiv> map2 (+)"
abbreviation tally_sub :: "int list \<Rightarrow> int list \<Rightarrow> int list" where "tally_sub \<equiv> map2 (-)"

lemma absorb_tallies:
  "entry_tallies (map_get (absorb tun t (key, e) (case live of None \<Rightarrow> [] | Some l \<Rightarrow> [(key, l)])) key) =
     tally_add (entry_tallies live) (tallies e)"
  by (cases live) (simp_all add: absorb_def Let_def tallies_expand tallies_def addCounts_def mergeCostStats_def merge_n)

lemma descendant_tallies:
  assumes "descendsFrom d b" "\<And>l. live = Some l \<Longrightarrow> counts_nonneg (en_counts l)"
  shows "tallies (mergeDescendant live d b now tun) = tally_add (entry_tallies live) (tally_sub (tallies d) (tallies b))"
  using assms
  by (cases live) (simp_all add: descendsFrom_def mergeDescendant_def Let_def tallies_def tallies_expand merge3_n merge_counts3_def
      ZERO_COUNTS_def counts_nonneg_def EMPTY_COST_def emptyCostStats_def emptyMeanStat_def emptyTokenMeans_def of_nat_diff)

lemma tally_zero:
  assumes "length xs = length ys"
  shows "tally_add xs (tally_sub ys ys) = xs"
  using assms by (induction xs ys rule: list_induct2) simp_all

lemma length_no_tallies [simp]: "length no_tallies = 10"
  by (simp add: no_tallies_def)

lemma length_tallies [simp]: "length (tallies e) = 10" "length (entry_tallies o1) = 10"
proof -
  show "length (tallies e) = 10" for e by (simp add: tallies_def Let_def)
  then show "length (entry_tallies o1) = 10" by (cases o1) (simp_all add: no_tallies_def)
qed

lemma sub_zero [simp]: "tally_sub (tallies e) no_tallies = tallies e"
  by (simp add: tallies_def tallies_expand Let_def)

lemma merged_tallies:
  assumes "readEntry key v = Some d" "\<And>l. live = Some l \<Longrightarrow> counts_nonneg (en_counts l)"
    and b: "b = field_as bs key (readEntry key)" and desc: "case b of None \<Rightarrow> True | Some x \<Rightarrow> descendsFrom d x"
  shows "entry_tallies (merged_at tun t bs key v live) = tally_add (entry_tallies live) (tally_sub (tallies d) (entry_tallies b))"
proof -
  let ?es = "case live of None \<Rightarrow> [] | Some e \<Rightarrow> [(key, e)]"
  have get: "map_get ?es key = live" by (simp split: option.split)
  show ?thesis
  proof (cases b)
    case None
    with assms(1) b show ?thesis by (simp add: merged_at_def foreign_step_def absorb_tallies)
  next
    case (Some x)
    show ?thesis
    proof (cases "grewSince d x")
      case True
      with Some assms get show ?thesis
        by (simp add: merged_at_def foreign_step_def descendant_tallies map_get_set)
    next
      case False
      then have "tallies d = tallies x" by (simp add: grewSince_def)
      with False Some assms get show ?thesis
        by (simp add: merged_at_def foreign_step_def tally_zero)
    qed
  qed
qed

lemma below_add: "length xs = length ys \<Longrightarrow> list_all (\<lambda>y. 0 \<le> y) ys \<Longrightarrow> below xs (tally_add xs ys)"
  by (induction xs ys rule: list_induct2) simp_all

lemma sub_nonneg: "below ys xs \<Longrightarrow> list_all (\<lambda>y. 0 \<le> y) (tally_sub xs ys)"
  by (induction ys xs rule: list_all2_induct) simp_all

lemma tallies_nonneg: "entry_ok (k, e) \<Longrightarrow> list_all (\<lambda>y. 0 \<le> y) (tallies e)"
  by (simp add: tallies_def Let_def entry_ok_def counts_nonneg_def)

lemma merged_grows:
  assumes "\<And>l. live = Some l \<Longrightarrow> counts_nonneg (en_counts l)"
  shows "below (entry_tallies live) (entry_tallies (merged_at tun t bs key v live))"
proof -
  let ?es = "case live of None \<Rightarrow> [] | Some e \<Rightarrow> [(key, e)]"
  have get: "map_get ?es key = live" by (simp split: option.split)
  show ?thesis
  proof (cases "readEntry key v")
    case None
    with get show ?thesis by (simp add: merged_at_def foreign_step_def)
  next
    case (Some d)
    have nn: "list_all (\<lambda>y. 0 \<le> y) (tallies d)" by (rule tallies_nonneg [OF readEntry_ok [OF Some]])
    show ?thesis
    proof (cases "case field_as bs key (readEntry key) of None \<Rightarrow> True | Some x \<Rightarrow> descendsFrom d x")
      case True
      have "list_all (\<lambda>y. 0 \<le> y) (tally_sub (tallies d) (entry_tallies (field_as bs key (readEntry key))))"
        using True nn by (auto simp: descendsFrom_def intro: sub_nonneg split: option.splits)
      moreover have "entry_tallies (merged_at tun t bs key v live) =
          tally_add (entry_tallies live) (tally_sub (tallies d) (entry_tallies (field_as bs key (readEntry key))))"
        by (rule merged_tallies [OF Some _ refl True]) (rule assms)
      ultimately show ?thesis by (simp add: below_add)
    next
      case False
      then have "merged_at tun t bs key v live = map_get (absorb tun t (key, d) ?es) key"
        using Some by (cases "field_as bs key (readEntry key)") (simp_all add: merged_at_def foreign_step_def)
      then show ?thesis using nn by (simp add: absorb_tallies below_add)
    qed
  qed
qed

lemma store_counts: "store_ok st \<Longrightarrow> map_get (os_entries st) key = Some e \<Longrightarrow> counts_nonneg (en_counts e)"
  by (auto dest!: map_ok_get [OF store_ok_parts(2)] entry_ok_parts(2))

text \<open>Parsed objects have distinct keys; the merge goes through the disk document once per key.\<close>

lemma merge_get:
  assumes "distinct (map fst (entries_of disk))"
  shows "map_get (os_entries (snd (mergeForeign disk baseline t st))) j =
     (case map_of (entries_of disk) j of None \<Rightarrow> map_get (os_entries st) j
      | Some v \<Rightarrow> merged_at (os_tuning st) t (entries_of baseline) j v (map_get (os_entries st) j))"
  using foreign_fold_get [OF assms, of "os_tuning st" t "entries_of baseline" "os_entries st" 0 0 j]
  by (simp add: mergeForeign_def Let_def split_beta bump_def)

lemma grows_merge:
  assumes "store_ok st" "distinct (map fst (entries_of disk))"
  shows "grows st (snd (mergeForeign disk baseline t st))"
  unfolding grows_def tallies_at_def merge_get [OF assms(2)]
  by (auto intro!: merged_grows store_counts [OF assms(1)] split: option.split)

lemma grows_load:
  assumes "store_ok st"
  shows "grows st (snd (fromSnapshot False doc t st))"
proof -
  have "below (entry_tallies (map_get es j)) (entry_tallies (map_get (fold (absorb tun t) ps es) j))"
    if "\<And>p. p \<in> set ps \<Longrightarrow> entry_ok p" for ps es tun j
    using that
  proof (induction ps arbitrary: es)
    case (Cons p ps)
    obtain k e where p: "p = (k, e)" by (cases p)
    have "list_all (\<lambda>y. 0 \<le> y) (tallies e)" using Cons.prems [of p] p tallies_nonneg by simp
    then have "below (entry_tallies (map_get es j)) (entry_tallies (map_get (absorb tun t (k, e) es) j))"
      by (subst absorb_get) (simp add: absorb_tallies below_add)
    with Cons.IH [of "absorb tun t p es"] Cons.prems p show ?case by (auto intro: below_trans)
  qed simp
  from this [OF valid_entries_ok] show ?thesis
    by (simp add: grows_def tallies_at_def fromSnapshot_def Let_def bump_def)
qed

text \<open>The operations under which the tallies of a key cannot fall.\<close>

fun growing :: "store_op \<Rightarrow> bool" where
  "growing (OpRefusal key aid step tn t) = False"
| "growing (OpLoad replace doc t) = (\<not> replace)"
| "growing (OpMerge disk baseline t) = distinct (map fst (entries_of disk))"
| "growing _ = True"

lemma grows_op:
  assumes ok: "store_ok st" and "growing op"
  shows "grows st (apply_op op st)"
proof (cases op)
  case (OpSweep idle t tn)
  have "grows st (fold (\<lambda>aid s. closeInternal aid True (tn aid) s) ids st)" for ids
    by (induction ids arbitrary: st) (auto intro: grows_trans grows_close)
  with OpSweep show ?thesis by (simp add: sweepAttempts_def Let_def)
next
  case (OpPosterior key prior t)
  have "grows st (restamped key t st)"
    by (auto simp: restamped_def bump_def grows_def tallies_at_def map_get_set tallies_def Let_def split: option.split)
  with OpPosterior show ?thesis by (simp add: store_posterior_def Let_def)
qed (use assms in \<open>simp_all add: grows_verdict grows_step grows_close closeAttempt_def grows_load grows_merge grows_same configure_def\<close>)

lemma grows_after: "store_ok st \<Longrightarrow> list_all growing ops \<Longrightarrow> grows st (store_after ops st)"
proof (induction ops arbitrary: st)
  case Nil
  then show ?case by (simp add: store_after_def)
next
  case (Cons op ops)
  from Cons.IH [OF apply_op_ok [OF Cons.prems(1)]] grows_op [OF Cons.prems(1)] Cons.prems(2) show ?case
    by (auto simp: store_after_def intro: grows_trans)
qed

section \<open>Merging snapshots\<close>

lemma snapshot_keys: "store_ok st \<Longrightarrow> distinct (map fst (entries_of (snapshot st)))"
  using distinct_store_keys [of st] by (simp add: entries_of_snapshot snapshot_list_def comp_def)

lemma snapshot_get:
  assumes "store_ok st"
  shows "map_of (entries_of (snapshot st)) k = map_option entrySnapshot (map_get (os_entries st) k)"
  using snapshot_map [OF assms] by (simp add: entries_of_snapshot map_of_map)

lemma snapshot_field:
  assumes "store_ok st"
  shows "field_as (entries_of (snapshot st)) k (readEntry k) = map_get (os_entries st) k"
proof (cases "map_get (os_entries st) k")
  case None
  with assms show ?thesis by (simp add: field_as_def snapshot_get)
next
  case (Some e)
  with read_entry_snapshot [OF map_ok_get [OF store_ok_parts(2) [OF assms] Some]] assms show ?thesis
    by (simp add: field_as_def snapshot_get)
qed

lemma merge_exact:
  assumes ok: "store_ok live" "store_ok base" "store_ok disk" and grow: "grows base disk"
  shows "tallies_at (snd (mergeForeign (snapshot disk) (snapshot base) t live)) key =
     tally_add (tallies_at live key) (tally_sub (tallies_at disk key) (tallies_at base key))"
proof (cases "map_get (os_entries disk) key")
  case None
  have "below (tallies_at base key) no_tallies"
    using grow None by (simp add: grows_def tallies_at_def) (metis entry_tallies_simps(1))
  moreover have "list_all (\<lambda>y. 0 \<le> y) (tallies_at base key)"
    by (cases "map_get (os_entries base) key")
      (auto simp: tallies_at_def no_tallies_def numeral_eq_Suc dest!: map_ok_get [OF store_ok_parts(2) [OF ok(2)]] tallies_nonneg)
  ultimately have "tallies_at base key = no_tallies"
    by (auto simp: tallies_expand list_all2_Cons2)
  with None ok show ?thesis
    by (simp add: tallies_at_def merge_get [OF snapshot_keys] snapshot_get tally_zero)
next
  case (Some d)
  have "case map_get (os_entries base) key of None \<Rightarrow> True | Some x \<Rightarrow> descendsFrom d x"
    using grow Some by (auto simp: grows_def tallies_at_def descendsFrom_def split: option.split) (metis entry_tallies_simps(2))
  from merged_tallies [OF read_entry_snapshot [OF map_ok_get [OF store_ok_parts(2) [OF ok(3)] Some]]
      store_counts [OF ok(1)] snapshot_field [OF ok(2), symmetric] this] Some ok
  show ?thesis by (simp add: tallies_at_def merge_get [OF snapshot_keys] snapshot_get)
qed

text \<open>(C18) No record is lost or counted twice between processes: when another process continued from a shared state with
  verdicts, steps, sweeps, reads, loads and merges of its own, merging its snapshot against that shared state adds to every
  counter and every sample count of every key exactly what the other process added, whatever this process recorded meanwhile.\<close>

theorem merge_adds_what_others_added:
  assumes "list_all growing theirs"
    and "base = store_after shared (createOutcomeStore half cap mo ms)" and "live = store_after ours (createOutcomeStore half' cap' mo' ms')"
  shows "tallies_at (snd (mergeForeign (snapshot (store_after theirs base)) (snapshot base) t live)) key =
     tally_add (tallies_at live key) (tally_sub (tallies_at (store_after theirs base) key) (tallies_at base key))"
proof -
  have "store_ok base" "store_ok live" by (simp_all add: assms(2,3) store_after_ok create_ok)
  then show ?thesis by (intro merge_exact grows_after assms(1) store_after_ok)
qed

theorem merge_adds_what_others_added_witness:
  "take 2 (tallies_at (snd (mergeForeign (snapshot (store_after [OpVerdict demo_key VFail ''a0'' StepDispatch (Fin 1) 0 0] demo_store))
     (snapshot demo_store) 7 demo_store)) demo_key) = [0, 1]"
proof -
  have start: "demo_store = store_after [] (createOutcomeStore None None None None)"
    by (simp add: demo_store_def store_after_def)
  have none: "tallies_at demo_store demo_key = no_tallies"
    by (simp add: tallies_at_def demo_store_def createOutcomeStore_def)
  obtain e where "map_get (os_entries demo_failed) demo_key = Some e" "en_counts e = ZERO_COUNTS\<lparr>oc_fail := 1\<rparr>"
    by (rule demo_failed_entry)
  then have "take 2 (tallies_at (store_after [OpVerdict demo_key VFail ''a0'' StepDispatch (Fin 1) 0 0] demo_store) demo_key) = [0, 1]"
    by (simp add: tallies_at_def demo_failed_def tallies_def ZERO_COUNTS_def Let_def)
  then show ?thesis
    by (subst merge_adds_what_others_added [OF _ start start])
      (simp_all add: none take_map take_zip tallies_expand numeral_eq_Suc)
qed

section \<open>The lineage test and corrected passes\<close>

text \<open>(C31) The lineage test mistakes a correction for a reset. \<^verbatim>\<open>descendsFrom\<close> takes a counter that is lower on disk than in
  the shared state as the sign of a new file, on the ground that counters only grow; but a false refusal moves a pass to the
  failures. So when another process took back one pass of a key since the last sync, the merge adds the whole entry of that
  process on top of this one's: everything both already shared is counted twice, instead of one pass less and one failure more.\<close>

theorem corrected_pass_counts_twice:
  assumes "base = store_after shared (createOutcomeStore half cap mo ms)" and "live = store_after ours (createOutcomeStore half' cap' mo' ms')"
    and e: "map_get (os_entries base) key = Some e" and l: "map_get (os_entries live) key = Some l"
    and p: "map_get (os_scored base) aid = Some p" "sc_kind p = ScPass" "sc_key p = key" and pos: "0 < oc_pass (en_counts e)"
  shows "let disk = snd (recordFalseRefusal key aid step tn t2 base); merged = snd (mergeForeign (snapshot disk) (snapshot base) t live)
         in tallies_at disk key ! 0 = oc_pass (en_counts e) - 1 \<and> tallies_at disk key ! 1 = oc_fail (en_counts e) + 1 \<and>
            tallies_at merged key ! 0 = oc_pass (en_counts l) + oc_pass (en_counts e) - 1 \<and>
            tallies_at merged key ! 1 = oc_fail (en_counts l) + oc_fail (en_counts e) + 1"
proof -
  have ok: "store_ok base" "store_ok live" by (simp_all add: assms(1,2) store_after_ok create_ok)
  define disk where "disk = snd (recordFalseRefusal key aid step tn t2 base)"
  have okd: "store_ok disk" unfolding disk_def by (rule recordFalseRefusal_ok [OF ok(1)])
  obtain d where d: "map_get (os_entries disk) key = Some d" "oc_pass (en_counts d) = oc_pass (en_counts e) - 1"
    "oc_fail (en_counts d) = oc_fail (en_counts e) + 1"
    using refusal_of_pass [OF ok(1) e p disk_def refl] pos by fastforce
  have "\<not> descendsFrom d e" using d(2) by (simp add: descendsFrom_def tallies_def Let_def)
  then have "merged_at (os_tuning live) t (entries_of (snapshot base)) key (entrySnapshot d) (Some l) =
      map_get (absorb (os_tuning live) t (key, d) [(key, l)]) key"
    using read_entry_snapshot [OF map_ok_get [OF store_ok_parts(2) [OF okd] d(1)]] e
    by (simp add: merged_at_def foreign_step_def snapshot_field [OF ok(1)])
  with d l absorb_tallies [of "os_tuning live" t key d "Some l"] okd
  have "tallies_at (snd (mergeForeign (snapshot disk) (snapshot base) t live)) key = tally_add (tallies l) (tallies d)"
    by (simp add: tallies_at_def merge_get [OF snapshot_keys [OF okd]] snapshot_get)
  then show ?thesis
    using d by (simp add: disk_def [symmetric] Let_def tallies_at_def) (simp add: tallies_def Let_def)
qed

text \<open>One attempt in the world: it passed, both processes know; its process takes the pass back; the other one then
  counts one pass and one failure.\<close>

definition demo_passed :: outcome_store where
  "demo_passed = store_after [OpVerdict demo_key VPass ''a0'' StepDispatch (Fin 1) 0 0] (createOutcomeStore None None None None)"

definition demo_peer :: outcome_store where
  "demo_peer = store_after [OpLoad True (snapshot demo_passed) 0] (createOutcomeStore None None None None)"

lemma demo_passed_entry:
  obtains e p where "map_get (os_entries demo_passed) demo_key = Some e" "en_counts e = ZERO_COUNTS\<lparr>oc_pass := 1\<rparr>"
    "map_get (os_scored demo_passed) ''a0'' = Some p" "sc_kind p = ScPass" "sc_key p = demo_key"
proof -
  obtain kp where kp: "parseKey demo_key = Some kp" using demo_parse by auto
  show thesis
    by (rule that)
      (simp_all add: demo_passed_def store_after_def recordVerdict_def usable_weight_def entryFor_def kp new_entry_def
        bump_def keep_scored_def put_entry_def Let_def b2i_def ZERO_COUNTS_def createOutcomeStore_def limit_of_def
        DEFAULT_MAX_SCORED_ATTEMPTS_def remember_get)+
qed

theorem corrected_pass_counts_twice_witness:
  "let disk = snd (recordFalseRefusal demo_key ''a0'' StepDispatch 0 0 demo_passed);
       merged = snd (mergeForeign (snapshot disk) (snapshot demo_passed) 0 demo_peer)
   in map (\<lambda>i. tallies_at disk demo_key ! i) [0, 1] = [0, 1] \<and> map (\<lambda>i. tallies_at merged demo_key ! i) [0, 1] = [1, 1]"
proof -
  obtain e p where e: "map_get (os_entries demo_passed) demo_key = Some e" "en_counts e = ZERO_COUNTS\<lparr>oc_pass := 1\<rparr>"
    "map_get (os_scored demo_passed) ''a0'' = Some p" "sc_kind p = ScPass" "sc_key p = demo_key"
    by (rule demo_passed_entry)
  have ok: "store_ok demo_passed" unfolding demo_passed_def by (rule store_after_ok [OF create_ok])
  have "map_get (os_entries demo_peer) demo_key = Some (stamped 0 e)"
    using load_snapshot(2) [OF ok, of 0 "createOutcomeStore None None None None"] snapshot_map [OF ok] e(1)
    by (simp add: demo_peer_def store_after_def map_of_map)
  from corrected_pass_counts_twice [OF demo_passed_def demo_peer_def e(1) this e(3-5)]
  show ?thesis by (simp add: e(2) stamped_def ZERO_COUNTS_def Let_def)
qed

end
