(* ===== verification/Verify_Types.thy ===== *)
theory Verify_Types
  imports Json_Doc
begin

text \<open>
  The data of the verification layer, \<^verbatim>\<open>src/verify/types.ts\<close>, \<^verbatim>\<open>dod.ts\<close> and \<^verbatim>\<open>risk.ts\<close>: verdicts, definitions
  of done, change sets, dispatch references and risk assessments. Absent optional fields are \<open>None\<close>.
\<close>

datatype check_kind = CkRun | CkFileExists | CkSchemaMatch | CkTestsPass | CkBuildPasses | CkLintClean

record check =
  ck_kind :: check_kind
  ck_command :: "string option"
  ck_expect :: "string option"
  ck_path :: "string option"
  ck_schema :: "string option"

datatype dod_kind = DodDeterministic | DodChecker | DodNone
datatype dod_source = SrcExplicit | SrcInferred | SrcAnnotation | SrcNone

record dod =
  dd_kind :: dod_kind
  dd_checks :: "check list"
  dd_criteria :: "string list"
  dd_deliverable :: "string option"
  dd_source :: dod_source
  dd_cwd :: "string option"

datatype verify_method = MethodDeterministic | MethodChecker | MethodNone
datatype gate_outcome = OutPass | OutFail | OutUnverifiable

record failure_classification =
  fc_introduced :: "string list"
  fc_preexisting :: "string list"
  fc_unknown :: "string list"

record gate_verdict =
  gv_pass :: bool
  gv_outcome :: "gate_outcome option"
  gv_caveats :: "string list option"
  gv_notes :: "string list option"
  gv_method :: verify_method
  gv_reasons :: "string list"
  gv_evidence :: "string option"
  gv_skipped :: "bool option"
  gv_failures :: "failure_classification option"
  gv_grader :: "(string \<times> string option) option"

text \<open>A verdict with only the three mandatory fields.\<close>

definition plain_verdict :: "bool \<Rightarrow> verify_method \<Rightarrow> string list \<Rightarrow> gate_verdict" where
  "plain_verdict pass mtd reasons =
     \<lparr>gv_pass = pass, gv_outcome = None, gv_caveats = None, gv_notes = None, gv_method = mtd, gv_reasons = reasons,
      gv_evidence = None, gv_skipped = None, gv_failures = None, gv_grader = None\<rparr>"

text \<open>\<^verbatim>\<open>verdict.outcome ?? (verdict.pass ? "pass" : "fail")\<close>.\<close>

definition outcome_of :: "gate_verdict \<Rightarrow> gate_outcome" where
  "outcome_of v = or_else (gv_outcome v) (if gv_pass v then OutPass else OutFail)"

record changed_path =
  cp_path :: string
  cp_status :: "string option"
  cp_previousPath :: "string option"

datatype change_set = FilesUnavailable | ChangedFiles "changed_path list"

text \<open>Of a captured dispatch reference only the tracked and untracked path maps matter here, as their keys.\<close>

record dispatch_reference =
  dr_untracked :: "string list"
  dr_tracked :: "string list"

datatype reference_state = RefCaptured dispatch_reference | RefDisabled | RefNone string

datatype risk_level = LevelLow | LevelMedium | LevelHigh

record risk_assessment =
  ra_level :: risk_level
  ra_reasons :: "string list"

end
