(* ===== verification/Pending.thy ===== *)
theory Pending
  imports Verify_Types
begin

text \<open>
  The registry of deferred delegations, \<^verbatim>\<open>createPendingRegistry\<close> of \<^verbatim>\<open>src/verify/pending.ts\<close>. An entry object is
  shared by the two indexes of the code (per session and by handle); here the session index holds the handles in
  insertion order and the entry is found by handle. A run promise is its number, \<open>rg_resolved\<close> lists the
  runs that were resolved with their results, \<open>rg_evictions\<close> the calls of the eviction hook. A claim of a run is
  the handle and the number of the run. Clock readings are arguments; \<open>sanitize\<close> of the options stands for
  \<^verbatim>\<open>sanitizeDescription\<close>, whose character rules are not modelled.
\<close>

section \<open>Constants and data\<close>

definition HANDLE_PREFIX :: string where "HANDLE_PREFIX = ''vrf_''"
definition HANDLE_RANDOM_BYTES :: nat where "HANDLE_RANDOM_BYTES = 12"
definition HANDLE_MAX_DRAWS :: nat where "HANDLE_MAX_DRAWS = 4"
definition MAX_ENTRIES_PER_SESSION :: nat where "MAX_ENTRIES_PER_SESSION = 32"
definition MAX_ENTRIES_GLOBAL :: nat where "MAX_ENTRIES_GLOBAL = 128"
definition MAX_GLOBAL_WEIGHT :: nat where "MAX_GLOBAL_WEIGHT = 100000"
definition MAX_STORED_CHANGED_FILES :: nat where "MAX_STORED_CHANGED_FILES = 500"
definition TOMBSTONE_MAX :: nat where "TOMBSTONE_MAX = 512"
definition MAX_LEDGER_PER_SESSION :: nat where "MAX_LEDGER_PER_SESSION = 16"
definition MAX_LEDGER_IDS :: nat where "MAX_LEDGER_IDS = 50"
definition REFERENCE_FAILED_REASON :: string where "REFERENCE_FAILED_REASON = ''reference capture failed''"
definition RELEASED_REASON :: string where "RELEASED_REASON = ''reference released after verification''"
definition ABANDONED_REASON :: string where "ABANDONED_REASON = ''verification run abandoned before it settled''"
definition DISPOSED_REASON :: string where "DISPOSED_REASON = ''verification registry disposed''"
definition REFERENCE_SHED_REASON :: string where
  "REFERENCE_SHED_REASON = ''reference dropped at the pending registry's memory bound''"

datatype pending_state = Unverified | Verifying | Verified

record verification_result =
  vr_verdict :: gate_verdict
  vr_retryable :: bool
  vr_introduced :: "string list option"
  vr_driftedPaths :: "string list option"
  vr_nextTier :: "string option"
  vr_background :: bool

record settled_verification =
  sv_result :: verification_result
  sv_handle :: string
  sv_settledAt :: real

text \<open>A stored promise: the registered one (by number), or one already resolved with a state.\<close>

datatype stored_reference = StoredPromise nat | StoredState reference_state

record registration =
  pr_session :: string
  pr_dispatchID :: string
  pr_producer :: string
  pr_producerTier :: string
  pr_description :: string
  pr_cwd :: string
  pr_root :: "string option"
  pr_dispatchedAt :: real
  pr_dod :: dod
  pr_reference :: nat
  pr_changedFiles :: change_set
  pr_risk :: risk_assessment
  pr_digests :: "nat option"
  pr_concurrentDispatches :: "nat option"
  pr_contaminatedBy :: "string option"

record entry_record =
  pe_handle :: string
  pe_seq :: nat
  pe_session :: string
  pe_dispatchID :: string
  pe_producer :: string
  pe_producerTier :: string
  pe_description :: string
  pe_cwd :: string
  pe_root :: "string option"
  pe_dispatchedAt :: real
  pe_createdAt :: real
  pe_risk :: risk_assessment
  pe_changedFilesDropped :: nat
  pe_concurrentDispatches :: "nat option"
  pe_contaminatedBy :: "string option"
  pe_dod :: "dod option"
  pe_reference :: stored_reference
  pe_changedFiles :: change_set
  pe_digests :: "nat option"
  pe_state :: pending_state
  pe_verifyingSince :: "real option"
  pe_result :: "settled_verification option"
  pe_run :: "nat option"
  pe_pathWeight :: nat
  pe_refWeight :: nat
  pe_released :: bool
  pe_doomed :: bool
  pe_replayed :: bool

record rejection_record =
  rj_session :: string
  rj_root :: string
  rj_label :: string
  rj_landedAt :: real
  rj_introduced :: "string list"

datatype eviction_cause = EvTtl | EvSessionCap | EvGlobalCap | EvWeightCap | EvSessionGone | EvDisposed

record registry_options =
  ro_ttlMs :: real
  ro_maxVerifyingMs :: real
  ro_maxPerSession :: nat
  ro_maxGlobal :: nat
  ro_maxWeight :: nat
  ro_sanitize :: "string \<Rightarrow> string"

record registry =
  rg_sessions :: "(string, string list) jsmap"
  rg_byHandle :: "(string, entry_record) jsmap"
  rg_tombstones :: "(string, string) jsmap"
  rg_ledger :: "(string, (rejection_record \<times> real) list) jsmap"
  rg_seq :: nat
  rg_weight :: int
  rg_runs :: nat
  rg_resolved :: "(nat \<times> settled_verification) list"
  rg_evictions :: "(entry_record \<times> eviction_cause) list"

definition emptyRegistry :: registry where
  "emptyRegistry = \<lparr>rg_sessions = [], rg_byHandle = [], rg_tombstones = [], rg_ledger = [], rg_seq = 0, rg_weight = 0,
     rg_runs = 0, rg_resolved = [], rg_evictions = []\<rparr>"

section \<open>Handles\<close>

definition handle_digit :: "nat \<Rightarrow> char" where
  "handle_digit n = ''0123456789abcdef'' ! n"

definition toHex :: "nat list \<Rightarrow> string" where
  "toHex bytes = concat (map (\<lambda>b. [handle_digit (b div 16), handle_digit (b mod 16)]) bytes)"

text \<open>\<^verbatim>\<open>HANDLE_PATTERN\<close>: the prefix and 24 lower-case hex digits.\<close>

definition is_handle :: "string \<Rightarrow> bool" where
  "is_handle s \<longleftrightarrow> take 4 s = HANDLE_PREFIX \<and> length s = 28 \<and> list_all (\<lambda>c. c \<in> set ''0123456789abcdef'') (drop 4 s)"

text \<open>The draws are the byte strings the random source would give in turn.\<close>

fun drawHandle :: "registry \<Rightarrow> nat list list \<Rightarrow> string option" where
  "drawHandle st [] = None"
| "drawHandle st (bytes # rest) =
     (let candidate = HANDLE_PREFIX @ toHex bytes in
      if \<not> is_handle candidate then drawHandle st rest
      else if map_get (rg_byHandle st) candidate \<noteq> None \<or> map_get (rg_tombstones st) candidate \<noteq> None then drawHandle st rest
      else Some candidate)"

section \<open>Eviction, release and runs\<close>

definition addTombstone :: "string \<Rightarrow> string \<Rightarrow> registry \<Rightarrow> registry" where
  "addTombstone h sid st = st\<lparr>rg_tombstones := remember h sid TOMBSTONE_MAX (rg_tombstones st)\<rparr>"

definition drop_handle :: "string \<Rightarrow> string \<Rightarrow> (string, string list) jsmap \<Rightarrow> (string, string list) jsmap" where
  "drop_handle sid h ss =
     (case map_get ss sid of None \<Rightarrow> ss
      | Some hs \<Rightarrow> (let hs' = filter (\<lambda>j. j \<noteq> h) hs in if hs' = [] then map_delete sid ss else map_set sid hs' ss))"

definition entry_weight :: "entry_record \<Rightarrow> nat" where
  "entry_weight r = pe_pathWeight r + pe_refWeight r"

definition evict_entry :: "string \<Rightarrow> eviction_cause \<Rightarrow> registry \<Rightarrow> registry" where
  "evict_entry h cause st =
     (case map_get (rg_byHandle st) h of None \<Rightarrow> st
      | Some r \<Rightarrow>
          (let st1 = st\<lparr>rg_sessions := drop_handle (pe_session r) h (rg_sessions st), rg_byHandle := map_delete h (rg_byHandle st),
                        rg_weight := rg_weight st - int (entry_weight r)\<rparr>
           in (addTombstone h (pe_session r) st1)\<lparr>rg_evictions := rg_evictions st @ [(r, cause)]\<rparr>))"

definition put_rec :: "entry_record \<Rightarrow> registry \<Rightarrow> registry" where
  "put_rec r st = st\<lparr>rg_byHandle := map_set (pe_handle r) r (rg_byHandle st)\<rparr>"

definition released :: "entry_record \<Rightarrow> entry_record" where
  "released r = r\<lparr>pe_pathWeight := 0, pe_refWeight := 0, pe_released := True, pe_dod := None, pe_digests := None,
     pe_changedFiles := FilesUnavailable, pe_reference := StoredState (RefNone RELEASED_REASON)\<rparr>"

definition finishRun :: "entry_record \<Rightarrow> settled_verification \<Rightarrow> registry \<Rightarrow> registry" where
  "finishRun r settled st =
     (let r1 = r\<lparr>pe_run := None, pe_verifyingSince := None, pe_result := Some settled\<rparr>;
          st1 = (if vr_retryable (sv_result settled) then put_rec (r1\<lparr>pe_state := Unverified\<rparr>) st
                 else (put_rec (released (r1\<lparr>pe_state := Verified\<rparr>)) st)\<lparr>rg_weight := rg_weight st - int (entry_weight r)\<rparr>)
      in st1\<lparr>rg_resolved := rg_resolved st @ (case pe_run r of None \<Rightarrow> [] | Some run \<Rightarrow> [(run, settled)])\<rparr>)"

definition syntheticVerdict :: "string \<Rightarrow> gate_verdict" where
  "syntheticVerdict reason =
     (plain_verdict False MethodDeterministic [reason])\<lparr>gv_outcome := Some OutUnverifiable, gv_caveats := Some [reason]\<rparr>"

definition synthetic_settled :: "string \<Rightarrow> string \<Rightarrow> real \<Rightarrow> settled_verification" where
  "synthetic_settled reason h t =
     \<lparr>sv_result = \<lparr>vr_verdict = syntheticVerdict reason, vr_retryable = True, vr_introduced = None, vr_driftedPaths = None,
        vr_nextTier = None, vr_background = False\<rparr>, sv_handle = h, sv_settledAt = t\<rparr>"

definition isExpired :: "registry_options \<Rightarrow> entry_record \<Rightarrow> real \<Rightarrow> bool" where
  "isExpired opt r t \<longleftrightarrow> ro_ttlMs opt \<le> t - pe_createdAt r"

section \<open>The rejection ledger\<close>

definition recordRejection :: "rejection_record \<Rightarrow> real \<Rightarrow> registry \<Rightarrow> registry" where
  "recordRejection rec t st =
     (if rj_session rec = [] \<or> rj_root rec = [] \<or> rj_introduced rec = [] then st
      else
        (let stored = rec\<lparr>rj_introduced := take MAX_LEDGER_IDS (rj_introduced rec)\<rparr>;
             kept = filter (\<lambda>(l, _). rj_label l \<noteq> rj_label rec \<or> rj_root l \<noteq> rj_root rec)
                      (or_else (map_get (rg_ledger st) (rj_session rec)) []);
             appended = kept @ [(stored, t)]
         in st\<lparr>rg_ledger := map_set (rj_session rec) (drop (length appended - MAX_LEDGER_PER_SESSION) appended) (rg_ledger st)\<rparr>))"

definition expire_ledger :: "registry_options \<Rightarrow> real \<Rightarrow> registry \<Rightarrow> registry" where
  "expire_ledger opt t st =
     st\<lparr>rg_ledger := filter (\<lambda>(_, l). l \<noteq> []) (map (\<lambda>(sid, l). (sid, filter (\<lambda>(_, at'). t - at' < ro_ttlMs opt) l)) (rg_ledger st))\<rparr>"

section \<open>Upkeep\<close>

text \<open>One entry: a run past its bound is resolved as abandoned, then a doomed or expired entry goes.\<close>

definition overdue :: "registry_options \<Rightarrow> real \<Rightarrow> entry_record \<Rightarrow> bool" where
  "overdue opt t r \<longleftrightarrow> pe_state r = Verifying \<and>
     (case pe_verifyingSince r of None \<Rightarrow> False | Some since \<Rightarrow> since + ro_maxVerifyingMs opt \<le> t)"

definition maintain_one :: "registry_options \<Rightarrow> real \<Rightarrow> string \<Rightarrow> nat \<times> registry \<Rightarrow> nat \<times> registry" where
  "maintain_one opt t h acc =
     (case acc of (n, st) \<Rightarrow>
       (case map_get (rg_byHandle st) h of None \<Rightarrow> (n, st)
        | Some r \<Rightarrow>
            (let st1 = (if overdue opt t r then finishRun r (synthetic_settled ABANDONED_REASON h t) st else st);
                 verifying = (pe_state r = Verifying \<and> \<not> overdue opt t r)
             in if verifying then (n, st1)
                else if pe_doomed r then (n + 1, evict_entry h EvSessionGone st1)
                else if isExpired opt r t then (n + 1, evict_entry h EvTtl st1)
                else (n, st1))))"

definition maintain :: "registry_options \<Rightarrow> real \<Rightarrow> registry \<Rightarrow> nat \<times> registry" where
  "maintain opt t st =
     (let (n, st1) = fold (maintain_one opt t) (map_keys (rg_byHandle st)) (0, st) in (n, expire_ledger opt t st1))"

definition registry_sweep :: "registry_options \<Rightarrow> real \<Rightarrow> registry \<Rightarrow> nat \<times> registry" where
  "registry_sweep opt t st = maintain opt t st"

section \<open>Lookup\<close>

datatype lookup = Found entry_record | Expired | Unknown

definition lookup_entry :: "string \<Rightarrow> string \<Rightarrow> registry \<Rightarrow> lookup" where
  "lookup_entry sid h st =
     (case (if h \<in> set (or_else (map_get (rg_sessions st) sid) []) then map_get (rg_byHandle st) h else None) of
        Some r \<Rightarrow> Found r
      | None \<Rightarrow> if map_get (rg_tombstones st) h = Some sid then Expired else Unknown)"

definition get_entry :: "registry_options \<Rightarrow> string \<Rightarrow> string \<Rightarrow> real \<Rightarrow> registry \<Rightarrow> lookup \<times> registry" where
  "get_entry opt sid h t st = (let st1 = snd (maintain opt t st) in (lookup_entry sid h st1, st1))"

definition awaitsReplay :: "entry_record \<Rightarrow> bool" where
  "awaitsReplay r \<longleftrightarrow> pe_state r = Verified \<and> \<not> pe_replayed r \<and>
     (case pe_result r of None \<Rightarrow> False
      | Some s \<Rightarrow> vr_background (sv_result s) \<and> outcome_of (vr_verdict (sv_result s)) \<noteq> OutPass)"

text \<open>The records of a session, in the insertion order of its index.\<close>

definition session_records :: "string \<Rightarrow> registry \<Rightarrow> entry_record list" where
  "session_records sid st = List.map_filter (map_get (rg_byHandle st)) (or_else (map_get (rg_sessions st) sid) [])"

text \<open>Sorted by creation, then by sequence number.\<close>

definition by_age :: "entry_record list \<Rightarrow> entry_record list" where
  "by_age rs = sort_key pe_createdAt (sort_key pe_seq rs)"

definition evictionCandidates :: "entry_record list \<Rightarrow> entry_record list" where
  "evictionCandidates rs = by_age (filter (\<lambda>r. pe_state r = Verified \<and> \<not> awaitsReplay r) rs)"

definition newest_first :: "entry_record list \<Rightarrow> entry_record list" where
  "newest_first rs = rev (by_age rs)"

definition listByState :: "registry_options \<Rightarrow> string \<Rightarrow> pending_state list \<Rightarrow> real \<Rightarrow> registry \<Rightarrow> entry_record list \<times> registry" where
  "listByState opt sid states t st =
     (let st1 = snd (maintain opt t st) in
      (newest_first (filter (\<lambda>r. pe_state r \<in> set states) (session_records sid st1)), st1))"

definition listUnverified :: "registry_options \<Rightarrow> string \<Rightarrow> int option \<Rightarrow> real \<Rightarrow> registry \<Rightarrow> entry_record list \<times> registry" where
  "listUnverified opt sid count t st =
     (let (rs, st1) = listByState opt sid [Unverified] t st in
      (case count of None \<Rightarrow> rs | Some n \<Rightarrow> take (nat (max 0 n)) rs, st1))"

definition listOpen :: "registry_options \<Rightarrow> string \<Rightarrow> real \<Rightarrow> registry \<Rightarrow> entry_record list \<times> registry" where
  "listOpen opt sid t st = listByState opt sid [Unverified, Verifying] t st"

definition listPending :: "registry_options \<Rightarrow> string \<Rightarrow> bool \<Rightarrow> real \<Rightarrow> registry \<Rightarrow> entry_record list \<times> registry" where
  "listPending opt sid verifying t st =
     (let (rs, st1) = listByState opt sid (if verifying then [Unverified, Verifying, Verified] else [Unverified, Verified]) t st in
      (filter (\<lambda>r. pe_state r \<noteq> Verified \<or> awaitsReplay r) rs, st1))"

definition markReplayed :: "string \<Rightarrow> string list \<Rightarrow> registry \<Rightarrow> registry" where
  "markReplayed sid handles st =
     fold (\<lambda>h s. if h \<in> set (or_else (map_get (rg_sessions s) sid) [])
                  then (case map_get (rg_byHandle s) h of None \<Rightarrow> s | Some r \<Rightarrow> put_rec (r\<lparr>pe_replayed := True\<rparr>) s) else s) handles st"

section \<open>Registration\<close>

datatype register_error = InvalidInput | RegistryFull | HandleCollision

definition stored_changes :: "change_set \<Rightarrow> change_set \<times> nat" where
  "stored_changes cs =
     (case cs of FilesUnavailable \<Rightarrow> (FilesUnavailable, 0)
      | ChangedFiles fs \<Rightarrow> if MAX_STORED_CHANGED_FILES < length fs then (FilesUnavailable, length fs) else (ChangedFiles fs, 0))"

definition path_weight :: "change_set \<Rightarrow> nat" where
  "path_weight cs = (case cs of FilesUnavailable \<Rightarrow> 0 | ChangedFiles fs \<Rightarrow> length fs)"

text \<open>The victims of the session cap: as many of the oldest as are needed.\<close>

fun session_victims :: "nat \<Rightarrow> entry_record list \<Rightarrow> nat \<Rightarrow> entry_record list \<times> nat" where
  "session_victims cap [] n = ([], n)"
| "session_victims cap (r # rs) n =
     (if n + 1 \<le> cap then ([], n) else (case session_victims cap rs (n - 1) of (vs, m) \<Rightarrow> (r # vs, m)))"

text \<open>The victims of the global caps, those of the session cap passed over; the counts left.\<close>

fun global_victims :: "nat \<Rightarrow> nat \<Rightarrow> nat \<Rightarrow> string list \<Rightarrow> entry_record list \<Rightarrow> nat \<Rightarrow> int \<Rightarrow>
    (entry_record \<times> eviction_cause) list \<times> nat \<times> int" where
  "global_victims cap wcap pw chosen [] n w = ([], n, w)"
| "global_victims cap wcap pw chosen (r # rs) n w =
     (if n + 1 \<le> cap \<and> w + int pw \<le> int wcap then ([], n, w)
      else if pe_handle r \<in> set chosen then global_victims cap wcap pw chosen rs n w
      else (case global_victims cap wcap pw chosen rs (n - 1) (w - int (entry_weight r)) of
              (vs, m, w') \<Rightarrow> ((r, if cap < n + 1 then EvGlobalCap else EvWeightCap) # vs, m, w')))"

definition plan_evictions :: "registry_options \<Rightarrow> string \<Rightarrow> nat \<Rightarrow> registry \<Rightarrow> (entry_record \<times> eviction_cause) list option" where
  "plan_evictions opt sid pw st =
     (let (vs, n) = (case map_get (rg_sessions st) sid of
                       None \<Rightarrow> ([], 0)
                     | Some hs \<Rightarrow> session_victims (ro_maxPerSession opt) (evictionCandidates (session_records sid st)) (length hs))
      in if ro_maxPerSession opt < n + 1 then None
         else
           (let (gs, m, w) = global_victims (ro_maxGlobal opt) (ro_maxWeight opt) pw (map pe_handle vs)
                   (evictionCandidates (map snd (rg_byHandle st))) (length (rg_byHandle st) - length vs)
                   (rg_weight st - int (sum_list (map entry_weight vs)))
            in if ro_maxGlobal opt < m + 1 \<or> int (ro_maxWeight opt) < w + int pw then None
               else Some (map (\<lambda>r. (r, EvSessionCap)) vs @ gs)))"

definition new_record :: "registry_options \<Rightarrow> registration \<Rightarrow> string \<Rightarrow> nat \<Rightarrow> real \<Rightarrow> entry_record" where
  "new_record opt reg h seq t =
     (let (files, dropped) = stored_changes (pr_changedFiles reg) in
      \<lparr>pe_handle = h, pe_seq = seq, pe_session = pr_session reg, pe_dispatchID = pr_dispatchID reg, pe_producer = pr_producer reg,
       pe_producerTier = pr_producerTier reg, pe_description = ro_sanitize opt (pr_description reg), pe_cwd = pr_cwd reg,
       pe_root = pr_root reg, pe_dispatchedAt = pr_dispatchedAt reg, pe_createdAt = t, pe_risk = pr_risk reg,
       pe_changedFilesDropped = dropped, pe_concurrentDispatches = pr_concurrentDispatches reg,
       pe_contaminatedBy = pr_contaminatedBy reg, pe_dod = Some (pr_dod reg), pe_reference = StoredPromise (pr_reference reg),
       pe_changedFiles = files, pe_digests = pr_digests reg, pe_state = Unverified, pe_verifyingSince = None, pe_result = None,
       pe_run = None, pe_pathWeight = path_weight files, pe_refWeight = 0, pe_released = False, pe_doomed = False, pe_replayed = False\<rparr>)"

definition insert_record :: "entry_record \<Rightarrow> registry \<Rightarrow> registry" where
  "insert_record r st =
     st\<lparr>rg_sessions := map_set (pe_session r) (or_else (map_get (rg_sessions st) (pe_session r)) [] @ [pe_handle r]) (rg_sessions st),
        rg_byHandle := map_set (pe_handle r) r (rg_byHandle st), rg_weight := rg_weight st + int (pe_pathWeight r)\<rparr>"

text \<open>The handle and the evicted handles, or the refusal.\<close>

definition register :: "registry_options \<Rightarrow> registration \<Rightarrow> nat list list \<Rightarrow> real \<Rightarrow> registry \<Rightarrow>
    (register_error + string \<times> string list) \<times> registry" where
  "register opt reg draws t st =
     (if pr_session reg = [] \<or> pr_producer reg = [] \<or> pr_session reg = pr_producer reg then (Inl InvalidInput, st)
      else
        (let st1 = snd (maintain opt t st); pw = path_weight (fst (stored_changes (pr_changedFiles reg))) in
         case plan_evictions opt (pr_session reg) pw st1 of
           None \<Rightarrow> (Inl RegistryFull, st1)
         | Some victims \<Rightarrow>
             (case drawHandle st1 (take HANDLE_MAX_DRAWS draws) of
                None \<Rightarrow> (Inl HandleCollision, st1)
              | Some h \<Rightarrow>
                  (let st2 = fold (\<lambda>(r, cause). evict_entry (pe_handle r) cause) victims st1;
                       st3 = st2\<lparr>rg_seq := rg_seq st2 + 1\<rparr>
                   in (Inr (h, map (pe_handle \<circ> fst) victims), insert_record (new_record opt reg h (rg_seq st3) t) st3)))))"

text \<open>The callback of a resolved reference, for the record with the given sequence number; \<open>t\<close> is read only on overflow.\<close>

definition reference_weight :: "reference_state \<Rightarrow> nat option" where
  "reference_weight s = (case s of RefCaptured d \<Rightarrow> Some (length (dr_untracked d) + length (dr_tracked d)) | _ \<Rightarrow> None)"

definition live_record :: "string \<Rightarrow> nat \<Rightarrow> registry \<Rightarrow> entry_record option" where
  "live_record h seq st =
     (case map_get (rg_byHandle st) h of None \<Rightarrow> None | Some r \<Rightarrow> if pe_seq r = seq \<and> \<not> pe_released r then Some r else None)"

definition admitReferenceWeight :: "registry_options \<Rightarrow> string \<Rightarrow> nat \<Rightarrow> nat \<Rightarrow> real \<Rightarrow> registry \<Rightarrow> registry" where
  "admitReferenceWeight opt h seq w t st =
     (let st1 = (if int (ro_maxWeight opt) < rg_weight st + int w then snd (maintain opt t st) else st) in
      case live_record h seq st1 of None \<Rightarrow> st1
      | Some r \<Rightarrow>
          if rg_weight st1 + int w \<le> int (ro_maxWeight opt)
          then (put_rec (r\<lparr>pe_refWeight := w\<rparr>) st1)\<lparr>rg_weight := rg_weight st1 + int w\<rparr>
          else put_rec (r\<lparr>pe_reference := StoredState (RefNone REFERENCE_SHED_REASON)\<rparr>) st1)"

definition reference_resolved :: "registry_options \<Rightarrow> string \<Rightarrow> nat \<Rightarrow> reference_state \<Rightarrow> real \<Rightarrow> registry \<Rightarrow> registry" where
  "reference_resolved opt h seq s t st =
     (case (live_record h seq st, reference_weight s) of
        (Some _, Some w) \<Rightarrow> admitReferenceWeight opt h seq w t st | _ \<Rightarrow> st)"

section \<open>Claims\<close>

datatype claim = Claimed entry_record nat | Joined entry_record nat | Settled entry_record settled_verification | ClaimExpired | ClaimUnknown

definition markVerifying :: "registry_options \<Rightarrow> string \<Rightarrow> string \<Rightarrow> real \<Rightarrow> registry \<Rightarrow> claim \<times> registry" where
  "markVerifying opt sid h t st =
     (let st1 = snd (maintain opt t st) in
      case lookup_entry sid h st1 of
        Expired \<Rightarrow> (ClaimExpired, st1)
      | Unknown \<Rightarrow> (ClaimUnknown, st1)
      | Found r \<Rightarrow>
          (case (pe_state r, pe_result r, pe_run r) of
             (Verified, Some s, _) \<Rightarrow> (Settled r s, st1)
           | (Verifying, _, Some run) \<Rightarrow> (Joined r run, st1)
           | _ \<Rightarrow>
               (let run = rg_runs st1; r' = r\<lparr>pe_state := Verifying, pe_verifyingSince := Some t, pe_run := Some run\<rparr>
                in (Claimed r' run, (put_rec r' st1)\<lparr>rg_runs := run + 1\<rparr>))))"

text \<open>A conclusive result with introduced failures goes to the ledger.\<close>

definition landed_rejection :: "entry_record \<Rightarrow> string \<Rightarrow> verification_result \<Rightarrow> real \<Rightarrow> registry \<Rightarrow> registry" where
  "landed_rejection r h res t2 st =
     (let ids = or_else (vr_introduced res) [] in
      case pe_root r of None \<Rightarrow> st
      | Some tree \<Rightarrow>
          if \<not> vr_retryable res \<and> ids \<noteq> []
          then recordRejection \<lparr>rj_session = pe_session r, rj_root = tree, rj_label = h, rj_landedAt = pe_createdAt r,
                 rj_introduced = ids\<rparr> t2 st
          else st)"

text \<open>\<open>settle\<close> of a claim; \<open>t\<close> stamps the result, \<open>t2\<close> is the ledger's own reading.\<close>

definition settle :: "registry_options \<Rightarrow> string \<Rightarrow> nat \<Rightarrow> verification_result \<Rightarrow> real \<Rightarrow> real \<Rightarrow> registry \<Rightarrow> bool \<times> registry" where
  "settle opt h run res t t2 st =
     (case map_get (rg_byHandle st) h of None \<Rightarrow> (False, st)
      | Some r \<Rightarrow>
          (if pe_run r \<noteq> Some run then (False, st)
           else
             (let settled = \<lparr>sv_result = res, sv_handle = h, sv_settledAt = t\<rparr>;
                  st1 = landed_rejection r h res t2 (finishRun r settled st)
              in (True, if pe_doomed r then evict_entry h EvSessionGone st1
                        else if isExpired opt r t then evict_entry h EvTtl st1 else st1))))"

section \<open>Sessions, lineage, disposal\<close>

definition forget_one :: "string \<Rightarrow> registry \<Rightarrow> registry" where
  "forget_one h st =
     (case map_get (rg_byHandle st) h of None \<Rightarrow> st
      | Some r \<Rightarrow> if pe_state r = Verifying then put_rec (r\<lparr>pe_doomed := True\<rparr>) st else evict_entry h EvSessionGone st)"

definition forgetSession :: "string \<Rightarrow> registry \<Rightarrow> registry" where
  "forgetSession sid st =
     (let st1 = fold forget_one (or_else (map_get (rg_sessions st) sid) []) st in
      st1\<lparr>rg_tombstones := filter (\<lambda>(_, s). s \<noteq> sid) (rg_tombstones st1), rg_ledger := map_delete sid (rg_ledger st1)\<rparr>)"

fun uniq_ids :: "string list \<Rightarrow> string list" where
  "uniq_ids [] = []"
| "uniq_ids (x # xs) = x # filter (\<lambda>y. y \<noteq> x) (uniq_ids xs)"

fun first_match :: "('a \<Rightarrow> 'b option) \<Rightarrow> 'a list \<Rightarrow> 'b option" where
  "first_match f [] = None"
| "first_match f (x # xs) = (case f x of None \<Rightarrow> first_match f xs | Some y \<Rightarrow> Some y)"

definition lineage_of :: "string \<Rightarrow> real \<Rightarrow> string list \<Rightarrow> rejection_record \<Rightarrow> (string \<times> string list) option" where
  "lineage_of tree dispatchedAt preexisting rec =
     (if rj_root rec \<noteq> tree \<or> dispatchedAt < rj_landedAt rec then None
      else (let ids = filter (\<lambda>i. i \<in> set (rj_introduced rec)) (uniq_ids preexisting) in
            if ids = [] then None else Some (rj_label rec, ids)))"

definition findLineage :: "registry_options \<Rightarrow> string \<Rightarrow> string \<Rightarrow> real \<Rightarrow> string list \<Rightarrow> real \<Rightarrow> registry \<Rightarrow>
    (string \<times> string list) option \<times> registry" where
  "findLineage opt sid tree dispatchedAt preexisting t st =
     (let st1 = snd (maintain opt t st) in
      (first_match (lineage_of tree dispatchedAt preexisting) (rev (map fst (or_else (map_get (rg_ledger st1) sid) []))), st1))"

definition dispose_one :: "real \<Rightarrow> string \<Rightarrow> registry \<Rightarrow> registry" where
  "dispose_one t h st =
     (case map_get (rg_byHandle st) h of None \<Rightarrow> st
      | Some r \<Rightarrow> evict_entry h EvDisposed
                   (if pe_run r = None then st else finishRun r (synthetic_settled DISPOSED_REASON h t) st))"

definition dispose :: "real \<Rightarrow> registry \<Rightarrow> registry" where
  "dispose t st = (fold (dispose_one t) (map_keys (rg_byHandle st)) st)\<lparr>rg_ledger := []\<rparr>"

end
