(* ===== verification/Pending_Inv.thy ===== *)
theory Pending_Inv
  imports Pending "HOL-Library.Multiset"
begin

text \<open>
  The invariant of the registry of deferred delegations: the two indexes agree, records are in one of three
  consistent states, weights and counts are exact and bounded, and every run that was ever started is either
  carried by exactly one entry or was resolved exactly once.
\<close>

section \<open>The values of a map\<close>

definition vals :: "('k, 'v) jsmap \<Rightarrow> 'v multiset" where
  "vals m = mset (map snd m)"

lemma vals_Nil [simp]: "vals [] = {#}"
  by (simp add: vals_def)

lemma vals_replace: "map_get m k = Some old \<Longrightarrow> add_mset old (vals (map_set k v m)) = add_mset v (vals m)"
  by (induction k v m rule: map_set.induct) (auto simp: vals_def split: if_splits)

lemma vals_new: "map_get m k = None \<Longrightarrow> vals (map_set k v m) = add_mset v (vals m)"
  by (simp add: vals_def map_set_fresh)

lemma vals_delete: "wf_map m \<Longrightarrow> map_get m k = Some old \<Longrightarrow> vals m = add_mset old (vals (map_delete k m))"
proof (induction m)
  case (Cons p m)
  show ?case
  proof (cases "fst p = k")
    case True
    then have "map_delete k (p # m) = m" using map_delete_hd [OF Cons.prems(1)] by simp
    with True Cons.prems(2) show ?thesis by (cases p) (simp add: vals_def)
  next
    case False
    with Cons show ?thesis by (cases p) (simp add: vals_def map_delete_def wf_map_def)
  qed
qed simp

lemma vals_mem: "v \<in># vals m \<longleftrightarrow> (\<exists>k. (k, v) \<in> set m)"
  by (force simp: vals_def)

definition weights :: "entry_record multiset \<Rightarrow> nat" where
  "weights ms = sum_mset (image_mset entry_weight ms)"

definition run_of :: "entry_record \<Rightarrow> nat multiset" where
  "run_of r = (case pe_run r of None \<Rightarrow> {#} | Some run \<Rightarrow> {#run#})"

definition live_runs :: "entry_record multiset \<Rightarrow> nat multiset" where
  "live_runs ms = sum_mset (image_mset run_of ms)"

lemma weights_simps [simp]: "weights {#} = 0" "weights (add_mset r ms) = entry_weight r + weights ms"
  by (simp_all add: weights_def)

lemma live_runs_simps [simp]: "live_runs {#} = {#}" "live_runs (add_mset r ms) = run_of r + live_runs ms"
  by (simp_all add: live_runs_def)

section \<open>The invariant\<close>

definition rec_ok :: "registry_options \<Rightarrow> entry_record \<Rightarrow> bool" where
  "rec_ok opt r \<longleftrightarrow> is_handle (pe_handle r) \<and>
     (pe_state r = Verifying \<longleftrightarrow> pe_run r \<noteq> None) \<and> (pe_run r \<noteq> None \<longleftrightarrow> pe_verifyingSince r \<noteq> None) \<and>
     (pe_state r = Verified \<longleftrightarrow> pe_released r) \<and> (pe_released r \<longrightarrow> entry_weight r = 0 \<and> pe_result r \<noteq> None) \<and>
     (case pe_verifyingSince r of None \<Rightarrow> True | Some since \<Rightarrow> since < pe_createdAt r + ro_ttlMs opt)"

definition handles_of :: "string \<Rightarrow> registry \<Rightarrow> string list" where
  "handles_of sid st = or_else (map_get (rg_sessions st) sid) []"

definition index_ok :: "registry \<Rightarrow> bool" where
  "index_ok st \<longleftrightarrow> wf_map (rg_sessions st) \<and> wf_map (rg_byHandle st) \<and>
     (\<forall>h r. map_get (rg_byHandle st) h = Some r \<longrightarrow> pe_handle r = h) \<and>
     (\<forall>sid h. h \<in> set (handles_of sid st) \<longleftrightarrow> (\<exists>r. map_get (rg_byHandle st) h = Some r \<and> pe_session r = sid)) \<and>
     (\<forall>sid hs. map_get (rg_sessions st) sid = Some hs \<longrightarrow> distinct hs \<and> hs \<noteq> [])"

definition runs_ok :: "registry \<Rightarrow> bool" where
  "runs_ok st \<longleftrightarrow> live_runs (vals (rg_byHandle st)) + mset (map fst (rg_resolved st)) = mset [0..<rg_runs st]"

definition bounds_ok :: "registry_options \<Rightarrow> registry \<Rightarrow> bool" where
  "bounds_ok opt st \<longleftrightarrow> length (rg_byHandle st) \<le> ro_maxGlobal opt \<and> rg_weight st \<le> int (ro_maxWeight opt) \<and>
     (\<forall>sid. length (handles_of sid st) \<le> ro_maxPerSession opt) \<and> length (rg_tombstones st) \<le> TOMBSTONE_MAX \<and>
     wf_map (rg_tombstones st) \<and> (\<forall>(sid, l)\<in>set (rg_ledger st). length l \<le> MAX_LEDGER_PER_SESSION)"

definition seqs_ok :: "registry \<Rightarrow> bool" where
  "seqs_ok st \<longleftrightarrow> (\<forall>r. r \<in># vals (rg_byHandle st) \<longrightarrow> pe_seq r \<le> rg_seq st)"

definition fresh_ok :: "registry \<Rightarrow> bool" where
  "fresh_ok st \<longleftrightarrow> (\<forall>h. map_get (rg_byHandle st) h \<noteq> None \<longrightarrow> map_get (rg_tombstones st) h = None)"

definition cap_cause :: "eviction_cause \<Rightarrow> bool" where
  "cap_cause c \<longleftrightarrow> c \<in> {EvSessionCap, EvGlobalCap, EvWeightCap}"

definition eviction_ok :: "entry_record \<times> eviction_cause \<Rightarrow> bool" where
  "eviction_ok p \<longleftrightarrow> pe_state (fst p) \<noteq> Verifying \<and>
     (cap_cause (snd p) \<longrightarrow> pe_state (fst p) = Verified \<and> \<not> awaitsReplay (fst p))"

definition reg_ok :: "registry_options \<Rightarrow> registry \<Rightarrow> bool" where
  "reg_ok opt st \<longleftrightarrow> index_ok st \<and> (\<forall>h r. map_get (rg_byHandle st) h = Some r \<longrightarrow> rec_ok opt r) \<and>
     rg_weight st = int (weights (vals (rg_byHandle st))) \<and> runs_ok st \<and> bounds_ok opt st \<and> fresh_ok st \<and>
     list_all eviction_ok (rg_evictions st)"

lemma index_okD:
  assumes "index_ok st"
  shows "wf_map (rg_sessions st)" "wf_map (rg_byHandle st)" "map_get (rg_byHandle st) h = Some r \<Longrightarrow> pe_handle r = h"
    "h \<in> set (handles_of sid st) \<longleftrightarrow> (\<exists>r. map_get (rg_byHandle st) h = Some r \<and> pe_session r = sid)"
    "map_get (rg_sessions st) sid = Some hs \<Longrightarrow> distinct hs \<and> hs \<noteq> []"
  using assms unfolding index_ok_def by blast+

lemma reg_okD:
  assumes "reg_ok opt st"
  shows "index_ok st" "runs_ok st" "bounds_ok opt st" "fresh_ok st" "wf_map (rg_byHandle st)" "wf_map (rg_sessions st)"
    "map_get (rg_byHandle st) h = Some r \<Longrightarrow> rec_ok opt r" "map_get (rg_byHandle st) h = Some r \<Longrightarrow> pe_handle r = h"
    "rg_weight st = int (weights (vals (rg_byHandle st)))" "list_all eviction_ok (rg_evictions st)"
  using assms index_okD(1-3) [of st] unfolding reg_ok_def by blast+

lemma reg_ok_empty: "reg_ok opt emptyRegistry"
  by (simp add: reg_ok_def emptyRegistry_def index_ok_def handles_of_def runs_ok_def bounds_ok_def fresh_ok_def)

section \<open>Replacing a record\<close>

lemma run_swap:
  fixes a :: "nat multiset"
  assumes "a + L' = b + L" "L + R = N" "b + R' + N = a + R + N'"
  shows "L' + R' = N'"
proof -
  have "a + (L' + R') + N = b + L + R' + N" using arg_cong [OF assms(1), of "\<lambda>m. m + (R' + N)"] by (simp only: ac_simps)
  also have "\<dots> = (b + R' + N) + L" by (simp add: ac_simps)
  also have "\<dots> = a + N' + N" using assms(2,3) by (simp add: ac_simps)
  finally show ?thesis by (simp add: add.assoc)
qed

text \<open>A record of the same handle and session in its place; the run and the weight may change with the rest of the state.\<close>

lemma put_rec_ok:
  assumes ok: "reg_ok opt st" and old: "map_get (rg_byHandle st) h = Some r"
    and same: "pe_handle r' = h" "pe_session r' = pe_session r" and rok: "rec_ok opt r'"
    and w: "rg_weight st' = rg_weight st + int (entry_weight r') - int (entry_weight r)" "rg_weight st' \<le> int (ro_maxWeight opt)"
    and runs: "run_of r' + mset (map fst (rg_resolved st')) + mset [0..<rg_runs st] = run_of r + mset (map fst (rg_resolved st)) + mset [0..<rg_runs st']"
    and st': "rg_byHandle st' = map_set h r' (rg_byHandle st)" "rg_sessions st' = rg_sessions st" "rg_tombstones st' = rg_tombstones st"
      "rg_ledger st' = rg_ledger st" "rg_evictions st' = rg_evictions st"
  shows "reg_ok opt st'"
proof -
  note idx = reg_okD(1) [OF ok]
  have get: "map_get (rg_byHandle st') j = (if j = h then Some r' else map_get (rg_byHandle st) j)" for j
    by (simp add: st' map_get_set)
  have hs: "handles_of sid st' = handles_of sid st" for sid by (simp add: handles_of_def st')
  have "h \<in> set (handles_of sid st) \<longleftrightarrow> pe_session r = sid" for sid
    using index_okD(4) [OF idx, of h sid] old by simp
  then have "\<forall>sid j. j \<in> set (handles_of sid st) \<longleftrightarrow> (\<exists>q. (if j = h then Some r' else map_get (rg_byHandle st) j) = Some q \<and> pe_session q = sid)"
    using index_okD(4) [OF idx] same(2) by (simp split: if_split)
  moreover have "wf_map (rg_sessions st')" "wf_map (rg_byHandle st')"
    using index_okD(1,2) [OF idx] by (simp_all add: st' jm.wf_put)
  moreover have "\<forall>j q. (if j = h then Some r' else map_get (rg_byHandle st) j) = Some q \<longrightarrow> pe_handle q = j"
    using index_okD(3) [OF idx] same(1) by auto
  moreover have "\<forall>sid hs. map_get (rg_sessions st') sid = Some hs \<longrightarrow> distinct hs \<and> hs \<noteq> []"
    using index_okD(5) [OF idx] by (simp only: st') blast
  ultimately have "index_ok st'" unfolding index_ok_def hs get by blast
  moreover have "\<forall>j q. map_get (rg_byHandle st') j = Some q \<longrightarrow> rec_ok opt q"
    using reg_okD(7) [OF ok] rok by (auto simp: get)
  moreover have v: "add_mset r (vals (rg_byHandle st')) = add_mset r' (vals (rg_byHandle st))"
    by (simp add: st' vals_replace [OF old])
  have "weights (add_mset r (vals (rg_byHandle st'))) = weights (add_mset r' (vals (rg_byHandle st)))" by (simp only: v)
  then have "rg_weight st' = int (weights (vals (rg_byHandle st')))" using reg_okD(9) [OF ok] w by simp
  moreover have "live_runs (add_mset r (vals (rg_byHandle st'))) = live_runs (add_mset r' (vals (rg_byHandle st)))" by (simp only: v)
  then have "run_of r + live_runs (vals (rg_byHandle st')) = run_of r' + live_runs (vals (rg_byHandle st))" by simp
  then have "runs_ok st'"
    using run_swap [OF _ reg_okD(2) [OF ok, unfolded runs_ok_def] runs] by (simp add: runs_ok_def)
  moreover have "bounds_ok opt st'"
    using reg_okD(3) [OF ok] w(2) old by (auto simp: bounds_ok_def hs st' length_map_set_present)
  moreover have "fresh_ok st'" using reg_okD(4) [OF ok] old by (auto simp: fresh_ok_def st' map_get_set split: if_splits)
  ultimately show ?thesis using reg_okD(10) [OF ok] by (simp add: reg_ok_def st')
qed

section \<open>Eviction\<close>

lemma get_shrunk: "or_else (map_get (if hs = [] then map_delete k m else map_set k hs m) j) [] = (if j = k then hs else or_else (map_get m j) [])"
  by (simp add: map_get_delete map_get_set)

lemma drop_handle_some:
  "map_get ss sid = Some hs \<Longrightarrow> drop_handle sid h ss =
     (if filter (\<lambda>x. x \<noteq> h) hs = [] then map_delete sid ss else map_set sid (filter (\<lambda>x. x \<noteq> h) hs) ss)"
  by (simp only: drop_handle_def option.simps Let_def)

lemma drop_handle_get:
  "or_else (map_get (drop_handle sid h ss) j) [] =
     (if j = sid then filter (\<lambda>x. x \<noteq> h) (or_else (map_get ss sid) []) else or_else (map_get ss j) [])"
proof (cases "map_get ss sid")
  case None
  then show ?thesis by (cases "j = sid") (simp_all only: drop_handle_def option.simps or_else_simps filter.simps if_True if_False simp_thms)
next
  case (Some hs)
  show ?thesis unfolding drop_handle_some [OF Some] get_shrunk Some by (simp only: or_else_simps)
qed

lemma drop_handle_ok:
  assumes "wf_map ss" "\<And>j hs. map_get ss j = Some hs \<Longrightarrow> distinct hs \<and> hs \<noteq> []"
  shows "wf_map (drop_handle sid h ss)" "map_get (drop_handle sid h ss) j = Some hs \<Longrightarrow> distinct hs \<and> hs \<noteq> []"
proof -
  have d: "distinct (filter (\<lambda>x. x \<noteq> h) xs)" if "map_get ss sid = Some xs" for xs using assms(2) [OF that] by simp
  show "wf_map (drop_handle sid h ss)"
  proof (cases "map_get ss sid")
    case (Some xs)
    show ?thesis unfolding drop_handle_some [OF Some] using assms(1) by (simp add: jm.wf_del jm.wf_put del: filter_empty_conv)
  qed (simp add: drop_handle_def assms(1))
  show "distinct hs \<and> hs \<noteq> []" if got: "map_get (drop_handle sid h ss) j = Some hs"
  proof (cases "map_get ss sid")
    case (Some xs)
    have "map_get ss j = Some hs \<or> hs = filter (\<lambda>x. x \<noteq> h) xs \<and> hs \<noteq> []"
      using got unfolding drop_handle_some [OF Some] by (simp only: map_get_delete map_get_set split: if_splits) blast+
    with assms(2) d [OF Some] show ?thesis by blast
  next
    case None
    show ?thesis by (rule assms(2) [of j]) (use got in \<open>simp add: drop_handle_def None\<close>)
  qed
qed

lemma evict_fields:
  assumes "map_get (rg_byHandle st) h = Some r"
  shows "rg_byHandle (evict_entry h c st) = map_delete h (rg_byHandle st)"
    "rg_sessions (evict_entry h c st) = drop_handle (pe_session r) h (rg_sessions st)"
    "rg_weight (evict_entry h c st) = rg_weight st - int (entry_weight r)"
    "rg_tombstones (evict_entry h c st) = remember h (pe_session r) TOMBSTONE_MAX (rg_tombstones st)"
    "rg_ledger (evict_entry h c st) = rg_ledger st" "rg_runs (evict_entry h c st) = rg_runs st"
    "rg_resolved (evict_entry h c st) = rg_resolved st" "rg_evictions (evict_entry h c st) = rg_evictions st @ [(r, c)]"
    "rg_seq (evict_entry h c st) = rg_seq st"
  using assms by (simp_all add: evict_entry_def addTombstone_def Let_def)

lemma evict_ok:
  assumes ok: "reg_ok opt st" and r: "map_get (rg_byHandle st) h = Some r" and ev: "eviction_ok (r, c)"
  shows "reg_ok opt (evict_entry h c st)"
proof -
  let ?st = "evict_entry h c st"
  note f = evict_fields [OF r, of c] and idx = reg_okD(1) [OF ok]
  have get: "map_get (rg_byHandle ?st) j = (if j = h then None else map_get (rg_byHandle st) j)" for j
    by (simp add: f map_get_delete)
  have hs: "handles_of sid ?st = (if sid = pe_session r then filter (\<lambda>x. x \<noteq> h) (handles_of sid st) else handles_of sid st)" for sid
    by (simp add: handles_of_def f drop_handle_get)
  have "j \<in> set (handles_of sid ?st) \<longleftrightarrow> (\<exists>q. map_get (rg_byHandle ?st) j = Some q \<and> pe_session q = sid)" for sid j
    using index_okD(4) [OF idx, of j sid] r by (cases "j = h") (auto simp: hs get)
  moreover have "wf_map (rg_sessions ?st)" "\<And>sid hs. map_get (rg_sessions ?st) sid = Some hs \<Longrightarrow> distinct hs \<and> hs \<noteq> []"
    unfolding f by (rule drop_handle_ok [OF index_okD(1,5) [OF idx]]; assumption)+
  moreover have "wf_map (rg_byHandle ?st)" by (simp add: f jm.wf_del index_okD(2) [OF idx])
  moreover have "\<forall>j q. map_get (rg_byHandle ?st) j = Some q \<longrightarrow> pe_handle q = j"
    using index_okD(3) [OF idx] by (simp add: get)
  ultimately have "index_ok ?st" unfolding index_ok_def by blast
  moreover have "\<forall>j q. map_get (rg_byHandle ?st) j = Some q \<longrightarrow> rec_ok opt q"
    using reg_okD(7) [OF ok] by (simp add: get)
  moreover note v = vals_delete [OF reg_okD(5) [OF ok] r, folded f(1)]
  have "rg_weight ?st = int (weights (vals (rg_byHandle ?st)))"
    using reg_okD(9) [OF ok] by (simp add: f(3) v)
  moreover have none: "pe_run r = None"
    using ev reg_okD(7) [OF ok r] by (auto simp: eviction_ok_def rec_ok_def)
  have "runs_ok ?st" using reg_okD(2) [OF ok] none by (simp add: runs_ok_def v run_of_def f)
  moreover have tomb: "map_get (rg_tombstones ?st) j = None"
    if "map_get (rg_byHandle ?st) j \<noteq> None" for j
  proof (cases "map_get (rg_tombstones ?st) j")
    case (Some s)
    have "if j = h then s = pe_session r else map_get (rg_tombstones st) j = Some s"
      using remember_get_sub [OF _ Some [unfolded f(4)]] reg_okD(3) [OF ok] by (simp add: bounds_ok_def)
    with that reg_okD(4) [OF ok] show ?thesis by (auto simp: fresh_ok_def get split: if_splits)
  qed
  have "fresh_ok ?st" using tomb by (simp add: fresh_ok_def)
  moreover have "bounds_ok opt ?st"
  proof -
    have "length (rg_byHandle ?st) \<le> length (rg_byHandle st)" by (simp add: f map_delete_def)
    moreover have "length (handles_of sid ?st) \<le> length (handles_of sid st)" for sid by (simp add: hs)
    then have "\<forall>sid. length (handles_of sid ?st) \<le> ro_maxPerSession opt"
      using reg_okD(3) [OF ok] unfolding bounds_ok_def by (meson le_trans)
    ultimately show ?thesis
      using reg_okD(3) [OF ok] by (simp add: bounds_ok_def f length_remember wf_remember)
  qed
  ultimately show ?thesis using reg_okD(10) [OF ok] ev by (simp add: reg_ok_def f)
qed

section \<open>Finishing a run\<close>

lemma finish_fields:
  "rg_sessions (finishRun r s st) = rg_sessions st" "rg_tombstones (finishRun r s st) = rg_tombstones st"
  "rg_ledger (finishRun r s st) = rg_ledger st" "rg_runs (finishRun r s st) = rg_runs st"
  "rg_evictions (finishRun r s st) = rg_evictions st" "rg_seq (finishRun r s st) = rg_seq st"
  by (simp_all add: finishRun_def Let_def put_rec_def)

definition finished :: "entry_record \<Rightarrow> settled_verification \<Rightarrow> entry_record" where
  "finished r s =
     (let r1 = r\<lparr>pe_run := None, pe_verifyingSince := None, pe_result := Some s\<rparr> in
      if vr_retryable (sv_result s) then r1\<lparr>pe_state := Unverified\<rparr> else released (r1\<lparr>pe_state := Verified\<rparr>))"

lemma finished_fields:
  "pe_handle (finished r s) = pe_handle r" "pe_session (finished r s) = pe_session r" "pe_doomed (finished r s) = pe_doomed r"
  "pe_createdAt (finished r s) = pe_createdAt r" "pe_run (finished r s) = None" "pe_result (finished r s) = Some s"
  "pe_state (finished r s) = (if vr_retryable (sv_result s) then Unverified else Verified)" "pe_root (finished r s) = pe_root r"
  "pe_seq (finished r s) = pe_seq r" "pe_replayed (finished r s) = pe_replayed r"
  by (simp_all add: finished_def Let_def released_def)

lemma finish_byHandle: "rg_byHandle (finishRun r s st) = map_set (pe_handle r) (finished r s) (rg_byHandle st)"
  by (simp add: finishRun_def finished_def Let_def put_rec_def released_def)

lemma finish_ok:
  assumes ok: "reg_ok opt st" and r: "map_get (rg_byHandle st) h = Some r" and v: "pe_state r = Verifying"
  shows "reg_ok opt (finishRun r s st)"
proof -
  note rok = reg_okD(7) [OF ok r]
  obtain run where run: "pe_run r = Some run" using rok v by (auto simp: rec_ok_def)
  have nr: "\<not> pe_released r" using rok v by (auto simp: rec_ok_def)
  have h: "pe_handle r = h" by (rule reg_okD(8) [OF ok r])
  have w: "rg_weight (finishRun r s st) = rg_weight st + int (entry_weight (finished r s)) - int (entry_weight r)"
    by (simp add: finishRun_def finished_def Let_def put_rec_def released_def entry_weight_def)
  have "entry_weight (finished r s) \<le> entry_weight r" by (simp add: finished_def Let_def released_def entry_weight_def)
  with w reg_okD(3) [OF ok] have wb: "rg_weight (finishRun r s st) \<le> int (ro_maxWeight opt)" by (simp add: bounds_ok_def)
  have fok: "rec_ok opt (finished r s)"
    using rok nr by (auto simp: rec_ok_def finished_def Let_def released_def entry_weight_def)
  have res: "rg_resolved (finishRun r s st) = rg_resolved st @ [(run, s)]" by (simp add: finishRun_def Let_def put_rec_def run)
  show ?thesis
    by (rule put_rec_ok [OF ok r _ _ fok w wb])
      (simp_all add: finished_fields h finish_fields finish_byHandle run_of_def run res)
qed

section \<open>Inserting a record\<close>

lemma insert_ok:
  assumes ok: "reg_ok opt st" and fresh: "map_get (rg_byHandle st) h = None" "map_get (rg_tombstones st) h = None"
    and rec: "rec_ok opt r" "pe_handle r = h" "pe_run r = None" "pe_refWeight r = 0"
    and room: "length (rg_byHandle st) < ro_maxGlobal opt" "length (handles_of (pe_session r) st) < ro_maxPerSession opt"
      "rg_weight st + int (pe_pathWeight r) \<le> int (ro_maxWeight opt)"
  shows "reg_ok opt (insert_record r st)"
proof -
  let ?st = "insert_record r st"
  note idx = reg_okD(1) [OF ok]
  have f: "rg_byHandle ?st = map_set h r (rg_byHandle st)" "rg_tombstones ?st = rg_tombstones st" "rg_ledger ?st = rg_ledger st"
    "rg_runs ?st = rg_runs st" "rg_resolved ?st = rg_resolved st" "rg_evictions ?st = rg_evictions st"
    "rg_weight ?st = rg_weight st + int (pe_pathWeight r)"
    "rg_sessions ?st = map_set (pe_session r) (handles_of (pe_session r) st @ [h]) (rg_sessions st)"
    by (simp_all add: insert_record_def rec handles_of_def)
  have get: "map_get (rg_byHandle ?st) j = (if j = h then Some r else map_get (rg_byHandle st) j)" for j
    by (simp add: f map_get_set)
  have hs: "handles_of sid ?st = (if sid = pe_session r then handles_of sid st @ [h] else handles_of sid st)" for sid
    by (simp add: handles_of_def [of sid ?st] f map_get_set) (simp add: handles_of_def)
  have out: "h \<notin> set (handles_of sid st)" for sid using index_okD(4) [OF idx] fresh(1) by simp
  have "j \<in> set (handles_of sid ?st) \<longleftrightarrow> (\<exists>q. map_get (rg_byHandle ?st) j = Some q \<and> pe_session q = sid)" for sid j
    using index_okD(4) [OF idx, of j sid] out by (auto simp: hs get)
  moreover have "wf_map (rg_sessions ?st)" "wf_map (rg_byHandle ?st)"
    using index_okD(1,2) [OF idx] by (simp_all add: f jm.wf_put)
  moreover have "\<forall>j q. map_get (rg_byHandle ?st) j = Some q \<longrightarrow> pe_handle q = j"
    using index_okD(3) [OF idx] rec(2) by (simp add: get)
  moreover have dist: "distinct (handles_of sid st)" for sid
  proof (cases "map_get (rg_sessions st) sid")
    case (Some xs)
    with index_okD(5) [OF idx Some] show ?thesis by (simp add: handles_of_def)
  qed (simp add: handles_of_def)
  have "distinct xs \<and> xs \<noteq> []" if "map_get (rg_sessions ?st) sid = Some xs" for sid xs
  proof (cases "sid = pe_session r")
    case True
    with that have "xs = handles_of sid st @ [h]" by (simp add: f map_get_set)
    with dist out show ?thesis by simp
  next
    case False
    with that have "map_get (rg_sessions st) sid = Some xs" by (simp add: f map_get_set)
    then show ?thesis by (rule index_okD(5) [OF idx])
  qed
  ultimately have "index_ok ?st" unfolding index_ok_def by blast
  moreover have "\<forall>j q. map_get (rg_byHandle ?st) j = Some q \<longrightarrow> rec_ok opt q"
    using reg_okD(7) [OF ok] rec(1) by (simp add: get)
  moreover have v: "vals (rg_byHandle ?st) = add_mset r (vals (rg_byHandle st))" by (simp add: f vals_new [OF fresh(1)])
  have "rg_weight ?st = int (weights (vals (rg_byHandle ?st)))"
    using reg_okD(9) [OF ok] rec(4) by (simp add: v f(7) entry_weight_def)
  moreover have "runs_ok ?st" using reg_okD(2) [OF ok] rec(3) unfolding runs_ok_def v by (simp add: run_of_def f)
  moreover have "fresh_ok ?st" using reg_okD(4) [OF ok] fresh(2) by (simp add: fresh_ok_def f map_get_set)
  moreover have "bounds_ok opt ?st"
  proof -
    have "length (rg_byHandle ?st) = Suc (length (rg_byHandle st))" by (simp add: f map_set_fresh [OF fresh(1)])
    moreover have "length (handles_of sid ?st) \<le> ro_maxPerSession opt" for sid
      using reg_okD(3) [OF ok] room(2) by (simp add: bounds_ok_def hs)
    ultimately show ?thesis using reg_okD(3) [OF ok] room by (simp add: bounds_ok_def f)
  qed
  ultimately show ?thesis using reg_okD(10) [OF ok] by (simp add: reg_ok_def f)
qed

section \<open>Upkeep\<close>

text \<open>The ledger plays no part in the rest of the invariant.\<close>

lemma ledger_ok:
  assumes "reg_ok opt st" "\<forall>(sid, l)\<in>set m. length l \<le> MAX_LEDGER_PER_SESSION"
  shows "reg_ok opt (st\<lparr>rg_ledger := m\<rparr>)"
proof -
  have "index_ok (st\<lparr>rg_ledger := m\<rparr>) = index_ok st" "runs_ok (st\<lparr>rg_ledger := m\<rparr>) = runs_ok st"
    "fresh_ok (st\<lparr>rg_ledger := m\<rparr>) = fresh_ok st"
    by (simp_all add: index_ok_def handles_of_def runs_ok_def fresh_ok_def)
  moreover have "bounds_ok opt (st\<lparr>rg_ledger := m\<rparr>)"
    using reg_okD(3) [OF assms(1)] assms(2) by (simp add: bounds_ok_def handles_of_def)
  ultimately show ?thesis using assms(1) unfolding reg_ok_def by simp
qed

lemma expire_ledger_ok: "reg_ok opt st \<Longrightarrow> reg_ok opt (expire_ledger opt t st)"
  unfolding expire_ledger_def
proof (rule ledger_ok)
  assume ok: "reg_ok opt st"
  have "length (filter P l) \<le> MAX_LEDGER_PER_SESSION" if "(sid, l) \<in> set (rg_ledger st)" for sid l and P :: "rejection_record \<times> real \<Rightarrow> bool"
    using that reg_okD(3) [OF ok] le_trans [OF length_filter_le [of P l]] by (auto simp: bounds_ok_def)
  then show "\<forall>(sid, l)\<in>set (filter (\<lambda>(_, l). l \<noteq> [])
      (map (\<lambda>(sid, l). (sid, filter (\<lambda>(_, at'). t - at' < ro_ttlMs opt) l)) (rg_ledger st))). length l \<le> MAX_LEDGER_PER_SESSION"
    by auto
qed

lemma finish_get: "map_get (rg_byHandle st) h = Some r \<Longrightarrow> pe_handle r = h \<Longrightarrow>
    map_get (rg_byHandle (finishRun r s st)) h = Some (finished r s)"
  by (simp add: finish_byHandle map_get_set)

lemma finished_evictable: "\<not> cap_cause c \<Longrightarrow> eviction_ok (finished r s, c)"
  by (simp add: eviction_ok_def finished_fields)

lemma maintain_one_ok:
  assumes ok: "reg_ok opt st"
  shows "reg_ok opt (snd (maintain_one opt t h (n, st)))"
proof (cases "map_get (rg_byHandle st) h")
  case None
  with ok show ?thesis by (simp add: maintain_one_def)
next
  case (Some r)
  note h = reg_okD(8) [OF ok Some]
  let ?s = "synthetic_settled ABANDONED_REASON h t"
  show ?thesis
  proof (cases "overdue opt t r")
    case True
    then have v: "pe_state r = Verifying" by (simp add: overdue_def)
    note fin = finish_ok [OF ok Some v, of ?s]
    have "reg_ok opt (evict_entry h c (finishRun r ?s st))" if "\<not> cap_cause c" for c
      using that by (intro evict_ok [OF fin finish_get [OF Some h]] finished_evictable)
    with True fin show ?thesis by (simp add: maintain_one_def Some Let_def cap_cause_def)
  next
    case False
    have "reg_ok opt (evict_entry h c st)" if "pe_state r \<noteq> Verifying" "\<not> cap_cause c" for c
      using that by (intro evict_ok [OF ok Some]) (simp add: eviction_ok_def)
    with False ok show ?thesis by (simp add: maintain_one_def Some Let_def cap_cause_def)
  qed
qed

lemma maintain_fold_ok: "reg_ok opt st \<Longrightarrow> reg_ok opt (snd (fold (maintain_one opt t) hs (n, st)))"
proof (induction hs arbitrary: n st)
  case (Cons h hs)
  obtain m st1 where "maintain_one opt t h (n, st) = (m, st1)" by (metis prod.exhaust)
  with Cons maintain_one_ok [OF Cons.prems, of t h n] show ?case by simp
qed simp

lemma maintain_ok: "reg_ok opt st \<Longrightarrow> reg_ok opt (snd (maintain opt t st))"
  by (simp add: maintain_def split_def Let_def expire_ledger_ok maintain_fold_ok)

end
