(* ===== verification/Pending_Ops.thy ===== *)
theory Pending_Ops
  imports Pending_Inv
begin

text \<open>
  Every operation of the registry of deferred delegations keeps its invariant: upkeep leaves only live entries,
  the eviction plan of a registration makes exactly the room that is needed, and a claim, its result, a
  forgotten session and the disposal of the registry move the runs without losing or doubling one.
\<close>

section \<open>What upkeep leaves\<close>

definition tidy :: "registry_options \<Rightarrow> real \<Rightarrow> entry_record \<Rightarrow> bool" where
  "tidy opt t r \<longleftrightarrow> (if pe_state r = Verifying then \<not> overdue opt t r else \<not> pe_doomed r \<and> \<not> isExpired opt r t)"

definition entry_at :: "registry \<Rightarrow> string \<Rightarrow> entry_record option" where
  "entry_at st h = map_get (rg_byHandle st) h"

lemma entry_evict: "entry_at (evict_entry h c st) j = (if j = h then None else entry_at st j)"
  by (cases "map_get (rg_byHandle st) h") (simp add: entry_at_def evict_entry_def, simp add: entry_at_def evict_fields map_get_delete)

lemma entry_finish: "pe_handle r = h \<Longrightarrow> entry_at (finishRun r s st) j = (if j = h then Some (finished r s) else entry_at st j)"
  by (simp add: entry_at_def finish_byHandle map_get_set)

lemma finished_abandoned:
  "pe_state (finished r (synthetic_settled why h t)) = Unverified" "isExpired opt (finished r s) t = isExpired opt r t"
  by (simp_all add: finished_fields synthetic_settled_def isExpired_def)

lemma maintain_one_entry:
  assumes "reg_ok opt st"
  shows "entry_at (snd (maintain_one opt t h (n, st))) j =
    (if j = h then (case entry_at st h of None \<Rightarrow> None
       | Some r \<Rightarrow> (let r1 = (if overdue opt t r then finished r (synthetic_settled ABANDONED_REASON h t) else r) in
                   if pe_state r1 \<noteq> Verifying \<and> (pe_doomed r \<or> isExpired opt r t) then None else Some r1))
     else entry_at st j)"
proof (cases "entry_at st h")
  case None
  then show ?thesis by (simp add: maintain_one_def entry_at_def)
next
  case (Some r)
  then have r: "map_get (rg_byHandle st) h = Some r" by (simp add: entry_at_def)
  note h = reg_okD(8) [OF assms r]
  show ?thesis
    by (cases "overdue opt t r") (simp_all add: maintain_one_def r Some Let_def entry_evict entry_finish [OF h] finished_abandoned overdue_def)
qed

lemma maintain_one_tidy: "reg_ok opt st \<Longrightarrow> entry_at (snd (maintain_one opt t h (n, st))) h = Some r \<Longrightarrow> tidy opt t r"
  by (simp add: maintain_one_entry Let_def tidy_def finished_abandoned finished_fields split: option.splits if_splits)
    (auto simp: finished_abandoned finished_fields(3))

lemma maintain_fold_tidy:
  "reg_ok opt st \<Longrightarrow> (\<And>j r. j \<notin> set hs \<Longrightarrow> entry_at st j = Some r \<Longrightarrow> tidy opt t r) \<Longrightarrow>
    entry_at (snd (fold (maintain_one opt t) hs (n, st))) j = Some r \<Longrightarrow> tidy opt t r"
proof (induction hs arbitrary: n st)
  case (Cons h hs)
  obtain m st1 where st1: "maintain_one opt t h (n, st) = (m, st1)" by (metis prod.exhaust)
  show ?case
  proof (rule Cons.IH [of st1 m])
    show "reg_ok opt st1" using maintain_one_ok [OF Cons.prems(1), of t h n] st1 by simp
    show "entry_at (snd (fold (maintain_one opt t) hs (m, st1))) j = Some r" using Cons.prems(3) st1 by simp
  next
    fix i q
    assume i: "i \<notin> set hs" "entry_at st1 i = Some q"
    show "tidy opt t q"
    proof (cases "i = h")
      case True
      with i(2) st1 show ?thesis using maintain_one_tidy [OF Cons.prems(1), of t h n q] by simp
    next
      case False
      with i(2) st1 have "entry_at st i = Some q" using maintain_one_entry [OF Cons.prems(1), of t h n i] by simp
      with i(1) False show ?thesis by (intro Cons.prems(2) [of i]) simp_all
    qed
  qed
qed simp

lemma maintain_tidy:
  assumes "reg_ok opt st" "entry_at (snd (maintain opt t st)) j = Some r"
  shows "tidy opt t r"
proof (rule maintain_fold_tidy [OF assms(1)])
  show "entry_at (snd (fold (maintain_one opt t) (map_keys (rg_byHandle st)) (0, st))) j = Some r"
    using assms(2) by (simp add: maintain_def split_def Let_def expire_ledger_def entry_at_def)
  show "tidy opt t q" if "i \<notin> set (map_keys (rg_byHandle st))" "entry_at st i = Some q" for i q
    using that by (simp add: map_keys_mem entry_at_def)
qed

section \<open>Marks and weights on one record\<close>

lemma rec_ok_marks [simp]:
  "rec_ok opt (r\<lparr>pe_replayed := b\<rparr>) = rec_ok opt r" "rec_ok opt (r\<lparr>pe_doomed := b\<rparr>) = rec_ok opt r"
  "rec_ok opt (r\<lparr>pe_reference := q\<rparr>) = rec_ok opt r"
  by (simp_all add: rec_ok_def entry_weight_def split: option.split)

lemma put_same_ok:
  assumes ok: "reg_ok opt st" and old: "map_get (rg_byHandle st) h = Some r"
    and same: "pe_handle r' = h" "pe_session r' = pe_session r" "pe_run r' = pe_run r"
    and rok: "rec_ok opt r'" and w: "rg_weight st + int (entry_weight r') - int (entry_weight r) \<le> int (ro_maxWeight opt)"
  shows "reg_ok opt ((put_rec r' st)\<lparr>rg_weight := rg_weight st + int (entry_weight r') - int (entry_weight r)\<rparr>)"
  by (rule put_rec_ok [OF ok old same(1,2) rok]) (use w same in \<open>simp_all add: put_rec_def run_of_def\<close>)

lemma put_keep_ok:
  assumes ok: "reg_ok opt st" and old: "map_get (rg_byHandle st) h = Some r"
    and same: "pe_handle r' = h" "pe_session r' = pe_session r" "pe_run r' = pe_run r" "entry_weight r' = entry_weight r"
    and rok: "rec_ok opt r'"
  shows "reg_ok opt (put_rec r' st)"
  by (rule put_rec_ok [OF ok old same(1,2) rok])
    (use same reg_okD(3) [OF ok] in \<open>simp_all add: put_rec_def run_of_def bounds_ok_def\<close>)

lemma fold_reg_ok: "(\<And>h st. reg_ok opt st \<Longrightarrow> reg_ok opt (f h st)) \<Longrightarrow> reg_ok opt st \<Longrightarrow> reg_ok opt (fold f hs st)"
  by (induction hs arbitrary: st) simp_all

lemma markReplayed_ok:
  assumes "reg_ok opt st"
  shows "reg_ok opt (markReplayed sid handles st)"
  unfolding markReplayed_def
proof (rule fold_reg_ok [OF _ assms])
  fix h st
  assume ok: "reg_ok opt st"
  show "reg_ok opt (if h \<in> set (or_else (map_get (rg_sessions st) sid) [])
      then (case map_get (rg_byHandle st) h of None \<Rightarrow> st | Some r \<Rightarrow> put_rec (r\<lparr>pe_replayed := True\<rparr>) st) else st)"
  proof (cases "map_get (rg_byHandle st) h")
    case (Some r)
    have "reg_ok opt (put_rec (r\<lparr>pe_replayed := True\<rparr>) st)"
      by (rule put_keep_ok [OF ok Some])
        (use reg_okD(7,8) [OF ok Some] in \<open>simp_all add: entry_weight_def\<close>)
    with ok Some show ?thesis by simp
  qed (use ok in simp)
qed

lemma forget_one_ok:
  assumes ok: "reg_ok opt st"
  shows "reg_ok opt (forget_one h st)"
proof (cases "map_get (rg_byHandle st) h")
  case (Some r)
  have "reg_ok opt (put_rec (r\<lparr>pe_doomed := True\<rparr>) st)"
    by (rule put_keep_ok [OF ok Some]) (use reg_okD(7,8) [OF ok Some] in \<open>simp_all add: entry_weight_def\<close>)
  moreover have "reg_ok opt (evict_entry h EvSessionGone st)" if "pe_state r \<noteq> Verifying"
    by (rule evict_ok [OF ok Some]) (simp add: eviction_ok_def cap_cause_def that)
  ultimately show ?thesis using Some by (simp add: forget_one_def)
qed (use ok in \<open>simp add: forget_one_def\<close>)

lemma tombstones_ok:
  assumes "reg_ok opt st" "wf_map m" "length m \<le> TOMBSTONE_MAX" "\<And>h. map_get (rg_tombstones st) h = None \<Longrightarrow> map_get m h = None"
  shows "reg_ok opt (st\<lparr>rg_tombstones := m\<rparr>)"
proof -
  have "index_ok (st\<lparr>rg_tombstones := m\<rparr>) = index_ok st" "runs_ok (st\<lparr>rg_tombstones := m\<rparr>) = runs_ok st"
    by (simp_all add: index_ok_def handles_of_def runs_ok_def)
  moreover have "fresh_ok (st\<lparr>rg_tombstones := m\<rparr>)" using reg_okD(4) [OF assms(1)] assms(4) by (simp add: fresh_ok_def)
  moreover have "bounds_ok opt (st\<lparr>rg_tombstones := m\<rparr>)"
    using reg_okD(3) [OF assms(1)] assms(2,3) by (simp add: bounds_ok_def handles_of_def)
  ultimately show ?thesis using assms(1) unfolding reg_ok_def by simp
qed

section \<open>Claims and their results\<close>

lemma get_found: "reg_ok opt st \<Longrightarrow> lookup_entry sid h st = Found r \<longleftrightarrow> map_get (rg_byHandle st) h = Some r \<and> pe_session r = sid"
  using index_okD(4) [OF reg_okD(1), of opt st h sid]
  by (auto simp: lookup_entry_def handles_of_def split: option.splits if_splits)

lemma markVerifying_ok:
  assumes ok: "reg_ok opt st"
  shows "reg_ok opt (snd (markVerifying opt sid h t st))"
proof -
  let ?st = "snd (maintain opt t st)"
  note ok1 = maintain_ok [OF ok, of t]
  show ?thesis
  proof (cases "lookup_entry sid h ?st")
    case (Found r)
    then have r: "map_get (rg_byHandle ?st) h = Some r" by (simp add: get_found [OF ok1])
    note rok = reg_okD(7) [OF ok1 r]
    let ?r = "r\<lparr>pe_state := Verifying, pe_verifyingSince := Some t, pe_run := Some (rg_runs ?st)\<rparr>"
    have claimed: "reg_ok opt ((put_rec ?r ?st)\<lparr>rg_runs := rg_runs ?st + 1\<rparr>)" if "pe_state r = Unverified"
    proof -
      have tidy: "\<not> isExpired opt r t" using maintain_tidy [OF ok, of t h r] r that by (simp add: entry_at_def tidy_def)
      have rec: "rec_ok opt ?r" using rok that tidy by (auto simp: rec_ok_def isExpired_def entry_weight_def)
      show ?thesis
        by (rule put_rec_ok [OF ok1 r _ _ rec])
          (use rok that reg_okD(3,8) [OF ok1] r in
            \<open>simp_all add: put_rec_def run_of_def rec_ok_def entry_weight_def bounds_ok_def\<close>)
    qed
    show ?thesis
    proof (cases "pe_state r")
      case Unverified
      with claimed Found show ?thesis by (simp add: markVerifying_def Let_def)
    next
      case Verifying
      then obtain run where "pe_run r = Some run" using rok by (auto simp: rec_ok_def)
      with Verifying Found ok1 show ?thesis by (simp add: markVerifying_def Let_def split: option.split)
    next
      case Verified
      then obtain s where "pe_result r = Some s" using rok by (auto simp: rec_ok_def)
      with Verified Found ok1 show ?thesis by (simp add: markVerifying_def Let_def)
    qed
  qed (use ok1 in \<open>simp_all add: markVerifying_def Let_def\<close>)
qed

lemma if_reg_ok: "reg_ok opt a \<Longrightarrow> reg_ok opt b \<Longrightarrow> reg_ok opt (if P then a else b)"
  by simp

lemma recordRejection_ok:
  assumes ok: "reg_ok opt st"
  shows "reg_ok opt (recordRejection rec t st)"
proof -
  let ?m = "\<lambda>l. map_set (rj_session rec) (drop (length l - MAX_LEDGER_PER_SESSION) l) (rg_ledger st)"
  have "\<forall>(sid, l)\<in>set (?m k). length l \<le> MAX_LEDGER_PER_SESSION" for k
  proof -
    have "\<forall>(sid, l)\<in>set (rg_ledger st). length l \<le> MAX_LEDGER_PER_SESSION"
      using reg_okD(3) [OF ok] by (simp add: bounds_ok_def)
    then show ?thesis
      using set_map_set [of "rj_session rec" "drop (length k - MAX_LEDGER_PER_SESSION) k" "rg_ledger st"] by fastforce
  qed
  then have "reg_ok opt (st\<lparr>rg_ledger := ?m k\<rparr>)" for k by (rule ledger_ok [OF ok])
  then show ?thesis unfolding recordRejection_def Let_def by (rule if_reg_ok [OF ok])
qed

lemma entry_reject: "entry_at (recordRejection rec t st) = entry_at st"
  by (rule ext) (simp add: recordRejection_def entry_at_def Let_def)

lemma landed_ok: "reg_ok opt st \<Longrightarrow> reg_ok opt (landed_rejection r h res t st)"
  by (simp add: landed_rejection_def Let_def recordRejection_ok split: option.split)

lemma entry_landed: "entry_at (landed_rejection r h res t st) = entry_at st"
  by (simp add: landed_rejection_def Let_def entry_reject split: option.split)

lemma settle_ok:
  assumes ok: "reg_ok opt st"
  shows "reg_ok opt (snd (settle opt h run res t t2 st))"
proof (cases "map_get (rg_byHandle st) h")
  case (Some r)
  show ?thesis
  proof (cases "pe_run r = Some run")
    case True
    let ?s = "\<lparr>sv_result = res, sv_handle = h, sv_settledAt = t\<rparr>"
    have v: "pe_state r = Verifying" using True reg_okD(7) [OF ok Some] by (auto simp: rec_ok_def)
    note fin = finish_ok [OF ok Some v, of ?s]
    note got = finish_get [OF Some reg_okD(8) [OF ok Some], of ?s]
    have q: "reg_ok opt (landed_rejection r h res t2 (finishRun r ?s st))" by (rule landed_ok [OF fin])
    have "map_get (rg_byHandle (landed_rejection r h res t2 (finishRun r ?s st))) h = Some (finished r ?s)"
      using got entry_landed by (simp add: entry_at_def fun_eq_iff)
    then have "reg_ok opt (evict_entry h c (landed_rejection r h res t2 (finishRun r ?s st)))" if "\<not> cap_cause c" for c
      by (rule evict_ok [OF q _ finished_evictable [OF that]])
    with q True Some show ?thesis by (simp add: settle_def Let_def cap_cause_def)
  qed (use ok Some in \<open>simp add: settle_def\<close>)
qed (use ok in \<open>simp add: settle_def\<close>)

text \<open>A reference resolves once, so its record still has no reference weight.\<close>

lemma maintain_one_seq:
  assumes "reg_ok opt st" "entry_at (snd (maintain_one opt t h (n, st))) j = Some r"
  obtains q where "entry_at st j = Some q" "pe_refWeight r = pe_refWeight q \<or> pe_refWeight r = 0" "pe_seq r = pe_seq q"
  using assms by (auto simp: maintain_one_entry Let_def finished_def released_def split: option.splits if_splits)

lemma maintain_fold_seq:
  assumes "reg_ok opt st" "entry_at (snd (fold (maintain_one opt t) hs (n, st))) j = Some r"
  shows "\<exists>q. entry_at st j = Some q \<and> (pe_refWeight r = pe_refWeight q \<or> pe_refWeight r = 0) \<and> pe_seq r = pe_seq q"
  using assms
proof (induction hs arbitrary: n st)
  case (Cons h hs)
  obtain m st1 where st1: "maintain_one opt t h (n, st) = (m, st1)" by (metis prod.exhaust)
  have "reg_ok opt st1" using maintain_one_ok [OF Cons.prems(1), of t h n] st1 by simp
  then obtain q where q: "entry_at st1 j = Some q" "pe_refWeight r = pe_refWeight q \<or> pe_refWeight r = 0" "pe_seq r = pe_seq q"
    using Cons.IH [of st1 m] Cons.prems(2) st1 by auto
  show ?case by (rule maintain_one_seq [OF Cons.prems(1), of t h n j q]) (use q st1 in auto)
qed simp

lemma maintain_seq:
  assumes "reg_ok opt st" "entry_at (snd (maintain opt t st)) j = Some r"
  shows "\<exists>q. entry_at st j = Some q \<and> (pe_refWeight r = pe_refWeight q \<or> pe_refWeight r = 0) \<and> pe_seq r = pe_seq q"
  using maintain_fold_seq [OF assms(1)] assms(2)
  by (simp add: maintain_def split_def Let_def expire_ledger_def entry_at_def)

lemma live_recordD: "live_record h seq st = Some r \<Longrightarrow> entry_at st h = Some r \<and> pe_seq r = seq \<and> \<not> pe_released r"
  by (auto simp: live_record_def entry_at_def split: option.splits if_splits)

lemma admit_ok:
  assumes ok: "reg_ok opt st" and once: "\<And>r. entry_at st h = Some r \<Longrightarrow> pe_seq r = seq \<Longrightarrow> pe_refWeight r = 0"
  shows "reg_ok opt (admitReferenceWeight opt h seq w t st)"
proof -
  define st1 where "st1 = (if int (ro_maxWeight opt) < rg_weight st + int w then snd (maintain opt t st) else st)"
  have ok1: "reg_ok opt st1" using ok by (simp add: st1_def maintain_ok)
  show ?thesis
  proof (cases "live_record h seq st1")
    case None
    with ok1 show ?thesis by (simp add: admitReferenceWeight_def st1_def [symmetric])
  next
    case (Some r)
    from live_recordD [OF Some] have r: "map_get (rg_byHandle st1) h = Some r" "pe_seq r = seq" "\<not> pe_released r"
      by (simp_all add: entry_at_def)
    have zero: "pe_refWeight r = 0"
    proof (cases "int (ro_maxWeight opt) < rg_weight st + int w")
      case True
      with r(1) have "entry_at (snd (maintain opt t st)) h = Some r" by (simp add: st1_def entry_at_def)
      from maintain_seq [OF ok this] once r(2) show ?thesis by auto
    next
      case False
      with r once show ?thesis by (simp add: st1_def entry_at_def)
    qed
    note rok = reg_okD(7,8) [OF ok1 r(1)]
    have put: "reg_ok opt ((put_rec (r\<lparr>pe_refWeight := w\<rparr>) st1)\<lparr>rg_weight := rg_weight st1 + int w\<rparr>)"
      if "rg_weight st1 + int w \<le> int (ro_maxWeight opt)"
      using put_same_ok [OF ok1 r(1), of "r\<lparr>pe_refWeight := w\<rparr>"] that rok r(3) zero
      by (simp add: rec_ok_def entry_weight_def add.assoc split: option.splits)
    have "reg_ok opt (put_rec (r\<lparr>pe_reference := StoredState (RefNone REFERENCE_SHED_REASON)\<rparr>) st1)"
      by (rule put_keep_ok [OF ok1 r(1)]) (simp_all add: rok entry_weight_def)
    with put show ?thesis unfolding admitReferenceWeight_def Let_def st1_def [symmetric] Some option.simps
      by (intro if_split [THEN iffD2]) simp
  qed
qed

lemma reference_resolved_ok:
  assumes "reg_ok opt st" "\<And>r. entry_at st h = Some r \<Longrightarrow> pe_seq r = seq \<Longrightarrow> pe_refWeight r = 0"
  shows "reg_ok opt (reference_resolved opt h seq s t st)"
  using admit_ok [OF assms] assms(1) by (simp add: reference_resolved_def split: option.split)

section \<open>Forgotten sessions and disposal\<close>

lemma forgetSession_ok:
  assumes "reg_ok opt st"
  shows "reg_ok opt (forgetSession sid st)"
proof -
  let ?st = "fold forget_one (or_else (map_get (rg_sessions st) sid) []) st"
  let ?m = "filter (\<lambda>(_, s). s \<noteq> sid) (rg_tombstones ?st)"
  have ok1: "reg_ok opt ?st" by (rule fold_reg_ok [OF forget_one_ok assms])
  have tomb: "wf_map (rg_tombstones ?st)" "length (rg_tombstones ?st) \<le> TOMBSTONE_MAX" using reg_okD(3) [OF ok1] by (simp_all add: bounds_ok_def)
  have ok2: "reg_ok opt (?st\<lparr>rg_tombstones := ?m\<rparr>)"
  proof (rule tombstones_ok [OF ok1])
    show "wf_map ?m" using tomb(1) by (auto simp: wf_map_def distinct_map_filter)
    show "length ?m \<le> TOMBSTONE_MAX" by (rule le_trans [OF length_filter_le tomb(2)])
    show "map_get ?m h = None" if "map_get (rg_tombstones ?st) h = None" for h
      using that map_keys_mem [of h ?m] map_keys_mem [of h "rg_tombstones ?st"] by (auto simp: map_keys_def)
  qed
  have "\<forall>(s, l)\<in>set (map_delete sid (rg_ledger ?st)). length l \<le> MAX_LEDGER_PER_SESSION"
    using reg_okD(3) [OF ok1] set_map_delete [of sid "rg_ledger ?st"] by (fastforce simp: bounds_ok_def)
  from ledger_ok [OF ok2 this] show ?thesis by (simp add: forgetSession_def Let_def)
qed

lemma dispose_one_ok:
  assumes ok: "reg_ok opt st"
  shows "reg_ok opt (dispose_one t h st)"
proof (cases "map_get (rg_byHandle st) h")
  case (Some r)
  note rok = reg_okD(7,8) [OF ok Some]
  show ?thesis
  proof (cases "pe_run r")
    case None
    with rok have "pe_state r \<noteq> Verifying" by (simp add: rec_ok_def)
    then have "reg_ok opt (evict_entry h EvDisposed st)" by (intro evict_ok [OF ok Some]) (simp add: eviction_ok_def cap_cause_def)
    with None Some show ?thesis by (simp add: dispose_one_def)
  next
    case (Some run)
    with rok have v: "pe_state r = Verifying" by (simp add: rec_ok_def)
    note fin = finish_ok [OF ok \<open>map_get (rg_byHandle st) h = Some r\<close> v, of "synthetic_settled DISPOSED_REASON h t"]
    have "reg_ok opt (evict_entry h EvDisposed (finishRun r (synthetic_settled DISPOSED_REASON h t) st))"
      by (rule evict_ok [OF fin finish_get [OF \<open>map_get (rg_byHandle st) h = Some r\<close> rok(2)] finished_evictable]) (simp add: cap_cause_def)
    with Some \<open>map_get (rg_byHandle st) h = Some r\<close> show ?thesis by (simp add: dispose_one_def)
  qed
qed (use ok in \<open>simp add: dispose_one_def\<close>)

lemma dispose_ok: "reg_ok opt st \<Longrightarrow> reg_ok opt (dispose t st)"
  unfolding dispose_def by (rule ledger_ok) (simp_all add: fold_reg_ok dispose_one_ok)

end
