(* ===== verification/Pending_Plan.thy ===== *)
theory Pending_Plan
  imports Pending_Ops
begin

text \<open>
  The eviction plan of a registration: the victims are conclusive entries whose result needs no replay, taken
  oldest first, and evicting them makes room for one entry of the given weight under every cap.
\<close>

section \<open>The candidates\<close>

lemma by_age_facts: "set (by_age rs) = set rs" "distinct (map f (by_age rs)) = distinct (map f rs)" "length (by_age rs) = length rs"
proof -
  have "mset (map f (by_age rs)) = mset (map f rs)" by (simp add: by_age_def)
  then show "distinct (map f (by_age rs)) = distinct (map f rs)" by (rule mset_eq_imp_distinct_iff)
qed (simp_all add: by_age_def)

lemma candidates_facts:
  "set (evictionCandidates rs) = {r \<in> set rs. pe_state r = Verified \<and> \<not> awaitsReplay r}"
  "distinct (map f rs) \<Longrightarrow> distinct (map f (evictionCandidates rs))" "length (evictionCandidates rs) \<le> length rs"
  by (simp_all add: evictionCandidates_def by_age_facts distinct_map_filter)

lemma map_filter_total: "\<forall>x\<in>set xs. f x \<noteq> None \<Longrightarrow> List.map_filter f xs = map (the \<circ> f) xs"
  by (induction xs) (auto simp: List.map_filter_def)

lemma session_records_facts:
  assumes ok: "reg_ok opt st"
  shows "map pe_handle (session_records sid st) = handles_of sid st"
    "r \<in> set (session_records sid st) \<longleftrightarrow> entry_at st (pe_handle r) = Some r \<and> pe_session r = sid"
proof -
  note idx = reg_okD(1) [OF ok]
  have all: "\<forall>h\<in>set (handles_of sid st). map_get (rg_byHandle st) h \<noteq> None" using index_okD(4) [OF idx] by blast
  then have sr: "session_records sid st = map (the \<circ> map_get (rg_byHandle st)) (handles_of sid st)"
    by (simp add: session_records_def handles_of_def map_filter_total)
  have h: "pe_handle (the (map_get (rg_byHandle st) h)) = h" if "h \<in> set (handles_of sid st)" for h
    using index_okD(3,4) [OF idx] that by auto
  then show "map pe_handle (session_records sid st) = handles_of sid st" by (simp add: sr map_idI)
  show "r \<in> set (session_records sid st) \<longleftrightarrow> entry_at st (pe_handle r) = Some r \<and> pe_session r = sid"
  proof
    assume "r \<in> set (session_records sid st)"
    then obtain h where "h \<in> set (handles_of sid st)" "r = the (map_get (rg_byHandle st) h)" by (auto simp: sr)
    with h index_okD(4) [OF idx, of h sid] show "entry_at st (pe_handle r) = Some r \<and> pe_session r = sid" by (auto simp: entry_at_def)
  next
    assume a: "entry_at st (pe_handle r) = Some r \<and> pe_session r = sid"
    then have "pe_handle r \<in> set (handles_of sid st)" using index_okD(4) [OF idx] by (auto simp: entry_at_def)
    moreover have "r = (the \<circ> map_get (rg_byHandle st)) (pe_handle r)" using a by (simp add: entry_at_def)
    ultimately show "r \<in> set (session_records sid st)" unfolding sr by (metis image_eqI list.set_map)
  qed
qed

lemma handles_distinct: "reg_ok opt st \<Longrightarrow> distinct (handles_of sid st)"
  using index_okD(5) [OF reg_okD(1), of opt st sid] by (cases "map_get (rg_sessions st) sid") (simp_all add: handles_of_def)

lemma all_records_facts:
  assumes ok: "reg_ok opt st"
  shows "distinct (map pe_handle (map snd (rg_byHandle st)))"
    "r \<in> set (map snd (rg_byHandle st)) \<longleftrightarrow> entry_at st (pe_handle r) = Some r"
proof -
  note wf = reg_okD(5) [OF ok]
  have get: "(h, q) \<in> set (rg_byHandle st) \<longleftrightarrow> map_get (rg_byHandle st) h = Some q" for h q
    using wf by (simp add: wf_map_def)
  have "pe_handle q = h" if "(h, q) \<in> set (rg_byHandle st)" for h q using that get reg_okD(8) [OF ok] by simp
  then have "map pe_handle (map snd (rg_byHandle st)) = map_keys (rg_byHandle st)" by (auto simp: map_keys_def)
  then show "distinct (map pe_handle (map snd (rg_byHandle st)))" using wf by (simp add: wf_map_keys)
  show "r \<in> set (map snd (rg_byHandle st)) \<longleftrightarrow> entry_at st (pe_handle r) = Some r"
  proof
    assume "r \<in> set (map snd (rg_byHandle st))"
    then obtain h where "(h, r) \<in> set (rg_byHandle st)" by auto
    then have "map_get (rg_byHandle st) h = Some r" by (simp only: get)
    moreover from this have "pe_handle r = h" by (rule reg_okD(8) [OF ok])
    ultimately show "entry_at st (pe_handle r) = Some r" by (simp add: entry_at_def)
  next
    assume "entry_at st (pe_handle r) = Some r"
    then have "(pe_handle r, r) \<in> set (rg_byHandle st)" by (simp only: get entry_at_def)
    then show "r \<in> set (map snd (rg_byHandle st))" by (metis image_eqI list.set_map snd_conv)
  qed
qed

section \<open>The victims\<close>

lemma session_victims_take:
  "session_victims cap rs n = (vs, m) \<Longrightarrow> vs = take (length vs) rs \<and> m = n - length vs"
  by (induction cap rs n arbitrary: vs m rule: session_victims.induct) (auto split: if_splits prod.splits)

lemma global_victims_facts:
  "global_victims cap wcap pw chosen rs n w = (gs, m, w') \<Longrightarrow> distinct (map pe_handle rs) \<Longrightarrow>
    set (map fst gs) \<subseteq> set rs \<and> distinct (map (pe_handle \<circ> fst) gs) \<and> set (map (pe_handle \<circ> fst) gs) \<inter> set chosen = {} \<and>
    m = n - length gs \<and> w' = w - int (sum_list (map (entry_weight \<circ> fst) gs))"
proof (induction cap wcap pw chosen rs n w arbitrary: gs m w' rule: global_victims.induct)
  case (2 cap wcap pw chosen r rs n w)
  show ?case
  proof (cases "n + 1 \<le> cap \<and> w + int pw \<le> int wcap")
    case True
    with 2(3) show ?thesis by simp
  next
    case go: False
    show ?thesis
    proof (cases "pe_handle r \<in> set chosen")
      case True
      with 2 go show ?thesis by (auto simp del: One_nat_def)
    next
      case False
      obtain gs1 m1 w1 where rest: "global_victims cap wcap pw chosen rs (n - 1) (w - int (entry_weight r)) = (gs1, m1, w1)"
        by (metis prod.exhaust)
      have ih: "set (map fst gs1) \<subseteq> set rs \<and> distinct (map (pe_handle \<circ> fst) gs1) \<and> set (map (pe_handle \<circ> fst) gs1) \<inter> set chosen = {} \<and>
          m1 = (n - 1) - length gs1 \<and> w1 = w - int (entry_weight r) - int (sum_list (map (entry_weight \<circ> fst) gs1))"
        by (rule 2(2) [OF go False rest]) (use 2(4) in simp)
      have gs: "gs = (r, if cap < n + 1 then EvGlobalCap else EvWeightCap) # gs1" "m = m1" "w' = w1"
        using 2(3) go False rest by (simp_all del: One_nat_def)
      have out: "pe_handle r \<notin> set (map (pe_handle \<circ> fst) gs1)" using ih 2(4) by auto
      show ?thesis using ih out False unfolding gs by (auto simp: comp_def)
    qed
  qed
qed auto

section \<open>Evicting several entries\<close>

definition evict_all :: "(entry_record \<times> eviction_cause) list \<Rightarrow> registry \<Rightarrow> registry" where
  "evict_all vs = fold (\<lambda>(r, cause). evict_entry (pe_handle r) cause) vs"

lemma handles_evict:
  assumes "entry_at st h = Some r"
  shows "handles_of sid (evict_entry h c st) = (if sid = pe_session r then filter (\<lambda>j. j \<noteq> h) (handles_of sid st) else handles_of sid st)"
  using assms by (simp add: entry_at_def handles_of_def evict_fields drop_handle_get)

lemma length_filter_one: "distinct xs \<Longrightarrow> x \<in> set xs \<Longrightarrow> length xs = Suc (length (filter (\<lambda>y. y \<noteq> x) xs))"
proof (induction xs)
  case (Cons a xs)
  show ?case
  proof (cases "a = x")
    case True
    with Cons.prems(1) have "filter (\<lambda>y. y \<noteq> x) xs = xs" by (intro filter_True) auto
    with True show ?thesis by simp
  qed (use Cons in simp)
qed simp

lemma evict_rest:
  assumes "\<forall>(q, d)\<in>set ((r, c) # vs). entry_at st (pe_handle q) = Some q \<and> eviction_ok (q, d)"
    "distinct (map (pe_handle \<circ> fst) ((r, c) # vs))"
  shows "\<forall>(q, d)\<in>set vs. entry_at (evict_entry (pe_handle r) e st) (pe_handle q) = Some q \<and> eviction_ok (q, d)"
proof (rule ballI, clarify)
  fix q d assume qd: "(q, d) \<in> set vs"
  then have "pe_handle q \<noteq> pe_handle r" using assms(2) by force
  moreover have "entry_at st (pe_handle q) = Some q \<and> eviction_ok (q, d)" using assms(1) qd by auto
  ultimately show "entry_at (evict_entry (pe_handle r) e st) (pe_handle q) = Some q \<and> eviction_ok (q, d)"
    by (simp add: entry_evict)
qed

lemma evict_all_aux:
  "reg_ok opt st \<Longrightarrow> \<forall>(r, c)\<in>set vs. entry_at st (pe_handle r) = Some r \<and> eviction_ok (r, c) \<Longrightarrow> distinct (map (pe_handle \<circ> fst) vs) \<Longrightarrow>
    reg_ok opt (evict_all vs st) \<and> length (rg_byHandle (evict_all vs st)) + length vs = length (rg_byHandle st) \<and>
    rg_weight (evict_all vs st) = rg_weight st - int (sum_list (map (entry_weight \<circ> fst) vs)) \<and>
    length (handles_of sid (evict_all vs st)) + length (filter (\<lambda>v. pe_session (fst v) = sid) vs) = length (handles_of sid st) \<and>
    (\<forall>h. entry_at st h = None \<longrightarrow> entry_at (evict_all vs st) h = None) \<and>
    (\<forall>h. entry_at st h = None \<longrightarrow> map_get (rg_tombstones st) h = None \<longrightarrow> map_get (rg_tombstones (evict_all vs st)) h = None) \<and>
    rg_seq (evict_all vs st) = rg_seq st"
proof (induction vs arbitrary: st)
  case Nil
  then show ?case by (simp add: evict_all_def)
next
  case (Cons v vs)
  obtain r c where v: "v = (r, c)" by (cases v)
  let ?h = "pe_handle r" and ?st = "evict_entry (pe_handle r) c st"
  have r: "entry_at st ?h = Some r" "map_get (rg_byHandle st) ?h = Some r" "eviction_ok (r, c)"
    using Cons.prems(2) by (simp_all add: v entry_at_def)
  have step: "evict_all (v # vs) st = evict_all vs ?st" by (simp add: evict_all_def v)
  have ok: "reg_ok opt ?st" by (rule evict_ok [OF Cons.prems(1) r(2,3)])
  have rest: "\<forall>(q, d)\<in>set vs. entry_at ?st (pe_handle q) = Some q \<and> eviction_ok (q, d)"
    using evict_rest [of r c vs st] Cons.prems(2,3) unfolding v .
  note ih = Cons.IH [OF ok rest]
  have d: "distinct (map (pe_handle \<circ> fst) vs)" using Cons.prems(3) by (simp add: comp_def)
  have len: "length (rg_byHandle st) = Suc (length (rg_byHandle ?st))"
    using length_delete [OF reg_okD(5) [OF Cons.prems(1)]] r(2) by (simp add: evict_fields)
  have mem: "?h \<in> set (handles_of (pe_session r) st)" using index_okD(4) [OF reg_okD(1) [OF Cons.prems(1)]] r(2) by simp
  have hs: "length (handles_of sid st) = length (handles_of sid ?st) + (if pe_session r = sid then 1 else 0)"
    using length_filter_one [OF handles_distinct [OF Cons.prems(1)] mem] by (auto simp: handles_evict [OF r(1)])
  have tomb: "map_get (rg_tombstones ?st) h = None" if "entry_at st h = None" "map_get (rg_tombstones st) h = None" for h
  proof (cases "map_get (rg_tombstones ?st) h")
    case (Some s)
    have "if h = ?h then s = pe_session r else map_get (rg_tombstones st) h = Some s"
      using remember_get_sub [OF _ Some [unfolded evict_fields(4) [OF r(2)]]] reg_okD(3) [OF Cons.prems(1)] by (simp add: bounds_ok_def)
    with that r(1) show ?thesis by (auto split: if_splits)
  qed
  let ?q = "evict_all vs ?st"
  have ih: "reg_ok opt ?q" "length (rg_byHandle ?q) + length vs = length (rg_byHandle ?st)"
    "rg_weight ?q = rg_weight ?st - int (sum_list (map (entry_weight \<circ> fst) vs))"
    "length (handles_of sid ?q) + length (filter (\<lambda>v. pe_session (fst v) = sid) vs) = length (handles_of sid ?st)"
    "\<And>h. entry_at ?st h = None \<Longrightarrow> entry_at ?q h = None"
    "\<And>h. entry_at ?st h = None \<Longrightarrow> map_get (rg_tombstones ?st) h = None \<Longrightarrow> map_get (rg_tombstones ?q) h = None"
    "rg_seq ?q = rg_seq ?st"
    using ih [OF d] by blast+
  have gone: "entry_at ?st h = None" if "entry_at st h = None" for h using that by (simp only: entry_evict if_cancel)
  show ?case
    unfolding step
  proof (intro conjI allI impI)
    show "reg_ok opt ?q" by (rule ih(1))
    show "length (rg_byHandle ?q) + length (v # vs) = length (rg_byHandle st)" using ih(2) len by (simp only: list.size)
    show "rg_weight ?q = rg_weight st - int (sum_list (map (entry_weight \<circ> fst) (v # vs)))"
      unfolding ih(3) evict_fields(3) [OF r(2)] by (simp add: v)
    show "length (handles_of sid ?q) + length (filter (\<lambda>v. pe_session (fst v) = sid) (v # vs)) = length (handles_of sid st)"
      unfolding hs ih(4) [symmetric] by (simp add: v)
    show "rg_seq ?q = rg_seq st" unfolding ih(7) by (rule evict_fields(9) [OF r(2)])
  next
    fix h assume "entry_at st h = None"
    then show "entry_at ?q h = None" by (intro ih(5) gone)
  next
    fix h assume "entry_at st h = None" "map_get (rg_tombstones st) h = None"
    then show "map_get (rg_tombstones ?q) h = None" by (intro ih(6) gone tomb)
  qed
qed

lemma evict_all_facts:
  assumes "reg_ok opt st" "\<forall>(r, c)\<in>set vs. entry_at st (pe_handle r) = Some r \<and> eviction_ok (r, c)" "distinct (map (pe_handle \<circ> fst) vs)"
  shows "reg_ok opt (evict_all vs st)" "length (rg_byHandle (evict_all vs st)) + length vs = length (rg_byHandle st)"
    "rg_weight (evict_all vs st) = rg_weight st - int (sum_list (map (entry_weight \<circ> fst) vs))"
    "length (handles_of sid (evict_all vs st)) + length (filter (\<lambda>v. pe_session (fst v) = sid) vs) = length (handles_of sid st)"
    "entry_at st h = None \<Longrightarrow> entry_at (evict_all vs st) h = None"
    "entry_at st h = None \<Longrightarrow> map_get (rg_tombstones st) h = None \<Longrightarrow> map_get (rg_tombstones (evict_all vs st)) h = None"
    "rg_seq (evict_all vs st) = rg_seq st"
  using evict_all_aux [OF assms, of sid] by blast+

text \<open>The plan of a registration.\<close>

lemma plan_facts:
  assumes ok: "reg_ok opt st" and plan: "plan_evictions opt sid pw st = Some vs"
  shows "\<forall>(r, c)\<in>set vs. entry_at st (pe_handle r) = Some r \<and> eviction_ok (r, c)" "distinct (map (pe_handle \<circ> fst) vs)"
    "length (rg_byHandle (evict_all vs st)) < ro_maxGlobal opt"
    "rg_weight (evict_all vs st) + int pw \<le> int (ro_maxWeight opt)"
    "length (handles_of sid (evict_all vs st)) < ro_maxPerSession opt"
proof -
  let ?cand = "evictionCandidates (session_records sid st)" and ?all = "evictionCandidates (map snd (rg_byHandle st))"
  let ?n0 = "length (handles_of sid st)"
  define p where "p = session_victims (ro_maxPerSession opt) ?cand ?n0"
  obtain sv n where p: "p = (sv, n)" by (cases p)
  have len: "length ?cand \<le> ?n0"
    using candidates_facts(3) [of "session_records sid st"] session_records_facts(1) [OF ok, of sid] by (metis length_map)
  have none: "p = ([], 0)" if "map_get (rg_sessions st) sid = None"
    using that len by (simp add: p_def handles_of_def split: list.split)
  have case_p: "(case map_get (rg_sessions st) sid of None \<Rightarrow> ([], 0)
      | Some hs \<Rightarrow> session_victims (ro_maxPerSession opt) ?cand (length hs)) = (sv, n)"
    using none by (cases "map_get (rg_sessions st) sid") (simp_all add: p [symmetric] p_def handles_of_def)
  have take: "sv = take (length sv) ?cand \<and> n = ?n0 - length sv"
    by (rule session_victims_take) (simp add: p [symmetric] p_def)
  obtain gs m w where g: "global_victims (ro_maxGlobal opt) (ro_maxWeight opt) pw (map pe_handle sv) ?all
      (length (rg_byHandle st) - length sv) (rg_weight st - int (sum_list (map entry_weight sv))) = (gs, m, w)"
    by (metis prod.exhaust)
  have n: "n < ro_maxPerSession opt" and m: "m < ro_maxGlobal opt" and w: "w + int pw \<le> int (ro_maxWeight opt)"
    and vs: "vs = map (\<lambda>r. (r, EvSessionCap)) sv @ gs"
    using plan unfolding plan_evictions_def case_p Let_def prod.case g by (simp_all split: if_splits)
  have gf: "set (map fst gs) \<subseteq> set ?all" "distinct (map (pe_handle \<circ> fst) gs)"
    "set (map (pe_handle \<circ> fst) gs) \<inter> set (map pe_handle sv) = {}" "m = (length (rg_byHandle st) - length sv) - length gs"
    "w = rg_weight st - int (sum_list (map entry_weight sv)) - int (sum_list (map (entry_weight \<circ> fst) gs))"
    using global_victims_facts [OF g candidates_facts(2) [OF all_records_facts(1) [OF ok]]] by blast+
  have sub: "set sv \<subseteq> set ?cand" using take by (metis set_take_subset)
  have here: "entry_at st (pe_handle r) = Some r \<and> eviction_ok (r, c)" if "r \<in> set sv \<or> r \<in> set (map fst gs)" for r c
    using that sub gf(1) session_records_facts(2) [OF ok, of r sid] all_records_facts(2) [OF ok, of r]
    by (auto simp: candidates_facts(1) eviction_ok_def)
  then show pres: "\<forall>(r, c)\<in>set vs. entry_at st (pe_handle r) = Some r \<and> eviction_ok (r, c)"
    by (fastforce simp: vs)
  have "distinct (map pe_handle ?cand)"
    by (rule candidates_facts(2)) (simp add: session_records_facts(1) [OF ok] handles_distinct [OF ok])
  then have "distinct (map pe_handle sv)" using take by (metis distinct_take take_map)
  then show dist: "distinct (map (pe_handle \<circ> fst) vs)" using gf(2,3) by (auto simp: vs comp_def)
  note e = evict_all_facts(2,3) [OF ok pres dist] evict_all_facts(4) [OF ok pres dist, of sid]
  have sums: "length vs = length sv + length gs"
    "sum_list (map (entry_weight \<circ> fst) vs) = sum_list (map entry_weight sv) + sum_list (map (entry_weight \<circ> fst) gs)"
    by (simp_all add: vs comp_def)
  show "length (rg_byHandle (evict_all vs st)) < ro_maxGlobal opt" using e(1) m gf(4) sums(1) by linarith
  show "rg_weight (evict_all vs st) + int pw \<le> int (ro_maxWeight opt)" using e(2) w gf(5) sums(2) by linarith
  have "pe_session r = sid" if "r \<in> set sv" for r
    using that sub session_records_facts(2) [OF ok, of r sid] by (auto simp: candidates_facts(1))
  then have "filter (\<lambda>v. pe_session (fst v) = sid) (map (\<lambda>r. (r, EvSessionCap)) sv) = map (\<lambda>r. (r, EvSessionCap)) sv"
    by (intro filter_True) auto
  then have "length (handles_of sid (evict_all vs st)) + length sv \<le> ?n0"
    unfolding e(3) [symmetric] by (simp add: vs)
  with n take show "length (handles_of sid (evict_all vs st)) < ro_maxPerSession opt" by simp
qed

section \<open>Registration\<close>

lemma drawHandle_fresh:
  "drawHandle st draws = Some h \<Longrightarrow> is_handle h \<and> map_get (rg_byHandle st) h = None \<and> map_get (rg_tombstones st) h = None"
  by (induction st draws rule: drawHandle.induct) (auto simp: Let_def split: if_splits)

lemma new_record_fields:
  "pe_handle (new_record opt reg h seq t) = h" "pe_session (new_record opt reg h seq t) = pr_session reg"
  "pe_run (new_record opt reg h seq t) = None" "pe_refWeight (new_record opt reg h seq t) = 0"
  "pe_state (new_record opt reg h seq t) = Unverified" "pe_verifyingSince (new_record opt reg h seq t) = None"
  "pe_released (new_record opt reg h seq t) = False" "pe_doomed (new_record opt reg h seq t) = False"
  "pe_createdAt (new_record opt reg h seq t) = t" "pe_seq (new_record opt reg h seq t) = seq"
  "pe_pathWeight (new_record opt reg h seq t) = path_weight (fst (stored_changes (pr_changedFiles reg)))"
  by (simp_all add: new_record_def split_def Let_def)

lemma seq_ok: "reg_ok opt (st\<lparr>rg_seq := n\<rparr>) = reg_ok opt st"
  by (simp add: reg_ok_def index_ok_def handles_of_def runs_ok_def bounds_ok_def fresh_ok_def)

lemma register_ok:
  assumes ok: "reg_ok opt st"
  shows "reg_ok opt (snd (register opt reg draws t st))"
proof -
  let ?st = "snd (maintain opt t st)" and ?pw = "path_weight (fst (stored_changes (pr_changedFiles reg)))"
  note ok1 = maintain_ok [OF ok, of t]
  show ?thesis
  proof (cases "plan_evictions opt (pr_session reg) ?pw ?st")
    case None
    with ok ok1 show ?thesis by (simp add: register_def Let_def)
  next
    case (Some vs)
    note plan = plan_facts [OF ok1 Some]
    note e = evict_all_facts [OF ok1 plan(1,2)]
    show ?thesis
    proof (cases "drawHandle ?st (take HANDLE_MAX_DRAWS draws)")
      case None
      with ok ok1 Some show ?thesis by (simp add: register_def Let_def)
    next
      case h: (Some h)
      note fresh = drawHandle_fresh [OF h]
      let ?st2 = "evict_all vs ?st"
      let ?st3 = "?st2\<lparr>rg_seq := rg_seq ?st2 + 1\<rparr>"
      have ok3: "reg_ok opt ?st3"
        using e(1) by (simp only: seq_ok)
      have "reg_ok opt (insert_record (new_record opt reg h (rg_seq ?st3) t) ?st3)"
      proof (rule insert_ok [OF ok3])
        show "map_get (rg_byHandle ?st3) h = None" "map_get (rg_tombstones ?st3) h = None"
          using e(5,6) [of h] fresh by (simp_all add: entry_at_def)
      qed (use fresh plan(3-5) in \<open>simp_all add: new_record_fields rec_ok_def handles_of_def\<close>)
      with ok h Some show ?thesis by (simp add: register_def Let_def evict_all_def)
    qed
  qed
qed

end
