(* ===== verification/Pending_Steps.thy ===== *)
theory Pending_Steps
  imports Pending_Plan
begin

text \<open>
  The life of one registry entry as a labelled step relation, and the operations of the registry as steps of it:
  each operation may move an entry only by the actions listed for it. Sequences of operations and the
  states they reach.
\<close>

section \<open>The life of an entry\<close>

datatype entry_action = Born | Claim | Finish | Mark | Weigh | Leave

inductive entry_step :: "entry_action \<Rightarrow> entry_record option \<Rightarrow> entry_record option \<Rightarrow> bool" where
  born: "pe_state r = Unverified \<Longrightarrow> pe_refWeight r = 0 \<Longrightarrow> \<not> pe_released r \<Longrightarrow> \<not> pe_doomed r \<Longrightarrow> entry_step Born None (Some r)"
| claim: "pe_state r = Unverified \<Longrightarrow>
    entry_step Claim (Some r) (Some (r\<lparr>pe_state := Verifying, pe_verifyingSince := Some t, pe_run := Some run\<rparr>))"
| finish: "pe_state r = Verifying \<Longrightarrow> pe_run r \<noteq> None \<Longrightarrow> entry_step Finish (Some r) (Some (finished r s))"
| replayed: "entry_step Mark (Some r) (Some (r\<lparr>pe_replayed := True\<rparr>))"
| doomed: "pe_state r = Verifying \<Longrightarrow> entry_step Mark (Some r) (Some (r\<lparr>pe_doomed := True\<rparr>))"
| weigh: "\<not> pe_released r \<Longrightarrow> entry_step Weigh (Some r) (Some (r\<lparr>pe_refWeight := w\<rparr>))"
| shed: "\<not> pe_released r \<Longrightarrow> entry_step Weigh (Some r) (Some (r\<lparr>pe_reference := StoredState (RefNone REFERENCE_SHED_REASON)\<rparr>))"
| leave: "pe_state r \<noteq> Verifying \<Longrightarrow> entry_step Leave (Some r) None"

inductive_cases entry_stepE: "entry_step a x y"

text \<open>The state of an entry after a step, by label: the transition table.\<close>

definition transition :: "entry_action \<Rightarrow> pending_state option \<Rightarrow> pending_state option \<Rightarrow> bool" where
  "transition a x y \<longleftrightarrow>
     (case a of
        Born \<Rightarrow> x = None \<and> y = Some Unverified
      | Claim \<Rightarrow> x = Some Unverified \<and> y = Some Verifying
      | Finish \<Rightarrow> x = Some Verifying \<and> (y = Some Unverified \<or> y = Some Verified)
      | Mark \<Rightarrow> x = y
      | Weigh \<Rightarrow> x = y
      | Leave \<Rightarrow> (x = Some Unverified \<or> x = Some Verified) \<and> y = None)"

lemma entry_step_transition: "entry_step a x y \<Longrightarrow> transition a (map_option pe_state x) (map_option pe_state y)"
  by (induction rule: entry_step.induct) (simp_all add: transition_def finished_fields, metis pending_state.exhaust)

definition steps :: "entry_action set \<Rightarrow> entry_record option \<Rightarrow> entry_record option \<Rightarrow> bool" where
  "steps A = (\<lambda>x y. \<exists>a\<in>A. entry_step a x y)\<^sup>*\<^sup>*"

lemma steps_refl [simp, intro]: "steps A x x"
  by (simp add: steps_def)

lemma steps_one: "entry_step a x y \<Longrightarrow> a \<in> A \<Longrightarrow> steps A x y"
  unfolding steps_def by (rule r_into_rtranclp) blast

lemma steps_trans: "steps A x y \<Longrightarrow> steps A y z \<Longrightarrow> steps A x z"
  unfolding steps_def by (rule rtranclp_trans)

lemma steps_mono: "steps A x y \<Longrightarrow> A \<subseteq> B \<Longrightarrow> steps B x y"
  unfolding steps_def by (erule rtranclp_mono [THEN predicate2D, rotated]) blast

definition moves :: "entry_action set \<Rightarrow> registry \<Rightarrow> registry \<Rightarrow> bool" where
  "moves A st st' \<longleftrightarrow> (\<forall>h. steps A (entry_at st h) (entry_at st' h))"

lemma moves_same: "entry_at st' = entry_at st \<Longrightarrow> moves A st st'"
  by (simp add: moves_def)

lemma moves_trans: "moves A st st1 \<Longrightarrow> moves A st1 st2 \<Longrightarrow> moves A st st2"
  unfolding moves_def using steps_trans by blast

lemma moves_mono: "moves A st st' \<Longrightarrow> A \<subseteq> B \<Longrightarrow> moves B st st'"
  unfolding moves_def using steps_mono by blast

lemma moves_one: "entry_step a (entry_at st h) x \<Longrightarrow> a \<in> A \<Longrightarrow> entry_at st' = (entry_at st)(h := x) \<Longrightarrow> moves A st st'"
  unfolding moves_def by (simp add: steps_one)

lemma fold_moves:
  assumes "\<And>h st. reg_ok opt st \<Longrightarrow> reg_ok opt (f h st) \<and> moves A st (f h st)" "reg_ok opt st"
  shows "moves A st (fold f hs st)"
  using assms(2)
proof (induction hs arbitrary: st)
  case (Cons h hs)
  note one = assms(1) [OF Cons.prems, of h]
  show ?case unfolding fold.simps comp_def by (rule moves_trans [OF conjunct2 [OF one] Cons.IH [OF conjunct1 [OF one]]])
qed (simp add: moves_same)

section \<open>The operations as steps\<close>

lemma evict_moves:
  assumes "entry_at st h = Some r" "pe_state r \<noteq> Verifying"
  shows "moves {Leave} st (evict_entry h c st)"
  by (rule moves_one [of Leave _ h None]) (auto simp: assms entry_evict intro: leave)

lemma finish_moves:
  assumes "reg_ok opt st" "entry_at st h = Some r" "pe_state r = Verifying"
  shows "moves {Finish} st (finishRun r s st)"
proof (rule moves_one [of Finish _ h "Some (finished r s)"])
  have r: "map_get (rg_byHandle st) h = Some r" using assms(2) by (simp add: entry_at_def)
  have "pe_run r \<noteq> None" using reg_okD(7) [OF assms(1) r] assms(3) by (simp add: rec_ok_def)
  then show "entry_step Finish (entry_at st h) (Some (finished r s))" unfolding assms(2) by (rule finish [OF assms(3)])
  show "entry_at (finishRun r s st) = (entry_at st)(h := Some (finished r s))"
    by (rule ext) (simp add: entry_finish [OF reg_okD(8) [OF assms(1) r]])
qed simp

lemma put_moves:
  assumes "reg_ok opt st" "entry_at st h = Some r" "pe_handle r' = pe_handle r" "entry_step a (Some r) (Some r')"
  shows "moves {a} st (put_rec r' st)"
proof (rule moves_one [of a _ h "Some r'"])
  have "pe_handle r = h" using reg_okD(8) [OF assms(1)] assms(2) by (simp add: entry_at_def)
  then show "entry_at (put_rec r' st) = (entry_at st)(h := Some r')"
    using assms(3) by (intro ext) (simp add: entry_at_def put_rec_def map_get_set)
qed (use assms in simp_all)

lemma maintain_one_moves:
  assumes ok: "reg_ok opt st"
  shows "moves {Finish, Leave} st (snd (maintain_one opt t h (n, st)))"
  unfolding moves_def
proof
  fix j
  show "steps {Finish, Leave} (entry_at st j) (entry_at (snd (maintain_one opt t h (n, st))) j)"
  proof (cases "entry_at st h")
    case (Some r)
    then have r: "map_get (rg_byHandle st) h = Some r" by (simp add: entry_at_def)
    define r1 where "r1 = (if overdue opt t r then finished r (synthetic_settled ABANDONED_REASON h t) else r)"
    have "pe_run r \<noteq> None" if "pe_state r = Verifying" using reg_okD(7) [OF ok r] that by (simp add: rec_ok_def)
    then have "steps {Finish, Leave} (Some r) (Some r1)"
      by (auto simp: r1_def overdue_def intro!: steps_one [of Finish] finish)
    moreover have "steps {Finish, Leave} (Some r1) None" if "pe_state r1 \<noteq> Verifying"
      by (rule steps_one [OF leave [OF that]]) simp
    ultimately have "steps {Finish, Leave} (Some r) (if pe_state r1 \<noteq> Verifying \<and> (pe_doomed r \<or> isExpired opt r t) then None else Some r1)"
      using steps_trans by (simp split: if_split)
    then show ?thesis unfolding maintain_one_entry [OF ok] Some option.simps Let_def r1_def [symmetric] by (cases "j = h") (simp_all add: Some)
  qed (simp add: maintain_one_entry [OF ok])
qed

lemma maintain_moves:
  assumes "reg_ok opt st"
  shows "moves {Finish, Leave} st (snd (maintain opt t st))"
proof -
  have "moves {Finish, Leave} st (snd (fold (maintain_one opt t) hs (n, st)))" for hs n
    using assms
  proof (induction hs arbitrary: n st)
    case (Cons h hs)
    obtain m st1 where st1: "maintain_one opt t h (n, st) = (m, st1)" by (metis prod.exhaust)
    then have "moves {Finish, Leave} st st1" "reg_ok opt st1"
      using maintain_one_moves [OF Cons.prems, of t h n] maintain_one_ok [OF Cons.prems, of t h n] by simp_all
    with Cons.IH [of st1 m] st1 show ?case by (auto intro: moves_trans)
  qed (simp add: moves_same)
  moreover have "entry_at (expire_ledger opt t st) = entry_at st" for st
    by (rule ext) (simp add: expire_ledger_def entry_at_def)
  ultimately show ?thesis by (simp add: maintain_def split_def Let_def moves_def)
qed

lemma register_moves:
  assumes ok: "reg_ok opt st"
  shows "moves {Finish, Leave, Born} st (snd (register opt reg draws t st))"
proof -
  let ?st = "snd (maintain opt t st)" and ?pw = "path_weight (fst (stored_changes (pr_changedFiles reg)))"
  note ok1 = maintain_ok [OF ok, of t]
  have m: "moves {Finish, Leave, Born} st ?st" by (rule moves_mono [OF maintain_moves [OF ok]]) blast
  show ?thesis
  proof (cases "plan_evictions opt (pr_session reg) ?pw ?st")
    case None
    with m show ?thesis by (simp add: register_def Let_def moves_same)
  next
    case (Some vs)
    note plan = plan_facts [OF ok1 Some]
    show ?thesis
    proof (cases "drawHandle ?st (take HANDLE_MAX_DRAWS draws)")
      case None
      with m Some show ?thesis by (simp add: register_def Let_def moves_same)
    next
      case h: (Some h)
      let ?st2 = "evict_all vs ?st" let ?r = "new_record opt reg h (rg_seq ?st2 + 1) t"
      let ?st3 = "insert_record ?r (?st2\<lparr>rg_seq := rg_seq ?st2 + 1\<rparr>)"
      have "moves {Leave} st' (evict_all vs' st')"
        if "\<forall>(r, c)\<in>set vs'. entry_at st' (pe_handle r) = Some r \<and> eviction_ok (r, c)" "distinct (map (pe_handle \<circ> fst) vs')" for vs' st'
        using that
      proof (induction vs' arbitrary: st')
        case (Cons v vs')
        obtain r c where v: "v = (r, c)" by (cases v)
        have "moves {Leave} st' (evict_entry (pe_handle r) c st')"
          using Cons.prems(1) by (intro evict_moves [of _ _ r]) (auto simp: v eviction_ok_def)
        moreover have "moves {Leave} (evict_entry (pe_handle r) c st') (evict_all vs' (evict_entry (pe_handle r) c st'))"
        proof (rule Cons.IH)
          show "\<forall>(q, d)\<in>set vs'. entry_at (evict_entry (pe_handle r) c st') (pe_handle q) = Some q \<and> eviction_ok (q, d)"
            using evict_rest [of r c vs' st'] Cons.prems unfolding v .
          show "distinct (map (pe_handle \<circ> fst) vs')" using Cons.prems(2) by (simp add: comp_def)
        qed
        ultimately have "moves {Leave} st' (evict_all vs' (evict_entry (pe_handle r) c st'))" by (rule moves_trans)
        then show ?case by (simp add: evict_all_def v)
      qed (simp add: evict_all_def moves_same)
      from this [OF plan(1,2)] have e: "moves {Finish, Leave, Born} ?st ?st2" by (rule moves_mono) simp
      have "entry_at ?st2 h = None"
        by (rule evict_all_facts(5) [OF ok1 plan(1,2)]) (use drawHandle_fresh [OF h] in \<open>simp add: entry_at_def\<close>)
      then have "moves {Born} ?st2 ?st3"
        by (intro moves_one [of Born _ h "Some ?r"])
          (auto simp: new_record_fields insert_record_def entry_at_def map_get_set intro!: born)
      then have "moves {Finish, Leave, Born} ?st2 ?st3" by (rule moves_mono) blast
      then have "moves {Finish, Leave, Born} st ?st3" by (rule moves_trans [OF moves_trans [OF m e]])
      with h Some show ?thesis by (simp add: register_def Let_def evict_all_def moves_same)
    qed
  qed
qed

lemma reject_moves: "moves A st (landed_rejection r h res t st)"
  by (rule moves_same) (rule entry_landed)

lemma evict_finished_moves:
  assumes "entry_at st h = Some (finished r s)"
  shows "moves {Finish, Leave} st (evict_entry h c st)"
  by (rule moves_mono [OF evict_moves [OF assms]]) (auto simp: finished_fields)

lemma settle_moves:
  assumes ok: "reg_ok opt st"
  shows "moves {Finish, Leave} st (snd (settle opt h run res t t2 st))"
proof (cases "map_get (rg_byHandle st) h")
  case (Some r)
  show ?thesis
  proof (cases "pe_run r = Some run")
    case True
    let ?s = "\<lparr>sv_result = res, sv_handle = h, sv_settledAt = t\<rparr>"
    let ?st1 = "landed_rejection r h res t2 (finishRun r ?s st)"
    have at: "entry_at st h = Some r" "pe_state r = Verifying" "entry_at ?st1 h = Some (finished r ?s)"
      using Some True reg_okD(7) [OF ok Some] finish_get [OF Some reg_okD(8) [OF ok Some], of ?s] entry_landed
      by (auto simp: entry_at_def rec_ok_def fun_eq_iff)
    have "moves {Finish, Leave} st (finishRun r ?s st)" by (rule moves_mono [OF finish_moves [OF ok at(1,2)]]) blast
    then have "moves {Finish, Leave} st ?st1" by (rule moves_trans [OF _ reject_moves])
    moreover from this have "moves {Finish, Leave} st (evict_entry h c ?st1)" for c
      by (rule moves_trans [OF _ evict_finished_moves [OF at(3)]])
    ultimately show ?thesis using True Some by (simp add: settle_def Let_def)
  qed (use Some in \<open>simp add: settle_def moves_same\<close>)
qed (simp add: settle_def moves_same)

lemma markVerifying_moves:
  assumes ok: "reg_ok opt st"
  shows "moves {Finish, Leave, Claim} st (snd (markVerifying opt sid h t st))"
proof -
  let ?st = "snd (maintain opt t st)"
  note ok1 = maintain_ok [OF ok, of t]
  have m: "moves {Finish, Leave, Claim} st ?st" by (rule moves_mono [OF maintain_moves [OF ok]]) blast
  show ?thesis
  proof (cases "lookup_entry sid h ?st")
    case (Found r)
    then have r: "map_get (rg_byHandle ?st) h = Some r" by (simp add: get_found [OF ok1])
    note rok = reg_okD(7,8) [OF ok1 r]
    let ?r = "r\<lparr>pe_state := Verifying, pe_verifyingSince := Some t, pe_run := Some (rg_runs ?st)\<rparr>"
    have claimed: "moves {Finish, Leave, Claim} st ((put_rec ?r ?st)\<lparr>rg_runs := n\<rparr>)" if "pe_state r = Unverified" for n
    proof (rule moves_trans [OF m])
      show "moves {Finish, Leave, Claim} ?st ((put_rec ?r ?st)\<lparr>rg_runs := n\<rparr>)"
        by (rule moves_one [of Claim _ h "Some ?r"])
          (use r rok(2) in \<open>auto simp: entry_at_def put_rec_def map_get_set intro!: claim that\<close>)
    qed
    show ?thesis
    proof (cases "pe_state r")
      case Unverified
      with claimed Found show ?thesis by (simp add: markVerifying_def Let_def)
    next
      case Verifying
      with rok Found m show ?thesis by (auto simp: markVerifying_def Let_def rec_ok_def split: option.split)
    next
      case Verified
      with rok Found m show ?thesis by (auto simp: markVerifying_def Let_def rec_ok_def split: option.split)
    qed
  qed (use m in \<open>simp_all add: markVerifying_def Let_def\<close>)
qed

lemma markReplayed_moves:
  assumes "reg_ok opt st"
  shows "moves {Mark} st (markReplayed sid handles st)"
  unfolding markReplayed_def
proof (rule fold_moves [OF _ assms])
  fix h st
  assume ok: "reg_ok opt st"
  let ?one = "if h \<in> set (or_else (map_get (rg_sessions st) sid) [])
      then (case map_get (rg_byHandle st) h of None \<Rightarrow> st | Some r \<Rightarrow> put_rec (r\<lparr>pe_replayed := True\<rparr>) st) else st"
  have "reg_ok opt ?one" using markReplayed_ok [OF ok, of sid "[h]"] by (simp add: markReplayed_def)
  moreover have "moves {Mark} st ?one"
  proof (cases "map_get (rg_byHandle st) h")
    case (Some r)
    have "moves {Mark} st (put_rec (r\<lparr>pe_replayed := True\<rparr>) st)"
      by (rule put_moves [OF ok, of h r]) (use Some in \<open>simp_all add: entry_at_def replayed\<close>)
    with Some show ?thesis by (simp add: moves_same)
  qed (simp add: moves_same)
  ultimately show "reg_ok opt ?one \<and> moves {Mark} st ?one" ..
qed

lemma forgetSession_moves:
  assumes "reg_ok opt st"
  shows "moves {Mark, Leave} st (forgetSession sid st)"
proof -
  have "moves {Mark, Leave} st (fold forget_one hs st)" for hs
  proof (rule fold_moves [OF _ assms], intro conjI)
    fix h st
    assume ok: "reg_ok opt st"
    show "reg_ok opt (forget_one h st)" by (rule forget_one_ok [OF ok])
    show "moves {Mark, Leave} st (forget_one h st)"
    proof (cases "map_get (rg_byHandle st) h")
      case (Some r)
      then have at: "entry_at st h = Some r" by (simp add: entry_at_def)
      have "moves {Mark, Leave} st (put_rec (r\<lparr>pe_doomed := True\<rparr>) st)" if "pe_state r = Verifying"
        by (rule moves_mono [OF put_moves [OF ok at _ doomed [OF that]]]) simp_all
      moreover have "moves {Mark, Leave} st (evict_entry h EvSessionGone st)" if "pe_state r \<noteq> Verifying"
        by (rule moves_mono [OF evict_moves [OF at that]]) simp
      ultimately show ?thesis using Some by (simp add: forget_one_def)
    qed (simp add: forget_one_def moves_same)
  qed
  then show ?thesis by (simp add: forgetSession_def Let_def moves_def entry_at_def)
qed

lemma dispose_moves:
  assumes "reg_ok opt st"
  shows "moves {Finish, Leave} st (dispose t st)"
proof -
  have "moves {Finish, Leave} st (fold (dispose_one t) hs st)" for hs
  proof (rule fold_moves [OF _ assms], intro conjI)
    fix h st
    assume ok: "reg_ok opt st"
    show "reg_ok opt (dispose_one t h st)" by (rule dispose_one_ok [OF ok])
    show "moves {Finish, Leave} st (dispose_one t h st)"
    proof (cases "map_get (rg_byHandle st) h")
      case (Some r)
      then have at: "entry_at st h = Some r" by (simp add: entry_at_def)
      note rok = reg_okD(7,8) [OF ok Some]
      let ?s = "synthetic_settled DISPOSED_REASON h t"
      have "moves {Finish, Leave} st (evict_entry h EvDisposed st)" if "pe_run r = None"
        by (rule moves_mono [OF evict_moves [OF at]]) (use rok that in \<open>auto simp: rec_ok_def\<close>)
      moreover have "moves {Finish, Leave} st (evict_entry h EvDisposed (finishRun r ?s st))" if "pe_run r \<noteq> None"
      proof (rule moves_trans)
        show "moves {Finish, Leave} st (finishRun r ?s st)"
          by (rule moves_mono [OF finish_moves [OF ok at]]) (use rok that in \<open>auto simp: rec_ok_def\<close>)
        show "moves {Finish, Leave} (finishRun r ?s st) (evict_entry h EvDisposed (finishRun r ?s st))"
          by (rule evict_finished_moves [of _ _ r ?s]) (simp add: entry_finish [OF rok(2)])
      qed
      ultimately show ?thesis using Some by (simp add: dispose_one_def)
    qed (simp add: dispose_one_def moves_same)
  qed
  then show ?thesis by (simp add: dispose_def moves_def entry_at_def)
qed

lemma reference_moves:
  assumes ok: "reg_ok opt st"
  shows "moves {Finish, Leave, Weigh} st (reference_resolved opt h seq s t st)"
proof -
  have "moves {Finish, Leave, Weigh} st (admitReferenceWeight opt h seq w t st)" for w
  proof -
    define st1 where "st1 = (if int (ro_maxWeight opt) < rg_weight st + int w then snd (maintain opt t st) else st)"
    have ok1: "reg_ok opt st1" using ok by (simp add: st1_def maintain_ok)
    have m: "moves {Finish, Leave, Weigh} st st1"
      by (cases "int (ro_maxWeight opt) < rg_weight st + int w")
        (auto simp: st1_def moves_same intro: moves_mono [OF maintain_moves [OF ok]])
    show ?thesis
    proof (cases "live_record h seq st1")
      case None
      with m show ?thesis by (simp add: admitReferenceWeight_def st1_def [symmetric])
    next
      case (Some r)
      from live_recordD [OF Some] have r: "entry_at st1 h = Some r" "\<not> pe_released r" by simp_all
      have put: "moves {Finish, Leave, Weigh} st1 (put_rec r' st1)" if "pe_handle r' = pe_handle r" "entry_step Weigh (Some r) (Some r')" for r'
        by (rule moves_mono [OF put_moves [OF ok1 r(1) that]]) simp
      have "moves {Finish, Leave, Weigh} st1 ((put_rec (r\<lparr>pe_refWeight := w\<rparr>) st1)\<lparr>rg_weight := v\<rparr>)" for v
        using put [OF _ weigh [OF r(2)]] by (simp add: moves_def entry_at_def)
      moreover have "moves {Finish, Leave, Weigh} st1 (put_rec (r\<lparr>pe_reference := StoredState (RefNone REFERENCE_SHED_REASON)\<rparr>) st1)"
        by (rule put [OF _ shed [OF r(2)]]) simp
      ultimately show ?thesis using Some moves_trans [OF m]
        unfolding admitReferenceWeight_def Let_def st1_def [symmetric] Some option.simps by (simp split: if_split)
    qed
  qed
  then show ?thesis by (simp add: reference_resolved_def moves_same split: option.split)
qed

end
