(* ===== verification/Pending_Spec.thy ===== *)
theory Pending_Spec
  imports Pending_Steps
begin

text \<open>
  The registry of deferred delegations over any sequence of its operations: its bounds, the accounting of runs,
  what the caps may evict, isolation of the sessions, the transition table, and the bound upkeep puts
  on the life of an entry and on the wait for a run.
\<close>

section \<open>Sequences of operations\<close>

datatype registry_op =
    OpRegister registration "nat list list" real
  | OpReference string nat reference_state real
  | OpGet string string real
  | OpList string "pending_state list" real
  | OpClaim string string real
  | OpSettle string nat verification_result real real
  | OpReplayed string "string list"
  | OpReject rejection_record real
  | OpLineage string string real "string list" real
  | OpForget string
  | OpSweep real
  | OpDispose real

fun registry_step :: "registry_options \<Rightarrow> registry_op \<Rightarrow> registry \<Rightarrow> registry" where
  "registry_step opt (OpRegister reg draws t) st = snd (register opt reg draws t st)"
| "registry_step opt (OpReference h seq s t) st = reference_resolved opt h seq s t st"
| "registry_step opt (OpGet sid h t) st = snd (get_entry opt sid h t st)"
| "registry_step opt (OpList sid states t) st = snd (listByState opt sid states t st)"
| "registry_step opt (OpClaim sid h t) st = snd (markVerifying opt sid h t st)"
| "registry_step opt (OpSettle h run res t t2) st = snd (settle opt h run res t t2 st)"
| "registry_step opt (OpReplayed sid hs) st = markReplayed sid hs st"
| "registry_step opt (OpReject rec t) st = recordRejection rec t st"
| "registry_step opt (OpLineage sid tree dispatchedAt ids t) st = snd (findLineage opt sid tree dispatchedAt ids t st)"
| "registry_step opt (OpForget sid) st = forgetSession sid st"
| "registry_step opt (OpSweep t) st = snd (registry_sweep opt t st)"
| "registry_step opt (OpDispose t) st = dispose t st"

definition run_registry :: "registry_options \<Rightarrow> registry_op list \<Rightarrow> registry" where
  "run_registry opt ops = fold (registry_step opt) ops emptyRegistry"

text \<open>The references that resolve in a sequence, by the sequence number of their entry: a promise resolves once.\<close>

fun reference_seqs :: "registry_op list \<Rightarrow> nat list" where
  "reference_seqs [] = []"
| "reference_seqs (OpReference h seq s t # ops) = seq # reference_seqs ops"
| "reference_seqs (op # ops) = reference_seqs ops"

fun allowed :: "registry_op \<Rightarrow> entry_action set" where
  "allowed (OpRegister _ _ _) = {Finish, Leave, Born}"
| "allowed (OpReference _ _ _ _) = {Finish, Leave, Weigh}"
| "allowed (OpGet _ _ _) = {Finish, Leave}"
| "allowed (OpList _ _ _) = {Finish, Leave}"
| "allowed (OpClaim _ _ _) = {Finish, Leave, Claim}"
| "allowed (OpSettle _ _ _ _ _) = {Finish, Leave}"
| "allowed (OpReplayed _ _) = {Mark}"
| "allowed (OpReject _ _) = {}"
| "allowed (OpLineage _ _ _ _ _) = {Finish, Leave}"
| "allowed (OpForget _) = {Mark, Leave}"
| "allowed (OpSweep _) = {Finish, Leave}"
| "allowed (OpDispose _) = {Finish, Leave}"

section \<open>The invariant along a sequence\<close>

definition refs_in :: "nat set \<Rightarrow> registry \<Rightarrow> bool" where
  "refs_in D st \<longleftrightarrow> (\<forall>h r. entry_at st h = Some r \<longrightarrow> pe_refWeight r \<noteq> 0 \<longrightarrow> pe_seq r \<in> D)"

lemma list_moves_state: "snd (listByState opt sid states t st) = snd (maintain opt t st)"
  by (simp add: listByState_def Let_def)

lemma lineage_state: "snd (findLineage opt sid tree d ids t st) = snd (maintain opt t st)"
  by (simp add: findLineage_def Let_def)

lemma step_moves:
  assumes "reg_ok opt st"
  shows "moves (allowed op) st (registry_step opt op st)"
  using maintain_moves [OF assms] register_moves [OF assms] reference_moves [OF assms] markVerifying_moves [OF assms]
    settle_moves [OF assms] markReplayed_moves [OF assms] forgetSession_moves [OF assms] dispose_moves [OF assms]
  by (cases op) (simp_all add: list_moves_state lineage_state get_entry_def Let_def registry_sweep_def moves_same entry_reject)

lemma entry_step_ref:
  "entry_step a x y \<Longrightarrow> a \<noteq> Weigh \<Longrightarrow> y = Some r \<Longrightarrow> pe_refWeight r \<noteq> 0 \<Longrightarrow>
    \<exists>q. x = Some q \<and> pe_seq q = pe_seq r \<and> pe_refWeight q = pe_refWeight r"
  by (induction rule: entry_step.induct) (auto simp: finished_def released_def Let_def split: if_splits)

lemma steps_ref:
  assumes "steps A x y" "Weigh \<notin> A" "y = Some r" "pe_refWeight r \<noteq> 0"
  shows "\<exists>q. x = Some q \<and> pe_seq q = pe_seq r \<and> pe_refWeight q = pe_refWeight r"
  using assms(1) unfolding steps_def
proof (induction rule: converse_rtranclp_induct)
  case base
  then show ?case using assms(3) by blast
next
  case (step w z)
  then obtain a q where "a \<in> A" "entry_step a w z" "z = Some q" "pe_seq q = pe_seq r" "pe_refWeight q = pe_refWeight r" by blast
  with assms(2,4) entry_step_ref [of a w z q] show ?case by auto
qed

lemma moves_refs: "moves A st st' \<Longrightarrow> Weigh \<notin> A \<Longrightarrow> refs_in D st \<Longrightarrow> refs_in D st'"
  unfolding refs_in_def moves_def using steps_ref by metis

lemma reference_refs:
  assumes ok: "reg_ok opt st" and D: "refs_in D st"
  shows "refs_in (insert seq D) (reference_resolved opt h seq s t st)"
proof -
  have m: "refs_in D (snd (maintain opt t st))" by (rule moves_refs [OF maintain_moves [OF ok] _ D]) simp
  have put: "refs_in (insert seq D) (put_rec r' st1)" if "refs_in D st1" "pe_seq r' = seq" for r' st1
    using that by (auto simp: refs_in_def entry_at_def put_rec_def map_get_set)
  have grow: "refs_in (insert seq D) st1" if "refs_in D st1" for st1 using that by (auto simp: refs_in_def)
  have put2: "refs_in (insert seq D) ((put_rec r' st1)\<lparr>rg_weight := v\<rparr>)" if "refs_in D st1" "pe_seq r' = seq" for r' st1 v
    using put [OF that] by (simp add: refs_in_def entry_at_def)
  have "refs_in (insert seq D) (admitReferenceWeight opt h seq w t st)" for w
  proof -
    define st1 where "st1 = (if int (ro_maxWeight opt) < rg_weight st + int w then snd (maintain opt t st) else st)"
    have D1: "refs_in D st1" using m D by (simp add: st1_def)
    show ?thesis
    proof (cases "live_record h seq st1")
      case (Some r)
      with live_recordD have "pe_seq r = seq" by blast
      with put [OF D1] put2 [OF D1] Some show ?thesis
        unfolding admitReferenceWeight_def Let_def st1_def [symmetric] by (simp split: if_split)
    next
      case None
      with grow [OF D1] show ?thesis unfolding admitReferenceWeight_def Let_def st1_def [symmetric] by simp
    qed
  qed
  then show ?thesis using grow [OF D] by (simp add: reference_resolved_def split: option.split)
qed

lemma step_ok:
  assumes "reg_ok opt st" "refs_in D st" "set (reference_seqs [op]) \<inter> D = {}"
  shows "reg_ok opt (registry_step opt op st) \<and> refs_in (set (reference_seqs [op]) \<union> D) (registry_step opt op st)"
proof (cases "\<exists>h seq s t. op = OpReference h seq s t")
  case True
  then obtain h seq s t where op: "op = OpReference h seq s t" by blast
  have "pe_refWeight r = 0" if "entry_at st h = Some r" "pe_seq r = seq" for r
    using assms(2,3) that by (auto simp: op refs_in_def)
  with reference_resolved_ok [OF assms(1)] reference_refs [OF assms(1,2)] show ?thesis by (simp add: op)
next
  case False
  then have "Weigh \<notin> allowed op" "reference_seqs [op] = []" by (cases op; simp)+
  moreover have "reg_ok opt (registry_step opt op st)"
    using False maintain_ok [OF assms(1)] register_ok [OF assms(1)] markVerifying_ok [OF assms(1)] settle_ok [OF assms(1)]
      markReplayed_ok [OF assms(1)] recordRejection_ok [OF assms(1)] forgetSession_ok [OF assms(1)] dispose_ok [OF assms(1)]
    by (cases op) (simp_all add: list_moves_state lineage_state get_entry_def Let_def registry_sweep_def)
  ultimately show ?thesis using moves_refs [OF step_moves [OF assms(1)] _ assms(2)] by simp
qed

lemma seqs_Cons: "reference_seqs (op # ops) = reference_seqs [op] @ reference_seqs ops"
  by (cases op) simp_all

lemma fold_ok:
  "reg_ok opt st \<Longrightarrow> refs_in D st \<Longrightarrow> distinct (reference_seqs ops) \<Longrightarrow> set (reference_seqs ops) \<inter> D = {} \<Longrightarrow>
    reg_ok opt (fold (registry_step opt) ops st)"
proof (induction ops arbitrary: st D)
  case (Cons op ops)
  note s = seqs_Cons [of op ops]
  have one: "reg_ok opt (registry_step opt op st) \<and> refs_in (set (reference_seqs [op]) \<union> D) (registry_step opt op st)"
    by (rule step_ok [OF Cons.prems(1,2)]) (use Cons.prems(4) in \<open>auto simp: s\<close>)
  show ?case unfolding fold.simps comp_def
    by (rule Cons.IH [OF conjunct1 [OF one] conjunct2 [OF one]]) (use Cons.prems(3,4) in \<open>auto simp: s\<close>)
qed simp

lemma run_ok: "distinct (reference_seqs ops) \<Longrightarrow> reg_ok opt (run_registry opt ops)"
  unfolding run_registry_def
  by (rule fold_ok [of opt emptyRegistry "{}"]) (simp_all add: reg_ok_empty, simp add: refs_in_def entry_at_def emptyRegistry_def)

section \<open>A run of the registry\<close>

definition sample_options :: registry_options where
  "sample_options = \<lparr>ro_ttlMs = 100, ro_maxVerifyingMs = 50, ro_maxPerSession = 2, ro_maxGlobal = 3, ro_maxWeight = 10, ro_sanitize = (\<lambda>s. s)\<rparr>"

definition sample_registration :: registration where
  "sample_registration = \<lparr>pr_session = ''s'', pr_dispatchID = ''d'', pr_producer = ''p'', pr_producerTier = ''fast'', pr_description = ''x'',
     pr_cwd = ''/r'', pr_root = Some ''/r'', pr_dispatchedAt = 0,
     pr_dod = \<lparr>dd_kind = DodNone, dd_checks = [], dd_criteria = [], dd_deliverable = None, dd_source = SrcNone, dd_cwd = None\<rparr>,
     pr_reference = 0, pr_changedFiles = ChangedFiles [], pr_risk = \<lparr>ra_level = LevelLow, ra_reasons = []\<rparr>, pr_digests = None,
     pr_concurrentDispatches = None, pr_contaminatedBy = None\<rparr>"

definition sample_handle :: string where
  "sample_handle = ''vrf_'' @ replicate 24 (CHR ''0'')"

text \<open>A registration at 0, its reference resolved, and a claim at 10.\<close>

definition sample_ops :: "registry_op list" where
  "sample_ops = [OpRegister sample_registration [replicate 12 0] 0, OpReference sample_handle 1 (RefNone ''x'') 1, OpClaim ''s'' sample_handle 10]"

definition sample_entry :: entry_record where
  "sample_entry = (new_record sample_options sample_registration sample_handle 1 0)\<lparr>pe_state := Verifying, pe_verifyingSince := Some 10, pe_run := Some 0\<rparr>"

lemma sample_draw: "drawHandle st (take HANDLE_MAX_DRAWS [replicate 12 0]) =
    (if map_get (rg_byHandle st) sample_handle \<noteq> None \<or> map_get (rg_tombstones st) sample_handle \<noteq> None then None else Some sample_handle)"
proof -
  have "HANDLE_PREFIX @ toHex (replicate 12 0) = sample_handle" "is_handle sample_handle" by code_simp+
  then show ?thesis by (simp add: HANDLE_MAX_DRAWS_def Let_def)
qed

definition sample_born :: registry where
  "sample_born = (let r = new_record sample_options sample_registration sample_handle 1 0 in
     emptyRegistry\<lparr>rg_sessions := [(''s'', [sample_handle])], rg_byHandle := [(sample_handle, r)], rg_seq := 1\<rparr>)"

lemma sample_registered: "snd (register sample_options sample_registration [replicate 12 0] 0 emptyRegistry) = sample_born"
  by (simp add: register_def Let_def sample_draw plan_evictions_def maintain_def expire_ledger_def evictionCandidates_def by_age_def
      map_keys_def emptyRegistry_def sample_born_def insert_record_def new_record_fields)
    (simp add: sample_registration_def sample_options_def stored_changes_def path_weight_def)

lemma sample_run: "run_registry sample_options sample_ops = (put_rec sample_entry sample_born)\<lparr>rg_runs := 1\<rparr>"
proof -
  let ?r = "new_record sample_options sample_registration sample_handle 1 0"
  have ref: "reference_resolved sample_options sample_handle 1 (RefNone ''x'') 1 sample_born = sample_born"
    by (simp add: reference_resolved_def reference_weight_def split: option.split)
  have m: "snd (maintain sample_options 10 sample_born) = sample_born"
    by (simp add: sample_born_def maintain_def map_keys_def maintain_one_def overdue_def new_record_fields isExpired_def sample_options_def
        expire_ledger_def emptyRegistry_def Let_def)
  have "markVerifying sample_options ''s'' sample_handle 10 sample_born =
      (Claimed sample_entry 0, (put_rec sample_entry sample_born)\<lparr>rg_runs := 1\<rparr>)"
    unfolding markVerifying_def m Let_def
    by (simp add: sample_born_def lookup_entry_def new_record_fields Let_def emptyRegistry_def sample_entry_def)
  then show ?thesis
    unfolding run_registry_def sample_ops_def
    by (simp only: fold.simps comp_def id_apply registry_step.simps sample_registered ref snd_conv)
qed

lemma sample_state: "entry_at (run_registry sample_options sample_ops) sample_handle = Some sample_entry"
  by (simp add: sample_run entry_at_def put_rec_def sample_born_def Let_def sample_entry_def new_record_fields map_get_set)

lemma sample_seqs: "distinct (reference_seqs sample_ops)"
  by (simp add: sample_ops_def)

lemmas sample_ok = run_ok [OF sample_seqs]

section \<open>Bounds and accounting\<close>

lemma entry_record_of: "reg_ok opt st \<Longrightarrow> r \<in> set (map snd (rg_byHandle st)) \<longleftrightarrow> entry_at st (pe_handle r) = Some r"
  by (rule all_records_facts(2))

text \<open>(C23) The registry keeps its well-formedness over any sequence of registrations, reads, claims, results, forgotten
  sessions, sweeps and disposals in which each reference promise resolves at most once: the session index and the
  handle index describe the same entries; a verifying entry has a run and a start, a verified entry is released and
  keeps a result; the weight is the exact sum of the entries' weights; and no issued handle is also a tombstone.\<close>

theorem registry_stays_consistent:
  "distinct (reference_seqs ops) \<Longrightarrow> reg_ok opt (run_registry opt ops)"
  by (rule run_ok)

theorem registry_stays_consistent_witness: "reg_ok sample_options (run_registry sample_options sample_ops)"
  by (rule registry_stays_consistent) (rule sample_seqs)

text \<open>(C32) The memory of the registry is bounded: after any sequence of operations the entries of all sessions, of
  each session, the weight, the tombstones and each session's rejection ledger are within their caps.\<close>

theorem registry_within_bounds:
  assumes "distinct (reference_seqs ops)"
  shows "length (rg_byHandle (run_registry opt ops)) \<le> ro_maxGlobal opt \<and> rg_weight (run_registry opt ops) \<le> int (ro_maxWeight opt) \<and>
    length (handles_of sid (run_registry opt ops)) \<le> ro_maxPerSession opt \<and> length (rg_tombstones (run_registry opt ops)) \<le> TOMBSTONE_MAX \<and>
    list_all (\<lambda>(_, l). length l \<le> MAX_LEDGER_PER_SESSION) (rg_ledger (run_registry opt ops))"
  using reg_okD(3) [OF run_ok [OF assms, of opt]] by (simp add: bounds_ok_def list_all_iff)

theorem registry_within_bounds_witness: "length (handles_of ''s'' (run_registry sample_options sample_ops)) \<le> 2"
  using registry_within_bounds [OF sample_seqs, of sample_options "''s''"] by (simp add: sample_options_def)

definition open_runs :: "registry \<Rightarrow> nat list" where
  "open_runs st = List.map_filter pe_run (map snd (rg_byHandle st))"

lemma open_runs_live: "mset (open_runs st) = live_runs (vals (rg_byHandle st))"
proof -
  have "mset (List.map_filter pe_run rs) = live_runs (mset rs)" for rs
    by (induction rs) (simp_all add: List.map_filter_def live_runs_def run_of_def split: option.split)
  then show ?thesis by (simp add: open_runs_def vals_def)
qed

text \<open>(C4) No verification run is lost or answered twice: over any sequence of operations every run ever started is
  either carried by exactly one live entry or has been resolved exactly once, and no other run was resolved.\<close>

theorem runs_resolve_exactly_once:
  assumes "distinct (reference_seqs ops)"
  shows "distinct (open_runs (run_registry opt ops) @ map fst (rg_resolved (run_registry opt ops))) \<and>
    set (open_runs (run_registry opt ops) @ map fst (rg_resolved (run_registry opt ops))) = {0..<rg_runs (run_registry opt ops)}"
proof -
  have "mset (open_runs (run_registry opt ops) @ map fst (rg_resolved (run_registry opt ops))) = mset [0..<rg_runs (run_registry opt ops)]"
    using reg_okD(2) [OF run_ok [OF assms, of opt]] by (simp add: runs_ok_def open_runs_live)
  from mset_eq_imp_distinct_iff [OF this] mset_eq_setD [OF this] show ?thesis by simp
qed

theorem runs_resolve_exactly_once_witness:
  "distinct (open_runs (run_registry sample_options sample_ops) @ map fst (rg_resolved (run_registry sample_options sample_ops)))"
  using runs_resolve_exactly_once [OF sample_seqs, of sample_options] by simp

section \<open>Evictions and isolation\<close>

text \<open>(C27) Work is never dropped to make room: over any sequence of operations no entry is evicted while its
  verification runs, and an entry evicted by a cap had a conclusive result that was not waiting to be replayed.\<close>

theorem caps_spare_open_work:
  assumes "distinct (reference_seqs ops)"
  shows "list_all (\<lambda>(r, cause). pe_state r \<noteq> Verifying \<and>
      (if cause \<in> {EvSessionCap, EvGlobalCap, EvWeightCap} then pe_state r = Verified \<and> \<not> awaitsReplay r else True))
    (rg_evictions (run_registry opt ops))"
  using reg_okD(10) [OF run_ok [OF assms, of opt]]
  by (simp add: list_all_iff eviction_ok_def cap_cause_def split_def)

theorem caps_spare_open_work_witness:
  "list_all (\<lambda>(r, cause). pe_state r \<noteq> Verifying) (rg_evictions (run_registry sample_options sample_ops))"
  using caps_spare_open_work [OF sample_seqs, of sample_options] by (simp add: list_all_iff split_def)

text \<open>Sessions are isolated: a lookup finds an entry only for the session that registered it, and for
  every other session a live handle answers exactly like one that was never issued.\<close>

theorem foreign_handle_unknown:
  assumes "distinct (reference_seqs ops)" "entry_at (run_registry opt ops) h = Some r"
  shows "lookup_entry sid h (run_registry opt ops) = (if pe_session r = sid then Found r else Unknown)"
proof -
  note ok = run_ok [OF assms(1), of opt]
  have live: "map_get (rg_byHandle (run_registry opt ops)) h = Some r" using assms(2) by (simp add: entry_at_def)
  have "h \<in> set (or_else (map_get (rg_sessions (run_registry opt ops)) sid) []) \<longleftrightarrow> pe_session r = sid"
    using index_okD(4) [OF reg_okD(1) [OF ok], of h sid] live by (simp add: handles_of_def)
  moreover have "map_get (rg_tombstones (run_registry opt ops)) h = None" using reg_okD(4) [OF ok] live by (simp add: fresh_ok_def)
  ultimately show ?thesis using live by (simp add: lookup_entry_def)
qed

theorem foreign_handle_unknown_witness:
  "lookup_entry ''t'' sample_handle (run_registry sample_options sample_ops) = Unknown"
  using foreign_handle_unknown [OF sample_seqs sample_state, of "''t''"]
  by (simp add: sample_entry_def new_record_fields sample_registration_def)

section \<open>The transition table\<close>

lemma steps_transitions: "steps A x y \<Longrightarrow> (\<lambda>u v. \<exists>a\<in>A. transition a u v)\<^sup>*\<^sup>* (map_option pe_state x) (map_option pe_state y)"
  unfolding steps_def
proof (induction rule: rtranclp_induct)
  case (step y z)
  then obtain a where "a \<in> A" "entry_step a y z" by blast
  with entry_step_transition have "\<exists>a\<in>A. transition a (map_option pe_state y) (map_option pe_state z)" by blast
  with step.IH show ?case by (rule rtranclp.rtrancl_into_rtrancl)
qed simp

text \<open>(C24) Every operation respects the state table of an entry: in any reachable registry an operation moves any
  handle's entry only along the transitions allowed to that operation (a claim from unverified to verifying, a
  result or a lapsed run from verifying to unverified or verified, an eviction only of an entry with no run, a
  registration only into an empty slot).\<close>

theorem operations_follow_state_table:
  assumes "distinct (reference_seqs ops)"
  shows "(\<lambda>u v. \<exists>a\<in>allowed op. transition a u v)\<^sup>*\<^sup>* (map_option pe_state (entry_at (run_registry opt ops) h))
    (map_option pe_state (entry_at (registry_step opt op (run_registry opt ops)) h))"
  using step_moves [OF run_ok [OF assms], of op opt] steps_transitions by (simp add: moves_def)

theorem operations_follow_state_table_witness:
  "(\<lambda>u v. \<exists>a\<in>{Finish, Leave}. transition a u v)\<^sup>*\<^sup>* (Some Verifying)
    (map_option pe_state (entry_at (registry_step sample_options (OpSweep 60) (run_registry sample_options sample_ops)) sample_handle))"
  using operations_follow_state_table [OF sample_seqs, where op = "OpSweep 60" and h = sample_handle and opt = sample_options]
  by (simp add: sample_state sample_entry_def)

section \<open>Liveness of upkeep\<close>

definition resolved_runs :: "registry \<Rightarrow> nat set" where
  "resolved_runs st = fst ` set (rg_resolved st)"

lemma resolved_evict: "rg_resolved (evict_entry h c st) = rg_resolved st"
  by (cases "map_get (rg_byHandle st) h") (simp_all add: evict_entry_def addTombstone_def Let_def)

lemma resolved_finish: "resolved_runs (finishRun r s st) = resolved_runs st \<union> (case pe_run r of None \<Rightarrow> {} | Some run \<Rightarrow> {run})"
  by (simp add: resolved_runs_def finishRun_def Let_def put_rec_def split: option.split)

lemma maintain_one_resolved:
  "resolved_runs (snd (maintain_one opt t h (n, st))) =
     resolved_runs st \<union> (case entry_at st h of None \<Rightarrow> {}
       | Some r \<Rightarrow> if overdue opt t r then (case pe_run r of None \<Rightarrow> {} | Some run \<Rightarrow> {run}) else {})"
  by (cases "map_get (rg_byHandle st) h")
    (simp_all add: maintain_one_def entry_at_def Let_def resolved_finish [unfolded resolved_runs_def] resolved_runs_def resolved_evict)

lemma maintain_fold_resolved:
  assumes "reg_ok opt st" "entry_at st h = Some r" "overdue opt t r" "pe_run r = Some run"
  shows "resolved_runs st \<subseteq> resolved_runs (snd (fold (maintain_one opt t) hs (n, st)))"
    "h \<in> set hs \<Longrightarrow> run \<in> resolved_runs (snd (fold (maintain_one opt t) hs (n, st)))"
proof -
  have mono: "resolved_runs st \<subseteq> resolved_runs (snd (fold (maintain_one opt t) hs (n, st)))" for hs n st
  proof (induction hs arbitrary: n st)
    case (Cons j hs)
    obtain m st1 where st1: "maintain_one opt t j (n, st) = (m, st1)" by (metis prod.exhaust)
    then have "resolved_runs st \<subseteq> resolved_runs st1" using maintain_one_resolved [of opt t j n st] by auto
    with Cons.IH [of st1 m] st1 show ?case by auto
  qed simp
  show "resolved_runs st \<subseteq> resolved_runs (snd (fold (maintain_one opt t) hs (n, st)))" by (rule mono)
  show "run \<in> resolved_runs (snd (fold (maintain_one opt t) hs (n, st)))" if "h \<in> set hs"
    using assms(1,2) that
  proof (induction hs arbitrary: n st)
    case (Cons j hs)
    obtain m st1 where st1: "maintain_one opt t j (n, st) = (m, st1)" by (metis prod.exhaust)
    show ?case
    proof (cases "j = h")
      case True
      then have "run \<in> resolved_runs st1" using maintain_one_resolved [of opt t j n st] st1 Cons.prems(2) assms(3,4) by simp
      with mono [of st1 hs m] st1 show ?thesis by auto
    next
      case False
      have "reg_ok opt st1" using maintain_one_ok [OF Cons.prems(1), of t j n] st1 by simp
      moreover have "entry_at st1 h = Some r" using maintain_one_entry [OF Cons.prems(1), of t j n h] st1 Cons.prems(2) False by simp
      ultimately show ?thesis using Cons.IH [of st1 m] Cons.prems(3) False st1 by simp
    qed
  qed simp
qed

text \<open>A waiter is always answered: in any reachable registry, a run that started at least the maximal verifying time
  before a sweep is resolved when that sweep ends, whatever became of its worker.\<close>

theorem sweep_answers_lapsed_runs:
  assumes "distinct (reference_seqs ops)" "entry_at (run_registry opt ops) h = Some r" "pe_run r = Some run"
    "pe_verifyingSince r = Some since" "since + ro_maxVerifyingMs opt \<le> t"
  shows "run \<in> resolved_runs (snd (registry_sweep opt t (run_registry opt ops)))"
proof -
  let ?st = "run_registry opt ops"
  note ok = run_ok [OF assms(1), of opt]
  have live: "map_get (rg_byHandle ?st) h = Some r" using assms(2) by (simp add: entry_at_def)
  have "overdue opt t r" using reg_okD(7) [OF ok live] assms(3-5) by (simp add: overdue_def rec_ok_def)
  moreover have "h \<in> set (map_keys (rg_byHandle ?st))" using live by (simp add: map_keys_mem)
  ultimately have "run \<in> resolved_runs (snd (fold (maintain_one opt t) (map_keys (rg_byHandle ?st)) (0, ?st)))"
    by (intro maintain_fold_resolved(2) [OF ok assms(2) _ assms(3)])
  then show ?thesis by (simp add: registry_sweep_def maintain_def split_def Let_def resolved_runs_def expire_ledger_def)
qed

theorem sweep_answers_lapsed_runs_witness:
  "0 \<in> resolved_runs (snd (registry_sweep sample_options 60 (run_registry sample_options sample_ops)))"
  by (rule sweep_answers_lapsed_runs [OF sample_seqs sample_state, where since = 10])
    (simp_all add: sample_entry_def sample_options_def)

text \<open>No entry outlives its time: after any sweep of a reachable registry every entry left is younger than its time to
  live plus the maximal time of one verification, even one whose run was started in its last moment.\<close>

theorem sweep_bounds_the_life_of_an_entry:
  assumes "distinct (reference_seqs ops)" "0 \<le> ro_maxVerifyingMs opt"
    "entry_at (snd (registry_sweep opt t (run_registry opt ops))) h = Some r"
  shows "t < pe_createdAt r + ro_ttlMs opt + ro_maxVerifyingMs opt"
proof -
  let ?st = "run_registry opt ops"
  note ok = run_ok [OF assms(1), of opt]
  have got: "entry_at (snd (maintain opt t ?st)) h = Some r" using assms(3) by (simp add: registry_sweep_def)
  have tidy: "tidy opt t r" by (rule maintain_tidy [OF ok got])
  have rok: "rec_ok opt r" using reg_okD(7) [OF maintain_ok [OF ok]] got by (simp add: entry_at_def)
  show ?thesis
  proof (cases "pe_state r = Verifying")
    case True
    then obtain since where "pe_verifyingSince r = Some since" "since < pe_createdAt r + ro_ttlMs opt" using rok by (auto simp: rec_ok_def)
    with tidy True show ?thesis by (simp add: tidy_def overdue_def)
  next
    case False
    with tidy assms(2) show ?thesis by (simp add: tidy_def isExpired_def)
  qed
qed

lemma sample_sweep: "entry_at (snd (registry_sweep sample_options 20 (run_registry sample_options sample_ops))) sample_handle = Some sample_entry"
  unfolding sample_run
  by (simp add: registry_sweep_def maintain_def entry_at_def put_rec_def sample_born_def Let_def sample_entry_def new_record_fields
      map_keys_def maintain_one_def overdue_def sample_options_def expire_ledger_def emptyRegistry_def)

theorem sweep_bounds_the_life_of_an_entry_witness: "(20 :: real) < pe_createdAt sample_entry + 100 + 50"
  using sweep_bounds_the_life_of_an_entry [OF sample_seqs _ sample_sweep] by (simp add: sample_options_def)

section \<open>One run at a time\<close>

lemma settle_entry:
  assumes "reg_ok opt st" "entry_at st h = Some r" "pe_run r = Some run"
  shows "entry_at (snd (settle opt h run res t t2 st)) h =
    (if pe_doomed r \<or> isExpired opt r t then None else Some (finished r \<lparr>sv_result = res, sv_handle = h, sv_settledAt = t\<rparr>))"
proof -
  have live: "map_get (rg_byHandle st) h = Some r" using assms(2) by (simp add: entry_at_def)
  note h = reg_okD(8) [OF assms(1) live]
  have "entry_at (landed_rejection r h res t2 (finishRun r s st)) h = Some (finished r s)" for s
    by (simp add: entry_landed entry_finish [OF h])
  then show ?thesis using assms(3) live by (simp add: settle_def Let_def entry_evict)
qed

text \<open>A verification run has one result: once the settlement of a claim has been accepted, any further settlement of the
  same run, by a late or duplicated worker, is refused and changes nothing.\<close>

theorem a_run_settles_once:
  assumes "distinct (reference_seqs ops)" "fst (settle opt h run res t t2 (run_registry opt ops))"
  shows "settle opt h run res' t' t2' (snd (settle opt h run res t t2 (run_registry opt ops))) =
    (False, snd (settle opt h run res t t2 (run_registry opt ops)))"
proof -
  let ?st = "run_registry opt ops" let ?st1 = "snd (settle opt h run res t t2 ?st)"
  obtain r where live: "map_get (rg_byHandle ?st) h = Some r" and run: "pe_run r = Some run"
    using assms(2) by (auto simp: settle_def split: option.splits if_splits)
  have "map_get (rg_byHandle ?st1) h = None \<or> (\<exists>q. map_get (rg_byHandle ?st1) h = Some q \<and> pe_run q = None)"
    using settle_entry [OF run_ok [OF assms(1), of opt] _ run, where h = h and res = res and t = t and ?t2.0 = t2] live
    by (simp add: entry_at_def finished_fields split: if_splits)
  then show ?thesis by (auto simp: settle_def)
qed

definition sample_result :: verification_result where
  "sample_result = \<lparr>vr_verdict = plain_verdict True MethodChecker [], vr_retryable = False, vr_introduced = None, vr_driftedPaths = None,
     vr_nextTier = None, vr_background = False\<rparr>"

lemma sample_settles: "fst (settle sample_options sample_handle 0 sample_result 20 20 (run_registry sample_options sample_ops))"
proof -
  have "map_get (rg_byHandle (run_registry sample_options sample_ops)) sample_handle = Some sample_entry" using sample_state by (simp add: entry_at_def)
  then show ?thesis by (simp add: settle_def sample_entry_def Let_def)
qed

theorem a_run_settles_once_witness:
  "\<not> fst (settle sample_options sample_handle 0 sample_result 30 30
      (snd (settle sample_options sample_handle 0 sample_result 20 20 (run_registry sample_options sample_ops))))"
  using a_run_settles_once [OF sample_seqs sample_settles, of sample_result 30 30] by simp

lemma maintain_keeps_running:
  assumes "reg_ok opt st" "entry_at st h = Some r" "pe_state r = Verifying" "\<not> overdue opt t r"
  shows "entry_at (snd (maintain opt t st)) h = Some r"
proof -
  have "entry_at (snd (fold (maintain_one opt t) hs (n, st))) h = Some r" for hs n
    using assms(1,2)
  proof (induction hs arbitrary: n st)
    case (Cons j hs)
    obtain m st1 where st1: "maintain_one opt t j (n, st) = (m, st1)" by (metis prod.exhaust)
    have "reg_ok opt st1" using maintain_one_ok [OF Cons.prems(1), of t j n] st1 by simp
    moreover have "entry_at st1 h = Some r"
      using maintain_one_entry [OF Cons.prems(1), of t j n h] st1 Cons.prems(2) assms(3,4) by (cases "j = h") (simp_all add: Let_def)
    ultimately show ?case using Cons.IH [of st1 m] st1 by simp
  qed simp
  then show ?thesis by (simp add: maintain_def split_def Let_def expire_ledger_def entry_at_def)
qed

text \<open>Verification is single flight: while an entry's run is within its time, a further claim by its session joins that
  run instead of starting another.\<close>

theorem claim_joins_the_running_verification:
  assumes "distinct (reference_seqs ops)" "entry_at (run_registry opt ops) h = Some r" "pe_run r = Some run" "\<not> overdue opt t r"
  shows "fst (markVerifying opt (pe_session r) h t (run_registry opt ops)) = Joined r run \<and>
    rg_runs (snd (markVerifying opt (pe_session r) h t (run_registry opt ops))) = rg_runs (snd (maintain opt t (run_registry opt ops)))"
proof -
  let ?st = "run_registry opt ops"
  note ok = run_ok [OF assms(1), of opt]
  have live: "map_get (rg_byHandle ?st) h = Some r" using assms(2) by (simp add: entry_at_def)
  have v: "pe_state r = Verifying" using reg_okD(7) [OF ok live] assms(3) by (simp add: rec_ok_def)
  have "entry_at (snd (maintain opt t ?st)) h = Some r" by (rule maintain_keeps_running [OF ok assms(2) v assms(4)])
  then have "lookup_entry (pe_session r) h (snd (maintain opt t ?st)) = Found r"
    using get_found [OF maintain_ok [OF ok, of t], of "pe_session r" h r] by (simp add: entry_at_def)
  with v assms(3) show ?thesis by (simp add: markVerifying_def Let_def split: option.split)
qed

theorem claim_joins_the_running_verification_witness:
  "fst (markVerifying sample_options ''s'' sample_handle 30 (run_registry sample_options sample_ops)) = Joined sample_entry 0"
  using claim_joins_the_running_verification [OF sample_seqs sample_state, of 0 30]
  by (simp add: sample_entry_def overdue_def sample_options_def new_record_fields sample_registration_def)

section \<open>A deleted session\<close>

text \<open>A doomed entry that settles conclusively after its session was forgotten writes a rejection record and a
  tombstone for that session again; both then age out like any other.\<close>

lemma settle_after_forget_leaves_a_record:
  assumes "reg_ok opt st" "map_get (rg_byHandle st) h = Some r" "pe_run r = Some run" "pe_root r = Some tree" "tree \<noteq> []"
    "pe_session r \<noteq> []" "\<not> vr_retryable res" "vr_introduced res = Some ids" "ids \<noteq> []" "pe_doomed r"
  shows "map_get (rg_ledger (snd (settle opt h run res t t2 st))) (pe_session r) \<noteq> None"
proof -
  have ev: "rg_ledger (evict_entry h c q) = rg_ledger q" for c q
    by (cases "map_get (rg_byHandle q) h") (simp_all add: evict_entry_def addTombstone_def Let_def)
  show ?thesis
    using assms(2-10) by (simp add: settle_def Let_def ev landed_rejection_def recordRejection_def map_get_set)
qed

end
