(* ===== verification/Background.thy ===== *)
theory Background
  imports Pending Js_Text
begin

text \<open>
  Background verification, \<^verbatim>\<open>createBackgroundQueue\<close> of \<^verbatim>\<open>src/verify/pending.ts\<close> (R14): queued requests, the one run in
  flight, its retries, and the late notices. A run's \<open>verify\<close> call, the timer and the clock are outside: the timer is
  the time it was armed for, a run ends by the event \<open>bg_finish\<close> with the outcomes its promise delivered
  (the empty list when it was rejected), and each event takes the clock reading of its synchronous code. The
  insertion-ordered maps and sets are association lists, a set of paths is the list of its elements.
\<close>

section \<open>Constants and data\<close>

definition MAX_HANDLES_PER_CALL :: nat where "MAX_HANDLES_PER_CALL = MAX_ENTRIES_PER_SESSION"
definition BACKGROUND_SETTLE_MS :: real where "BACKGROUND_SETTLE_MS = 1000"
definition BACKGROUND_RETRY_BASE_MS :: real where "BACKGROUND_RETRY_BASE_MS = 30000"
definition BACKGROUND_MAX_ATTEMPTS :: real where "BACKGROUND_MAX_ATTEMPTS = 3"
definition BACKGROUND_QUEUE_MAX :: nat where "BACKGROUND_QUEUE_MAX = MAX_ENTRIES_GLOBAL"
definition LATE_NOTICES_PER_SESSION :: nat where "LATE_NOTICES_PER_SESSION = MAX_ENTRIES_PER_SESSION"
definition LATE_NOTICES_MAX :: nat where "LATE_NOTICES_MAX = MAX_ENTRIES_GLOBAL"
definition REPORTED_MEMO_MAX :: nat where "REPORTED_MEMO_MAX = TOMBSTONE_MAX"
definition BACKGROUND_MAX_BACKOFF_STEPS :: nat where "BACKGROUND_MAX_BACKOFF_STEPS = 5"

record background_request =
  bq_session :: string
  bq_handle :: string
  bq_files :: "string list"

datatype background_outcome =
    Judged string string settled_verification
  | Reported string
  | Gone string

fun outcome_handle :: "background_outcome \<Rightarrow> string" where
  "outcome_handle (Judged h d s) = h" | "outcome_handle (Reported h) = h" | "outcome_handle (Gone h) = h"

text \<open>The options after their defaults and bounds.\<close>

record background_options =
  bo_ttlMs :: real
  bo_settleMs :: real
  bo_retryBaseMs :: real
  bo_maxAttempts :: nat
  bo_foldCase :: bool

definition background_options_of :: "real \<Rightarrow> real option \<Rightarrow> real option \<Rightarrow> real option \<Rightarrow> bool \<Rightarrow> background_options" where
  "background_options_of ttl quiet base attempts win32 =
     \<lparr>bo_ttlMs = ttl, bo_settleMs = max 0 (or_else quiet BACKGROUND_SETTLE_MS),
      bo_retryBaseMs = max 0 (or_else base BACKGROUND_RETRY_BASE_MS),
      bo_maxAttempts = nat (max 1 \<lfloor>or_else attempts BACKGROUND_MAX_ATTEMPTS\<rfloor>), bo_foldCase = win32\<rparr>"

record queued_item =
  qi_session :: string
  qi_handle :: string
  qi_files :: "string list"
  qi_attempts :: nat
  qi_deferrals :: nat
  qi_notBefore :: real

record background_run =
  rn_session :: string
  rn_items :: "queued_item list"
  rn_cancelled :: bool
  rn_preempted :: bool

record late_notice =
  ln_handle :: string
  ln_description :: string
  ln_introduced :: "string list"
  ln_outcome :: gate_outcome
  ln_reason :: "string option"

type_synonym stored_notices = "(string, late_notice \<times> real) jsmap"

record background =
  bg_queue :: "(string, queued_item) jsmap"
  bg_notices :: "(string, stored_notices) jsmap"
  bg_reported :: "(string, unit) jsmap"
  bg_superseded :: nat
  bg_runs :: nat
  bg_count :: nat
  bg_running :: "background_run option"
  bg_timer :: "real option"
  bg_disposed :: bool
  bg_waiters :: nat

definition emptyBackground :: background where
  "emptyBackground = \<lparr>bg_queue = [], bg_notices = [], bg_reported = [], bg_superseded = 0, bg_runs = 0, bg_count = 0,
     bg_running = None, bg_timer = None, bg_disposed = False, bg_waiters = 0\<rparr>"

definition pathKey :: "background_options \<Rightarrow> string \<Rightarrow> string" where
  "pathKey opt p = (if bo_foldCase opt then to_lower (map (\<lambda>c. if c = CHR 0x5C then CHR ''/'' else c) p) else p)"

definition overlaps :: "string list \<Rightarrow> string list \<Rightarrow> bool" where
  "overlaps a b = list_ex (\<lambda>f. f \<in> set b) a"

section \<open>The late notice of a verdict\<close>

definition not_blank :: "string \<Rightarrow> bool" where
  "not_blank s = (trim s \<noteq> [])"

definition lateNoticeFor :: "string \<Rightarrow> string \<Rightarrow> verification_result \<Rightarrow> late_notice option" where
  "lateNoticeFor h description res =
     (if vr_retryable res then None
      else
        (let verdict = vr_verdict res; out = outcome_of verdict in
         if out = OutPass then None
         else
           (let reason = first_some (find not_blank (gv_reasons verdict)) (find not_blank (rev (or_else (gv_caveats verdict) [])))
            in Some \<lparr>ln_handle = h, ln_description = description,
                 ln_introduced = (if out = OutFail then or_else (vr_introduced res) [] else []), ln_outcome = out, ln_reason = reason\<rparr>)))"

section \<open>Notices\<close>

definition remember_reported :: "string \<Rightarrow> background \<Rightarrow> background" where
  "remember_reported h st = st\<lparr>bg_reported := remember h () REPORTED_MEMO_MAX (bg_reported st)\<rparr>"

definition removeNotice :: "string \<Rightarrow> string \<Rightarrow> background \<Rightarrow> background" where
  "removeNotice sid h st =
     (case map_get (bg_notices st) sid of None \<Rightarrow> st
      | Some l \<Rightarrow>
          if map_get l h = None then st
          else (let l' = map_delete h l in
                st\<lparr>bg_count := bg_count st - 1,
                   bg_notices := (if l' = [] then map_delete sid (bg_notices st) else map_set sid l' (bg_notices st))\<rparr>))"

text \<open>The session and handle of the oldest notice, over the first notice of every session.\<close>

fun oldest_notice :: "(string, stored_notices) jsmap \<Rightarrow> (string \<times> string \<times> real) option \<Rightarrow> (string \<times> string \<times> real) option" where
  "oldest_notice [] victim = victim"
| "oldest_notice ((sid, l) # rest) victim =
     oldest_notice rest
       (case l of [] \<Rightarrow> victim
        | (h, _, at') # _ \<Rightarrow> (case victim of None \<Rightarrow> Some (sid, h, at')
                              | Some (s, j, best) \<Rightarrow> if at' < best then Some (sid, h, at') else victim))"

text \<open>Each pass of the loop removes one notice, so the count is enough fuel.\<close>

fun trim_notices :: "nat \<Rightarrow> background \<Rightarrow> background" where
  "trim_notices 0 st = st"
| "trim_notices (Suc n) st =
     (if bg_count st \<le> LATE_NOTICES_MAX then st
      else (case oldest_notice (bg_notices st) None of None \<Rightarrow> st
            | Some (sid, h, _) \<Rightarrow> trim_notices n (removeNotice sid h st)))"

definition addNotice :: "string \<Rightarrow> late_notice \<Rightarrow> real \<Rightarrow> background \<Rightarrow> background" where
  "addNotice sid n t st =
     (if map_get (bg_reported st) (ln_handle n) \<noteq> None then st
      else
        (let l = or_else (map_get (bg_notices st) sid) [] in
         if map_get l (ln_handle n) \<noteq> None then st
         else
           (let l' = map_set (ln_handle n) (n, t) l;
                st1 = st\<lparr>bg_notices := map_set sid l' (bg_notices st), bg_count := bg_count st + 1\<rparr>;
                st2 = (if LATE_NOTICES_PER_SESSION < length l' then removeNotice sid (fst (hd l')) st1 else st1)
            in trim_notices (bg_count st2) st2)))"

section \<open>Scheduling\<close>

definition isFresh :: "queued_item \<Rightarrow> bool" where
  "isFresh item \<longleftrightarrow> qi_attempts item = 0 \<and> qi_deferrals item = 0"

definition backoffFrom :: "background_options \<Rightarrow> real \<Rightarrow> nat \<Rightarrow> nat \<Rightarrow> real" where
  "backoffFrom opt t attempts deferrals =
     (let steps = min (max (attempts + deferrals) 1 - 1) BACKGROUND_MAX_BACKOFF_STEPS in t + bo_retryBaseMs opt * 2 ^ steps)"

definition queue_items :: "background \<Rightarrow> queued_item list" where
  "queue_items st = map snd (bg_queue st)"

definition isQuiet :: "real \<Rightarrow> background \<Rightarrow> bool" where
  "isQuiet t st \<longleftrightarrow> bg_running st = None \<and> list_all (\<lambda>i. \<not> (isFresh i \<or> qi_notBefore i \<le> t)) (queue_items st)"

definition wakeIdle :: "background \<Rightarrow> background" where
  "wakeIdle st = st\<lparr>bg_waiters := 0\<rparr>"

definition arm :: "real \<Rightarrow> background \<Rightarrow> background" where
  "arm due st =
     (if bg_disposed st then st
      else (case bg_timer st of
              Some t' \<Rightarrow> if t' \<le> due then st else st\<lparr>bg_timer := Some due\<rparr>
            | None \<Rightarrow> st\<lparr>bg_timer := Some due\<rparr>))"

fun earliest :: "queued_item list \<Rightarrow> real option" where
  "earliest [] = None"
| "earliest (i # is') = (case earliest is' of None \<Rightarrow> Some (qi_notBefore i) | Some t \<Rightarrow> Some (min (qi_notBefore i) t))"

definition reschedule :: "real \<Rightarrow> background \<Rightarrow> background" where
  "reschedule t st =
     (if bg_disposed st \<or> bg_running st \<noteq> None then st
      else
        (let st1 = (case earliest (queue_items st) of Some due \<Rightarrow> arm due st | None \<Rightarrow> st\<lparr>bg_timer := None\<rparr>)
         in if isQuiet t st1 then wakeIdle st1 else st1))"

definition put_item :: "queued_item \<Rightarrow> background \<Rightarrow> background" where
  "put_item i st = st\<lparr>bg_queue := map_set (qi_handle i) i (bg_queue st)\<rparr>"

definition enforceCap :: "background \<Rightarrow> background" where
  "enforceCap st = st\<lparr>bg_queue := evict_oldest BACKGROUND_QUEUE_MAX (bg_queue st)\<rparr>"

section \<open>Ending a run\<close>

definition conflicts :: "string \<Rightarrow> string list \<Rightarrow> queued_item \<Rightarrow> bool" where
  "conflicts sid files other \<longleftrightarrow> qi_session other = sid \<and> overlaps (qi_files other) files"

definition retry :: "background_options \<Rightarrow> queued_item \<Rightarrow> bool \<Rightarrow> real \<Rightarrow> background \<Rightarrow> background" where
  "retry opt item counted t st =
     (let attempts = (if counted then qi_attempts item + 1 else qi_attempts item) in
      if counted \<and> bo_maxAttempts opt \<le> attempts then st
      else
        (let deferrals = (if counted then qi_deferrals item else qi_deferrals item + 1) in
         if list_ex (conflicts (qi_session item) (qi_files item)) (queue_items st) then st\<lparr>bg_superseded := bg_superseded st + 1\<rparr>
         else enforceCap (put_item (item\<lparr>qi_attempts := attempts, qi_deferrals := deferrals,
                            qi_notBefore := backoffFrom opt t attempts deferrals\<rparr>) st)))"

text \<open>Of two outcomes for one handle the later counts.\<close>

definition outcome_for :: "background_outcome list \<Rightarrow> string \<Rightarrow> background_outcome option" where
  "outcome_for outcomes h = find (\<lambda>o'. outcome_handle o' = h) (rev outcomes)"

definition apply_one :: "background_options \<Rightarrow> background_run \<Rightarrow> background_outcome list \<Rightarrow> real \<Rightarrow> queued_item \<Rightarrow> background \<Rightarrow> background" where
  "apply_one opt run outcomes t item st =
     (let counted = (\<not> rn_preempted run) in
      case outcome_for outcomes (qi_handle item) of
        None \<Rightarrow> retry opt item counted t st
      | Some (Judged h description s) \<Rightarrow>
          if vr_retryable (sv_result s) then retry opt item counted t st
          else (case lateNoticeFor (qi_handle item) description (sv_result s) of
                  None \<Rightarrow> st | Some n \<Rightarrow> addNotice (rn_session run) n t st)
      | Some _ \<Rightarrow> st)"

definition apply_run :: "background_options \<Rightarrow> background_run \<Rightarrow> background_outcome list \<Rightarrow> real \<Rightarrow> background \<Rightarrow> background" where
  "apply_run opt run outcomes t st = fold (apply_one opt run outcomes t) (rn_items run) st"

definition bg_finish :: "background_options \<Rightarrow> background_outcome list \<Rightarrow> real \<Rightarrow> background \<Rightarrow> background" where
  "bg_finish opt outcomes t st =
     (case bg_running st of None \<Rightarrow> st
      | Some run \<Rightarrow>
          (let st1 = (if \<not> bg_disposed st \<and> \<not> rn_cancelled run then apply_run opt run outcomes t st else st)
           in reschedule t (st1\<lparr>bg_running := None\<rparr>)))"

section \<open>Starting a run\<close>

definition postponeDue :: "background_options \<Rightarrow> real \<Rightarrow> background \<Rightarrow> background" where
  "postponeDue opt t st =
     reschedule t
       (fold (\<lambda>item s. if t < qi_notBefore item then s
                       else (let deferrals = qi_deferrals item + 1 in
                             put_item (item\<lparr>qi_deferrals := deferrals,
                               qi_notBefore := backoffFrom opt t (qi_attempts item) deferrals\<rparr>) s)) (queue_items st) st)"

text \<open>The due request with the least \<open>notBefore\<close>, the oldest of equals.\<close>

fun first_due :: "real \<Rightarrow> queued_item list \<Rightarrow> queued_item option \<Rightarrow> queued_item option" where
  "first_due t [] best = best"
| "first_due t (i # is') best =
     first_due t is'
       (if qi_notBefore i \<le> t \<and> (case best of None \<Rightarrow> True | Some b \<Rightarrow> qi_notBefore i < qi_notBefore b) then Some i else best)"

definition run_batch :: "real \<Rightarrow> queued_item \<Rightarrow> background \<Rightarrow> queued_item list" where
  "run_batch t lead st =
     take MAX_HANDLES_PER_CALL
       (lead # filter (\<lambda>i. qi_handle i \<noteq> qi_handle lead \<and> qi_session i = qi_session lead \<and> (isFresh i \<or> qi_notBefore i \<le> t)) (queue_items st))"

definition runNext :: "background_options \<Rightarrow> bool \<Rightarrow> real \<Rightarrow> background \<Rightarrow> background" where
  "runNext opt busy t st =
     (if bg_disposed st \<or> bg_running st \<noteq> None then st
      else (case first_due t (queue_items st) None of
              None \<Rightarrow> reschedule t st
            | Some lead \<Rightarrow>
                if busy then postponeDue opt t st
                else (let batch = run_batch t lead st in
                      st\<lparr>bg_queue := fold (\<lambda>i. map_delete (qi_handle i)) batch (bg_queue st),
                         bg_running := Some \<lparr>rn_session = qi_session lead, rn_items = batch, rn_cancelled = False, rn_preempted = False\<rparr>,
                         bg_runs := bg_runs st + 1\<rparr>)))"

text \<open>The timer's callback.\<close>

definition timer_fires :: "background_options \<Rightarrow> bool \<Rightarrow> real \<Rightarrow> background \<Rightarrow> background" where
  "timer_fires opt busy t st = (if bg_timer st = None then st else runNext opt busy t (st\<lparr>bg_timer := None\<rparr>))"

section \<open>The operations\<close>

definition in_flight :: "string \<Rightarrow> background \<Rightarrow> bool" where
  "in_flight h st \<longleftrightarrow> (case bg_running st of None \<Rightarrow> False | Some run \<Rightarrow> list_ex (\<lambda>i. qi_handle i = h) (rn_items run))"

definition enqueue :: "background_options \<Rightarrow> background_request \<Rightarrow> real \<Rightarrow> background \<Rightarrow> background" where
  "enqueue opt req t st =
     (if bg_disposed st \<or> bq_session req = [] \<or> bq_handle req = [] then st
      else if map_get (bg_queue st) (bq_handle req) \<noteq> None \<or> in_flight (bq_handle req) st then st
      else
        (let files = uniq (map (pathKey opt) (bq_files req));
             older = filter (conflicts (bq_session req) files) (queue_items st);
             st1 = st\<lparr>bg_queue := fold (\<lambda>i. map_delete (qi_handle i)) older (bg_queue st), bg_superseded := bg_superseded st + length older\<rparr>;
             item = \<lparr>qi_session = bq_session req, qi_handle = bq_handle req, qi_files = files, qi_attempts = 0, qi_deferrals = 0,
                     qi_notBefore = t + bo_settleMs opt\<rparr>;
             st2 = enforceCap (put_item item st1)
         in if bg_running st2 = None then arm (t + bo_settleMs opt) st2 else st2))"

definition takeNotices :: "string \<Rightarrow> background \<Rightarrow> late_notice list \<times> background" where
  "takeNotices sid st =
     (case map_get (bg_notices st) sid of None \<Rightarrow> ([], st)
      | Some l \<Rightarrow>
          (let out = map (fst \<circ> snd) l;
               st1 = st\<lparr>bg_notices := map_delete sid (bg_notices st), bg_count := bg_count st - length l\<rparr>
           in (out, fold (\<lambda>n. remember_reported (ln_handle n)) out st1)))"

definition markReported :: "string list \<Rightarrow> background \<Rightarrow> background" where
  "markReported handles st =
     fold (\<lambda>h s. let s1 = remember_reported h s in fold (\<lambda>sid. removeNotice sid h) (map_keys (bg_notices s1)) s1) handles st"

definition bg_forgetSession :: "string \<Rightarrow> real \<Rightarrow> background \<Rightarrow> background" where
  "bg_forgetSession sid t st =
     (let st1 = st\<lparr>bg_queue := filter (\<lambda>(_, i). qi_session i \<noteq> sid) (bg_queue st)\<rparr>;
          st2 = (case map_get (bg_notices st1) sid of None \<Rightarrow> st1
                 | Some l \<Rightarrow> st1\<lparr>bg_count := bg_count st1 - length l, bg_notices := map_delete sid (bg_notices st1)\<rparr>);
          st3 = (case bg_running st2 of
                   Some run \<Rightarrow> if rn_session run = sid then st2\<lparr>bg_running := Some (run\<lparr>rn_cancelled := True\<rparr>)\<rparr> else st2
                 | None \<Rightarrow> st2)
      in reschedule t st3)"

definition sweep_session :: "background_options \<Rightarrow> real \<Rightarrow> string \<times> stored_notices \<Rightarrow> nat \<times> background \<Rightarrow> nat \<times> background" where
  "sweep_session opt t p acc =
     fold (\<lambda>(h, _, at') (n, s). if t - at' < bo_ttlMs opt then (n, s) else (n + 1, removeNotice (fst p) h s)) (snd p) acc"

definition bg_sweep :: "background_options \<Rightarrow> real \<Rightarrow> background \<Rightarrow> nat \<times> background" where
  "bg_sweep opt t st =
     (let (n, st1) = fold (sweep_session opt t) (bg_notices st) (0, st) in (n, reschedule t st1))"

definition whenIdle :: "real \<Rightarrow> background \<Rightarrow> bool \<times> background" where
  "whenIdle t st = (if bg_disposed st \<or> isQuiet t st then (True, st) else (False, st\<lparr>bg_waiters := bg_waiters st + 1\<rparr>))"

definition preempt :: "background \<Rightarrow> background" where
  "preempt st =
     (case bg_running st of None \<Rightarrow> st
      | Some run \<Rightarrow> if \<not> rn_cancelled run \<and> \<not> rn_preempted run then st\<lparr>bg_running := Some (run\<lparr>rn_preempted := True\<rparr>)\<rparr> else st)"

definition bg_dispose :: "background \<Rightarrow> background" where
  "bg_dispose st =
     (if bg_disposed st then st
      else wakeIdle (st\<lparr>bg_disposed := True, bg_timer := None,
             bg_running := map_option (\<lambda>run. run\<lparr>rn_cancelled := True\<rparr>) (bg_running st), bg_queue := [], bg_notices := [], bg_count := 0\<rparr>))"

end
