(* ===== verification/Background_Inv.thy ===== *)
theory Background_Inv
  imports Background
begin

text \<open>
  The invariant of the background queue: the queue and the notices are well formed and bounded, queued requests of
  a session touch disjoint files, a run's requests are not queued as well, and while no run is in flight the
  timer is armed no later than the first due request.
\<close>

section \<open>Notices\<close>

definition total :: "(string, stored_notices) jsmap \<Rightarrow> nat" where
  "total m = sum_list (map (length \<circ> snd) m)"

lemma total_Cons: "total ((k, l) # m) = length l + total m"
  by (simp add: total_def)

lemma total_delete: "wf_map m \<Longrightarrow> map_get m k = Some l \<Longrightarrow> total m = length l + total (map_delete k m)"
proof (induction m)
  case (Cons p m)
  show ?case
  proof (cases "fst p = k")
    case True
    then have "map_delete k (p # m) = m" using map_delete_hd [OF Cons.prems(1)] by simp
    with True Cons.prems(2) show ?thesis by (cases p) (simp add: total_Cons)
  next
    case False
    with Cons show ?thesis by (cases p) (simp add: total_Cons map_delete_def wf_map_def)
  qed
qed simp

lemma total_replace: "map_get m k = Some l \<Longrightarrow> total (map_set k l' m) + length l = total m + length l'"
  by (induction k l' m rule: map_set.induct) (auto simp: total_def split: if_splits)

lemma total_new: "map_get m k = None \<Longrightarrow> total (map_set k l' m) = total m + length l'"
  by (simp add: map_set_fresh total_def)

definition list_fine :: "stored_notices \<Rightarrow> bool" where
  "list_fine l \<longleftrightarrow> wf_map l \<and> l \<noteq> [] \<and> (\<forall>h n t. (h, n, t) \<in> set l \<longrightarrow> ln_handle n = h)"

definition notices_fine :: "(string \<Rightarrow> nat) \<Rightarrow> background \<Rightarrow> bool" where
  "notices_fine b st \<longleftrightarrow> wf_map (bg_notices st) \<and>
     (\<forall>sid l. map_get (bg_notices st) sid = Some l \<longrightarrow> list_fine l \<and> length l \<le> b sid) \<and> bg_count st = total (bg_notices st)"

lemma notices_fineD:
  assumes "notices_fine b st"
  shows "wf_map (bg_notices st)" "map_get (bg_notices st) sid = Some l \<Longrightarrow> list_fine l" "map_get (bg_notices st) sid = Some l \<Longrightarrow> length l \<le> b sid"
    "bg_count st = total (bg_notices st)"
  using assms unfolding notices_fine_def by blast+

lemma list_fine_delete: "list_fine l \<Longrightarrow> map_delete h l \<noteq> [] \<Longrightarrow> list_fine (map_delete h l)"
  using set_map_delete [of h l] by (auto simp: list_fine_def jm.wf_del)

lemma removeNotice_fine:
  assumes fine: "notices_fine b st" and l: "map_get (bg_notices st) sid = Some l" and h: "map_get l h \<noteq> None"
  shows "notices_fine (b(sid := length l - 1)) (removeNotice sid h st)" "bg_count st = Suc (bg_count (removeNotice sid h st))"
proof -
  let ?l = "map_delete h l" and ?st = "removeNotice sid h st"
  note d = notices_fineD [OF fine]
  have len: "length l = Suc (length ?l)" using d(2) [OF l] h by (intro length_delete) (simp_all add: list_fine_def)
  have n: "bg_notices ?st = (if ?l = [] then map_delete sid (bg_notices st) else map_set sid ?l (bg_notices st))"
    and c: "bg_count ?st = bg_count st - 1"
  proof -
    have "?st = st\<lparr>bg_count := bg_count st - 1,
        bg_notices := (if ?l = [] then map_delete sid (bg_notices st) else map_set sid ?l (bg_notices st))\<rparr>"
      using h by (simp only: removeNotice_def l option.simps if_False Let_def)
    then show "bg_notices ?st = (if ?l = [] then map_delete sid (bg_notices st) else map_set sid ?l (bg_notices st))"
      "bg_count ?st = bg_count st - 1" by simp_all
  qed
  have tot: "total (bg_notices st) = Suc (total (bg_notices ?st))"
  proof (cases "?l = []")
    case True
    with total_delete [OF d(1) l] len show ?thesis by (simp add: n)
  next
    case False
    with total_replace [OF l, of ?l] len show ?thesis by (simp add: n)
  qed
  show "bg_count st = Suc (bg_count ?st)" using tot d(4) by (simp add: c)
  have "wf_map (bg_notices ?st)" using d(1) by (simp add: n jm.wf_del jm.wf_put)
  moreover have "list_fine l' \<and> length l' \<le> (b(sid := length l - 1)) s" if "map_get (bg_notices ?st) s = Some l'" for s l'
  proof (cases "s = sid")
    case True
    with that have "l' = ?l" "?l \<noteq> []" by (auto simp: n map_get_delete map_get_set split: if_splits)
    with True len list_fine_delete [OF d(2) [OF l]] show ?thesis by simp
  next
    case False
    with that have "map_get (bg_notices st) s = Some l'" by (auto simp: n map_get_delete map_get_set split: if_splits)
    with d(2,3) False show ?thesis by simp
  qed
  moreover have "bg_count ?st = total (bg_notices ?st)" using tot d(4) by (simp add: c)
  ultimately show "notices_fine (b(sid := length l - 1)) ?st" by (simp add: notices_fine_def)
qed

lemma notices_fine_mono: "notices_fine b st \<Longrightarrow> (\<And>s. b s \<le> b' s) \<Longrightarrow> notices_fine b' st"
  unfolding notices_fine_def using le_trans by blast

lemma removeNotice_fine2:
  assumes "notices_fine b st"
  shows "notices_fine b (removeNotice sid h st)" "bg_count (removeNotice sid h st) \<le> bg_count st"
proof -
  have "notices_fine b (removeNotice sid h st) \<and> bg_count (removeNotice sid h st) \<le> bg_count st"
  proof (cases "\<exists>l. map_get (bg_notices st) sid = Some l \<and> map_get l h \<noteq> None")
    case True
    then obtain l where l: "map_get (bg_notices st) sid = Some l" "map_get l h \<noteq> None" by blast
    note r = removeNotice_fine [OF assms l]
    have "(b(sid := length l - 1)) s \<le> b s" for s using notices_fineD(3) [OF assms l(1)] by auto
    with notices_fine_mono [OF r(1)] r(2) show ?thesis by simp
  next
    case False
    then have "removeNotice sid h st = st" by (auto simp: removeNotice_def split: option.splits)
    with assms show ?thesis by simp
  qed
  then show "notices_fine b (removeNotice sid h st)" "bg_count (removeNotice sid h st) \<le> bg_count st" by blast+
qed

lemma oldest_notice_mem:
  "oldest_notice m v = Some (s, h, a) \<Longrightarrow> v = Some (s, h, a) \<or> (\<exists>n rest. (s, (h, n, a) # rest) \<in> set m)"
proof (induction m v rule: oldest_notice.induct)
  case (2 sid l rest victim)
  then show ?case
  proof (cases l)
    case (Cons p q)
    then obtain j n t where l: "l = (j, n, t) # q" by (cases p) auto
    define v' where "v' = (case victim of None \<Rightarrow> Some (sid, j, t) | Some (s, k, best) \<Rightarrow> if t < best then Some (sid, j, t) else victim)"
    have v': "v' = victim \<or> v' = Some (sid, j, t)" by (auto simp: v'_def split: option.split)
    have "oldest_notice rest v' = Some (s, h, a)" using 2(2) by (simp add: l v'_def)
    then have "v' = Some (s, h, a) \<or> (\<exists>n q. (s, (h, n, a) # q) \<in> set rest)" using 2(1) by (simp add: l v'_def)
    with v' show ?thesis by (auto simp: l)
  qed auto
qed simp

lemma oldest_notice_some: "v \<noteq> None \<or> (\<exists>s l. (s, l) \<in> set m \<and> l \<noteq> []) \<Longrightarrow> oldest_notice m v \<noteq> None"
  by (induction m v rule: oldest_notice.induct) (fastforce split: option.splits list.splits)+

lemma trim_fine:
  "notices_fine b st \<Longrightarrow> bg_count st \<le> LATE_NOTICES_MAX + n \<Longrightarrow>
    notices_fine b (trim_notices n st) \<and> bg_count (trim_notices n st) \<le> LATE_NOTICES_MAX"
proof (induction n arbitrary: st)
  case (Suc n)
  show ?case
  proof (cases "bg_count st \<le> LATE_NOTICES_MAX")
    case False
    note d = notices_fineD [OF Suc.prems(1)]
    have "\<exists>s l. (s, l) \<in> set (bg_notices st) \<and> l \<noteq> []"
    proof (cases "bg_notices st")
      case Nil
      with False d(4) show ?thesis by (simp add: total_def)
    next
      case (Cons p m)
      obtain s l where p: "p = (s, l)" by (cases p)
      have "list_fine l" by (rule d(2) [of s]) (simp add: Cons p)
      then show ?thesis by (intro exI [of _ s] exI [of _ l]) (simp add: Cons p list_fine_def)
    qed
    then obtain s h a where o: "oldest_notice (bg_notices st) None = Some (s, h, a)" using oldest_notice_some [of None] by fastforce
    with oldest_notice_mem [OF o] d(1) obtain l where l: "map_get (bg_notices st) s = Some l" "map_get l h \<noteq> None"
      by (fastforce simp: wf_map_def)
    note r = removeNotice_fine [OF Suc.prems(1) l]
    have "bg_count (removeNotice s h st) \<le> LATE_NOTICES_MAX + n" using r(2) Suc.prems(2) by simp
    from Suc.IH [OF removeNotice_fine2(1) [OF Suc.prems(1)] this] False o show ?thesis by simp
  qed (use Suc in simp)
qed simp

definition notices_ok :: "background \<Rightarrow> bool" where
  "notices_ok st \<longleftrightarrow> notices_fine (\<lambda>_. LATE_NOTICES_PER_SESSION) st \<and> bg_count st \<le> LATE_NOTICES_MAX"

lemma removeNotice_ok: "notices_ok st \<Longrightarrow> notices_ok (removeNotice sid h st)"
  using removeNotice_fine2 [of _ st sid h] le_trans by (fastforce simp: notices_ok_def)

lemma caps_positive: "0 < LATE_NOTICES_PER_SESSION" "0 < LATE_NOTICES_MAX" "0 < BACKGROUND_QUEUE_MAX" "0 < MAX_HANDLES_PER_CALL"
  by (simp_all add: LATE_NOTICES_PER_SESSION_def LATE_NOTICES_MAX_def MAX_ENTRIES_PER_SESSION_def MAX_ENTRIES_GLOBAL_def
      BACKGROUND_QUEUE_MAX_def MAX_HANDLES_PER_CALL_def)

lemma addNotice_ok:
  assumes ok: "notices_ok st"
  shows "notices_ok (addNotice sid n t st)"
proof (cases "map_get (bg_reported st) (ln_handle n) \<noteq> None \<or> map_get (or_else (map_get (bg_notices st) sid) []) (ln_handle n) \<noteq> None")
  case True
  with ok show ?thesis by (auto simp: addNotice_def Let_def)
next
  case False
  define l where "l = or_else (map_get (bg_notices st) sid) []"
  define l' where "l' = map_set (ln_handle n) (n, t) l"
  define st1 where "st1 = st\<lparr>bg_notices := map_set sid l' (bg_notices st), bg_count := bg_count st + 1\<rparr>"
  define st2 where "st2 = (if LATE_NOTICES_PER_SESSION < length l' then removeNotice sid (fst (hd l')) st1 else st1)"
  let ?b = "\<lambda>_ :: string. LATE_NOTICES_PER_SESSION"
  have fine: "notices_fine ?b st" and cap: "bg_count st \<le> LATE_NOTICES_MAX" using ok by (simp_all add: notices_ok_def)
  note d = notices_fineD [OF fine]
  have l: "wf_map l" "length l \<le> LATE_NOTICES_PER_SESSION" "\<forall>h m u. (h, m, u) \<in> set l \<longrightarrow> ln_handle m = h"
    using d(2,3) by (cases "map_get (bg_notices st) sid"; auto simp: l_def list_fine_def)+
  have "map_get l (ln_handle n) = None" using False unfolding l_def by blast
  then have l': "l' = l @ [(ln_handle n, n, t)]" by (simp add: l'_def map_set_fresh)
  have fine': "list_fine l'"
    using l by (auto simp: list_fine_def l'_def jm.wf_put) (auto simp: l'_def [symmetric] l')
  have tot: "total (map_set sid l' (bg_notices st)) = total (bg_notices st) + 1"
  proof (cases "map_get (bg_notices st) sid")
    case None
    then have "l = []" by (simp add: l_def)
    with total_new [OF None, of l'] show ?thesis by (simp add: l')
  next
    case (Some q)
    then have "l = q" by (simp add: l_def)
    with total_replace [OF Some, of l'] show ?thesis by (simp add: l')
  qed
  have fine1: "notices_fine (?b(sid := length l')) st1"
    using d fine' tot by (auto simp: notices_fine_def st1_def jm.wf_put map_get_set)
  have fine2: "notices_fine ?b st2" and cnt2: "bg_count st2 \<le> bg_count st + 1"
  proof -
    have "notices_fine ?b st2 \<and> bg_count st2 \<le> bg_count st + 1"
    proof (cases "LATE_NOTICES_PER_SESSION < length l'")
      case True
      have at: "map_get (bg_notices st1) sid = Some l'" by (simp add: st1_def map_get_set)
      have "l' \<noteq> []" by (simp add: l')
      then have hd: "map_get l' (fst (hd l')) \<noteq> None" by (cases l') auto
      note r = removeNotice_fine [OF fine1 at hd]
      have "((?b(sid := length l'))(sid := length l' - 1)) s \<le> ?b s" for s using l(2) by (simp add: l')
      with notices_fine_mono [OF r(1)] r(2) True show ?thesis by (simp add: st2_def st1_def)
    next
      case False
      have "(?b(sid := length l')) s \<le> ?b s" for s using False by simp
      with notices_fine_mono [OF fine1] False show ?thesis by (simp add: st2_def st1_def)
    qed
    then show "notices_fine ?b st2" "bg_count st2 \<le> bg_count st + 1" by blast+
  qed
  have "addNotice sid n t st = trim_notices (bg_count st2) st2"
    using False by (simp add: addNotice_def Let_def l_def st1_def st2_def l'_def)
  with trim_fine [OF fine2, of "bg_count st2"] show ?thesis by (simp add: notices_ok_def)
qed

section \<open>The queue\<close>

definition apart :: "queued_item \<Rightarrow> queued_item \<Rightarrow> bool" where
  "apart i j \<longleftrightarrow> qi_session i = qi_session j \<longrightarrow> set (qi_files i) \<inter> set (qi_files j) = {}"

lemma conflicts_apart: "conflicts (qi_session i) (qi_files i) j \<longleftrightarrow> \<not> apart j i"
  by (auto simp: conflicts_def apart_def overlaps_def list_ex_iff)

lemma apart_sym: "apart i j \<Longrightarrow> apart j i"
  by (auto simp: apart_def)

definition queue_fine :: "background_options \<Rightarrow> (string, queued_item) jsmap \<Rightarrow> bool" where
  "queue_fine opt q \<longleftrightarrow> wf_map q \<and> (\<forall>h i. map_get q h = Some i \<longrightarrow> qi_handle i = h \<and> qi_attempts i < bo_maxAttempts opt) \<and>
     (\<forall>h i k j. map_get q h = Some i \<longrightarrow> map_get q k = Some j \<longrightarrow> h \<noteq> k \<longrightarrow> apart i j)"

lemma queue_fineD:
  assumes "queue_fine opt q"
  shows "wf_map q" "map_get q h = Some i \<Longrightarrow> qi_handle i = h" "map_get q h = Some i \<Longrightarrow> qi_attempts i < bo_maxAttempts opt"
    "map_get q h = Some i \<Longrightarrow> map_get q k = Some j \<Longrightarrow> h \<noteq> k \<Longrightarrow> apart i j"
  using assms unfolding queue_fine_def by blast+

lemma queue_fine_sub:
  assumes "queue_fine opt q" "wf_map q'" "\<And>h i. map_get q' h = Some i \<Longrightarrow> map_get q h = Some i"
  shows "queue_fine opt q'"
  using assms unfolding queue_fine_def by blast

lemma item_of: "wf_map q \<Longrightarrow> i \<in> set (map snd q) \<longleftrightarrow> (\<exists>h. map_get q h = Some i)"
  by (force simp: wf_map_def)

lemma queue_fine_put:
  assumes fine: "queue_fine opt q" and i: "qi_attempts i < bo_maxAttempts opt" "\<not> list_ex (conflicts (qi_session i) (qi_files i)) (map snd q)"
  shows "queue_fine opt (map_set (qi_handle i) i q)"
proof -
  note d = queue_fineD [OF fine]
  have a: "apart j i" if "map_get q h = Some j" for h j
    using that i(2) conflicts_apart [of i j] item_of [OF d(1), of j] by (auto simp: list_ex_iff)
  have get: "map_get (map_set (qi_handle i) i q) h = (if h = qi_handle i then Some i else map_get q h)" for h by (rule map_get_set)
  show ?thesis
    unfolding queue_fine_def get
  proof (intro conjI allI impI)
    show "wf_map (map_set (qi_handle i) i q)" using d(1) by (simp add: jm.wf_put)
  next
    fix h j assume j: "(if h = qi_handle i then Some i else map_get q h) = Some j"
    then show "qi_handle j = h" "qi_attempts j < bo_maxAttempts opt" using d(2,3) i(1) by (auto split: if_splits)
  next
    fix h j k m
    assume "(if h = qi_handle i then Some i else map_get q h) = Some j" "(if k = qi_handle i then Some i else map_get q k) = Some m" "h \<noteq> k"
    then show "apart j m" using d(4) a apart_sym [OF a] by (auto split: if_splits)
  qed
qed

lemma queue_fine_evict:
  assumes "queue_fine opt q"
  shows "queue_fine opt (evict_oldest mx q)"
proof -
  note wf = queue_fineD(1) [OF assms]
  show ?thesis
    unfolding evict_oldest_drop [OF wf] by (rule queue_fine_sub [OF assms wf_map_drop [OF wf] map_get_drop [OF wf]])
qed

lemma queue_fine_delete:
  assumes "queue_fine opt q"
  shows "queue_fine opt (map_delete h q)"
proof (rule queue_fine_sub [OF assms])
  show "wf_map (map_delete h q)" by (rule jm.wf_del [OF queue_fineD(1) [OF assms]])
  show "map_get q j = Some i" if "map_get (map_delete h q) j = Some i" for j i
    using that unfolding map_get_delete by (cases "j = h") simp_all
qed

lemma delete_all_get: "map_get (fold (\<lambda>i. map_delete (f i)) xs q) h = (if h \<in> f ` set xs then None else map_get q h)"
  by (induction xs arbitrary: q) (auto simp: map_get_delete)

lemma delete_all_fine: "queue_fine opt q \<Longrightarrow> queue_fine opt (fold (\<lambda>i. map_delete (f i)) xs q)"
  by (induction xs arbitrary: q) (simp_all add: queue_fine_delete)

lemma delete_all_length: "length (fold (\<lambda>i. map_delete (f i)) xs q) \<le> length q"
proof (induction xs arbitrary: q)
  case (Cons x xs)
  have "length (map_delete (f x) q) \<le> length q" by (simp add: map_delete_def)
  with Cons [of "map_delete (f x) q"] show ?case by simp
qed simp

section \<open>The whole queue\<close>

definition run_fine :: "background_options \<Rightarrow> background \<Rightarrow> bool" where
  "run_fine opt st \<longleftrightarrow>
     (case bg_running st of None \<Rightarrow> True
      | Some run \<Rightarrow> distinct (map qi_handle (rn_items run)) \<and> length (rn_items run) \<le> MAX_HANDLES_PER_CALL \<and>
          (\<forall>i\<in>set (rn_items run). qi_session i = rn_session run \<and> qi_attempts i < bo_maxAttempts opt \<and> map_get (bg_queue st) (qi_handle i) = None))"

definition timer_fine :: "background \<Rightarrow> bool" where
  "timer_fine st \<longleftrightarrow>
     (\<not> bg_disposed st \<longrightarrow> bg_running st = None \<longrightarrow>
        (\<forall>i\<in>set (queue_items st). \<exists>at'. bg_timer st = Some at' \<and> at' \<le> qi_notBefore i))"

definition bg_ok :: "background_options \<Rightarrow> background \<Rightarrow> bool" where
  "bg_ok opt st \<longleftrightarrow> queue_fine opt (bg_queue st) \<and> length (bg_queue st) \<le> BACKGROUND_QUEUE_MAX \<and> notices_ok st \<and>
     wf_map (bg_reported st) \<and> length (bg_reported st) \<le> REPORTED_MEMO_MAX \<and> run_fine opt st \<and> timer_fine st \<and>
     (bg_disposed st \<longrightarrow> bg_queue st = [] \<and> bg_notices st = [] \<and> bg_timer st = None)"

lemma bg_okD:
  assumes "bg_ok opt st"
  shows "queue_fine opt (bg_queue st)" "length (bg_queue st) \<le> BACKGROUND_QUEUE_MAX" "notices_ok st" "wf_map (bg_reported st)"
    "length (bg_reported st) \<le> REPORTED_MEMO_MAX" "run_fine opt st" "timer_fine st"
    "bg_disposed st \<Longrightarrow> bg_queue st = []" "bg_disposed st \<Longrightarrow> bg_notices st = []" "bg_disposed st \<Longrightarrow> bg_timer st = None"
  using assms unfolding bg_ok_def by blast+

lemma bg_ok_empty: "bg_ok opt emptyBackground"
  by (simp add: bg_ok_def emptyBackground_def queue_fine_def notices_ok_def notices_fine_def total_def run_fine_def timer_fine_def queue_items_def)

end
