(* ===== verification/Background_Ops.thy ===== *)
theory Background_Ops
  imports Background_Inv
begin

text \<open>
  Every event of the background queue keeps its invariant. \<open>bg_pre\<close> is the invariant without the timer;
  rescheduling establishes the rest.
\<close>

definition bg_pre :: "background_options \<Rightarrow> background \<Rightarrow> bool" where
  "bg_pre opt st \<longleftrightarrow> queue_fine opt (bg_queue st) \<and> length (bg_queue st) \<le> BACKGROUND_QUEUE_MAX \<and> notices_ok st \<and>
     wf_map (bg_reported st) \<and> length (bg_reported st) \<le> REPORTED_MEMO_MAX \<and> run_fine opt st \<and>
     (bg_disposed st \<longrightarrow> bg_queue st = [] \<and> bg_notices st = [] \<and> bg_timer st = None)"

lemma bg_ok_pre: "bg_ok opt st \<longleftrightarrow> bg_pre opt st \<and> timer_fine st"
  by (auto simp: bg_ok_def bg_pre_def)

lemma bg_preD:
  assumes "bg_pre opt st"
  shows "queue_fine opt (bg_queue st)" "length (bg_queue st) \<le> BACKGROUND_QUEUE_MAX" "notices_ok st" "wf_map (bg_reported st)"
    "length (bg_reported st) \<le> REPORTED_MEMO_MAX" "run_fine opt st" "bg_disposed st \<Longrightarrow> bg_queue st = []"
    "bg_disposed st \<Longrightarrow> bg_notices st = []" "bg_disposed st \<Longrightarrow> bg_timer st = None"
  using assms unfolding bg_pre_def by blast+

lemma notices_ok_cong: "bg_notices st' = bg_notices st \<Longrightarrow> bg_count st' = bg_count st \<Longrightarrow> notices_ok st' = notices_ok st"
  by (simp add: notices_ok_def notices_fine_def)

lemma run_fine_cong: "bg_running st' = bg_running st \<Longrightarrow> bg_queue st' = bg_queue st \<Longrightarrow> run_fine opt st' = run_fine opt st"
  by (cases "bg_running st") (simp_all add: run_fine_def)

lemma timer_fine_cong:
  "bg_disposed st' = bg_disposed st \<Longrightarrow> bg_running st' = bg_running st \<Longrightarrow> bg_queue st' = bg_queue st \<Longrightarrow> bg_timer st' = bg_timer st \<Longrightarrow>
    timer_fine st' = timer_fine st"
  by (simp add: timer_fine_def queue_items_def)

section \<open>Rescheduling\<close>

lemma earliest_None: "earliest is' = None \<longleftrightarrow> is' = []"
  by (cases is') (auto split: option.splits)

lemma earliest_le: "earliest is' = Some due \<Longrightarrow> i \<in> set is' \<Longrightarrow> due \<le> qi_notBefore i"
  by (induction is' arbitrary: due) (auto simp: earliest_None min_le_iff_disj split: option.splits)

lemma reschedule_fields:
  "bg_queue (reschedule t st) = bg_queue st" "bg_notices (reschedule t st) = bg_notices st" "bg_count (reschedule t st) = bg_count st"
  "bg_reported (reschedule t st) = bg_reported st" "bg_running (reschedule t st) = bg_running st" "bg_disposed (reschedule t st) = bg_disposed st"
  "bg_runs (reschedule t st) = bg_runs st" "bg_superseded (reschedule t st) = bg_superseded st"
  by (simp_all add: reschedule_def Let_def wakeIdle_def arm_def split: option.split)

lemma reschedule_timer: "\<not> bg_disposed st \<Longrightarrow> bg_running st = None \<Longrightarrow> earliest (queue_items st) = Some due \<Longrightarrow>
    \<exists>at'. bg_timer (reschedule t st) = Some at' \<and> at' \<le> due"
  by (auto simp: reschedule_def Let_def wakeIdle_def arm_def split: option.split)

lemma reschedule_ok:
  assumes pre: "bg_pre opt st"
  shows "bg_ok opt (reschedule t st)"
proof -
  note f = reschedule_fields [of t st]
  have "timer_fine (reschedule t st)"
    unfolding timer_fine_def
  proof (intro impI ballI)
    fix i assume a: "\<not> bg_disposed (reschedule t st)" "bg_running (reschedule t st) = None" "i \<in> set (queue_items (reschedule t st))"
    then have i: "i \<in> set (queue_items st)" by (simp add: queue_items_def f)
    then obtain due where due: "earliest (queue_items st) = Some due" using earliest_None [of "queue_items st"] by (cases "earliest (queue_items st)") auto
    with a f reschedule_timer [of st due t] earliest_le [OF due i]
    show "\<exists>at'. bg_timer (reschedule t st) = Some at' \<and> at' \<le> qi_notBefore i" by (metis order_trans)
  qed
  moreover have "bg_pre opt (reschedule t st)"
  proof -
    have "bg_timer (reschedule t st) = None" if "bg_disposed st" using that bg_preD(9) [OF pre] by (simp add: reschedule_def)
    then show ?thesis using pre
      by (simp add: bg_pre_def f notices_ok_cong [of "reschedule t st" st] run_fine_cong [of "reschedule t st" st])
  qed
  ultimately show ?thesis by (simp add: bg_ok_pre)
qed

lemma arm_fields:
  "bg_queue (arm due st) = bg_queue st" "bg_notices (arm due st) = bg_notices st" "bg_count (arm due st) = bg_count st"
  "bg_reported (arm due st) = bg_reported st" "bg_running (arm due st) = bg_running st" "bg_disposed (arm due st) = bg_disposed st"
  by (simp_all add: arm_def split: option.split)

section \<open>Retries and the end of a run\<close>

definition core_ok :: "background_options \<Rightarrow> background \<Rightarrow> bool" where
  "core_ok opt st \<longleftrightarrow> queue_fine opt (bg_queue st) \<and> length (bg_queue st) \<le> BACKGROUND_QUEUE_MAX \<and> notices_ok st \<and>
     wf_map (bg_reported st) \<and> length (bg_reported st) \<le> REPORTED_MEMO_MAX"

lemma put_capped:
  assumes "queue_fine opt (bg_queue st)" "qi_attempts i < bo_maxAttempts opt"
    "\<not> list_ex (conflicts (qi_session i) (qi_files i)) (queue_items st)"
  shows "queue_fine opt (bg_queue (enforceCap (put_item i st)))" "length (bg_queue (enforceCap (put_item i st))) \<le> BACKGROUND_QUEUE_MAX"
    "map_get (bg_queue (enforceCap (put_item i st))) h = Some j \<Longrightarrow> (if h = qi_handle i then j = i else map_get (bg_queue st) h = Some j)"
proof -
  have fine: "queue_fine opt (map_set (qi_handle i) i (bg_queue st))" by (rule queue_fine_put) (use assms in \<open>simp_all add: queue_items_def\<close>)
  note wf = queue_fineD(1) [OF fine]
  show "queue_fine opt (bg_queue (enforceCap (put_item i st)))" by (simp add: enforceCap_def put_item_def queue_fine_evict [OF fine])
  show "length (bg_queue (enforceCap (put_item i st))) \<le> BACKGROUND_QUEUE_MAX" by (simp add: enforceCap_def put_item_def length_evict [OF wf])
  show "if h = qi_handle i then j = i else map_get (bg_queue st) h = Some j" if "map_get (bg_queue (enforceCap (put_item i st))) h = Some j"
  proof -
    have "map_get (map_set (qi_handle i) i (bg_queue st)) h = Some j"
      by (rule map_get_drop [OF wf]) (use that in \<open>simp add: enforceCap_def put_item_def evict_oldest_drop [OF wf]\<close>)
    then show ?thesis by (simp add: map_get_set split: if_splits)
  qed
qed

lemma frame_simps [simp]:
  "bg_notices (enforceCap (put_item i st)) = bg_notices st" "bg_count (enforceCap (put_item i st)) = bg_count st"
  "bg_reported (enforceCap (put_item i st)) = bg_reported st" "bg_disposed (enforceCap (put_item i st)) = bg_disposed st"
  "bg_running (enforceCap (put_item i st)) = bg_running st" "bg_timer (enforceCap (put_item i st)) = bg_timer st"
  by (simp_all add: enforceCap_def put_item_def)

lemma core_if: "core_ok opt a \<Longrightarrow> (\<not> P \<Longrightarrow> core_ok opt b) \<Longrightarrow> core_ok opt (if P then a else b)"
  by simp

lemma retry_core:
  assumes core: "core_ok opt st" and a: "qi_attempts i < bo_maxAttempts opt"
  shows "core_ok opt (retry opt i counted t st)"
proof -
  let ?a = "if counted then qi_attempts i + 1 else qi_attempts i" and ?d = "if counted then qi_deferrals i else qi_deferrals i + 1"
  let ?i = "i\<lparr>qi_attempts := ?a, qi_deferrals := ?d, qi_notBefore := backoffFrom opt t ?a ?d\<rparr>"
  have put: "core_ok opt (enforceCap (put_item ?i st))"
    if "\<not> (counted \<and> bo_maxAttempts opt \<le> ?a)" "\<not> list_ex (conflicts (qi_session i) (qi_files i)) (queue_items st)"
  proof -
    have "qi_attempts ?i < bo_maxAttempts opt" using that(1) a by (auto split: if_splits)
    moreover have "\<not> list_ex (conflicts (qi_session ?i) (qi_files ?i)) (queue_items st)" using that(2) by simp
    ultimately show ?thesis using put_capped(1,2) [of opt st ?i] core
      by (simp add: core_ok_def notices_ok_cong [of "enforceCap (put_item ?i st)" st])
  qed
  have same: "core_ok opt (st\<lparr>bg_superseded := n\<rparr>)" for n
    using core by (simp add: core_ok_def notices_ok_cong [of "st\<lparr>bg_superseded := n\<rparr>" st])
  show ?thesis unfolding retry_def Let_def by (intro core_if core same put)
qed

lemma addNotice_fields:
  "bg_queue (addNotice sid n t st) = bg_queue st" "bg_reported (addNotice sid n t st) = bg_reported st"
  "bg_running (addNotice sid n t st) = bg_running st" "bg_disposed (addNotice sid n t st) = bg_disposed st"
  "bg_timer (addNotice sid n t st) = bg_timer st"
proof -
  have r: "bg_queue (removeNotice s h q) = bg_queue q \<and> bg_reported (removeNotice s h q) = bg_reported q \<and>
      bg_running (removeNotice s h q) = bg_running q \<and> bg_disposed (removeNotice s h q) = bg_disposed q \<and> bg_timer (removeNotice s h q) = bg_timer q"
    for s h q by (simp add: removeNotice_def Let_def split: option.split)
  have tr: "bg_queue (trim_notices k q) = bg_queue q \<and> bg_reported (trim_notices k q) = bg_reported q \<and>
      bg_running (trim_notices k q) = bg_running q \<and> bg_disposed (trim_notices k q) = bg_disposed q \<and> bg_timer (trim_notices k q) = bg_timer q" for k q
    by (induction k q rule: trim_notices.induct) (auto simp: r split: option.splits)
  show "bg_queue (addNotice sid n t st) = bg_queue st" "bg_reported (addNotice sid n t st) = bg_reported st"
    "bg_running (addNotice sid n t st) = bg_running st" "bg_disposed (addNotice sid n t st) = bg_disposed st"
    "bg_timer (addNotice sid n t st) = bg_timer st"
    by (simp_all add: addNotice_def Let_def tr r)
qed

lemma apply_one_core:
  assumes core: "core_ok opt st" and a: "qi_attempts i < bo_maxAttempts opt"
  shows "core_ok opt (apply_one opt run outcomes t i st)"
proof -
  have "core_ok opt (addNotice (rn_session run) n t st)" for n
    using core addNotice_ok by (simp add: core_ok_def addNotice_fields)
  with retry_core [OF core a] core show ?thesis
    by (simp add: apply_one_def Let_def split: option.split background_outcome.split)
qed

lemma retry_fields:
  "bg_disposed (retry opt i counted t st) = bg_disposed st" "bg_running (retry opt i counted t st) = bg_running st"
  "bg_timer (retry opt i counted t st) = bg_timer st" "bg_notices (retry opt i counted t st) = bg_notices st"
  "bg_reported (retry opt i counted t st) = bg_reported st"
  by (simp_all add: retry_def Let_def)

lemma apply_run_core:
  assumes "core_ok opt st" "\<forall>i\<in>set (rn_items run). qi_attempts i < bo_maxAttempts opt"
  shows "core_ok opt (apply_run opt run outcomes t st)"
proof -
  have "core_ok opt (fold (apply_one opt run outcomes t) is' st)" if "set is' \<subseteq> set (rn_items run)" for is'
    using assms(1) that
  proof (induction is' arbitrary: st)
    case (Cons i is')
    have "core_ok opt (apply_one opt run outcomes t i st)" by (rule apply_one_core [OF Cons.prems(1)]) (use assms(2) Cons.prems(2) in simp)
    with Cons show ?case by simp
  qed simp
  then show ?thesis by (simp add: apply_run_def)
qed

lemma apply_disposed: "bg_disposed (apply_run opt run outcomes t st) = bg_disposed st"
proof -
  have "bg_disposed (apply_one opt run outcomes t i st) = bg_disposed st" for i st
    by (simp add: apply_one_def Let_def retry_fields addNotice_fields split: option.split background_outcome.split)
  then have "bg_disposed (fold (apply_one opt run outcomes t) is' st) = bg_disposed st" for is' st
    by (induction is' arbitrary: st) simp_all
  then show ?thesis by (simp add: apply_run_def)
qed

lemma finish_bg_ok:
  assumes ok: "bg_ok opt st"
  shows "bg_ok opt (bg_finish opt outcomes t st)"
proof (cases "bg_running st")
  case (Some run)
  define st1 where "st1 = (if \<not> bg_disposed st \<and> \<not> rn_cancelled run then apply_run opt run outcomes t st else st)"
  have core: "core_ok opt st" using bg_okD [OF ok] by (simp add: core_ok_def)
  have att: "\<forall>i\<in>set (rn_items run). qi_attempts i < bo_maxAttempts opt" using bg_okD(6) [OF ok] Some by (simp add: run_fine_def)
  have core1: "core_ok opt st1" using core apply_run_core [OF core att] by (simp add: st1_def)
  have dis: "bg_disposed st1 \<Longrightarrow> bg_queue st1 = [] \<and> bg_notices st1 = [] \<and> bg_timer st1 = None"
    using bg_okD(8-10) [OF ok] by (auto simp: st1_def apply_disposed)
  have "bg_pre opt (st1\<lparr>bg_running := None\<rparr>)"
    using core1 dis by (simp add: bg_pre_def core_ok_def run_fine_def notices_ok_cong [of "st1\<lparr>bg_running := None\<rparr>" st1])
  from reschedule_ok [OF this] show ?thesis by (simp add: bg_finish_def Some Let_def st1_def)
qed (use ok in \<open>simp add: bg_finish_def\<close>)

section \<open>Starting a run\<close>

text \<open>Deferring a request changes neither its session, its files nor its attempts.\<close>

definition same_work :: "queued_item \<Rightarrow> queued_item \<Rightarrow> bool" where
  "same_work i j \<longleftrightarrow> qi_handle i = qi_handle j \<and> qi_session i = qi_session j \<and> qi_files i = qi_files j \<and> qi_attempts i = qi_attempts j"

lemma queue_fine_update:
  assumes fine: "queue_fine opt q" and i: "map_get q (qi_handle j) = Some i" "same_work i j"
  shows "queue_fine opt (map_set (qi_handle j) j q)" "length (map_set (qi_handle j) j q) = length q"
proof -
  note d = queue_fineD [OF fine]
  have get: "map_get (map_set (qi_handle j) j q) h = (if h = qi_handle j then Some j else map_get q h)" for h by (rule map_get_set)
  have ap: "apart x j \<longleftrightarrow> apart x i" "apart j x \<longleftrightarrow> apart i x" for x using i(2) by (simp_all add: apart_def same_work_def)
  show "queue_fine opt (map_set (qi_handle j) j q)"
    unfolding queue_fine_def get
  proof (intro conjI allI impI)
    show "wf_map (map_set (qi_handle j) j q)" using d(1) by (simp add: jm.wf_put)
  next
    fix h x assume x: "(if h = qi_handle j then Some j else map_get q h) = Some x"
    then show "qi_handle x = h" "qi_attempts x < bo_maxAttempts opt" using d(2,3) i d(3) [OF i(1)] by (auto simp: same_work_def split: if_splits)
  next
    fix h x k y
    assume "(if h = qi_handle j then Some j else map_get q h) = Some x" "(if k = qi_handle j then Some j else map_get q k) = Some y" "h \<noteq> k"
    then show "apart x y" using d(4) [OF i(1)] d(4) [OF _ i(1)] d(4) ap by (cases "h = qi_handle j"; cases "k = qi_handle j") auto
  qed
  show "length (map_set (qi_handle j) j q) = length q" using i(1) by (simp add: length_map_set_present)
qed

definition deferred :: "background_options \<Rightarrow> real \<Rightarrow> queued_item \<Rightarrow> queued_item" where
  "deferred opt t item = item\<lparr>qi_deferrals := qi_deferrals item + 1, qi_notBefore := backoffFrom opt t (qi_attempts item) (qi_deferrals item + 1)\<rparr>"

definition postpone_one :: "background_options \<Rightarrow> real \<Rightarrow> queued_item \<Rightarrow> background \<Rightarrow> background" where
  "postpone_one opt t item s = (if t < qi_notBefore item then s else put_item (deferred opt t item) s)"

lemma postponeDue_fold: "postponeDue opt t st = reschedule t (fold (postpone_one opt t) (queue_items st) st)"
proof -
  have "(\<lambda>item s. if t < qi_notBefore item then s else (let deferrals = qi_deferrals item + 1 in
      put_item (item\<lparr>qi_deferrals := deferrals, qi_notBefore := backoffFrom opt t (qi_attempts item) deferrals\<rparr>) s)) = postpone_one opt t"
    by (intro ext) (simp add: postpone_one_def deferred_def Let_def)
  then show ?thesis by (simp add: postponeDue_def)
qed

lemma postpone_pre:
  assumes "bg_pre opt st" "\<forall>i\<in>set is'. \<exists>j. map_get (bg_queue st) (qi_handle i) = Some j \<and> same_work j i" "bg_running st = None"
  shows "bg_pre opt (fold (postpone_one opt t) is' st) \<and> bg_running (fold (postpone_one opt t) is' st) = None"
  using assms
proof (induction is' arbitrary: st)
  case (Cons i is')
  obtain j where j: "map_get (bg_queue st) (qi_handle i) = Some j" "same_work j i" using Cons.prems(2) by auto
  let ?st = "postpone_one opt t i st" and ?i = "deferred opt t i"
  have q: "bg_queue ?st = bg_queue st \<or> bg_queue ?st = map_set (qi_handle ?i) ?i (bg_queue st)"
    by (simp add: postpone_one_def put_item_def)
  have i': "map_get (bg_queue st) (qi_handle ?i) = Some j" "same_work j ?i" using j by (simp_all add: deferred_def same_work_def)
  have f: "bg_notices ?st = bg_notices st" "bg_count ?st = bg_count st" "bg_reported ?st = bg_reported st" "bg_running ?st = None"
    "bg_disposed ?st = bg_disposed st" "bg_timer ?st = bg_timer st"
    using Cons.prems(3) by (simp_all add: postpone_one_def put_item_def)
  have "bg_queue st \<noteq> []" using j(1) by auto
  then have nd: "\<not> bg_disposed st" using bg_preD(7) [OF Cons.prems(1)] by blast
  have "bg_pre opt ?st"
    using bg_preD(1-5) [OF Cons.prems(1)] q queue_fine_update [OF bg_preD(1) [OF Cons.prems(1)] i'] nd
    by (auto simp: bg_pre_def f run_fine_def notices_ok_cong [of ?st st])
  moreover have "\<forall>k\<in>set is'. \<exists>j. map_get (bg_queue ?st) (qi_handle k) = Some j \<and> same_work j k"
  proof
    fix k assume "k \<in> set is'"
    then obtain m where m: "map_get (bg_queue st) (qi_handle k) = Some m" "same_work m k" using Cons.prems(2) by auto
    show "\<exists>j. map_get (bg_queue ?st) (qi_handle k) = Some j \<and> same_work j k"
    proof (cases "qi_handle k = qi_handle ?i")
      case True
      then have "m = j" using m(1) i'(1) by simp
      with m(2) i'(2) have "same_work ?i k" by (simp add: same_work_def)
      with q m True show ?thesis by (auto simp: map_get_set)
    next
      case False
      with q m show ?thesis by (auto simp: map_get_set)
    qed
  qed
  ultimately show ?case using Cons.IH [of ?st] f(4) by simp
qed simp

lemma postpone_ok:
  assumes pre: "bg_pre opt st" and r: "bg_running st = None"
  shows "bg_ok opt (postponeDue opt t st)"
proof -
  have "\<forall>i\<in>set (queue_items st). \<exists>j. map_get (bg_queue st) (qi_handle i) = Some j \<and> same_work j i"
    using item_of [OF queue_fineD(1) [OF bg_preD(1) [OF pre]]] queue_fineD(2) [OF bg_preD(1) [OF pre]]
    by (auto simp: queue_items_def same_work_def)
  from postpone_pre [OF pre this r] show ?thesis by (simp add: postponeDue_fold reschedule_ok)
qed

lemma first_due_mem: "first_due t is' b = Some i \<Longrightarrow> b = Some i \<or> i \<in> set is' \<and> qi_notBefore i \<le> t"
  by (induction is' arbitrary: b) (auto split: if_splits)

definition better :: "real \<Rightarrow> queued_item \<Rightarrow> queued_item option \<Rightarrow> queued_item option" where
  "better t k b = (if qi_notBefore k \<le> t \<and> (case b of None \<Rightarrow> True | Some x \<Rightarrow> qi_notBefore k < qi_notBefore x) then Some k else b)"

lemma first_due_Cons: "first_due t (k # is') b = first_due t is' (better t k b)"
  by (simp add: better_def)

lemma better_le:
  "b = Some j \<Longrightarrow> \<exists>x. better t k b = Some x \<and> qi_notBefore x \<le> qi_notBefore j"
  "qi_notBefore k \<le> t \<Longrightarrow> \<exists>x. better t k b = Some x \<and> qi_notBefore x \<le> qi_notBefore k"
  by (auto simp: better_def split: option.split)

lemma first_due_best: "first_due t is' (Some x) = Some i \<Longrightarrow> qi_notBefore i \<le> qi_notBefore x"
proof (induction is' arbitrary: x)
  case (Cons k is')
  obtain y where "better t k (Some x) = Some y" "qi_notBefore y \<le> qi_notBefore x" using better_le(1) by blast
  with Cons.IH [of y] Cons.prems show ?case by (simp add: first_due_Cons del: first_due.simps)
qed simp

lemma first_due_least:
  "first_due t is' b = Some i \<Longrightarrow> j \<in> set is' \<Longrightarrow> qi_notBefore j \<le> t \<Longrightarrow> qi_notBefore i \<le> qi_notBefore j"
proof (induction is' arbitrary: b)
  case (Cons k is')
  have go: "first_due t is' (better t k b) = Some i" using Cons.prems(1) by (simp only: first_due_Cons)
  show ?case
  proof (cases "j = k")
    case True
    then obtain x where "better t k b = Some x" "qi_notBefore x \<le> qi_notBefore j" using better_le(2) Cons.prems(3) by blast
    with first_due_best go show ?thesis by fastforce
  next
    case False
    with Cons.IH [OF go] Cons.prems(2,3) show ?thesis by simp
  qed
qed simp

lemma first_due_some: "j \<in> set is' \<Longrightarrow> qi_notBefore j \<le> t \<Longrightarrow> first_due t is' b \<noteq> None"
proof (induction is' arbitrary: b)
  case (Cons k is')
  have keep: "first_due t is' (Some x) \<noteq> None" for x is'
    by (induction is' arbitrary: x) (auto simp: better_def)
  show ?case
  proof (cases "j = k")
    case True
    then obtain x where "better t k b = Some x" using better_le(2) Cons.prems(2) by blast
    with keep show ?thesis by (simp add: first_due_Cons del: first_due.simps)
  next
    case False
    with Cons show ?thesis by (simp only: first_due_Cons) simp
  qed
qed simp

lemma items_distinct: "queue_fine opt (bg_queue st) \<Longrightarrow> distinct (map qi_handle (queue_items st))"
proof -
  assume fine: "queue_fine opt (bg_queue st)"
  note wf = queue_fineD(1) [OF fine]
  have "qi_handle i = h" if "(h, i) \<in> set (bg_queue st)" for h i
    using that wf queue_fineD(2) [OF fine, of h i] by (simp add: wf_map_def)
  then have "map qi_handle (queue_items st) = map_keys (bg_queue st)" by (auto simp: queue_items_def map_keys_def)
  with wf show ?thesis by (simp add: wf_map_keys)
qed

lemma items_in:
  assumes "queue_fine opt (bg_queue st)"
  shows "i \<in> set (queue_items st) \<longleftrightarrow> map_get (bg_queue st) (qi_handle i) = Some i"
proof -
  note mem = item_of [OF queue_fineD(1) [OF assms], of i, folded queue_items_def]
  show ?thesis
  proof
    assume "i \<in> set (queue_items st)"
    then obtain h where h: "map_get (bg_queue st) h = Some i" using mem by blast
    with queue_fineD(2) [OF assms h] show "map_get (bg_queue st) (qi_handle i) = Some i" by simp
  qed (use mem in blast)
qed

lemma batch_facts:
  assumes fine: "queue_fine opt (bg_queue st)" and lead: "lead \<in> set (queue_items st)"
  shows "set (run_batch t lead st) \<subseteq> {i \<in> set (queue_items st). qi_session i = qi_session lead}" "distinct (map qi_handle (run_batch t lead st))"
    "length (run_batch t lead st) \<le> MAX_HANDLES_PER_CALL" "lead \<in> set (run_batch t lead st)"
proof -
  let ?all = "lead # filter (\<lambda>i. qi_handle i \<noteq> qi_handle lead \<and> qi_session i = qi_session lead \<and> (isFresh i \<or> qi_notBefore i \<le> t)) (queue_items st)"
  have "distinct (map qi_handle ?all)" using items_distinct [OF fine] by (auto simp: distinct_map_filter)
  then have "distinct (take MAX_HANDLES_PER_CALL (map qi_handle ?all))" by (rule distinct_take)
  then show "distinct (map qi_handle (run_batch t lead st))" unfolding run_batch_def take_map .
  have "set (run_batch t lead st) \<subseteq> set ?all" unfolding run_batch_def by (rule set_take_subset)
  then show "set (run_batch t lead st) \<subseteq> {i \<in> set (queue_items st). qi_session i = qi_session lead}" using lead by auto
  show "length (run_batch t lead st) \<le> MAX_HANDLES_PER_CALL" by (simp add: run_batch_def)
  show "lead \<in> set (run_batch t lead st)" using caps_positive(4) by (simp add: run_batch_def take_Cons')
qed

lemma runNext_ok:
  assumes pre: "bg_pre opt st" and vac: "bg_disposed st \<or> bg_running st \<noteq> None \<Longrightarrow> timer_fine st"
  shows "bg_ok opt (runNext opt busy t st)"
proof (cases "bg_disposed st \<or> bg_running st \<noteq> None")
  case True
  with pre vac show ?thesis by (auto simp: runNext_def bg_ok_pre)
next
  case False
  note fine = bg_preD(1) [OF pre]
  show ?thesis
  proof (cases "first_due t (queue_items st) None")
    case None
    with False reschedule_ok [OF pre] show ?thesis by (simp add: runNext_def)
  next
    case (Some lead)
    have lead: "lead \<in> set (queue_items st)" using first_due_mem [OF Some] by simp
    note b = batch_facts [OF fine lead, of t]
    let ?batch = "run_batch t lead st"
    let ?q = "fold (\<lambda>i. map_delete (qi_handle i)) ?batch (bg_queue st)"
    let ?run = "\<lparr>rn_session = qi_session lead, rn_items = ?batch, rn_cancelled = False, rn_preempted = False\<rparr>"
    let ?st = "st\<lparr>bg_queue := ?q, bg_running := Some ?run, bg_runs := bg_runs st + 1\<rparr>"
    have "qi_attempts i < bo_maxAttempts opt" if "i \<in> set ?batch" for i
      using that b(1) items_in [OF fine, of i] queue_fineD(3) [OF fine] by blast
    then have "run_fine opt ?st" using b by (auto simp: run_fine_def delete_all_get)
    moreover have "notices_ok ?st" using bg_preD(3) [OF pre] by (subst notices_ok_cong [of ?st st]) simp_all
    moreover have "timer_fine ?st" by (simp add: timer_fine_def)
    moreover note delete_all_fine [OF fine, where f = qi_handle and xs = ?batch]
      le_trans [OF delete_all_length [of qi_handle ?batch "bg_queue st"] bg_preD(2) [OF pre]]
    ultimately have "bg_ok opt ?st" using bg_preD(4,5) [OF pre] False unfolding bg_ok_def by simp
    moreover have "bg_ok opt (postponeDue opt t st)" using False by (intro postpone_ok [OF pre]) simp
    ultimately show ?thesis using False Some by (simp add: runNext_def Let_def)
  qed
qed

lemma timer_fires_ok:
  assumes "bg_ok opt st"
  shows "bg_ok opt (timer_fires opt busy t st)"
proof -
  have pre: "bg_pre opt (st\<lparr>bg_timer := None\<rparr>)" using assms
    by (simp add: bg_ok_pre bg_pre_def notices_ok_cong [of "st\<lparr>bg_timer := None\<rparr>" st] run_fine_cong [of "st\<lparr>bg_timer := None\<rparr>" st])
  have "bg_ok opt (runNext opt busy t (st\<lparr>bg_timer := None\<rparr>))"
    by (rule runNext_ok [OF pre]) (auto simp: timer_fine_def)
  with assms show ?thesis by (simp add: timer_fires_def)
qed

section \<open>Requests\<close>

lemma wf_ok_queue: "queue_fine opt (bg_queue st) \<Longrightarrow> i \<in> set (queue_items st) \<Longrightarrow> conflicts sid files i \<Longrightarrow>
    map_get (fold (\<lambda>i. map_delete (qi_handle i)) (filter (conflicts sid files) (queue_items st)) (bg_queue st)) (qi_handle i) = None"
  by (auto simp: delete_all_get)

lemma enqueue_ok:
  assumes ok: "bg_ok opt st" and tries: "0 < bo_maxAttempts opt"
  shows "bg_ok opt (enqueue opt req t st)"
proof -
  let ?files = "uniq (map (pathKey opt) (bq_files req))"
  let ?older = "filter (conflicts (bq_session req) ?files) (queue_items st)"
  let ?q = "fold (\<lambda>i. map_delete (qi_handle i)) ?older (bg_queue st)"
  define st1 where "st1 = st\<lparr>bg_queue := ?q, bg_superseded := bg_superseded st + length ?older\<rparr>"
  define item where "item = \<lparr>qi_session = bq_session req, qi_handle = bq_handle req, qi_files = ?files, qi_attempts = 0, qi_deferrals = 0,
      qi_notBefore = t + bo_settleMs opt\<rparr>"
  define st2 where "st2 = enforceCap (put_item item st1)"
  have "bg_ok opt (if bg_running st2 = None then arm (t + bo_settleMs opt) st2 else st2)"
    if open': "\<not> bg_disposed st" and new: "map_get (bg_queue st) (bq_handle req) = None" "\<not> in_flight (bq_handle req) st"
  proof -
    note d = bg_okD [OF ok] and fine = bg_okD(1) [OF ok]
    have fine1: "queue_fine opt (bg_queue st1)" by (simp add: st1_def delete_all_fine [OF fine])
    have clear: "\<not> list_ex (conflicts (qi_session item) (qi_files item)) (queue_items st1)"
    proof
      assume "list_ex (conflicts (qi_session item) (qi_files item)) (queue_items st1)"
      then obtain j where j: "j \<in> set (queue_items st1)" "conflicts (bq_session req) ?files j" by (auto simp: list_ex_iff item_def)
      have got: "map_get ?q (qi_handle j) = Some j" using items_in [OF fine1] j(1) by (simp add: st1_def)
      then have "map_get (bg_queue st) (qi_handle j) = Some j" by (simp add: delete_all_get split: if_splits)
      with items_in [OF fine] have "j \<in> set (queue_items st)" by blast
      from wf_ok_queue [OF fine this j(2)] got show False by simp
    qed
    note put = put_capped [OF fine1 _ clear]
    have old: "map_get (bg_queue st2) h = Some j \<Longrightarrow> (if h = bq_handle req then j = item else map_get (bg_queue st) h = Some j)" for h j
      using put(3) [of h j] tries by (simp add: st2_def item_def st1_def delete_all_get split: if_splits)
    have f: "bg_running st2 = bg_running st" "bg_notices st2 = bg_notices st" "bg_count st2 = bg_count st" "bg_reported st2 = bg_reported st"
      "bg_disposed st2 = bg_disposed st" "bg_timer st2 = bg_timer st"
      by (simp_all add: st2_def st1_def)
    have q2: "queue_fine opt (bg_queue st2)" "length (bg_queue st2) \<le> BACKGROUND_QUEUE_MAX"
      using put(1,2) tries by (simp_all add: st2_def item_def)
    have nts: "notices_ok st2" using d(3) by (subst notices_ok_cong [of st2 st]) (simp_all add: f)
    have run: "run_fine opt st2"
    proof (cases "bg_running st")
      case (Some run)
      have "map_get (bg_queue st2) (qi_handle i) = None" if "i \<in> set (rn_items run)" for i
      proof -
        have "qi_handle i \<noteq> bq_handle req" using new(2) that Some by (auto simp: in_flight_def list_ex_iff)
        moreover have "map_get (bg_queue st) (qi_handle i) = None" using d(6) Some that by (simp add: run_fine_def)
        ultimately show ?thesis using old [of "qi_handle i"] by (cases "map_get (bg_queue st2) (qi_handle i)") auto
      qed
      with d(6) Some show ?thesis by (simp add: run_fine_def f)
    qed (simp add: run_fine_def f)
    have pre: "bg_pre opt st2" using q2 nts run d(4,5) open' by (simp add: bg_pre_def f)
    show ?thesis
    proof (cases "bg_running st")
      case None
      let ?a = "arm (t + bo_settleMs opt) st2"
      have "timer_fine ?a"
        unfolding timer_fine_def
      proof (intro impI ballI)
        fix i assume "i \<in> set (queue_items ?a)"
        then have "map_get (bg_queue st2) (qi_handle i) = Some i" using items_in [OF q2(1)] by (simp add: queue_items_def arm_fields)
        from old [OF this] have "i = item \<or> i \<in> set (queue_items st)" using items_in [OF fine, of i] by (auto split: if_splits)
        then show "\<exists>at'. bg_timer ?a = Some at' \<and> at' \<le> qi_notBefore i"
        proof
          assume "i = item"
          then have "qi_notBefore i = t + bo_settleMs opt" by (simp add: item_def)
          then show ?thesis using open' by (auto simp: arm_def f split: option.split)
        next
          assume "i \<in> set (queue_items st)"
          then obtain at' where "bg_timer st = Some at'" "at' \<le> qi_notBefore i" using d(7) open' None by (auto simp: timer_fine_def)
          then show ?thesis using open' by (auto simp: arm_def f)
        qed
      qed
      moreover have "bg_pre opt ?a"
        using pre open' by (simp add: bg_pre_def arm_fields f notices_ok_cong [of ?a st2] run_fine_cong [of ?a st2])
      ultimately show ?thesis using None by (simp add: bg_ok_pre f)
    next
      case (Some run)
      with pre show ?thesis by (simp add: bg_ok_pre timer_fine_def f)
    qed
  qed
  then show ?thesis
    using ok unfolding enqueue_def Let_def st2_def st1_def item_def by (auto simp: Let_def)
qed

section \<open>Notices\<close>

lemma remember_reported_ok: "bg_ok opt st \<Longrightarrow> bg_ok opt (remember_reported h st)"
  unfolding bg_ok_def
  by (simp add: remember_reported_def wf_remember length_remember notices_ok_cong [of "remember_reported h st" st, unfolded remember_reported_def]
      run_fine_cong [of "remember_reported h st" st, unfolded remember_reported_def] timer_fine_cong [of "remember_reported h st" st, unfolded remember_reported_def])

lemma notices_step_ok:
  assumes "bg_ok opt st" "notices_ok st'" "bg_disposed st' \<Longrightarrow> bg_notices st' = []" "bg_queue st' = bg_queue st" "bg_reported st' = bg_reported st"
    "bg_running st' = bg_running st" "bg_disposed st' = bg_disposed st" "bg_timer st' = bg_timer st"
  shows "bg_ok opt st'"
  using assms by (simp add: bg_ok_def run_fine_cong [of st' st] timer_fine_cong [of st' st])

lemma removeNotice_fields:
  "bg_queue (removeNotice s h q) = bg_queue q" "bg_reported (removeNotice s h q) = bg_reported q"
  "bg_running (removeNotice s h q) = bg_running q" "bg_disposed (removeNotice s h q) = bg_disposed q" "bg_timer (removeNotice s h q) = bg_timer q"
  by (simp_all add: removeNotice_def Let_def split: option.split)

lemma removeNotice_bg_ok:
  assumes "bg_ok opt st"
  shows "bg_ok opt (removeNotice sid h st)"
proof (rule notices_step_ok [OF assms])
  show "notices_ok (removeNotice sid h st)" by (rule removeNotice_ok [OF bg_okD(3) [OF assms]])
  show "bg_notices (removeNotice sid h st) = []" if "bg_disposed (removeNotice sid h st)"
    using that bg_okD(9) [OF assms] by (simp add: removeNotice_fields) (simp add: removeNotice_def)
qed (simp_all add: removeNotice_fields)

lemma fold_bg_ok: "(\<And>x st. bg_ok opt st \<Longrightarrow> bg_ok opt (f x st)) \<Longrightarrow> bg_ok opt st \<Longrightarrow> bg_ok opt (fold f xs st)"
  by (induction xs arbitrary: st) simp_all

lemma markReported_ok: "bg_ok opt st \<Longrightarrow> bg_ok opt (markReported handles st)"
  unfolding markReported_def Let_def
  by (rule fold_bg_ok) (intro fold_bg_ok removeNotice_bg_ok remember_reported_ok)

lemma drop_session_ok:
  assumes ok: "notices_ok st" and l: "map_get (bg_notices st) sid = Some l"
  shows "notices_ok (st\<lparr>bg_notices := map_delete sid (bg_notices st), bg_count := bg_count st - length l\<rparr>)"
proof -
  have fine: "notices_fine (\<lambda>_. LATE_NOTICES_PER_SESSION) st" and cap: "bg_count st \<le> LATE_NOTICES_MAX" using ok by (simp_all add: notices_ok_def)
  note d = notices_fineD [OF fine]
  have "total (bg_notices st) = length l + total (map_delete sid (bg_notices st))" by (rule total_delete [OF d(1) l])
  then have "bg_count st - length l = total (map_delete sid (bg_notices st))" using d(4) by simp
  moreover have "list_fine k \<and> length k \<le> LATE_NOTICES_PER_SESSION" if "map_get (map_delete sid (bg_notices st)) s = Some k" for s k
    using that d(2,3) by (simp add: map_get_delete split: if_splits)
  ultimately have "notices_fine (\<lambda>_. LATE_NOTICES_PER_SESSION) (st\<lparr>bg_notices := map_delete sid (bg_notices st), bg_count := bg_count st - length l\<rparr>)"
    using jm.wf_del [OF d(1), of sid] by (simp add: notices_fine_def)
  with cap show ?thesis by (simp add: notices_ok_def)
qed

lemma takeNotices_ok:
  assumes ok: "bg_ok opt st"
  shows "bg_ok opt (snd (takeNotices sid st))"
proof (cases "map_get (bg_notices st) sid")
  case (Some l)
  let ?st = "st\<lparr>bg_notices := map_delete sid (bg_notices st), bg_count := bg_count st - length l\<rparr>"
  have nts: "notices_ok ?st" by (rule drop_session_ok [OF bg_okD(3) [OF ok] Some])
  have nd: "\<not> bg_disposed st" using bg_okD(9) [OF ok] Some by auto
  have "bg_ok opt ?st" by (rule notices_step_ok [OF ok nts]) (simp_all add: nd)
  then have "bg_ok opt (fold (\<lambda>n. remember_reported (ln_handle n)) out ?st)" for out
    by (rule fold_bg_ok [rotated]) (rule remember_reported_ok)
  then show ?thesis by (simp add: takeNotices_def Some Let_def)
qed (use ok in \<open>simp add: takeNotices_def\<close>)

section \<open>Sessions, upkeep, disposal\<close>

lemma forget_bg_ok:
  assumes ok: "bg_ok opt st"
  shows "bg_ok opt (bg_forgetSession sid t st)"
proof -
  note d = bg_okD [OF ok] and wf = queue_fineD(1) [OF bg_okD(1) [OF ok]]
  define q where "q = filter (\<lambda>(_, i). qi_session i \<noteq> sid) (bg_queue st)"
  define st1 where "st1 = st\<lparr>bg_queue := q\<rparr>"
  define st2 where "st2 = (case map_get (bg_notices st1) sid of None \<Rightarrow> st1
      | Some l \<Rightarrow> st1\<lparr>bg_count := bg_count st1 - length l, bg_notices := map_delete sid (bg_notices st1)\<rparr>)"
  define st3 where "st3 = (case bg_running st2 of
      Some run \<Rightarrow> if rn_session run = sid then st2\<lparr>bg_running := Some (run\<lparr>rn_cancelled := True\<rparr>)\<rparr> else st2 | None \<Rightarrow> st2)"
  have wfq: "wf_map q" using wf by (auto simp: q_def wf_map_def distinct_map_filter)
  have q: "queue_fine opt q" by (rule queue_fine_sub [OF d(1) wfq]) (simp add: q_def filter_get [OF wf])
  have f: "bg_queue st3 = q" "bg_notices st3 = bg_notices st2" "bg_count st3 = bg_count st2" "bg_reported st3 = bg_reported st"
    "bg_disposed st3 = bg_disposed st" "bg_timer st3 = bg_timer st"
    by (simp_all add: st3_def st2_def st1_def split: option.split)
  have nts: "notices_ok st2"
  proof (cases "map_get (bg_notices st) sid")
    case None
    with d(3) show ?thesis by (simp add: st2_def st1_def notices_ok_cong [of "st\<lparr>bg_queue := q\<rparr>" st])
  next
    case (Some l)
    from drop_session_ok [OF d(3) Some]
    have "notices_ok (st\<lparr>bg_notices := map_delete sid (bg_notices st), bg_count := bg_count st - length l\<rparr>)" .
    with Some show ?thesis by (simp add: st2_def st1_def notices_ok_def notices_fine_def)
  qed
  then have nts3: "notices_ok st3" by (simp add: notices_ok_cong [of st3 st2] f)
  have run2: "bg_running st2 = bg_running st" "bg_queue st2 = q" by (simp_all add: st2_def st1_def split: option.split)
  have sub: "map_get q h = None" if "map_get (bg_queue st) h = None" for h
    using filter_get [OF wf, of "\<lambda>(_, i). qi_session i \<noteq> sid" h] that by (cases "map_get q h") (auto simp: q_def)
  have run: "run_fine opt st3"
    using d(6) sub by (cases "bg_running st") (auto simp: run_fine_def f st3_def run2)
  have "length q \<le> BACKGROUND_QUEUE_MAX" unfolding q_def by (rule le_trans [OF length_filter_le d(2)])
  moreover have "bg_notices st2 = []" if "bg_disposed st" using d(9) [OF that] by (simp add: st2_def st1_def)
  moreover have "q = []" if "bg_disposed st" using d(8) [OF that] by (simp add: q_def)
  ultimately have "bg_pre opt st3" using q nts3 run d(4,5,10) by (simp add: bg_pre_def f)
  from reschedule_ok [OF this, of t] show ?thesis unfolding bg_forgetSession_def Let_def st3_def st2_def st1_def q_def .
qed

lemma sweep_session_ok: "bg_ok opt (snd acc) \<Longrightarrow> bg_ok opt (snd (sweep_session opt' t p acc))"
proof -
  have "bg_ok opt (snd (fold (\<lambda>(h, _, at') (n, s). if t - at' < bo_ttlMs opt' then (n, s) else (n + 1, removeNotice (fst p) h s)) l acc))"
    if "bg_ok opt (snd acc)" for l acc
    using that by (induction l arbitrary: acc) (auto simp: removeNotice_bg_ok split_def)
  then show "bg_ok opt (snd acc) \<Longrightarrow> bg_ok opt (snd (sweep_session opt' t p acc))" by (simp add: sweep_session_def)
qed

lemma sweep_bg_ok:
  assumes "bg_ok opt st"
  shows "bg_ok opt (snd (bg_sweep opt' t st))"
proof -
  have "bg_ok opt (snd (fold (sweep_session opt' t) l acc))" if "bg_ok opt (snd acc)" for l acc
    using that by (induction l arbitrary: acc) (simp_all add: sweep_session_ok)
  from this [of "(0, st)" "bg_notices st"] assms have "bg_ok opt (snd (fold (sweep_session opt' t) (bg_notices st) (0, st)))" by simp
  then have "bg_pre opt (snd (fold (sweep_session opt' t) (bg_notices st) (0, st)))" by (simp add: bg_ok_pre)
  from reschedule_ok [OF this] show ?thesis by (simp add: bg_sweep_def split_def Let_def)
qed

lemma whenIdle_ok: "bg_ok opt st \<Longrightarrow> bg_ok opt (snd (whenIdle t st))"
  by (cases "bg_running st") (simp_all add: whenIdle_def bg_ok_def notices_ok_def notices_fine_def run_fine_def timer_fine_def queue_items_def)

lemma preempt_ok: "bg_ok opt st \<Longrightarrow> bg_ok opt (preempt st)"
  by (cases "bg_running st") (simp_all add: preempt_def bg_ok_def notices_ok_def notices_fine_def run_fine_def timer_fine_def queue_items_def)

lemma dispose_bg_ok: "bg_ok opt st \<Longrightarrow> bg_ok opt (bg_dispose st)"
  by (cases "bg_running st")
    (simp_all add: bg_dispose_def wakeIdle_def bg_ok_def notices_ok_def notices_fine_def run_fine_def timer_fine_def queue_items_def
      queue_fine_def total_def)

end
