(* ===== verification/Background_Spec.thy ===== *)
theory Background_Spec
  imports Background_Ops
begin

text \<open>
  Background verification over any sequence of its events: bounded queue and notices, disjoint work per session,
  no lost wake-up, retries that back off and end, and notices that are delivered once.
\<close>

section \<open>Sequences of events\<close>

datatype background_event =
    BgEnqueue background_request real
  | BgTimer bool real
  | BgFinish "background_outcome list" real
  | BgTake string
  | BgReported "string list"
  | BgForget string real
  | BgSweep real
  | BgWhenIdle real
  | BgPreempt
  | BgDispose

fun background_step :: "background_options \<Rightarrow> background_event \<Rightarrow> background \<Rightarrow> background" where
  "background_step opt (BgEnqueue req t) st = enqueue opt req t st"
| "background_step opt (BgTimer busy t) st = timer_fires opt busy t st"
| "background_step opt (BgFinish outcomes t) st = bg_finish opt outcomes t st"
| "background_step opt (BgTake sid) st = snd (takeNotices sid st)"
| "background_step opt (BgReported hs) st = markReported hs st"
| "background_step opt (BgForget sid t) st = bg_forgetSession sid t st"
| "background_step opt (BgSweep t) st = snd (bg_sweep opt t st)"
| "background_step opt (BgWhenIdle t) st = snd (whenIdle t st)"
| "background_step opt BgPreempt st = preempt st"
| "background_step opt BgDispose st = bg_dispose st"

definition run_background :: "background_options \<Rightarrow> background_event list \<Rightarrow> background" where
  "run_background opt evs = fold (background_step opt) evs emptyBackground"

lemma background_step_ok: "bg_ok opt st \<Longrightarrow> 0 < bo_maxAttempts opt \<Longrightarrow> bg_ok opt (background_step opt ev st)"
  by (cases ev) (simp_all add: enqueue_ok timer_fires_ok finish_bg_ok takeNotices_ok markReported_ok forget_bg_ok sweep_bg_ok whenIdle_ok
      preempt_ok dispose_bg_ok)

lemma run_background_ok: "0 < bo_maxAttempts opt \<Longrightarrow> bg_ok opt (run_background opt evs)"
  unfolding run_background_def by (rule fold_bg_ok [OF _ bg_ok_empty]) (simp add: background_step_ok)

lemma options_try: "0 < bo_maxAttempts (background_options_of ttl quiet base attempts win32)"
  by (simp add: background_options_of_def)

section \<open>Bounds and disjoint work\<close>

text \<open>The memory of background verification is bounded: after any events the queue, the run in flight, the notices of
  all sessions and of each session and the memo of reported handles are within their limits, and the notice counter is exact.\<close>

theorem background_within_bounds:
  shows "length (bg_queue (run_background (background_options_of ttl quiet base attempts win32) evs)) \<le> 128 \<and>
    (case bg_running (run_background (background_options_of ttl quiet base attempts win32) evs) of
       None \<Rightarrow> True | Some run \<Rightarrow> length (rn_items run) \<le> 32) \<and>
    bg_count (run_background (background_options_of ttl quiet base attempts win32) evs) \<le> 128 \<and>
    bg_count (run_background (background_options_of ttl quiet base attempts win32) evs) =
      sum_list (map (length \<circ> snd) (bg_notices (run_background (background_options_of ttl quiet base attempts win32) evs))) \<and>
    length (or_else (map_get (bg_notices (run_background (background_options_of ttl quiet base attempts win32) evs)) sid) []) \<le> 32 \<and>
    length (bg_reported (run_background (background_options_of ttl quiet base attempts win32) evs)) \<le> 512"
proof -
  let ?opt = "background_options_of ttl quiet base attempts win32"
  note d = bg_okD [OF run_background_ok [OF options_try, of ttl quiet base attempts win32 evs]]
  have fine: "notices_fine (\<lambda>_. LATE_NOTICES_PER_SESSION) (run_background ?opt evs)" "bg_count (run_background ?opt evs) \<le> LATE_NOTICES_MAX"
    using d(3) by (simp_all add: notices_ok_def)
  have "length (or_else (map_get (bg_notices (run_background ?opt evs)) sid) []) \<le> LATE_NOTICES_PER_SESSION"
    using notices_fineD(3) [OF fine(1)] by (cases "map_get (bg_notices (run_background ?opt evs)) sid") simp_all
  moreover have "case bg_running (run_background ?opt evs) of None \<Rightarrow> True | Some run \<Rightarrow> length (rn_items run) \<le> MAX_HANDLES_PER_CALL"
    using d(6) by (cases "bg_running (run_background ?opt evs)") (simp_all add: run_fine_def)
  ultimately show ?thesis using d(2,5) fine(2) notices_fineD(4) [OF fine(1)]
    by (simp split: option.splits add: BACKGROUND_QUEUE_MAX_def MAX_ENTRIES_GLOBAL_def MAX_HANDLES_PER_CALL_def MAX_ENTRIES_PER_SESSION_def LATE_NOTICES_MAX_def
        LATE_NOTICES_PER_SESSION_def REPORTED_MEMO_MAX_def TOMBSTONE_MAX_def total_def)
qed

text \<open>A newer delegation supersedes an older one on the same files: after any events no two queued requests of one session
  share a file, and no request is queued while a run verifies it.\<close>

theorem queued_work_is_disjoint:
  assumes "map_get (bg_queue (run_background (background_options_of ttl quiet base attempts win32) evs)) h = Some i"
    "map_get (bg_queue (run_background (background_options_of ttl quiet base attempts win32) evs)) k = Some j" "h \<noteq> k"
    "qi_session i = qi_session j"
  shows "set (qi_files i) \<inter> set (qi_files j) = {} \<and>
    \<not> in_flight h (run_background (background_options_of ttl quiet base attempts win32) evs)"
proof -
  let ?opt = "background_options_of ttl quiet base attempts win32"
  note d = bg_okD [OF run_background_ok [OF options_try, of ttl quiet base attempts win32 evs]]
  have "apart i j" by (rule queue_fineD(4) [OF d(1) assms(1-3)])
  moreover have "\<not> in_flight h (run_background ?opt evs)"
    using d(6) assms(1) by (cases "bg_running (run_background ?opt evs)") (auto simp: in_flight_def run_fine_def list_ex_iff)
  ultimately show ?thesis using assms(4) by (simp add: apart_def)
qed

definition sample_bg :: background_options where
  "sample_bg = background_options_of 1000 (Some 10) (Some 100) (Some 3) False"

definition sample_requests :: "background_event list" where
  "sample_requests = [BgEnqueue \<lparr>bq_session = ''s'', bq_handle = ''h1'', bq_files = [''a'']\<rparr> 0,
     BgEnqueue \<lparr>bq_session = ''s'', bq_handle = ''h2'', bq_files = [''b'']\<rparr> 5]"

definition sample_item :: "string \<Rightarrow> string \<Rightarrow> real \<Rightarrow> queued_item" where
  "sample_item h f due = \<lparr>qi_session = ''s'', qi_handle = h, qi_files = [f], qi_attempts = 0, qi_deferrals = 0, qi_notBefore = due\<rparr>"

lemma sample_opts: "bo_settleMs sample_bg = 10" "bo_retryBaseMs sample_bg = 100" "bo_maxAttempts sample_bg = 3" "bo_foldCase sample_bg = False"
  by (simp_all add: sample_bg_def background_options_of_def)

lemma sample_queue:
  "run_background sample_bg sample_requests =
     emptyBackground\<lparr>bg_queue := [(''h1'', sample_item ''h1'' ''a'' 10), (''h2'', sample_item ''h2'' ''b'' 15)], bg_timer := Some 10\<rparr>"
  by (simp add: run_background_def sample_requests_def enqueue_def emptyBackground_def Let_def pathKey_def sample_opts queue_items_def
      put_item_def enforceCap_def arm_def in_flight_def evict_oldest.simps BACKGROUND_QUEUE_MAX_def MAX_ENTRIES_GLOBAL_def sample_item_def
      conflicts_def overlaps_def)

theorem queued_work_is_disjoint_witness:
  "set (qi_files (sample_item ''h1'' ''a'' 10)) \<inter> set (qi_files (sample_item ''h2'' ''b'' 15)) = {}"
  using queued_work_is_disjoint [of 1000 "Some 10" "Some 100" "Some 3" False sample_requests "''h1''" "sample_item ''h1'' ''a'' 10" "''h2''"
      "sample_item ''h2'' ''b'' 15", folded sample_bg_def]
  by (simp add: sample_queue sample_item_def)

section \<open>Progress\<close>

lemma timer_starts:
  assumes "bg_timer st = Some armed" "\<not> bg_disposed st" "bg_running st = None" "first_due t (queue_items st) None = Some lead"
  shows "bg_running (timer_fires opt False t st) =
    Some \<lparr>rn_session = qi_session lead, rn_items = run_batch t lead st, rn_cancelled = False, rn_preempted = False\<rparr>"
proof -
  have "first_due t (queue_items (st\<lparr>bg_timer := None\<rparr>)) None = Some lead" using assms(4) by (simp add: queue_items_def)
  moreover have "run_batch t lead (st\<lparr>bg_timer := None\<rparr>) = run_batch t lead st" by (simp add: run_batch_def queue_items_def)
  ultimately show ?thesis using assms(1-3) by (simp add: timer_fires_def runNext_def Let_def)
qed

text \<open>(C19) Background verification never stalls: after any events, while no run is in flight the timer is armed no later than
  any queued request is due, and when it fires once a request is due, with no foreground verification running, a run starts and
  takes a request that was due no later.\<close>

theorem background_never_stalls:
  assumes "\<not> bg_disposed (run_background (background_options_of ttl quiet base attempts win32) evs)"
    "bg_running (run_background (background_options_of ttl quiet base attempts win32) evs) = None"
    "map_get (bg_queue (run_background (background_options_of ttl quiet base attempts win32) evs)) h = Some i" "qi_notBefore i \<le> t"
  shows "\<exists>armed run lead. bg_timer (run_background (background_options_of ttl quiet base attempts win32) evs) = Some armed \<and>
    armed \<le> qi_notBefore i \<and>
    bg_running (timer_fires (background_options_of ttl quiet base attempts win32) False t
      (run_background (background_options_of ttl quiet base attempts win32) evs)) = Some run \<and>
    lead \<in> set (rn_items run) \<and> qi_notBefore lead \<le> qi_notBefore i"
proof -
  let ?opt = "background_options_of ttl quiet base attempts win32" let ?st = "run_background ?opt evs"
  note d = bg_okD [OF run_background_ok [OF options_try, of ttl quiet base attempts win32 evs]]
  have i: "i \<in> set (queue_items ?st)" using items_in [OF d(1)] queue_fineD(2) [OF d(1) assms(3)] assms(3) by simp
  then obtain armed where armed: "bg_timer ?st = Some armed" "armed \<le> qi_notBefore i" using d(7) assms(1,2) by (auto simp: timer_fine_def)
  obtain lead where lead: "first_due t (queue_items ?st) None = Some lead" using first_due_some [OF i assms(4), of None] by auto
  have mem: "lead \<in> set (queue_items ?st)" using first_due_mem [OF lead] by simp
  have "bg_running (timer_fires ?opt False t ?st) =
      Some \<lparr>rn_session = qi_session lead, rn_items = run_batch t lead ?st, rn_cancelled = False, rn_preempted = False\<rparr>"
    by (rule timer_starts [OF armed(1) assms(1,2) lead])
  moreover have "lead \<in> set (run_batch t lead ?st)" by (rule batch_facts(4) [OF d(1) mem])
  moreover have "qi_notBefore lead \<le> qi_notBefore i" by (rule first_due_least [OF lead i assms(4)])
  ultimately show ?thesis using armed by (intro exI [of _ armed] exI [of _ "\<lparr>rn_session = qi_session lead, rn_items = run_batch t lead ?st,
      rn_cancelled = False, rn_preempted = False\<rparr>"] exI [of _ lead]) simp
qed

theorem background_never_stalls_witness:
  "bg_running (timer_fires sample_bg False 20 (run_background sample_bg sample_requests)) \<noteq> None"
  using background_never_stalls [of 1000 "Some 10" "Some 100" "Some 3" False sample_requests "''h1''" "sample_item ''h1'' ''a'' 10" 20,
      folded sample_bg_def]
  by (simp add: sample_queue emptyBackground_def sample_item_def) blast

text \<open>A failed background run is never a hot loop: a request put back into the queue had no conflicting newer request, comes
  due at least one backoff base later, doubling with every try up to the cap, and a counted try never reaches the limit.\<close>

theorem retries_back_off:
  assumes "0 \<le> bo_retryBaseMs opt" "qi_attempts i < bo_maxAttempts opt" "queue_fine opt (bg_queue st)"
    "map_get (bg_queue st) (qi_handle i) = None" "map_get (bg_queue (retry opt i counted t st)) (qi_handle i) = Some j"
  shows "qi_attempts j + qi_deferrals j = qi_attempts i + qi_deferrals i + 1 \<and> qi_attempts j < bo_maxAttempts opt \<and>
    qi_attempts j = (if counted then qi_attempts i + 1 else qi_attempts i) \<and>
    qi_notBefore j = t + bo_retryBaseMs opt * 2 ^ min (qi_attempts i + qi_deferrals i) 5 \<and> t + bo_retryBaseMs opt \<le> qi_notBefore j"
proof -
  let ?a = "if counted then qi_attempts i + 1 else qi_attempts i" and ?d = "if counted then qi_deferrals i else qi_deferrals i + 1"
  let ?i = "i\<lparr>qi_attempts := ?a, qi_deferrals := ?d, qi_notBefore := backoffFrom opt t ?a ?d\<rparr>"
  have go: "\<not> (counted \<and> bo_maxAttempts opt \<le> ?a)" "\<not> list_ex (conflicts (qi_session i) (qi_files i)) (queue_items st)"
    using assms(4,5) unfolding retry_def Let_def by (auto split: if_splits)
  have "retry opt i counted t st = enforceCap (put_item ?i st)" unfolding retry_def Let_def using go by (simp only: if_False)
  moreover have "qi_attempts ?i < bo_maxAttempts opt" using go(1) assms(2) by (auto split: if_splits)
  moreover have "\<not> list_ex (conflicts (qi_session ?i) (qi_files ?i)) (queue_items st)" using go(2) by simp
  ultimately have j: "j = ?i" "qi_attempts ?i < bo_maxAttempts opt" using put_capped(3) [OF assms(3), of ?i "qi_handle i" j] assms(5) by simp_all
  have nb: "backoffFrom opt t ?a ?d = t + bo_retryBaseMs opt * 2 ^ min (qi_attempts i + qi_deferrals i) 5"
    by (simp add: backoffFrom_def BACKGROUND_MAX_BACKOFF_STEPS_def)
  have "bo_retryBaseMs opt * 1 \<le> bo_retryBaseMs opt * 2 ^ min (qi_attempts i + qi_deferrals i) 5"
    by (rule mult_left_mono) (use assms(1) in \<open>simp_all add: one_le_power\<close>)
  with j nb show ?thesis by simp
qed

theorem retries_back_off_witness:
  "bo_retryBaseMs sample_bg \<le> qi_notBefore ((sample_item ''h1'' ''a'' 10)\<lparr>qi_attempts := 1, qi_notBefore := 100\<rparr>)"
  using retries_back_off [of sample_bg "sample_item ''h1'' ''a'' 10" emptyBackground True 0 "(sample_item ''h1'' ''a'' 10)\<lparr>qi_attempts := 1, qi_notBefore := 100\<rparr>"]
  by (simp add: sample_opts sample_item_def queue_fine_def emptyBackground_def retry_def Let_def queue_items_def put_item_def enforceCap_def
      evict_oldest.simps BACKGROUND_QUEUE_MAX_def MAX_ENTRIES_GLOBAL_def backoffFrom_def BACKGROUND_MAX_BACKOFF_STEPS_def)

section \<open>Notices are delivered once\<close>

lemma fold_remember_recent:
  assumes "wf_map m" "recent k S m" "finite S" "card (S \<union> set hs) < mx"
  shows "map_get (fold (\<lambda>h. remember h () mx) hs m) k \<noteq> None"
  using assms
proof (induction hs arbitrary: m S)
  case Nil
  then show ?case by (simp add: recent_get)
next
  case (Cons j hs)
  have wf: "wf_map (remember j () mx m)" by (rule wf_remember [OF Cons.prems(1)])
  have "finite (S \<union> set (j # hs))" using Cons.prems(3) by simp
  then have "card (insert j S) \<le> card (S \<union> set (j # hs))" by (rule card_mono) auto
  with Cons.prems(4) have small: "card (insert j S) < mx" by linarith
  have eq: "insert j S \<union> set hs = S \<union> set (j # hs)" by auto
  have "recent k (insert j S) (remember j () mx m)"
  proof (cases "j = k")
    case True
    then show ?thesis using recent_remember_same [OF Cons.prems(1), of mx k "insert j S" "()"] small by auto
  next
    case False
    then show ?thesis using recent_remember [OF Cons.prems(1,2) _ Cons.prems(3) small] by simp
  qed
  from Cons.IH [OF wf this] Cons.prems(3,4) show ?case by (simp add: eq)
qed

lemma fold_remember_mem:
  assumes "wf_map m" "length hs < mx" "k \<in> set hs"
  shows "map_get (fold (\<lambda>h. remember h () mx) hs m) k \<noteq> None"
proof -
  obtain as bs where hs: "hs = as @ k # bs" using assms(3) by (auto simp: in_set_conv_decomp)
  have wf: "wf_map (fold (\<lambda>h. remember h () mx) as m)" for as
    using assms(1) by (induction as arbitrary: m) (simp_all add: wf_remember)
  have "card (set bs) \<le> length bs" by (rule card_length)
  then have "card ({} \<union> set bs) < mx" using assms(2) by (simp add: hs)
  moreover have "recent k {} (remember k () mx (fold (\<lambda>h. remember h () mx) as m))"
    by (rule recent_remember_same [OF wf]) (use assms(2) in linarith)
  ultimately show ?thesis
    using fold_remember_recent [OF wf_remember [OF wf], of k "{}"] by (simp add: hs)
qed

lemma fold_reported:
  "bg_reported (fold (\<lambda>n. remember_reported (f n)) ns st) = fold (\<lambda>h. remember h () REPORTED_MEMO_MAX) (map f ns) (bg_reported st)"
  by (induction ns arbitrary: st) (simp_all add: remember_reported_def)

text \<open>A late notice is delivered at most once: right after a session has read its notices, a further verdict of any of their
  handles leaves no new notice, whatever session it is filed under.\<close>

theorem notice_delivered_once:
  assumes "n \<in> set (fst (takeNotices sid (run_background (background_options_of ttl quiet base attempts win32) evs)))"
    "ln_handle n' = ln_handle n"
  shows "addNotice sid' n' t (snd (takeNotices sid (run_background (background_options_of ttl quiet base attempts win32) evs))) =
    snd (takeNotices sid (run_background (background_options_of ttl quiet base attempts win32) evs))"
proof -
  let ?st = "run_background (background_options_of ttl quiet base attempts win32) evs"
  note d = bg_okD [OF run_background_ok [OF options_try, of ttl quiet base attempts win32 evs]]
  obtain l where l: "map_get (bg_notices ?st) sid = Some l" using assms(1) by (cases "map_get (bg_notices ?st) sid") (simp_all add: takeNotices_def)
  let ?out = "map (fst \<circ> snd) l"
  have fine: "notices_fine (\<lambda>_. LATE_NOTICES_PER_SESSION) ?st" using d(3) by (simp add: notices_ok_def)
  have len: "length (map ln_handle ?out) < REPORTED_MEMO_MAX"
    using notices_fineD(3) [OF fine l]
    by (simp add: LATE_NOTICES_PER_SESSION_def MAX_ENTRIES_PER_SESSION_def REPORTED_MEMO_MAX_def TOMBSTONE_MAX_def)
  have "n \<in> set ?out" using assms(1) by (simp add: takeNotices_def l Let_def)
  then have mem: "ln_handle n \<in> set (map ln_handle ?out)" unfolding set_map by (rule imageI)
  have "map_get (bg_reported (snd (takeNotices sid ?st))) (ln_handle n) \<noteq> None"
    using fold_remember_mem [OF d(4) len mem] by (simp add: takeNotices_def l Let_def fold_reported)
  then show ?thesis using assms(2) by (simp add: addNotice_def)
qed

definition sample_verdict :: settled_verification where
  "sample_verdict = \<lparr>sv_result = \<lparr>vr_verdict = plain_verdict False MethodDeterministic [''r''], vr_retryable = False, vr_introduced = Some [''t''],
     vr_driftedPaths = None, vr_nextTier = None, vr_background = True\<rparr>, sv_handle = ''h1'', sv_settledAt = 30\<rparr>"

definition sample_notice :: late_notice where
  "sample_notice = \<lparr>ln_handle = ''h1'', ln_description = ''d'', ln_introduced = [''t''], ln_outcome = OutFail, ln_reason = Some ''r''\<rparr>"

lemma sample_delivered:
  "fst (takeNotices ''s'' (run_background sample_bg (sample_requests @ [BgTimer False 10, BgFinish [Judged ''h1'' ''d'' sample_verdict, Gone ''h2''] 30]))) =
     [sample_notice]"
proof -
  have fired: "timer_fires sample_bg False 10 (run_background sample_bg sample_requests) =
      emptyBackground\<lparr>bg_runs := 1, bg_running := Some \<lparr>rn_session = ''s'', rn_items = [sample_item ''h1'' ''a'' 10, sample_item ''h2'' ''b'' 15],
        rn_cancelled = False, rn_preempted = False\<rparr>\<rparr>"
    by (simp add: sample_queue timer_fires_def runNext_def emptyBackground_def queue_items_def sample_item_def run_batch_def isFresh_def
        MAX_HANDLES_PER_CALL_def MAX_ENTRIES_PER_SESSION_def map_delete_def Let_def)
  have notice: "lateNoticeFor ''h1'' ''d'' (sv_result sample_verdict) = Some sample_notice"
  proof -
    have "not_blank ''r''" by code_simp
    then show ?thesis by (simp add: lateNoticeFor_def sample_verdict_def plain_verdict_def outcome_of_def sample_notice_def Let_def)
  qed
  have j: "\<not> vr_retryable (sv_result sample_verdict)" by (simp add: sample_verdict_def)
  have run: "run_background sample_bg (sample_requests @ [e1, e2]) =
      background_step sample_bg e2 (background_step sample_bg e1 (run_background sample_bg sample_requests))" for e1 e2
    by (simp add: run_background_def)
  show ?thesis
    unfolding run background_step.simps fired
    by (simp add: bg_finish_def apply_run_def apply_one_def outcome_for_def notice j emptyBackground_def addNotice_def Let_def
        LATE_NOTICES_PER_SESSION_def MAX_ENTRIES_PER_SESSION_def LATE_NOTICES_MAX_def MAX_ENTRIES_GLOBAL_def reschedule_fields takeNotices_def
        sample_item_def sample_notice_def)
qed

theorem notice_delivered_once_witness:
  "addNotice ''s'' sample_notice 40 (snd (takeNotices ''s'' (run_background sample_bg
     (sample_requests @ [BgTimer False 10, BgFinish [Judged ''h1'' ''d'' sample_verdict, Gone ''h2''] 30])))) =
   snd (takeNotices ''s'' (run_background sample_bg
     (sample_requests @ [BgTimer False 10, BgFinish [Judged ''h1'' ''d'' sample_verdict, Gone ''h2''] 30])))"
  unfolding sample_bg_def
  by (rule notice_delivered_once [where n = sample_notice]) (simp_all add: sample_delivered [unfolded sample_bg_def])

end
