(* ===== verification/Js_Regex.thy ===== *)
theory Js_Regex
  imports Js_Text
begin

text \<open>
  Regular expressions as the sources run them: a backtracking matcher that lists the ends of the matches at
  a position in the order the engine tries them, so the first one is the match. Quantified character
  classes are greedy (or lazy where the source says so); the case flag is part of the text nodes. On top of
  it the replacement of all matches, \<^verbatim>\<open>s.replace(/prefix body/g, "$1...")\<close>, and the redaction of
  secrets of \<^verbatim>\<open>src/guard/scrub.ts\<close>, through which every reason text of the verification passes. Texts
  are of 8-bit characters.
\<close>

section \<open>Expressions and matches\<close>

datatype rx =
    One "char \<Rightarrow> bool"            \<comment> \<open>a character class\<close>
  | Lit string                    \<comment> \<open>text, as written\<close>
  | LitI string                   \<comment> \<open>lower-case text, matched without regard to case\<close>
  | Run "char \<Rightarrow> bool" nat "nat option"    \<comment> \<open>class \<open>{least, most}\<close>, greedy; \<open>None\<close>: no upper bound\<close>
  | Lazy "char \<Rightarrow> bool"           \<comment> \<open>class \<open>*?\<close>\<close>
  | WordB                         \<comment> \<open>\<open>\b\<close>\<close>
  | TextStart | LineStart | TextEnd
  | Maybe rx                      \<comment> \<open>greedy \<open>?\<close>\<close>
  | Either rx rx
  | Chain rx rx

definition Many :: "(char \<Rightarrow> bool) \<Rightarrow> rx" where "Many P = Run P 0 None"
definition Some_of :: "(char \<Rightarrow> bool) \<Rightarrow> rx" where "Some_of P = Run P 1 None"
definition AtLeast :: "nat \<Rightarrow> (char \<Rightarrow> bool) \<Rightarrow> rx" where "AtLeast n P = Run P n None"

text \<open>The positions after 0, 1, 2, \<dots> characters of the class, at most \<open>most\<close> of them.\<close>

fun run_from :: "(char \<Rightarrow> bool) \<Rightarrow> nat option \<Rightarrow> text_pos \<Rightarrow> text_pos list" where
  "run_from P most (p, []) = [(p, [])]"
| "run_from P most (p, c # cs) =
     (p, c # cs) #
     (if most \<noteq> Some 0 \<and> P c then run_from P (map_option (\<lambda>n. n - 1) most) (Some c, cs) else [])"

fun line_start :: "text_pos \<Rightarrow> bool" where
  "line_start (None, s) = True"
| "line_start (Some c, s) = (c = CHR 0x0A \<or> c = CHR 0x0D)"

fun rx_ends :: "rx \<Rightarrow> text_pos \<Rightarrow> text_pos list" where
  "rx_ends (One P) (p, s) = (case s of [] \<Rightarrow> [] | c # cs \<Rightarrow> if P c then [(Some c, cs)] else [])"
| "rx_ends (Lit t) (p, s) =
     (if t = [] then [(p, s)] else if is_prefix t s then [(Some (last t), drop (length t) s)] else [])"
| "rx_ends (LitI t) (p, s) =
     (if t = [] then [(p, s)]
      else if is_prefix t (to_lower s) then [(Some (s ! (length t - 1)), drop (length t) s)] else [])"
| "rx_ends (Run P least most) pos = rev (drop least (run_from P most pos))"
| "rx_ends (Lazy P) pos = run_from P None pos"
| "rx_ends WordB pos = (if boundary pos then [pos] else [])"
| "rx_ends TextStart pos = (if fst pos = None then [pos] else [])"
| "rx_ends LineStart pos = (if line_start pos then [pos] else [])"
| "rx_ends TextEnd pos = (if snd pos = [] then [pos] else [])"
| "rx_ends (Maybe r) pos = rx_ends r pos @ [pos]"
| "rx_ends (Either r1 r2) pos = rx_ends r1 pos @ rx_ends r2 pos"
| "rx_ends (Chain r1 r2) pos = concat (map (rx_ends r2) (rx_ends r1 pos))"

fun chain :: "rx list \<Rightarrow> rx" where
  "chain [] = Lit []"
| "chain [r] = r"
| "chain (r # rs) = Chain r (chain rs)"

fun either :: "rx list \<Rightarrow> rx" where
  "either [] = One (\<lambda>_. False)"
| "either [r] = r"
| "either (r # rs) = Either r (either rs)"

text \<open>\<^verbatim>\<open>re.test(s)\<close>: some position has a match.\<close>

fun rx_search :: "rx \<Rightarrow> char option \<Rightarrow> string \<Rightarrow> bool" where
  "rx_search r p [] \<longleftrightarrow> rx_ends r (p, []) \<noteq> []"
| "rx_search r p (c # cs) \<longleftrightarrow> rx_ends r (p, c # cs) \<noteq> [] \<or> rx_search r (Some c) cs"

definition rx_test :: "rx \<Rightarrow> string \<Rightarrow> bool" where
  "rx_test r s = rx_search r None s"

text \<open>Whether there is a match at a position, by the shape of the expression.\<close>

definition matches_at :: "rx \<Rightarrow> text_pos \<Rightarrow> bool" where
  "matches_at r pos \<longleftrightarrow> rx_ends r pos \<noteq> []"

lemma matches_either: "matches_at (Either a b) pos \<longleftrightarrow> matches_at a pos \<or> matches_at b pos"
  by (auto simp: matches_at_def)

lemma matches_chain: "matches_at (Chain a b) pos \<longleftrightarrow> (\<exists>m\<in>set (rx_ends a pos). matches_at b m)"
  by (auto simp: matches_at_def)

lemma matches_chain_either: "matches_at (Chain (Either a b) r) pos \<longleftrightarrow> matches_at (Chain a r) pos \<or> matches_at (Chain b r) pos"
  by (auto simp: matches_chain)

lemma matches_chain_start: "matches_at (Chain TextStart r) pos \<longleftrightarrow> fst pos = None \<and> matches_at r pos"
  by (auto simp: matches_chain)

lemma matches_chain_litI:
  "a \<noteq> [] \<Longrightarrow> matches_at (Chain (LitI a) r) (p, s) \<longleftrightarrow>
     is_prefix a (to_lower s) \<and> matches_at r (Some (s ! (length a - 1)), drop (length a) s)"
  by (auto simp: matches_chain)

lemma matches_litI: "a \<noteq> [] \<Longrightarrow> matches_at (LitI a) (p, s) \<longleftrightarrow> is_prefix a (to_lower s)"
  by (simp add: matches_at_def)

lemma matches_end: "matches_at TextEnd pos \<longleftrightarrow> snd pos = []"
  by (simp add: matches_at_def)

lemmas matches_simps = matches_either matches_chain_either matches_chain_start matches_chain_litI matches_litI matches_end

text \<open>An expression that starts at the text's start is tried once.\<close>

lemma anchored_test:
  assumes "\<And>pos. fst pos \<noteq> None \<Longrightarrow> \<not> matches_at r pos"
  shows "rx_test r s \<longleftrightarrow> matches_at r (None, s)"
proof -
  have "\<not> rx_search r (Some c) t" for c t
    by (induction t arbitrary: c) (use assms in \<open>simp_all add: matches_at_def\<close>)
  then show ?thesis by (cases s) (simp_all add: rx_test_def matches_at_def)
qed

lemma lower_drop: "to_lower (drop n s) = drop n (to_lower s)"
  by (simp add: to_lower_def drop_map)

lemma lower_empty: "drop n s = [] \<longleftrightarrow> drop n (to_lower s) = []"
  by (simp add: to_lower_def)

text \<open>The prefix and the whole of the first match at a position.\<close>

definition match_at :: "rx \<Rightarrow> rx \<Rightarrow> text_pos \<Rightarrow> (text_pos \<times> text_pos) option" where
  "match_at pre body pos =
     (case concat (map (\<lambda>m. map (Pair m) (rx_ends body m)) (rx_ends pre pos)) of [] \<Rightarrow> None | x # _ \<Rightarrow> Some x)"

text \<open>
  \<^verbatim>\<open>s.replace(/(pre)body/g, "$1" + mark)\<close>, from a position: the prefix of the match stays, the body is
  replaced, and the scan goes on behind the match. The expressions of the source never match the empty
  text; an empty match leaves the character in place.
\<close>

function replace_from :: "rx \<Rightarrow> rx \<Rightarrow> string \<Rightarrow> char option \<Rightarrow> string \<Rightarrow> string" where
  "replace_from pre body mark p s =
     (case s of [] \<Rightarrow> []
      | c # cs \<Rightarrow>
          (case match_at pre body (p, s) of
             None \<Rightarrow> c # replace_from pre body mark (Some c) cs
           | Some (m, e) \<Rightarrow>
               if length (snd e) < length s
               then take (length s - length (snd m)) s @ mark @ replace_from pre body mark (fst e) (snd e)
               else c # replace_from pre body mark (Some c) cs))"
  by pat_completeness auto
termination by (relation "measure (\<lambda>(_, _, _, _, s). length s)") auto

declare replace_from.simps [simp del]

definition replace_all :: "rx \<Rightarrow> rx \<Rightarrow> string \<Rightarrow> string \<Rightarrow> string" where
  "replace_all pre body mark s = replace_from pre body mark None s"

text \<open>A text without a match is unchanged.\<close>

lemma replace_from_no_match:
  assumes "\<not> rx_search (Chain pre body) p s"
  shows "replace_from pre body mark p s = s"
  using assms
proof (induction s arbitrary: p)
  case Nil
  then show ?case by (simp add: replace_from.simps)
next
  case (Cons c cs)
  then have "concat (map (\<lambda>m. map (Pair m) (rx_ends body m)) (rx_ends pre (p, c # cs))) = []"
    by simp
  then have "match_at pre body (p, c # cs) = None"
    unfolding match_at_def by (simp only: list.case)
  with Cons show ?case by (subst replace_from.simps) simp
qed

lemma replace_all_no_match:
  "\<not> rx_test (Chain pre body) s \<Longrightarrow> replace_all pre body mark s = s"
  by (simp add: replace_all_def rx_test_def replace_from_no_match)

text \<open>\<^verbatim>\<open>.replace(/[class]+/g, " ")\<close>.\<close>

fun squeeze :: "(char \<Rightarrow> bool) \<Rightarrow> string \<Rightarrow> string" where
  "squeeze P [] = []"
| "squeeze P (c # cs) =
     (if P c then (if cs \<noteq> [] \<and> P (hd cs) then squeeze P cs else CHR '' '' # squeeze P cs) else c # squeeze P cs)"

section \<open>Redaction of secrets\<close>

definition token_char :: "char \<Rightarrow> bool" where
  "token_char c \<longleftrightarrow> is_alpha c \<or> is_digit c \<or> c \<in> set ''_-''"

definition dotted_char :: "char \<Rightarrow> bool" where
  "dotted_char c \<longleftrightarrow> token_char c \<or> c = CHR ''.''"

definition quote_char :: "char \<Rightarrow> bool" where
  "quote_char c \<longleftrightarrow> c = CHR 0x27 \<or> c = CHR 0x22"

definition alnum :: "char \<Rightarrow> bool" where
  "alnum c \<longleftrightarrow> is_alpha c \<or> is_digit c"

definition upper_alnum :: "char \<Rightarrow> bool" where
  "upper_alnum c \<longleftrightarrow> is_digit c \<or> (CHR ''A'' \<le> c \<and> c \<le> CHR ''Z'')"

definition KEYVALUE_PREFIX :: rx where
  "KEYVALUE_PREFIX =
     chain [WordB,
       either [chain [LitI ''api'', Maybe (One (\<lambda>c. c \<in> set ''_-'')), LitI ''key''], LitI ''apikey'', LitI ''secret'',
               LitI ''token'', LitI ''password'', LitI ''passwd'', LitI ''pwd'', LitI ''authorization''],
       WordB, Many is_space, One (\<lambda>c. c \<in> set '':=''), Many is_space]"

definition KEYVALUE_BODY :: rx where
  "KEYVALUE_BODY = chain [Maybe (One quote_char), AtLeast 6 dotted_char, Maybe (One quote_char)]"

definition TOKEN_PATTERNS :: "rx list" where
  "TOKEN_PATTERNS =
     [chain [WordB, Lit ''sk-ant-'', AtLeast 16 token_char],
      chain [WordB, Lit ''sk-'', AtLeast 20 token_char],
      chain [WordB, Lit ''gh'', One (\<lambda>c. c \<in> set ''posru''), Lit ''_'', AtLeast 20 alnum],
      chain [WordB, Lit ''AKIA'', Run upper_alnum 16 (Some 16), WordB],
      chain [WordB, Lit ''AIza'', AtLeast 20 token_char],
      chain [WordB, Lit ''xox'', One (\<lambda>c. c \<in> set ''baprs''), Lit ''-'', AtLeast 10 (\<lambda>c. alnum c \<or> c = CHR ''-'')],
      chain [WordB, Lit ''eyJ'', AtLeast 20 dotted_char],
      chain [WordB, LitI ''bearer'', Some_of is_space, Some_of dotted_char]]"

definition REDACTED :: string where "REDACTED = ''[REDACTED]''"

definition scrubText :: "string \<Rightarrow> string" where
  "scrubText input =
     foldl (\<lambda>out re. replace_all (Lit []) re REDACTED out)
       (replace_all KEYVALUE_PREFIX KEYVALUE_BODY REDACTED input) TOKEN_PATTERNS"

text \<open>Text in which no secret shape occurs passes unchanged.\<close>

lemma scrub_plain:
  assumes "\<not> rx_test (Chain KEYVALUE_PREFIX KEYVALUE_BODY) s"
    and "\<And>re. re \<in> set TOKEN_PATTERNS \<Longrightarrow> \<not> rx_test (Chain (Lit []) re) s"
  shows "scrubText s = s"
proof -
  have "foldl (\<lambda>out re. replace_all (Lit []) re REDACTED out) s res = s" if "set res \<subseteq> set TOKEN_PATTERNS" for res
    using that by (induction res) (auto simp: replace_all_no_match assms(2))
  then show ?thesis by (simp add: scrubText_def replace_all_no_match assms(1))
qed

end
