(* ===== verification/Dod.thy ===== *)
theory Dod
  imports Verify_Types Js_Regex
begin

text \<open>
  Definitions of done, \<^verbatim>\<open>src/verify/dod.ts\<close>: router directives and the task line, the \<^verbatim>\<open>[acceptance]\<close> block parser,
  normalisation, auto-inference and the criteria budget. Texts are Latin-1.
\<close>

section \<open>Criteria\<close>

definition CRITERIA_BUDGET_CHARS :: nat where "CRITERIA_BUDGET_CHARS = 4000"

fun fit_from :: "string list \<Rightarrow> nat \<Rightarrow> nat \<Rightarrow> string list \<times> nat" where
  "fit_from [] budget used = ([], 0)"
| "fit_from (c # cs) budget used =
     (if used + length c \<le> budget
      then (let (kept, omitted) = fit_from cs budget (used + length c) in (c # kept, omitted))
      else (let (kept, omitted) = fit_from cs budget used in (kept, omitted + 1)))"

definition fitCriteria :: "string list \<Rightarrow> string list \<times> nat" where
  "fitCriteria criteria = fit_from criteria CRITERIA_BUDGET_CHARS 0"

definition omittedCriteriaText :: "nat \<Rightarrow> string" where
  "omittedCriteriaText omitted =
     show_int (int omitted) @ '' '' @ (if omitted = 1 then ''criterion'' else ''criteria'') @ '' omitted''"

definition isCheckable :: "dod \<Rightarrow> bool" where
  "isCheckable d \<longleftrightarrow> dd_kind d \<noteq> DodNone \<and> (dd_checks d \<noteq> [] \<or> dd_criteria d \<noteq> [])"

section \<open>Directive lines\<close>

definition ROUTER_LINE_RE :: rx where
  "ROUTER_LINE_RE =
     either [chain [TextStart, LitI ''[router]''],
             chain [TextStart, LitI ''[route'', Maybe (chain [One is_space, Many (\<lambda>c. c \<noteq> CHR 0x5D)]), Lit '']'', TextEnd]]"

definition CAP_LINE_RE :: rx where
  "CAP_LINE_RE = chain [TextStart, LitI ''cap'', Many is_space, Lit '':'', Many is_space, either [Some_of is_digit, LitI ''none''],
     Many is_space, TextEnd]"

definition VERIFY_LINE_RE :: rx where
  "VERIFY_LINE_RE = chain [TextStart, Lit ''VERIFY:'', Many is_space, Some_of is_word_char, Many is_space, TextEnd]"

definition VERIFY_WAIT_LINE_RE :: rx where
  "VERIFY_WAIT_LINE_RE =
     chain [TextStart, Lit ''VERIFY_WAIT:'', Many is_space, Some_of (\<lambda>c. \<not> is_space c), Many is_space, TextEnd]"

definition REASON_LINE_RE :: rx where
  "REASON_LINE_RE = chain [TextStart, LitI ''reason'', Many is_space, Lit '':'']"

definition wrapper_char :: "char \<Rightarrow> bool" where
  "wrapper_char c \<longleftrightarrow> c \<in> set (CHR 0x60 # ''*_'')"

definition trailing_char :: "char \<Rightarrow> bool" where
  "trailing_char c \<longleftrightarrow> wrapper_char c \<or> c \<in> set ''.,;!''"

definition unwrapDirective :: "string \<Rightarrow> string" where
  "unwrapDirective line = trim (rev (dropWhile trailing_char (rev (dropWhile wrapper_char line))))"

definition isCapLine :: "string \<Rightarrow> bool" where
  "isCapLine line \<longleftrightarrow> rx_test CAP_LINE_RE (unwrapDirective line)"

definition isDirectiveLine :: "string \<Rightarrow> bool \<Rightarrow> bool" where
  "isDirectiveLine line hasCap \<longleftrightarrow>
     (let bare = unwrapDirective line in
      rx_test ROUTER_LINE_RE bare \<or> rx_test CAP_LINE_RE bare \<or> rx_test VERIFY_LINE_RE bare \<or>
      rx_test VERIFY_WAIT_LINE_RE bare \<or> (hasCap \<and> rx_test REASON_LINE_RE bare))"

section \<open>The task line\<close>

definition ends_sentence :: "char \<Rightarrow> bool" where
  "ends_sentence c \<longleftrightarrow> c \<in> set ''.!?''"

text \<open>The end of the last whole sentence within the budget; \<open>i\<close> characters are behind, \<open>kept\<close> is the end so far.\<close>

fun sentence_cut :: "nat \<Rightarrow> nat \<Rightarrow> nat \<Rightarrow> string \<Rightarrow> nat" where
  "sentence_cut budget i kept (c # d # cs) =
     (if ends_sentence c \<and> d = CHR '' ''
      then (if budget < i + 1 then kept else sentence_cut budget (i + 1) (i + 1) (d # cs))
      else sentence_cut budget (i + 1) kept (d # cs))"
| "sentence_cut budget i kept s = kept"

definition leadingSentences :: "string \<Rightarrow> nat \<Rightarrow> string" where
  "leadingSentences line budget = (if length line \<le> budget then line else take (sentence_cut budget 0 0 line) line)"

definition firstTaskLine :: "string \<Rightarrow> string" where
  "firstTaskLine txt =
     (let ls = map (\<lambda>l. squeeze is_space (trim l)) (split_on CHR 0x0A txt); hasCap = list_ex isCapLine ls in
      if txt = [] then []
      else (case List.find (\<lambda>l. l \<noteq> [] \<and> \<not> isDirectiveLine l hasCap) ls of None \<Rightarrow> [] | Some l \<Rightarrow> l))"

definition summarizeDispatch :: "string \<Rightarrow> nat \<Rightarrow> string" where
  "summarizeDispatch txt budget = (let l = firstTaskLine txt in if l = [] then [] else leadingSentences l budget)"

section \<open>Normalisation\<close>

definition dod_kind_of :: "check list \<Rightarrow> string list \<Rightarrow> dod_kind" where
  "dod_kind_of checks criteria = (if checks \<noteq> [] then DodDeterministic else if criteria \<noteq> [] then DodChecker else DodNone)"

definition trimmed_or_none :: "string option \<Rightarrow> string option" where
  "trimmed_or_none s = (case s of None \<Rightarrow> None | Some t \<Rightarrow> if trim t = [] then None else Some (trim t))"

definition normalizeDoD :: "dod \<Rightarrow> dod" where
  "normalizeDoD d =
     \<lparr>dd_kind = dod_kind_of (dd_checks d) (dd_criteria d), dd_checks = dd_checks d, dd_criteria = dd_criteria d,
      dd_deliverable = trimmed_or_none (dd_deliverable d), dd_source = dd_source d, dd_cwd = trimmed_or_none (dd_cwd d)\<rparr>"

section \<open>The acceptance block\<close>

definition tag_re :: "string \<Rightarrow> rx" where
  "tag_re open_bracket = chain [TextStart, Many is_space, Lit open_bracket, either [LitI ''acceptance'', LitI ''dod''], Lit '']'', Many is_space, TextEnd]"

definition OPEN_TAG_RE :: rx where "OPEN_TAG_RE = tag_re ''[''"
definition CLOSE_TAG_RE :: rx where "CLOSE_TAG_RE = tag_re ''[/''"

text \<open>The value behind \<^verbatim>\<open>key=\<close>: quoted text, or everything up to a space; and the rest.\<close>

definition kv_value :: "string \<Rightarrow> string \<times> string" where
  "kv_value r =
     (if r \<noteq> [] \<and> hd r = CHR 0x22 \<and> CHR 0x22 \<in> set (tl r)
      then (takeWhile (\<lambda>c. c \<noteq> CHR 0x22) (tl r), tl (dropWhile (\<lambda>c. c \<noteq> CHR 0x22) (tl r)))
      else (takeWhile (\<lambda>c. \<not> is_space c) r, dropWhile (\<lambda>c. \<not> is_space c) r))"

definition kv_at :: "string \<Rightarrow> (string \<times> string \<times> string) option" where
  "kv_at s =
     (let key = takeWhile is_word_char s; rest = dropWhile is_word_char s in
      if key = [] \<or> rest = [] \<or> hd rest \<noteq> CHR ''='' then None
      else (case kv_value (tl rest) of (v, rest') \<Rightarrow> Some (key, v, rest')))"

lemma kv_at_shorter: "kv_at s = Some (k, v, rest) \<Longrightarrow> length rest < length s"
proof -
  assume "kv_at s = Some (k, v, rest)"
  then have r: "dropWhile is_word_char s \<noteq> []" and kv: "kv_value (tl (dropWhile is_word_char s)) = (v, rest)"
    by (auto simp: kv_at_def Let_def split: if_splits prod.splits)
  have dw: "length (dropWhile P xs) \<le> length xs" for P and xs :: string by (rule length_dropWhile_le)
  have "length rest \<le> length (tl (dropWhile is_word_char s))"
    using kv dw [of _ "tl (dropWhile is_word_char s)"] dw [of "\<lambda>c. c \<noteq> CHR 0x22" "tl (tl (dropWhile is_word_char s))"]
    by (auto simp: kv_value_def split: if_splits)
  also have "\<dots> < length (dropWhile is_word_char s)" using r by simp
  also have "\<dots> \<le> length s" by (rule dw)
  finally show ?thesis .
qed

text \<open>The pairs in order; where a key repeats, the later one counts.\<close>

function parseKvPairs :: "string \<Rightarrow> (string \<times> string) list" where
  "parseKvPairs s =
     (case s of [] \<Rightarrow> []
      | c # cs \<Rightarrow>
          (case kv_at s of
             Some (k, v, rest) \<Rightarrow> (k, v) # parseKvPairs rest
           | None \<Rightarrow> parseKvPairs cs))"
  by pat_completeness auto
termination by (relation "measure length") (auto dest: kv_at_shorter)

declare parseKvPairs.simps [simp del]

definition kv_get :: "(string \<times> string) list \<Rightarrow> string \<Rightarrow> string option" where
  "kv_get pairs k = map_of (rev pairs) k"

fun check_kind_of :: "string \<Rightarrow> check_kind option" where
  "check_kind_of s =
     (if s = ''run'' then Some CkRun else if s = ''fileExists'' then Some CkFileExists
      else if s = ''schemaMatch'' then Some CkSchemaMatch else if s = ''testsPass'' then Some CkTestsPass
      else if s = ''buildPasses'' then Some CkBuildPasses else if s = ''lintClean'' then Some CkLintClean else None)"

text \<open>What a line of the block says.\<close>

definition parse_check :: "string \<Rightarrow> check option" where
  "parse_check rest =
     (let kindStr = takeWhile (\<lambda>c. \<not> is_space c) rest; pairs = parseKvPairs (drop (length kindStr + 1) rest) in
      map_option (\<lambda>k. \<lparr>ck_kind = k, ck_command = kv_get pairs ''command'', ck_expect = kv_get pairs ''expect'',
                      ck_path = kv_get pairs ''path'', ck_schema = kv_get pairs ''schema''\<rparr>) (check_kind_of kindStr))"

definition strip_quotes :: "string \<Rightarrow> string" where
  "strip_quotes s =
     (if 2 \<le> length s \<and> hd s \<in> {CHR 0x22, CHR 0x27} \<and> last s = hd s \<and> CHR 0x0D \<notin> set s then butlast (tl s) else s)"

definition block_line :: "dod \<Rightarrow> string \<Rightarrow> dod" where
  "block_line d raw =
     (let line = trim raw; lline = to_lower line; rest = (\<lambda>p. trim (drop (length p) line)) in
      if line = [] then d
      else if is_prefix ''check:'' lline then
        (case parse_check (rest ''check:'') of None \<Rightarrow> d | Some c \<Rightarrow> d\<lparr>dd_checks := dd_checks d @ [c]\<rparr>)
      else if is_prefix ''cwd:'' lline then
        (let r = trim (strip_quotes (rest ''cwd:'')) in if r = [] then d else d\<lparr>dd_cwd := Some r\<rparr>)
      else if is_prefix ''criteria:'' lline then
        (let r = rest ''criteria:'' in if r = [] then d else d\<lparr>dd_criteria := dd_criteria d @ [r]\<rparr>)
      else if is_prefix ''deliverable:'' lline then
        (let r = rest ''deliverable:'' in d\<lparr>dd_deliverable := (if r = [] then None else Some r)\<rparr>)
      else d)"

definition empty_dod :: "dod_source \<Rightarrow> dod" where
  "empty_dod source = \<lparr>dd_kind = DodNone, dd_checks = [], dd_criteria = [], dd_deliverable = None, dd_source = source, dd_cwd = None\<rparr>"

text \<open>The lines between the first opening tag and the first closing tag behind it.\<close>

definition block_lines :: "string list \<Rightarrow> string list option" where
  "block_lines ls =
     (let behind = tl (dropWhile (\<lambda>l. \<not> rx_test OPEN_TAG_RE l) ls) in
      if \<not> list_ex (rx_test OPEN_TAG_RE) ls \<or> \<not> list_ex (rx_test CLOSE_TAG_RE) behind then None
      else Some (takeWhile (\<lambda>l. \<not> rx_test CLOSE_TAG_RE l) behind))"

definition parseAcceptanceBlock :: "string \<Rightarrow> dod_source \<Rightarrow> dod option" where
  "parseAcceptanceBlock txt source =
     map_option (\<lambda>inner. normalizeDoD (foldl block_line (empty_dod source) inner)) (block_lines (split_on CHR 0x0A txt))"

definition parseDoDFromDispatch :: "string \<Rightarrow> dod option" where
  "parseDoDFromDispatch txt = parseAcceptanceBlock txt SrcExplicit"

definition parseDoDFromAnnotation :: "string \<Rightarrow> dod option" where
  "parseDoDFromAnnotation txt = parseAcceptanceBlock txt SrcAnnotation"

section \<open>Inference\<close>

record infer_hints =
  ih_test :: "string option"
  ih_build :: "string option"
  ih_lint :: "string option"
  ih_path :: "string option"

datatype task_category = CatBugfix | CatRefactor | CatWriteFile | CatImpl | CatTest | CatUnknown

definition word_of :: "string list \<Rightarrow> rx" where
  "word_of ws = chain [WordB, either (map Lit ws), WordB]"

definition hint_given :: "string option \<Rightarrow> bool" where
  "hint_given h \<longleftrightarrow> trimmed_or_none h \<noteq> None"

definition category_of :: "string \<Rightarrow> infer_hints \<Rightarrow> task_category" where
  "category_of txt h =
     (let lower = to_lower txt in
      if rx_test (word_of [''bug'', ''fix'', ''broken'', ''regression'', ''failing'']) lower then CatBugfix
      else if rx_test (word_of [''refactor'', ''rename'', ''extract'', ''restructure'', ''cleanup'', ''clean up'']) lower then CatRefactor
      else if rx_test (word_of [''write'', ''generate'', ''emit'', ''scaffold'']) lower \<and> hint_given (ih_path h) then CatWriteFile
      else if rx_test (word_of [''implement'', ''add'', ''feature'', ''create'', ''build'', ''endpoint'', ''function'', ''component'', ''fix'']) lower
      then CatImpl
      else if rx_test (word_of [''test'', ''spec'', ''coverage'']) lower then CatTest
      else CatUnknown)"

definition command_check :: "check_kind \<Rightarrow> string option \<Rightarrow> check list" where
  "command_check k h =
     (if hint_given h then [\<lparr>ck_kind = k, ck_command = h, ck_expect = None, ck_path = None, ck_schema = None\<rparr>] else [])"

definition inferred_checks :: "task_category \<Rightarrow> infer_hints \<Rightarrow> check list" where
  "inferred_checks cat h =
     (case cat of
        CatBugfix \<Rightarrow> command_check CkBuildPasses (ih_build h) @ command_check CkTestsPass (ih_test h)
      | CatImpl \<Rightarrow> command_check CkBuildPasses (ih_build h) @ command_check CkTestsPass (ih_test h)
      | CatRefactor \<Rightarrow> command_check CkBuildPasses (ih_build h) @ command_check CkLintClean (ih_lint h)
      | CatWriteFile \<Rightarrow>
          [\<lparr>ck_kind = CkFileExists, ck_command = None, ck_expect = None, ck_path = trimmed_or_none (ih_path h), ck_schema = None\<rparr>]
      | CatTest \<Rightarrow> command_check CkTestsPass (ih_test h)
      | CatUnknown \<Rightarrow> [])"

definition GENERIC_CRITERION :: string where
  "GENERIC_CRITERION = ''the delegated task is completed as described in the dispatch''"

definition inferred_criterion :: "string \<Rightarrow> string" where
  "inferred_criterion txt =
     (let l = firstTaskLine txt; summary = (if l = [] then [] else leadingSentences l CRITERIA_BUDGET_CHARS) in
      if summary \<noteq> [] then summary else if l \<noteq> [] then l else GENERIC_CRITERION)"

definition inferDoD :: "string \<Rightarrow> infer_hints \<Rightarrow> dod" where
  "inferDoD txt h =
     (let checks = inferred_checks (category_of txt h) h in
      normalizeDoD
        \<lparr>dd_kind = (if checks \<noteq> [] then DodDeterministic else DodChecker), dd_checks = checks,
         dd_criteria = (if checks = [] then [inferred_criterion txt] else []),
         dd_deliverable = trimmed_or_none (ih_path h), dd_source = SrcInferred, dd_cwd = None\<rparr>)"

section \<open>Properties\<close>

text \<open>
  Inference never leaves a dispatch unverifiable by construction: whatever the text and the hints, the inferred definition
  of done is checkable, deterministic exactly when a check could be inferred, and otherwise graded by one non-empty criterion.
\<close>

theorem inference_is_checkable:
  "isCheckable (inferDoD txt h) \<and> dd_source (inferDoD txt h) = SrcInferred \<and>
   (dd_kind (inferDoD txt h) = DodDeterministic \<longleftrightarrow> inferred_checks (category_of txt h) h \<noteq> []) \<and>
   (dd_kind (inferDoD txt h) = DodChecker \<longleftrightarrow> dd_criteria (inferDoD txt h) = [inferred_criterion txt]) \<and>
   inferred_criterion txt \<noteq> []"
  by (simp add: isCheckable_def inferDoD_def normalizeDoD_def dod_kind_of_def inferred_criterion_def GENERIC_CRITERION_def Let_def)

lemma sentence_cut_range:
  assumes "sentence_cut budget i kept s = n" and "kept \<le> i" and "kept \<le> budget"
  shows "n \<le> budget \<and> (n = kept \<or> (i < n \<and> n \<le> i + length s \<and> ends_sentence (s ! (n - i - 1))))"
  using assms
proof (induction budget i kept s rule: sentence_cut.induct)
  case (1 budget i kept c d cs)
  consider (over) "ends_sentence c \<and> d = CHR '' ''" "budget < i + 1"
    | (cut_here) "ends_sentence c \<and> d = CHR '' ''" "i + 1 \<le> budget"
    | (go_on) "\<not> (ends_sentence c \<and> d = CHR '' '')" by linarith
  then show ?case
  proof cases
    case over
    then show ?thesis using 1 by simp
  next
    case cut_here
    then have ih: "n \<le> budget \<and> (n = i + 1 \<or> (i + 1 < n \<and> n \<le> i + 1 + length (d # cs) \<and> ends_sentence ((d # cs) ! (n - (i + 1) - 1))))"
      using 1 by simp
    show ?thesis
    proof (cases "n = i + 1")
      case True
      then show ?thesis using cut_here by simp
    next
      case False
      then obtain m where "n = i + 2 + m" using ih by (metis add.commute add_2_eq_Suc le_Suc_ex less_eq_Suc_le Suc_eq_plus1)
      with ih False show ?thesis by simp
    qed
  next
    case go_on
    have step: "sentence_cut budget (i + 1) kept (d # cs) = n" using "1.prems"(1) go_on by auto
    have ih: "n \<le> budget \<and> (n = kept \<or> (i + 1 < n \<and> n \<le> i + 1 + length (d # cs) \<and> ends_sentence ((d # cs) ! (n - (i + 1) - 1))))"
      using "1.IH"(2) [OF go_on step] "1.prems"(2,3) by linarith
    show ?thesis
    proof (cases "n = kept")
      case False
      then obtain m where "n = i + 2 + m" using ih by (metis add.commute add_2_eq_Suc le_Suc_ex less_eq_Suc_le Suc_eq_plus1)
      with ih False show ?thesis by simp
    qed (use ih in simp)
  qed
qed simp_all

text \<open>
  A summary is never cut inside a sentence: it fits the budget, it begins the task line as written, and it is the whole
  line, or ends with the end of a sentence, or is empty.
\<close>

theorem summary_keeps_sentences:
  "length (summarizeDispatch txt budget) \<le> budget \<and>
   summarizeDispatch txt budget = take (length (summarizeDispatch txt budget)) (firstTaskLine txt) \<and>
   (summarizeDispatch txt budget = firstTaskLine txt \<or> summarizeDispatch txt budget = [] \<or>
    ends_sentence (last (summarizeDispatch txt budget)))"
proof (cases "firstTaskLine txt = [] \<or> length (firstTaskLine txt) \<le> budget")
  case True
  then show ?thesis by (auto simp: summarizeDispatch_def leadingSentences_def Let_def)
next
  case False
  define l where "l = firstTaskLine txt"
  define n where "n = sentence_cut budget 0 0 l"
  have s: "summarizeDispatch txt budget = take n l"
    using False by (simp add: summarizeDispatch_def leadingSentences_def Let_def l_def n_def)
  have r: "n \<le> budget \<and> (n = 0 \<or> (0 < n \<and> n \<le> length l \<and> ends_sentence (l ! (n - 1))))"
    using sentence_cut_range [of budget 0 0 l n] by (simp add: n_def)
  moreover have "last (take n l) = l ! (n - 1)" if "0 < n" "n \<le> length l"
    using that by (subst last_conv_nth) auto
  ultimately show ?thesis unfolding s l_def [symmetric] by auto
qed

text \<open>
  What surrounds an acceptance block does not change what it says: with no opening tag before it, the parsed definition of
  done is that of the lines between its tags, whatever precedes and follows.
\<close>

theorem block_is_self_contained:
  assumes "split_on CHR 0x0A txt = pre @ opening # inner @ closing # post"
    and "list_all (\<lambda>l. \<not> rx_test OPEN_TAG_RE l) pre" and "rx_test OPEN_TAG_RE opening"
    and "list_all (\<lambda>l. \<not> rx_test CLOSE_TAG_RE l) inner" and "rx_test CLOSE_TAG_RE closing"
  shows "parseAcceptanceBlock txt source = Some (normalizeDoD (foldl block_line (empty_dod source) inner))"
proof -
  have "dropWhile (\<lambda>l. \<not> rx_test OPEN_TAG_RE l) (pre @ opening # inner @ closing # post) = opening # inner @ closing # post"
    using assms(2,3) by (induction pre) auto
  moreover have "takeWhile (\<lambda>l. \<not> rx_test CLOSE_TAG_RE l) (inner @ closing # post) = inner"
    using assms(4,5) by (induction inner) auto
  ultimately show ?thesis
    using assms(1,3,5) by (simp add: parseAcceptanceBlock_def block_lines_def Let_def)
qed

definition block_text :: string where
  "block_text = join_with [CHR 0x0A] [''do it'', ''[acceptance]'', ''check: fileExists path=a.txt'', ''cwd: sub'', ''[/acceptance]'', ''bye'']"

theorem block_is_self_contained_witness:
  "map_option dd_cwd (parseAcceptanceBlock block_text SrcExplicit) = Some (Some ''sub'') \<and>
   map_option (map ck_path \<circ> dd_checks) (parseAcceptanceBlock block_text SrcExplicit) = Some [Some ''a.txt'']"
proof -
  have p: "parseAcceptanceBlock block_text SrcExplicit =
      Some (normalizeDoD (foldl block_line (empty_dod SrcExplicit) [''check: fileExists path=a.txt'', ''cwd: sub'']))"
  proof (rule block_is_self_contained)
    show "split_on CHR 0x0A block_text =
        [''do it''] @ ''[acceptance]'' # [''check: fileExists path=a.txt'', ''cwd: sub''] @ ''[/acceptance]'' # [''bye'']"
      by (simp add: block_text_def)
  qed code_simp+
  show ?thesis unfolding p by code_simp
qed

end
