(* ===== verification/Return_Contract.thy ===== *)
theory Return_Contract
  imports Js_Regex
begin

text \<open>
  How the router reads a delegate's final text: the return contract (\<open>DONE\<close>, \<open>NEED MORE\<close>, \<open>ESCALATE\<close>) of
  \<^verbatim>\<open>src/routing/outcomes/signals.ts\<close>, and the budget claims and progress notes of
  \<^verbatim>\<open>src/verify/checker.ts\<close>, with the expressions of the source. Texts are 8-bit (Latin-1), so dashes and quotes
  beyond it do not occur.
\<close>

section \<open>Lines and captures\<close>

text \<open>\<^verbatim>\<open>text.split(/\r?\n/)\<close>.\<close>

definition drop_cr :: "string \<Rightarrow> string" where
  "drop_cr l = (if l \<noteq> [] \<and> last l = CHR 0x0D then butlast l else l)"

definition text_lines :: "string \<Rightarrow> string list" where
  "text_lines s = (let ls = split_on CHR 0x0A s in map drop_cr (butlast ls) @ [last ls])"

text \<open>The first match of \<^verbatim>\<open>pre(grp)post\<close> at a position: what the group holds and where it ends.\<close>

definition capture_at :: "rx \<Rightarrow> rx \<Rightarrow> rx \<Rightarrow> text_pos \<Rightarrow> string option" where
  "capture_at pre grp post pos =
     (case concat (map (\<lambda>m. map (Pair m) (filter (matches_at post) (rx_ends grp m))) (rx_ends pre pos)) of
        [] \<Rightarrow> None
      | (m, e) # _ \<Rightarrow> Some (take (length (snd m) - length (snd e)) (snd m)))"

fun capture_from :: "rx \<Rightarrow> rx \<Rightarrow> rx \<Rightarrow> char option \<Rightarrow> string \<Rightarrow> string option" where
  "capture_from pre grp post p [] = capture_at pre grp post (p, [])"
| "capture_from pre grp post p (c # cs) =
     (case capture_at pre grp post (p, c # cs) of Some t \<Rightarrow> Some t | None \<Rightarrow> capture_from pre grp post (Some c) cs)"

text \<open>\<^verbatim>\<open>re.exec(s)?.[1]\<close>.\<close>

definition capture :: "rx \<Rightarrow> rx \<Rightarrow> rx \<Rightarrow> string \<Rightarrow> string option" where
  "capture pre grp post s = capture_from pre grp post None s"

text \<open>\<^verbatim>\<open>s.replace(/^re/, "")\<close>.\<close>

definition drop_match :: "rx \<Rightarrow> string \<Rightarrow> string" where
  "drop_match r s = (case rx_ends r (None, s) of [] \<Rightarrow> s | e # _ \<Rightarrow> snd e)"

definition not_newline :: "char \<Rightarrow> bool" where
  "not_newline c \<longleftrightarrow> c \<noteq> CHR 0x0A \<and> c \<noteq> CHR 0x0D"

text \<open>\<^verbatim>\<open>[\p{L}\p{N}]\<close> among the Latin-1 characters.\<close>

definition letter_or_number :: "char \<Rightarrow> bool" where
  "letter_or_number c \<longleftrightarrow>
     is_alpha c \<or> is_digit c \<or>
     c \<in> set [CHR 0xAA, CHR 0xB2, CHR 0xB3, CHR 0xB5, CHR 0xB9, CHR 0xBA, CHR 0xBC, CHR 0xBD, CHR 0xBE] \<or>
     (CHR 0xC0 \<le> c \<and> c \<noteq> CHR 0xD7 \<and> c \<noteq> CHR 0xF7)"

section \<open>The return contract\<close>

datatype return_prefix = PrefixDone | PrefixNeedMore | PrefixEscalate | PrefixNone
datatype return_claim = ClaimBudget | ClaimAuthority

record return_contract =
  rc_prefix :: return_prefix
  rc_claim :: "return_claim option"

definition TASK_ID_RE :: rx where
  "TASK_ID_RE = chain [TextStart, Many is_space, LitI ''task_id'', Many is_space, Lit '':'']"

text \<open>
  \<^verbatim>\<open>TASK_RESULT_RE\<close>: leading \<^verbatim>\<open>task_id:\<close> lines are skipped, each to its line end; then the text must open the
  wrapper. A line that starts with the id is never the wrapper, so no shorter run of id lines matches.
\<close>

definition skip_id_line :: "string \<Rightarrow> string option" where
  "skip_id_line s =
     (case rx_ends (chain [LitI ''task_id'', Many is_space, Lit '':'', Many (\<lambda>c. c \<noteq> CHR 0x0A), Lit [CHR 0x0A]]) (None, s) of
        [] \<Rightarrow> None | e # _ \<Rightarrow> Some (trim_start (snd e)))"

fun skip_id_lines :: "nat \<Rightarrow> string \<Rightarrow> string" where
  "skip_id_lines 0 s = s"
| "skip_id_lines (Suc n) s = (case skip_id_line s of None \<Rightarrow> s | Some t \<Rightarrow> skip_id_lines n t)"

definition RESULT_OPEN :: string where "RESULT_OPEN = ''<task_result>''"
definition RESULT_CLOSE :: string where "RESULT_CLOSE = ''</task_result>''"

text \<open>The lazy body: up to a closing tag that only space follows, else to the end.\<close>

fun upto_close :: "string \<Rightarrow> string" where
  "upto_close [] = []"
| "upto_close (c # cs) =
     (if is_prefix RESULT_CLOSE (to_lower (c # cs)) \<and> trim_start (drop (length RESULT_CLOSE) (c # cs)) = [] then []
      else c # upto_close cs)"

definition unwrap_result :: "string \<Rightarrow> string" where
  "unwrap_result s =
     (let rest = skip_id_lines (length s) (trim_start s) in
      if is_prefix RESULT_OPEN (to_lower rest) then upto_close (drop (length RESULT_OPEN) rest) else s)"

definition LEAD_RE :: rx where
  "LEAD_RE = chain [TextStart, Some_of (\<lambda>c. \<not> letter_or_number c)]"

definition LIST_NUMBER_RE :: rx where
  "LIST_NUMBER_RE = chain [TextStart, Some_of is_digit, One (\<lambda>c. c \<in> set ''.)''), Some_of is_space]"

definition strip_lead :: "string \<Rightarrow> string" where
  "strip_lead l = drop_match LIST_NUMBER_RE (drop_match LEAD_RE l)"

definition mark_or_space :: "char \<Rightarrow> bool" where
  "mark_or_space c \<longleftrightarrow> c \<in> set (CHR 0x60 # ''*_'') \<or> is_space c"

definition PREFIX_WORD :: rx where
  "PREFIX_WORD =
     either [LitI ''done'', chain [LitI ''need'', Run (\<lambda>c. is_space c \<or> c \<in> set ''_-'') 0 (Some 8), LitI ''more''], LitI ''escalate'']"

definition PREFIX_MARK :: rx where
  "PREFIX_MARK =
     chain [WordB, Run mark_or_space 0 (Some 16), either [One (\<lambda>c. c \<in> set '':.!-''), TextEnd], Run mark_or_space 0 (Some 16)]"

definition PREFIX_REST :: rx where "PREFIX_REST = Many not_newline"

definition CLAIM_RE :: rx where
  "CLAIM_RE = either [LitI ''budget'', LitI ''authority'']"

definition prefix_of_word :: "string \<Rightarrow> return_prefix" where
  "prefix_of_word w =
     (if to_lower w = ''done'' then PrefixDone else if to_lower w = ''escalate'' then PrefixEscalate else PrefixNeedMore)"

definition claim_of :: "string \<Rightarrow> return_claim option" where
  "claim_of rest =
     (case capture TextStart CLAIM_RE WordB (trim rest) of
        None \<Rightarrow> None
      | Some w \<Rightarrow> Some (if to_lower w = ''budget'' then ClaimBudget else ClaimAuthority))"

definition parse_line :: "string \<Rightarrow> return_contract" where
  "parse_line l =
     (case (capture TextStart PREFIX_WORD (chain [PREFIX_MARK, PREFIX_REST, TextEnd]) l,
            capture (chain [TextStart, PREFIX_WORD, PREFIX_MARK]) PREFIX_REST TextEnd l) of
        (Some w, Some rest) \<Rightarrow>
          (let p = prefix_of_word w in
           \<lparr>rc_prefix = p, rc_claim = (if p = PrefixDone then None else claim_of rest)\<rparr>)
      | _ \<Rightarrow> \<lparr>rc_prefix = PrefixNone, rc_claim = None\<rparr>)"

definition parseReturnPrefix :: "string \<Rightarrow> return_contract option" where
  "parseReturnPrefix s =
     (case List.find (\<lambda>l. trim l \<noteq> [] \<and> \<not> rx_test TASK_ID_RE l) (text_lines (unwrap_result s)) of
        None \<Rightarrow> None
      | Some l \<Rightarrow> Some (parse_line (strip_lead l)))"

section \<open>Budget claims\<close>

definition line_decoration :: "char \<Rightarrow> bool" where
  "line_decoration c \<longleftrightarrow> c \<in> set (CHR 0x09 # CHR 0x60 # '' >*_#-'')"

definition blank :: "char \<Rightarrow> bool" where
  "blank c \<longleftrightarrow> c = CHR '' '' \<or> c = CHR 0x09"

definition CONTRACT_MARKER_RE :: rx where
  "CONTRACT_MARKER_RE =
     chain [LineStart, Many line_decoration,
       either [Lit ''DONE'', Lit ''NEED MORE'', Lit ''NEED CONTEXT'', Lit ''SCOPE GROWTH'', Lit ''ESCALATE''],
       Many (\<lambda>c. c \<in> set ''*_''), Many blank, Lit '':'']"

definition NEED_MORE_BUDGET_LINE_RE :: rx where
  "NEED_MORE_BUDGET_LINE_RE =
     chain [LineStart, Many line_decoration, LitI ''need more'', Many (\<lambda>c. c \<in> set ''*_''), Many blank, Lit '':'',
       Many (\<lambda>c. blank c \<or> c \<in> set (CHR 0x60 # ''*_'')), LitI ''budget'', WordB]"

definition OTHER_CONTRACT_FIRST_LINE_RE :: rx where
  "OTHER_CONTRACT_FIRST_LINE_RE =
     chain [TextStart,
       either [chain [LitI ''need'', Many (\<lambda>c. is_space c \<or> c \<in> set ''_-''), LitI ''context''],
               chain [LitI ''scope'', Many (\<lambda>c. is_space c \<or> c \<in> set ''_-''), LitI ''growth'']],
       WordB, Many mark_or_space, Lit '':'']"

definition firstLine :: "string \<Rightarrow> string" where
  "firstLine s =
     (let opened = map (drop_match (chain [TextStart, Many is_space, LitI RESULT_OPEN])) (text_lines s) in
      case List.find (\<lambda>l. trim l \<noteq> [] \<and> \<not> rx_test TASK_ID_RE l) opened of
        None \<Rightarrow> []
      | Some l \<Rightarrow> strip_lead l)"

definition claimsNeedMoreBudget :: "string \<Rightarrow> bool" where
  "claimsNeedMoreBudget s =
     (case parseReturnPrefix s of
        None \<Rightarrow> False
      | Some rc \<Rightarrow>
          if rc_prefix rc = PrefixNone
          then \<not> rx_test OTHER_CONTRACT_FIRST_LINE_RE (firstLine s) \<and> rx_test NEED_MORE_BUDGET_LINE_RE s
          else rc_prefix rc = PrefixNeedMore \<and> rc_claim rc = Some ClaimBudget)"

section \<open>Progress notes\<close>

definition ANNOUNCE_RE :: rx where
  "ANNOUNCE_RE =
     chain [WordB,
       either [LitI (CHR ''i'' # CHR 0x27 # ''ll''), LitI ''i will'', LitI ''let me'', LitI (CHR ''i'' # CHR 0x27 # ''m going to''),
               LitI ''i am going to''],
       Some_of is_space,
       Maybe (either [chain [LitI ''now'', Some_of is_space], chain [LitI ''then'', Some_of is_space], chain [LitI ''next'', Some_of is_space]]),
       either [LitI ''finish'', LitI ''continue''], WordB]"

definition DEFERRAL_RE :: rx where
  "DEFERRAL_RE =
     chain [WordB,
       either [chain [LitI ''follow'', Maybe (One (\<lambda>c. c \<in> set ''- '')), LitI ''up''], LitI ''later'', LitI ''separately'',
               chain [LitI ''another '', either [LitI ''pr'', LitI ''change'', LitI ''task'']],
               chain [LitI ''next '', either [LitI ''pr'', LitI ''release'']],
               LitI ''if'', LitI ''once'', LitI ''when'', LitI ''unless'', LitI ''would'', LitI ''want''],
       WordB]"

definition sentence_end :: "char \<Rightarrow> bool" where
  "sentence_end c \<longleftrightarrow> c \<in> set ''.!?''"

text \<open>The reversed text from its last proper character back to the sentence's start.\<close>

fun back_to_start :: "string \<Rightarrow> string" where
  "back_to_start [] = []"
| "back_to_start (c # cs) =
     (if c = CHR 0x0A \<or> (is_space c \<and> cs \<noteq> [] \<and> sentence_end (hd cs)) then [] else c # back_to_start cs)"

definition finalSentence :: "string \<Rightarrow> string" where
  "finalSentence s = rev (back_to_start (dropWhile (\<lambda>c. sentence_end c \<or> is_space c) (rev s)))"

definition isProgressNote :: "string \<Rightarrow> bool" where
  "isProgressNote s \<longleftrightarrow>
     (let trimmed = trim s; final = finalSentence trimmed in
      trimmed \<noteq> [] \<and> \<not> rx_test CONTRACT_MARKER_RE trimmed \<and> last trimmed \<noteq> CHR ''?'' \<and>
      rx_test ANNOUNCE_RE final \<and> \<not> rx_test DEFERRAL_RE final)"

end
