(* ===== verification/Judge.thy ===== *)
theory Judge
  imports Verify_Types Js_Regex "HOL-Library.Multiset"
begin

text \<open>
  The verdict algebra of the test check, \<^verbatim>\<open>src/verify/baseline.ts\<close>: what a scoped test run and the rerun of its
  failing files at the dispatch reference prove about the delegated change. Outcomes are datatypes with the
  source's constructors; reason texts are the source's texts.
\<close>

section \<open>Run results and outcomes\<close>

datatype result_source = FromReport | FromText

record run_result =
  rr_failingIds :: "string list"
  rr_failingFiles :: "string list"
  rr_collectionError :: bool
  rr_total :: "nat option"
  rr_complete :: bool
  rr_source :: result_source
  rr_note :: "string option"

text \<open>Of the spec that ran, the verdict reads the runner's name; a full run has no spec.\<close>

datatype scoped_outcome =
    NoAffectedRun string
  | ScopeUnverifiable string string                    \<comment> \<open>code, reason\<close>
  | SlotBusy int bool                                  \<comment> \<open>waited, cut by the deadline\<close>
  | Ran run_result int "string option" "string list"   \<comment> \<open>result, exit code, runner, notes\<close>
  | ScopeTimedOut int
  | ScopeAborted string
  | ScopeError string

datatype unusable_cause =
    NoReference | MaterializeFailed | ReferenceVanished | UnreproducedInputs | RerunUnplannable
  | RerunIncomplete | RerunCollectionError | RerunNoTests | RunnerUnsupported | RerunError

fun cause_text :: "unusable_cause \<Rightarrow> string" where
  "cause_text NoReference = ''no-reference''"
| "cause_text MaterializeFailed = ''materialize-failed''"
| "cause_text ReferenceVanished = ''reference-vanished''"
| "cause_text UnreproducedInputs = ''unreproduced-inputs''"
| "cause_text RerunUnplannable = ''rerun-unplannable''"
| "cause_text RerunIncomplete = ''incomplete''"
| "cause_text RerunCollectionError = ''collection-error''"
| "cause_text RerunNoTests = ''no-tests''"
| "cause_text RunnerUnsupported = ''runner-unsupported''"
| "cause_text RerunError = ''error''"

record exact_recheck =
  ex_result :: "run_result option"
  ex_ranFiles :: "string list"
  ex_absentFiles :: "string list"
  ex_notes :: "string list"

datatype recheck_outcome =
    ExactRecheck exact_recheck
  | ApproximateRef "(string \<times> string option) list"     \<comment> \<open>inexact reasons: cause and path\<close>
  | UnusableRef unusable_cause string
  | RecheckDisabled
  | RecheckTimedOut int
  | RecheckSkipped int

record judgement =
  jd_ok :: bool
  jd_unverifiable :: bool
  jd_reason :: "string option"
  jd_note :: "string option"
  jd_evidence :: "string option"
  jd_failures :: "failure_classification option"

definition judged_ok :: judgement where
  "judged_ok = \<lparr>jd_ok = True, jd_unverifiable = False, jd_reason = None, jd_note = None, jd_evidence = None,
                jd_failures = None\<rparr>"

definition judged_fail :: "string \<Rightarrow> failure_classification \<Rightarrow> judgement" where
  "judged_fail reason fc = judged_ok\<lparr>jd_ok := False, jd_reason := Some reason, jd_failures := Some fc\<rparr>"

definition judged_unverifiable :: "string \<Rightarrow> failure_classification option \<Rightarrow> judgement" where
  "judged_unverifiable reason fc =
     judged_ok\<lparr>jd_ok := False, jd_unverifiable := True, jd_reason := Some reason, jd_failures := fc\<rparr>"

section \<open>Ids and texts\<close>

text \<open>\<^verbatim>\<open>text.indexOf(sep)\<close> for a non-empty separator; \<open>None\<close> is -1.\<close>

fun index_of_text :: "string \<Rightarrow> string \<Rightarrow> nat option" where
  "index_of_text sep [] = None"
| "index_of_text sep (c # cs) =
     (if is_prefix sep (c # cs) then Some 0 else map_option Suc (index_of_text sep cs))"

definition forward_slashes :: "string \<Rightarrow> string" where
  "forward_slashes s = map (\<lambda>c. if c = CHR 0x5C then CHR ''/'' else c) s"

definition fileKeyOfId :: "string \<Rightarrow> string" where
  "fileKeyOfId i =
     (let cuts = List.map_filter id [index_of_text '' > '' i, index_of_text ''::'' i];
          file = (if cuts \<noteq> [] then take (Min (set cuts)) i else i) in
      forward_slashes file)"

definition formatIds :: "string list \<Rightarrow> string" where
  "formatIds ids =
     (let shown = join_with '', '' (take 10 ids) in
      if ids = [] then ''(none)''
      else if 10 < length ids then shown @ '' (+'' @ show_int (int (length ids) - 10) @ '' more)''
      else shown)"

section \<open>Attribution\<close>

datatype attribution = Introduced | Preexisting | Unproven

definition attribute_id :: "run_result \<Rightarrow> exact_recheck \<Rightarrow> string \<Rightarrow> attribution" where
  "attribute_id c re x =
     (let f = fileKeyOfId x; bare = (f = forward_slashes x);
          ref_failing = (case ex_result re of None \<Rightarrow> [] | Some r \<Rightarrow> rr_failingIds r) in
      if f \<in> set (ex_absentFiles re) then Introduced
      else if f \<notin> set (ex_ranFiles re) then Unproven
      else if bare then Introduced
      else if x \<in> set ref_failing then Preexisting
      else if rr_source c = FromReport then Introduced
      else if f \<notin> fileKeyOfId ` set ref_failing then Introduced
      else Unproven)"

definition classify_failures :: "run_result \<Rightarrow> exact_recheck \<Rightarrow> failure_classification" where
  "classify_failures c re =
     \<lparr>fc_introduced = filter (\<lambda>x. attribute_id c re x = Introduced) (rr_failingIds c),
      fc_preexisting = filter (\<lambda>x. attribute_id c re x = Preexisting) (rr_failingIds c),
      fc_unknown = filter (\<lambda>x. attribute_id c re x = Unproven) (rr_failingIds c)\<rparr>"

section \<open>The verdict\<close>

definition inexact_text :: "string \<times> string option \<Rightarrow> string" where
  "inexact_text r = fst r @ (case snd r of None \<Rightarrow> [] | Some p \<Rightarrow> if p = [] then [] else '' '' @ p)"

definition judge_exact :: "run_result \<Rightarrow> exact_recheck \<Rightarrow> string \<Rightarrow> judgement" where
  "judge_exact c re observed =
     (let fc = classify_failures c re in
      if fc_introduced fc \<noteq> [] then
        (let v = judged_fail (''testsPass: introduced failures: '' @ formatIds (fc_introduced fc) @ observed) fc in
         if fc_preexisting fc \<noteq> []
         then v\<lparr>jd_note := Some (''testsPass: also failing at the dispatch reference: '' @ formatIds (fc_preexisting fc))\<rparr>
         else v)
      else if fc_unknown fc = [] \<and> rr_complete c \<and> \<not> rr_collectionError c then
        judged_ok\<lparr>jd_failures := Some fc,
          jd_note := Some (''testsPass: no worse than before; pre-existing failures: '' @ formatIds (fc_preexisting fc) @
            ''; suite is NOT green (affected tests checked against the exact dispatch reference)'')\<rparr>
      else if fc_unknown fc \<noteq> [] then
        judged_unverifiable (''testsPass: cannot prove failures predate dispatch: '' @ formatIds (fc_unknown fc) @ observed) (Some fc)
      else
        judged_unverifiable
          (''testsPass: the scoped failure inventory is incomplete ('' @ or_else (rr_note c) ''collection error'' @
           ''); known failures predate dispatch, others may not'' @ observed) (Some fc))"

fun judge_recheck :: "run_result \<Rightarrow> recheck_outcome \<Rightarrow> string \<Rightarrow> judgement" where
  "judge_recheck c (ExactRecheck re) observed = judge_exact c re observed"
| "judge_recheck c (ApproximateRef reasons) observed =
     judged_unverifiable (''testsPass: cannot attribute failures: the dispatch reference is approximate ('' @
       formatIds (map inexact_text reasons) @ '')'' @ observed) None"
| "judge_recheck c (UnusableRef cause reason) observed =
     judged_unverifiable
       (if cause = NoReference
        then ''testsPass: no reference: pre-existing failures cannot be told apart ('' @ reason @ '')'' @ observed
        else ''testsPass: cannot attribute failures: reference unusable ('' @ cause_text cause @ ''): '' @ reason @ observed) None"
| "judge_recheck c RecheckDisabled observed =
     judged_unverifiable (''testsPass: cannot attribute failures: failureRecheck is off, pre-existing failures cannot be told apart'' @
       observed) None"
| "judge_recheck c (RecheckTimedOut bound) observed =
     judged_unverifiable (''testsPass: cannot attribute failures: the reference rerun timed out after '' @ show_int bound @ ''ms'' @
       observed) None"
| "judge_recheck c (RecheckSkipped left) observed =
     judged_unverifiable (''testsPass: gate budget exhausted before recheck'' @ observed) None"

definition judge_ran :: "run_result \<Rightarrow> int \<Rightarrow> string option \<Rightarrow> recheck_outcome option \<Rightarrow> judgement" where
  "judge_ran c exitCode runner recheck =
     (let note = or_else (rr_note c) ''no details'';
          observed = ''; observed failures: '' @ formatIds (rr_failingIds c) in
      if rr_complete c \<and> \<not> rr_collectionError c \<and> rr_failingIds c = [] then
        (let total = (case rr_total c of None \<Rightarrow> ''unknown'' | Some n \<Rightarrow> show_int (int n));
             v = judged_ok\<lparr>jd_evidence := Some (''testsPass: affected tests passed ('' @ or_else runner ''full'' @ '', '' @
                   total @ '' tests)'')\<rparr> in
         if rr_total c = Some 0 then v\<lparr>jd_note := Some ''testsPass: no affected tests ran''\<rparr> else v)
      else if rr_failingIds c = [] then
        judged_unverifiable
          (if rr_collectionError c
           then ''testsPass: collection error without failing test files: '' @ note @ observed
           else ''testsPass: the scoped result is incomplete: '' @ note @ '' (exit '' @ show_int exitCode @ '')'') None
      else
        (case recheck of
           None \<Rightarrow>
             judged_unverifiable
               (if rr_collectionError c
                then ''testsPass: collection error without failing test files: '' @ note @ observed
                else ''testsPass: cannot attribute failures: no failing test file identified, recheck not attempted'' @ observed) None
         | Some r \<Rightarrow> judge_recheck c r observed))"

fun judgeScoped :: "scoped_outcome \<Rightarrow> recheck_outcome option \<Rightarrow> judgement" where
  "judgeScoped (NoAffectedRun note) recheck = judged_ok\<lparr>jd_note := Some note\<rparr>"
| "judgeScoped (ScopeUnverifiable code reason) recheck =
     judged_unverifiable (''testsPass: scoping impossible ('' @ code @ ''): '' @ reason) None"
| "judgeScoped (SlotBusy waited by_deadline) recheck =
     judged_unverifiable
       (if by_deadline then ''gate budget exhausted waiting for the verification slot''
        else ''verification slot busy (waited '' @ show_int waited @ ''ms)'') None"
| "judgeScoped (ScopeTimedOut bound) recheck =
     judged_unverifiable (''testsPass timed out after '' @ show_int bound @ ''ms'') None"
| "judgeScoped (ScopeAborted reason) recheck = judged_unverifiable (''testsPass: '' @ reason) None"
| "judgeScoped (ScopeError reason) recheck =
     judged_unverifiable (''testsPass check errored: '' @ scrubText reason) None"
| "judgeScoped (Ran c exitCode runner notes) recheck = judge_ran c exitCode runner recheck"

section \<open>What a verdict proves\<close>

text \<open>
  The two kinds of evidence of the pipeline's guarantees G1 and G2, without the order of the code's tests.
  Pre-existing: the file was rerun at the reference and the same test, not a whole file, fails there too.
  Introduced: the file does not exist at the reference, or it ran there and the id is a file that no longer collects, or a
  test that does not fail there and cannot have been renamed.
\<close>

definition failing_at :: "exact_recheck \<Rightarrow> string list" where
  "failing_at re = (case ex_result re of None \<Rightarrow> [] | Some r \<Rightarrow> rr_failingIds r)"

definition is_file_id :: "string \<Rightarrow> bool" where
  "is_file_id x \<longleftrightarrow> fileKeyOfId x = forward_slashes x"

definition reran :: "exact_recheck \<Rightarrow> string \<Rightarrow> bool" where
  "reran re x \<longleftrightarrow> fileKeyOfId x \<in> set (ex_ranFiles re) \<and> fileKeyOfId x \<notin> set (ex_absentFiles re)"

definition proven_preexisting :: "exact_recheck \<Rightarrow> string \<Rightarrow> bool" where
  "proven_preexisting re x \<longleftrightarrow> reran re x \<and> \<not> is_file_id x \<and> x \<in> set (failing_at re)"

definition proven_introduced :: "run_result \<Rightarrow> exact_recheck \<Rightarrow> string \<Rightarrow> bool" where
  "proven_introduced c re x \<longleftrightarrow>
     fileKeyOfId x \<in> set (ex_absentFiles re) \<or>
     reran re x \<and>
       (is_file_id x \<or>
        x \<notin> set (failing_at re) \<and> (rr_source c = FromReport \<or> fileKeyOfId x \<notin> fileKeyOfId ` set (failing_at re)))"

lemma attribute_meaning:
  "attribute_id c re x = Preexisting \<longleftrightarrow> proven_preexisting re x"
  "attribute_id c re x = Introduced \<longleftrightarrow> proven_introduced c re x"
  by (auto simp: attribute_id_def Let_def proven_preexisting_def proven_introduced_def reran_def failing_at_def is_file_id_def
      split: option.splits)

lemma attribute_unproven:
  "attribute_id c re x = Unproven \<longleftrightarrow> \<not> proven_preexisting re x \<and> \<not> proven_introduced c re x"
  using attribute_meaning [of c re x] by (cases "attribute_id c re x") auto

lemma attribution_evidence:
  "fc_introduced (classify_failures c re) = filter (proven_introduced c re) (rr_failingIds c)"
  "fc_preexisting (classify_failures c re) = filter (proven_preexisting re) (rr_failingIds c)"
  "fc_unknown (classify_failures c re) =
     filter (\<lambda>x. \<not> proven_preexisting re x \<and> \<not> proven_introduced c re x) (rr_failingIds c)"
  by (simp_all add: classify_failures_def attribute_meaning attribute_unproven)

lemma judged_fields [simp]:
  "jd_ok judged_ok" "\<not> jd_unverifiable judged_ok"
  "\<not> jd_ok (judged_unverifiable r f)" "jd_unverifiable (judged_unverifiable r f)"
  "\<not> jd_ok (judged_fail r fc)" "\<not> jd_unverifiable (judged_fail r fc)"
  by (simp_all add: judged_ok_def judged_unverifiable_def judged_fail_def)

text \<open>The verdict on an exact recheck.\<close>

lemma all_preexisting:
  "fc_introduced (classify_failures c re) = [] \<and> fc_unknown (classify_failures c re) = [] \<longleftrightarrow> list_all (proven_preexisting re) (rr_failingIds c)"
  unfolding attribution_evidence filter_empty_conv list_all_iff
  by (auto simp: proven_preexisting_def proven_introduced_def reran_def)

lemma judge_exact_ok:
  "jd_ok (judge_exact c re observed) \<longleftrightarrow>
     rr_complete c \<and> \<not> rr_collectionError c \<and> list_all (proven_preexisting re) (rr_failingIds c)"
  unfolding all_preexisting [symmetric] by (simp add: judge_exact_def Let_def)

lemma judge_exact_fail:
  "\<not> jd_ok (judge_exact c re observed) \<and> \<not> jd_unverifiable (judge_exact c re observed)
   \<longleftrightarrow> list_ex (proven_introduced c re) (rr_failingIds c)"
proof -
  have "fc_introduced (classify_failures c re) \<noteq> [] \<longleftrightarrow> list_ex (proven_introduced c re) (rr_failingIds c)"
    unfolding attribution_evidence by (simp add: filter_empty_conv list_ex_iff)
  then show ?thesis by (simp add: judge_exact_def Let_def)
qed

lemma judge_recheck_cases:
  "jd_ok (judge_recheck c r observed) \<longleftrightarrow> (\<exists>re. r = ExactRecheck re \<and> jd_ok (judge_exact c re observed))"
  "\<not> jd_unverifiable (judge_recheck c r observed) \<longleftrightarrow>
     (\<exists>re. r = ExactRecheck re \<and> \<not> jd_unverifiable (judge_exact c re observed))"
  by (cases r; simp)+

definition green_run :: "run_result \<Rightarrow> bool" where
  "green_run c \<longleftrightarrow> rr_complete c \<and> \<not> rr_collectionError c \<and> rr_failingIds c = []"

lemma judge_ran_ok:
  "jd_ok (judge_ran c code rn rc) \<longleftrightarrow>
     green_run c \<or>
     (\<exists>re. rc = Some (ExactRecheck re) \<and> rr_failingIds c \<noteq> [] \<and> rr_complete c \<and> \<not> rr_collectionError c \<and>
        list_all (proven_preexisting re) (rr_failingIds c))"
  by (cases rc) (auto simp: judge_ran_def Let_def green_run_def judge_recheck_cases judge_exact_ok)

lemma judge_ran_fail:
  "\<not> jd_ok (judge_ran c code rn rc) \<and> \<not> jd_unverifiable (judge_ran c code rn rc) \<longleftrightarrow>
     \<not> green_run c \<and> (\<exists>re. rc = Some (ExactRecheck re) \<and> list_ex (proven_introduced c re) (rr_failingIds c))"
proof (cases "rr_failingIds c = [] \<or> rc = None")
  case True
  then show ?thesis by (auto simp: judge_ran_def Let_def green_run_def)
next
  case False
  then obtain r where rc: "rc = Some r" and f: "rr_failingIds c \<noteq> []" by auto
  have "\<exists>observed. judge_ran c code rn rc = judge_recheck c r observed"
    unfolding judge_ran_def Let_def using rc f by (simp only: option.case if_False simp_thms) (rule exI, rule refl)
  then obtain observed where j: "judge_ran c code rn rc = judge_recheck c r observed" ..
  show ?thesis
  proof (cases r)
    case (ExactRecheck re)
    with judge_exact_fail [of c re observed] show ?thesis
      unfolding j using rc f by (simp add: green_run_def)
  qed (unfold j, simp_all add: rc)
qed

text \<open>
  (C20) The excuse rule. A test check passes exactly when nothing of the change is covered by a test, or the scoped run was
  green with a complete inventory, or, the inventory being complete and collected, every single failing test was rerun at the
  exact dispatch reference and proven to fail there as well. No other outcome of the run or of the recheck passes.
\<close>

theorem test_pass_is_earned:
  "jd_ok (judgeScoped s rc) \<longleftrightarrow>
     (\<exists>note. s = NoAffectedRun note) \<or>
     (\<exists>c code rn notes. s = Ran c code rn notes \<and>
        (green_run c \<or>
         (\<exists>re. rc = Some (ExactRecheck re) \<and> rr_failingIds c \<noteq> [] \<and> rr_complete c \<and> \<not> rr_collectionError c \<and>
            list_all (proven_preexisting re) (rr_failingIds c))))"
  by (cases s) (simp_all add: judge_ran_ok)

text \<open>
  The reject rule. A test check fails definitely exactly when the tests ran, were not green, were rechecked at the exact
  reference, and at least one failing id is proven to be introduced by the change; every other check that does
  not pass is unverifiable, which accuses nobody.
\<close>

theorem test_failure_is_proven:
  "\<not> jd_ok (judgeScoped s rc) \<and> \<not> jd_unverifiable (judgeScoped s rc) \<longleftrightarrow>
     (\<exists>c code rn notes re. s = Ran c code rn notes \<and> \<not> green_run c \<and> rc = Some (ExactRecheck re) \<and>
        list_ex (proven_introduced c re) (rr_failingIds c))"
  by (cases s) (simp_all add: judge_ran_fail)

text \<open>Every failing id is attributed once.\<close>

lemma attribution_partitions:
  "mset (fc_introduced (classify_failures c re)) + mset (fc_preexisting (classify_failures c re)) + mset (fc_unknown (classify_failures c re)) =
     mset (rr_failingIds c)"
proof -
  have "mset (filter (\<lambda>x. attribute_id c re x = Introduced) xs) + mset (filter (\<lambda>x. attribute_id c re x = Preexisting) xs) +
      mset (filter (\<lambda>x. attribute_id c re x = Unproven) xs) = mset xs" for xs
    by (induction xs) (auto intro: attribution.exhaust)
  then show ?thesis by (simp add: classify_failures_def)
qed

end
