(* ===== verification/Paths.thy ===== *)
theory Paths
  imports Js_Text "HOL-Library.Sublist"
begin

text \<open>
  Path arithmetic of \<^verbatim>\<open>src/verify/paths.ts\<close> on a POSIX host, with the functions of \<^verbatim>\<open>node:path\<close> it
  uses: no file system is read. A path is its text; the segments between separators are resolved on a
  stack, as \<^verbatim>\<open>normalizeString\<close> does. The working directory of the process, which \<^verbatim>\<open>resolve\<close> starts
  from, is a parameter. The Windows spelling (drive letters, back slashes, case folding) is not modelled.
\<close>

section \<open>Segments\<close>

definition isAbsolute :: "string \<Rightarrow> bool" where
  "isAbsolute p \<longleftrightarrow> p \<noteq> [] \<and> hd p = CHR ''/''"

text \<open>One segment of \<^verbatim>\<open>normalizeString\<close>; the stack has the latest segment first.\<close>

definition push_segment :: "bool \<Rightarrow> string list \<Rightarrow> string \<Rightarrow> string list" where
  "push_segment upward stack seg =
     (if seg = [] \<or> seg = ''.'' then stack
      else if seg = ''..''
      then (if stack \<noteq> [] \<and> hd stack \<noteq> ''..'' then tl stack else if upward then seg # stack else stack)
      else seg # stack)"

definition segments :: "bool \<Rightarrow> string \<Rightarrow> string list" where
  "segments upward p = rev (foldl (push_segment upward) [] (split_on CHR ''/'' p))"

section \<open>node:path\<close>

definition path_normalize :: "string \<Rightarrow> string" where
  "path_normalize p =
     (let body = join_with ''/'' (segments (\<not> isAbsolute p) p); trailing = (p \<noteq> [] \<and> last p = CHR ''/'') in
      if p = [] then ''.''
      else if body = [] then (if isAbsolute p then ''/'' else if trailing then ''./'' else ''.'')
      else (if isAbsolute p then ''/'' else []) @ body @ (if trailing then ''/'' else []))"

definition path_join :: "string \<Rightarrow> string \<Rightarrow> string" where
  "path_join a b =
     (if a = [] \<and> b = [] then ''.''
      else path_normalize (if a = [] then b else if b = [] then a else a @ ''/'' @ b))"

text \<open>The segments of \<^verbatim>\<open>resolve(p)\<close>, an absolute path.\<close>

definition resolve_segments :: "string \<Rightarrow> string \<Rightarrow> string list" where
  "resolve_segments cwd p = segments False (if isAbsolute p then p else cwd @ ''/'' @ p)"

definition path_resolve :: "string \<Rightarrow> string \<Rightarrow> string" where
  "path_resolve cwd p = ''/'' @ join_with ''/'' (resolve_segments cwd p)"

text \<open>\<^verbatim>\<open>relative(from, to)\<close>: one step up for each segment of \<open>from\<close> behind the common ones, then the rest of \<open>to\<close>.\<close>

fun relative_segments :: "string list \<Rightarrow> string list \<Rightarrow> string list" where
  "relative_segments (f # fs) (t # ts) =
     (if f = t then relative_segments fs ts else map (\<lambda>_. ''..'') (f # fs) @ (t # ts))"
| "relative_segments fs ts = map (\<lambda>_. ''..'') fs @ ts"

definition path_relative :: "string \<Rightarrow> string \<Rightarrow> string \<Rightarrow> string" where
  "path_relative cwd f t = join_with ''/'' (relative_segments (resolve_segments cwd f) (resolve_segments cwd t))"

section \<open>src/verify/paths.ts\<close>

definition isWithinDir :: "string \<Rightarrow> string \<Rightarrow> string \<Rightarrow> bool" where
  "isWithinDir cwd path dir \<longleftrightarrow>
     (let delta = path_relative cwd dir path in
      delta \<noteq> ''..'' \<and> \<not> is_prefix ''../'' delta \<and> \<not> isAbsolute delta)"

definition resolveBaseDir :: "string option \<Rightarrow> string \<Rightarrow> string" where
  "resolveBaseDir cwd routerDir =
     (case cwd of
        Some c \<Rightarrow> if c = [] then routerDir else if isAbsolute c then c else path_join routerDir c
      | None \<Rightarrow> routerDir)"

definition resolveAgainst :: "string \<Rightarrow> string \<Rightarrow> string" where
  "resolveAgainst baseDir p = (if isAbsolute p then p else path_join baseDir p)"

section \<open>Resolved paths\<close>

text \<open>A plain segment: a name between two separators that is not a step.\<close>

definition plain_segment :: "string \<Rightarrow> bool" where
  "plain_segment seg \<longleftrightarrow> seg \<noteq> [] \<and> seg \<noteq> ''.'' \<and> seg \<noteq> ''..'' \<and> CHR ''/'' \<notin> set seg"

lemma push_plain:
  "\<lbrakk>list_all plain_segment stack; CHR ''/'' \<notin> set seg\<rbrakk> \<Longrightarrow> list_all plain_segment (push_segment False stack seg)"
  by (cases stack) (auto simp: push_segment_def plain_segment_def)

lemma foldl_plain:
  "\<lbrakk>list_all plain_segment stack; \<forall>w\<in>set ws. CHR ''/'' \<notin> set w\<rbrakk>
   \<Longrightarrow> list_all plain_segment (foldl (push_segment False) stack ws)"
proof (induction ws arbitrary: stack)
  case Nil
  then show ?case by simp
next
  case (Cons w ws)
  from Cons.prems have "list_all plain_segment (push_segment False stack w)" by (intro push_plain) simp_all
  with Cons show ?case by simp
qed

lemma segments_plain: "list_all plain_segment (segments False p)"
proof -
  have "list_all plain_segment (foldl (push_segment False) [] (split_on CHR ''/'' p))"
    by (rule foldl_plain) (auto dest: split_on_free)
  then show ?thesis by (simp add: segments_def)
qed

lemma resolved_plain: "list_all plain_segment (resolve_segments cwd p)"
  by (simp add: resolve_segments_def segments_plain)

text \<open>What is left after the common segments starts with a step up unless one path is inside the other.\<close>

lemma relative_prefix: "prefix fs ts \<Longrightarrow> relative_segments fs ts = drop (length fs) ts"
  by (induction fs ts rule: relative_segments.induct) (auto simp: prefix_def)

lemma relative_not_prefix: "\<not> prefix fs ts \<Longrightarrow> \<exists>rest. relative_segments fs ts = ''..'' # rest"
proof (induction fs ts rule: relative_segments.induct)
  case (1 f fs t ts)
  then show ?case by (cases "f = t") simp_all
qed (auto simp: neq_Nil_conv)

lemma join_cons: "join_with ''/'' (w # ws) = (if ws = [] then w else w @ ''/'' @ join_with ''/'' ws)"
  by (cases ws) simp_all

text \<open>A text that starts with a plain segment is neither absolute nor a step up.\<close>

lemma plain_join_inside:
  fixes ws
  assumes "plain_segment w"
  defines "d \<equiv> join_with ''/'' (w # ws)"
  shows "d \<noteq> ''..''" and "\<not> is_prefix ''../'' d" and "\<not> isAbsolute d"
proof -
  obtain c w' where w: "w = c # w'" "c \<noteq> CHR ''/''" "CHR ''/'' \<notin> set w'" "w \<noteq> ''..''"
    using assms(1) by (cases w) (auto simp: plain_segment_def)
  then show "\<not> isAbsolute d"
    unfolding d_def isAbsolute_def by (simp add: join_cons)
  have shape: "d = w \<or> (\<exists>t. d = w @ CHR ''/'' # t)" unfolding d_def by (simp add: join_cons)
  then show "d \<noteq> ''..''" using w by (cases w') (auto simp: Cons_eq_append_conv)
  show "\<not> is_prefix ''../'' d"
  proof
    assume "is_prefix ''../'' d"
    then obtain t where d: "d = ''../'' @ t" unfolding is_prefix_def by (metis append_take_drop_id)
    then have "CHR ''/'' \<in> set d" by simp
    with shape w d show False
      by (cases w'; cases "tl w'") (auto simp: Cons_eq_append_conv)
  qed
qed

lemma step_up_outside:
  "join_with ''/'' (''..'' # rest) = ''..'' \<or> is_prefix ''../'' (join_with ''/'' (''..'' # rest))"
  by (cases rest) (simp_all add: is_prefix_def)

text \<open>
  (C38) Containment is exactly the prefix relation on resolved segments: a path counts as inside a directory
  if and only if, both resolved, the directory's segments begin the path's. So a sibling whose name merely starts with
  the directory's name is outside, and a child whose name starts with two dots is inside.
\<close>

theorem within_dir_is_prefix:
  "isWithinDir cwd path dir \<longleftrightarrow> prefix (resolve_segments cwd dir) (resolve_segments cwd path)"
proof (cases "prefix (resolve_segments cwd dir) (resolve_segments cwd path)")
  case True
  then obtain rest where rest: "resolve_segments cwd path = resolve_segments cwd dir @ rest" by (auto simp: prefix_def)
  have "list_all plain_segment (resolve_segments cwd path)" by (rule resolved_plain)
  then have plain: "list_all plain_segment rest" by (simp add: rest)
  have delta: "path_relative cwd dir path = join_with ''/'' rest"
    using relative_prefix [OF True] by (simp add: path_relative_def rest)
  show ?thesis
  proof (cases rest)
    case Nil
    with delta True show ?thesis by (simp add: isWithinDir_def isAbsolute_def is_prefix_def)
  next
    case (Cons w ws)
    with plain have "plain_segment w" by simp
    from plain_join_inside [OF this, of ws] delta True Cons show ?thesis by (simp add: isWithinDir_def)
  qed
next
  case False
  then obtain rest where "relative_segments (resolve_segments cwd dir) (resolve_segments cwd path) = ''..'' # rest"
    using relative_not_prefix by blast
  then have "path_relative cwd dir path = join_with ''/'' (''..'' # rest)" by (simp only: path_relative_def)
  with step_up_outside [of rest] False show ?thesis by (auto simp only: isWithinDir_def Let_def)
qed

end
