(* ===== verification/Recheck.thy ===== *)
theory Recheck
  imports Judge Paths
begin

text \<open>
  The rerun of failing tests at the dispatch reference: \<open>isInertUnreproduced\<close>, \<open>rerunAt\<close>, the
  \<open>rechecker\<close> of a verification scope and the pre-decisions \<open>recheckFor\<close> of the direct hook, from
  \<^verbatim>\<open>src/verify/deterministic.ts\<close>. The seams (runner detection, garbage collection, materialization, entry
  resolution, rerun planning, the process run, reading the report) are the fields of \<open>recheck_seams\<close>: what each
  answers, or \<open>Inl\<close> the error it throws. POSIX paths.
\<close>

section \<open>Inputs that tests cannot read\<close>

datatype inert_scope = InertRoot | InertPackage | InertAnywhere

definition INERT_UNREPRODUCED_SCOPES :: "(string \<times> inert_scope) list" where
  "INERT_UNREPRODUCED_SCOPES =
     [(''logs/'', InertRoot), (''.idea/'', InertRoot), (''.vscode/'', InertRoot), (''*.log'', InertRoot),
      (''.eslintcache'', InertRoot),
      (''coverage/'', InertPackage), (''.nyc_output/'', InertPackage), (''.pytest_cache/'', InertPackage),
      (''.mypy_cache/'', InertPackage), (''.ruff_cache/'', InertPackage),
      (''__pycache__/'', InertAnywhere), (''*.pyc'', InertAnywhere), (''.DS_Store'', InertAnywhere),
      (''Thumbs.db'', InertAnywhere), (''desktop.ini'', InertAnywhere)]"

definition TEST_DIR_NAMES :: "string list" where
  "TEST_DIR_NAMES =
     [''test'', ''tests'', ''__tests__'', ''spec'', ''specs'', ''fixtures'', ''__fixtures__'', ''testdata'', ''test-data'',
      ''__snapshots__'']"

definition ends_with :: "string \<Rightarrow> string \<Rightarrow> bool" where
  "ends_with suf s \<longleftrightarrow> is_prefix (rev suf) (rev s)"

definition in_inert_scope :: "string list \<Rightarrow> inert_scope \<Rightarrow> bool" where
  "in_inert_scope parents scope \<longleftrightarrow>
     scope = InertAnywhere \<or> parents = [] \<or>
     scope = InertPackage \<and> length parents = 2 \<and> \<not> list_ex (\<lambda>s. s \<in> set TEST_DIR_NAMES) parents"

definition inert_match :: "string \<Rightarrow> bool \<Rightarrow> string \<Rightarrow> bool" where
  "inert_match name isDir pattern \<longleftrightarrow>
     (if ends_with ''/'' pattern then isDir \<and> name @ ''/'' = pattern
      else \<not> isDir \<and>
        (if is_prefix ''*.'' pattern
         then (let ext = drop 1 pattern in length ext < length name \<and> ends_with ext name)
         else name = pattern))"

definition isInertUnreproduced :: "string \<Rightarrow> bool \<Rightarrow> bool" where
  "isInertUnreproduced entry win32 \<longleftrightarrow>
     (let normalized = forward_slashes entry; isDir = ends_with ''/'' normalized;
          segs = filter (\<lambda>s. s \<noteq> []) (split_on CHR ''/'' normalized);
          fold = (\<lambda>s. if win32 then to_lower s else s) in
      segs \<noteq> [] \<and>
      list_ex (\<lambda>(raw, scope). inert_match (fold (last segs)) isDir (fold raw) \<and> in_inert_scope (map fold (butlast segs)) scope)
        INERT_UNREPRODUCED_SCOPES)"

section \<open>Seams and answers\<close>

record detected_runner =
  dn_pytest :: bool
  dn_cwd :: string

record materialized =
  mz_exact :: bool
  mz_inexact :: "(string \<times> string option) list"
  mz_unreproduced :: "string list"
  mz_toRefPath :: "string \<Rightarrow> string option"

text \<open>Why materialization failed; only a missing commit is told apart.\<close>

record materialize_failure =
  mf_reason :: string
  mf_detail :: string

record rerun_spec =
  rs_cwd :: string

datatype plan_answer = PlanUnverifiable string | PlanNoAffected string | PlanSpec rerun_spec

text \<open>The end of one process run under the scope; \<open>Spawned\<close> has the start error, the timeout flag and the bound.\<close>

datatype blocked = BlockedSlot int bool | BlockedAborted string | BlockedError string

datatype attempt_end = NotRun blocked | Spawned "string option" bool int "string list"

record recheck_seams =
  sm_remaining :: int                                   \<comment> \<open>left of the gate's deadline at the start\<close>
  sm_detect :: "string + (string + detected_runner)"    \<comment> \<open>thrown, or the runner or why there is none\<close>
  sm_closed :: bool
  sm_hold :: "blocked option"                           \<comment> \<open>why the slot is not held\<close>
  sm_gc :: "string + unit"
  sm_left_after_gc :: int
  sm_cut_after_gc :: bool
  sm_materialize :: "string + (materialize_failure + materialized)"
  sm_exists :: "string \<Rightarrow> string + bool"
  sm_entry :: "string + string option"                  \<comment> \<open>why the runner's entry cannot be resolved\<close>
  sm_plan :: "string list \<Rightarrow> string \<Rightarrow> string + plan_answer"
  sm_attempt :: "rerun_spec \<Rightarrow> attempt_end"
  sm_left_after_attempt :: int
  sm_read :: "rerun_spec \<Rightarrow> string + run_result"
  sm_lstat :: "string + unit"

definition RECHECK_MIN_REMAINING_MS :: int where "RECHECK_MIN_REMAINING_MS = 10000"
definition MAX_NAMED_UNREPRODUCED :: nat where "MAX_NAMED_UNREPRODUCED = 5"

definition unusable :: "unusable_cause \<Rightarrow> string \<Rightarrow> recheck_outcome" where
  "unusable cause reason = UnusableRef cause (scrubText reason)"

section \<open>The rerun\<close>

text \<open>\<^verbatim>\<open>P.relative(cwd, abs)\<close>; both are absolute, so the process directory does not matter.\<close>

definition fileKey :: "string \<Rightarrow> string \<Rightarrow> string" where
  "fileKey cwd p = path_relative ''/'' cwd p"

text \<open>The failing files that exist at the reference, and the keys of those that do not.\<close>

fun split_files :: "recheck_seams \<Rightarrow> materialized \<Rightarrow> string \<Rightarrow> string list \<Rightarrow> string + (string list \<times> string list)" where
  "split_files sm ref cwd [] = Inr ([], [])"
| "split_files sm ref cwd (f # fs) =
     (case mz_toRefPath ref f of
        None \<Rightarrow> split_files sm ref cwd fs
      | Some r \<Rightarrow>
          (case sm_exists sm r of
             Inl e \<Rightarrow> Inl e
           | Inr present \<Rightarrow>
               map_sum (\<lambda>e. e)
                 (\<lambda>(again, absent). if present then (r # again, absent) else (again, fileKey cwd f # absent))
                 (split_files sm ref cwd fs)))"

definition hidden_text :: "string list \<Rightarrow> string" where
  "hidden_text hidden =
     ''the reference lacks ignored inputs tests may read: '' @ join_with '', '' (take MAX_NAMED_UNREPRODUCED hidden) @
     (if MAX_NAMED_UNREPRODUCED < length hidden
      then '' and '' @ show_int (int (length hidden - MAX_NAMED_UNREPRODUCED)) @ '' more'' else [])"

text \<open>The run at the reference and its checks, once a spec is planned.\<close>

definition run_spec :: "recheck_seams \<Rightarrow> string list \<Rightarrow> string list \<Rightarrow> rerun_spec \<Rightarrow> recheck_outcome" where
  "run_spec sm rerunList absent spec =
     (case sm_attempt sm spec of
        NotRun (BlockedAborted _) \<Rightarrow> RecheckSkipped (sm_left_after_attempt sm)
      | NotRun (BlockedSlot _ _) \<Rightarrow> unusable RerunError ''the verification slot was not available for the recheck''
      | NotRun (BlockedError reason) \<Rightarrow> unusable RerunError reason
      | Spawned threw timedOut bound notes \<Rightarrow>
          (case sm_read sm spec of
             Inl e \<Rightarrow> unusable RerunError (''reading the recheck result failed: '' @ scrubText e)
           | Inr r \<Rightarrow>
               (case threw of
                  Some e \<Rightarrow> unusable RerunError (''the recheck failed to start: '' @ e)
                | None \<Rightarrow>
                    if timedOut then RecheckTimedOut bound
                    else (case sm_lstat sm of
                       Inl e \<Rightarrow> unusable ReferenceVanished (''the reference worktree vanished during the rerun: '' @ scrubText e)
                     | Inr _ \<Rightarrow>
                         if \<not> rr_complete r then
                           unusable RerunIncomplete (or_else (rr_note r) ''the rerun at the reference reported an incomplete result'')
                         else if rr_collectionError r then
                           unusable RerunCollectionError ''the rerun at the reference failed to collect its tests''
                         else if rr_total r = Some 0 then unusable RerunNoTests ''the rerun at the reference ran no tests''
                         else ExactRecheck
                           \<lparr>ex_result = Some r, ex_ranFiles = map (fileKey (rs_cwd spec)) rerunList, ex_absentFiles = absent,
                            ex_notes = notes @ (case rr_note r of None \<Rightarrow> [] | Some n \<Rightarrow> [n])\<rparr>))))"

definition rerun_planned ::
  "recheck_seams \<Rightarrow> materialized \<Rightarrow> detected_runner \<Rightarrow> string list \<Rightarrow> string list \<Rightarrow> string + recheck_outcome" where
  "rerun_planned sm ref runner rerunList absent =
     (case sm_entry sm of
        Inl e \<Rightarrow> Inl e
      | Inr (Some why) \<Rightarrow> Inr (unusable RerunUnplannable why)
      | Inr None \<Rightarrow>
          (case mz_toRefPath ref (dn_cwd runner) of
             None \<Rightarrow> Inr (unusable RerunUnplannable ''the runner cwd is outside the reference root'')
           | Some refCwd \<Rightarrow>
               (case sm_plan sm rerunList refCwd of
                  Inl e \<Rightarrow> Inl e
                | Inr (PlanUnverifiable why) \<Rightarrow> Inr (unusable RerunUnplannable why)
                | Inr (PlanNoAffected note) \<Rightarrow> Inr (unusable RerunUnplannable (''the rerun planned nothing: '' @ note))
                | Inr (PlanSpec spec) \<Rightarrow> Inr (run_spec sm rerunList absent spec))))"

definition rerunAt ::
  "recheck_seams \<Rightarrow> bool \<Rightarrow> materialized \<Rightarrow> detected_runner \<Rightarrow> string list \<Rightarrow> string + recheck_outcome" where
  "rerunAt sm win32 ref runner failingFiles =
     (let hidden = filter (\<lambda>e. \<not> isInertUnreproduced e win32) (mz_unreproduced ref) in
      if \<not> mz_exact ref then Inr (ApproximateRef (mz_inexact ref))
      else if hidden \<noteq> [] then Inr (unusable UnreproducedInputs (hidden_text hidden))
      else (case split_files sm ref (dn_cwd runner) failingFiles of
          Inl e \<Rightarrow> Inl e
        | Inr (rerunList, absent) \<Rightarrow>
            if rerunList = []
            then Inr (ExactRecheck \<lparr>ex_result = None, ex_ranFiles = [], ex_absentFiles = absent, ex_notes = []\<rparr>)
            else rerun_planned sm ref runner rerunList absent))"

section \<open>The recheck\<close>

definition at_reference :: "recheck_seams \<Rightarrow> bool \<Rightarrow> detected_runner \<Rightarrow> string list \<Rightarrow> string + recheck_outcome" where
  "at_reference sm win32 runner failingFiles =
     (case sm_gc sm of
        Inl e \<Rightarrow> Inl e
      | Inr _ \<Rightarrow>
          if sm_cut_after_gc sm \<or> sm_left_after_gc sm = 0 then Inr (RecheckSkipped (sm_left_after_gc sm))
          else (case sm_materialize sm of
              Inl e \<Rightarrow> Inl e
            | Inr (Inl failure) \<Rightarrow>
                Inr (if mf_reason failure = ''commit-missing''
                     then unusable ReferenceVanished (''the reference commit is gone: '' @ mf_detail failure)
                     else unusable MaterializeFailed (''materialize '' @ mf_reason failure @ '': '' @ mf_detail failure))
            | Inr (Inr ref) \<Rightarrow> rerunAt sm win32 ref runner failingFiles))"

definition recheck_steps :: "recheck_seams \<Rightarrow> bool \<Rightarrow> string list \<Rightarrow> string + recheck_outcome" where
  "recheck_steps sm win32 failingFiles =
     (if sm_remaining sm < RECHECK_MIN_REMAINING_MS then Inr (RecheckSkipped (sm_remaining sm))
      else (case sm_detect sm of
          Inl e \<Rightarrow> Inl e
        | Inr (Inl why) \<Rightarrow> Inr (unusable RerunUnplannable why)
        | Inr (Inr runner) \<Rightarrow>
            if dn_pytest runner then
              Inr (unusable RunnerUnsupported
                ''pytest cannot be pinned to the reference: an editable install imports the live sources'')
            else if sm_closed sm then Inr (unusable RerunError ''verification scope already closed'')
            else (case sm_hold sm of
                Some (BlockedError reason) \<Rightarrow> Inr (unusable RerunError reason)
              | Some _ \<Rightarrow> Inr (unusable RerunError ''the verification slot was not available for the recheck'')
              | None \<Rightarrow> at_reference sm win32 runner failingFiles)))"

text \<open>\<open>rechecker\<close>: a thrown error ends as an unusable reference.\<close>

definition rechecker :: "recheck_seams \<Rightarrow> bool \<Rightarrow> string list \<Rightarrow> recheck_outcome" where
  "rechecker sm win32 failingFiles =
     (case recheck_steps sm win32 failingFiles of
        Inr out \<Rightarrow> out
      | Inl e \<Rightarrow> unusable RerunError (''the reference recheck errored: '' @ scrubText e))"

section \<open>The direct hook\<close>

text \<open>\<open>recheckFor\<close>: only a run with failing ids and failing files is rechecked, and only against a capture.\<close>

definition recheckFor :: "(string list \<Rightarrow> recheck_outcome) \<Rightarrow> reference_state \<Rightarrow> bool \<Rightarrow> scoped_outcome \<Rightarrow> recheck_outcome option" where
  "recheckFor rc ref failureRecheck scoped =
     (case scoped of
        Ran c _ _ _ \<Rightarrow>
          if rr_failingIds c = [] \<or> rr_failingFiles c = [] then None
          else if ref = RefDisabled \<or> \<not> failureRecheck then Some RecheckDisabled
          else (case ref of
              RefNone reason \<Rightarrow> Some (UnusableRef NoReference reason)
            | RefCaptured _ \<Rightarrow> Some (rc (rr_failingFiles c))
            | RefDisabled \<Rightarrow> Some RecheckDisabled)
      | _ \<Rightarrow> None)"

section \<open>What an exact recheck guarantees\<close>

text \<open>The reference stands for the tree at dispatch: rebuilt exactly, and what it lacks no test reads.\<close>

definition comparable_reference :: "recheck_seams \<Rightarrow> bool \<Rightarrow> materialized \<Rightarrow> bool" where
  "comparable_reference sm win32 ref \<longleftrightarrow>
     sm_materialize sm = Inr (Inr ref) \<and> mz_exact ref \<and> list_all (\<lambda>e. isInertUnreproduced e win32) (mz_unreproduced ref)"

definition sound_rerun :: "run_result \<Rightarrow> bool" where
  "sound_rerun r \<longleftrightarrow> rr_complete r \<and> \<not> rr_collectionError r \<and> rr_total r \<noteq> Some 0"

lemma not_exact [simp]: "unusable cause reason \<noteq> ExactRecheck ex"
  by (simp add: unusable_def)

text \<open>
  The rerun that was made: the failing files that exist at the comparable reference are planned there, and the planned
  process runs to its end in time, in a worktree that is still there; its report reads as \<open>r\<close>.
\<close>

definition reference_rerun :: "recheck_seams \<Rightarrow> bool \<Rightarrow> string list \<Rightarrow> string list \<Rightarrow> rerun_spec \<Rightarrow> run_result \<Rightarrow> bool" where
  "reference_rerun sm w files again spec r \<longleftrightarrow>
     (\<exists>ref runner absent refCwd b notes.
        comparable_reference sm w ref \<and> sm_detect sm = Inr (Inr runner) \<and> \<not> dn_pytest runner \<and>
        split_files sm ref (dn_cwd runner) files = Inr (again, absent) \<and>
        mz_toRefPath ref (dn_cwd runner) = Some refCwd \<and> sm_plan sm again refCwd = Inr (PlanSpec spec) \<and>
        sm_attempt sm spec = Spawned None False b notes \<and> sm_lstat sm = Inr () \<and> sm_read sm spec = Inr r)"

text \<open>An exact answer with a result: the result is that of a sound rerun that was made, and its files are those rerun.\<close>

definition backed_by_rerun :: "recheck_seams \<Rightarrow> bool \<Rightarrow> string list \<Rightarrow> exact_recheck \<Rightarrow> bool" where
  "backed_by_rerun sm w files ex \<longleftrightarrow>
     (\<forall>r. ex_result ex = Some r \<longrightarrow> sound_rerun r \<and>
        (\<exists>again spec. reference_rerun sm w files again spec r \<and> ex_ranFiles ex = map (fileKey (rs_cwd spec)) again))"

lemma run_spec_exact:
  assumes "run_spec sm again absent spec = ExactRecheck ex"
  shows "\<exists>r b notes. ex_result ex = Some r \<and> sm_attempt sm spec = Spawned None False b notes \<and> sm_lstat sm = Inr () \<and>
    sm_read sm spec = Inr r \<and> sound_rerun r \<and> ex_ranFiles ex = map (fileKey (rs_cwd spec)) again"
  using assms by (auto simp: run_spec_def sound_rerun_def split: attempt_end.splits blocked.splits sum.splits option.splits if_splits)

lemma planned_exact:
  assumes "rerun_planned sm ref runner again absent = Inr (ExactRecheck ex)"
  shows "\<exists>refCwd spec. mz_toRefPath ref (dn_cwd runner) = Some refCwd \<and> sm_plan sm again refCwd = Inr (PlanSpec spec) \<and>
    run_spec sm again absent spec = ExactRecheck ex"
  using assms by (auto simp: rerun_planned_def split: sum.splits option.splits plan_answer.splits)

lemma rerunAt_exact:
  assumes "rerunAt sm w ref runner fs = Inr (ExactRecheck ex)"
  shows "mz_exact ref" and "list_all (\<lambda>e. isInertUnreproduced e w) (mz_unreproduced ref)"
    and "ex_result ex = None \<or> (\<exists>again absent. split_files sm ref (dn_cwd runner) fs = Inr (again, absent) \<and>
           rerun_planned sm ref runner again absent = Inr (ExactRecheck ex))"
  using assms by (auto simp: rerunAt_def Let_def list_all_iff filter_empty_conv split: if_splits sum.splits)

lemma rechecker_exact:
  assumes "rechecker sm w fs = ExactRecheck ex"
  shows "RECHECK_MIN_REMAINING_MS \<le> sm_remaining sm" and "backed_by_rerun sm w fs ex"
proof -
  have steps: "recheck_steps sm w fs = Inr (ExactRecheck ex)"
    using assms by (auto simp: rechecker_def split: sum.splits)
  then obtain runner where at: "at_reference sm w runner fs = Inr (ExactRecheck ex)"
    and runner: "sm_detect sm = Inr (Inr runner)" "\<not> dn_pytest runner"
    and left: "RECHECK_MIN_REMAINING_MS \<le> sm_remaining sm"
    by (auto simp: recheck_steps_def split: if_splits sum.splits option.splits blocked.splits)
  from at obtain ref where m: "sm_materialize sm = Inr (Inr ref)" and r: "rerunAt sm w ref runner fs = Inr (ExactRecheck ex)"
    by (auto simp: at_reference_def split: if_splits sum.splits)
  have ref: "comparable_reference sm w ref"
    using m rerunAt_exact(1,2) [OF r] by (simp add: comparable_reference_def)
  show "RECHECK_MIN_REMAINING_MS \<le> sm_remaining sm" by (fact left)
  show "backed_by_rerun sm w fs ex"
  proof (cases "ex_result ex")
    case (Some res)
    with rerunAt_exact(3) [OF r] obtain again absent refCwd spec where
      "split_files sm ref (dn_cwd runner) fs = Inr (again, absent)" "mz_toRefPath ref (dn_cwd runner) = Some refCwd"
      "sm_plan sm again refCwd = Inr (PlanSpec spec)" "run_spec sm again absent spec = ExactRecheck ex"
      using planned_exact by (metis option.distinct(1))
    with Some runner ref run_spec_exact [of sm again absent spec ex] show ?thesis
      unfolding backed_by_rerun_def reference_rerun_def by (metis option.inject)
  qed (simp add: backed_by_rerun_def)
qed

text \<open>An id that is proven pre-existing fails in the rerun.\<close>

lemma preexisting_in_rerun:
  assumes "proven_preexisting ex x"
  shows "\<exists>r. ex_result ex = Some r \<and> x \<in> set (rr_failingIds r)"
  using assms by (cases "ex_result ex") (simp_all add: proven_preexisting_def failing_at_def)

lemma recheckFor_exact:
  assumes "recheckFor rc ref on (Ran c code rn notes) = Some (ExactRecheck ex)"
  shows "rc (rr_failingFiles c) = ExactRecheck ex" and "on" and "\<exists>d. ref = RefCaptured d"
  using assms by (auto simp: recheckFor_def split: if_splits reference_state.splits)

text \<open>
  (C5) A failing run is excused only by evidence. When the direct hook's recheck lets a scoped run with failing tests
  pass, a dispatch reference was captured and rechecking is on, at least ten seconds of the gate's budget were left, and the
  failing files were rerun at a reference that was rebuilt exactly and lacks only files no test reads. The report read from
  that very rerun, which ended by itself in time, is complete, collected every test and ran some; each failing test
  of the scoped run is an individual test, its file was among those rerun there, and it fails in that report too.
\<close>

theorem excuse_rests_on_reference:
  assumes "jd_ok (judgeScoped (Ran c code rn notes) (recheckFor (rechecker sm w) ref on (Ran c code rn notes)))"
    and "rr_failingIds c \<noteq> []"
  shows "on \<and> (\<exists>d. ref = RefCaptured d) \<and> RECHECK_MIN_REMAINING_MS \<le> sm_remaining sm \<and>
    (\<exists>again spec r. reference_rerun sm w (rr_failingFiles c) again spec r \<and>
       rr_complete r \<and> \<not> rr_collectionError r \<and> rr_total r \<noteq> Some 0 \<and>
       (\<forall>x \<in> set (rr_failingIds c). x \<in> set (rr_failingIds r) \<and> \<not> is_file_id x \<and>
          fileKeyOfId x \<in> fileKey (rs_cwd spec) ` set again))"
proof -
  obtain ex where rf: "recheckFor (rechecker sm w) ref on (Ran c code rn notes) = Some (ExactRecheck ex)"
    and all: "list_all (proven_preexisting ex) (rr_failingIds c)"
    using assms by (auto simp: judge_ran_ok green_run_def)
  note rc = recheckFor_exact [OF rf] and ok = rechecker_exact [OF recheckFor_exact(1) [OF rf]]
  obtain r where r: "ex_result ex = Some r"
    using all assms(2) preexisting_in_rerun by (cases "rr_failingIds c") auto
  with ok(2) obtain again spec where sound: "sound_rerun r" and made: "reference_rerun sm w (rr_failingFiles c) again spec r"
    and files: "ex_ranFiles ex = map (fileKey (rs_cwd spec)) again"
    by (auto simp: backed_by_rerun_def)
  have "\<forall>x \<in> set (rr_failingIds c). x \<in> set (rr_failingIds r) \<and> \<not> is_file_id x \<and> fileKeyOfId x \<in> fileKey (rs_cwd spec) ` set again"
    using all r files by (auto simp: list_all_iff proven_preexisting_def failing_at_def reran_def)
  with rc(2,3) ok(1) sound made show ?thesis unfolding sound_rerun_def by blast
qed

text \<open>A run with one old failure, rerun at an exact reference that lacks a cache.\<close>

definition demo_scoped_run :: run_result where
  "demo_scoped_run = \<lparr>rr_failingIds = [''a.test.ts > old''], rr_failingFiles = [''/w/a.test.ts''], rr_collectionError = False,
     rr_total = Some 3, rr_complete = True, rr_source = FromReport, rr_note = None\<rparr>"

definition demo_reference :: materialized where
  "demo_reference = \<lparr>mz_exact = True, mz_inexact = [], mz_unreproduced = [''src/__pycache__/''],
     mz_toRefPath = (\<lambda>p. Some (''/ref'' @ drop 2 p))\<rparr>"

definition demo_seams :: recheck_seams where
  "demo_seams = \<lparr>sm_remaining = 60000, sm_detect = Inr (Inr \<lparr>dn_pytest = False, dn_cwd = ''/w''\<rparr>), sm_closed = False,
     sm_hold = None, sm_gc = Inr (), sm_left_after_gc = 50000, sm_cut_after_gc = False,
     sm_materialize = Inr (Inr demo_reference), sm_exists = (\<lambda>_. Inr True), sm_entry = Inr None,
     sm_plan = (\<lambda>_ cwd. Inr (PlanSpec \<lparr>rs_cwd = cwd\<rparr>)), sm_attempt = (\<lambda>_. Spawned None False 40000 []),
     sm_left_after_attempt = 30000, sm_read = (\<lambda>_. Inr demo_scoped_run), sm_lstat = Inr ()\<rparr>"

definition demo_ref_state :: reference_state where
  "demo_ref_state = RefCaptured \<lparr>dr_untracked = [], dr_tracked = []\<rparr>"

theorem excuse_rests_on_reference_witness:
  "\<exists>again spec r. reference_rerun demo_seams False [''/w/a.test.ts''] again spec r \<and> rr_complete r \<and>
     ''a.test.ts > old'' \<in> set (rr_failingIds r)"
proof -
  have ok: "jd_ok (judgeScoped (Ran demo_scoped_run 1 (Some ''vitest'') [])
      (recheckFor (rechecker demo_seams False) demo_ref_state True (Ran demo_scoped_run 1 (Some ''vitest'') [])))"
    by code_simp
  have ids: "rr_failingIds demo_scoped_run = [''a.test.ts > old'']" "rr_failingFiles demo_scoped_run = [''/w/a.test.ts'']"
    by (simp_all add: demo_scoped_run_def)
  then have "rr_failingIds demo_scoped_run \<noteq> []" by simp
  from excuse_rests_on_reference [OF ok this] ids show ?thesis by auto
qed

text \<open>A path under a test directory is never inert as a package artefact: only caches written everywhere are.\<close>

lemma fixture_is_not_inert:
  assumes "isInertUnreproduced entry False"
    and "list_ex (\<lambda>s. s \<in> set TEST_DIR_NAMES) (butlast (filter (\<lambda>s. s \<noteq> []) (split_on CHR ''/'' (forward_slashes entry))))"
  shows "\<exists>raw. (raw, InertAnywhere) \<in> set INERT_UNREPRODUCED_SCOPES \<and>
     inert_match (last (filter (\<lambda>s. s \<noteq> []) (split_on CHR ''/'' (forward_slashes entry)))) (ends_with ''/'' (forward_slashes entry)) raw"
  using assms
  by (auto simp: isInertUnreproduced_def Let_def in_inert_scope_def list_ex_iff)

end
