(* ===== verification/Checks.thy ===== *)
theory Checks
  imports Recheck
begin

text \<open>
  The deterministic verifier, \<^verbatim>\<open>src/verify/deterministic.ts\<close>: the command allowlist, the shape check, one runner per
  check kind and \<open>runDeterministic\<close>. The file system, the process seams, the test hook and \<^verbatim>\<open>JSON.parse\<close> are the
  fields of \<open>check_world\<close>, one world per check, each answering or throwing (\<open>Inl\<close> the error text). A check
  result is a \<open>judgement\<close>, the structure the source shares. The per-directory mutex only orders checks of other
  verifications and does not change a result.
\<close>

section \<open>Command validation\<close>

definition DEFAULT_ALLOWLIST :: "string list" where
  "DEFAULT_ALLOWLIST =
     [''npm'', ''npx'', ''pnpm'', ''yarn'', ''bun'', ''node'',
      ''tsc'', ''tsx'', ''vitest'', ''jest'', ''eslint'', ''prettier'', ''pytest'']"

definition shell_char :: "char \<Rightarrow> bool" where
  "shell_char c \<longleftrightarrow> c \<in> set (CHR 0x60 # CHR 0x0A # '';&|$><'')"

definition FORBIDDEN_SHELL :: rx where
  "FORBIDDEN_SHELL = either [One shell_char, Lit ''$('', Lit ''&&'', Lit ''||'']"

definition INTERPRETERS :: "string list" where
  "INTERPRETERS = [''node'', ''deno'', ''bun'', ''tsx'', ''ts-node'', ''python'', ''python3'', ''ruby'', ''perl'']"

definition EVAL_FLAG_RE :: rx where
  "EVAL_FLAG_RE =
     either [chain [TextStart, LitI ''-'', either [LitI ''e'', LitI ''c'', LitI ''p''], TextEnd],
             chain [TextStart, LitI ''--'', either [LitI ''eval'', LitI ''print''], either [LitI ''='', TextEnd]]]"

text \<open>\<^verbatim>\<open>s.split(/\s+/)\<close>.\<close>

fun split_spaces :: "string \<Rightarrow> string list" where
  "split_spaces [] = [[]]"
| "split_spaces (c # cs) =
     (if is_space c
      then (case cs of [] \<Rightarrow> [[], []] | d # _ \<Rightarrow> if is_space d then split_spaces cs else [] # split_spaces cs)
      else (case split_spaces cs of [] \<Rightarrow> [[c]] | w # ws \<Rightarrow> (c # w) # ws))"

definition basename :: "string \<Rightarrow> string" where
  "basename token = last (split_on CHR ''/'' (forward_slashes token))"

text \<open>\<^verbatim>\<open>.replace(/\.(exe|cmd|bat)$/i, "")\<close>.\<close>

definition strip_exe :: "string \<Rightarrow> string" where
  "strip_exe s = (if list_ex (\<lambda>x. ends_with x (to_lower s)) [''.exe'', ''.cmd'', ''.bat''] then take (length s - 4) s else s)"

definition isCommandAllowed :: "string \<Rightarrow> string list \<Rightarrow> bool" where
  "isCommandAllowed command allowlist \<longleftrightarrow>
     (let trimmed = trim command; tokens = split_spaces trimmed; base = basename (hd tokens) in
      if trimmed = [] \<or> rx_test FORBIDDEN_SHELL command then False
      else if strip_exe base = ''uv'' then
        ''pytest'' \<in> set allowlist \<and> 2 < length tokens \<and> tokens ! 1 = ''run'' \<and> tokens ! 2 = ''pytest''
      else if base \<notin> set allowlist then False
      else \<not> (strip_exe base \<in> set INTERPRETERS \<and> list_ex (rx_test EVAL_FLAG_RE) (tl tokens)))"

section \<open>Shapes\<close>

text \<open>
  A value the shape check meets on the target's side: a parsed document, a method every object inherits,
  or the prototype object itself (\<^verbatim>\<open>k in obj\<close> and \<^verbatim>\<open>obj[k]\<close> see inherited names).
\<close>

datatype target = TDoc jdoc | TFunction | TPrototype

definition PROTOTYPE_METHODS :: "string list" where
  "PROTOTYPE_METHODS =
     [''constructor'', ''__defineGetter__'', ''__defineSetter__'', ''hasOwnProperty'', ''__lookupGetter__'', ''__lookupSetter__'',
      ''isPrototypeOf'', ''propertyIsEnumerable'', ''toString'', ''valueOf'', ''toLocaleString'']"

fun get_property :: "target \<Rightarrow> string \<Rightarrow> target option" where
  "get_property (TDoc (DObj fs)) k =
     (case map_of fs k of
        Some v \<Rightarrow> Some (TDoc v)
      | None \<Rightarrow> if k = ''__proto__'' then Some TPrototype else if k \<in> set PROTOTYPE_METHODS then Some TFunction else None)"
| "get_property TPrototype k =
     (if k = ''__proto__'' then Some (TDoc DNull) else if k \<in> set PROTOTYPE_METHODS then Some TFunction else None)"
| "get_property _ k = None"

fun typeof :: "target \<Rightarrow> string" where
  "typeof (TDoc (DBool b)) = ''boolean''"
| "typeof (TDoc (DNum x)) = ''number''"
| "typeof (TDoc (DStr s)) = ''string''"
| "typeof TFunction = ''function''"
| "typeof _ = ''object''"

fun is_record :: "target \<Rightarrow> bool" where
  "is_record (TDoc (DObj fs)) = True"
| "is_record TPrototype = True"
| "is_record _ = False"

fun is_list :: "target \<Rightarrow> bool" where
  "is_list (TDoc (DArr xs)) = True"
| "is_list _ = False"

definition at_root :: "string \<Rightarrow> string" where
  "at_root path = (if path = [] then ''<root>'' else path)"

text \<open>The schema's keys in enumeration order; the first mismatch is the answer.\<close>

function (sequential) shapeMismatch :: "jdoc \<Rightarrow> target \<Rightarrow> string \<Rightarrow> string option"
  and fields_mismatch :: "(string \<times> jdoc) list \<Rightarrow> target \<Rightarrow> string \<Rightarrow> string option" where
  "shapeMismatch (DObj fs) t path =
     (if is_record t then fields_mismatch fs t path else Some (at_root path @ '': expected object''))"
| "shapeMismatch (DArr xs) t path =
     (if is_list t then None else Some (at_root path @ '': expected array''))"
| "shapeMismatch s t path =
     (if typeof (TDoc s) \<noteq> typeof t
      then Some (at_root path @ '': expected '' @ typeof (TDoc s) @ '', got '' @ typeof t) else None)"
| "fields_mismatch [] t path = None"
| "fields_mismatch ((k, v) # fs) t path =
     (case get_property t k of
        None \<Rightarrow> Some (path @ k @ '': missing'')
      | Some w \<Rightarrow>
          (case shapeMismatch v w (path @ k @ ''.'') of
             Some m \<Rightarrow> Some m
           | None \<Rightarrow> fields_mismatch fs t path))"
  by pat_completeness auto
termination
  by (relation "measure (case_sum (\<lambda>(s, _, _). size s) (\<lambda>(fs, _, _). size_list (size_prod (\<lambda>_. 0) size) fs))")
    auto

section \<open>Worlds\<close>

record exec_result =
  xr_code :: int
  xr_stdout :: string
  xr_stderr :: string
  xr_timedOut :: bool

datatype command_outcome =
    CmdBlocked blocked
  | CmdRan exec_result "string list"
  | CmdTimedOut int

datatype launch = LaunchShell string | LaunchLint "string list"
datatype lint_plan = LintUnscoped | LintNoAffected string | LintScoped "string list"
datatype test_scope = ScopeAffected | ScopeFull

record tests_request =
  tq_command :: string
  tq_cwd :: string
  tq_scope :: test_scope
  tq_changed :: change_set
  tq_reference :: reference_state

record check_config =
  cc_cwd :: string
  cc_timeoutMs :: int
  cc_allowlist :: "string list"
  cc_testCommand :: "string option"
  cc_buildCommand :: "string option"
  cc_lintCommand :: "string option"
  cc_scoped :: bool                    \<comment> \<open>\<open>openScope\<close> is wired\<close>
  cc_testScope :: test_scope
  cc_failureRecheck :: bool
  cc_changedFiles :: change_set
  cc_reference :: "reference_state option"
  cc_noAffectedUnverifiable :: "string option"

record check_world =
  cw_exists :: "string \<Rightarrow> string + bool"
  cw_read :: "string \<Rightarrow> string + string"
  cw_exec :: "string \<Rightarrow> string + exec_result"
  cw_launch :: "launch \<Rightarrow> string + command_outcome"
  cw_left :: int                                                        \<comment> \<open>of the deadline after the run\<close>
  cw_tests :: "(tests_request \<Rightarrow> string + (scoped_outcome \<times> recheck_outcome option)) option"
  cw_planLint :: "string \<Rightarrow> string + lint_plan"
  cw_parse :: "string \<Rightarrow> string + jdoc"

type_synonym check_result = judgement

definition passed_check :: "string \<Rightarrow> check_result" where
  "passed_check evidence = judged_ok\<lparr>jd_evidence := Some evidence\<rparr>"

definition failed_check :: "string \<Rightarrow> check_result" where
  "failed_check reason = judged_ok\<lparr>jd_ok := False, jd_reason := Some reason\<rparr>"

abbreviation unverified_check :: "string \<Rightarrow> check_result" where
  "unverified_check reason \<equiv> judged_unverifiable reason None"

text \<open>\<^verbatim>\<open>!s\<close> on an optional string.\<close>

definition given :: "string option \<Rightarrow> string option" where
  "given s = (if s = Some [] then None else s)"

definition text_includes :: "string \<Rightarrow> string \<Rightarrow> bool" where
  "text_includes sub s \<longleftrightarrow> sub = [] \<or> index_of_text sub s \<noteq> None"

section \<open>Running a command\<close>

definition withNotes :: "string list \<Rightarrow> check_result \<Rightarrow> check_result" where
  "withNotes notes r = (if notes = [] then r else r\<lparr>jd_note := Some (join_with ''; '' notes)\<rparr>)"

definition SLOT_DEADLINE_REASON :: string where
  "SLOT_DEADLINE_REASON = ''gate budget exhausted waiting for the verification slot''"

fun blockedResult :: "string \<Rightarrow> string \<Rightarrow> blocked \<Rightarrow> check_result" where
  "blockedResult kind command (BlockedSlot waited by_deadline) =
     unverified_check (if by_deadline then SLOT_DEADLINE_REASON else ''verification slot busy (waited '' @ show_int waited @ ''ms)'')"
| "blockedResult kind command (BlockedAborted reason) = unverified_check (kind @ '': '' @ reason @ '': '' @ command)"
| "blockedResult kind command (BlockedError reason) = unverified_check (kind @ '' check errored: '' @ scrubText reason)"

definition timed_out_result :: "string \<Rightarrow> string \<Rightarrow> int \<Rightarrow> int \<Rightarrow> check_result" where
  "timed_out_result kind command bound left =
     (if left = 0 then unverified_check (kind @ '': gate budget exhausted during the run: '' @ command)
      else failed_check (kind @ '' timed out after '' @ show_int bound @ ''ms: '' @ command))"

text \<open>Thrown, or the check's result, or the finished command with the scope's notes.\<close>

definition obtainExec ::
  "check_config \<Rightarrow> check_world \<Rightarrow> string \<Rightarrow> string \<Rightarrow> launch \<Rightarrow> string + (check_result + (exec_result \<times> string list))" where
  "obtainExec cfg w kind command launch =
     (if \<not> cc_scoped cfg then
        (case cw_exec w command of
           Inl e \<Rightarrow> Inl e
         | Inr r \<Rightarrow>
             if xr_timedOut r
             then Inr (Inl (failed_check (kind @ '' timed out after '' @ show_int (cc_timeoutMs cfg) @ ''ms: '' @ command)))
             else Inr (Inr (r, [])))
      else
        (case cw_launch w launch of
           Inl e \<Rightarrow> Inl e
         | Inr (CmdRan r notes) \<Rightarrow> Inr (Inr (r, notes))
         | Inr (CmdBlocked b) \<Rightarrow> Inr (Inl (blockedResult kind command b))
         | Inr (CmdTimedOut bound) \<Rightarrow> Inr (Inl (timed_out_result kind command bound (cw_left w)))))"

definition output_of :: "exec_result \<Rightarrow> string" where
  "output_of r = xr_stdout r @ [CHR 0x0A] @ xr_stderr r"

definition failed_with_output :: "string \<Rightarrow> exec_result \<Rightarrow> check_result" where
  "failed_with_output reason r = (failed_check reason)\<lparr>jd_evidence := Some (take 2000 (output_of r))\<rparr>"

section \<open>One runner per kind\<close>

definition quoted :: "string \<Rightarrow> string" where
  "quoted s = [CHR 0x27] @ s @ [CHR 0x27]"

definition runFileExists :: "check_config \<Rightarrow> check_world \<Rightarrow> check \<Rightarrow> check_result" where
  "runFileExists cfg w c =
     (case given (ck_path c) of
        None \<Rightarrow> failed_check (''fileExists check missing '' @ quoted ''path'')
      | Some path \<Rightarrow>
          if cc_cwd cfg = [] \<and> \<not> isAbsolute path
          then unverified_check (''fileExists path cannot be resolved without a declared working directory: '' @ path)
          else (let resolved = resolveAgainst (cc_cwd cfg) path in
            (case cw_exists w resolved of
               Inl e \<Rightarrow> failed_check (''fileExists check errored: '' @ scrubText e)
             | Inr found \<Rightarrow>
                 if found then passed_check (''exists: '' @ path)
                 else if isAbsolute path then failed_check (''file not found: '' @ resolved)
                 else failed_check (''file not found in '' @ cc_cwd cfg @ '': '' @ path))))"

definition runRun :: "check_config \<Rightarrow> check_world \<Rightarrow> check \<Rightarrow> check_result" where
  "runRun cfg w c =
     (case given (ck_command c) of
        None \<Rightarrow> failed_check (''run check missing '' @ quoted ''command'')
      | Some command \<Rightarrow>
          if \<not> isCommandAllowed command (cc_allowlist cfg) then unverified_check (''command not allowlisted: '' @ command)
          else (case obtainExec cfg w ''run'' command (LaunchShell command) of
              Inl e \<Rightarrow> failed_check (''run check errored: '' @ scrubText e)
            | Inr (Inl r) \<Rightarrow> r
            | Inr (Inr (r, notes)) \<Rightarrow>
                (let unexpected = (case ck_expect c of None \<Rightarrow> None
                      | Some e \<Rightarrow> if text_includes e (output_of r) then None else Some e) in
                 withNotes notes
                   (case unexpected of
                      Some e \<Rightarrow> failed_with_output (''expected substring not found: \"'' @ e @ ''\"'') r
                    | None \<Rightarrow>
                        if xr_code r = 0 then passed_check (''exit 0: '' @ command)
                        else failed_with_output (''command exited '' @ show_int (xr_code r) @ '': '' @ command) r))))"

datatype repo_kind = KindTests | KindBuild | KindLint

fun kind_text :: "repo_kind \<Rightarrow> string" where
  "kind_text KindTests = ''testsPass''"
| "kind_text KindBuild = ''buildPasses''"
| "kind_text KindLint = ''lintClean''"

definition resolveRepoCommand :: "check \<Rightarrow> repo_kind \<Rightarrow> check_config \<Rightarrow> string" where
  "resolveRepoCommand c kind cfg =
     (case given (ck_command c) of
        Some command \<Rightarrow> command
      | None \<Rightarrow>
          (case kind of
             KindTests \<Rightarrow> or_else (cc_testCommand cfg) ''npm test''
           | KindBuild \<Rightarrow> or_else (cc_buildCommand cfg) ''npm run build''
           | KindLint \<Rightarrow> or_else (cc_lintCommand cfg) ''npm run lint''))"

definition planLint :: "check_config \<Rightarrow> check_world \<Rightarrow> string \<Rightarrow> lint_plan" where
  "planLint cfg w command =
     (if cc_cwd cfg = [] \<or> \<not> isAbsolute (cc_cwd cfg) then LintUnscoped
      else (case cw_planLint w command of Inl e \<Rightarrow> LintUnscoped | Inr plan \<Rightarrow> plan))"

definition REFERENCE_UNTRACKED :: string where "REFERENCE_UNTRACKED = ''the dispatch was not tracked''"

definition defaultReference :: "check_config \<Rightarrow> reference_state" where
  "defaultReference cfg = (if cc_failureRecheck cfg then RefNone REFERENCE_UNTRACKED else RefDisabled)"

definition NO_TESTS_PASS_HOOK :: string where
  "NO_TESTS_PASS_HOOK = ''testsPass: not run: no scoped test pipeline is wired for this verification''"

definition judge_tests :: "check_config \<Rightarrow> scoped_outcome \<Rightarrow> recheck_outcome option \<Rightarrow> check_result" where
  "judge_tests cfg scoped recheck =
     (case (cc_noAffectedUnverifiable cfg, scoped) of
        (Some carried, NoAffectedRun note) \<Rightarrow> unverified_check (carried @ '' (testsPass: '' @ note @ '')'')
      | _ \<Rightarrow> judgeScoped scoped recheck)"

definition runTestsPass :: "check_config \<Rightarrow> check_world \<Rightarrow> string \<Rightarrow> check_result" where
  "runTestsPass cfg w command =
     (case cw_tests w of
        None \<Rightarrow> unverified_check (NO_TESTS_PASS_HOOK @ '': '' @ command)
      | Some hook \<Rightarrow>
          if cc_cwd cfg = [] \<or> \<not> isAbsolute (cc_cwd cfg)
          then unverified_check (''testsPass cannot run without an absolute working directory: '' @ command)
          else (case hook \<lparr>tq_command = command, tq_cwd = cc_cwd cfg, tq_scope = cc_testScope cfg,
                           tq_changed = cc_changedFiles cfg,
                           tq_reference = or_else (cc_reference cfg) (defaultReference cfg)\<rparr> of
              Inl e \<Rightarrow> unverified_check (''testsPass check errored: '' @ scrubText e)
            | Inr (scoped, recheck) \<Rightarrow> judge_tests cfg scoped recheck))"

text \<open>The command of a build check that names none: the package's build script, or the compiler's check of a root config.\<close>

definition script_named :: "string \<Rightarrow> jdoc \<Rightarrow> bool" where
  "script_named name pkg \<longleftrightarrow>
     (case Option.bind (as_obj pkg) (\<lambda>fs. Option.bind (map_of fs ''scripts'') as_obj) of
        None \<Rightarrow> False
      | Some scripts \<Rightarrow>
          (case Option.bind (map_of scripts name) as_str of None \<Rightarrow> False | Some script \<Rightarrow> trim script \<noteq> []))"

definition has_build :: "check_config \<Rightarrow> check_world \<Rightarrow> string + bool" where
  "has_build cfg w =
     (let packagePath = resolveAgainst (cc_cwd cfg) ''package.json'' in
      (case cw_exists w packagePath of
         Inl e \<Rightarrow> Inl e
       | Inr found \<Rightarrow>
           if \<not> found then Inr False
           else (case cw_read w packagePath of
               Inl e \<Rightarrow> Inl e
             | Inr txt \<Rightarrow> map_sum (\<lambda>e. e) (script_named ''build'') (cw_parse w txt))))"

definition probe_build :: "check_config \<Rightarrow> check_world \<Rightarrow> check_result + string" where
  "probe_build cfg w =
     (case has_build cfg w of
        Inl e \<Rightarrow> Inl (unverified_check (''buildPasses probe failed: '' @ scrubText e))
      | Inr True \<Rightarrow> Inr ''npm run build''
      | Inr False \<Rightarrow>
          (case cw_exists w (resolveAgainst (cc_cwd cfg) ''tsconfig.json'') of
             Inl e \<Rightarrow> Inl (unverified_check (''buildPasses probe failed: '' @ scrubText e))
           | Inr True \<Rightarrow> Inr ''npx tsc --noEmit''
           | Inr False \<Rightarrow> Inl (unverified_check ''buildPasses: no build script or root tsconfig.json'')))"

definition repo_command :: "check_config \<Rightarrow> check_world \<Rightarrow> check \<Rightarrow> repo_kind \<Rightarrow> check_result + string" where
  "repo_command cfg w c kind =
     (if kind = KindBuild \<and> given (ck_command c) = None \<and> given (cc_buildCommand cfg) = None
      then probe_build cfg w else Inr (resolveRepoCommand c kind cfg))"

definition finish_command :: "string \<Rightarrow> string \<Rightarrow> exec_result \<Rightarrow> string list \<Rightarrow> check_result" where
  "finish_command command scoped r notes =
     withNotes notes
       (if xr_code r = 0 then passed_check (''exit 0: '' @ command @ scoped)
        else failed_with_output (''command exited '' @ show_int (xr_code r) @ '': '' @ command @ scoped) r)"

definition run_launch :: "check_config \<Rightarrow> check_world \<Rightarrow> repo_kind \<Rightarrow> string \<Rightarrow> launch \<Rightarrow> string \<Rightarrow> check_result" where
  "run_launch cfg w kind command launch scoped =
     (case obtainExec cfg w (kind_text kind) command launch of
        Inl e \<Rightarrow> failed_check (kind_text kind @ '' check errored: '' @ scrubText e)
      | Inr (Inl r) \<Rightarrow> r
      | Inr (Inr (r, notes)) \<Rightarrow> finish_command command scoped r notes)"

definition run_lint :: "check_config \<Rightarrow> check_world \<Rightarrow> string \<Rightarrow> check_result" where
  "run_lint cfg w command =
     (case planLint cfg w command of
        LintUnscoped \<Rightarrow> run_launch cfg w KindLint command (LaunchShell command) []
      | LintNoAffected note \<Rightarrow>
          (case cc_noAffectedUnverifiable cfg of
             Some carried \<Rightarrow> unverified_check (carried @ '' (lintClean: '' @ note @ '')'')
           | None \<Rightarrow> judged_ok\<lparr>jd_note := Some (''lintClean: '' @ note)\<rparr>)
      | LintScoped inputs \<Rightarrow>
          run_launch cfg w KindLint command (LaunchLint inputs)
            ('' (scoped to '' @ show_int (int (length inputs)) @ '' changed files)''))"

definition runCommandCheck :: "check_config \<Rightarrow> check_world \<Rightarrow> repo_kind \<Rightarrow> check \<Rightarrow> check_result" where
  "runCommandCheck cfg w kind c =
     (case repo_command cfg w c kind of
        Inl r \<Rightarrow> r
      | Inr command \<Rightarrow>
          if \<not> isCommandAllowed command (cc_allowlist cfg) then unverified_check (''command not allowlisted: '' @ command)
          else if kind = KindTests then runTestsPass cfg w command
          else if kind = KindLint \<and> cc_scoped cfg then run_lint cfg w command
          else run_launch cfg w kind command (LaunchShell command) [])"

text \<open>The text of a schema: inline when it starts with a brace, else the file it names.\<close>

definition schema_text :: "check_config \<Rightarrow> check_world \<Rightarrow> string \<Rightarrow> string + string" where
  "schema_text cfg w schema =
     (if is_prefix ''{'' (trim schema) then Inr schema else cw_read w (resolveAgainst (cc_cwd cfg) schema))"

definition runSchemaMatch :: "check_config \<Rightarrow> check_world \<Rightarrow> check \<Rightarrow> check_result" where
  "runSchemaMatch cfg w c =
     (case (given (ck_path c), given (ck_schema c)) of
        (Some path, Some schema) \<Rightarrow>
          if cc_cwd cfg = [] \<and> (\<not> isAbsolute path \<or> (\<not> is_prefix ''{'' (trim schema) \<and> \<not> isAbsolute schema))
          then unverified_check ''schemaMatch path cannot be resolved without a declared working directory''
          else (case cw_read w (resolveAgainst (cc_cwd cfg) path) of
              Inl e \<Rightarrow> failed_check (''schemaMatch check errored: '' @ scrubText e)
            | Inr targetRaw \<Rightarrow>
                (case cw_parse w targetRaw of
                   Inl _ \<Rightarrow> failed_check (''target is not valid JSON: '' @ path)
                 | Inr tgt \<Rightarrow>
                     (case schema_text cfg w schema of
                        Inl e \<Rightarrow> failed_check (''schemaMatch check errored: '' @ scrubText e)
                      | Inr schemaRaw \<Rightarrow>
                          (case cw_parse w schemaRaw of
                             Inl _ \<Rightarrow> failed_check ''schema is not valid JSON''
                           | Inr sch \<Rightarrow>
                               (case shapeMismatch sch (TDoc tgt) [] of
                                  None \<Rightarrow> judged_ok
                                | Some m \<Rightarrow> (failed_check (''schema mismatch at '' @ m))\<lparr>jd_evidence := Some m\<rparr>)))))
      | _ \<Rightarrow> failed_check (''schemaMatch requires '' @ quoted ''path'' @ '' and '' @ quoted ''schema''))"

definition run_check :: "check_config \<Rightarrow> check_world \<Rightarrow> check \<Rightarrow> check_result" where
  "run_check cfg w c =
     (case ck_kind c of
        CkFileExists \<Rightarrow> runFileExists cfg w c
      | CkRun \<Rightarrow> runRun cfg w c
      | CkTestsPass \<Rightarrow> runCommandCheck cfg w KindTests c
      | CkBuildPasses \<Rightarrow> runCommandCheck cfg w KindBuild c
      | CkLintClean \<Rightarrow> runCommandCheck cfg w KindLint c
      | CkSchemaMatch \<Rightarrow> runSchemaMatch cfg w c)"

section \<open>The verdict of a definition of done\<close>

definition definite_failure :: "check_result \<Rightarrow> bool" where
  "definite_failure r \<longleftrightarrow> \<not> jd_ok r \<and> \<not> jd_unverifiable r"

definition some_list :: "'a list \<Rightarrow> 'a list option" where
  "some_list xs = (if xs = [] then None else Some xs)"

definition joined_failures :: "failure_classification list \<Rightarrow> failure_classification" where
  "joined_failures fcs =
     \<lparr>fc_introduced = concat (map fc_introduced fcs), fc_preexisting = concat (map fc_preexisting fcs),
      fc_unknown = concat (map fc_unknown fcs)\<rparr>"

definition EVIDENCE_SEPARATOR :: string where
  "EVIDENCE_SEPARATOR = [CHR 0x0A] @ ''---'' @ [CHR 0x0A]"

definition verdict_of_results :: "check_result list \<Rightarrow> gate_verdict" where
  "verdict_of_results results =
     (let allPass = list_all jd_ok results;
          evidence = filter (\<lambda>e. e \<noteq> []) (map (\<lambda>r. or_else (jd_evidence r) []) results);
          classified = List.map_filter jd_failures results in
      \<lparr>gv_pass = allPass,
       gv_outcome = Some (if list_ex definite_failure results then OutFail else if allPass then OutPass else OutUnverifiable),
       gv_caveats = some_list (map (\<lambda>r. scrubText (or_else (jd_reason r) ''check unavailable'')) (filter jd_unverifiable results)),
       gv_notes = some_list (map scrubText (List.map_filter (\<lambda>r. given (jd_note r)) results)),
       gv_method = MethodDeterministic,
       gv_reasons = (if allPass then [''all '' @ show_int (int (length results)) @ '' deterministic checks passed'']
          else map (\<lambda>r. scrubText (or_else (jd_reason r) ''check failed'')) (filter (\<lambda>r. \<not> jd_ok r) results)),
       gv_evidence = (if evidence = [] then None else Some (scrubText (join_with EVIDENCE_SEPARATOR evidence))),
       gv_skipped = None,
       gv_failures = (if classified = [] then None else Some (joined_failures classified)),
       gv_grader = None\<rparr>)"

definition check_results :: "check_config \<Rightarrow> (nat \<Rightarrow> check_world) \<Rightarrow> check list \<Rightarrow> check_result list" where
  "check_results cfg ws checks = map (\<lambda>(i, c). run_check cfg (ws i) c) (enumerate 0 checks)"

text \<open>The reasons handed to \<open>onFailure\<close>, in order: one for each definite failure, as soon as it is known.\<close>

definition reported_failures :: "check_result list \<Rightarrow> string list" where
  "reported_failures results = map (\<lambda>r. scrubText (or_else (jd_reason r) ''check failed'')) (filter definite_failure results)"

definition runDeterministic :: "check_config \<Rightarrow> (nat \<Rightarrow> check_world) \<Rightarrow> dod \<Rightarrow> gate_verdict \<times> string list" where
  "runDeterministic cfg ws d =
     (if dd_checks d = []
      then ((plain_verdict False MethodNone [''no deterministic checks to run''])\<lparr>gv_skipped := Some True\<rparr>, [])
      else (let results = check_results cfg ws (dd_checks d) in (verdict_of_results results, reported_failures results)))"

end
