(* ===== verification/Checker.thy ===== *)
theory Checker
  imports Dod Return_Contract Incomplete Guard_Store Checks
begin

text \<open>
  The independent grader, \<^verbatim>\<open>src/verify/checker.ts\<close>, with the criteria budget of \<^verbatim>\<open>dod.ts\<close>: incomplete returns,
  the grader's tier, its prompt, the reading of its answer and \<open>runChecker\<close>. The dispatch of the grader is a
  function from its request to its answer or the error it throws, \<^verbatim>\<open>JSON.parse\<close> a function from text. A verdict is
  paired with its structured incomplete flag.
\<close>

section \<open>Incomplete returns\<close>

record return_budget = budget_snapshot +
  rb_readCapReached :: "bool option"

type_synonym flagged_verdict = "gate_verdict \<times> bool"

definition incomplete :: "string \<Rightarrow> flagged_verdict" where
  "incomplete reason =
     ((plain_verdict False MethodChecker [reason])\<lparr>gv_outcome := Some OutUnverifiable, gv_caveats := Some [reason]\<rparr>, True)"

definition claimHonoured :: "return_budget \<Rightarrow> bool" where
  "claimHonoured s \<longleftrightarrow> \<not> bs_tracked s \<or> bs_usedUp s \<or> rb_readCapReached s = Some True"

definition budgetClaimObserved :: "string option \<Rightarrow> return_budget \<Rightarrow> bool" where
  "budgetClaimObserved txt s \<longleftrightarrow>
     bs_tracked s \<and> (case txt of None \<Rightarrow> False | Some t \<Rightarrow> claimsNeedMoreBudget t \<and> claimHonoured s)"

definition DEFAULT_LADDER :: "string list" where
  "DEFAULT_LADDER = [''fast'', ''medium'', ''heavy'']"

record producer =
  pr_text :: string
  pr_session :: string
  pr_tier :: string
  pr_contract :: "bool option"
  pr_budget :: "return_budget option"

definition incompleteVerdict ::
  "producer \<Rightarrow> bool \<Rightarrow> string list option \<Rightarrow> (string \<Rightarrow> return_budget) \<Rightarrow> flagged_verdict option" where
  "incompleteVerdict p progressNotes ladder live =
     (let snapshot = or_else (pr_budget p) (live (pr_session p));
          contract = or_else (pr_contract p) (pr_tier p \<in> set (or_else ladder DEFAULT_LADDER)) in
      if (bs_stopped snapshot \<and> \<not> rx_test CONTRACT_MARKER_RE (pr_text p)) \<or>
         (claimsNeedMoreBudget (pr_text p) \<and> claimHonoured snapshot)
      then Some (incomplete BUDGET_INCOMPLETE_REASON)
      else if progressNotes \<and> contract \<and> isProgressNote (pr_text p) then Some (incomplete INCOMPLETE_REASON)
      else None)"

section \<open>The grader's tier\<close>

definition grader_rank :: "string \<Rightarrow> string list \<Rightarrow> nat" where
  "grader_rank tier ladder = (let i = index_of ladder tier in if i < 0 then length ladder else nat i)"

definition atLeastProducerTier :: "string \<Rightarrow> string list option \<Rightarrow> string option \<Rightarrow> string" where
  "atLeastProducerTier producerTier ladder minGraderTier =
     (let lad = or_else ladder DEFAULT_LADDER;
          own = grader_rank producerTier lad;
          idx = (case minGraderTier of None \<Rightarrow> own | Some m \<Rightarrow> max own (grader_rank m lad)) in
      if lad = [] then producerTier else lad ! min idx (length lad - 1))"

definition omittedNote :: "nat \<Rightarrow> string" where
  "omittedNote omitted =
     ''('' @ omittedCriteriaText omitted @ '': over the '' @ show_int (int CRITERIA_BUDGET_CHARS) @
     ''-character verification budget; not graded)''"

section \<open>The prompt\<close>

definition MAX_WORKING_DIR_CHARS :: nat where "MAX_WORKING_DIR_CHARS = 512"

definition control_char :: "char \<Rightarrow> bool" where
  "control_char c \<longleftrightarrow> (of_char c :: nat) < 32 \<or> (127 \<le> (of_char c :: nat) \<and> (of_char c :: nat) \<le> 159)"

text \<open>The ellipsis before the mark is a single character outside Latin-1 in the source; here it is three dots.\<close>

definition TRUNCATED :: string where "TRUNCATED = ''...(truncated)''"

definition sanitizeOneLine :: "string \<Rightarrow> string" where
  "sanitizeOneLine value =
     (let cleaned = trim (squeeze control_char (scrubText value)) in
      if MAX_WORKING_DIR_CHARS < length cleaned then take MAX_WORKING_DIR_CHARS cleaned @ TRUNCATED else cleaned)"

record artefact_view =
  av_text :: string
  av_changed :: "(string \<times> string) list"     \<comment> \<open>path, status\<close>
  av_baseline :: bool                         \<comment> \<open>\<open>changeBaseline\<close> is available\<close>
  av_outputs :: "string list"

record checker_input =
  ci_criteria :: "string list"
  ci_artefact :: artefact_view
  ci_tier :: string
  ci_session :: string
  ci_workingDir :: "string option"
  ci_contract :: "bool option"
  ci_budget :: "return_budget option"

definition GRADER_SYSTEM :: string where
  "GRADER_SYSTEM = ''You are an independent, skeptical verification grader. You did NOT produce this work and have no stake in it. Evaluate ONLY whether the artefact satisfies EACH acceptance criterion below. For every criterion, cite concrete evidence from the artefact. If the evidence is missing, ambiguous, partial, or you are uncertain for ANY reason, you MUST fail that criterion. Default to FAIL. Do not give the benefit of the doubt. Output ONLY a single JSON object on one line: {\"pass\": boolean, \"reasons\": string[]}. Set pass=true ONLY if every criterion is satisfied with cited evidence; otherwise pass=false with a reason per failed criterion.''"

definition BASELINE_TEXT :: string where
  "BASELINE_TEXT = ''Producer delta only: child editing-tool paths union newly changed paths since dispatch. Files outside this delta predate the dispatch and are not the producer's work. An empty delta is valid for a read-only task; require edits only if an acceptance criterion requires them.''"

definition NO_BASELINE_TEXT :: string where
  "NO_BASELINE_TEXT = ''Dispatch-time changed-file snapshot unavailable (or current tree unavailable). Listed files are child editing-tool observations only, NOT an unqualified dirty tree. Do not attribute other dirty files to the producer or infer failure from an empty edit log for a read-only task.''"

definition working_dir_lines :: "string option \<Rightarrow> string list" where
  "working_dir_lines dir =
     (case given dir of
        None \<Rightarrow> []
      | Some d \<Rightarrow>
          [''Producer working directory: '' @ sanitizeOneLine d @
             ''. Any file-existence or command claims MUST be verified against THIS directory, not your own session directory.'', []])"

definition criteria_lines :: "string list \<Rightarrow> string list" where
  "criteria_lines criteria =
     (let (kept, omitted) = fitCriteria criteria in
      ''## Acceptance criteria (ALL must be satisfied)'' #
      map (\<lambda>(i, c). show_int (int i + 1) @ ''. '' @ c) (enumerate 0 kept) @
      (if 0 < omitted then [omittedNote omitted] else []))"

definition listed :: "('a \<Rightarrow> string) \<Rightarrow> 'a list \<Rightarrow> string list" where
  "listed f xs = (if xs = [] then [''(none)''] else map f xs)"

definition prompt_lines :: "checker_input \<Rightarrow> string list" where
  "prompt_lines i =
     (let a = ci_artefact i; txt = scrubText (av_text a) in
      working_dir_lines (ci_workingDir i) @ criteria_lines (ci_criteria i) @
      [[], ''## Artefact to evaluate'', ''### Final return text'', if txt = [] then ''(empty)'' else txt, [],
       if av_baseline a then BASELINE_TEXT else NO_BASELINE_TEXT, ''### Changed files''] @
      listed (\<lambda>(path, status). ''- '' @ status @ '' '' @ scrubText path) (av_changed a) @
      [[], ''### Declared outputs''] @
      listed (\<lambda>p. ''- '' @ scrubText p) (av_outputs a) @
      [[], ''Respond with the JSON verdict now.''])"

definition buildGradingPrompt :: "checker_input \<Rightarrow> string \<times> string" where
  "buildGradingPrompt i = (GRADER_SYSTEM, join_with [CHR 0x0A] (prompt_lines i))"

section \<open>The grader's answer\<close>

definition FENCE :: string where "FENCE = replicate 3 (CHR 0x60)"

text \<open>The text between the first brace and the last one behind it.\<close>

definition braced :: "string \<Rightarrow> string option" where
  "braced s =
     (case index_of_text ''{'' s of
        None \<Rightarrow> None
      | Some start \<Rightarrow>
          (case index_of_text ''}'' (rev s) of
             None \<Rightarrow> None
           | Some back \<Rightarrow>
               (let close = length s - 1 - back in
                if start < close then Some (drop start (take (close + 1) s)) else None)))"

definition answer_json :: "string \<Rightarrow> string option" where
  "answer_json s =
     (case capture (chain [Lit (FENCE @ ''json''), Many is_space]) (Lazy (\<lambda>_. True)) (chain [Many is_space, Lit FENCE]) s of
        Some t \<Rightarrow> Some t
      | None \<Rightarrow> braced s)"

definition all_strings :: "jdoc list \<Rightarrow> string list option" where
  "all_strings xs = (if list_all (\<lambda>x. as_str x \<noteq> None) xs then Some (List.map_filter as_str xs) else None)"

text \<open>The fields of a parsed answer; on an array, which is an object without them, there are none.\<close>

definition verdict_of_doc :: "jdoc \<Rightarrow> (bool \<times> string list) option" where
  "verdict_of_doc doc =
     (case Option.bind (as_obj doc) (\<lambda>fs. Option.bind (map_of fs ''pass'') as_bool) of
        None \<Rightarrow> None
      | Some pass \<Rightarrow>
          (case map_of (or_else (as_obj doc) []) ''reasons'' of
             None \<Rightarrow> Some (pass, [])
           | Some r \<Rightarrow> map_option (Pair pass) (Option.bind (as_arr r) all_strings)))"

definition parseGraderVerdict :: "(string \<Rightarrow> string + jdoc) \<Rightarrow> string \<Rightarrow> (bool \<times> string list) option" where
  "parseGraderVerdict parse s =
     (case answer_json s of
        None \<Rightarrow> None
      | Some raw \<Rightarrow> (case parse raw of Inl _ \<Rightarrow> None | Inr doc \<Rightarrow> verdict_of_doc doc))"

definition GRADER_REASONS_MAX :: nat where "GRADER_REASONS_MAX = 20"
definition REASON_CHARS :: nat where "REASON_CHARS = 500"

definition oneLineReason :: "string \<Rightarrow> string" where
  "oneLineReason s = take REASON_CHARS (trim (squeeze is_space s))"

definition graderText :: "string \<Rightarrow> string" where
  "graderText s = oneLineReason (scrubText s)"

definition graderReasons :: "string list \<Rightarrow> string list" where
  "graderReasons reasons =
     (let kept = map graderText (take GRADER_REASONS_MAX reasons); rest = length reasons - length kept in
      if 0 < rest
      then kept @ [''('' @ show_int (int rest) @ '' more grader reason'' @ (if rest = 1 then [] else ''s'') @ '' omitted)'']
      else kept)"

section \<open>Grading\<close>

record grader_request =
  gq_tier :: string
  gq_system :: string
  gq_prompt :: string
  gq_cwd :: "string option"

record grader_answer =
  ga_session :: string
  ga_text :: string
  ga_model :: "string option"

record checker_deps =
  cd_dispatch :: "grader_request \<Rightarrow> string + grader_answer"
  cd_ladder :: "string list option"
  cd_minGraderTier :: "string option"
  cd_liveBudget :: "string \<Rightarrow> return_budget"
  cd_parse :: "string \<Rightarrow> string + jdoc"

definition not_blank_model :: "string option \<Rightarrow> string option" where
  "not_blank_model m = (case m of None \<Rightarrow> None | Some t \<Rightarrow> if trim t = [] then None else Some t)"

definition INDEPENDENCE_REASON :: string where
  "INDEPENDENCE_REASON = ''grader session is not independent of the producer (producer=grader); refusing to accept''"

definition graded :: "string \<Rightarrow> nat \<Rightarrow> (string \<times> string option) \<Rightarrow> bool \<times> string list \<Rightarrow> gate_verdict" where
  "graded graderTier omitted grader answer =
     (case answer of (pass, reasons) \<Rightarrow>
        (plain_verdict (pass \<and> omitted = 0) MethodChecker (graderReasons reasons))
          \<lparr>gv_outcome := Some (if pass then (if 0 < omitted then OutUnverifiable else OutPass) else OutFail),
           gv_evidence := Some (scrubText (''grader='' @ graderTier)),
           gv_caveats := (if 0 < omitted then Some [omittedNote omitted] else None),
           gv_grader := Some grader\<rparr>)"

definition judge_answer :: "checker_input \<Rightarrow> checker_deps \<Rightarrow> string \<Rightarrow> nat \<Rightarrow> grader_answer \<Rightarrow> gate_verdict" where
  "judge_answer i deps graderTier omitted res =
     (if ga_session res = ci_session i \<or> ga_session res = [] then
        (plain_verdict False MethodChecker [INDEPENDENCE_REASON])\<lparr>gv_grader := Some (graderTier, None)\<rparr>
      else (case parseGraderVerdict (cd_parse deps) (ga_text res) of
          None \<Rightarrow>
            (plain_verdict False MethodChecker
               [''could not parse grader verdict; defaulting to FAIL'', graderText (take 300 (ga_text res))])
              \<lparr>gv_grader := Some (graderTier, not_blank_model (ga_model res))\<rparr>
        | Some answer \<Rightarrow> graded graderTier omitted (graderTier, not_blank_model (ga_model res)) answer))"

definition grader_request_of :: "checker_input \<Rightarrow> checker_deps \<Rightarrow> grader_request" where
  "grader_request_of i deps =
     \<lparr>gq_tier = atLeastProducerTier (ci_tier i) (cd_ladder deps) (cd_minGraderTier deps),
      gq_system = fst (buildGradingPrompt i), gq_prompt = snd (buildGradingPrompt i), gq_cwd = given (ci_workingDir i)\<rparr>"

definition producer_of :: "checker_input \<Rightarrow> producer" where
  "producer_of i = \<lparr>pr_text = av_text (ci_artefact i), pr_session = ci_session i, pr_tier = ci_tier i,
     pr_contract = ci_contract i, pr_budget = ci_budget i\<rparr>"

definition nothing_fits :: "nat \<Rightarrow> gate_verdict" where
  "nothing_fits omitted =
     (let reason = ''no criterion fits the verification budget '' @ omittedNote omitted in
      (plain_verdict False MethodChecker [reason])\<lparr>gv_outcome := Some OutUnverifiable, gv_caveats := Some [reason]\<rparr>)"

definition runChecker :: "checker_input \<Rightarrow> checker_deps \<Rightarrow> flagged_verdict" where
  "runChecker i deps =
     (if ci_criteria i = [] then
        ((plain_verdict False MethodNone [''no criteria to grade''])\<lparr>gv_skipped := Some True\<rparr>, False)
      else (case incompleteVerdict (producer_of i) True (cd_ladder deps) (cd_liveBudget deps) of
          Some v \<Rightarrow> v
        | None \<Rightarrow>
            (let (gradable, omitted) = fitCriteria (ci_criteria i); req = grader_request_of i deps in
             if gradable = [] then (nothing_fits omitted, False)
             else (case cd_dispatch deps req of
                 Inl e \<Rightarrow>
                   ((plain_verdict False MethodChecker [scrubText (''grader dispatch failed: '' @ e)])
                      \<lparr>gv_outcome := Some OutUnverifiable\<rparr>, False)
               | Inr res \<Rightarrow> (judge_answer i deps (gq_tier req) omitted res, False)))))"

end
