(* ===== verification/Gate.thy ===== *)
theory Gate
  imports Checker
begin

text \<open>
  The acceptance gate, \<^verbatim>\<open>src/verify/gate.ts\<close>: how a verdict becomes an acceptance (\<open>gateResult\<close>) and
  \<open>accept\<close>, which decides what is verified, where, and by which verifier. The two verifiers are those of
  \<open>Checks\<close> and \<open>Checker\<close>; the host's path canonicalisation is a parameter.
\<close>

section \<open>Data\<close>

record artefact =
  at_view :: artefact_view
  at_session :: string
  at_tier :: string
  at_contract :: "bool option"
  at_budget :: "return_budget option"

datatype gate_mode = ModeA | ModeB
datatype cwd_source = FromArgument | FromAcceptance

record delegation =
  dl_dod :: dod
  dl_trivial :: bool
  dl_mode :: "gate_mode option"
  dl_cwd :: "string option"
  dl_workRoot :: "string option"
  dl_refusedCwd :: "string option"
  dl_cwdSource :: "cwd_source option"

datatype require_mode = RequireNever | RequireWhenPresent | RequireAlways

record gate_deps =
  gd_config :: check_config
  gd_worlds :: "string \<Rightarrow> nat \<Rightarrow> check_world"   \<comment> \<open>what the seams answer when the checks run in a directory\<close>
  gd_checker :: checker_deps
  gd_require :: "require_mode option"
  gd_strict :: bool
  gd_canonical :: "(string \<Rightarrow> string) option"
  gd_process_cwd :: string

record gate_result =
  gr_accepted :: bool
  gr_verdict :: gate_verdict
  gr_source :: dod_source

section \<open>From verdict to acceptance\<close>

definition gateResult :: "flagged_verdict \<Rightarrow> dod_source \<Rightarrow> bool \<Rightarrow> gate_result" where
  "gateResult fv source strict =
     (let v = fst fv; outcome = outcome_of v;
          caveats = or_else (gv_caveats v) (if outcome = OutUnverifiable then gv_reasons v else []) in
      \<lparr>gr_accepted = (outcome \<noteq> OutFail \<and> \<not> snd fv \<and> \<not> (strict \<and> caveats \<noteq> [])),
       gr_verdict = v\<lparr>gv_outcome := Some outcome, gv_caveats := (if caveats = [] then gv_caveats v else Some caveats)\<rparr>,
       gr_source = source\<rparr>)"

definition unverifiable_verdict :: "string \<Rightarrow> flagged_verdict" where
  "unverifiable_verdict reason =
     ((plain_verdict False MethodNone [reason])\<lparr>gv_outcome := Some OutUnverifiable, gv_caveats := Some [reason]\<rparr>, False)"

definition unverifiableGateResult :: "string \<Rightarrow> dod_source \<Rightarrow> bool \<Rightarrow> string list \<Rightarrow> gate_result" where
  "unverifiableGateResult reason source strict completedFailures =
     gateResult
       ((plain_verdict False MethodNone (completedFailures @ [reason]))
          \<lparr>gv_outcome := Some (if completedFailures \<noteq> [] then OutFail else OutUnverifiable), gv_caveats := Some [reason]\<rparr>, False)
       source strict"

definition skipped_result :: "bool \<Rightarrow> string \<Rightarrow> dod_source \<Rightarrow> gate_result" where
  "skipped_result accepted reason source =
     \<lparr>gr_accepted = accepted, gr_verdict = (plain_verdict False MethodNone [reason])\<lparr>gv_skipped := Some True\<rparr>, gr_source = source\<rparr>"

section \<open>Where the checks run\<close>

definition artefact_producer :: "artefact \<Rightarrow> producer" where
  "artefact_producer a = \<lparr>pr_text = av_text (at_view a), pr_session = at_session a, pr_tier = at_tier a,
     pr_contract = at_contract a, pr_budget = at_budget a\<rparr>"

definition refusal_text :: "cwd_source option \<Rightarrow> string \<Rightarrow> string \<Rightarrow> string" where
  "refusal_text source cwd workRoot =
     (let (subject, remedy) =
        (case source of
           Some FromArgument \<Rightarrow>
             (''the call's cwd argument '' @ cwd,
              ''Drop the \"cwd\" argument (the checks then run in the work root) or name a directory inside it.'')
         | Some FromAcceptance \<Rightarrow>
             (''the [acceptance] block's cwd '' @ cwd,
              ''Remove \"cwd:\" (the checks then run in the work root) or name a directory inside it.'')
         | None \<Rightarrow>
             (''the requested cwd '' @ cwd, ''Name no cwd (the checks then run in the work root) or one inside it.'')) in
      subject @ '' is outside this role dispatch's work root '' @ workRoot @
      ''; the router verifies a role dispatch only inside its work root. '' @ remedy)"

definition refuse_cwd :: "delegation \<Rightarrow> bool \<Rightarrow> string \<Rightarrow> gate_result" where
  "refuse_cwd dl strict cwd =
     gateResult (unverifiable_verdict (refusal_text (dl_cwdSource dl) cwd (or_else (dl_workRoot dl) []))) (dd_source (dl_dod dl)) strict"

definition base_dir :: "delegation \<Rightarrow> gate_deps \<Rightarrow> string" where
  "base_dir dl deps = resolveBaseDir (dl_cwd dl) (or_else (dl_workRoot dl) (cc_cwd (gd_config deps)))"

text \<open>The cwd the gate refuses, if any.\<close>

definition refused_cwd :: "delegation \<Rightarrow> gate_deps \<Rightarrow> string option" where
  "refused_cwd dl deps =
     (case dl_workRoot dl of
        None \<Rightarrow> None
      | Some workRoot \<Rightarrow>
          (case dl_refusedCwd dl of
             Some cwd \<Rightarrow> Some cwd
           | None \<Rightarrow>
               if isWithinDir (gd_process_cwd deps) (base_dir dl deps) workRoot then None else Some (base_dir dl deps)))"

definition canonical :: "gate_deps \<Rightarrow> string \<Rightarrow> string" where
  "canonical deps = or_else (gd_canonical deps) (\<lambda>p. p)"

text \<open>Every changed file is named absolutely and lies outside the base.\<close>

definition all_outside :: "gate_deps \<Rightarrow> string \<Rightarrow> (string \<times> string) list \<Rightarrow> bool" where
  "all_outside deps base changed \<longleftrightarrow>
     changed \<noteq> [] \<and>
     list_all (\<lambda>(path, status). isAbsolute path \<and>
        \<not> isWithinDir (gd_process_cwd deps) (canonical deps path) (canonical deps base)) changed"

definition outside_hint :: "delegation \<Rightarrow> gate_deps \<Rightarrow> string \<Rightarrow> (string \<times> string) list \<Rightarrow> string" where
  "outside_hint dl deps base changed =
     (case dl_workRoot dl of
        None \<Rightarrow> ''Add \"cwd: <dir>\" to the [acceptance] block to verify where the work landed.''
      | Some workRoot \<Rightarrow>
          if \<not> isWithinDir (gd_process_cwd deps) (canonical deps workRoot) (canonical deps base) \<and>
             list_ex (\<lambda>(path, status). isWithinDir (gd_process_cwd deps) (canonical deps path) (canonical deps workRoot)) changed
          then ''The [acceptance] block's \"cwd:\" narrows verification to '' @ base @ '' inside the work root '' @ workRoot @
            '': widen \"cwd:\" to where the work landed, or remove it (the checks then run in the work root).''
          else ''A role dispatch is verified only inside its work root '' @ workRoot @ '': the work belongs there.'')"

definition outside_reason :: "delegation \<Rightarrow> gate_deps \<Rightarrow> string \<Rightarrow> (string \<times> string) list \<Rightarrow> string" where
  "outside_reason dl deps base changed =
     ''the producer changed files only outside '' @ base @ '' (e.g. '' @ fst (hd changed) @
     ''); checks run there cannot see them. '' @ outside_hint dl deps base changed"

section \<open>The gate\<close>

definition checker_input_of :: "delegation \<Rightarrow> artefact \<Rightarrow> string \<Rightarrow> checker_input" where
  "checker_input_of dl a base =
     \<lparr>ci_criteria = dd_criteria (dl_dod dl), ci_artefact = at_view a, ci_tier = at_tier a, ci_session = at_session a,
      ci_workingDir = (if given (dl_cwd dl) \<noteq> None \<or> dl_workRoot dl \<noteq> None then Some base else None),
      ci_contract = at_contract a, ci_budget = at_budget a\<rparr>"

text \<open>The verdict of the verifier that fits the definition of done.\<close>

definition verify_at :: "delegation \<Rightarrow> artefact \<Rightarrow> gate_deps \<Rightarrow> string \<Rightarrow> flagged_verdict" where
  "verify_at dl a deps base =
     (if dd_kind (dl_dod dl) = DodDeterministic then
        (if all_outside deps base (av_changed (at_view a))
         then unverifiable_verdict (outside_reason dl deps base (av_changed (at_view a)))
         else (fst (runDeterministic ((gd_config deps)\<lparr>cc_cwd := base\<rparr>) (gd_worlds deps base) (dl_dod dl)), False))
      else runChecker (checker_input_of dl a base) (gd_checker deps))"

definition no_dod_reason :: "gate_mode option \<Rightarrow> string" where
  "no_dod_reason mode =
     (if mode = Some ModeB
      then ''no acceptance block on a non-trivial plan task (Mode B is strict): add an [acceptance] ... [/acceptance] block to this task''
      else ''no checkable DoD for a non-trivial dispatch (Mode A): provide an [acceptance] block or let auto-inference supply one'')"

definition verify_gate :: "delegation \<Rightarrow> artefact \<Rightarrow> gate_deps \<Rightarrow> gate_result" where
  "verify_gate dl a deps =
     (let source = dd_source (dl_dod dl); strict = gd_strict deps; ck = gd_checker deps in
      case incompleteVerdict (artefact_producer a) True (cd_ladder ck) (cd_liveBudget ck) of
        Some stopped \<Rightarrow> gateResult stopped source strict
      | None \<Rightarrow>
          (case refused_cwd dl deps of
             Some cwd \<Rightarrow> refuse_cwd dl strict cwd
           | None \<Rightarrow> gateResult (verify_at dl a deps (base_dir dl deps)) source strict))"

definition accept :: "delegation \<Rightarrow> artefact \<Rightarrow> gate_deps \<Rightarrow> gate_result" where
  "accept dl a deps =
     (let d = dl_dod dl; source = dd_source d in
      if or_else (gd_require deps) RequireWhenPresent = RequireNever
      then skipped_result True ''verification disabled (verify.require=never)'' source
      else if dl_trivial dl \<and> source = SrcInferred
      then skipped_result True ''trivial dispatch; verification skipped (auto-inferred DoD)'' source
      else if \<not> isCheckable d then
        (if dl_trivial dl then skipped_result True ''trivial dispatch; verification skipped'' source
         else skipped_result False (no_dod_reason (dl_mode dl)) source)
      else verify_gate dl a deps)"

end
