(* ===== verification/Checks_Spec.thy ===== *)
theory Checks_Spec
  imports Checks
begin

text \<open>
  Properties of the deterministic verifier: which commands the allowlist admits and that no other reaches a
  process, what the shape check accepts, and what a verdict says about the checks and their tests.
\<close>

section \<open>The allowlist\<close>

text \<open>Unanchored and anchored tests of the source's two expressions, without the matcher.\<close>

lemma search_chars: "rx_search (either [One P, Lit (a # as), Lit (b # bs), Lit (d # ds)]) p s \<longleftrightarrow> list_ex P s"
  if "P a" "P b" "P d"
proof (induction s arbitrary: p)
  case Nil
  then show ?case by (simp add: is_prefix_def)
next
  case (Cons c cs)
  have "\<lbrakk>\<not> P c; x = a \<or> x = b \<or> x = d\<rbrakk> \<Longrightarrow> \<not> is_prefix (x # xs) (c # cs)" for x xs
    using that by (auto simp: is_prefix_def)
  then show ?case using Cons by (auto simp: Let_def)
qed

lemma forbidden_shell: "rx_test FORBIDDEN_SHELL s \<longleftrightarrow> list_ex shell_char s"
  unfolding FORBIDDEN_SHELL_def rx_test_def by (rule search_chars) (simp_all add: shell_char_def)

definition eval_flag :: "string \<Rightarrow> bool" where
  "eval_flag t \<longleftrightarrow>
     to_lower t \<in> set [''-e'', ''-c'', ''-p'', ''--eval'', ''--print''] \<or>
     is_prefix ''--eval='' (to_lower t) \<or> is_prefix ''--print='' (to_lower t)"

lemma prefix_ex: "is_prefix a u \<longleftrightarrow> (\<exists>t. u = a @ t)"
  unfolding is_prefix_def by (metis append_eq_conv_conj append_take_drop_id)

lemma whole_text: "is_prefix a u \<and> drop (length a) u = [] \<longleftrightarrow> u = a"
  by (auto simp: prefix_ex)

lemma prefix_split: "is_prefix (a @ b) u \<longleftrightarrow> is_prefix a u \<and> is_prefix b (drop (length a) u)"
  by (auto simp: prefix_ex)

lemma eval_flag_re: "rx_test EVAL_FLAG_RE t \<longleftrightarrow> eval_flag t"
proof -
  have anchored: "\<not> matches_at EVAL_FLAG_RE pos" if "fst pos \<noteq> None" for pos
    using that by (simp add: EVAL_FLAG_RE_def matches_simps)
  define u where "u = to_lower t"
  have "rx_test EVAL_FLAG_RE t \<longleftrightarrow> matches_at EVAL_FLAG_RE (None, t)" by (rule anchored_test [OF anchored])
  also have "\<dots> \<longleftrightarrow>
      is_prefix ''-'' u \<and> (is_prefix ''e'' (drop 1 u) \<and> drop 2 u = [] \<or> is_prefix ''c'' (drop 1 u) \<and> drop 2 u = [] \<or>
        is_prefix ''p'' (drop 1 u) \<and> drop 2 u = []) \<or>
      is_prefix ''--'' u \<and> (is_prefix ''eval'' (drop 2 u) \<and> (is_prefix ''='' (drop 6 u) \<or> drop 6 u = []) \<or>
        is_prefix ''print'' (drop 2 u) \<and> (is_prefix ''='' (drop 7 u) \<or> drop 7 u = []))"
    by (simp add: EVAL_FLAG_RE_def matches_simps lower_drop u_def lower_empty [of _ t] numeral_eq_Suc del: drop_eq_Nil)
  also have "\<dots> \<longleftrightarrow> eval_flag t"
  proof -
    have short: "is_prefix ''-'' u \<and> is_prefix [x] (drop 1 u) \<and> drop 2 u = [] \<longleftrightarrow> u = [CHR ''-'', x]" for x
      using whole_text [of "[CHR ''-'', x]" u] prefix_split [of "''-''" "[x]" u]
      by (simp add: numeral_2_eq_2 del: drop_eq_Nil)
    have full: "is_prefix ''--'' u \<and> is_prefix w (drop 2 u) \<and> drop (2 + length w) u = [] \<longleftrightarrow> u = ''--'' @ w" for w
      using whole_text [of "''--'' @ w" u] prefix_split [of "''--''" w u]
      by (simp add: numeral_2_eq_2 del: drop_eq_Nil)
    have assigned: "is_prefix ''--'' u \<and> is_prefix w (drop 2 u) \<and> is_prefix ''='' (drop (2 + length w) u) \<longleftrightarrow>
        is_prefix (''--'' @ w @ ''='') u" for w
      using prefix_split [of "''--'' @ w" "''=''" u] prefix_split [of "''--''" w u]
      by (simp add: numeral_2_eq_2)
    show ?thesis
      using short [of "CHR ''e''"] short [of "CHR ''c''"] short [of "CHR ''p''"] full [of "''eval''"] full [of "''print''"]
        assigned [of "''eval''"] assigned [of "''print''"]
      unfolding eval_flag_def u_def [symmetric] by (simp del: drop_eq_Nil) argo
  qed
  finally show ?thesis .
qed

text \<open>
  (C16) What the allowlist admits. A command passes exactly when it is not blank, has no character a shell could chain,
  redirect or substitute with, and its program, without directories, is in the allowlist, an interpreter being given no inline
  code by a separate \<^verbatim>\<open>-e\<close>, \<^verbatim>\<open>-c\<close>, \<^verbatim>\<open>-p\<close>, \<^verbatim>\<open>--eval\<close> or \<^verbatim>\<open>--print\<close>; a program named uv passes only as
  the runner of an allowed pytest, whatever the allowlist says of uv.
\<close>

theorem allowlist_admits:
  "isCommandAllowed command allowlist \<longleftrightarrow>
     (let tokens = split_spaces (trim command); base = basename (hd tokens) in
      trim command \<noteq> [] \<and> list_all (\<lambda>c. \<not> shell_char c) command \<and>
      (if strip_exe base = ''uv'' then ''pytest'' \<in> set allowlist \<and> take 2 (tl tokens) = [''run'', ''pytest'']
       else base \<in> set allowlist \<and> \<not> (strip_exe base \<in> set INTERPRETERS \<and> list_ex eval_flag (tl tokens))))"
proof -
  have uv: "2 < length tokens \<and> tokens ! 1 = a \<and> tokens ! 2 = b \<longleftrightarrow> take 2 (tl tokens) = [a, b]" for tokens and a b :: string
    by (cases tokens; cases "tl tokens"; cases "tl (tl tokens)") auto
  have flags: "list_ex (rx_test EVAL_FLAG_RE) ts \<longleftrightarrow> list_ex eval_flag ts" for ts
    by (simp add: list_ex_iff eval_flag_re)
  have shell: "list_all (\<lambda>c. \<not> shell_char c) command \<longleftrightarrow> \<not> rx_test FORBIDDEN_SHELL command"
    by (simp add: forbidden_shell list_all_iff list_ex_iff)
  show ?thesis
    unfolding isCommandAllowed_def Let_def shell uv flags by auto
qed

section \<open>Only admitted commands reach a process\<close>

definition same_but_for_refused :: "string list \<Rightarrow> check_world \<Rightarrow> check_world \<Rightarrow> bool" where
  "same_but_for_refused allowlist w w' \<longleftrightarrow>
     cw_exists w' = cw_exists w \<and> cw_read w' = cw_read w \<and> cw_parse w' = cw_parse w \<and> cw_left w' = cw_left w \<and>
     (\<forall>command. isCommandAllowed command allowlist \<longrightarrow>
        cw_exec w' command = cw_exec w command \<and> cw_launch w' (LaunchShell command) = cw_launch w (LaunchShell command) \<and>
        cw_planLint w' command = cw_planLint w command) \<and>
     (\<forall>inputs. cw_launch w' (LaunchLint inputs) = cw_launch w (LaunchLint inputs)) \<and>
     (cw_tests w' = None \<longleftrightarrow> cw_tests w = None) \<and>
     (\<forall>q. isCommandAllowed (tq_command q) allowlist \<longrightarrow> map_option (\<lambda>h. h q) (cw_tests w') = map_option (\<lambda>h. h q) (cw_tests w))"

lemma same_launch:
  assumes "same_but_for_refused (cc_allowlist cfg) w w'" and "isCommandAllowed command (cc_allowlist cfg)"
  shows "obtainExec cfg w' kind command (LaunchShell command) = obtainExec cfg w kind command (LaunchShell command)"
    and "obtainExec cfg w' kind command (LaunchLint inputs) = obtainExec cfg w kind command (LaunchLint inputs)"
  using assms by (simp_all add: obtainExec_def same_but_for_refused_def split: sum.split command_outcome.split)

lemma same_probe:
  assumes "same_but_for_refused allowlist w w'"
  shows "repo_command cfg w' c kind = repo_command cfg w c kind"
proof -
  have e: "cw_exists w' = cw_exists w" and r: "cw_read w' = cw_read w" and p: "cw_parse w' = cw_parse w"
    using assms by (simp_all add: same_but_for_refused_def)
  show ?thesis unfolding repo_command_def probe_build_def has_build_def e r p ..
qed

lemma same_tests:
  assumes "same_but_for_refused (cc_allowlist cfg) w w'" and "isCommandAllowed command (cc_allowlist cfg)"
  shows "runTestsPass cfg w' command = runTestsPass cfg w command"
proof -
  have n: "cw_tests w' = None \<longleftrightarrow> cw_tests w = None"
    and h: "map_option (\<lambda>h. h q) (cw_tests w') = map_option (\<lambda>h. h q) (cw_tests w)" if "tq_command q = command" for q
    using assms that by (simp_all add: same_but_for_refused_def)
  show ?thesis
  proof (cases "cw_tests w")
    case None
    with n [of "\<lparr>tq_command = command, tq_cwd = [], tq_scope = ScopeFull, tq_changed = FilesUnavailable, tq_reference = RefDisabled\<rparr>"]
    show ?thesis by (simp add: runTestsPass_def)
  next
    case (Some hook)
    with n [of "\<lparr>tq_command = command, tq_cwd = [], tq_scope = ScopeFull, tq_changed = FilesUnavailable, tq_reference = RefDisabled\<rparr>"]
    obtain hook' where "cw_tests w' = Some hook'" by auto
    with Some h have "hook' q = hook q" if "tq_command q = command" for q using that by fastforce
    with Some \<open>cw_tests w' = Some hook'\<close> show ?thesis by (simp add: runTestsPass_def)
  qed
qed

text \<open>
  (C3) No refused command is ever run. Two worlds that differ only in what the process seams, the lint planner and the test hook
  would do with commands the allowlist refuses give every check the same result: whatever a check names, infers from the
  package or takes from the configuration, a refused command reaches no process and no hook.
\<close>

theorem refused_commands_never_run:
  assumes "same_but_for_refused (cc_allowlist cfg) w w'"
  shows "run_check cfg w' c = run_check cfg w c"
proof -
  have same_files: "cw_exists w' = cw_exists w" "cw_read w' = cw_read w" "cw_parse w' = cw_parse w"
    using assms by (simp_all add: same_but_for_refused_def)
  note launch = same_launch [OF assms] and tests = same_tests [OF assms]
  have plan: "planLint cfg w' command = planLint cfg w command" if "isCommandAllowed command (cc_allowlist cfg)" for command
    using assms that by (simp add: planLint_def same_but_for_refused_def)
  have cmd: "runCommandCheck cfg w' kind c = runCommandCheck cfg w kind c" for kind
    unfolding runCommandCheck_def same_probe [OF assms]
    by (simp add: launch tests plan run_launch_def run_lint_def split: sum.split lint_plan.split)
  have run: "runRun cfg w' c = runRun cfg w c"
    by (simp add: runRun_def launch split: option.split)
  have files: "runFileExists cfg w' c = runFileExists cfg w c" "runSchemaMatch cfg w' c = runSchemaMatch cfg w c"
    unfolding runFileExists_def runSchemaMatch_def schema_text_def same_files by (rule refl)+
  show ?thesis by (simp add: run_check_def cmd run files split: check_kind.split)
qed

definition demo_check_config :: check_config where
  "demo_check_config = \<lparr>cc_cwd = ''/w'', cc_timeoutMs = 120000, cc_allowlist = DEFAULT_ALLOWLIST, cc_testCommand = None,
     cc_buildCommand = None, cc_lintCommand = None, cc_scoped = False, cc_testScope = ScopeAffected, cc_failureRecheck = True,
     cc_changedFiles = FilesUnavailable, cc_reference = None, cc_noAffectedUnverifiable = None\<rparr>"

definition demo_world :: "(string \<Rightarrow> string + exec_result) \<Rightarrow> check_world" where
  "demo_world ex = \<lparr>cw_exists = (\<lambda>_. Inr True), cw_read = (\<lambda>_. Inl ''no file''), cw_exec = ex, cw_launch = (\<lambda>_. Inl ''no scope''),
     cw_left = 1, cw_tests = None, cw_planLint = (\<lambda>_. Inr LintUnscoped), cw_parse = (\<lambda>_. Inl ''no parser'')\<rparr>"

definition exit_zero :: exec_result where
  "exit_zero = \<lparr>xr_code = 0, xr_stdout = ''ok'', xr_stderr = [], xr_timedOut = False\<rparr>"

definition demo_check :: "string \<Rightarrow> check" where
  "demo_check command = \<lparr>ck_kind = CkRun, ck_command = Some command, ck_expect = None, ck_path = None, ck_schema = None\<rparr>"

definition only_allowed :: "string \<Rightarrow> string + exec_result" where
  "only_allowed command = (if isCommandAllowed command DEFAULT_ALLOWLIST then Inr exit_zero else Inl ''refused'')"

theorem refused_commands_never_run_witness:
  "run_check demo_check_config (demo_world only_allowed) (demo_check ''rm -rf /'') =
     run_check demo_check_config (demo_world (\<lambda>_. Inr exit_zero)) (demo_check ''rm -rf /'')"
  by (rule refused_commands_never_run)
    (simp add: same_but_for_refused_def demo_check_config_def demo_world_def only_allowed_def)

section \<open>Verdicts\<close>

lemma verdict_fields:
  "gv_pass (verdict_of_results rs) \<longleftrightarrow> list_all jd_ok rs"
  "gv_outcome (verdict_of_results rs) = Some OutFail \<longleftrightarrow> list_ex definite_failure rs"
  by (simp_all add: verdict_of_results_def Let_def)

lemma ok_not_definite: "list_all jd_ok rs \<Longrightarrow> \<not> list_ex definite_failure rs"
  by (auto simp: list_all_iff list_ex_iff definite_failure_def)

lemma verdict_pass: "gv_outcome (verdict_of_results rs) = Some OutPass \<longleftrightarrow> list_all jd_ok rs"
  using ok_not_definite by (auto simp: verdict_of_results_def Let_def)

text \<open>Failures are reported exactly when the verdict is a failure.\<close>

lemma reported_iff_failed: "reported_failures rs \<noteq> [] \<longleftrightarrow> gv_outcome (verdict_of_results rs) = Some OutFail"
  by (simp add: verdict_fields reported_failures_def filter_empty_conv list_ex_iff)

lemma check_results_nth:
  "i < length checks \<Longrightarrow> check_results cfg ws checks ! i = run_check cfg (ws i) (checks ! i)"
  by (simp add: check_results_def nth_enumerate_eq)

lemma check_results_length [simp]: "length (check_results cfg ws checks) = length checks"
  by (simp add: check_results_def)

text \<open>A test check fails definitely only through the verdict algebra.\<close>

lemma definite_test_failure:
  assumes "definite_failure (runCommandCheck cfg w KindTests c)"
  shows "\<exists>hook q r code rn notes re. cw_tests w = Some hook \<and> hook q = Inr (Ran r code rn notes, Some (ExactRecheck re)) \<and>
     list_ex (proven_introduced r re) (rr_failingIds r)"
proof -
  obtain command where "definite_failure (runTestsPass cfg w command)"
    using assms by (auto simp: runCommandCheck_def repo_command_def definite_failure_def split: sum.splits if_splits)
  then obtain hook q scoped recheck where hook: "cw_tests w = Some hook" "hook q = Inr (scoped, recheck)"
    and df: "definite_failure (judge_tests cfg scoped recheck)"
    by (auto simp: runTestsPass_def definite_failure_def split: option.splits if_splits sum.splits)
  have "definite_failure (judgeScoped scoped recheck)"
    using df by (auto simp: judge_tests_def definite_failure_def split: option.splits scoped_outcome.splits)
  then show ?thesis
    using test_failure_is_proven [of scoped recheck] hook unfolding definite_failure_def by blast
qed

text \<open>
  (C15) A rejection on tests rests on proof. When a definition of done made of test checks ends in a failure, then one of its
  checks ran the tests of the change, the failing files were rerun at the exact dispatch reference, and at least one failing id
  is proven to be introduced; blocked slots, timeouts, missing references, crashes of the pipeline
  and refused commands never end so.
\<close>

theorem test_rejection_is_proven:
  assumes "gv_outcome (fst (runDeterministic cfg ws d)) = Some OutFail"
    and "list_all (\<lambda>c. ck_kind c = CkTestsPass) (dd_checks d)"
  shows "\<exists>i hook q r code rn notes re. i < length (dd_checks d) \<and> cw_tests (ws i) = Some hook \<and>
     hook q = Inr (Ran r code rn notes, Some (ExactRecheck re)) \<and> list_ex (proven_introduced r re) (rr_failingIds r)"
proof -
  have "gv_outcome (verdict_of_results (check_results cfg ws (dd_checks d))) = Some OutFail"
    using assms(1) by (simp add: runDeterministic_def plain_verdict_def Let_def split: if_splits)
  then have "list_ex definite_failure (check_results cfg ws (dd_checks d))" by (simp only: verdict_fields)
  then obtain i where i: "i < length (dd_checks d)" and df: "definite_failure (run_check cfg (ws i) (dd_checks d ! i))"
    by (auto simp: list_ex_length check_results_nth)
  have "ck_kind (dd_checks d ! i) = CkTestsPass" using assms(2) i by (simp add: list_all_length)
  with df have "definite_failure (runCommandCheck cfg (ws i) KindTests (dd_checks d ! i))" by (simp add: run_check_def)
  from definite_test_failure [OF this] i show ?thesis by blast
qed

definition introducing_world :: check_world where
  "introducing_world = (demo_world (\<lambda>_. Inr exit_zero))\<lparr>cw_tests := Some (\<lambda>_. Inr (Ran demo_scoped_run 1 (Some ''vitest'') [],
     Some (ExactRecheck \<lparr>ex_result = None, ex_ranFiles = [], ex_absentFiles = [''a.test.ts''], ex_notes = []\<rparr>)))\<rparr>"

definition demo_dod :: dod where
  "demo_dod = \<lparr>dd_kind = DodDeterministic, dd_checks = [(demo_check ''npm test'')\<lparr>ck_kind := CkTestsPass\<rparr>], dd_criteria = [],
     dd_deliverable = None, dd_source = SrcExplicit, dd_cwd = None\<rparr>"

theorem test_rejection_is_proven_witness:
  "\<exists>i hook q r code rn notes re. i < length (dd_checks demo_dod) \<and> cw_tests introducing_world = Some hook \<and>
     hook q = Inr (Ran r code rn notes, Some (ExactRecheck re)) \<and> list_ex (proven_introduced r re) (rr_failingIds r)"
proof -
  have "gv_outcome (fst (runDeterministic demo_check_config (\<lambda>_. introducing_world) demo_dod)) = Some OutFail" by code_simp
  moreover have "list_all (\<lambda>c. ck_kind c = CkTestsPass) (dd_checks demo_dod)" by (simp add: demo_dod_def)
  ultimately show ?thesis by (rule test_rejection_is_proven)
qed

section \<open>Shapes\<close>

lemma field_size: "(k, v) \<in> set fs \<Longrightarrow> size v \<le> size_list (size_prod (\<lambda>_. 0) size) fs"
  by (induction fs) auto

text \<open>What the shape check accepts, without order or texts.\<close>

function (sequential) conforms :: "jdoc \<Rightarrow> target \<Rightarrow> bool" where
  "conforms (DObj fs) t \<longleftrightarrow>
     is_record t \<and> list_all (\<lambda>f. case get_property t (fst f) of None \<Rightarrow> False | Some w \<Rightarrow> conforms (snd f) w) fs"
| "conforms (DArr xs) t \<longleftrightarrow> is_list t"
| "conforms s t \<longleftrightarrow> typeof (TDoc s) = typeof t"
  by pat_completeness auto
termination
  by (relation "measure (\<lambda>(s, _). size s)")
    (auto simp: less_Suc_eq_le intro: field_size)

lemma shape_conforms:
  "shapeMismatch s t path = None \<longleftrightarrow> conforms s t"
  "fields_mismatch fs t path = None \<longleftrightarrow>
     list_all (\<lambda>f. case get_property t (fst f) of None \<Rightarrow> False | Some w \<Rightarrow> conforms (snd f) w) fs"
proof (induction s t path and fs t path rule: shapeMismatch_fields_mismatch.induct)
  case (5 k v fs t path)
  show ?case
  proof (cases "get_property t k")
    case None
    then show ?thesis by simp
  next
    case (Some w)
    with "5.IH" show ?thesis by (cases "shapeMismatch v w (path @ k @ ''.'')") simp_all
  qed
qed simp_all

text \<open>
  The shape check accepts exactly the conforming values: every field of the schema is present in the target and conforms in
  turn, arrays meet arrays, and the other values agree in their \<^verbatim>\<open>typeof\<close>.
\<close>

theorem shape_check_accepts: "shapeMismatch s t path = None \<longleftrightarrow> conforms s t"
  by (rule shape_conforms)

end
