(* ===== verification/Gate_Spec.thy ===== *)
theory Gate_Spec
  imports Gate Checks_Spec
begin

text \<open>
  Properties of the grader and the gate: what a grader's pass and an acceptance rest on, that the gate cannot be
  talked past by text, and that nothing incomplete or failed is accepted.
\<close>

section \<open>Text that stays on one line\<close>

lemma squeeze_removes:
  "\<lbrakk>c \<in> set (squeeze P s); \<not> P CHR '' ''\<rbrakk> \<Longrightarrow> \<not> P c"
  by (induction s) (auto split: if_splits)

lemma trim_subset: "set (trim s) \<subseteq> set s"
  unfolding trim_def trim_start_def by (auto dest!: set_dropWhileD)

lemma length_trim: "length (trim s) \<le> length s"
  unfolding trim_def trim_start_def
  by (metis (no_types, opaque_lifting) length_dropWhile_le length_rev order_trans)

text \<open>
  A delegate cannot forge lines of the grader's prompt through its working directory: whatever text it names as
  its directory, the line that quotes it holds no line break and no other control character, and at most 512 characters of it.
\<close>

theorem working_dir_stays_one_line:
  "list_all (\<lambda>c. \<not> control_char c) (sanitizeOneLine v) \<and>
   length (sanitizeOneLine v) \<le> MAX_WORKING_DIR_CHARS + length TRUNCATED"
proof -
  define cleaned where "cleaned = trim (squeeze control_char (scrubText v))"
  have "\<not> control_char CHR '' ''" by (simp add: control_char_def)
  then have c: "\<not> control_char c" if "c \<in> set cleaned" for c
    using that trim_subset squeeze_removes unfolding cleaned_def by blast
  moreover have "\<not> control_char c" if "c \<in> set TRUNCATED" for c
    using that by (auto simp: TRUNCATED_def control_char_def)
  ultimately have "\<not> control_char c" if "c \<in> set (sanitizeOneLine v)" for c
    using that unfolding sanitizeOneLine_def cleaned_def [symmetric] Let_def by (auto split: if_splits dest: in_set_takeD)
  then show ?thesis
    unfolding list_all_iff sanitizeOneLine_def cleaned_def [symmetric] Let_def by auto
qed

section \<open>Criteria\<close>

lemma fit_from_sound:
  "fit_from cs budget used = (kept, omitted) \<Longrightarrow>
     subseq kept cs \<and> length cs = length kept + omitted \<and> (used \<le> budget \<longrightarrow> used + sum_list (map length kept) \<le> budget)"
  by (induction cs budget used arbitrary: kept omitted rule: fit_from.induct)
    (auto split: if_splits prod.splits)

lemma none_omitted: "fit_from cs budget used = (kept, 0) \<Longrightarrow> kept = cs"
  by (induction cs budget used arbitrary: kept rule: fit_from.induct) (auto split: if_splits prod.splits)

section \<open>The grader\<close>

text \<open>The grader's tier is never below the producer's, nor below the configured floor.\<close>

lemma grader_not_below:
  assumes "distinct lad" and "producerTier \<in> set lad"
  shows "grader_rank producerTier lad \<le> grader_rank (atLeastProducerTier producerTier (Some lad) least) lad"
proof -
  define own where "own = grader_rank producerTier lad"
  define idx where "idx = (case least of None \<Rightarrow> own | Some m \<Rightarrow> max own (grader_rank m lad))"
  have "0 \<le> index_of lad producerTier" using assms(2) by (simp add: index_of_nonneg_iff)
  then have own: "own < length lad"
    using index_of_less [of lad producerTier] by (simp add: own_def grader_rank_def)
  have le: "own \<le> idx" by (auto simp: idx_def split: option.split)
  have tier: "atLeastProducerTier producerTier (Some lad) least = lad ! min idx (length lad - 1)"
    using own by (auto simp: atLeastProducerTier_def Let_def or_else_def idx_def own_def cong: option.case_cong)
  have "min idx (length lad - 1) < length lad" using own by auto
  then have "grader_rank (lad ! min idx (length lad - 1)) lad = min idx (length lad - 1)"
    using index_of_distinct_nth [OF assms(1)] by (simp add: grader_rank_def)
  then show ?thesis unfolding tier own_def [symmetric] using le own by simp
qed

lemma incomplete_not_pass:
  "incompleteVerdict p n lad live = Some v \<Longrightarrow> snd v \<and> gv_outcome (fst v) = Some OutUnverifiable"
  by (auto simp: incompleteVerdict_def incomplete_def Let_def split: if_splits)

lemma judge_answer_pass:
  assumes "gv_outcome (judge_answer i deps tier omitted res) = Some OutPass"
  shows "ga_session res \<noteq> ci_session i" and "ga_session res \<noteq> []" and "omitted = 0"
    and "\<exists>reasons. parseGraderVerdict (cd_parse deps) (ga_text res) = Some (True, reasons)"
  using assms
  by (auto simp: judge_answer_def graded_def plain_verdict_def split: if_splits option.splits prod.splits)

text \<open>
  (C13) What a grader's pass rests on. The checker reports a pass only when the producer's return was complete, every criterion
  was put to the grader, the grader answered from a session of its own, and its answer is readable and says that it passes.
\<close>

theorem grader_pass_is_earned:
  assumes "gv_outcome (fst (runChecker i deps)) = Some OutPass"
  shows "incompleteVerdict (producer_of i) True (cd_ladder deps) (cd_liveBudget deps) = None \<and>
    fst (fitCriteria (ci_criteria i)) = ci_criteria i \<and>
    (\<exists>res reasons. cd_dispatch deps (grader_request_of i deps) = Inr res \<and>
       ga_session res \<noteq> [] \<and> ga_session res \<noteq> ci_session i \<and>
       parseGraderVerdict (cd_parse deps) (ga_text res) = Some (True, reasons))"
proof -
  obtain kept omitted where fit: "fitCriteria (ci_criteria i) = (kept, omitted)" by fastforce
  have complete: "incompleteVerdict (producer_of i) True (cd_ladder deps) (cd_liveBudget deps) = None"
  proof (cases "incompleteVerdict (producer_of i) True (cd_ladder deps) (cd_liveBudget deps)")
    case (Some v)
    with assms incomplete_not_pass [OF Some] show ?thesis
      by (auto simp: runChecker_def plain_verdict_def split: if_splits)
  qed
  then obtain res where res: "cd_dispatch deps (grader_request_of i deps) = Inr res"
    and pass: "gv_outcome (judge_answer i deps (gq_tier (grader_request_of i deps)) omitted res) = Some OutPass"
    using assms fit
    by (auto simp: runChecker_def plain_verdict_def nothing_fits_def Let_def split: if_splits sum.splits)
  note earned = judge_answer_pass [OF pass]
  have "kept = ci_criteria i" using fit earned(3) none_omitted by (simp add: fitCriteria_def)
  with complete fit res earned show ?thesis by auto
qed

section \<open>Acceptance\<close>

lemma gate_result_fields:
  "gr_accepted (gateResult fv source strict) \<longleftrightarrow>
     outcome_of (fst fv) \<noteq> OutFail \<and> \<not> snd fv \<and>
     \<not> (strict \<and> or_else (gv_caveats (fst fv)) (if outcome_of (fst fv) = OutUnverifiable then gv_reasons (fst fv) else []) \<noteq> [])"
  "gv_outcome (gr_verdict (gateResult fv source strict)) = Some (outcome_of (fst fv))"
  "gv_skipped (gr_verdict (gateResult fv source strict)) = gv_skipped (fst fv)"
  by (simp_all add: gateResult_def Let_def)

text \<open>The verdict the gate turns into a result, when it verifies.\<close>

definition gate_verdict_of :: "delegation \<Rightarrow> artefact \<Rightarrow> gate_deps \<Rightarrow> flagged_verdict" where
  "gate_verdict_of dl a deps =
     (case incompleteVerdict (artefact_producer a) True (cd_ladder (gd_checker deps)) (cd_liveBudget (gd_checker deps)) of
        Some stopped \<Rightarrow> stopped
      | None \<Rightarrow>
          (case refused_cwd dl deps of
             Some cwd \<Rightarrow> unverifiable_verdict (refusal_text (dl_cwdSource dl) cwd (or_else (dl_workRoot dl) []))
           | None \<Rightarrow> verify_at dl a deps (base_dir dl deps)))"

lemma verify_gate_result:
  "verify_gate dl a deps = gateResult (gate_verdict_of dl a deps) (dd_source (dl_dod dl)) (gd_strict deps)"
  by (simp add: verify_gate_def gate_verdict_of_def refuse_cwd_def Let_def split: option.split)

text \<open>When the gate verifies at all: it is on, the definition of done is checkable, and the dispatch is not waved through as trivial.\<close>

definition is_gated :: "delegation \<Rightarrow> gate_deps \<Rightarrow> bool" where
  "is_gated dl deps \<longleftrightarrow>
     gd_require deps \<noteq> Some RequireNever \<and> isCheckable (dl_dod dl) \<and>
     \<not> (dl_trivial dl \<and> dd_source (dl_dod dl) = SrcInferred)"

lemma accept_gated: "is_gated dl deps \<Longrightarrow> accept dl a deps = verify_gate dl a deps"
  by (auto simp: is_gated_def accept_def or_else_def Let_def split: option.splits)

text \<open>
  (C12) Nothing is accepted in silence. An acceptance means that the gate is configured off, that the dispatch was classified
  trivial and had an inferred or no checkable definition of done, or that the gate verified it: the producer's return was
  complete and the verdict is not a failure.
\<close>

theorem acceptance_is_accounted:
  assumes "gr_accepted (accept dl a deps)"
  shows "gd_require deps = Some RequireNever \<or>
    (dl_trivial dl \<and> (dd_source (dl_dod dl) = SrcInferred \<or> \<not> isCheckable (dl_dod dl))) \<or>
    (is_gated dl deps \<and>
     incompleteVerdict (artefact_producer a) True (cd_ladder (gd_checker deps)) (cd_liveBudget (gd_checker deps)) = None \<and>
     gv_outcome (gr_verdict (accept dl a deps)) \<in> {Some OutPass, Some OutUnverifiable})"
proof (cases "is_gated dl deps")
  case True
  note gated = accept_gated [OF True, of a]
  have v: "outcome_of (fst (gate_verdict_of dl a deps)) \<noteq> OutFail" "\<not> snd (gate_verdict_of dl a deps)"
    using assms unfolding gated verify_gate_result gate_result_fields by simp_all
  have none: "incompleteVerdict (artefact_producer a) True (cd_ladder (gd_checker deps)) (cd_liveBudget (gd_checker deps)) = None"
    using v(2) incomplete_not_pass by (auto simp: gate_verdict_of_def split: option.splits)
  have "gv_outcome (gr_verdict (accept dl a deps)) \<in> {Some OutPass, Some OutUnverifiable}"
    unfolding gated verify_gate_result gate_result_fields using v(1) by (cases "outcome_of (fst (gate_verdict_of dl a deps))") auto
  with True none show ?thesis by blast
next
  case False
  with assms show ?thesis
    by (auto simp: is_gated_def accept_def skipped_result_def or_else_def Let_def split: if_splits option.splits)
qed

lemma acceptance_is_gated:
  assumes "gr_accepted (accept dl a deps)" and "gd_require deps \<noteq> Some RequireNever" and "\<not> dl_trivial dl"
  shows "is_gated dl deps"
    and "incompleteVerdict (artefact_producer a) True (cd_ladder (gd_checker deps)) (cd_liveBudget (gd_checker deps)) = None"
    and "isCheckable (dl_dod dl)"
proof -
  show g: "is_gated dl deps"
    using assms by (auto simp: is_gated_def accept_def skipped_result_def or_else_def Let_def split: if_splits option.splits)
  then show "isCheckable (dl_dod dl)" by (simp add: is_gated_def)
  have "\<not> snd (gate_verdict_of dl a deps)"
    using assms(1) unfolding accept_gated [OF g] verify_gate_result gate_result_fields by blast
  then show "incompleteVerdict (artefact_producer a) True (cd_ladder (gd_checker deps)) (cd_liveBudget (gd_checker deps)) = None"
    using incomplete_not_pass by (auto simp: gate_verdict_of_def split: option.splits)
qed

section \<open>Strict acceptance\<close>

lemma some_list_nil: "or_else (some_list xs) [] = xs"
  by (simp add: some_list_def or_else_def)

lemma strict_deterministic:
  assumes "gr_accepted (gateResult (fst (runDeterministic cfg ws d), False) source True)"
  shows "list_all jd_ok (check_results cfg ws (dd_checks d)) \<and> dd_checks d \<noteq> []"
proof -
  have some: "dd_checks d \<noteq> []"
    using assms by (auto simp: gate_result_fields runDeterministic_def plain_verdict_def outcome_of_def or_else_def)
  define rs where "rs = check_results cfg ws (dd_checks d)"
  have det: "fst (runDeterministic cfg ws d) = verdict_of_results rs"
    using some by (simp add: runDeterministic_def rs_def Let_def)
  have g: "outcome_of (verdict_of_results rs) \<noteq> OutFail"
      "or_else (gv_caveats (verdict_of_results rs))
         (if outcome_of (verdict_of_results rs) = OutUnverifiable then gv_reasons (verdict_of_results rs) else []) = []"
    using assms unfolding det gate_result_fields fst_conv snd_conv by blast+
  have oc: "outcome_of (verdict_of_results rs) =
      (if list_ex definite_failure rs then OutFail else if list_all jd_ok rs then OutPass else OutUnverifiable)"
    by (simp add: outcome_of_def verdict_of_results_def Let_def or_else_def)
  have "list_all jd_ok rs"
  proof (rule ccontr)
    assume bad: "\<not> list_all jd_ok rs"
    with g(1) oc have "\<not> list_ex definite_failure rs" by auto
    with bad obtain r where r: "r \<in> set rs" "\<not> jd_ok r" "jd_unverifiable r"
      by (auto simp: list_all_iff list_ex_iff definite_failure_def)
    then have "filter jd_unverifiable rs \<noteq> []" by (auto simp: filter_empty_conv)
    then have "or_else (gv_caveats (verdict_of_results rs)) xs \<noteq> []" for xs
      by (simp add: verdict_of_results_def Let_def some_list_def or_else_def)
    with g(2) show False by blast
  qed
  with some show ?thesis by (simp add: rs_def)
qed

lemma unverifiable_rejected: "\<not> gr_accepted (gateResult (unverifiable_verdict reason) source True)"
  by (simp add: gate_result_fields unverifiable_verdict_def plain_verdict_def outcome_of_def or_else_def)

lemma strict_checker:
  assumes "gr_accepted (gateResult (runChecker i deps) source True)"
  shows "gv_outcome (fst (runChecker i deps)) = Some OutPass"
proof -
  let ?v = "fst (runChecker i deps)"
  have some: "ci_criteria i \<noteq> []"
    using assms by (auto simp: gate_result_fields runChecker_def plain_verdict_def outcome_of_def or_else_def)
  have g: "outcome_of ?v \<noteq> OutFail"
      "or_else (gv_caveats ?v) (if outcome_of ?v = OutUnverifiable then gv_reasons ?v else []) = []"
    using assms unfolding gate_result_fields by blast+
  show ?thesis
  proof (cases "gv_outcome ?v")
    case None
    then have p: "gv_pass ?v" using g(1) by (auto simp: outcome_of_def or_else_def split: if_splits)
    have "gv_outcome ?v \<noteq> None \<or> \<not> gv_pass ?v"
      using some
      by (auto simp: runChecker_def incompleteVerdict_def incomplete_def nothing_fits_def judge_answer_def graded_def plain_verdict_def Let_def
          split: option.splits prod.splits sum.splits)
    with None p show ?thesis by simp
  next
    case (Some oc)
    have "oc \<noteq> OutUnverifiable \<or> or_else (gv_caveats ?v) (gv_reasons ?v) \<noteq> []"
      using Some some
      by (auto simp: runChecker_def incompleteVerdict_def incomplete_def nothing_fits_def judge_answer_def graded_def plain_verdict_def Let_def
          or_else_def split: option.splits prod.splits sum.splits if_splits)
    with Some g show ?thesis by (cases oc) (auto simp: outcome_of_def or_else_def)
  qed
qed

text \<open>
  (C2) Under \<open>strictUnverifiable\<close> an acceptance is a verification. If the gate is on and strict and a dispatch that is not
  trivial is accepted, its definition of done is checkable, the requested directory was not refused, and either the
  producer's changes do not all lie outside the directory and every deterministic check passed there, or the checker
  reported a pass.
\<close>

theorem strict_acceptance_is_verified:
  assumes "gr_accepted (accept dl a deps)" and "gd_strict deps" and "gd_require deps \<noteq> Some RequireNever" and "\<not> dl_trivial dl"
  shows "isCheckable (dl_dod dl) \<and> refused_cwd dl deps = None \<and>
    (if dd_kind (dl_dod dl) = DodDeterministic
     then \<not> all_outside deps (base_dir dl deps) (av_changed (at_view a)) \<and> dd_checks (dl_dod dl) \<noteq> [] \<and>
       list_all jd_ok (check_results ((gd_config deps)\<lparr>cc_cwd := base_dir dl deps\<rparr>) (gd_worlds deps (base_dir dl deps)) (dd_checks (dl_dod dl)))
     else gv_outcome (fst (runChecker (checker_input_of dl a (base_dir dl deps)) (gd_checker deps))) = Some OutPass)"
proof -
  note acc = acceptance_is_gated [OF assms(1,3,4)]
  have gated: "accept dl a deps = verify_gate dl a deps" by (rule accept_gated) (rule acc(1))
  have result: "gr_accepted (gateResult (gate_verdict_of dl a deps) (dd_source (dl_dod dl)) True)"
    using assms(1,2) unfolding gated verify_gate_result by simp
  have "refused_cwd dl deps = None"
  proof (cases "refused_cwd dl deps")
    case (Some cwd)
    with result acc(2) unverifiable_rejected show ?thesis by (simp add: gate_verdict_of_def)
  qed
  with acc(2) have "gate_verdict_of dl a deps = verify_at dl a deps (base_dir dl deps)" by (simp add: gate_verdict_of_def)
  with result have at: "gr_accepted (gateResult (verify_at dl a deps (base_dir dl deps)) (dd_source (dl_dod dl)) True)" by simp
  show ?thesis
  proof (cases "dd_kind (dl_dod dl) = DodDeterministic")
    case True
    then have inside: "\<not> all_outside deps (base_dir dl deps) (av_changed (at_view a))"
      using at unverifiable_rejected by (auto simp: verify_at_def)
    with True at have "gr_accepted (gateResult (fst (runDeterministic ((gd_config deps)\<lparr>cc_cwd := base_dir dl deps\<rparr>)
        (gd_worlds deps (base_dir dl deps)) (dl_dod dl)), False) (dd_source (dl_dod dl)) True)"
      by (simp add: verify_at_def)
    from strict_deterministic [OF this] True inside acc(3) \<open>refused_cwd dl deps = None\<close> show ?thesis by simp
  next
    case False
    with at have "gr_accepted (gateResult (runChecker (checker_input_of dl a (base_dir dl deps)) (gd_checker deps)) (dd_source (dl_dod dl)) True)"
      by (simp add: verify_at_def)
    from strict_checker [OF this] False acc(3) \<open>refused_cwd dl deps = None\<close> show ?thesis by simp
  qed
qed

section \<open>Runs of the gate\<close>

definition fresh_budget :: return_budget where
  "fresh_budget = \<lparr>bs_tracked = True, bs_stopped = False, bs_usedUp = False, rb_readCapReached = None\<rparr>"

definition demo_checker_input :: checker_input where
  "demo_checker_input = \<lparr>ci_criteria = [''the file is written''],
     ci_artefact = \<lparr>av_text = ''DONE: written'', av_changed = [], av_baseline = True, av_outputs = []\<rparr>,
     ci_tier = ''fast'', ci_session = ''child'', ci_workingDir = None, ci_contract = None, ci_budget = Some fresh_budget\<rparr>"

definition passing_answer :: grader_answer where
  "passing_answer = \<lparr>ga_session = ''grader'', ga_text = ''{pass}'', ga_model = None\<rparr>"

definition demo_checker :: checker_deps where
  "demo_checker = \<lparr>cd_dispatch = (\<lambda>_. Inr passing_answer), cd_ladder = None, cd_minGraderTier = None,
     cd_liveBudget = (\<lambda>_. fresh_budget), cd_parse = (\<lambda>_. Inr (DObj [(''pass'', DBool True)]))\<rparr>"

lemma demo_not_stopped: "incompleteVerdict (producer_of demo_checker_input) True (cd_ladder demo_checker) (cd_liveBudget demo_checker) = None"
  by code_simp

lemma demo_fits: "fitCriteria (ci_criteria demo_checker_input) = (ci_criteria demo_checker_input, 0)"
  by code_simp

lemma demo_answer: "parseGraderVerdict (cd_parse demo_checker) (ga_text passing_answer) = Some (True, [])"
  by code_simp

lemma demo_pass: "gv_outcome (fst (runChecker demo_checker_input demo_checker)) = Some OutPass"
proof -
  have d: "cd_dispatch demo_checker req = Inr passing_answer" for req by (simp add: demo_checker_def)
  have c: "ci_criteria demo_checker_input \<noteq> []" by (simp add: demo_checker_input_def)
  have "ga_session passing_answer \<noteq> ci_session demo_checker_input" "ga_session passing_answer \<noteq> []"
    by (simp_all add: passing_answer_def demo_checker_input_def)
  then have "gv_outcome (judge_answer demo_checker_input demo_checker tier 0 passing_answer) = Some OutPass" for tier
    by (simp add: judge_answer_def demo_answer graded_def)
  with c show ?thesis by (simp add: runChecker_def demo_not_stopped demo_fits d Let_def)
qed

theorem grader_pass_is_earned_witness:
  "\<exists>res reasons. cd_dispatch demo_checker (grader_request_of demo_checker_input demo_checker) = Inr res \<and>
     ga_session res \<noteq> [] \<and> ga_session res \<noteq> ci_session demo_checker_input \<and>
     parseGraderVerdict (cd_parse demo_checker) (ga_text res) = Some (True, reasons)"
  using grader_pass_is_earned [OF demo_pass] by blast

text \<open>A gate whose only check is a file that exists, for a producer that changed it.\<close>

definition file_dod :: dod where
  "file_dod = \<lparr>dd_kind = DodDeterministic,
     dd_checks = [\<lparr>ck_kind = CkFileExists, ck_command = None, ck_expect = None, ck_path = Some ''a.txt'', ck_schema = None\<rparr>],
     dd_criteria = [], dd_deliverable = None, dd_source = SrcExplicit, dd_cwd = None\<rparr>"

definition demo_delegation :: delegation where
  "demo_delegation = \<lparr>dl_dod = file_dod, dl_trivial = False, dl_mode = None, dl_cwd = Some ''sub'', dl_workRoot = Some ''/w'',
     dl_refusedCwd = None, dl_cwdSource = None\<rparr>"

definition demo_artefact :: artefact where
  "demo_artefact = \<lparr>at_view = \<lparr>av_text = ''DONE: written'', av_changed = [(''/w/sub/a.txt'', ''M'')], av_baseline = True, av_outputs = []\<rparr>,
     at_session = ''child'', at_tier = ''fast'', at_contract = None, at_budget = Some fresh_budget\<rparr>"

definition demo_gate :: gate_deps where
  "demo_gate = \<lparr>gd_config = demo_check_config, gd_worlds = (\<lambda>_ _. demo_world (\<lambda>_. Inr exit_zero)), gd_checker = demo_checker,
     gd_require = None, gd_strict = True, gd_canonical = None, gd_process_cwd = ''/''\<rparr>"

lemma demo_accepted: "gr_accepted (accept demo_delegation demo_artefact demo_gate)"
  by code_simp

theorem acceptance_is_accounted_witness:
  "is_gated demo_delegation demo_gate \<and>
   gv_outcome (gr_verdict (accept demo_delegation demo_artefact demo_gate)) \<in> {Some OutPass, Some OutUnverifiable}"
proof -
  have "gd_require demo_gate \<noteq> Some RequireNever" "\<not> dl_trivial demo_delegation"
    by (simp_all add: demo_gate_def demo_delegation_def)
  with acceptance_is_accounted [OF demo_accepted] show ?thesis by blast
qed

theorem strict_acceptance_is_verified_witness:
  "refused_cwd demo_delegation demo_gate = None \<and>
   \<not> all_outside demo_gate (base_dir demo_delegation demo_gate) (av_changed (at_view demo_artefact))"
proof -
  have h: "gd_strict demo_gate" "gd_require demo_gate \<noteq> Some RequireNever" "\<not> dl_trivial demo_delegation"
      "dd_kind (dl_dod demo_delegation) = DodDeterministic"
    by (simp_all add: demo_gate_def demo_delegation_def file_dod_def)
  show ?thesis using strict_acceptance_is_verified [OF demo_accepted h(1-3)] unfolding h(4) by simp
qed

end
