(* ===== verification/Observe.thy ===== *)
theory Observe
  imports Checks Return_Contract "HOL-Library.List_Lexorder"
begin

text \<open>
  Reading test output: \<open>observeTests\<close> of \<^verbatim>\<open>src/verify/baseline.ts\<close> (summary counts, failing ids of three text
  formats, the JSON reporter) and \<open>synthesizeFullResult\<close> of \<^verbatim>\<open>deterministic.ts\<close>, which makes a run result of a full
  suite's output. \<^verbatim>\<open>JSON.parse\<close> and \<^verbatim>\<open>String(x)\<close> of a value that is not text are parameters.
\<close>

section \<open>Lines of test output\<close>

definition ANSI_RE :: rx where
  "ANSI_RE = chain [Lit [CHR 0x1B, CHR ''[''], Many (\<lambda>c. is_digit c \<or> c = CHR '';''), Lit ''m'']"

definition SUMMARY_RE :: rx where
  "SUMMARY_RE =
     chain [TextStart,
       either [Lit ''Tests:'', chain [Lit ''Tests'', One is_space], chain [Some_of (\<lambda>c. c = CHR ''=''), One is_space],
               chain [Some_of is_digit, Some_of is_space, either [Lit ''passing'', Lit ''passed'']]]]"

definition FAILED_SUMMARY_RE :: rx where
  "FAILED_SUMMARY_RE = chain [TextStart, Some_of is_digit, Some_of is_space, either [Lit ''failed'', Lit ''failing''], WordB]"

definition FAILED_COUNT_POST :: rx where
  "FAILED_COUNT_POST = chain [Some_of is_space, either [Lit ''failed'', Lit ''failing''], WordB]"

fun digits_value :: "nat \<Rightarrow> string \<Rightarrow> nat" where
  "digits_value acc [] = acc"
| "digits_value acc (c # cs) = digits_value (10 * acc + (of_char c - 48)) cs"

definition failed_count :: "string \<Rightarrow> nat option" where
  "failed_count line =
     (if rx_test SUMMARY_RE line \<or> rx_test FAILED_SUMMARY_RE line
      then map_option (digits_value 0) (capture WordB (Some_of is_digit) FAILED_COUNT_POST line) else None)"

text \<open>The id a line names: a pytest FAILED line, a vitest FAIL line with a test path, a go FAIL line.\<close>

definition failing_id :: "string \<Rightarrow> string option" where
  "failing_id line =
     first_some
       (capture (chain [TextStart, Lit ''FAILED'', Some_of is_space]) (Some_of (\<lambda>c. \<not> is_space c))
          (either [chain [Some_of is_space, Lit ''-''], TextEnd]) line)
       (first_some
          (capture (chain [TextStart, Lit ''FAIL'', Some_of is_space])
             (chain [Some_of not_newline, Some_of is_space, Lit ''>'', Some_of is_space, Some_of not_newline]) TextEnd line)
          (capture (chain [TextStart, Lit ''--- FAIL:'', Some_of is_space]) (chain [One not_newline, Lazy not_newline])
             (chain [Some_of is_space, Lit ''('', Some_of (\<lambda>c. is_digit c \<or> c = CHR ''.''), Lit ''s)'', TextEnd]) line))"

section \<open>Observations\<close>

record observation =
  ob_failures :: "string list"      \<comment> \<open>a set in insertion order\<close>
  ob_count :: "jsnum option"

definition add_id :: "string \<Rightarrow> string list \<Rightarrow> string list" where
  "add_id x ids = (if x \<in> set ids then ids else ids @ [x])"

definition max_count :: "jsnum option \<Rightarrow> nat \<Rightarrow> jsnum" where
  "max_count old n = (case old of Some (Fin x) \<Rightarrow> Fin (max x (real n)) | _ \<Rightarrow> Fin (real n))"

definition observe_line :: "observation \<Rightarrow> string \<Rightarrow> observation" where
  "observe_line ob l =
     (let trimmed = trim l in
      \<lparr>ob_failures = (case failing_id trimmed of Some i \<Rightarrow> if i = [] then ob_failures ob else add_id i (ob_failures ob)
                      | None \<Rightarrow> ob_failures ob),
       ob_count = (case failed_count trimmed of Some n \<Rightarrow> Some (max_count (ob_count ob) n) | None \<Rightarrow> ob_count ob)\<rparr>)"

definition observe_text :: "string \<Rightarrow> observation" where
  "observe_text txt = foldl observe_line \<lparr>ob_failures = [], ob_count = None\<rparr> (text_lines (replace_all (Lit []) ANSI_RE [] txt))"

text \<open>One failing test of the JSON reporter, by its suite's name.\<close>

definition json_failure :: "(jdoc \<Rightarrow> string) \<Rightarrow> (string \<times> jdoc) list \<Rightarrow> jdoc \<Rightarrow> string option" where
  "json_failure display suite test =
     (case as_obj test of
        None \<Rightarrow> None
      | Some fs \<Rightarrow>
          (case (map_of fs ''status'', Option.bind (map_of fs ''fullName'') as_str) of
             (Some (DStr st), Some fullName) \<Rightarrow>
               if st = ''failed''
               then Some ((case map_of suite ''name'' of None \<Rightarrow> [] | Some DNull \<Rightarrow> [] | Some (DStr s) \<Rightarrow> s | Some d \<Rightarrow> display d) @ '' > '' @ fullName)
               else None
           | _ \<Rightarrow> None))"

definition json_suite :: "(jdoc \<Rightarrow> string) \<Rightarrow> jdoc \<Rightarrow> string list" where
  "json_suite display suite =
     (case as_obj suite of
        None \<Rightarrow> []
      | Some fs \<Rightarrow>
          (case Option.bind (map_of fs ''assertionResults'') as_arr of
             None \<Rightarrow> [] | Some tests \<Rightarrow> List.map_filter (json_failure display fs) tests))"

definition observe_json :: "(jdoc \<Rightarrow> string) \<Rightarrow> jdoc \<Rightarrow> observation \<Rightarrow> observation" where
  "observe_json display doc ob =
     (case as_obj doc of
        None \<Rightarrow> ob
      | Some fs \<Rightarrow>
          (case Option.bind (map_of fs ''testResults'') as_arr of
             None \<Rightarrow> ob
           | Some suites \<Rightarrow>
               \<lparr>ob_failures = foldl (\<lambda>ids x. add_id x ids) (ob_failures ob) (concat (map (json_suite display) suites)),
                ob_count = (case Option.bind (map_of fs ''numFailedTests'') as_num of Some n \<Rightarrow> Some n | None \<Rightarrow> ob_count ob)\<rparr>))"

record test_observation =
  to_code :: int
  to_failures :: "string list"
  to_count :: "jsnum option"
  to_complete :: bool

definition observeTests :: "(string \<Rightarrow> string + jdoc) \<Rightarrow> (jdoc \<Rightarrow> string) \<Rightarrow> exec_result \<Rightarrow> test_observation" where
  "observeTests parse display r =
     (let lined = observe_text (output_of r);
          ob = (case parse (xr_stdout r) of Inl _ \<Rightarrow> lined | Inr doc \<Rightarrow> observe_json display doc lined) in
      \<lparr>to_code = xr_code r, to_failures = sort (ob_failures ob), to_count = ob_count ob,
       to_complete = (xr_code r = 0 \<or> (ob_failures ob \<noteq> [] \<and> ob_count ob = Some (Fin (real (length (ob_failures ob))))))\<rparr>)"

section \<open>A full run's result\<close>

definition FULL_OUTPUT_INCOMPLETE_NOTE :: string where
  "FULL_OUTPUT_INCOMPLETE_NOTE = ''the full test output could not be parsed into a complete failure inventory''"

text \<open>The failing files that exist, as the source adds them to its set; the first error thrown wins.\<close>

fun existing_files :: "(string \<Rightarrow> string + bool) \<Rightarrow> string \<Rightarrow> string list \<Rightarrow> string list \<Rightarrow> string + string list" where
  "existing_files exists cwd [] files = Inr files"
| "existing_files exists cwd (i # ids) files =
     (let abs = path_resolve cwd (fileKeyOfId i) in
      case exists abs of
        Inl e \<Rightarrow> Inl e
      | Inr found \<Rightarrow> existing_files exists cwd ids (if found then add_id abs files else files))"

definition synthesizeFullResult ::
  "(string \<Rightarrow> string + jdoc) \<Rightarrow> (jdoc \<Rightarrow> string) \<Rightarrow> (string \<Rightarrow> string + bool) \<Rightarrow> string \<Rightarrow> exec_result \<Rightarrow> string + run_result" where
  "synthesizeFullResult parse display exists cwd r =
     (let obs = observeTests parse display r; ids = sort (remdups (to_failures obs)) in
      map_sum (\<lambda>e. e)
        (\<lambda>files. \<lparr>rr_failingIds = ids, rr_failingFiles = sort files,
           rr_collectionError = (xr_code r \<noteq> 0 \<and> ids = []), rr_total = None, rr_complete = to_complete obs, rr_source = FromText,
           rr_note = (if to_complete obs then None else Some FULL_OUTPUT_INCOMPLETE_NOTE)\<rparr>)
        (existing_files exists cwd ids []))"

section \<open>What a full run proves\<close>

lemma observe_complete:
  "to_complete (observeTests parse display r) \<longleftrightarrow>
     xr_code r = 0 \<or> (to_failures (observeTests parse display r) \<noteq> [] \<and>
       to_count (observeTests parse display r) = Some (Fin (real (length (to_failures (observeTests parse display r))))))"
  by (simp add: observeTests_def Let_def) (metis length_0_conv length_sort)

text \<open>
  A full run is green only if its command exited with zero and no failing test was recognised in its output: a command
  that fails without a recognisable test, or whose count disagrees with the recognised ids, never reads as green.
\<close>

theorem full_run_is_green_only_on_success:
  assumes "synthesizeFullResult parse display exists cwd r = Inr res"
  shows "green_run res \<longleftrightarrow> xr_code r = 0 \<and> to_failures (observeTests parse display r) = []"
proof -
  obtain files where "res = \<lparr>rr_failingIds = sort (remdups (to_failures (observeTests parse display r))), rr_failingFiles = files,
      rr_collectionError = (xr_code r \<noteq> 0 \<and> sort (remdups (to_failures (observeTests parse display r))) = []), rr_total = None,
      rr_complete = to_complete (observeTests parse display r), rr_source = FromText,
      rr_note = (if to_complete (observeTests parse display r) then None else Some FULL_OUTPUT_INCOMPLETE_NOTE)\<rparr>"
    using assms unfolding synthesizeFullResult_def Let_def
    by (cases "existing_files exists cwd (sort (remdups (to_failures (observeTests parse display r)))) []") auto
  moreover have "sort (remdups xs) = [] \<longleftrightarrow> xs = []" for xs :: "string list"
    by (metis length_0_conv length_sort remdups_eq_nil_iff)
  ultimately show ?thesis using observe_complete [of parse display r] by (auto simp: green_run_def)
qed

definition no_json :: "string \<Rightarrow> string + jdoc" where "no_json _ = Inl ''not JSON''"

definition one_failure :: exec_result where
  "one_failure = \<lparr>xr_code = 1, xr_stdout = ''FAILED t.py::a - boom'', xr_stderr = [], xr_timedOut = False\<rparr>"

theorem full_run_is_green_only_on_success_witness:
  "\<exists>res. synthesizeFullResult no_json (\<lambda>_. []) (\<lambda>_. Inr True) ''/w'' one_failure = Inr res \<and>
     rr_failingFiles res = [''/w/t.py''] \<and> \<not> green_run res"
proof -
  have "map_sum (\<lambda>e. e) rr_failingFiles (synthesizeFullResult no_json (\<lambda>_. []) (\<lambda>_. Inr True) ''/w'' one_failure) = Inr [''/w/t.py'']"
    by code_simp
  then obtain res where res: "synthesizeFullResult no_json (\<lambda>_. []) (\<lambda>_. Inr True) ''/w'' one_failure = Inr res"
    and files: "rr_failingFiles res = [''/w/t.py'']"
    by (cases "synthesizeFullResult no_json (\<lambda>_. []) (\<lambda>_. Inr True) ''/w'' one_failure") auto
  have "xr_code one_failure \<noteq> 0" by (simp add: one_failure_def)
  with full_run_is_green_only_on_success [OF res] res files show ?thesis by blast
qed

end
