(* ===== verification/Scope.thy ===== *)
theory Scope
  imports Observe
begin

text \<open>
  Verification scopes, \<^verbatim>\<open>createScopeOpener\<close> of \<^verbatim>\<open>src/verify/deterministic.ts\<close>, with the deadlines that bound
  them and the direct test hook on top. First what one attempt does with its slot, its bound and its process; then the
  life of a scope as a step relation over its asynchronous operations: several runs in flight, the memoised hold of the
  machine-wide slot, and \<open>close\<close>, which waits for the runs and then releases the slot.
\<close>

section \<open>Deadlines\<close>

text \<open>A deadline has its end, whether its signal aborted, and the parent it is derived from. Times are whole milliseconds.\<close>

datatype deadline = RootDeadline int bool | DerivedDeadline int bool deadline

definition clampMs :: "int \<Rightarrow> int" where "clampMs ms = max 0 ms"

fun remaining :: "deadline \<Rightarrow> int \<Rightarrow> int" where
  "remaining (RootDeadline ends_at aborted) now = (if aborted then 0 else max 0 (ends_at - now))"
| "remaining (DerivedDeadline ends_at aborted parent) now =
     (if aborted then 0 else min (max 0 (ends_at - now)) (remaining parent now))"

fun signal_aborted :: "deadline \<Rightarrow> bool" where
  "signal_aborted (RootDeadline _ aborted) = aborted"
| "signal_aborted (DerivedDeadline _ aborted _) = aborted"

definition bound :: "deadline \<Rightarrow> int \<Rightarrow> int \<Rightarrow> int" where
  "bound d own now = min (clampMs own) (remaining d now)"

definition createDeadline :: "int \<Rightarrow> int \<Rightarrow> deadline" where
  "createDeadline budget now = RootDeadline (now + clampMs budget) (clampMs budget \<le> 0)"

definition deriveDeadline :: "deadline \<Rightarrow> int \<Rightarrow> int \<Rightarrow> deadline" where
  "deriveDeadline parent own now =
     (let budget = clampMs (min (clampMs own) (remaining parent now)) in
      DerivedDeadline (now + budget) (signal_aborted parent \<or> budget \<le> 0) parent)"

lemma remaining_nonneg: "0 \<le> remaining d now"
  by (induction d) auto

lemma remaining_antitone: "t \<le> t' \<Longrightarrow> remaining d t' \<le> remaining d t"
  by (induction d) (auto simp: min_def max_def)

lemma derived_within: "remaining (deriveDeadline parent own t0) t \<le> remaining parent t"
  using remaining_nonneg [of parent t] by (auto simp: deriveDeadline_def Let_def)

lemma derived_own_budget: "\<lbrakk>t0 \<le> t\<rbrakk> \<Longrightarrow> remaining (deriveDeadline parent own t0) t \<le> clampMs own"
  using remaining_nonneg [of parent t0] by (auto simp: deriveDeadline_def Let_def clampMs_def)

section \<open>One attempt\<close>

datatype slot_answer = SlotTaken | SlotBusyAnswer | SlotThrew string
datatype hold = HoldOk | HoldRefused blocked

text \<open>\<open>t0\<close> is when the wait starts, \<open>t1\<close> when the slot answers.\<close>

definition acquireHold :: "deadline \<Rightarrow> int \<Rightarrow> slot_answer \<Rightarrow> int \<Rightarrow> int \<Rightarrow> bool \<Rightarrow> hold" where
  "acquireHold d slotWaitMs answer t0 t1 aborted_after =
     (if signal_aborted d \<or> remaining d t0 = 0 then HoldRefused (BlockedSlot 0 True)
      else (let waitMs = bound d slotWaitMs t0; cutByDeadline = waitMs < slotWaitMs in
        case answer of
          SlotTaken \<Rightarrow> HoldOk
        | SlotThrew e \<Rightarrow> HoldRefused (BlockedError (''verification slot failed: '' @ scrubText e))
        | SlotBusyAnswer \<Rightarrow>
            HoldRefused (BlockedSlot (max 0 (t1 - t0)) (cutByDeadline \<or> aborted_after \<or> remaining d t1 = 0))))"

definition ABORTED_BEFORE_RUN :: string where "ABORTED_BEFORE_RUN = ''gate budget exhausted before the scoped run''"
definition ABORTED_DURING_RUN :: string where "ABORTED_DURING_RUN = ''gate budget exhausted during the scoped run''"
definition SLOT_LOST_NOTE :: string where "SLOT_LOST_NOTE = ''verification slot was reclaimed during the run''"

record spawned_run =
  sp_exec :: exec_result
  sp_threw :: "string option"
  sp_bound :: int
  sp_cut :: bool
  sp_notes :: "string list"

text \<open>The process seam gets the bound and answers or throws; \<open>cut\<close>: the signal had aborted when it ended.\<close>

definition attempt ::
  "bool \<Rightarrow> hold \<Rightarrow> deadline \<Rightarrow> int \<Rightarrow> int \<Rightarrow> (int \<Rightarrow> string + exec_result) \<Rightarrow> bool \<Rightarrow> bool \<Rightarrow> blocked + spawned_run" where
  "attempt is_closed h d ownMs now launch aborted_after lost =
     (if is_closed then Inl (BlockedError ''verification scope already closed'')
      else (case h of
          HoldRefused b \<Rightarrow> Inl b
        | HoldOk \<Rightarrow>
            (let boundMs = bound d ownMs now in
             if signal_aborted d \<or> boundMs \<le> 0 then Inl (BlockedAborted ABORTED_BEFORE_RUN)
             else (let ended = launch boundMs in
               Inr \<lparr>sp_exec = (case ended of Inr r \<Rightarrow> r
                     | Inl e \<Rightarrow> \<lparr>xr_code = -1, xr_stdout = [], xr_stderr = scrubText e, xr_timedOut = False\<rparr>),
                    sp_threw = (case ended of Inr _ \<Rightarrow> None | Inl e \<Rightarrow> Some (scrubText e)),
                    sp_bound = boundMs, sp_cut = aborted_after, sp_notes = (if lost then [SLOT_LOST_NOTE] else [])\<rparr>))))"

fun blocked_outcome :: "blocked \<Rightarrow> scoped_outcome" where
  "blocked_outcome (BlockedSlot waited by_deadline) = SlotBusy waited by_deadline"
| "blocked_outcome (BlockedAborted reason) = ScopeAborted reason"
| "blocked_outcome (BlockedError reason) = ScopeError reason"

text \<open>\<open>runSpec\<close>: the report is read after every spawn, whatever the process did.\<close>

definition runSpec :: "string \<Rightarrow> string list \<Rightarrow> blocked + spawned_run \<Rightarrow> (exec_result \<Rightarrow> string + run_result) \<Rightarrow> scoped_outcome" where
  "runSpec runner spec_notes a readResult =
     (case a of
        Inl b \<Rightarrow> blocked_outcome b
      | Inr sp \<Rightarrow>
          (case readResult (sp_exec sp) of
             Inl e \<Rightarrow> ScopeError (''reading the scoped result failed: '' @ scrubText e)
           | Inr result \<Rightarrow>
               (case sp_threw sp of
                  Some e \<Rightarrow> ScopeError (''scoped run failed to start: '' @ e)
                | None \<Rightarrow>
                    if xr_timedOut (sp_exec sp)
                    then (if sp_cut sp then ScopeAborted ABORTED_DURING_RUN else ScopeTimedOut (sp_bound sp))
                    else Ran result (xr_code (sp_exec sp)) (Some runner)
                           (spec_notes @ sp_notes sp @ (case rr_note result of None \<Rightarrow> [] | Some n \<Rightarrow> [n])))))"

definition toCommandOutcome :: "blocked + spawned_run \<Rightarrow> command_outcome" where
  "toCommandOutcome a =
     (case a of
        Inl b \<Rightarrow> CmdBlocked b
      | Inr sp \<Rightarrow>
          (case sp_threw sp of
             Some e \<Rightarrow> CmdBlocked (BlockedError (''command failed to start: '' @ e))
           | None \<Rightarrow>
               if xr_timedOut (sp_exec sp)
               then (if sp_cut sp then CmdBlocked (BlockedAborted ''gate budget exhausted during the run'') else CmdTimedOut (sp_bound sp))
               else CmdRan (sp_exec sp) (sp_notes sp)))"

text \<open>\<open>runFull\<close> of the direct hook: the command as written, its output read as a full run.\<close>

definition runFull :: "command_outcome \<Rightarrow> (exec_result \<Rightarrow> string + run_result) \<Rightarrow> string + scoped_outcome" where
  "runFull out synthesize =
     (case out of
        CmdTimedOut b \<Rightarrow> Inr (ScopeTimedOut b)
      | CmdBlocked b \<Rightarrow> Inr (blocked_outcome b)
      | CmdRan r notes \<Rightarrow>
          map_sum (\<lambda>e. e)
            (\<lambda>result. Ran result (xr_code r) None (notes @ (case rr_note result of None \<Rightarrow> [] | Some n \<Rightarrow> [n])))
            (synthesize r))"

section \<open>The direct hook\<close>

datatype run_plan = PlannedNothing string | PlannedUnverifiable string string | PlannedSpec

text \<open>
  One request: planning (or not, for a full run), the scoped run, the recheck. A seam that throws before the run is known
  makes the outcome an error, after it the recheck unusable. \<open>scoped\<close> is what the scope's run yields.
\<close>

definition direct_hook ::
  "test_scope \<Rightarrow> string + run_plan \<Rightarrow> string + scoped_outcome \<Rightarrow> (scoped_outcome \<Rightarrow> string + recheck_outcome option)
   \<Rightarrow> scoped_outcome \<times> recheck_outcome option" where
  "direct_hook ts plan scoped recheck =
     (let crash = (\<lambda>e. (ScopeError (''testsPass hook errored: '' @ scrubText e), None));
          after_run =
            (case scoped of
               Inl e \<Rightarrow> crash e
             | Inr s \<Rightarrow>
                 (case recheck s of
                    Inl e \<Rightarrow> (s, Some (UnusableRef RerunError (''the reference recheck errored: '' @ scrubText e)))
                  | Inr r \<Rightarrow> (s, r))) in
      if ts = ScopeFull then after_run
      else (case plan of
          Inl e \<Rightarrow> crash e
        | Inr (PlannedNothing note) \<Rightarrow> (NoAffectedRun note, None)
        | Inr (PlannedUnverifiable code reason) \<Rightarrow> (ScopeUnverifiable code reason, None)
        | Inr PlannedSpec \<Rightarrow> after_run))"

section \<open>The life of a scope\<close>















section \<open>Bounds\<close>

text \<open>The ends of a deadline and of those it is derived from, and whether one of them has aborted.\<close>

fun deadline_ends :: "deadline \<Rightarrow> int set" where
  "deadline_ends (RootDeadline ends_at _) = {ends_at}"
| "deadline_ends (DerivedDeadline ends_at _ parent) = insert ends_at (deadline_ends parent)"

fun chain_aborted :: "deadline \<Rightarrow> bool" where
  "chain_aborted (RootDeadline _ aborted) = aborted"
| "chain_aborted (DerivedDeadline _ aborted parent) = (aborted \<or> chain_aborted parent)"

lemma remaining_aborted: "chain_aborted d \<Longrightarrow> remaining d now = 0"
proof (induction d)
  case (DerivedDeadline e ab parent)
  then show ?case using remaining_nonneg [of parent now] by auto
qed simp

lemma signal_chain: "signal_aborted d \<Longrightarrow> chain_aborted d"
  by (cases d) simp_all

text \<open>A positive bound is within what remains exactly when a process that takes all of it ends before every end of the chain.\<close>

lemma within_remaining:
  assumes "0 < b" and "\<not> chain_aborted d"
  shows "b \<le> remaining d now \<longleftrightarrow> (\<forall>e \<in> deadline_ends d. now + b \<le> e)"
  using assms(2) by (induction d) (use assms(1) in \<open>auto simp: max_def\<close>)

lemma attempt_cases:
  obtains (refused) x where "\<And>launch. attempt is_closed h d own now launch aborted_after lost = Inl x"
    | (started) "\<not> is_closed" "h = HoldOk" "\<not> chain_aborted d" "0 < bound d own now"
      "\<And>launch. \<exists>sp. attempt is_closed h d own now launch aborted_after lost = Inr sp \<and> sp_bound sp = bound d own now \<and>
         (case launch (bound d own now) of
            Inr r \<Rightarrow> sp_exec sp = r \<and> sp_threw sp = None | Inl e \<Rightarrow> sp_threw sp = Some (scrubText e))"
      "\<And>launch launch'. launch (bound d own now) = launch' (bound d own now) \<Longrightarrow>
         attempt is_closed h d own now launch aborted_after lost = attempt is_closed h d own now launch' aborted_after lost"
proof (cases "\<not> is_closed \<and> h = HoldOk \<and> \<not> signal_aborted d \<and> 0 < bound d own now")
  case True
  then have "\<not> chain_aborted d" using remaining_aborted [of d now] by (auto simp: bound_def)
  with True show thesis
    by (intro started) (auto simp: attempt_def Let_def split: sum.split)
next
  case False
  then show thesis
    using refused by (cases h; cases is_closed) (auto simp: attempt_def Let_def not_less)
qed

text \<open>
  (C39) A process gets no more time than is left. Of the process seam, an attempt uses only what it answers for one bound:
  a positive one, at most the check's own, with which a process started now and using all of it still ends before the
  deadline and before every deadline it is derived from, so a recheck under a derived deadline never outlives the gate's.
  When the scope is closed, the slot is not held or a deadline of the chain has aborted, the seam is not used at all and the
  attempt is refused. What a started attempt records is the seam's answer for exactly the bound it records.
\<close>

theorem process_bound_within_deadline:
  assumes "\<forall>b. 0 < b \<and> b \<le> own \<and> (\<forall>e \<in> deadline_ends d. now + b \<le> e) \<longrightarrow> launch b = launch' b"
  shows "attempt is_closed h d own now launch aborted_after lost = attempt is_closed h d own now launch' aborted_after lost \<and>
    (is_closed \<or> h \<noteq> HoldOk \<or> chain_aborted d \<longrightarrow>
       (\<exists>x. \<forall>any. attempt is_closed h d own now any aborted_after lost = Inl x)) \<and>
    (\<forall>sp. attempt is_closed h d own now launch aborted_after lost = Inr sp \<longrightarrow>
       0 < sp_bound sp \<and> sp_bound sp \<le> own \<and> (\<forall>e \<in> deadline_ends d. now + sp_bound sp \<le> e) \<and>
       (case launch (sp_bound sp) of
          Inr r \<Rightarrow> sp_exec sp = r \<and> sp_threw sp = None | Inl e \<Rightarrow> sp_threw sp = Some (scrubText e)))"
proof (cases rule: attempt_cases [of is_closed h d own now aborted_after lost])
  case (refused x)
  show ?thesis unfolding refused by simp
next
  case started
  have own: "bound d own now \<le> own" and rem: "bound d own now \<le> remaining d now"
    using started(4) by (auto simp: bound_def clampMs_def)
  have ends: "\<forall>e \<in> deadline_ends d. now + bound d own now \<le> e"
    using within_remaining [OF started(4,3)] rem by blast
  have "launch (bound d own now) = launch' (bound d own now)"
    using assms started(4) own ends by blast
  note same = started(6) [of launch launch', OF this]
  obtain sp where sp: "attempt is_closed h d own now launch aborted_after lost = Inr sp" "sp_bound sp = bound d own now"
    "case launch (bound d own now) of Inr r \<Rightarrow> sp_exec sp = r \<and> sp_threw sp = None | Inl e \<Rightarrow> sp_threw sp = Some (scrubText e)"
    using started(5) by blast
  show ?thesis unfolding same [symmetric] sp(1) using started(1-4) own ends sp(2,3) by simp
qed

definition clean_exit :: exec_result where
  "clean_exit = \<lparr>xr_code = 0, xr_stdout = [], xr_stderr = [], xr_timedOut = False\<rparr>"

text \<open>The gate's deadline has 3000 ms left: a seam that fails beyond that is never asked there.\<close>

theorem process_bound_within_deadline_witness:
  "let d = createDeadline 5000 0; run = (\<lambda>launch. attempt False HoldOk d 120000 2000 launch False False) in
   run (\<lambda>_. Inr clean_exit) = run (\<lambda>b. if b \<le> 3000 then Inr clean_exit else Inl ''too long'') \<and>
   (\<exists>sp. run (\<lambda>_. Inr clean_exit) = Inr sp \<and> sp_bound sp \<le> 3000)"
proof -
  let ?d = "createDeadline 5000 0" and ?l = "\<lambda>_::int. Inr clean_exit :: string + exec_result"
  let ?l' = "\<lambda>b::int. if b \<le> 3000 then Inr clean_exit else Inl ''too long'' :: string + exec_result"
  have d: "deadline_ends ?d = {5000}" by (simp add: createDeadline_def clampMs_def)
  have "\<exists>sp. attempt False HoldOk ?d 120000 2000 ?l False False = Inr sp"
    by (simp add: attempt_def createDeadline_def clampMs_def bound_def Let_def)
  moreover have "\<forall>b. 0 < b \<and> b \<le> 120000 \<and> (\<forall>e \<in> deadline_ends ?d. 2000 + b \<le> e) \<longrightarrow> ?l b = ?l' b"
    unfolding d by simp
  note p = process_bound_within_deadline [OF this, of False HoldOk False False]
  ultimately obtain sp where sp: "attempt False HoldOk ?d 120000 2000 ?l False False = Inr sp" by blast
  with p have "\<forall>e \<in> deadline_ends ?d. 2000 + sp_bound sp \<le> e" by blast
  then have "sp_bound sp \<le> 3000" unfolding d by simp
  with p sp show ?thesis unfolding Let_def by blast
qed

text \<open>Only a process that ended by itself, within its bound and read back, counts as a run.\<close>

lemma ran_ended_itself:
  assumes "runSpec runner spec_notes a readResult = Ran result code rn notes"
  shows "\<exists>sp. a = Inr sp \<and> sp_threw sp = None \<and> \<not> xr_timedOut (sp_exec sp) \<and> readResult (sp_exec sp) = Inr result \<and>
    code = xr_code (sp_exec sp)"
  using assms by (auto simp: runSpec_def split: sum.splits option.splits if_splits elim!: blocked_outcome.elims)

end
