(* ===== verification/Risk.thy ===== *)
theory Risk
  imports Verify_Types Js_Regex Paths
begin

text \<open>
  The risk of a deferred delegation, \<^verbatim>\<open>src/verify/risk.ts\<close>: path classes, statuses and \<open>assessRisk\<close>, with the
  table of the file's header as an independent reading of the level.
\<close>

section \<open>Constants\<close>

definition SMALL_CHANGE_MAX :: nat where "SMALL_CHANGE_MAX = 5"
definition MEDIUM_CHANGE_MAX :: nat where "MEDIUM_CHANGE_MAX = 15"

datatype risk_reason =
    RiskEmpty | RiskDocsOnly | RiskSmall | RiskMediumCount | RiskLargeCount | RiskTestDeleted | RiskTestModified
  | RiskDeletedOrRenamed | RiskConfigChanged | RiskUnverifiable | RiskNoAffected | RiskFastTier | RiskNoReference

fun risk_text :: "risk_reason \<Rightarrow> string" where
  "risk_text RiskEmpty = ''no changes attributed''"
| "risk_text RiskDocsOnly = ''documentation-only change''"
| "risk_text RiskSmall = ''1-5 files changed''"
| "risk_text RiskMediumCount = ''6-15 files changed''"
| "risk_text RiskLargeCount = ''16 or more files changed''"
| "risk_text RiskTestDeleted = ''a test file was deleted''"
| "risk_text RiskTestModified = ''a test file was modified''"
| "risk_text RiskDeletedOrRenamed = ''files were deleted or renamed''"
| "risk_text RiskConfigChanged = ''config, lock or CI files changed''"
| "risk_text RiskUnverifiable = ''scoping impossible (S6): the change cannot be verified by scoped tests''"
| "risk_text RiskNoAffected = ''no affected tests found by static scoping''"
| "risk_text RiskFastTier = ''produced by the fast tier''"
| "risk_text RiskNoReference = ''no reference captured: risk raised one step''"

section \<open>Paths\<close>

definition norm_path :: "string \<Rightarrow> string" where
  "norm_path p = map (\<lambda>c. if c = CHR 0x5C then CHR ''/'' else c) p"

definition base_name :: "string \<Rightarrow> string" where
  "base_name p = last (split_on CHR ''/'' (norm_path p))"

definition DRIVE :: rx where
  "DRIVE = chain [TextStart, One is_alpha, Lit '':/'']"

definition isAbsolutePath :: "string \<Rightarrow> bool" where
  "isAbsolutePath n \<longleftrightarrow> is_prefix ''/'' n \<or> rx_test DRIVE n"

fun strip_dot_steps :: "string \<Rightarrow> string" where
  "strip_dot_steps (a # b # cs) = (if [a, b] = ''./'' then strip_dot_steps cs else a # b # cs)"
| "strip_dot_steps s = s"

definition strip_end_slashes :: "string \<Rightarrow> string" where
  "strip_end_slashes s = rev (dropWhile (\<lambda>c. c = CHR ''/'') (rev s))"

definition relativize :: "string \<Rightarrow> string option \<Rightarrow> string option" where
  "relativize p rootDir =
     (let n = strip_dot_steps (norm_path p) in
      if \<not> isAbsolutePath n then Some n
      else (case rootDir of
          None \<Rightarrow> None
        | Some d \<Rightarrow>
            (let r = strip_end_slashes (norm_path d); fold = (\<lambda>s. if rx_test DRIVE r then to_lower s else s) in
             if is_prefix (fold r @ ''/'') (fold n) then Some (drop (length r + 1) n) else None)))"

definition dir_start :: rx where "dir_start = either [TextStart, Lit ''/'']"

definition js_suffix :: "rx list" where
  "js_suffix = [Maybe (One (\<lambda>c. c \<in> set ''cm'')), One (\<lambda>c. c \<in> set ''jt''), Lit ''s'', Maybe (Lit ''x''), TextEnd]"

definition js_suffix_i :: "rx list" where
  "js_suffix_i =
     [Maybe (either [LitI ''c'', LitI ''m'']), either [LitI ''j'', LitI ''t''], LitI ''s'', Maybe (LitI ''x''), TextEnd]"

definition name_char :: "char \<Rightarrow> bool" where
  "name_char c \<longleftrightarrow> c \<noteq> CHR 0x0A \<and> c \<noteq> CHR 0x0D"

definition isTestPath :: "string \<Rightarrow> bool" where
  "isTestPath p \<longleftrightarrow>
     (let n = norm_path p; b = base_name n in
      rx_test (chain [dir_start, either (map Lit [''test'', ''tests'', ''__tests__'', ''__snapshots__'']), Lit ''/'']) n \<or>
      rx_test (chain [Lit ''.snap'', TextEnd]) b \<or>
      rx_test (chain ([Lit ''.'', either [Lit ''test'', Lit ''spec''], Lit ''.''] @ js_suffix)) b \<or>
      rx_test (chain [TextStart, Lit ''test_'', Many name_char, Lit ''.py'', TextEnd]) b \<or>
      rx_test (chain [Lit ''_test.py'', TextEnd]) b)"

definition SETUP_NAMES :: "string list" where
  "SETUP_NAMES =
     [''setuptests'', ''setup-tests'', ''test-setup'', ''global-setup'', ''globalsetup'', ''vitest.setup'', ''jest.setup'',
      ''setup-jest'', ''jest-setup'', ''vitest-setup'', ''global-teardown'', ''globalteardown'', ''setupvitest'',
      ''setup-vitest'', ''testsetup'']"

definition SETUP_FILE :: rx where
  "SETUP_FILE =
     either [chain ([LitI ''.setup.''] @ js_suffix_i),
             chain ([TextStart, either (map LitI SETUP_NAMES), Lit ''.''] @ js_suffix_i)]"

definition CONFIG_NAMES :: "string list" where
  "CONFIG_NAMES =
     [''package.json'', ''package-lock.json'', ''npm-shrinkwrap.json'', ''yarn.lock'', ''pnpm-lock.yaml'', ''bun.lockb'',
      ''bun.lock'', ''poetry.lock'', ''uv.lock'', ''Pipfile.lock'', ''Pipfile'', ''conftest.py'', ''pyproject.toml'',
      ''pytest.ini'', ''tox.ini'', ''setup.cfg'', ''setup.py'', ''.gitlab-ci.yml'', ''Makefile'', ''CMakeLists.txt'']"

definition isConfigPath :: "string \<Rightarrow> bool" where
  "isConfigPath p \<longleftrightarrow>
     (let n = norm_path p; b = base_name n in
      rx_test (chain [dir_start, Lit ''.github/'']) n \<or>
      b \<in> set CONFIG_NAMES \<or>
      rx_test (chain [TextStart, Lit ''tsconfig'', Many name_char, Lit ''.json'', TextEnd]) b \<or>
      rx_test (chain [TextStart, either (map Lit [''vite'', ''vitest'', ''jest'']), Lit ''.config.'']) b \<or>
      rx_test (chain [TextStart, Lit ''playwright.config.'']) b \<or>
      rx_test (chain [TextStart, Lit ''vitest.workspace.'']) b \<or>
      rx_test SETUP_FILE b \<or>
      rx_test (chain [TextStart, either [Lit ''requirements'', Lit ''constraints''], Many name_char, Lit ''.txt'', TextEnd]) b \<or>
      rx_test (chain [TextStart, Lit ''requirements'', Many name_char, Lit ''.in'', TextEnd]) b \<or>
      rx_test (chain [dir_start, LitI ''requirements/'', Many (\<lambda>c. c \<noteq> CHR ''/''), Lit ''.'', either [LitI ''txt'', LitI ''in''], TextEnd]) n)"

definition isDocPath :: "string \<Rightarrow> bool" where
  "isDocPath p \<longleftrightarrow>
     (let n = norm_path p; b = base_name n in
      \<not> (isTestPath n \<or> isConfigPath n) \<and>
      (rx_test (chain [Lit ''.'', either (map LitI [''md'', ''mdx'', ''rst'', ''adoc'']), TextEnd]) b \<or>
       rx_test (chain [TextStart, either [LitI ''license'', LitI ''changelog''], LitI ''.txt'', TextEnd]) b \<or>
       (rx_test (chain [dir_start, LitI ''docs/'']) n \<and>
        rx_test (chain [Lit ''.'', either (map LitI [''md'', ''mdx'', ''rst'', ''txt'', ''adoc'', ''png'', ''jpeg'', ''jpg'', ''gif'', ''svg'', ''webp'']),
          TextEnd]) b)))"

section \<open>Statuses\<close>

definition porcelain :: "string \<Rightarrow> bool" where
  "porcelain s \<longleftrightarrow> length s = 2 \<and> list_all (\<lambda>c. c \<in> set '' .MTADRCU?!'') s"

definition statusHas :: "string option \<Rightarrow> char \<Rightarrow> bool" where
  "statusHas status letter \<longleftrightarrow>
     (case status of
        None \<Rightarrow> False
      | Some s \<Rightarrow>
          if porcelain s then letter \<in> set s
          else trim s \<noteq> [] \<and> lower_char (hd (trim s)) = lower_char letter)"

section \<open>The assessment\<close>

datatype static_scoping = ScopingPossible | ScopingNoAffected | ScopingImpossible

record risk_input =
  ri_changed :: "changed_path list"
  ri_reference :: bool
  ri_tier :: string
  ri_plan :: static_scoping
  ri_root :: "string option"

text \<open>\<open>cls\<close>: the relative path, else the whole one.\<close>

definition cls :: "string option \<Rightarrow> string \<Rightarrow> string" where
  "cls rel raw = or_else rel (norm_path raw)"

record risk_path =
  rp_cur :: string
  rp_prev :: "string option"
  rp_deleted :: bool
  rp_renamed :: bool

definition risk_path_of :: "string option \<Rightarrow> changed_path \<Rightarrow> risk_path" where
  "risk_path_of rootDir f =
     \<lparr>rp_cur = cls (relativize (cp_path f) rootDir) (cp_path f),
      rp_prev = map_option (\<lambda>p. cls (relativize p rootDir) p) (cp_previousPath f),
      rp_deleted = statusHas (cp_status f) CHR ''D'',
      rp_renamed = (cp_previousPath f \<noteq> None \<or> statusHas (cp_status f) CHR ''R'')\<rparr>"

definition doc_file :: "string option \<Rightarrow> changed_path \<Rightarrow> bool" where
  "doc_file rootDir f \<longleftrightarrow>
     (let doc = (\<lambda>p. case relativize p rootDir of None \<Rightarrow> False | Some rel \<Rightarrow> isDocPath rel) in
      doc (cp_path f) \<and> (case cp_previousPath f of None \<Rightarrow> True | Some p \<Rightarrow> doc p))"

definition touchesTest :: "risk_path \<Rightarrow> bool" where
  "touchesTest f \<longleftrightarrow> isTestPath (rp_cur f) \<or> (case rp_prev f of None \<Rightarrow> False | Some p \<Rightarrow> isTestPath p)"

definition testGone :: "risk_path \<Rightarrow> bool" where
  "testGone f \<longleftrightarrow>
     (rp_deleted f \<and> touchesTest f) \<or>
     (case rp_prev f of None \<Rightarrow> False | Some p \<Rightarrow> isTestPath p \<and> \<not> isTestPath (rp_cur f))"

definition touchesConfig :: "risk_path \<Rightarrow> bool" where
  "touchesConfig f \<longleftrightarrow> isConfigPath (rp_cur f) \<or> (case rp_prev f of None \<Rightarrow> False | Some p \<Rightarrow> isConfigPath p)"

definition change_key :: "string option \<Rightarrow> changed_path \<Rightarrow> string" where
  "change_key rootDir f =
     (let k = cls (relativize (cp_path f) rootDir) (cp_path f) in
      if rx_test DRIVE (norm_path (cp_path f)) \<or> (case rootDir of None \<Rightarrow> False | Some d \<Rightarrow> rx_test DRIVE (norm_path d))
      then to_lower k else k)"

definition level_rank :: "risk_level \<Rightarrow> nat" where
  "level_rank l = (case l of LevelLow \<Rightarrow> 0 | LevelMedium \<Rightarrow> 1 | LevelHigh \<Rightarrow> 2)"

definition level_at :: "nat \<Rightarrow> risk_level" where
  "level_at i = (if i = 0 then LevelLow else if i = 1 then LevelMedium else LevelHigh)"

text \<open>The state of the assessment: the level's index and the reasons so far; a row that matches.\<close>

type_synonym risk_acc = "nat \<times> risk_reason list"

definition hit :: "bool \<Rightarrow> risk_level \<Rightarrow> risk_reason \<Rightarrow> risk_acc \<Rightarrow> risk_acc" where
  "hit matches l reason acc =
     (if matches then (max (fst acc) (level_rank l), snd acc @ [reason]) else acc)"

definition count_row :: "nat \<Rightarrow> risk_acc \<Rightarrow> risk_acc" where
  "count_row n acc =
     (if n \<le> SMALL_CHANGE_MAX then hit True LevelLow RiskSmall acc
      else if n \<le> MEDIUM_CHANGE_MAX then hit True LevelMedium RiskMediumCount acc
      else hit True LevelHigh RiskLargeCount acc)"

definition test_rows :: "risk_path list \<Rightarrow> risk_acc \<Rightarrow> risk_acc" where
  "test_rows paths acc =
     (if list_ex testGone paths then hit True LevelHigh RiskTestDeleted acc
      else hit (list_ex touchesTest paths) LevelMedium RiskTestModified acc)"

definition deleted_or_renamed :: "risk_path \<Rightarrow> bool" where
  "deleted_or_renamed f \<longleftrightarrow> (rp_deleted f \<and> \<not> touchesTest f) \<or> rp_renamed f"

definition plan_row :: "static_scoping \<Rightarrow> risk_acc \<Rightarrow> risk_acc" where
  "plan_row plan acc =
     (if plan = ScopingImpossible then hit True LevelMedium RiskUnverifiable acc
      else if plan = ScopingNoAffected then (fst acc, snd acc @ [RiskNoAffected]) else acc)"

definition no_reference_row :: "bool \<Rightarrow> risk_acc \<Rightarrow> risk_acc" where
  "no_reference_row reference acc = (if reference then acc else (min (fst acc + 1) 2, snd acc @ [RiskNoReference]))"

definition risk_rows :: "risk_input \<Rightarrow> risk_acc" where
  "risk_rows i =
     (let paths = map (risk_path_of (ri_root i)) (ri_changed i);
          n = card (set (map (change_key (ri_root i)) (ri_changed i))) in
      no_reference_row (ri_reference i)
        (hit (ri_tier i = ''fast'') LevelMedium RiskFastTier
          (plan_row (ri_plan i)
            (hit (list_ex touchesConfig paths) LevelMedium RiskConfigChanged
              (hit (list_ex deleted_or_renamed paths) LevelMedium RiskDeletedOrRenamed
                (test_rows paths (count_row n (0, []))))))))"

definition assessRisk :: "risk_input \<Rightarrow> risk_assessment" where
  "assessRisk i =
     (if ri_changed i = [] then \<lparr>ra_level = LevelLow, ra_reasons = [risk_text RiskEmpty]\<rparr>
      else if list_all (doc_file (ri_root i)) (ri_changed i) then \<lparr>ra_level = LevelLow, ra_reasons = [risk_text RiskDocsOnly]\<rparr>
      else \<lparr>ra_level = level_at (fst (risk_rows i)), ra_reasons = map risk_text (snd (risk_rows i))\<rparr>)"

section \<open>The table\<close>

text \<open>The rows 3 to 11 of the header's table: whether each matches, and its level.\<close>

definition table_rows :: "risk_input \<Rightarrow> (bool \<times> nat) list" where
  "table_rows i =
     (let paths = map (risk_path_of (ri_root i)) (ri_changed i);
          n = card (set (map (change_key (ri_root i)) (ri_changed i))) in
      [(1 \<le> n \<and> n \<le> 5, 0), (6 \<le> n \<and> n \<le> 15, 1), (16 \<le> n, 2), (list_ex testGone paths, 2), (list_ex touchesTest paths, 1),
       (list_ex deleted_or_renamed paths, 1), (list_ex touchesConfig paths, 1), (ri_plan i = ScopingImpossible, 1),
       (ri_tier i = ''fast'', 1)])"

definition worst :: "(bool \<times> nat) list \<Rightarrow> nat" where
  "worst rows = foldr (\<lambda>(b, l) m. if b then max l m else m) rows 0"

definition table_level :: "risk_input \<Rightarrow> nat" where
  "table_level i =
     (if ri_changed i = [] \<or> list_all (doc_file (ri_root i)) (ri_changed i) then 0
      else min 2 (worst (table_rows i) + (if ri_reference i then 0 else 1)))"

definition row_value :: "bool \<Rightarrow> nat \<Rightarrow> nat" where
  "row_value b l = (if b then l else 0)"

lemma worst_cons: "worst ((b, l) # rows) = max (row_value b l) (worst rows)" and worst_nil: "worst [] = 0"
  by (simp_all add: worst_def row_value_def)

lemma fst_hit: "fst (hit b l reason acc) = max (fst acc) (row_value b (level_rank l))"
  by (simp add: hit_def row_value_def)

lemma fst_count_row:
  "1 \<le> n \<Longrightarrow> fst (count_row n acc) =
     max (fst acc) (max (row_value (1 \<le> n \<and> n \<le> 5) 0) (max (row_value (6 \<le> n \<and> n \<le> 15) 1) (row_value (16 \<le> n) 2)))"
  by (auto simp: count_row_def fst_hit row_value_def level_rank_def SMALL_CHANGE_MAX_def MEDIUM_CHANGE_MAX_def)

lemma fst_test_rows:
  "fst (test_rows ps acc) = max (fst acc) (max (row_value (list_ex testGone ps) 2) (row_value (list_ex touchesTest ps) 1))"
  by (auto simp: test_rows_def fst_hit row_value_def level_rank_def)

lemma fst_plan_row: "fst (plan_row plan acc) = max (fst acc) (row_value (plan = ScopingImpossible) 1)"
  by (auto simp: plan_row_def fst_hit row_value_def level_rank_def)

lemma rows_worst: "fst (risk_rows i) = (if ri_reference i then worst (table_rows i) else min (worst (table_rows i) + 1) 2)"
  if "ri_changed i \<noteq> []"
proof -
  define n where "n = card (set (map (change_key (ri_root i)) (ri_changed i)))"
  have n: "1 \<le> n" using that by (simp add: n_def card_gt_0_iff Suc_le_eq)
  have medium: "level_rank LevelMedium = 1" by (simp add: level_rank_def)
  show ?thesis
    unfolding risk_rows_def table_rows_def Let_def n_def [symmetric]
    by (simp only: no_reference_row_def fst_hit fst_plan_row fst_test_rows fst_count_row [OF n] worst_cons worst_nil medium
        fst_conv max.assoc max_0L max_0R if_distrib [of fst])
qed

text \<open>
  (C40) The level is the one of the documented table: the maximum over the matching rows, raised one step without a captured
  reference and capped at high, and low for no change and for documentation alone.
\<close>

theorem risk_follows_table: "level_rank (ra_level (assessRisk i)) = table_level i"
proof (cases "ri_changed i = [] \<or> list_all (doc_file (ri_root i)) (ri_changed i)")
  case True
  then show ?thesis by (auto simp: assessRisk_def table_level_def level_rank_def)
next
  case False
  have "worst (table_rows i) \<le> 2" by (simp add: worst_def table_rows_def Let_def)
  then have "level_rank (level_at (fst (risk_rows i))) = fst (risk_rows i)"
    using False rows_worst [of i] by (auto simp: level_rank_def level_at_def)
  then show ?thesis
    using False rows_worst [of i] \<open>worst (table_rows i) \<le> 2\<close> by (auto simp: assessRisk_def table_level_def)
qed


section \<open>More changes are never less risky\<close>

lemma row_value_mono: "(b \<longrightarrow> b') \<Longrightarrow> row_value b l \<le> row_value b' l"
  by (simp add: row_value_def)

definition count_value :: "nat \<Rightarrow> nat" where
  "count_value n = max (row_value (1 \<le> n \<and> n \<le> 5) 0) (max (row_value (6 \<le> n \<and> n \<le> 15) 1) (row_value (16 \<le> n) 2))"

lemma count_value_mono: "n \<le> n' \<Longrightarrow> count_value n \<le> count_value n'"
  by (auto simp: count_value_def row_value_def)

lemma table_worst:
  "worst (table_rows i) =
     max (count_value (card (set (map (change_key (ri_root i)) (ri_changed i)))))
       (max (row_value (list_ex testGone (map (risk_path_of (ri_root i)) (ri_changed i))) 2)
         (max (row_value (list_ex touchesTest (map (risk_path_of (ri_root i)) (ri_changed i))) 1)
           (max (row_value (list_ex deleted_or_renamed (map (risk_path_of (ri_root i)) (ri_changed i))) 1)
             (max (row_value (list_ex touchesConfig (map (risk_path_of (ri_root i)) (ri_changed i))) 1)
               (max (row_value (ri_plan i = ScopingImpossible) 1) (row_value (ri_tier i = ''fast'') 1))))))"
  by (simp only: table_rows_def Let_def worst_cons worst_nil count_value_def max.assoc max_0R)

lemma worst_mono:
  assumes "set (ri_changed i) \<subseteq> set wider"
  shows "worst (table_rows i) \<le> worst (table_rows (i\<lparr>ri_changed := wider\<rparr>))"
proof -
  have le: "card (set (map (change_key (ri_root i)) (ri_changed i))) \<le> card (set (map (change_key (ri_root i)) wider))"
    using assms by (auto intro!: card_mono)
  have "list_ex P (map (risk_path_of (ri_root i)) (ri_changed i)) \<Longrightarrow> list_ex P (map (risk_path_of (ri_root i)) wider)" for P
    using assms by (auto simp: list_ex_iff)
  then have row: "row_value (list_ex P (map (risk_path_of (ri_root i)) (ri_changed i))) l \<le>
      row_value (list_ex P (map (risk_path_of (ri_root i)) wider)) l" for P l
    by (intro row_value_mono) blast
  have same: "ri_root (i\<lparr>ri_changed := wider\<rparr>) = ri_root i" "ri_plan (i\<lparr>ri_changed := wider\<rparr>) = ri_plan i"
      "ri_tier (i\<lparr>ri_changed := wider\<rparr>) = ri_tier i" "ri_changed (i\<lparr>ri_changed := wider\<rparr>) = wider"
    by simp_all
  show ?thesis
    unfolding table_worst same by (intro max.mono row count_value_mono le order_refl)
qed

text \<open>
  Adding changed files never lowers the risk: an assessment of more files, all else equal, is at least as high, whatever
  the added files are.
\<close>

theorem risk_is_monotone:
  assumes "set (ri_changed i) \<subseteq> set wider"
  shows "level_rank (ra_level (assessRisk i)) \<le> level_rank (ra_level (assessRisk (i\<lparr>ri_changed := wider\<rparr>)))"
proof -
  have "list_all (doc_file (ri_root i)) (ri_changed i)" if "wider = [] \<or> list_all (doc_file (ri_root i)) wider"
    using assms that by (auto simp: list_all_iff)
  then show ?thesis
    unfolding risk_follows_table using worst_mono [OF assms] by (auto simp: table_level_def)
qed

definition risk_demo :: risk_input where
  "risk_demo = \<lparr>ri_changed = [\<lparr>cp_path = ''README.md'', cp_status = Some ''M'', cp_previousPath = None\<rparr>], ri_reference = False,
     ri_tier = ''fast'', ri_plan = ScopingPossible, ri_root = None\<rparr>"

definition deleted_test :: changed_path where
  "deleted_test = \<lparr>cp_path = ''test/a.test.ts'', cp_status = Some ''D'', cp_previousPath = None\<rparr>"

theorem risk_is_monotone_witness:
  "ra_level (assessRisk risk_demo) = LevelLow \<and>
   level_rank (ra_level (assessRisk risk_demo)) \<le> level_rank (ra_level (assessRisk (risk_demo\<lparr>ri_changed := deleted_test # ri_changed risk_demo\<rparr>)))"
proof
  show "ra_level (assessRisk risk_demo) = LevelLow" by code_simp
  have "set (ri_changed risk_demo) \<subseteq> set (deleted_test # ri_changed risk_demo)" by auto
  from risk_is_monotone [OF this] show "level_rank (ra_level (assessRisk risk_demo)) \<le>
    level_rank (ra_level (assessRisk (risk_demo\<lparr>ri_changed := deleted_test # ri_changed risk_demo\<rparr>)))" .
qed

end
