(* ===== verification/Slot_Look.thy ===== *)
theory Slot_Look
  imports Json_Doc Js_Regex "HOL-Library.List_Lexorder"
begin

text \<open>
  The evidence behind the machine-wide verification slot, \<^verbatim>\<open>src/src/verify/slot.ts\<close>: what a lock file is,
  the shared observation record in its sidecar, and the verdicts on locks, claims and tickets.

  Times are milliseconds as reals. \<open>at0\<close> and \<open>mono\<close> are readings of a process's machine clock, \<open>now\<close> of the
  wall clock. The identity of a file is a value of its own type: that \<^verbatim>\<open>corrupt:mtime:size\<close> is not some file's
  token, and that the hashed file names do not collide, is taken for granted.
\<close>

section \<open>Configuration and lock states\<close>

record slot_cfg =
  sc_hostname :: string
  sc_pid :: jsnum
  sc_heartbeatMs :: real
  sc_staleMs :: real
  sc_corruptGraceMs :: real
  sc_claimHoldMaxMs :: real
  sc_backoffMinMs :: real
  sc_backoffMaxMs :: real

definition SLOT_DEFAULTS :: "string \<Rightarrow> jsnum \<Rightarrow> slot_cfg" where
  "SLOT_DEFAULTS host pid =
     \<lparr>sc_hostname = host, sc_pid = pid, sc_heartbeatMs = 5000, sc_staleMs = 30000, sc_corruptGraceMs = 2000,
      sc_claimHoldMaxMs = 5000, sc_backoffMinMs = 250, sc_backoffMaxMs = 2000\<rparr>"

record lock_info =
  li_pid :: jsnum
  li_hostname :: string
  li_token :: string
  li_startedAt :: jsnum
  li_cwd :: string
  li_command :: string
  li_target :: "string option"
  li_victim :: "string option"

datatype lock_state = LockMissing | LockUnreadable string | LockOk lock_info real | LockCorrupt real nat

definition num_or_zero :: "jsnum option \<Rightarrow> jsnum" where
  "num_or_zero n = (case n of None \<Rightarrow> Fin 0 | Some x \<Rightarrow> x)"

definition text_or_empty :: "string option \<Rightarrow> string" where
  "text_or_empty s = (case s of None \<Rightarrow> [] | Some x \<Rightarrow> x)"

text \<open>\<open>json\<close> is the result of \<^verbatim>\<open>JSON.parse\<close>, \<open>None\<close> for a syntax error. An array has none of the fields.\<close>

definition parseLock :: "jdoc option \<Rightarrow> lock_info option" where
  "parseLock json =
     (case Option.bind json as_obj of None \<Rightarrow> None
      | Some fs \<Rightarrow>
          (case (field_as fs ''pid'' as_num, field_as fs ''hostname'' as_str, field_as fs ''token'' as_str) of
             (Some p, Some h, Some t) \<Rightarrow>
               Some \<lparr>li_pid = p, li_hostname = h, li_token = t,
                     li_startedAt = num_or_zero (field_as fs ''startedAt'' as_num),
                     li_cwd = text_or_empty (field_as fs ''cwd'' as_str),
                     li_command = text_or_empty (field_as fs ''command'' as_str),
                     li_target = field_as fs ''target'' as_str, li_victim = field_as fs ''victim'' as_str\<rparr>
           | _ \<Rightarrow> None))"

text \<open>What \<^verbatim>\<open>cfg.read\<close> answers: one consistent snapshot, or an error code.\<close>

datatype file_read = Snapshot "jdoc option" real nat | ReadFailed string

definition TRANSIENT :: "string list" where "TRANSIENT = [''EBUSY'', ''EPERM'', ''EACCES'']"

text \<open>\<open>None\<close> stands for an error that is rethrown.\<close>

fun readLock :: "file_read \<Rightarrow> lock_state option" where
  "readLock (Snapshot json mtime len) =
     Some (case parseLock json of Some i \<Rightarrow> LockOk i mtime | None \<Rightarrow> LockCorrupt mtime len)"
| "readLock (ReadFailed code) =
     (if code = ''ENOENT'' then Some LockMissing
      else if code \<in> set TRANSIENT then Some (LockUnreadable code) else None)"

datatype file_id = TokenId string | CorruptId real nat
type_synonym file_key = "file_id \<times> real"

fun lock_mtime :: "lock_state \<Rightarrow> real" where
  "lock_mtime (LockOk i m) = m"
| "lock_mtime (LockCorrupt m n) = m"
| "lock_mtime _ = 0"

fun identity :: "lock_state \<Rightarrow> file_id" where
  "identity (LockOk i m) = TokenId (li_token i)"
| "identity (LockCorrupt m n) = CorruptId m n"
| "identity _ = TokenId []"

definition observedKey :: "lock_state \<Rightarrow> file_key" where
  "observedKey s = (identity s, lock_mtime s)"

fun is_corrupt :: "lock_state \<Rightarrow> bool" where
  "is_corrupt (LockCorrupt m n) = True"
| "is_corrupt _ = False"

section \<open>Shared observation\<close>

record seen_view =
  sv_boot :: string
  sv_bootAt :: real
  sv_slack :: real
  sv_first :: real
  sv_from :: real
  sv_last :: real

record seen_record =
  sr_key :: file_key
  sr_views :: "seen_view list"

record slot_look =
  span :: real
  witnessed :: real
  errMs :: real

definition NO_LOOK :: slot_look where "NO_LOOK = \<lparr>span = 0, witnessed = 0, errMs = 0\<rparr>"

definition ORIGIN_SLACK_MS :: real where "ORIGIN_SLACK_MS = 1000"
definition MAX_VIEWS :: nat where "MAX_VIEWS = 4"

definition originSlackMs :: "slot_cfg \<Rightarrow> real" where
  "originSlackMs cfg = min ORIGIN_SLACK_MS (sc_heartbeatMs cfg / 5)"

definition last_n :: "nat \<Rightarrow> 'a list \<Rightarrow> 'a list" where "last_n n xs = drop (length xs - n) xs"

definition same_origin :: "string \<Rightarrow> real \<Rightarrow> real \<Rightarrow> seen_view \<Rightarrow> bool" where
  "same_origin boot bootAt slack v \<longleftrightarrow> sv_boot v = boot \<and> \<bar>sv_bootAt v - bootAt\<bar> \<le> slack"

definition view_index :: "('a \<Rightarrow> bool) \<Rightarrow> 'a list \<Rightarrow> nat option" where
  "view_index P xs = List.find (\<lambda>i. P (xs ! i)) [0..<length xs]"

definition fresh_view :: "string \<Rightarrow> real \<Rightarrow> real \<Rightarrow> real \<Rightarrow> seen_view" where
  "fresh_view boot bootAt slack at0 =
     \<lparr>sv_boot = boot, sv_bootAt = bootAt, sv_slack = slack, sv_first = at0, sv_from = at0, sv_last = at0\<rparr>"

definition continued_view :: "seen_view \<Rightarrow> real \<Rightarrow> real \<Rightarrow> real \<Rightarrow> seen_view" where
  "continued_view old slack at0 maxGap =
     old\<lparr>sv_slack := max (sv_slack old) slack,
         sv_from := (if maxGap - (slack + sv_slack old) < at0 - sv_last old then at0 else sv_from old),
         sv_last := max (sv_last old) at0\<rparr>"

definition next_view :: "slot_cfg \<Rightarrow> string \<Rightarrow> real \<Rightarrow> real \<Rightarrow> seen_view option \<Rightarrow> seen_view" where
  "next_view cfg boot bootAt at0 prior =
     (let slack = originSlackMs cfg; maxGap = 2 * sc_heartbeatMs cfg in
      case prior of
        Some v \<Rightarrow> if sv_last v - maxGap \<le> at0 then continued_view v slack at0 maxGap else fresh_view boot bootAt slack at0
      | None \<Rightarrow> fresh_view boot bootAt slack at0)"

definition drop_index :: "nat option \<Rightarrow> 'a list \<Rightarrow> 'a list" where
  "drop_index i xs = (case i of None \<Rightarrow> xs | Some n \<Rightarrow> take n xs @ drop (Suc n) xs)"

text \<open>The record a look writes, and what the look establishes; \<open>prev\<close> is the sidecar's parsed content.\<close>

definition observe_record ::
  "slot_cfg \<Rightarrow> string \<Rightarrow> real \<Rightarrow> real \<Rightarrow> file_key \<Rightarrow> seen_record option \<Rightarrow> seen_view \<times> seen_record" where
  "observe_record cfg boot bootAt at0 key prev =
     (let views = (case prev of Some r \<Rightarrow> if sr_key r = key then sr_views r else [] | None \<Rightarrow> []);
          i = view_index (same_origin boot bootAt (originSlackMs cfg)) views;
          view = next_view cfg boot bootAt at0 (map_option (\<lambda>n. views ! n) i) in
      (view, \<lparr>sr_key = key, sr_views = last_n (MAX_VIEWS - 1) (drop_index i views) @ [view]\<rparr>))"

definition look_of :: "slot_cfg \<Rightarrow> real \<Rightarrow> seen_view \<Rightarrow> slot_look" where
  "look_of cfg at0 v =
     \<lparr>span = max 0 (at0 - sv_first v), witnessed = max 0 (at0 - sv_from v), errMs = originSlackMs cfg + sv_slack v\<rparr>"

text \<open>What reading the sidecar gave: nothing there, a text (parsed or torn), or an error.\<close>

datatype seen_read = SeenAbsent | SeenText "seen_record option" | SeenError

fun seen_prior :: "seen_read \<Rightarrow> seen_record option" where
  "seen_prior (SeenText r) = r"
| "seen_prior _ = None"

definition observe_look ::
  "slot_cfg \<Rightarrow> string \<Rightarrow> real \<Rightarrow> seen_read \<Rightarrow> lock_state \<Rightarrow> real \<Rightarrow> slot_look \<times> seen_record option" where
  "observe_look cfg boot bootAt rd s at0 =
     (if rd = SeenError then (NO_LOOK, None)
      else let (v, r) = observe_record cfg boot bootAt at0 (observedKey s) (seen_prior rd) in (look_of cfg at0 v, Some r))"

section \<open>Verdicts\<close>

text \<open>\<open>alive pid\<close> is the answer of \<^verbatim>\<open>isPidAlive\<close>: whether a signal can reach the process.\<close>

fun ownerDead :: "slot_cfg \<Rightarrow> (jsnum \<Rightarrow> bool) \<Rightarrow> lock_state \<Rightarrow> bool" where
  "ownerDead cfg alive (LockOk i m) \<longleftrightarrow> li_hostname i = sc_hostname cfg \<and> \<not> alive (li_pid i)"
| "ownerDead cfg alive _ \<longleftrightarrow> False"

text \<open>The locks this process created but never held: path to token.\<close>

type_synonym strays = "(string, string) jsmap"

fun isStray :: "strays \<Rightarrow> string \<Rightarrow> lock_state \<Rightarrow> bool \<times> strays" where
  "isStray st path (LockOk i m) =
     (case map_get st path of None \<Rightarrow> (False, st)
      | Some token \<Rightarrow> if li_token i = token then (True, st) else (False, map_delete path st))"
| "isStray st path _ = (False, st)"

datatype slot_verdict = VStale | VAged | VFresh

definition old_ms :: "slot_cfg \<Rightarrow> lock_state \<Rightarrow> real" where
  "old_ms cfg s = (if is_corrupt s then sc_corruptGraceMs cfg else sc_staleMs cfg)"

definition confirm_ms :: "slot_cfg \<Rightarrow> lock_state \<Rightarrow> real \<Rightarrow> real" where
  "confirm_ms cfg s beat = (if is_corrupt s then sc_corruptGraceMs cfg else 2 * beat)"

definition judge_look :: "slot_cfg \<Rightarrow> real \<Rightarrow> lock_state \<Rightarrow> slot_look \<Rightarrow> slot_verdict" where
  "judge_look cfg now s l =
     (if \<not> (old_ms cfg s < now - lock_mtime s \<or> old_ms cfg s + errMs l \<le> span l) then VFresh
      else if confirm_ms cfg s (sc_heartbeatMs cfg) + errMs l \<le> witnessed l then VStale else VAged)"

text \<open>The verdict, the record written to the sidecar (if any) and the remaining strays.\<close>

definition lockVerdict ::
  "slot_cfg \<Rightarrow> (jsnum \<Rightarrow> bool) \<Rightarrow> strays \<Rightarrow> string \<Rightarrow> real \<Rightarrow> seen_read \<Rightarrow> real \<Rightarrow> string \<Rightarrow> lock_state \<Rightarrow> real
     \<Rightarrow> slot_verdict \<times> seen_record option \<times> strays" where
  "lockVerdict cfg alive st boot bootAt rd now path s at0 =
     (if ownerDead cfg alive s then (VStale, None, st)
      else case isStray st path s of
        (True, st') \<Rightarrow> (VStale, None, st')
      | (False, st') \<Rightarrow> (let (l, r) = observe_look cfg boot bootAt rd s at0 in (judge_look cfg now s l, r, st')))"

definition claimInert ::
  "slot_cfg \<Rightarrow> (jsnum \<Rightarrow> bool) \<Rightarrow> string \<Rightarrow> real \<Rightarrow> seen_read \<Rightarrow> lock_state \<Rightarrow> real \<Rightarrow> bool \<times> seen_record option" where
  "claimInert cfg alive boot bootAt rd s at0 =
     (if ownerDead cfg alive s then (True, None)
      else let (l, r) = observe_look cfg boot bootAt rd s at0 in
        (old_ms cfg s + errMs l \<le> span l \<and> confirm_ms cfg s (sc_claimHoldMaxMs cfg) + errMs l \<le> witnessed l, r))"

section \<open>Waiting: backoff, the machine clock and tickets\<close>

text \<open>\<^verbatim>\<open>Math.round\<close> rounds halves up.\<close>

definition round_half_up :: "real \<Rightarrow> int" where "round_half_up x = \<lfloor>x + 1 / 2\<rfloor>"

definition nextBackoffMs :: "nat \<Rightarrow> real \<Rightarrow> real \<Rightarrow> real \<Rightarrow> int" where
  "nextBackoffMs n random minMs maxMs =
     (let base = min maxMs (minMs * 2 ^ min n 30) in max 1 (round_half_up (min maxMs (base * (1 + random * (1 / 2))))))"

definition HRTIME_IS_UPTIME_MS :: real where "HRTIME_IS_UPTIME_MS = 2000"

text \<open>\<^verbatim>\<open>machineClockFrom\<close>: \<open>None\<close> uses \<^verbatim>\<open>hrtime\<close> as is, otherwise the offset to add; a read may raise it.\<close>

definition machine_clock_start :: "real \<Rightarrow> real \<Rightarrow> real option" where
  "machine_clock_start u0 h0 = (if \<bar>h0 - u0\<bar> \<le> HRTIME_IS_UPTIME_MS then None else Some (u0 - h0))"

definition machine_clock_read :: "real option \<Rightarrow> real \<Rightarrow> real \<Rightarrow> real option \<times> real" where
  "machine_clock_read off u h =
     (case off of None \<Rightarrow> (None, h)
      | Some d \<Rightarrow> let d' = (if d < u - h then u - h else d) in (Some d', h + d'))"

definition TICKET_NAME :: rx where
  "TICKET_NAME = chain [TextStart, Lit ''wait-'', Run is_digit 15 (Some 15), Lit ''-'',
     Run (\<lambda>c. is_digit c \<or> c \<in> set ''abcdef-'') 36 (Some 36), Lit ''.ticket'', TextEnd]"

type_synonym ticket_seen = "(string, file_key \<times> real) jsmap"

definition ticketUnchangedMs :: "ticket_seen \<Rightarrow> string \<Rightarrow> file_key \<Rightarrow> real \<Rightarrow> real \<times> ticket_seen" where
  "ticketUnchangedMs seen path key t =
     (let restart = map_set path (key, t) (if 256 < length seen then [] else seen) in
      case map_get seen path of
        Some (k, first) \<Rightarrow> if k = key \<and> first \<le> t then (t - first, seen) else (0, restart)
      | None \<Rightarrow> (0, restart))"

definition ticketLive ::
  "slot_cfg \<Rightarrow> (jsnum \<Rightarrow> bool) \<Rightarrow> ticket_seen \<Rightarrow> real \<Rightarrow> real \<Rightarrow> string \<Rightarrow> lock_state \<Rightarrow> bool \<times> ticket_seen" where
  "ticketLive cfg alive seen now t path s =
     (case s of LockMissing \<Rightarrow> (False, seen)
      | LockUnreadable code \<Rightarrow> (True, seen)
      | _ \<Rightarrow>
          if ownerDead cfg alive s then (False, seen)
          else let ttl = confirm_ms cfg s (sc_heartbeatMs cfg) in
            if now - lock_mtime s \<le> ttl
            then (let (age, seen') = ticketUnchangedMs seen path (observedKey s) t in (age < ttl, seen'))
            else (False, seen))"

text \<open>
  The older tickets in order, with what reading each one gave (\<open>None\<close>: an error) and the clocks at its look.
  The answer, the observations kept and the tickets deleted as dead.
\<close>

record ticket_look =
  tl_name :: string
  tl_state :: "lock_state option"
  tl_now :: real
  tl_mono :: real

fun count_ahead ::
  "slot_cfg \<Rightarrow> (jsnum \<Rightarrow> bool) \<Rightarrow> (string \<Rightarrow> string) \<Rightarrow> nat \<Rightarrow> nat \<Rightarrow> ticket_seen \<Rightarrow> string list \<Rightarrow> ticket_look list
     \<Rightarrow> bool \<times> ticket_seen \<times> string list" where
  "count_ahead cfg alive path mx ahead seen gone [] = (True, seen, gone)"
| "count_ahead cfg alive path mx ahead seen gone (t # ts) =
     (case tl_state t of None \<Rightarrow> count_ahead cfg alive path mx ahead seen gone ts
      | Some s \<Rightarrow>
          (case ticketLive cfg alive seen (tl_now t) (tl_mono t) (path (tl_name t)) s of
             (True, seen') \<Rightarrow>
               if mx \<le> ahead + 1 then (False, seen', gone)
               else count_ahead cfg alive path mx (ahead + 1) seen' gone ts
           | (False, seen') \<Rightarrow>
               if s = LockMissing then count_ahead cfg alive path mx ahead seen' gone ts
               else count_ahead cfg alive path mx ahead (map_delete (path (tl_name t)) seen') (gone @ [tl_name t]) ts))"

definition older_tickets :: "string option \<Rightarrow> string list \<Rightarrow> string list" where
  "older_tickets own names =
     (let ts = sort (filter (rx_test TICKET_NAME) names) in
      case own of None \<Rightarrow> ts | Some n \<Rightarrow> takeWhile (\<lambda>t. t < n) ts)"

text \<open>\<open>names\<close> is the listing of the directory, \<open>None\<close> when it failed; \<open>look\<close> reads one ticket.\<close>

definition ticketEligible ::
  "slot_cfg \<Rightarrow> (jsnum \<Rightarrow> bool) \<Rightarrow> (string \<Rightarrow> string) \<Rightarrow> string option \<Rightarrow> nat \<Rightarrow> ticket_seen \<Rightarrow> string list option
     \<Rightarrow> (string \<Rightarrow> ticket_look) \<Rightarrow> bool \<times> ticket_seen \<times> string list" where
  "ticketEligible cfg alive path own mx seen names look =
     (case names of None \<Rightarrow> (True, seen, [])
      | Some ns \<Rightarrow> count_ahead cfg alive path mx 0 seen [] (map look (older_tickets own ns)))"

end
