(* ===== verification/Slot_Watch.thy ===== *)
theory Slot_Watch
  imports Slot_Look
begin

text \<open>
  What a verdict of staleness rests on. Every process may look at a lock at any time; looks read and write the sidecar
  without a lock, so one look's record may be lost or another's read late: any record that some look ever wrote may be
  the one a later look reads. A \<open>sighting\<close> is one look with its ghost data: the true time of its clock reading and of the
  file read that followed.
\<close>

record sighting =
  sg_boot :: string
  sg_bootAt :: real
  sg_at :: real
  sg_key :: file_key
  sg_time :: real
  sg_read :: real

definition sighted :: "slot_cfg \<Rightarrow> sighting \<Rightarrow> seen_record option \<Rightarrow> seen_view \<times> seen_record" where
  "sighted cfg x prev = observe_record cfg (sg_boot x) (sg_bootAt x) (sg_at x) (sg_key x) prev"

inductive in_sidecar :: "slot_cfg \<Rightarrow> sighting set \<Rightarrow> seen_record \<Rightarrow> bool" for cfg S where
  first_record: "x \<in> S \<Longrightarrow> in_sidecar cfg S (snd (sighted cfg x None))"
| next_record: "x \<in> S \<Longrightarrow> in_sidecar cfg S r \<Longrightarrow> in_sidecar cfg S (snd (sighted cfg x (Some r)))"

text \<open>
  Clocks whose boot instants are close are close: with a steady wall clock, the boot instant of a look is the wall's
  constant minus its clock's error.
\<close>

definition clocks_agree :: "sighting set \<Rightarrow> bool" where
  "clocks_agree S \<longleftrightarrow> (\<forall>x\<in>S. \<forall>y\<in>S. sg_boot x = sg_boot y \<longrightarrow>
     \<bar>(sg_at x - sg_time x) - (sg_at y - sg_time y)\<bar> \<le> \<bar>sg_bootAt x - sg_bootAt y\<bar>)"

text \<open>A chain of looks at one key, each at most two heartbeats of true time after the one before.\<close>

inductive watched :: "slot_cfg \<Rightarrow> sighting set \<Rightarrow> file_key \<Rightarrow> sighting \<Rightarrow> sighting \<Rightarrow> bool" for cfg S k where
  watch_start: "x \<in> S \<Longrightarrow> sg_key x = k \<Longrightarrow> watched cfg S k x x"
| watch_on: "watched cfg S k x y \<Longrightarrow> z \<in> S \<Longrightarrow> sg_key z = k \<Longrightarrow> sg_time z \<le> sg_time y + 2 * sc_heartbeatMs cfg \<Longrightarrow>
    watched cfg S k x z"

definition in_view :: "slot_cfg \<Rightarrow> sighting set \<Rightarrow> file_key \<Rightarrow> seen_view \<Rightarrow> sighting \<Rightarrow> bool" where
  "in_view cfg S k v x \<longleftrightarrow>
     x \<in> S \<and> sg_key x = k \<and> sg_boot x = sv_boot v \<and> \<bar>sv_bootAt v - sg_bootAt x\<bar> \<le> originSlackMs cfg"

definition honest_view :: "slot_cfg \<Rightarrow> sighting set \<Rightarrow> file_key \<Rightarrow> seen_view \<Rightarrow> bool" where
  "honest_view cfg S k v \<longleftrightarrow>
     sv_slack v = originSlackMs cfg \<and>
     (\<exists>c\<in>S. sg_boot c = sv_boot v \<and> sg_bootAt c = sv_bootAt v) \<and>
     (\<exists>f. in_view cfg S k v f \<and> sg_at f = sv_first v) \<and>
     (\<exists>z l. in_view cfg S k v z \<and> sg_at z = sv_from v \<and> in_view cfg S k v l \<and> sg_at l = sv_last v \<and> watched cfg S k z l)"

lemma view_clocks:
  assumes "clocks_agree S" and "honest_view cfg S k v" and "in_view cfg S k v x" and "in_view cfg S k v y"
  shows "\<bar>(sg_at x - sg_time x) - (sg_at y - sg_time y)\<bar> \<le> 2 * originSlackMs cfg"
proof -
  obtain c where "c \<in> S" "sg_boot c = sv_boot v" "sg_bootAt c = sv_bootAt v"
    using assms(2) by (auto simp: honest_view_def)
  moreover have "x \<in> S" "y \<in> S" "sg_boot x = sv_boot v" "sg_boot y = sv_boot v"
    "\<bar>sv_bootAt v - sg_bootAt x\<bar> \<le> originSlackMs cfg" "\<bar>sv_bootAt v - sg_bootAt y\<bar> \<le> originSlackMs cfg"
    using assms(3,4) by (auto simp: in_view_def)
  ultimately have "\<bar>(sg_at c - sg_time c) - (sg_at x - sg_time x)\<bar> \<le> originSlackMs cfg"
      and "\<bar>(sg_at c - sg_time c) - (sg_at y - sg_time y)\<bar> \<le> originSlackMs cfg"
    using assms(1) unfolding clocks_agree_def by (metis (no_types, lifting) order_trans)+
  then show ?thesis by linarith
qed

lemma slack_small: "originSlackMs cfg \<le> sc_heartbeatMs cfg / 5"
  by (simp add: originSlackMs_def)

lemma in_view_cong:
  "sv_boot w = sv_boot v \<Longrightarrow> sv_bootAt w = sv_bootAt v \<Longrightarrow> in_view cfg S k w x = in_view cfg S k v x"
  by (simp add: in_view_def)

lemma fresh_honest:
  assumes "x \<in> S" and "0 < sc_heartbeatMs cfg"
  shows "honest_view cfg S (sg_key x) (fresh_view (sg_boot x) (sg_bootAt x) (originSlackMs cfg) (sg_at x))"
proof -
  have "in_view cfg S (sg_key x) (fresh_view (sg_boot x) (sg_bootAt x) (originSlackMs cfg) (sg_at x)) x"
    using assms by (simp add: in_view_def fresh_view_def originSlackMs_def ORIGIN_SLACK_MS_def)
  moreover have "watched cfg S (sg_key x) x x" using assms(1) by (simp add: watch_start)
  ultimately show ?thesis
    using assms(1) unfolding honest_view_def by (auto simp: fresh_view_def)
qed

text \<open>A look continues the watch of its view, up to itself, or starts it anew.\<close>

lemma continued_honest:
  assumes "clocks_agree S" and "honest_view cfg S (sg_key x) v" and "in_view cfg S (sg_key x) v x" and "0 < sc_heartbeatMs cfg"
    and "w = continued_view v (originSlackMs cfg) (sg_at x) (2 * sc_heartbeatMs cfg)"
  shows "honest_view cfg S (sg_key x) w \<and> in_view cfg S (sg_key x) w x \<and>
    (\<exists>z. in_view cfg S (sg_key x) w z \<and> sg_at z = sv_from w \<and> watched cfg S (sg_key x) z x)"
proof -
  define s where "s = originSlackMs cfg"
  have s5: "s \<le> sc_heartbeatMs cfg / 5" using slack_small by (simp add: s_def)
  have vs: "sv_slack v = s" using assms(2) by (simp add: honest_view_def s_def)
  obtain c f where c: "c \<in> S" "sg_boot c = sv_boot v" "sg_bootAt c = sv_bootAt v"
      and f: "in_view cfg S (sg_key x) v f" "sg_at f = sv_first v"
    using assms(2) unfolding honest_view_def by blast
  obtain z l where z: "in_view cfg S (sg_key x) v z" "sg_at z = sv_from v"
      and l: "in_view cfg S (sg_key x) v l" "sg_at l = sv_last v" and zl: "watched cfg S (sg_key x) z l"
    using assms(2) unfolding honest_view_def by blast
  have same: "in_view cfg S (sg_key x) w y = in_view cfg S (sg_key x) v y" for y
    by (rule in_view_cong) (simp_all add: assms(5) continued_view_def)
  have x: "x \<in> S" using assms(3) by (simp add: in_view_def)
  have d: "sg_time x - sg_time l \<le> (sg_at x - sg_at l) + 2 * s"
    using view_clocks [OF assms(1,2,3) l(1)] unfolding s_def by linarith
  have wf: "sv_slack w = s" "sv_boot w = sv_boot v" "sv_bootAt w = sv_bootAt v" "sv_first w = sv_first v"
    by (simp_all add: assms(5) continued_view_def vs s_def [symmetric])
  have core: "\<exists>z l. in_view cfg S (sg_key x) v z \<and> sg_at z = sv_from w \<and> in_view cfg S (sg_key x) v l \<and> sg_at l = sv_last w \<and>
      watched cfg S (sg_key x) z l \<and> watched cfg S (sg_key x) z x"
  proof (cases "2 * sc_heartbeatMs cfg - (s + s) < sg_at x - sg_at l")
    case True
    then have "sv_from w = sg_at x" "sv_last w = sg_at x"
      using s5 assms(4) by (simp_all add: assms(5) continued_view_def vs s_def [symmetric] l(2))
    then show ?thesis using assms(3) watch_start [OF x refl] by metis
  next
    case False
    then have on: "watched cfg S (sg_key x) z x"
      using d s5 assms(4) by (intro watch_on [OF zl x refl]) linarith
    have from_eq: "sv_from w = sv_from v" using False by (simp add: assms(5) continued_view_def vs s_def [symmetric] l(2))
    show ?thesis
    proof (cases "sg_at l \<le> sg_at x")
      case True
      then have "sv_last w = sg_at x" by (simp add: assms(5) continued_view_def l(2) [symmetric])
      then show ?thesis using z assms(3) on from_eq by metis
    next
      case False
      then have "sv_last w = sg_at l" by (simp add: assms(5) continued_view_def l(2) [symmetric])
      then show ?thesis using z l zl on from_eq by metis
    qed
  qed
  show ?thesis using c f assms(3) core wf unfolding honest_view_def same s_def by metis
qed
definition honest_record :: "slot_cfg \<Rightarrow> sighting set \<Rightarrow> seen_record \<Rightarrow> bool" where
  "honest_record cfg S r \<longleftrightarrow> (\<forall>v\<in>set (sr_views r). honest_view cfg S (sr_key r) v)"

lemma view_index_Some: "view_index P xs = Some i \<Longrightarrow> i < length xs \<and> P (xs ! i)"
  by (auto simp: view_index_def find_Some_iff)

lemma next_view_honest:
  assumes "clocks_agree S" and "x \<in> S" and "0 < sc_heartbeatMs cfg"
    and "\<And>v. prior = Some v \<Longrightarrow> honest_view cfg S (sg_key x) v \<and> in_view cfg S (sg_key x) v x"
    and "w = next_view cfg (sg_boot x) (sg_bootAt x) (sg_at x) prior"
  shows "honest_view cfg S (sg_key x) w \<and> in_view cfg S (sg_key x) w x \<and>
    (\<exists>z. in_view cfg S (sg_key x) w z \<and> sg_at z = sv_from w \<and> watched cfg S (sg_key x) z x)"
proof -
  let ?f = "fresh_view (sg_boot x) (sg_bootAt x) (originSlackMs cfg) (sg_at x)"
  have fresh: "honest_view cfg S (sg_key x) ?f \<and> in_view cfg S (sg_key x) ?f x \<and>
      (\<exists>z. in_view cfg S (sg_key x) ?f z \<and> sg_at z = sv_from ?f \<and> watched cfg S (sg_key x) z x)"
  proof -
    have "in_view cfg S (sg_key x) ?f x"
      using assms(2,3) by (simp add: in_view_def fresh_view_def originSlackMs_def ORIGIN_SLACK_MS_def)
    moreover have "sg_at x = sv_from ?f" by (simp add: fresh_view_def)
    ultimately show ?thesis using fresh_honest [OF assms(2,3)] watch_start [OF assms(2) refl] by blast
  qed
  show ?thesis
  proof (cases prior)
    case None
    then show ?thesis using fresh by (simp add: assms(5) next_view_def Let_def)
  next
    case (Some v)
    show ?thesis
    proof (cases "sv_last v - 2 * sc_heartbeatMs cfg \<le> sg_at x")
      case True
      then have "w = continued_view v (originSlackMs cfg) (sg_at x) (2 * sc_heartbeatMs cfg)"
        by (simp add: assms(5) next_view_def Let_def Some)
      then show ?thesis using continued_honest [OF assms(1) _ _ assms(3)] assms(4) [OF Some] by blast
    next
      case False
      then show ?thesis using fresh by (simp add: assms(5) next_view_def Let_def Some)
    qed
  qed
qed

lemma drop_index_subset: "set (drop_index i xs) \<subseteq> set xs"
  by (auto simp: drop_index_def split: option.splits dest: in_set_takeD in_set_dropD)

lemma last_n_subset: "set (last_n n xs) \<subseteq> set xs"
  by (auto simp: last_n_def dest: in_set_dropD)

lemma sighted_honest:
  assumes "clocks_agree S" and "x \<in> S" and "0 < sc_heartbeatMs cfg" and "\<And>r. prev = Some r \<Longrightarrow> honest_record cfg S r"
    and "sighted cfg x prev = (w, r')"
  shows "honest_record cfg S r' \<and> honest_view cfg S (sg_key x) w \<and> in_view cfg S (sg_key x) w x \<and>
    (\<exists>z. in_view cfg S (sg_key x) w z \<and> sg_at z = sv_from w \<and> watched cfg S (sg_key x) z x)"
proof -
  define views where "views = (case prev of Some r \<Rightarrow> if sr_key r = sg_key x then sr_views r else [] | None \<Rightarrow> [])"
  define i where "i = view_index (same_origin (sg_boot x) (sg_bootAt x) (originSlackMs cfg)) views"
  have honest: "honest_view cfg S (sg_key x) v" if "v \<in> set views" for v
    using that assms(4) by (auto simp: views_def honest_record_def split: option.splits if_splits)
  have w: "w = next_view cfg (sg_boot x) (sg_bootAt x) (sg_at x) (map_option (\<lambda>n. views ! n) i)"
    and r: "r' = \<lparr>sr_key = sg_key x, sr_views = last_n (MAX_VIEWS - 1) (drop_index i views) @ [w]\<rparr>"
    using assms(5) by (auto simp: sighted_def observe_record_def Let_def views_def [symmetric] i_def [symmetric])
  have prior: "honest_view cfg S (sg_key x) v \<and> in_view cfg S (sg_key x) v x"
    if m: "map_option (\<lambda>n. views ! n) i = Some v" for v
  proof -
    obtain n where n: "i = Some n" "v = views ! n" using m by (cases i) auto
    then have "n < length views" "same_origin (sg_boot x) (sg_bootAt x) (originSlackMs cfg) v"
      using view_index_Some i_def by metis+
    then show ?thesis using honest n(2) assms(2) by (simp add: in_view_def same_origin_def)
  qed
  have new: "honest_view cfg S (sg_key x) w \<and> in_view cfg S (sg_key x) w x \<and>
    (\<exists>z. in_view cfg S (sg_key x) w z \<and> sg_at z = sv_from w \<and> watched cfg S (sg_key x) z x)"
    by (rule next_view_honest [OF assms(1-3) prior w])
  moreover have "honest_record cfg S r'"
    using new honest drop_index_subset last_n_subset unfolding honest_record_def r by fastforce
  ultimately show ?thesis by blast
qed

lemma sidecar_honest:
  assumes "in_sidecar cfg S r" and "clocks_agree S" and "0 < sc_heartbeatMs cfg"
  shows "honest_record cfg S r"
  using assms
proof (induction rule: in_sidecar.induct)
  case (first_record x)
  then show ?case using sighted_honest [of S x cfg None] by (metis option.distinct(1) prod.collapse)
next
  case (next_record x r)
  then show ?case using sighted_honest [of S x cfg "Some r"] by (metis option.inject prod.collapse)
qed

text \<open>What one look may read from the sidecar.\<close>

definition may_read :: "slot_cfg \<Rightarrow> sighting set \<Rightarrow> seen_read \<Rightarrow> bool" where
  "may_read cfg S rd \<longleftrightarrow> (case seen_prior rd of None \<Rightarrow> True | Some r \<Rightarrow> in_sidecar cfg S r)"

lemma look_is_honest:
  assumes "clocks_agree S" and "x \<in> S" and "0 < sc_heartbeatMs cfg" and "may_read cfg S rd"
    and "observe_look cfg (sg_boot x) (sg_bootAt x) rd s (sg_at x) = (l, w)" and "sg_key x = observedKey s"
  shows "l = NO_LOOK \<or>
    (errMs l = 2 * originSlackMs cfg \<and>
     (\<exists>f\<in>S. sg_key f = sg_key x \<and> span l \<le> max 0 (sg_time x - sg_time f + 2 * originSlackMs cfg)) \<and>
     (\<exists>z. watched cfg S (sg_key x) z x \<and> witnessed l \<le> max 0 (sg_time x - sg_time z + 2 * originSlackMs cfg)))"
proof (cases "rd = SeenError")
  case True
  then show ?thesis using assms(5) by (simp add: observe_look_def)
next
  case False
  obtain v r' where v: "sighted cfg x (seen_prior rd) = (v, r')" by (cases "sighted cfg x (seen_prior rd)") auto
  have l: "l = look_of cfg (sg_at x) v"
    using assms(5,6) False v by (simp add: observe_look_def sighted_def)
  have "honest_record cfg S r" if "seen_prior rd = Some r" for r
    using sidecar_honest assms(1,3,4) that by (simp add: may_read_def)
  note h = sighted_honest [OF assms(1-3) this v]
  have hv: "honest_view cfg S (sg_key x) v" and xv: "in_view cfg S (sg_key x) v x" using h by blast+
  obtain z where z: "in_view cfg S (sg_key x) v z" "sg_at z = sv_from v" "watched cfg S (sg_key x) z x" using h by blast
  obtain f where f: "in_view cfg S (sg_key x) v f" "sg_at f = sv_first v" using hv by (auto simp: honest_view_def)
  have "span l \<le> max 0 (sg_time x - sg_time f + 2 * originSlackMs cfg)"
    using view_clocks [OF assms(1) hv xv f(1)] f(2) by (simp add: l look_of_def)
  moreover have "witnessed l \<le> max 0 (sg_time x - sg_time z + 2 * originSlackMs cfg)"
    using view_clocks [OF assms(1) hv xv z(1)] z(2) by (simp add: l look_of_def)
  moreover have "f \<in> S" "sg_key f = sg_key x" using f(1) by (simp_all add: in_view_def)
  moreover have "errMs l = 2 * originSlackMs cfg" using hv by (simp add: l look_of_def honest_view_def)
  ultimately show ?thesis using z(3) by blast
qed

section \<open>Properties\<close>

text \<open>
  (C7) A lock is judged stale only when its owner is provably dead, when it is this process's own stray, or on evidence: it is
  old (by the wall clock, or because an earlier look saw the same key that long ago) and a chain of looks at the very same
  key, no two neighbours more than two heartbeats of true time apart, reaches back at least the confirmation time. This holds
  for any interleaving and any loss of sidecar writes.
\<close>

theorem stale_needs_a_watch:
  assumes "clocks_agree S" and "x \<in> S" and "may_read cfg S rd" and "sg_key x = observedKey s"
    and "0 < sc_heartbeatMs cfg" and "0 < sc_corruptGraceMs cfg" and "0 < sc_staleMs cfg"
    and "lockVerdict cfg alive st (sg_boot x) (sg_bootAt x) rd now path s (sg_at x) = (VStale, w, st')"
    and "\<not> ownerDead cfg alive s" and "\<not> fst (isStray st path s)"
  shows "(\<exists>z. watched cfg S (sg_key x) z x \<and> sg_time z + confirm_ms cfg s (sc_heartbeatMs cfg) \<le> sg_time x) \<and>
    (old_ms cfg s < now - lock_mtime s \<or> (\<exists>f\<in>S. sg_key f = sg_key x \<and> sg_time f + old_ms cfg s \<le> sg_time x))"
proof -
  obtain l w' where l: "observe_look cfg (sg_boot x) (sg_bootAt x) rd s (sg_at x) = (l, w')"
    by (cases "observe_look cfg (sg_boot x) (sg_bootAt x) rd s (sg_at x)") auto
  have "judge_look cfg now s l = VStale"
    using assms(8-10) l by (auto simp: lockVerdict_def split: prod.splits bool.splits)
  then have v: "confirm_ms cfg s (sc_heartbeatMs cfg) + errMs l \<le> witnessed l"
      and o: "old_ms cfg s < now - lock_mtime s \<or> old_ms cfg s + errMs l \<le> span l"
    by (auto simp: judge_look_def split: if_splits)
  have pos: "0 < confirm_ms cfg s (sc_heartbeatMs cfg)" "0 < old_ms cfg s" "0 < originSlackMs cfg"
    using assms(5-7) by (simp_all add: confirm_ms_def old_ms_def originSlackMs_def ORIGIN_SLACK_MS_def)
  then have "l \<noteq> NO_LOOK" using v by (auto simp: NO_LOOK_def)
  then have e: "errMs l = 2 * originSlackMs cfg"
    and f: "\<exists>f\<in>S. sg_key f = sg_key x \<and> span l \<le> max 0 (sg_time x - sg_time f + 2 * originSlackMs cfg)"
    and z: "\<exists>z. watched cfg S (sg_key x) z x \<and> witnessed l \<le> max 0 (sg_time x - sg_time z + 2 * originSlackMs cfg)"
    using look_is_honest [OF assms(1,2,5,3) l assms(4)] by blast+
  have "\<exists>z. watched cfg S (sg_key x) z x \<and> sg_time z + confirm_ms cfg s (sc_heartbeatMs cfg) \<le> sg_time x"
  proof -
    obtain z' where "watched cfg S (sg_key x) z' x" "witnessed l \<le> max 0 (sg_time x - sg_time z' + 2 * originSlackMs cfg)"
      using z by blast
    then show ?thesis using v e pos by (intro exI [of _ z']) (simp add: max_def split: if_splits)
  qed
  moreover have "\<exists>f\<in>S. sg_key f = sg_key x \<and> sg_time f + old_ms cfg s \<le> sg_time x" if "old_ms cfg s + errMs l \<le> span l"
  proof -
    obtain f' where "f' \<in> S" "sg_key f' = sg_key x" "span l \<le> max 0 (sg_time x - sg_time f' + 2 * originSlackMs cfg)"
      using f by blast
    then show ?thesis using that e pos by (intro bexI [of _ f']) (simp_all add: max_def split: if_splits)
  qed
  ultimately show ?thesis using o by blast
qed

lemma watched_ends: "watched cfg S k z x \<Longrightarrow> z \<in> S \<and> x \<in> S \<and> sg_key z = k \<and> sg_key x = k"
  by (induction rule: watched.induct) auto

text \<open>\<open>K t\<close> is the key of the lock file at the true time \<open>t\<close>; no file read comes later than \<open>late\<close> after its clock reading.\<close>

definition reads_file :: "(real \<Rightarrow> file_key option) \<Rightarrow> real \<Rightarrow> sighting set \<Rightarrow> bool" where
  "reads_file K late S \<longleftrightarrow>
     (\<forall>y\<in>S. K (sg_read y) = Some (sg_key y) \<and> sg_time y \<le> sg_read y \<and> sg_read y \<le> sg_time y + late)"

definition heartbeating :: "slot_cfg \<Rightarrow> real \<Rightarrow> (real \<Rightarrow> file_key option) \<Rightarrow> bool" where
  "heartbeating cfg late K \<longleftrightarrow>
     (\<forall>t u. t + (2 * sc_heartbeatMs cfg - late) \<le> u \<longrightarrow> K t = None \<or> K t \<noteq> K u)"

text \<open>
  (C6) A live holder keeps its slot: while its refreshes give the lock file a new key within any two heartbeats (less the
  longest delay of a read), no look of any process judges the lock stale, whatever the wall clock says.
\<close>

theorem heartbeats_keep_the_lock:
  assumes "clocks_agree S" and "x \<in> S" and "may_read cfg S rd" and "sg_key x = observedKey s"
    and "0 < sc_heartbeatMs cfg" and "0 < sc_staleMs cfg" and "s = LockOk info mtime"
    and "\<not> ownerDead cfg alive s" and "\<not> fst (isStray st path s)"
    and "reads_file K late S" and "heartbeating cfg late K"
  shows "fst (lockVerdict cfg alive st (sg_boot x) (sg_bootAt x) rd now path s (sg_at x)) \<noteq> VStale"
proof
  assume stale: "fst (lockVerdict cfg alive st (sg_boot x) (sg_bootAt x) rd now path s (sg_at x)) = VStale"
  obtain l w' where l: "observe_look cfg (sg_boot x) (sg_bootAt x) rd s (sg_at x) = (l, w')"
    by (cases "observe_look cfg (sg_boot x) (sg_bootAt x) rd s (sg_at x)") auto
  have "judge_look cfg now s l = VStale"
    using stale assms(8,9) l by (auto simp: lockVerdict_def split: prod.splits bool.splits)
  then have v: "2 * sc_heartbeatMs cfg + errMs l \<le> witnessed l"
    by (auto simp: judge_look_def assms(7) confirm_ms_def split: if_splits)
  then have "l \<noteq> NO_LOOK" using assms(5) by (auto simp: NO_LOOK_def)
  then have e: "errMs l = 2 * originSlackMs cfg"
    and z: "\<exists>z. watched cfg S (sg_key x) z x \<and> witnessed l \<le> max 0 (sg_time x - sg_time z + 2 * originSlackMs cfg)"
    using look_is_honest [OF assms(1,2,5,3) l assms(4)] by blast+
  obtain z where w: "watched cfg S (sg_key x) z x" and t: "witnessed l \<le> max 0 (sg_time x - sg_time z + 2 * originSlackMs cfg)"
    using z by blast
  have "0 < originSlackMs cfg" using assms(5) by (simp add: originSlackMs_def ORIGIN_SLACK_MS_def)
  then have "sg_time z + 2 * sc_heartbeatMs cfg \<le> sg_time x" using t v e assms(5) by (simp add: max_def split: if_splits)
  moreover have "K (sg_read z) = Some (sg_key x)" "K (sg_read x) = Some (sg_key x)"
      "sg_read z \<le> sg_time z + late" "sg_time x \<le> sg_read x"
    using assms(2,10) watched_ends [OF w] by (auto simp: reads_file_def)
  ultimately have "sg_read z + (2 * sc_heartbeatMs cfg - late) \<le> sg_read x" "K (sg_read z) = K (sg_read x)" "K (sg_read z) \<noteq> None"
    by auto
  then show False using assms(11) unfolding heartbeating_def by metis
qed

text \<open>
  A claim is taken from a live owner only after it was seen unchanged, from its first sighting on, for the staleness time (for an empty
  claim: the grace). This is the true time that the guard \<open>may_claim\<close> of the claim protocol asks for.
\<close>

lemma inert_claim_is_old:
  assumes "clocks_agree S" and "x \<in> S" and "may_read cfg S rd" and "sg_key x = observedKey s"
    and "0 < sc_heartbeatMs cfg" and "0 < old_ms cfg s" and "fst (claimInert cfg alive (sg_boot x) (sg_bootAt x) rd s (sg_at x))"
    and "\<not> ownerDead cfg alive s"
  shows "\<exists>f\<in>S. sg_key f = sg_key x \<and> sg_time f + old_ms cfg s \<le> sg_time x"
proof -
  obtain l w' where l: "observe_look cfg (sg_boot x) (sg_bootAt x) rd s (sg_at x) = (l, w')"
    by (cases "observe_look cfg (sg_boot x) (sg_bootAt x) rd s (sg_at x)") auto
  have o: "old_ms cfg s + errMs l \<le> span l"
    using assms(7,8) l by (simp add: claimInert_def)
  then have "l \<noteq> NO_LOOK" using assms(6) by (auto simp: NO_LOOK_def)
  then have e: "errMs l = 2 * originSlackMs cfg"
    and f: "\<exists>f\<in>S. sg_key f = sg_key x \<and> span l \<le> max 0 (sg_time x - sg_time f + 2 * originSlackMs cfg)"
    using look_is_honest [OF assms(1,2,5,3) l assms(4)] by blast+
  obtain f' where "f' \<in> S" "sg_key f' = sg_key x" "span l \<le> max 0 (sg_time x - sg_time f' + 2 * originSlackMs cfg)"
    using f by blast
  moreover have "0 < originSlackMs cfg" using assms(5) by (simp add: originSlackMs_def ORIGIN_SLACK_MS_def)
  ultimately show ?thesis using o e assms(6) by (intro bexI [of _ f']) (simp_all add: max_def split: if_splits)
qed

subsection \<open>Witnesses\<close>

definition slot_demo :: slot_cfg where "slot_demo = SLOT_DEFAULTS ''h'' (Fin 1)"

definition demo_lock :: "real \<Rightarrow> lock_state" where
  "demo_lock m = LockOk \<lparr>li_pid = Fin 7, li_hostname = ''h'', li_token = ''t'', li_startedAt = Fin 0, li_cwd = [], li_command = [],
     li_target = None, li_victim = None\<rparr> m"

definition demo_sight :: "real \<Rightarrow> real \<Rightarrow> sighting" where
  "demo_sight t m = \<lparr>sg_boot = [], sg_bootAt = 0, sg_at = t, sg_key = (TokenId ''t'', m), sg_time = t, sg_read = t\<rparr>"

lemma demo_key: "observedKey (demo_lock m) = (TokenId ''t'', m)"
  by (simp add: observedKey_def demo_lock_def)

lemma demo_slack: "originSlackMs slot_demo = 1000"
  by (simp add: originSlackMs_def slot_demo_def SLOT_DEFAULTS_def ORIGIN_SLACK_MS_def)

lemma demo_cfg:
  "sc_heartbeatMs slot_demo = 5000" "sc_staleMs slot_demo = 30000" "sc_corruptGraceMs slot_demo = 2000" "sc_hostname slot_demo = ''h''"
  by (simp_all add: slot_demo_def SLOT_DEFAULTS_def)

lemma demo_agree: "clocks_agree {demo_sight a k, demo_sight b m, demo_sight c n}"
  by (simp add: clocks_agree_def demo_sight_def)

definition demo_first :: "real \<Rightarrow> seen_record" where
  "demo_first m = \<lparr>sr_key = (TokenId ''t'', m), sr_views = [fresh_view [] 0 1000 0]\<rparr>"

definition demo_second :: "real \<Rightarrow> seen_record" where
  "demo_second m = \<lparr>sr_key = (TokenId ''t'', m), sr_views = [(fresh_view [] 0 1000 0)\<lparr>sv_last := 7000\<rparr>]\<rparr>"

lemma demo_sighted:
  "snd (sighted slot_demo (demo_sight 0 m) None) = demo_first m"
  "snd (sighted slot_demo (demo_sight 7000 m) (Some (demo_first m))) = demo_second m"
  by (simp_all add: sighted_def observe_record_def demo_sight_def demo_slack demo_cfg next_view_def view_index_def drop_index_def
      last_n_def MAX_VIEWS_def demo_first_def demo_second_def fresh_view_def same_origin_def continued_view_def Let_def)

lemma demo_reads: "may_read slot_demo {demo_sight 0 m, demo_sight 7000 m, demo_sight 13000 m} (SeenText (Some (demo_second m)))"
proof -
  have "in_sidecar slot_demo {demo_sight 0 m, demo_sight 7000 m, demo_sight 13000 m} (demo_first m)"
    using first_record [of "demo_sight 0 m" "{demo_sight 0 m, demo_sight 7000 m, demo_sight 13000 m}" slot_demo]
    by (simp add: demo_sighted)
  then have "in_sidecar slot_demo {demo_sight 0 m, demo_sight 7000 m, demo_sight 13000 m} (demo_second m)"
    using next_record [of "demo_sight 7000 m" "{demo_sight 0 m, demo_sight 7000 m, demo_sight 13000 m}" slot_demo "demo_first m"]
    by (simp add: demo_sighted)
  then show ?thesis by (simp add: may_read_def)
qed

text \<open>A hung holder, looked at for thirteen seconds with its heartbeat forty seconds old, is stale; its process is alive.\<close>

lemma demo_verdict:
  "lockVerdict slot_demo (\<lambda>p. True) [] [] 0 (SeenText (Some (demo_second 0))) 40000 ''p'' (demo_lock 0) 13000 =
     (VStale, Some \<lparr>sr_key = (TokenId ''t'', 0), sr_views = [(fresh_view [] 0 1000 0)\<lparr>sv_last := 13000\<rparr>]\<rparr>, [])"
proof -
  have "ownerDead slot_demo (\<lambda>p. True) (demo_lock 0) = False" "isStray [] ''p'' (demo_lock 0) = (False, [])"
    by (simp_all add: demo_lock_def)
  moreover have "observe_look slot_demo [] 0 (SeenText (Some (demo_second 0))) (demo_lock 0) 13000 =
      (\<lparr>span = 13000, witnessed = 13000, errMs = 2000\<rparr>,
       Some \<lparr>sr_key = (TokenId ''t'', 0), sr_views = [(fresh_view [] 0 1000 0)\<lparr>sv_last := 13000\<rparr>]\<rparr>)"
    by (simp add: observe_look_def observe_record_def demo_slack demo_cfg next_view_def view_index_def drop_index_def demo_key look_of_def
      last_n_def MAX_VIEWS_def demo_second_def fresh_view_def same_origin_def continued_view_def Let_def)
  moreover have "judge_look slot_demo 40000 (demo_lock 0) \<lparr>span = 13000, witnessed = 13000, errMs = 2000\<rparr> = VStale"
    by (simp add: judge_look_def old_ms_def confirm_ms_def demo_cfg demo_lock_def)
  ultimately show ?thesis by (simp add: lockVerdict_def)
qed

theorem stale_needs_a_watch_witness:
  "\<exists>z. watched slot_demo {demo_sight 0 0, demo_sight 7000 0, demo_sight 13000 0} (TokenId ''t'', 0) z (demo_sight 13000 0) \<and>
     sg_time z \<le> 3000"
proof -
  have "(\<exists>z. watched slot_demo {demo_sight 0 0, demo_sight 7000 0, demo_sight 13000 0} (sg_key (demo_sight 13000 0)) z (demo_sight 13000 0) \<and>
      sg_time z + confirm_ms slot_demo (demo_lock 0) (sc_heartbeatMs slot_demo) \<le> sg_time (demo_sight 13000 0))"
  proof (rule conjunct1 [OF stale_needs_a_watch [OF demo_agree _ demo_reads]])
    show "lockVerdict slot_demo (\<lambda>p. True) [] (sg_boot (demo_sight 13000 0)) (sg_bootAt (demo_sight 13000 0))
        (SeenText (Some (demo_second 0))) 40000 ''p'' (demo_lock 0) (sg_at (demo_sight 13000 0)) =
      (VStale, Some \<lparr>sr_key = (TokenId ''t'', 0), sr_views = [(fresh_view [] 0 1000 0)\<lparr>sv_last := 13000\<rparr>]\<rparr>, [])"
      using demo_verdict by (simp add: demo_sight_def)
  qed (simp_all add: demo_cfg demo_sight_def demo_key, simp_all add: demo_lock_def)
  then show ?thesis by (simp add: demo_sight_def confirm_ms_def demo_lock_def demo_cfg)
qed

text \<open>A holder that refreshes its file every five seconds, looked at with a wall clock two minutes ahead.\<close>

definition beating :: "real \<Rightarrow> file_key option" where
  "beating t = Some (TokenId ''t'', 5000 * real_of_int \<lfloor>t / 5000\<rfloor>)"

lemma beating_fresh: "heartbeating slot_demo 1000 beating"
proof -
  have "\<lfloor>t / 5000\<rfloor> \<noteq> \<lfloor>u / 5000\<rfloor>" if "t + 9000 \<le> u" for t u :: real
  proof -
    have "t / 5000 + 1 \<le> u / 5000" using that by simp
    then have "\<lfloor>t / 5000\<rfloor> + 1 \<le> \<lfloor>u / 5000\<rfloor>" by linarith
    then show ?thesis by simp
  qed
  then show ?thesis by (auto simp: heartbeating_def beating_def demo_cfg)
qed

theorem heartbeats_keep_the_lock_witness:
  "fst (lockVerdict slot_demo (\<lambda>p. True) [] [] 0 (SeenText (Some (demo_first 0))) 128000 ''p'' (demo_lock 5000) 8000) \<noteq> VStale"
proof -
  let ?S = "{demo_sight 0 0, demo_sight 4000 0, demo_sight 8000 5000}"
  have "in_sidecar slot_demo ?S (demo_first 0)"
    using first_record [of "demo_sight 0 0" ?S slot_demo] by (simp add: demo_sighted)
  then have r: "may_read slot_demo ?S (SeenText (Some (demo_first 0)))" by (simp add: may_read_def)
  have k: "reads_file beating 1000 ?S"
    by (simp add: reads_file_def demo_sight_def beating_def)
  have "fst (lockVerdict slot_demo (\<lambda>p. True) [] (sg_boot (demo_sight 8000 5000)) (sg_bootAt (demo_sight 8000 5000))
      (SeenText (Some (demo_first 0))) 128000 ''p'' (demo_lock 5000) (sg_at (demo_sight 8000 5000))) \<noteq> VStale"
    by (rule heartbeats_keep_the_lock [OF demo_agree _ r _ _ _ demo_lock_def _ _ k beating_fresh])
      (simp_all add: demo_cfg demo_sight_def demo_key, simp_all add: demo_lock_def)
  then show ?thesis by (simp add: demo_sight_def)
qed

end
