(* ===== verification/Slot_Claims.thy ===== *)
theory Slot_Claims
  imports Slot_Watch
begin

text \<open>
  How lock files are created and deleted, \<^verbatim>\<open>createOwned\<close>, \<^verbatim>\<open>unlinkWhile\<close> and \<^verbatim>\<open>removeUnderClaim\<close> of
  \<^verbatim>\<open>src/src/verify/slot.ts\<close>, as the interleaving of the file operations of any number of processes: every step is one
  system call or one check of the fence. A token stands for the file that was created with it; a file has its token's
  identity once it is written and an identity of its own while it is empty. The claim for a file is a path named by
  its identity.

  Time is true time. \<open>hold\<close>, \<open>stale\<close> and \<open>grace\<close> are \<^verbatim>\<open>claimHoldMaxMs\<close>, \<^verbatim>\<open>staleMs\<close> and
  \<^verbatim>\<open>corruptGraceMs\<close>; \<open>freeze\<close> bounds the time between a process's last check and its unlink, \<open>stall\<close> the time between
  creating a file and writing it. Housekeeping and the exit hook are left out.
\<close>

type_synonym token = nat
type_synonym token_file = "token \<times> bool"   \<comment> \<open>the token and whether it is written\<close>

datatype slot_path = SlotFile nat | ClaimFile token_file

datatype op_phase = OpCreated | OpWritten | OpClaimed | OpRead | OpChecked real | OpDropping | OpDropRead | OpDropChecked real | OpDone

record claim_op =
  co_target :: slot_path
  co_victim :: token_file
  co_since :: real
  co_phase :: op_phase
  co_alive :: bool

record slot_world =
  sw_now :: real
  sw_next :: token
  sw_born :: "token \<Rightarrow> real"
  sw_files :: "slot_path \<rightharpoonup> token_file"
  sw_ops :: "token \<rightharpoonup> claim_op"
  sw_locks :: "token \<rightharpoonup> nat"   \<comment> \<open>the slot a lock was created for\<close>
  sw_written :: "token list"   \<comment> \<open>the locks whose creator has written them\<close>
  sw_held :: "(nat \<times> token) list"
  sw_log :: "(slot_path \<times> token_file \<times> token_file option) list"   \<comment> \<open>unlinks: the path, what was meant, what was there\<close>

record slot_limits =
  lim_hold :: real
  lim_stale :: real
  lim_grace :: real
  lim_freeze :: real
  lim_stall :: real

text \<open>
  When a claim may be taken to delete \<open>victim\<close> at \<open>target\<close>: an empty file after the grace, another's claim
  when its owner is dead or it is inert; a written slot lock by its own rules, which exclusion does not depend on.
\<close>

definition may_claim :: "slot_limits \<Rightarrow> slot_world \<Rightarrow> slot_path \<Rightarrow> token_file \<Rightarrow> bool" where
  "may_claim L w target victim \<longleftrightarrow>
     fst victim < sw_next w \<and>
     (if \<not> snd victim then sw_born w (fst victim) + lim_grace L \<le> sw_now w
      else case target of SlotFile i \<Rightarrow> True
        | ClaimFile k \<Rightarrow> (case sw_ops w (fst victim) of None \<Rightarrow> True
             | Some c \<Rightarrow> \<not> co_alive c \<or> sw_born w (fst victim) + lim_stale L \<le> sw_now w))"

definition set_phase :: "token \<Rightarrow> op_phase \<Rightarrow> slot_world \<Rightarrow> slot_world" where
  "set_phase n ph w = w\<lparr>sw_ops := (sw_ops w)(n := map_option (co_phase_update (\<lambda>_. ph)) (sw_ops w n))\<rparr>"

definition unlink_file :: "slot_path \<Rightarrow> token_file \<Rightarrow> slot_world \<Rightarrow> slot_world" where
  "unlink_file p meant w = w\<lparr>sw_files := (sw_files w)(p := None), sw_log := (p, meant, sw_files w p) # sw_log w\<rparr>"

definition running :: "slot_world \<Rightarrow> token \<Rightarrow> claim_op \<Rightarrow> bool" where
  "running w n c \<longleftrightarrow> sw_ops w n = Some c \<and> co_alive c"

definition create_file :: "slot_path \<Rightarrow> slot_world \<Rightarrow> slot_world" where
  "create_file p w = w\<lparr>sw_next := Suc (sw_next w), sw_born := (sw_born w)(sw_next w := sw_now w),
     sw_files := (sw_files w)(p \<mapsto> (sw_next w, False))\<rparr>"

definition write_file :: "slot_path \<Rightarrow> token \<Rightarrow> slot_world \<Rightarrow> slot_world" where
  "write_file p n w = (if sw_files w p = Some (n, False) then w\<lparr>sw_files := (sw_files w)(p \<mapsto> (n, True))\<rparr> else w)"

inductive slot_step :: "slot_limits \<Rightarrow> slot_world \<Rightarrow> slot_world \<Rightarrow> bool" for L where
  tick: "0 \<le> d \<Longrightarrow> slot_step L w (w\<lparr>sw_now := sw_now w + d\<rparr>)"
| lock_create: "sw_files w (SlotFile i) = None \<Longrightarrow>
    slot_step L w ((create_file (SlotFile i) w)\<lparr>sw_locks := (sw_locks w)(sw_next w \<mapsto> i)\<rparr>)"
| lock_write: "sw_locks w n = Some i \<Longrightarrow> n \<notin> set (sw_written w) \<Longrightarrow> sw_now w \<le> sw_born w n + lim_stall L \<Longrightarrow>
    slot_step L w ((write_file (SlotFile i) n w)\<lparr>sw_written := n # sw_written w\<rparr>)"
| lock_confirm: "sw_locks w n = Some i \<Longrightarrow> sw_files w (SlotFile i) = Some (n, True) \<Longrightarrow>
    slot_step L w (w\<lparr>sw_held := (i, n) # sw_held w\<rparr>)"
| lock_trust: "sw_locks w n = Some i \<Longrightarrow> n \<in> set (sw_written w) \<Longrightarrow> slot_step L w (w\<lparr>sw_held := (i, n) # sw_held w\<rparr>)"
| claim_create: "sw_files w (ClaimFile victim) = None \<Longrightarrow> may_claim L w target victim \<Longrightarrow> since \<le> sw_now w \<Longrightarrow>
    slot_step L w ((create_file (ClaimFile victim) w)\<lparr>sw_ops := (sw_ops w)(sw_next w \<mapsto>
      \<lparr>co_target = target, co_victim = victim, co_since = since, co_phase = OpCreated, co_alive = True\<rparr>)\<rparr>)"
| claim_write: "running w n c \<Longrightarrow> co_phase c = OpCreated \<Longrightarrow> sw_now w \<le> sw_born w n + lim_stall L \<Longrightarrow>
    slot_step L w (set_phase n OpWritten (write_file (ClaimFile (co_victim c)) n w))"
| claim_confirm: "running w n c \<Longrightarrow> co_phase c = OpWritten \<Longrightarrow> sw_files w (ClaimFile (co_victim c)) = Some (n, True) \<Longrightarrow>
    slot_step L w (set_phase n OpClaimed w)"
| claim_unconfirmed: "running w n c \<Longrightarrow> co_phase c = OpWritten \<Longrightarrow> slot_step L w (set_phase n OpDropping w)"
| claim_lost: "running w n c \<Longrightarrow> co_phase c = OpWritten \<Longrightarrow> sw_files w (ClaimFile (co_victim c)) \<noteq> Some (n, True) \<Longrightarrow>
    slot_step L w (set_phase n OpDone w)"
| target_read: "running w n c \<Longrightarrow> co_phase c = OpClaimed \<Longrightarrow> sw_now w \<le> co_since c + lim_hold L \<Longrightarrow>
    sw_files w (co_target c) = Some (co_victim c) \<Longrightarrow> slot_step L w (set_phase n OpRead w)"
| target_fence: "running w n c \<Longrightarrow> co_phase c = OpRead \<Longrightarrow> sw_now w \<le> co_since c + lim_hold L \<Longrightarrow>
    slot_step L w (set_phase n (OpChecked (sw_now w)) w)"
| target_unlink: "running w n c \<Longrightarrow> co_phase c = OpChecked t \<Longrightarrow> sw_now w \<le> t + lim_freeze L \<Longrightarrow>
    slot_step L w (set_phase n OpDropping (unlink_file (co_target c) (co_victim c) w))"
| target_retry: "running w n c \<Longrightarrow> co_phase c = OpChecked t \<Longrightarrow> slot_step L w (set_phase n OpClaimed w)"
| target_quit: "running w n c \<Longrightarrow> co_phase c \<in> {OpClaimed, OpRead} \<or> co_phase c = OpChecked t \<Longrightarrow>
    slot_step L w (set_phase n OpDropping w)"
| drop_read: "running w n c \<Longrightarrow> co_phase c = OpDropping \<Longrightarrow> sw_now w \<le> co_since c + 3 / 2 * lim_hold L \<Longrightarrow>
    sw_files w (ClaimFile (co_victim c)) = Some (n, True) \<Longrightarrow> slot_step L w (set_phase n OpDropRead w)"
| drop_fence: "running w n c \<Longrightarrow> co_phase c = OpDropRead \<Longrightarrow> sw_now w \<le> co_since c + 3 / 2 * lim_hold L \<Longrightarrow>
    slot_step L w (set_phase n (OpDropChecked (sw_now w)) w)"
| drop_unlink: "running w n c \<Longrightarrow> co_phase c = OpDropChecked t \<Longrightarrow> sw_now w \<le> t + lim_freeze L \<Longrightarrow>
    slot_step L w (set_phase n OpDone (unlink_file (ClaimFile (co_victim c)) (n, True) w))"
| drop_retry: "running w n c \<Longrightarrow> co_phase c = OpDropChecked t \<Longrightarrow> slot_step L w (set_phase n OpDropping w)"
| drop_quit: "running w n c \<Longrightarrow> co_phase c \<in> {OpDropping, OpDropRead} \<Longrightarrow> slot_step L w (set_phase n OpDone w)"
| crash: "running w n c \<Longrightarrow> slot_step L w (w\<lparr>sw_ops := (sw_ops w)(n \<mapsto> c\<lparr>co_alive := False\<rparr>)\<rparr>)"

definition slot_start :: slot_world where
  "slot_start = \<lparr>sw_now = 0, sw_next = 0, sw_born = (\<lambda>_. 0), sw_files = Map.empty, sw_ops = Map.empty, sw_locks = Map.empty, sw_written = [],
     sw_held = [], sw_log = []\<rparr>"

inductive slot_run :: "slot_limits \<Rightarrow> slot_world \<Rightarrow> bool" for L where
  run_start: "slot_run L slot_start"
| run_step: "slot_run L w \<Longrightarrow> slot_step L w w' \<Longrightarrow> slot_run L w'"
section \<open>The invariant\<close>

definition limits_ok :: "slot_limits \<Rightarrow> bool" where
  "limits_ok L \<longleftrightarrow> 0 \<le> lim_hold L \<and> 0 \<le> lim_freeze L \<and> 3 / 2 * lim_hold L + lim_freeze L < lim_stale L \<and> lim_stall L < lim_grace L"

definition in_time :: "slot_limits \<Rightarrow> slot_world \<Rightarrow> token \<Rightarrow> bool" where
  "in_time L w n \<longleftrightarrow> sw_now w < sw_born w n + lim_stale L"

text \<open>Every file was created under its token, for its path.\<close>

definition files_ok :: "slot_world \<Rightarrow> bool" where
  "files_ok w \<longleftrightarrow>
     (\<forall>i n b. sw_files w (SlotFile i) = Some (n, b) \<longrightarrow> sw_locks w n = Some i) \<and>
     (\<forall>k n b. sw_files w (ClaimFile k) = Some (n, b) \<longrightarrow> (\<exists>c. sw_ops w n = Some c \<and> co_victim c = k)) \<and>
     (\<forall>n i. sw_locks w n = Some i \<longrightarrow> n < sw_next w \<and> sw_ops w n = None) \<and>
     (\<forall>n c. sw_ops w n = Some c \<longrightarrow> n < sw_next w \<and> fst (co_victim c) < sw_next w \<and> co_since c \<le> sw_born w n) \<and>
     (\<forall>n. sw_next w \<le> n \<longrightarrow> n \<notin> set (sw_written w))"

text \<open>A claim in time is there: empty until written, then with its token, until its owner drops it.\<close>

definition claims_there :: "slot_limits \<Rightarrow> slot_world \<Rightarrow> bool" where
  "claims_there L w \<longleftrightarrow> (\<forall>n c. running w n c \<longrightarrow>
     (co_phase c = OpCreated \<longrightarrow> sw_now w < sw_born w n + lim_grace L \<longrightarrow> sw_files w (ClaimFile (co_victim c)) = Some (n, False)) \<and>
     (co_phase c \<noteq> OpCreated \<longrightarrow> co_phase c \<noteq> OpDone \<longrightarrow> in_time L w n \<longrightarrow> sw_files w (ClaimFile (co_victim c)) = Some (n, True)))"

text \<open>Whoever set out to delete a file was entitled to.\<close>

definition victims_ok :: "slot_limits \<Rightarrow> slot_world \<Rightarrow> bool" where
  "victims_ok L w \<longleftrightarrow> (\<forall>m c. sw_ops w m = Some c \<longrightarrow>
     (\<not> snd (co_victim c) \<longrightarrow> sw_born w (fst (co_victim c)) + lim_grace L \<le> sw_now w) \<and>
     (snd (co_victim c) \<longrightarrow> (\<forall>k d. co_target c = ClaimFile k \<longrightarrow> running w (fst (co_victim c)) d \<longrightarrow> \<not> in_time L w (fst (co_victim c)))))"

text \<open>What was re-read under a claim in time is still there.\<close>

definition targets_there :: "slot_limits \<Rightarrow> slot_world \<Rightarrow> bool" where
  "targets_there L w \<longleftrightarrow> (\<forall>n c. running w n c \<longrightarrow> in_time L w n \<longrightarrow>
     (co_phase c = OpRead \<or> (\<exists>t. co_phase c = OpChecked t)) \<longrightarrow> sw_files w (co_target c) = Some (co_victim c))"

definition fences_ok :: "slot_limits \<Rightarrow> slot_world \<Rightarrow> bool" where
  "fences_ok L w \<longleftrightarrow> (\<forall>n c. sw_ops w n = Some c \<longrightarrow>
     (\<forall>t. co_phase c = OpChecked t \<longrightarrow> t \<le> co_since c + lim_hold L) \<and>
     (\<forall>t. co_phase c = OpDropChecked t \<longrightarrow> t \<le> co_since c + 3 / 2 * lim_hold L))"

definition logged :: "slot_world \<Rightarrow> nat \<Rightarrow> token \<Rightarrow> bool" where
  "logged w i n \<longleftrightarrow> (\<exists>b a. (SlotFile i, (n, b), a) \<in> set (sw_log w))"

definition locks_ok :: "slot_world \<Rightarrow> bool" where
  "locks_ok w \<longleftrightarrow>
     (\<forall>n i. sw_locks w n = Some i \<longrightarrow> sw_files w (SlotFile i) = Some (n, n \<in> set (sw_written w)) \<or> logged w i n) \<and>
     (\<forall>i n. (i, n) \<in> set (sw_held w) \<longrightarrow> sw_files w (SlotFile i) = Some (n, True) \<or> logged w i n)"

definition log_ok :: "slot_world \<Rightarrow> bool" where
  "log_ok w \<longleftrightarrow> (\<forall>p v a. (p, v, a) \<in> set (sw_log w) \<longrightarrow> a = Some v)"

definition slot_inv :: "slot_limits \<Rightarrow> slot_world \<Rightarrow> bool" where
  "slot_inv L w \<longleftrightarrow> files_ok w \<and> claims_there L w \<and> victims_ok L w \<and> targets_there L w \<and> fences_ok L w \<and> locks_ok w \<and> log_ok w"

lemma running_set_phase:
  "running (set_phase n ph w) m d \<longleftrightarrow> (if m = n then (\<exists>c. running w n c \<and> d = c\<lparr>co_phase := ph\<rparr>) else running w m d)"
  by (auto simp: running_def set_phase_def)

lemma set_phase_fields [simp]:
  "sw_now (set_phase n ph w) = sw_now w" "sw_next (set_phase n ph w) = sw_next w" "sw_born (set_phase n ph w) = sw_born w"
  "sw_files (set_phase n ph w) = sw_files w" "sw_locks (set_phase n ph w) = sw_locks w" "sw_written (set_phase n ph w) = sw_written w"
  "sw_held (set_phase n ph w) = sw_held w" "sw_log (set_phase n ph w) = sw_log w"
  by (simp_all add: set_phase_def)

lemma running_unique: "running w n c \<Longrightarrow> running w n d \<Longrightarrow> c = d"
  by (simp add: running_def)

text \<open>Moving an operation to another phase keeps the invariant when the new phase's facts hold.\<close>

lemma phase_inv:
  assumes inv: "slot_inv L w" and run: "running w n c" and ph: "ph \<noteq> OpCreated"
    and claim: "ph \<noteq> OpDone \<Longrightarrow> in_time L w n \<Longrightarrow> sw_files w (ClaimFile (co_victim c)) = Some (n, True)"
    and target: "ph = OpRead \<or> (\<exists>t. ph = OpChecked t) \<Longrightarrow> in_time L w n \<Longrightarrow> sw_files w (co_target c) = Some (co_victim c)"
    and fence: "\<And>t. ph = OpChecked t \<Longrightarrow> t \<le> co_since c + lim_hold L"
      "\<And>t. ph = OpDropChecked t \<Longrightarrow> t \<le> co_since c + 3 / 2 * lim_hold L"
  shows "slot_inv L (set_phase n ph w)"
proof -
  have ops: "sw_ops w n = Some c" "co_alive c" using run by (simp_all add: running_def)
  let ?w = "set_phase n ph w"
  have upd: "sw_ops ?w = (sw_ops w)(n \<mapsto> c\<lparr>co_phase := ph\<rparr>)" by (simp add: set_phase_def ops)
  have time: "in_time L ?w m = in_time L w m" for m by (simp add: in_time_def)
  have "files_ok ?w"
  proof -
    have "files_ok w" using inv by (simp add: slot_inv_def)
    then show ?thesis using ops unfolding files_ok_def upd set_phase_fields
      by (intro conjI; fastforce split: if_splits)
  qed
  moreover have "claims_there L ?w"
    unfolding claims_there_def
  proof (intro allI impI)
    fix m d assume "running ?w m d"
    then consider "m = n" "d = c\<lparr>co_phase := ph\<rparr>" | "m \<noteq> n" "running w m d"
      using running_unique [OF run] by (auto simp: running_set_phase split: if_splits)
    then show "(co_phase d = OpCreated \<longrightarrow> sw_now ?w < sw_born ?w m + lim_grace L \<longrightarrow> sw_files ?w (ClaimFile (co_victim d)) = Some (m, False)) \<and>
       (co_phase d \<noteq> OpCreated \<longrightarrow> co_phase d \<noteq> OpDone \<longrightarrow> in_time L ?w m \<longrightarrow> sw_files ?w (ClaimFile (co_victim d)) = Some (m, True))"
    proof cases
      case 1
      then show ?thesis using ph claim by (simp add: time)
    next
      case 2
      then show ?thesis using inv by (simp add: slot_inv_def claims_there_def time)
    qed
  qed
  moreover have "victims_ok L ?w"
  proof -
    have "running ?w m d \<Longrightarrow> \<exists>e. running w m e" for m d using run by (auto simp: running_set_phase split: if_splits)
    then show ?thesis
      using inv ops unfolding slot_inv_def victims_ok_def upd time by (fastforce split: if_splits)
  qed
  moreover have "targets_there L ?w"
    unfolding targets_there_def
  proof (intro allI impI)
    fix m d assume "running ?w m d" and t: "in_time L ?w m" "co_phase d = OpRead \<or> (\<exists>t. co_phase d = OpChecked t)"
    then consider "m = n" "d = c\<lparr>co_phase := ph\<rparr>" | "m \<noteq> n" "running w m d"
      using running_unique [OF run] by (auto simp: running_set_phase split: if_splits)
    then show "sw_files ?w (co_target d) = Some (co_victim d)"
    proof cases
      case 1
      then show ?thesis using target t by (simp add: time)
    next
      case 2
      then show ?thesis using inv t unfolding slot_inv_def targets_there_def time set_phase_fields by blast
    qed
  qed
  moreover have "fences_ok L ?w"
    using inv ops fence unfolding slot_inv_def fences_ok_def upd by (auto split: if_splits)
  moreover have "locks_ok ?w" "log_ok ?w"
    using inv by (simp_all add: slot_inv_def locks_ok_def log_ok_def logged_def)
  ultimately show ?thesis by (simp add: slot_inv_def)
qed

lemma unlink_fields [simp]:
  "sw_now (unlink_file p v w) = sw_now w" "sw_next (unlink_file p v w) = sw_next w" "sw_born (unlink_file p v w) = sw_born w"
  "sw_ops (unlink_file p v w) = sw_ops w" "sw_locks (unlink_file p v w) = sw_locks w" "sw_written (unlink_file p v w) = sw_written w"
  "sw_held (unlink_file p v w) = sw_held w" "sw_files (unlink_file p v w) = (sw_files w)(p := None)"
  "sw_log (unlink_file p v w) = (p, v, sw_files w p) # sw_log w"
  by (simp_all add: unlink_file_def)

lemma unlink_after_phase: "set_phase n ph (unlink_file p v w) = unlink_file p v (set_phase n ph w)"
  by (simp add: set_phase_def unlink_file_def)

lemma running_unlink [simp]: "running (unlink_file p v w) m d = running w m d"
  by (simp add: running_def)

lemma in_time_unlink [simp]: "in_time L (unlink_file p v w) m = in_time L w m"
  by (simp add: in_time_def)

text \<open>Removing the file that was meant keeps the invariant when no operation in time relies on it.\<close>

lemma unlink_inv:
  assumes inv: "slot_inv L w" and there: "sw_files w p = Some v"
    and lost: "\<And>m d. running w m d \<Longrightarrow> p = ClaimFile (co_victim d) \<Longrightarrow> fst v = m \<Longrightarrow> co_phase d \<noteq> OpDone \<Longrightarrow>
      (co_phase d = OpCreated \<longrightarrow> sw_born w m + lim_grace L \<le> sw_now w) \<and> (co_phase d \<noteq> OpCreated \<longrightarrow> \<not> in_time L w m)"
    and aimed: "\<And>m d. running w m d \<Longrightarrow> in_time L w m \<Longrightarrow> co_phase d = OpRead \<or> (\<exists>t. co_phase d = OpChecked t) \<Longrightarrow>
      co_target d \<noteq> p"
  shows "slot_inv L (unlink_file p v w)"
proof -
  have "files_ok (unlink_file p v w)"
    using inv by (simp add: slot_inv_def files_ok_def)
  moreover have "claims_there L (unlink_file p v w)"
    unfolding claims_there_def running_unlink in_time_unlink unlink_fields
  proof (intro allI impI conjI)
    fix n c assume r: "running w n c" "co_phase c = OpCreated" "sw_now w < sw_born w n + lim_grace L"
    then have "sw_files w (ClaimFile (co_victim c)) = Some (n, False)" using inv by (simp add: slot_inv_def claims_there_def)
    moreover have "ClaimFile (co_victim c) \<noteq> p"
      using lost [OF r(1)] r there calculation by force
    ultimately show "((sw_files w)(p := None)) (ClaimFile (co_victim c)) = Some (n, False)" by simp
  next
    fix n c assume r: "running w n c" "co_phase c \<noteq> OpCreated" "co_phase c \<noteq> OpDone" "in_time L w n"
    then have "sw_files w (ClaimFile (co_victim c)) = Some (n, True)" using inv by (simp add: slot_inv_def claims_there_def)
    moreover have "ClaimFile (co_victim c) \<noteq> p"
      using lost [OF r(1)] r there calculation by force
    ultimately show "((sw_files w)(p := None)) (ClaimFile (co_victim c)) = Some (n, True)" by simp
  qed
  moreover have "victims_ok L (unlink_file p v w)" "fences_ok L (unlink_file p v w)"
    using inv by (simp_all add: slot_inv_def victims_ok_def fences_ok_def)
  moreover have "targets_there L (unlink_file p v w)"
    using inv aimed unfolding slot_inv_def targets_there_def running_unlink in_time_unlink unlink_fields by (metis fun_upd_other)
  moreover have "locks_ok (unlink_file p v w)"
  proof -
    have gone: "logged (unlink_file p v w) i n" if "p = SlotFile i" "sw_files w (SlotFile i) = Some (n, b)" for i n b
      using that there by (cases v) (auto simp: logged_def)
    have kept: "logged w i n \<Longrightarrow> logged (unlink_file p v w) i n" for i n by (auto simp: logged_def)
    show ?thesis
      using inv gone kept unfolding slot_inv_def locks_ok_def unlink_fields by (metis fun_upd_other)
  qed
  moreover have "log_ok (unlink_file p v w)"
    using inv there by (auto simp: slot_inv_def log_ok_def)
  ultimately show ?thesis by (simp add: slot_inv_def)
qed

lemma op_within:
  assumes "slot_inv L w" and "running w n c"
  shows "n < sw_next w \<and> co_since c \<le> sw_born w n \<and> fst (co_victim c) < sw_next w"
  using assms by (auto simp: slot_inv_def files_ok_def running_def)

lemma claim_held:
  assumes "slot_inv L w" and "running w n c" and "in_time L w n" and "co_phase c \<noteq> OpCreated" and "co_phase c \<noteq> OpDone"
  shows "sw_files w (ClaimFile (co_victim c)) = Some (n, True)"
  using assms by (simp add: slot_inv_def claims_there_def)

text \<open>An operation past its fence check is in time when it unlinks.\<close>

lemma checked_in_time:
  assumes "slot_inv L w" and "limits_ok L" and "running w n c" and "co_phase c = OpChecked t" and "sw_now w \<le> t + lim_freeze L"
  shows "in_time L w n"
proof -
  have "t \<le> co_since c + lim_hold L"
    using assms(1,3,4) unfolding slot_inv_def fences_ok_def running_def by blast
  then show ?thesis using op_within [OF assms(1,3)] assms(2,5) by (auto simp: in_time_def limits_ok_def)
qed

lemma drop_in_time:
  assumes "slot_inv L w" and "limits_ok L" and "running w n c" and "co_phase c = OpDropChecked t" and "sw_now w \<le> t + lim_freeze L"
  shows "in_time L w n"
proof -
  have "t \<le> co_since c + 3 / 2 * lim_hold L"
    using assms(1,3,4) unfolding slot_inv_def fences_ok_def running_def by blast
  then show ?thesis using op_within [OF assms(1,3)] assms(2,5) by (auto simp: in_time_def limits_ok_def)
qed

lemma in_time_phase [simp]: "in_time L (set_phase n ph w) m = in_time L w m"
  by (simp add: in_time_def)

lemma target_unlink_inv:
  assumes inv: "slot_inv L w" and L: "limits_ok L" and run: "running w n c" and ph: "co_phase c = OpChecked t"
    and now: "sw_now w \<le> t + lim_freeze L"
  shows "slot_inv L (set_phase n OpDropping (unlink_file (co_target c) (co_victim c) w))"
  unfolding unlink_after_phase
proof (rule unlink_inv)
  have time: "in_time L w n" by (rule checked_in_time [OF inv L run ph now])
  have mine: "sw_files w (ClaimFile (co_victim c)) = Some (n, True)" using claim_held [OF inv run time] ph by simp
  have there: "sw_files w (co_target c) = Some (co_victim c)"
    using inv run time ph unfolding slot_inv_def targets_there_def by blast
  show "slot_inv L (set_phase n OpDropping w)"
    by (rule phase_inv [OF inv run]) (simp_all add: mine)
  show "sw_files (set_phase n OpDropping w) (co_target c) = Some (co_victim c)" by (simp add: there)
  fix m d assume d: "running (set_phase n OpDropping w) m d"
  then obtain e where e: "running w m e" "co_victim d = co_victim e" "co_target d = co_target e"
      "if m = n then co_phase d = OpDropping else d = e"
    by (auto simp: running_set_phase split: if_splits)
  show "co_target d \<noteq> co_target c"
    if "in_time L (set_phase n OpDropping w) m" "co_phase d = OpRead \<or> (\<exists>t. co_phase d = OpChecked t)"
  proof
    assume same: "co_target d = co_target c"
    have m: "m \<noteq> n" using that(2) e(4) by auto
    then have de: "d = e" using e(4) by simp
    then have "sw_files w (co_target e) = Some (co_victim e)"
      using inv e(1) that unfolding slot_inv_def targets_there_def in_time_phase by blast
    then have "co_victim e = co_victim c" using same e(3) there by simp
    moreover have "sw_files w (ClaimFile (co_victim e)) = Some (m, True)"
      using claim_held [OF inv e(1)] that de by auto
    ultimately show False using mine m(1) by simp
  qed
  show "(co_phase d = OpCreated \<longrightarrow> sw_born (set_phase n OpDropping w) m + lim_grace L \<le> sw_now (set_phase n OpDropping w)) \<and>
      (co_phase d \<noteq> OpCreated \<longrightarrow> \<not> in_time L (set_phase n OpDropping w) m)"
    if p: "co_target c = ClaimFile (co_victim d)" "fst (co_victim c) = m" "co_phase d \<noteq> OpDone"
  proof -
    have v: "(\<not> snd (co_victim c) \<longrightarrow> sw_born w m + lim_grace L \<le> sw_now w) \<and> (snd (co_victim c) \<longrightarrow> \<not> in_time L w m)"
      using inv run p(1,2) e(1) unfolding slot_inv_def victims_ok_def running_def by blast
    have m: "m \<noteq> n"
    proof
      assume "m = n"
      then have "sw_files w (ClaimFile (co_victim c)) = sw_files w (co_target c)" using p(1) e(1,2) run running_unique by auto
      then have "co_victim c = (n, True)" using mine there by simp
      then show False using v \<open>m = n\<close> time by simp
    qed
    then have "d = e" using e(4) by simp
    have "sw_files w (ClaimFile (co_victim e)) = Some (co_victim c)" using there p(1) e(2) by simp
    then have "co_phase e = OpCreated \<longrightarrow> sw_now w < sw_born w m + lim_grace L \<longrightarrow> \<not> snd (co_victim c)"
        and "co_phase e \<noteq> OpCreated \<longrightarrow> in_time L w m \<longrightarrow> snd (co_victim c)"
      using inv e(1) p(3) \<open>d = e\<close> unfolding slot_inv_def claims_there_def by (metis option.inject snd_conv)+
    then show ?thesis using v \<open>d = e\<close> by auto
  qed
qed

lemma drop_unlink_inv:
  assumes inv: "slot_inv L w" and L: "limits_ok L" and run: "running w n c" and ph: "co_phase c = OpDropChecked t"
    and now: "sw_now w \<le> t + lim_freeze L"
  shows "slot_inv L (set_phase n OpDone (unlink_file (ClaimFile (co_victim c)) (n, True) w))"
  unfolding unlink_after_phase
proof (rule unlink_inv)
  have time: "in_time L w n" by (rule drop_in_time [OF inv L run ph now])
  have mine: "sw_files w (ClaimFile (co_victim c)) = Some (n, True)" using claim_held [OF inv run time] ph by simp
  show "slot_inv L (set_phase n OpDone w)"
    by (rule phase_inv [OF inv run]) simp_all
  show "sw_files (set_phase n OpDone w) (ClaimFile (co_victim c)) = Some (n, True)" by (simp add: mine)
  fix m d assume d: "running (set_phase n OpDone w) m d"
  then obtain e where e: "running w m e" "co_target d = co_target e" "co_victim d = co_victim e"
      "if m = n then co_phase d = OpDone else d = e"
    by (auto simp: running_set_phase split: if_splits)
  show "co_target d \<noteq> ClaimFile (co_victim c)"
    if "in_time L (set_phase n OpDone w) m" "co_phase d = OpRead \<or> (\<exists>t. co_phase d = OpChecked t)"
  proof
    assume same: "co_target d = ClaimFile (co_victim c)"
    have "m \<noteq> n" using that(2) e(4) by auto
    then have "sw_files w (co_target e) = Some (co_victim e)"
      using inv e(1,4) that unfolding slot_inv_def targets_there_def in_time_phase by (metis (full_types))
    then have "co_victim e = (n, True)" using same e(2) mine by simp
    then have "\<not> in_time L w n"
      using inv e(1) same e(2) run unfolding slot_inv_def victims_ok_def running_def by fastforce
    then show False using time by simp
  qed
  show "(co_phase d = OpCreated \<longrightarrow> sw_born (set_phase n OpDone w) m + lim_grace L \<le> sw_now (set_phase n OpDone w)) \<and>
      (co_phase d \<noteq> OpCreated \<longrightarrow> \<not> in_time L (set_phase n OpDone w) m)"
    if "ClaimFile (co_victim c) = ClaimFile (co_victim d)" "fst (n, True) = m" "co_phase d \<noteq> OpDone"
    using that e(4) by simp
qed

text \<open>The other steps.\<close>

lemma write_file_get:
  "sw_files (write_file p n w) q = (if q = p \<and> sw_files w p = Some (n, False) then Some (n, True) else sw_files w q)"
  by (simp add: write_file_def)

lemma write_fields [simp]:
  "sw_now (write_file p n w) = sw_now w" "sw_next (write_file p n w) = sw_next w" "sw_born (write_file p n w) = sw_born w"
  "sw_ops (write_file p n w) = sw_ops w" "sw_locks (write_file p n w) = sw_locks w" "sw_written (write_file p n w) = sw_written w"
  "sw_held (write_file p n w) = sw_held w" "sw_log (write_file p n w) = sw_log w"
  by (simp_all add: write_file_def)

lemma write_running [simp]: "running (write_file p n w) m d = running w m d" "in_time L (write_file p n w) m = in_time L w m"
  by (simp_all add: running_def in_time_def)

text \<open>A file written within the stall is not one anybody is about to delete as empty.\<close>

lemma not_aimed:
  assumes "slot_inv L w" and "limits_ok L" and "sw_now w \<le> sw_born w n + lim_stall L" and "running w m d"
  shows "co_victim d \<noteq> (n, False)"
proof
  assume "co_victim d = (n, False)"
  then have "sw_born w n + lim_grace L \<le> sw_now w"
    using assms(1,4) unfolding slot_inv_def victims_ok_def running_def by fastforce
  then show False using assms(2,3) by (simp add: limits_ok_def)
qed

lemma write_targets:
  assumes "slot_inv L w" and "limits_ok L" and "sw_now w \<le> sw_born w n + lim_stall L"
  shows "targets_there L (write_file p n w)"
  unfolding targets_there_def write_running
proof (intro allI impI)
  fix m d assume r: "running w m d" "in_time L w m" "co_phase d = OpRead \<or> (\<exists>t. co_phase d = OpChecked t)"
  then have "sw_files w (co_target d) = Some (co_victim d)"
    using assms(1) unfolding slot_inv_def targets_there_def by blast
  then show "sw_files (write_file p n w) (co_target d) = Some (co_victim d)"
    using not_aimed [OF assms r(1)] by (auto simp: write_file_get)
qed

lemma lock_write_inv:
  assumes inv: "slot_inv L w" and L: "limits_ok L" and lock: "sw_locks w n = Some i" and fresh: "n \<notin> set (sw_written w)"
    and now: "sw_now w \<le> sw_born w n + lim_stall L"
  shows "slot_inv L ((write_file (SlotFile i) n w)\<lparr>sw_written := n # sw_written w\<rparr>)" (is "slot_inv L ?w")
proof -
  have run: "running ?w m d = running w m d" "in_time L ?w m = in_time L w m" for m d by (simp_all add: running_def in_time_def)
  have files: "sw_files ?w q = (if q = SlotFile i \<and> sw_files w (SlotFile i) = Some (n, False) then Some (n, True) else sw_files w q)" for q
    by (simp add: write_file_get)
  have "files_ok ?w"
    using inv lock unfolding slot_inv_def files_ok_def files by (auto split: if_splits)
  moreover have "claims_there L ?w"
    using inv unfolding slot_inv_def claims_there_def run files by simp
  moreover have "victims_ok L ?w" "fences_ok L ?w" "log_ok ?w"
    using inv unfolding slot_inv_def victims_ok_def fences_ok_def log_ok_def run by simp_all
  moreover have "targets_there L ?w"
    using write_targets [OF inv L now, of "SlotFile i"] unfolding targets_there_def run write_running by simp
  moreover have "locks_ok ?w"
  proof -
    have lo: "locks_ok w" using inv by (simp add: slot_inv_def)
    have log: "logged ?w j m = logged w j m" for j m by (simp add: logged_def)
    have "sw_files ?w (SlotFile j) = Some (m, m \<in> set (sw_written ?w)) \<or> logged w j m" if m: "sw_locks w m = Some j" for m j
    proof (cases "logged w j m")
      case False
      then have "sw_files w (SlotFile j) = Some (m, m \<in> set (sw_written w))" using lo m unfolding locks_ok_def by blast
      then show ?thesis using m lock fresh unfolding files by auto
    qed simp
    moreover have "sw_files ?w (SlotFile j) = Some (m, True) \<or> logged w j m" if "(j, m) \<in> set (sw_held w)" for m j
      using lo that unfolding locks_ok_def files by fastforce
    ultimately show ?thesis unfolding locks_ok_def log by simp
  qed
  ultimately show ?thesis by (simp add: slot_inv_def)
qed

lemma claim_write_inv:
  assumes inv: "slot_inv L w" and L: "limits_ok L" and run: "running w n c" and ph: "co_phase c = OpCreated"
    and now: "sw_now w \<le> sw_born w n + lim_stall L"
  shows "slot_inv L (set_phase n OpWritten (write_file (ClaimFile (co_victim c)) n w))" (is "slot_inv L ?w")
proof -
  let ?p = "ClaimFile (co_victim c)"
  have ops: "sw_ops w n = Some c" using run by (simp add: running_def)
  have upd: "sw_ops ?w = (sw_ops w)(n \<mapsto> c\<lparr>co_phase := OpWritten\<rparr>)" by (simp add: set_phase_def ops)
  have there: "sw_files w ?p = Some (n, False)"
    using inv run ph now L by (simp add: slot_inv_def claims_there_def limits_ok_def)
  have files: "sw_files ?w q = (if q = ?p then Some (n, True) else sw_files w q)" for q
    by (simp add: write_file_get there)
  have run': "running ?w m d \<longleftrightarrow> (if m = n then d = c\<lparr>co_phase := OpWritten\<rparr> else running w m d)" for m d
    using run running_unique by (auto simp: running_set_phase)
  have time: "in_time L ?w m = in_time L w m" for m by simp
  have "files_ok ?w"
  proof -
    have fo: "files_ok w" using inv by (simp add: slot_inv_def)
    have "\<exists>d. sw_ops ?w m = Some d \<and> co_victim d = k" if f: "sw_files ?w (ClaimFile k) = Some (m, b)" for k m b
    proof (cases "k = co_victim c")
      case True
      then have "m = n" using f by (simp add: write_file_get there)
      then show ?thesis using True by (simp add: upd)
    next
      case False
      then have "sw_files w (ClaimFile k) = Some (m, b)" using f by (simp add: write_file_get)
      then obtain d where d: "sw_ops w m = Some d" "co_victim d = k" using fo unfolding files_ok_def by blast
      show ?thesis using d ops unfolding upd by (cases "m = n") auto
    qed
    moreover have "sw_locks w m = Some i" if "sw_files ?w (SlotFile i) = Some (m, b)" for m i b
      using that fo by (simp add: write_file_get files_ok_def)
    moreover have "sw_ops ?w m = None" if "sw_locks w m = Some i" for m i
      using that fo ops unfolding upd by (auto simp: files_ok_def)
    moreover have "m < sw_next w \<and> fst (co_victim d) < sw_next w \<and> co_since d \<le> sw_born w m" if "sw_ops ?w m = Some d" for m d
      using that fo ops unfolding upd files_ok_def by (auto split: if_splits)
    ultimately show ?thesis using fo unfolding files_ok_def set_phase_fields write_fields by blast
  qed
  moreover have "claims_there L ?w"
    unfolding claims_there_def
  proof (intro allI impI)
    fix m d assume "running ?w m d"
    then consider "m = n" "d = c\<lparr>co_phase := OpWritten\<rparr>" | "m \<noteq> n" "running w m d" by (auto simp: run' split: if_splits)
    then show "(co_phase d = OpCreated \<longrightarrow> sw_now ?w < sw_born ?w m + lim_grace L \<longrightarrow> sw_files ?w (ClaimFile (co_victim d)) = Some (m, False)) \<and>
       (co_phase d \<noteq> OpCreated \<longrightarrow> co_phase d \<noteq> OpDone \<longrightarrow> in_time L ?w m \<longrightarrow> sw_files ?w (ClaimFile (co_victim d)) = Some (m, True))"
    proof cases
      case 1
      then show ?thesis by (simp add: write_file_get there)
    next
      case 2
      then have "(co_phase d = OpCreated \<longrightarrow> sw_now w < sw_born w m + lim_grace L \<longrightarrow> sw_files w (ClaimFile (co_victim d)) = Some (m, False)) \<and>
         (co_phase d \<noteq> OpCreated \<longrightarrow> co_phase d \<noteq> OpDone \<longrightarrow> in_time L w m \<longrightarrow> sw_files w (ClaimFile (co_victim d)) = Some (m, True))"
        using inv by (simp add: slot_inv_def claims_there_def)
      then show ?thesis using 2(1) there unfolding time set_phase_fields write_fields by (auto simp: write_file_get)
    qed
  qed
  moreover have "victims_ok L ?w"
  proof -
    have "running ?w m d \<Longrightarrow> \<exists>e. running w m e" for m d using run by (auto simp: run' split: if_splits)
    then show ?thesis
      using inv ops unfolding slot_inv_def victims_ok_def upd time by (fastforce split: if_splits)
  qed
  moreover have "targets_there L ?w"
    unfolding targets_there_def
  proof (intro allI impI)
    fix m d assume r: "running ?w m d" "in_time L ?w m" "co_phase d = OpRead \<or> (\<exists>t. co_phase d = OpChecked t)"
    then have "m \<noteq> n" "running w m d" by (auto simp: run' split: if_splits)
    then show "sw_files ?w (co_target d) = Some (co_victim d)"
      using write_targets [OF inv L now, of ?p] r(2,3) unfolding targets_there_def write_running in_time_phase set_phase_fields by blast
  qed
  moreover have "fences_ok L ?w"
    using inv ops unfolding slot_inv_def fences_ok_def upd by auto
  moreover have "locks_ok ?w" "log_ok ?w"
    using inv unfolding slot_inv_def locks_ok_def log_ok_def logged_def files by simp_all
  ultimately show ?thesis by (simp add: slot_inv_def)
qed

text \<open>A created file bears a token nobody knows yet.\<close>

lemma create_fields [simp]:
  "sw_now (create_file p w) = sw_now w" "sw_next (create_file p w) = Suc (sw_next w)"
  "sw_born (create_file p w) = (sw_born w)(sw_next w := sw_now w)" "sw_files (create_file p w) = (sw_files w)(p \<mapsto> (sw_next w, False))"
  "sw_ops (create_file p w) = sw_ops w" "sw_locks (create_file p w) = sw_locks w" "sw_written (create_file p w) = sw_written w"
  "sw_held (create_file p w) = sw_held w" "sw_log (create_file p w) = sw_log w"
  by (simp_all add: create_file_def)

lemma known_tokens:
  assumes "slot_inv L w"
  shows "running w m d \<Longrightarrow> m < sw_next w \<and> fst (co_victim d) < sw_next w" "sw_ops w m = Some d \<Longrightarrow> m < sw_next w \<and> fst (co_victim d) < sw_next w"
    "sw_locks w m = Some i \<Longrightarrow> m < sw_next w"
  using assms by (auto simp: slot_inv_def files_ok_def running_def)

text \<open>What the operations under way rely on is untouched by a creation.\<close>

lemma create_old:
  assumes inv: "slot_inv L w" and free: "sw_files w p = None" and now: "sw_now w' = sw_now w"
    and born: "sw_born w' = (sw_born w)(sw_next w := sw_now w)" and files: "sw_files w' = (sw_files w)(p \<mapsto> (sw_next w, False))"
    and old: "\<And>m. m < sw_next w \<Longrightarrow> sw_ops w' m = sw_ops w m"
  shows "running w m d \<Longrightarrow>
      (co_phase d = OpCreated \<longrightarrow> sw_now w' < sw_born w' m + lim_grace L \<longrightarrow> sw_files w' (ClaimFile (co_victim d)) = Some (m, False)) \<and>
      (co_phase d \<noteq> OpCreated \<longrightarrow> co_phase d \<noteq> OpDone \<longrightarrow> in_time L w' m \<longrightarrow> sw_files w' (ClaimFile (co_victim d)) = Some (m, True))"
    and "running w m d \<Longrightarrow> in_time L w' m \<Longrightarrow> co_phase d = OpRead \<or> (\<exists>t. co_phase d = OpChecked t) \<Longrightarrow>
      sw_files w' (co_target d) = Some (co_victim d)"
    and "sw_ops w m = Some d \<Longrightarrow>
      (\<not> snd (co_victim d) \<longrightarrow> sw_born w' (fst (co_victim d)) + lim_grace L \<le> sw_now w') \<and>
      (snd (co_victim d) \<longrightarrow> (\<forall>k e. co_target d = ClaimFile k \<longrightarrow> running w' (fst (co_victim d)) e \<longrightarrow> \<not> in_time L w' (fst (co_victim d))))"
proof -
  note known = known_tokens [OF inv]
  have time: "in_time L w' m = in_time L w m" "sw_born w' m = sw_born w m" if "m < sw_next w" for m
    using that by (simp_all add: in_time_def now born)
  show "(co_phase d = OpCreated \<longrightarrow> sw_now w' < sw_born w' m + lim_grace L \<longrightarrow> sw_files w' (ClaimFile (co_victim d)) = Some (m, False)) \<and>
      (co_phase d \<noteq> OpCreated \<longrightarrow> co_phase d \<noteq> OpDone \<longrightarrow> in_time L w' m \<longrightarrow> sw_files w' (ClaimFile (co_victim d)) = Some (m, True))"
    if r: "running w m d"
  proof -
    have m: "m < sw_next w" using known(1) [OF r] by simp
    have old: "(co_phase d = OpCreated \<longrightarrow> sw_now w < sw_born w m + lim_grace L \<longrightarrow> sw_files w (ClaimFile (co_victim d)) = Some (m, False)) \<and>
         (co_phase d \<noteq> OpCreated \<longrightarrow> co_phase d \<noteq> OpDone \<longrightarrow> in_time L w m \<longrightarrow> sw_files w (ClaimFile (co_victim d)) = Some (m, True))"
      using inv r by (simp add: slot_inv_def claims_there_def)
    show ?thesis using old free unfolding time [OF m] now files by auto
  qed
  show "sw_files w' (co_target d) = Some (co_victim d)"
    if "running w m d" "in_time L w' m" "co_phase d = OpRead \<or> (\<exists>t. co_phase d = OpChecked t)"
  proof -
    have "in_time L w m" using that(2) time known(1) [OF that(1)] by simp
    then have "sw_files w (co_target d) = Some (co_victim d)"
      using inv that unfolding slot_inv_def targets_there_def by blast
    then show ?thesis using free by (auto simp: files)
  qed
  show "(\<not> snd (co_victim d) \<longrightarrow> sw_born w' (fst (co_victim d)) + lim_grace L \<le> sw_now w') \<and>
      (snd (co_victim d) \<longrightarrow> (\<forall>k e. co_target d = ClaimFile k \<longrightarrow> running w' (fst (co_victim d)) e \<longrightarrow> \<not> in_time L w' (fst (co_victim d))))"
    if r: "sw_ops w m = Some d"
  proof -
    have v: "fst (co_victim d) < sw_next w" using known(2) [OF r] by simp
    have "running w' (fst (co_victim d)) e = running w (fst (co_victim d)) e" for e
      using old [OF v] by (simp add: running_def)
    moreover have "(\<not> snd (co_victim d) \<longrightarrow> sw_born w (fst (co_victim d)) + lim_grace L \<le> sw_now w) \<and>
      (snd (co_victim d) \<longrightarrow> (\<forall>k e. co_target d = ClaimFile k \<longrightarrow> running w (fst (co_victim d)) e \<longrightarrow> \<not> in_time L w (fst (co_victim d))))"
      using inv r unfolding slot_inv_def victims_ok_def by blast
    ultimately show ?thesis unfolding time [OF v] now by simp
  qed
qed

lemma known_files: "slot_inv L w \<Longrightarrow> sw_files w q = Some (n, b) \<Longrightarrow> n < sw_next w"
  unfolding slot_inv_def files_ok_def by (cases q) blast+

lemma lock_create_inv:
  assumes inv: "slot_inv L w" and free: "sw_files w (SlotFile i) = None"
  shows "slot_inv L ((create_file (SlotFile i) w)\<lparr>sw_locks := (sw_locks w)(sw_next w \<mapsto> i)\<rparr>)" (is "slot_inv L ?w")
proof -
  note old = create_old [OF inv free, of ?w]
  note known = known_tokens [OF inv]
  have run: "running ?w m d = running w m d" for m d by (simp add: running_def)
  have none: "sw_ops w (sw_next w) = None" using known(2) [of "sw_next w"] by (cases "sw_ops w (sw_next w)") auto
  have fo: "files_ok w" using inv by (simp add: slot_inv_def)
  have "files_ok ?w"
  proof -
    have "((sw_locks w)(sw_next w \<mapsto> i)) m = Some j" if f: "((sw_files w)(SlotFile i \<mapsto> (sw_next w, False))) (SlotFile j) = Some (m, b)" for j m b
    proof (cases "j = i")
      case True
      then show ?thesis using f by auto
    next
      case False
      then have "sw_files w (SlotFile j) = Some (m, b)" using f by simp
      then show ?thesis using fo known_files [OF inv] unfolding files_ok_def by fastforce
    qed
    then show ?thesis using fo none unfolding files_ok_def by (auto simp: less_Suc_eq)
  qed
  moreover have "claims_there L ?w"
    unfolding claims_there_def run by (intro allI impI, rule old(1)) simp_all
  moreover have "victims_ok L ?w"
    unfolding victims_ok_def by (intro allI impI, rule old(3)) simp_all
  moreover have "targets_there L ?w"
    unfolding targets_there_def run by (intro allI impI, rule old(2)) simp_all
  moreover have "fences_ok L ?w" "log_ok ?w"
    using inv by (simp_all add: slot_inv_def fences_ok_def log_ok_def)
  moreover have "locks_ok ?w"
  proof -
    have lo: "locks_ok w" and new: "sw_next w \<notin> set (sw_written w)" using inv by (simp_all add: slot_inv_def files_ok_def)
    have log: "logged ?w j m = logged w j m" for j m by (simp add: logged_def)
    have "sw_files ?w (SlotFile j) = Some (m, m \<in> set (sw_written w)) \<or> logged w j m" if l: "sw_locks ?w m = Some j" for m j
    proof (cases "m = sw_next w")
      case False
      then have "sw_files w (SlotFile j) = Some (m, m \<in> set (sw_written w)) \<or> logged w j m"
        using l lo by (simp add: locks_ok_def)
      then show ?thesis using free by auto
    qed (use l new in simp)
    moreover have "sw_files ?w (SlotFile j) = Some (m, True) \<or> logged w j m" if h: "(j, m) \<in> set (sw_held w)" for m j
    proof -
      have "sw_files w (SlotFile j) = Some (m, True) \<or> logged w j m" using h lo by (simp add: locks_ok_def)
      then show ?thesis using free by auto
    qed
    ultimately show ?thesis unfolding locks_ok_def log by simp
  qed
  ultimately show ?thesis by (simp add: slot_inv_def)
qed

lemma claim_create_inv:
  assumes inv: "slot_inv L w" and free: "sw_files w (ClaimFile victim) = None" and may: "may_claim L w target victim"
    and since: "since \<le> sw_now w"
  shows "slot_inv L ((create_file (ClaimFile victim) w)\<lparr>sw_ops := (sw_ops w)(sw_next w \<mapsto>
      \<lparr>co_target = target, co_victim = victim, co_since = since, co_phase = OpCreated, co_alive = True\<rparr>)\<rparr>)" (is "slot_inv L ?w")
proof -
  let ?c = "\<lparr>co_target = target, co_victim = victim, co_since = since, co_phase = OpCreated, co_alive = True\<rparr>"
  note old = create_old [OF inv free, of ?w]
  note known = known_tokens [OF inv]
  have ops: "sw_ops ?w m = (if m = sw_next w then Some ?c else sw_ops w m)" for m by simp
  have run: "running ?w m d \<longleftrightarrow> (if m = sw_next w then d = ?c else running w m d)" for m d by (auto simp: running_def)
  have v: "fst victim < sw_next w" using may by (simp add: may_claim_def)
  have nolock: "sw_locks w (sw_next w) = None" using known(3) [of "sw_next w"] by (cases "sw_locks w (sw_next w)") auto
  have fo: "files_ok w" using inv by (simp add: slot_inv_def)
  have "files_ok ?w"
  proof -
    have "\<exists>d. sw_ops ?w m = Some d \<and> co_victim d = k" if f: "sw_files ?w (ClaimFile k) = Some (m, b)" for k m b
    proof (cases "k = victim")
      case True
      then show ?thesis using f by simp
    next
      case False
      then have "sw_files w (ClaimFile k) = Some (m, b)" using f by simp
      then obtain d where d: "sw_ops w m = Some d" "co_victim d = k" using fo unfolding files_ok_def by blast
      then have "m \<noteq> sw_next w" using known(2) by blast
      then show ?thesis using d by simp
    qed
    then show ?thesis using fo v since nolock unfolding files_ok_def by (auto simp: less_Suc_eq)
  qed
  moreover have "claims_there L ?w"
    unfolding claims_there_def
  proof (intro allI impI)
    fix m d assume "running ?w m d"
    then consider "m = sw_next w" "d = ?c" | "running w m d" by (auto simp: run split: if_splits)
    then show "(co_phase d = OpCreated \<longrightarrow> sw_now ?w < sw_born ?w m + lim_grace L \<longrightarrow> sw_files ?w (ClaimFile (co_victim d)) = Some (m, False)) \<and>
       (co_phase d \<noteq> OpCreated \<longrightarrow> co_phase d \<noteq> OpDone \<longrightarrow> in_time L ?w m \<longrightarrow> sw_files ?w (ClaimFile (co_victim d)) = Some (m, True))"
    proof cases
      case 2
      show ?thesis by (rule old(1) [OF _ _ _ _ 2]) simp_all
    qed simp
  qed
  moreover have "victims_ok L ?w"
    unfolding victims_ok_def
  proof (intro allI impI)
    fix m d assume o: "sw_ops ?w m = Some d"
    show "(\<not> snd (co_victim d) \<longrightarrow> sw_born ?w (fst (co_victim d)) + lim_grace L \<le> sw_now ?w) \<and>
      (snd (co_victim d) \<longrightarrow> (\<forall>k e. co_target d = ClaimFile k \<longrightarrow> running ?w (fst (co_victim d)) e \<longrightarrow> \<not> in_time L ?w (fst (co_victim d))))"
    proof (cases "m = sw_next w")
      case True
      then have d: "d = ?c" using o by simp
      have "running ?w (fst victim) e = running w (fst victim) e" for e using v by (simp add: running_def)
      moreover have "sw_born ?w (fst victim) = sw_born w (fst victim)" using v by simp
      ultimately show ?thesis
        using may unfolding d may_claim_def in_time_def by (auto simp: running_def split: if_splits slot_path.splits option.splits)
    next
      case False
      then have "sw_ops w m = Some d" using o by simp
      then show ?thesis by (rule old(3) [rotated 4]) simp_all
    qed
  qed
  moreover have "targets_there L ?w"
    unfolding targets_there_def
  proof (intro allI impI)
    fix m d assume r: "running ?w m d" "in_time L ?w m" "co_phase d = OpRead \<or> (\<exists>t. co_phase d = OpChecked t)"
    then have "running w m d" by (auto simp: run split: if_splits)
    then show "sw_files ?w (co_target d) = Some (co_victim d)" using r(2,3) by (rule old(2) [rotated 4]) simp_all
  qed
  moreover have "fences_ok L ?w"
    using inv unfolding slot_inv_def fences_ok_def by auto
  moreover have "locks_ok ?w" "log_ok ?w"
    using inv by (simp_all add: slot_inv_def locks_ok_def log_ok_def logged_def)
  ultimately show ?thesis by (simp add: slot_inv_def)
qed

lemma tick_inv:
  assumes inv: "slot_inv L w" and d: "0 \<le> d"
  shows "slot_inv L (w\<lparr>sw_now := sw_now w + d\<rparr>)" (is "slot_inv L ?w")
proof -
  have run: "running ?w m c = running w m c" for m c by (simp add: running_def)
  have time: "in_time L ?w m \<Longrightarrow> in_time L w m" for m using d by (simp add: in_time_def)
  have "files_ok ?w" "fences_ok L ?w" "locks_ok ?w" "log_ok ?w"
    using inv by (simp_all add: slot_inv_def files_ok_def fences_ok_def locks_ok_def log_ok_def logged_def)
  moreover have "claims_there L ?w"
    using inv time d unfolding slot_inv_def claims_there_def run by fastforce
  moreover have "targets_there L ?w"
  proof -
    have t: "targets_there L w" using inv by (simp add: slot_inv_def)
    have f: "sw_files ?w = sw_files w" by simp
    show ?thesis using t time unfolding targets_there_def run f by blast
  qed
  moreover have "victims_ok L ?w"
  proof -
    have v: "victims_ok L w" using inv by (simp add: slot_inv_def)
    have f: "sw_ops ?w = sw_ops w" "sw_born ?w = sw_born w" "sw_now ?w = sw_now w + d" by simp_all
    show ?thesis using v time d unfolding victims_ok_def run f by (meson add_increasing2 dual_order.trans order_refl add_left_mono)
  qed
  ultimately show ?thesis by (simp add: slot_inv_def)
qed

lemma crash_inv:
  assumes inv: "slot_inv L w" and run: "running w n c"
  shows "slot_inv L (w\<lparr>sw_ops := (sw_ops w)(n \<mapsto> c\<lparr>co_alive := False\<rparr>)\<rparr>)" (is "slot_inv L ?w")
proof -
  have ops: "sw_ops w n = Some c" using run by (simp add: running_def)
  have run': "running ?w m d \<longleftrightarrow> m \<noteq> n \<and> running w m d" for m d by (auto simp: running_def)
  have time: "in_time L ?w m = in_time L w m" for m by (simp add: in_time_def)
  have "files_ok ?w"
  proof -
    have fo: "files_ok w" using inv by (simp add: slot_inv_def)
    have "\<exists>d. sw_ops ?w m = Some d \<and> co_victim d = k" if f: "sw_files w (ClaimFile k) = Some (m, b)" for k m b
    proof -
      obtain d where "sw_ops w m = Some d" "co_victim d = k" using fo f unfolding files_ok_def by blast
      then show ?thesis using ops by (cases "m = n") auto
    qed
    then show ?thesis using fo ops unfolding files_ok_def by auto
  qed
  moreover have "claims_there L ?w" "targets_there L ?w"
  proof -
    have f: "sw_files ?w = sw_files w" "sw_now ?w = sw_now w" "sw_born ?w = sw_born w" by simp_all
    show "claims_there L ?w" using inv unfolding slot_inv_def claims_there_def run' time f by blast
    show "targets_there L ?w" using inv unfolding slot_inv_def targets_there_def run' time f by blast
  qed
  moreover have "victims_ok L ?w" "fences_ok L ?w"
    using inv ops unfolding slot_inv_def victims_ok_def fences_ok_def run' time by (auto split: if_splits)
  moreover have "locks_ok ?w" "log_ok ?w"
    using inv by (simp_all add: slot_inv_def locks_ok_def log_ok_def logged_def)
  ultimately show ?thesis by (simp add: slot_inv_def)
qed

lemma hold_inv:
  assumes inv: "slot_inv L w" and lock: "sw_locks w n = Some i"
    and there: "sw_files w (SlotFile i) = Some (n, True) \<or> n \<in> set (sw_written w)"
  shows "slot_inv L (w\<lparr>sw_held := (i, n) # sw_held w\<rparr>)" (is "slot_inv L ?w")
proof -
  have run: "running ?w m c = running w m c" "in_time L ?w m = in_time L w m" "logged ?w j m = logged w j m" for m c j
    by (simp_all add: running_def in_time_def logged_def)
  have "sw_files w (SlotFile i) = Some (n, True) \<or> logged w i n"
  proof (cases "n \<in> set (sw_written w)")
    case True
    have "sw_files w (SlotFile i) = Some (n, n \<in> set (sw_written w)) \<or> logged w i n"
      using inv lock unfolding slot_inv_def locks_ok_def by blast
    then show ?thesis using True by simp
  qed (use there in simp)
  moreover have "locks_ok w" using inv by (simp add: slot_inv_def)
  moreover have "sw_files ?w = sw_files w" "sw_locks ?w = sw_locks w" "sw_written ?w = sw_written w" "sw_held ?w = (i, n) # sw_held w"
    by simp_all
  ultimately have "locks_ok ?w"
    unfolding locks_ok_def run by (metis prod.inject set_ConsD)
  moreover have "files_ok ?w" "fences_ok L ?w" "log_ok ?w"
    using inv by (simp_all add: slot_inv_def files_ok_def fences_ok_def log_ok_def)
  moreover have "claims_there L ?w" "victims_ok L ?w" "targets_there L ?w"
  proof -
    have f: "sw_files ?w = sw_files w" "sw_now ?w = sw_now w" "sw_born ?w = sw_born w" "sw_ops ?w = sw_ops w" by simp_all
    show "claims_there L ?w" using inv unfolding slot_inv_def claims_there_def run f by blast
    show "victims_ok L ?w" using inv unfolding slot_inv_def victims_ok_def run f by blast
    show "targets_there L ?w" using inv unfolding slot_inv_def targets_there_def run f by blast
  qed
  ultimately show ?thesis by (simp add: slot_inv_def)
qed

lemma slot_step_inv:
  assumes "slot_step L w w'" and inv: "slot_inv L w" and L: "limits_ok L"
  shows "slot_inv L w'"
  using assms(1)
proof cases
  case (tick d)
  then show ?thesis using tick_inv [OF inv] by simp
next
  case (lock_create i)
  then show ?thesis using lock_create_inv [OF inv] by simp
next
  case (lock_write n i)
  then show ?thesis using lock_write_inv [OF inv L] by simp
next
  case (lock_confirm n i)
  then show ?thesis using hold_inv [OF inv] by simp
next
  case (lock_trust n i)
  then show ?thesis using hold_inv [OF inv] by simp
next
  case (claim_create victim target since)
  then show ?thesis using claim_create_inv [OF inv] by simp
next
  case (claim_write n c)
  then show ?thesis using claim_write_inv [OF inv L] by simp
next
  case (claim_confirm n c)
  show ?thesis unfolding claim_confirm(1) by (rule phase_inv [OF inv claim_confirm(2)]) (simp_all add: claim_confirm(4))
next
  case (claim_unconfirmed n c)
  show ?thesis unfolding claim_unconfirmed(1)
    by (rule phase_inv [OF inv claim_unconfirmed(2)]) (use claim_held [OF inv claim_unconfirmed(2)] claim_unconfirmed(3) in simp_all)
next
  case (claim_lost n c)
  show ?thesis unfolding claim_lost(1) by (rule phase_inv [OF inv claim_lost(2)]) simp_all
next
  case (target_read n c)
  show ?thesis unfolding target_read(1)
    by (rule phase_inv [OF inv target_read(2)]) (use claim_held [OF inv target_read(2)] target_read(3,5) in simp_all)
next
  case (target_fence n c)
  have "sw_files w (co_target c) = Some (co_victim c)" if "in_time L w n"
    using inv target_fence(2,3) that unfolding slot_inv_def targets_there_def by blast
  then show ?thesis unfolding target_fence(1)
    by (intro phase_inv [OF inv target_fence(2)]) (use claim_held [OF inv target_fence(2)] target_fence(3,4) in simp_all)
next
  case (target_unlink n c t)
  then show ?thesis using target_unlink_inv [OF inv L] by simp
next
  case (target_retry n c t)
  show ?thesis unfolding target_retry(1)
    by (rule phase_inv [OF inv target_retry(2)]) (use claim_held [OF inv target_retry(2)] target_retry(3) in simp_all)
next
  case (target_quit n c t)
  have "co_phase c \<noteq> OpCreated" "co_phase c \<noteq> OpDone" using target_quit(3) by auto
  then show ?thesis unfolding target_quit(1)
    by (intro phase_inv [OF inv target_quit(2)]) (use claim_held [OF inv target_quit(2)] in simp_all)
next
  case (drop_read n c)
  show ?thesis unfolding drop_read(1) by (rule phase_inv [OF inv drop_read(2)]) (simp_all add: drop_read(5))
next
  case (drop_fence n c)
  show ?thesis unfolding drop_fence(1)
    by (rule phase_inv [OF inv drop_fence(2)]) (use claim_held [OF inv drop_fence(2)] drop_fence(3,4) in simp_all)
next
  case (drop_unlink n c t)
  then show ?thesis using drop_unlink_inv [OF inv L] by simp
next
  case (drop_retry n c t)
  show ?thesis unfolding drop_retry(1)
    by (rule phase_inv [OF inv drop_retry(2)]) (use claim_held [OF inv drop_retry(2)] drop_retry(3) in simp_all)
next
  case (drop_quit n c)
  show ?thesis unfolding drop_quit(1) by (rule phase_inv [OF inv drop_quit(2)]) simp_all
next
  case (crash n c)
  then show ?thesis using crash_inv [OF inv] by simp
qed

lemma slot_run_inv:
  assumes "slot_run L w" and "limits_ok L"
  shows "slot_inv L w"
  using assms
proof (induction rule: slot_run.induct)
  case run_start
  then show ?case
    by (simp add: slot_inv_def files_ok_def claims_there_def victims_ok_def targets_there_def fences_ok_def locks_ok_def log_ok_def
        slot_start_def running_def)
next
  case (run_step w w')
  then show ?case using slot_step_inv by blast
qed

section \<open>Properties\<close>

text \<open>
  (C8) No delete goes astray: while claimers stay within their limits, whatever the interleaving, crashes and reclaims of dead or
  inert claims included, every unlink of the protocol removes exactly the file it was meant for, a lock file or a claim.
\<close>

theorem claimed_deletes_hit_their_victim:
  assumes "slot_run L w" and "limits_ok L"
  shows "\<forall>(p, meant, found) \<in> set (sw_log w). found = Some meant"
  using slot_run_inv [OF assms] by (auto simp: slot_inv_def log_ok_def)

text \<open>
  (C9) A slot has one holder: of two holders of the same slot, one has been deleted as itself, by its own release or by a process
  that judged it stale. A holder that nobody deleted finds its own written file in the slot.
\<close>

theorem slot_has_one_holder:
  assumes "slot_run L w" and "limits_ok L" and "(i, n) \<in> set (sw_held w)" and "\<not> logged w i n"
  shows "sw_files w (SlotFile i) = Some (n, True) \<and> (\<forall>m. (i, m) \<in> set (sw_held w) \<longrightarrow> m = n \<or> logged w i m)"
proof -
  have "locks_ok w" using slot_run_inv [OF assms(1,2)] by (simp add: slot_inv_def)
  then have h: "\<And>m. (i, m) \<in> set (sw_held w) \<Longrightarrow> sw_files w (SlotFile i) = Some (m, True) \<or> logged w i m"
    by (simp add: locks_ok_def)
  have mine: "sw_files w (SlotFile i) = Some (n, True)" using h [OF assms(3)] assms(4) by simp
  have "m = n \<or> logged w i m" if m: "(i, m) \<in> set (sw_held w)" for m using h [OF m] mine by auto
  then show ?thesis using mine by blast
qed

subsection \<open>Runs\<close>

text \<open>The steps as actions, to build concrete runs.\<close>

datatype slot_action = ATick real | ALock nat | ALockWrite nat | AHold nat | AClaim slot_path token_file | AWrite token
  | AConfirm token | ARead token | AFence token | AUnlink token | ADropRead token | ADropFence token | ADropUnlink token

definition op_of :: "slot_world \<Rightarrow> token \<Rightarrow> claim_op option" where
  "op_of w n = (case sw_ops w n of Some c \<Rightarrow> if co_alive c then Some c else None | None \<Rightarrow> None)"

fun checked_at :: "op_phase \<Rightarrow> real option" where
  "checked_at (OpChecked t) = Some t"
| "checked_at _ = None"

fun drop_checked_at :: "op_phase \<Rightarrow> real option" where
  "drop_checked_at (OpDropChecked t) = Some t"
| "drop_checked_at _ = None"

definition provided :: "bool \<Rightarrow> 'a \<Rightarrow> 'a option" where "provided b x = (if b then Some x else None)"

fun slot_do :: "slot_limits \<Rightarrow> slot_action \<Rightarrow> slot_world \<Rightarrow> slot_world option" where
  "slot_do L (ATick d) w = provided (0 \<le> d) (w\<lparr>sw_now := sw_now w + d\<rparr>)"
| "slot_do L (ALock i) w = provided (sw_files w (SlotFile i) = None)
     ((create_file (SlotFile i) w)\<lparr>sw_locks := (sw_locks w)(sw_next w \<mapsto> i)\<rparr>)"
| "slot_do L (ALockWrite n) w = Option.bind (sw_locks w n) (\<lambda>i.
     provided (n \<notin> set (sw_written w) \<and> sw_now w \<le> sw_born w n + lim_stall L)
       ((write_file (SlotFile i) n w)\<lparr>sw_written := n # sw_written w\<rparr>))"
| "slot_do L (AHold n) w = Option.bind (sw_locks w n) (\<lambda>i.
     provided (sw_files w (SlotFile i) = Some (n, True)) (w\<lparr>sw_held := (i, n) # sw_held w\<rparr>))"
| "slot_do L (AClaim target victim) w =
     provided (sw_files w (ClaimFile victim) = None \<and> may_claim L w target victim)
       ((create_file (ClaimFile victim) w)\<lparr>sw_ops := (sw_ops w)(sw_next w \<mapsto>
         \<lparr>co_target = target, co_victim = victim, co_since = sw_now w, co_phase = OpCreated, co_alive = True\<rparr>)\<rparr>)"
| "slot_do L (AWrite n) w = Option.bind (op_of w n) (\<lambda>c.
     provided (co_phase c = OpCreated \<and> sw_now w \<le> sw_born w n + lim_stall L)
       (set_phase n OpWritten (write_file (ClaimFile (co_victim c)) n w)))"
| "slot_do L (AConfirm n) w = Option.bind (op_of w n) (\<lambda>c.
     provided (co_phase c = OpWritten \<and> sw_files w (ClaimFile (co_victim c)) = Some (n, True)) (set_phase n OpClaimed w))"
| "slot_do L (ARead n) w = Option.bind (op_of w n) (\<lambda>c.
     provided (co_phase c = OpClaimed \<and> sw_now w \<le> co_since c + lim_hold L \<and> sw_files w (co_target c) = Some (co_victim c))
       (set_phase n OpRead w))"
| "slot_do L (AFence n) w = Option.bind (op_of w n) (\<lambda>c.
     provided (co_phase c = OpRead \<and> sw_now w \<le> co_since c + lim_hold L) (set_phase n (OpChecked (sw_now w)) w))"
| "slot_do L (AUnlink n) w = Option.bind (op_of w n) (\<lambda>c. Option.bind (checked_at (co_phase c)) (\<lambda>t.
     provided (sw_now w \<le> t + lim_freeze L) (set_phase n OpDropping (unlink_file (co_target c) (co_victim c) w))))"
| "slot_do L (ADropRead n) w = Option.bind (op_of w n) (\<lambda>c.
     provided (co_phase c = OpDropping \<and> sw_now w \<le> co_since c + 3 / 2 * lim_hold L \<and>
           sw_files w (ClaimFile (co_victim c)) = Some (n, True)) (set_phase n OpDropRead w))"
| "slot_do L (ADropFence n) w = Option.bind (op_of w n) (\<lambda>c.
     provided (co_phase c = OpDropRead \<and> sw_now w \<le> co_since c + 3 / 2 * lim_hold L) (set_phase n (OpDropChecked (sw_now w)) w))"
| "slot_do L (ADropUnlink n) w = Option.bind (op_of w n) (\<lambda>c. Option.bind (drop_checked_at (co_phase c)) (\<lambda>t.
     provided (sw_now w \<le> t + lim_freeze L) (set_phase n OpDone (unlink_file (ClaimFile (co_victim c)) (n, True) w))))"

lemma provided_Some: "provided b x = Some y \<longleftrightarrow> b \<and> y = x"
  by (auto simp: provided_def)

lemma op_of_running: "op_of w n = Some c \<Longrightarrow> running w n c"
  by (auto simp: op_of_def running_def split: option.splits if_splits)

lemma checked_at_Some: "checked_at ph = Some t \<Longrightarrow> ph = OpChecked t" "drop_checked_at ph = Some t \<Longrightarrow> ph = OpDropChecked t"
  by (cases ph; simp)+

lemma slot_do_step: "slot_do L a w = Some w' \<Longrightarrow> slot_step L w w'"
  by (cases a)
    (auto simp: provided_Some bind_eq_Some_conv intro: slot_step.intros dest!: op_of_running checked_at_Some)

fun slot_play :: "slot_limits \<Rightarrow> slot_action list \<Rightarrow> slot_world \<Rightarrow> slot_world option" where
  "slot_play L [] w = Some w"
| "slot_play L (a # as) w = Option.bind (slot_do L a w) (slot_play L as)"

lemma slot_play_run: "slot_play L as w = Some w' \<Longrightarrow> slot_run L w \<Longrightarrow> slot_run L w'"
  by (induction as arbitrary: w) (auto simp: bind_eq_Some_conv intro: run_step dest: slot_do_step)

definition slot_production :: "real \<Rightarrow> slot_limits" where
  "slot_production stall = \<lparr>lim_hold = 5000, lim_stale = 30000, lim_grace = 4000, lim_freeze = 500, lim_stall = stall\<rparr>"

definition release_run :: "slot_action list" where
  "release_run = [ALock 0, ALockWrite 0, AHold 0, AClaim (SlotFile 0) (0, True), AWrite 1, AConfirm 1, ARead 1, AFence 1, AUnlink 1,
     ADropRead 1, ADropFence 1, ADropUnlink 1, ALock 0, ALockWrite 2, AHold 2]"

definition seen_of :: "slot_world option \<Rightarrow> (nat \<times> token) list \<times> (slot_path \<times> token_file \<times> token_file option) list" where
  "seen_of r = (case r of Some w \<Rightarrow> (sw_held w, sw_log w) | None \<Rightarrow> ([], []))"

lemma release_run_result:
  "seen_of (slot_play (slot_production 1000) release_run slot_start) =
     ([(0, 2), (0, 0)], [(ClaimFile (0, True), (1, True), Some (1, True)), (SlotFile 0, (0, True), Some (0, True))])"
  by code_simp


lemma release_run_ends: "\<exists>w. slot_run (slot_production 1000) w \<and> sw_held w = [(0, 2), (0, 0)] \<and>
    sw_log w = [(ClaimFile (0, True), (1, True), Some (1, True)), (SlotFile 0, (0, True), Some (0, True))]"
proof -
  obtain w where w: "slot_play (slot_production 1000) release_run slot_start = Some w"
    using release_run_result by (cases "slot_play (slot_production 1000) release_run slot_start") (auto simp: seen_of_def)
  then show ?thesis using release_run_result slot_play_run [OF w run_start] by (auto simp: seen_of_def)
qed

lemma production_limits: "limits_ok (slot_production 1000)"
  by (simp add: limits_ok_def slot_production_def)

theorem claimed_deletes_hit_their_victim_witness:
  "\<exists>w. slot_run (slot_production 1000) w \<and> length (sw_log w) = 2 \<and> (\<forall>(p, meant, found) \<in> set (sw_log w). found = Some meant)"
proof -
  obtain w where "slot_run (slot_production 1000) w" "length (sw_log w) = 2" using release_run_ends by auto
  then show ?thesis using claimed_deletes_hit_their_victim [OF _ production_limits] by blast
qed

theorem slot_has_one_holder_witness:
  "\<exists>w. slot_run (slot_production 1000) w \<and> sw_held w = [(0, 2), (0, 0)] \<and> sw_files w (SlotFile 0) = Some (2, True) \<and> logged w 0 0"
proof -
  obtain w where w: "slot_run (slot_production 1000) w" "sw_held w = [(0, 2), (0, 0)]"
      "sw_log w = [(ClaimFile (0, True), (1, True), Some (1, True)), (SlotFile 0, (0, True), Some (0, True))]"
    using release_run_ends by blast
  have "\<not> logged w 0 2" by (simp add: logged_def w(3))
  then show ?thesis using slot_has_one_holder [OF w(1) production_limits, of 0 2] w by fastforce
qed

definition stalled_run :: "slot_action list" where
  "stalled_run = [ALock 0, ALockWrite 0, AClaim (SlotFile 0) (0, True), ATick 4000,
     AClaim (ClaimFile (0, True)) (1, False), AWrite 2, AConfirm 2, ARead 2, AFence 2, ATick 100,
     AWrite 1, AConfirm 1, ARead 1, AFence 1, AUnlink 2,
     AClaim (SlotFile 0) (0, True), AWrite 3, AConfirm 3, ARead 3, AFence 3, AUnlink 3,
     ALock 0, ALockWrite 4, AHold 4, AUnlink 1, ALock 0, ALockWrite 5, AHold 5]"

text \<open>
  (C10) The limit on the stall is needed: a claimer that takes more than the grace between creating its claim and writing it may have
  the claim reclaimed as empty just after it confirmed it, and then deletes another holder's lock: two holders of one slot,
  with no process ever frozen for more than half a second before an unlink.
\<close>

theorem stalled_claim_breaks_exclusion:
  "\<exists>w. slot_run (slot_production 4500) w \<and> sw_held w = [(0, 5), (0, 4)] \<and> \<not> logged w 0 5 \<and> \<not> logged w 0 4 \<and>
     (SlotFile 0, (0, True), Some (4, True)) \<in> set (sw_log w)"
proof -
  have r: "seen_of (slot_play (slot_production 4500) stalled_run slot_start) =
     ([(0, 5), (0, 4)], [(SlotFile 0, (0, True), Some (4, True)), (SlotFile 0, (0, True), Some (0, True)),
       (ClaimFile (0, True), (1, False), Some (1, True))])"
    by code_simp
  obtain w where w: "slot_play (slot_production 4500) stalled_run slot_start = Some w"
    using r by (cases "slot_play (slot_production 4500) stalled_run slot_start") (auto simp: seen_of_def)
  have "slot_run (slot_production 4500) w" by (rule slot_play_run [OF w run_start])
  then show ?thesis using r by (auto simp: w seen_of_def logged_def)
qed

end
